(* ===== verification/Prelude_JS.thy ===== *)
theory Prelude_JS
  imports Complex_Main "HOL-Library.Word" "HOL-Library.AList"
begin

text \<open>
  Shared vocabulary of the development: the JavaScript containers and string operations
  the server uses, and the generic lemmas about them.

  A JavaScript \<open>Map\<close> keeps its keys in insertion order, \<open>set\<close> on a present key
  overwrites in place and \<open>set\<close> on a new key appends; this is exactly
  \<^theory_text>\<open>AList.update\<close> on an association list with distinct keys.  A
  JavaScript \<open>Set\<close> is a list without duplicates in insertion order.  Strings are lists of
  \<open>char\<close>: one \<open>char\<close> per UTF-16 code unit, for code units below 256.
\<close>

named_theorems ok_simps \<open>characterisations of successful results\<close>
named_theorems inv_intros \<open>preservation of component invariants\<close>

section \<open>Maps in insertion order\<close>

type_synonym ('k, 'v) jsmap = "('k \<times> 'v) list"
type_synonym byte = "8 word"
type_synonym bytes = "8 word list"

abbreviation map_get :: "('k, 'v) jsmap \<Rightarrow> 'k \<Rightarrow> 'v option" where
  "map_get m k \<equiv> map_of m k"

abbreviation map_set :: "'k \<Rightarrow> 'v \<Rightarrow> ('k, 'v) jsmap \<Rightarrow> ('k, 'v) jsmap" where
  "map_set k v m \<equiv> AList.update k v m"

abbreviation map_delete :: "'k \<Rightarrow> ('k, 'v) jsmap \<Rightarrow> ('k, 'v) jsmap" where
  "map_delete k m \<equiv> AList.delete k m"

abbreviation map_keys :: "('k, 'v) jsmap \<Rightarrow> 'k list" where
  "map_keys m \<equiv> map fst m"

abbreviation map_values :: "('k, 'v) jsmap \<Rightarrow> 'v list" where
  "map_values m \<equiv> map snd m"

definition wf_map :: "('k, 'v) jsmap \<Rightarrow> bool" where
  "wf_map m \<longleftrightarrow> distinct (map_keys m)"

lemma wf_map_Nil [simp, intro]: "wf_map []"
  by (simp add: wf_map_def)

lemma wf_map_set [simp, intro]: "wf_map m \<Longrightarrow> wf_map (map_set k v m)"
  by (simp add: wf_map_def distinct_update)

lemma wf_map_delete [simp, intro]: "wf_map m \<Longrightarrow> wf_map (map_delete k m)"
  by (simp add: wf_map_def distinct_delete)

lemma map_get_set: "map_get (map_set k v m) k' = (if k' = k then Some v else map_get m k')"
  by (simp add: update_conv')

lemma map_get_delete: "map_get (map_delete k m) k' = (if k' = k then None else map_get m k')"
  by (simp add: delete_conv')

lemma map_get_set_same [simp]: "map_get (map_set k v m) k = Some v"
  by (simp add: map_get_set)

lemma map_get_set_other [simp]: "k' \<noteq> k \<Longrightarrow> map_get (map_set k v m) k' = map_get m k'"
  by (simp add: map_get_set)

lemma map_get_delete_same [simp]: "map_get (map_delete k m) k = None"
  by (simp add: map_get_delete)

lemma map_get_delete_other [simp]: "k' \<noteq> k \<Longrightarrow> map_get (map_delete k m) k' = map_get m k'"
  by (simp add: map_get_delete)

lemma map_get_in_values: "map_get m k = Some v \<Longrightarrow> v \<in> set (map_values m)"
  by (force dest: map_of_SomeD)

lemma wf_map_get_iff: "wf_map m \<Longrightarrow> (k, v) \<in> set m \<longleftrightarrow> map_get m k = Some v"
  by (simp add: wf_map_def)

lemma map_get_None_iff: "map_get m k = None \<longleftrightarrow> k \<notin> set (map_keys m)"
  by (simp add: map_of_eq_None_iff)

lemma length_map_set_new: "map_get m k = None \<Longrightarrow> length (map_set k v m) = Suc (length m)"
  by (induction m) (auto split: if_splits)

lemma map_set_new: "map_get m k = None \<Longrightarrow> map_set k v m = m @ [(k, v)]"
  by (induction m) (auto split: if_splits)

lemma map_delete_filter: "map_delete k m = filter (\<lambda>p. fst p \<noteq> k) m"
  by (auto simp: AList.delete_eq case_prod_unfold intro: filter_cong)

lemma wf_map_count:
  assumes "wf_map m"
  shows "length (filter P (map_values m)) = card {k. \<exists>v. map_get m k = Some v \<and> P v}"
proof -
  have "{k. \<exists>v. map_get m k = Some v \<and> P v} = fst ` set (filter (\<lambda>p. P (snd p)) m)"
    using assms by (force simp: wf_map_def)
  moreover have "distinct (map fst (filter (\<lambda>p. P (snd p)) m))"
    using assms by (auto simp: wf_map_def intro: distinct_map_filter)
  ultimately have "card {k. \<exists>v. map_get m k = Some v \<and> P v} = length (filter (\<lambda>p. P (snd p)) m)"
    by (metis distinct_card length_map list.set_map)
  then show ?thesis by (simp add: filter_map o_def)
qed

lemma finite_map_get: "finite {k. \<exists>v. map_get m k = Some v \<and> P v}"
  by (rule finite_subset [of _ "dom (map_of m)"]) (auto simp: finite_dom_map_of)

section \<open>Sets in insertion order\<close>

definition set_add :: "'a \<Rightarrow> 'a list \<Rightarrow> 'a list" where
  "set_add x xs = (if x \<in> set xs then xs else xs @ [x])"

definition set_del :: "'a \<Rightarrow> 'a list \<Rightarrow> 'a list" where
  "set_del x xs = filter (\<lambda>y. y \<noteq> x) xs"

lemma set_set_add [simp]: "set (set_add x xs) = insert x (set xs)"
  by (auto simp: set_add_def)

lemma set_set_del [simp]: "set (set_del x xs) = set xs - {x}"
  by (auto simp: set_del_def)

lemma distinct_set_add [simp, intro]: "distinct xs \<Longrightarrow> distinct (set_add x xs)"
  by (simp add: set_add_def)

lemma distinct_set_del [simp, intro]: "distinct xs \<Longrightarrow> distinct (set_del x xs)"
  by (simp add: set_del_def)

lemma set_add_not_Nil [simp]: "set_add x xs \<noteq> []"
  by (auto simp: set_add_def)

lemma set_map_filter: "y \<in> set (List.map_filter f xs) \<longleftrightarrow> (\<exists>x\<in>set xs. f x = Some y)"
  by (induction xs) (auto simp: List.map_filter_def)

section \<open>Results\<close>

text \<open>The program's \<open>Result\<close> type: \<open>Inr v\<close> for \<open>{ok: true, value: v}\<close>,
  \<open>Inl e\<close> for \<open>{ok: false, error: e}\<close>.\<close>

type_synonym ('e, 'a) result = "'e + 'a"

abbreviation ok :: "'a \<Rightarrow> ('e, 'a) result" where "ok \<equiv> Inr"
abbreviation err :: "'e \<Rightarrow> ('e, 'a) result" where "err \<equiv> Inl"

lemma if_err_ok [ok_simps]:
  "(if b then err e else r) = ok v \<longleftrightarrow> \<not> b \<and> r = ok v"
  "(if b then r else err e) = ok v \<longleftrightarrow> b \<and> r = ok v"
  by auto

lemma case_option_err_ok [ok_simps]:
  "(case m of None \<Rightarrow> err e | Some x \<Rightarrow> f x) = ok v \<longleftrightarrow> (\<exists>x. m = Some x \<and> f x = ok v)"
  by (cases m) auto

lemma case_sum_err_ok [ok_simps]:
  "(case r of Inl e \<Rightarrow> err (g e) | Inr x \<Rightarrow> f x) = ok v \<longleftrightarrow> (\<exists>x. r = ok x \<and> f x = ok v)"
  by (cases r) auto

section \<open>Strings\<close>

definition starts_with :: "string \<Rightarrow> string \<Rightarrow> bool" where
  "starts_with s p \<longleftrightarrow> take (length p) s = p"

lemma starts_with_iff: "starts_with s p \<longleftrightarrow> (\<exists>r. s = p @ r)"
  by (metis starts_with_def append_eq_conv_conj)

lemma starts_with_append [simp]: "starts_with (p @ r) p"
  by (auto simp: starts_with_iff)

lemma starts_with_Nil [simp]: "starts_with s []"
  by (simp add: starts_with_def)

section \<open>Stream processors\<close>

text \<open>
  A component that consumes a stream element by element, keeps a state and emits two kinds
  of output.  The client hands it the stream in chunks of arbitrary size; the laws say the
  chunking is invisible and lift one-step facts to whole streams.
\<close>

locale stream_processor =
  fixes step :: "'b \<Rightarrow> 's \<Rightarrow> 's \<times> 'c list \<times> 'r list"
    and run :: "'b list \<Rightarrow> 's \<Rightarrow> 's \<times> 'c list \<times> 'r list"
  assumes run_Nil: "run [] s = (s, [], [])"
    and run_Cons: "run (b # bs) s =
      (let (s1, c1, r1) = step b s; (s2, c2, r2) = run bs s1 in (s2, c1 @ c2, r1 @ r2))"
begin

lemma run_append:
  "run (xs @ ys) s =
     (let (s1, c1, r1) = run xs s; (s2, c2, r2) = run ys s1 in (s2, c1 @ c2, r1 @ r2))"
  by (induction xs arbitrary: s) (auto simp: run_Nil run_Cons split: prod.splits)

lemma run_invariant:
  assumes "\<And>b s s' c r. P s \<Longrightarrow> step b s = (s', c, r) \<Longrightarrow> P s'"
    and "P s" and "run bs s = (s', c, r)"
  shows "P s'"
  using assms(2,3)
proof (induction bs arbitrary: s s' c r)
  case Nil
  then show ?case by (simp add: run_Nil)
next
  case (Cons b bs)
  obtain s1 c1 r1 where st: "step b s = (s1, c1, r1)" by (metis prod_cases3)
  obtain s2 c2 r2 where rn: "run bs s1 = (s2, c2, r2)" by (metis prod_cases3)
  from Cons.prems st rn have "s' = s2" by (simp add: run_Cons)
  with Cons.IH [OF assms(1) [OF Cons.prems(1) st] rn] show ?case by simp
qed

lemma run_outputs:
  assumes "\<And>b s s' c r. P s \<Longrightarrow> step b s = (s', c, r) \<Longrightarrow> P s' \<and> (\<forall>x\<in>set r. Q x)"
    and "P s" and "run bs s = (s', c, r)"
  shows "\<forall>x\<in>set r. Q x"
  using assms(2,3)
proof (induction bs arbitrary: s s' c r)
  case Nil
  then show ?case by (simp add: run_Nil)
next
  case (Cons b bs)
  obtain s1 c1 r1 where st: "step b s = (s1, c1, r1)" by (metis prod_cases3)
  obtain s2 c2 r2 where rn: "run bs s1 = (s2, c2, r2)" by (metis prod_cases3)
  from assms(1) [OF Cons.prems(1) st] have "P s1" and "\<forall>x\<in>set r1. Q x" by auto
  moreover from Cons.IH [OF \<open>P s1\<close> rn] have "\<forall>x\<in>set r2. Q x" .
  ultimately show ?case using Cons.prems st rn by (auto simp: run_Cons)
qed

end

end
