(* ===== verification/Telnet_Negotiation.thy ===== *)
theory Telnet_Negotiation
  imports Prelude_JS
begin

unbundle bit_operations_syntax

text \<open>
  The telnet option negotiator, \<open>app/services/telnet/telnet-negotiation.ts\<close>: a byte-level
  parser with five states that strips IAC sequences from the server's stream and answers
  option requests.  The class's fields are the record \<open>negotiator\<close>; its methods are
  functions from the record to the record and the buffers they push.
  Debug logging has no counterpart.
\<close>

section \<open>Protocol constants\<close>

definition IAC :: byte where "IAC = 0xFF"
definition DONT :: byte where "DONT = 0xFE"
definition DO :: byte where "DO = 0xFD"
definition WONT :: byte where "WONT = 0xFC"
definition WILL :: byte where "WILL = 0xFB"
definition SB :: byte where "SB = 0xFA"
definition SE :: byte where "SE = 0xF0"

definition ECHO :: byte where "ECHO = 1"
definition SGA :: byte where "SGA = 3"
definition TERMINAL_TYPE :: byte where "TERMINAL_TYPE = 24"
definition NAWS :: byte where "NAWS = 31"

definition IS_q :: byte where "IS_q = 0"
definition SEND :: byte where "SEND = 1"

lemmas telnet_codes = IAC_def DONT_def DO_def WONT_def WILL_def SB_def SE_def
  ECHO_def SGA_def TERMINAL_TYPE_def NAWS_def IS_q_def SEND_def

definition SUPPORTED_OPTIONS :: "byte list" where
  "SUPPORTED_OPTIONS = [ECHO, SGA, TERMINAL_TYPE, NAWS]"

section \<open>State\<close>

datatype option_state = Inactive | Offered | Active

datatype parser_state = PData | GotIAC | GotCommand | InSubnegotiation | SubnegotiationGotIAC

record negotiator =
  ngTerminalType :: string
  ngCols :: "32 word"
  ngRows :: "32 word"
  pstate :: parser_state
  currentCommand :: byte
  subnegBuffer :: bytes
  optionStates :: "(byte, option_state) jsmap"

definition new_negotiator :: "string \<Rightarrow> negotiator" where
  "new_negotiator term = \<lparr>ngTerminalType = term, ngCols = 80, ngRows = 24, pstate = PData,
     currentCommand = 0, subnegBuffer = [], optionStates = []\<rparr>"

definition setWindowSize :: "32 word \<Rightarrow> 32 word \<Rightarrow> negotiator \<Rightarrow> negotiator" where
  "setWindowSize c r n = n\<lparr>ngCols := c, ngRows := r\<rparr>"

definition getOptionState :: "negotiator \<Rightarrow> byte \<Rightarrow> option_state" where
  "getOptionState n opt = (case map_get (optionStates n) opt of None \<Rightarrow> Inactive | Some s \<Rightarrow> s)"

definition setOptionState :: "byte \<Rightarrow> option_state \<Rightarrow> negotiator \<Rightarrow> negotiator" where
  "setOptionState opt s n = n\<lparr>optionStates := map_set opt s (optionStates n)\<rparr>"

section \<open>Encoders\<close>

definition appendEscaped :: "bytes \<Rightarrow> byte \<Rightarrow> bytes" where
  "appendEscaped bs v = (if v = IAC then bs @ [IAC, IAC] else bs @ [v])"

definition encodeNaws :: "32 word \<Rightarrow> 32 word \<Rightarrow> bytes" where
  "encodeNaws c r =
     (let widthHigh = ucast (signed_drop_bit 8 c AND 0xFF) :: byte;
          widthLow = ucast (c AND 0xFF) :: byte;
          heightHigh = ucast (signed_drop_bit 8 r AND 0xFF) :: byte;
          heightLow = ucast (r AND 0xFF) :: byte;
          bs = [IAC, SB, NAWS];
          bs = appendEscaped bs widthHigh;
          bs = appendEscaped bs widthLow;
          bs = appendEscaped bs heightHigh;
          bs = appendEscaped bs heightLow
      in bs @ [IAC, SE])"

definition encodeTerminalType :: "negotiator \<Rightarrow> bytes" where
  "encodeTerminalType n =
     [IAC, SB, TERMINAL_TYPE, IS_q] @ map of_char (ngTerminalType n) @ [IAC, SE]"

section \<open>Proactive offers\<close>

fun buildOffers :: "byte list \<Rightarrow> negotiator \<Rightarrow> bytes list \<Rightarrow> negotiator \<times> bytes list" where
  "buildOffers [] n offers = (n, offers)"
| "buildOffers (opt # opts) n offers =
     (if getOptionState n opt = Inactive
      then buildOffers opts (setOptionState opt Offered n) (offers @ [[IAC, WILL, opt]])
      else buildOffers opts n offers)"

definition buildProactiveOffers :: "negotiator \<Rightarrow> negotiator \<times> bytes list" where
  "buildProactiveOffers n = buildOffers [TERMINAL_TYPE, NAWS] n []"

section \<open>Inbound bytes\<close>

text \<open>
  One call of a handler returns the negotiator after it, the clean bytes it pushes and the
  responses it pushes, both in order.
\<close>

type_synonym effect = "negotiator \<times> bytes \<times> bytes list"

definition handleDataByte :: "byte \<Rightarrow> negotiator \<Rightarrow> effect" where
  "handleDataByte b n = (if b = IAC then (n\<lparr>pstate := GotIAC\<rparr>, [], []) else (n, [b], []))"

definition handleAfterIAC :: "byte \<Rightarrow> negotiator \<Rightarrow> effect" where
  "handleAfterIAC b n =
     (if b = IAC then (n\<lparr>pstate := PData\<rparr>, [0xFF], [])
      else if b = SB then (n\<lparr>subnegBuffer := [], pstate := InSubnegotiation\<rparr>, [], [])
      else if b = DO \<or> b = DONT \<or> b = WILL \<or> b = WONT
        then (n\<lparr>currentCommand := b, pstate := GotCommand\<rparr>, [], [])
      else (n\<lparr>pstate := PData\<rparr>, [], []))"

definition handleDo :: "byte \<Rightarrow> negotiator \<Rightarrow> negotiator \<times> bytes list" where
  "handleDo opt n =
     (if opt \<notin> set SUPPORTED_OPTIONS then (n, [[IAC, WONT, opt]])
      else
        let currentState = getOptionState n opt;
            r1 = (if currentState = Inactive then [[IAC, WILL, opt]] else []);
            n' = setOptionState opt Active n;
            r2 = (if opt = NAWS then [encodeNaws (ngCols n') (ngRows n')] else [])
        in (n', r1 @ r2))"

definition handleWill :: "byte \<Rightarrow> bytes list" where
  "handleWill opt =
     (if opt \<in> set SUPPORTED_OPTIONS then [[IAC, DO, opt]] else [[IAC, DONT, opt]])"

definition handleOptionByte :: "byte \<Rightarrow> negotiator \<Rightarrow> effect" where
  "handleOptionByte b n =
     (let command = currentCommand n; n' = n\<lparr>pstate := PData\<rparr>
      in if command = DO then (let (n'', rs) = handleDo b n' in (n'', [], rs))
         else if command = DONT then (n', [], [[IAC, WONT, b]])
         else if command = WILL then (n', [], handleWill b)
         else if command = WONT then (n', [], [[IAC, DONT, b]])
         else (n', [], []))"

definition handleSubnegByte :: "byte \<Rightarrow> negotiator \<Rightarrow> effect" where
  "handleSubnegByte b n =
     (if b = IAC then (n\<lparr>pstate := SubnegotiationGotIAC\<rparr>, [], [])
      else (n\<lparr>subnegBuffer := subnegBuffer n @ [b]\<rparr>, [], []))"

definition processSubnegotiation :: "negotiator \<Rightarrow> negotiator \<times> bytes list" where
  "processSubnegotiation n =
     (case subnegBuffer n of
        opt # qualifier # _ \<Rightarrow>
          (n\<lparr>subnegBuffer := []\<rparr>,
           if opt = TERMINAL_TYPE \<and> qualifier = SEND then [encodeTerminalType n] else [])
      | _ \<Rightarrow> (n, []))"

definition handleSubnegIACByte :: "byte \<Rightarrow> negotiator \<Rightarrow> effect" where
  "handleSubnegIACByte b n =
     (if b = SE then (let (n', rs) = processSubnegotiation n in (n'\<lparr>pstate := PData\<rparr>, [], rs))
      else if b = IAC
        then (n\<lparr>subnegBuffer := subnegBuffer n @ [0xFF], pstate := InSubnegotiation\<rparr>, [], [])
      else (n\<lparr>pstate := PData\<rparr>, [], []))"

definition processOneByte :: "byte \<Rightarrow> negotiator \<Rightarrow> effect" where
  "processOneByte b n =
     (case pstate n of
        PData \<Rightarrow> handleDataByte b n
      | GotIAC \<Rightarrow> handleAfterIAC b n
      | GotCommand \<Rightarrow> handleOptionByte b n
      | InSubnegotiation \<Rightarrow> handleSubnegByte b n
      | SubnegotiationGotIAC \<Rightarrow> handleSubnegIACByte b n)"

fun processInbound :: "bytes \<Rightarrow> negotiator \<Rightarrow> effect" where
  "processInbound [] n = (n, [], [])"
| "processInbound (b # bs) n =
     (let (n1, clean, resp) = processOneByte b n;
          (n2, clean', resp') = processInbound bs n1
      in (n2, clean @ clean', resp @ resp'))"

interpretation telnet: stream_processor processOneByte processInbound
  by unfold_locales simp_all

declare processInbound.simps [simp del]

lemmas run_simps = telnet.run_Nil telnet.run_Cons
lemmas handler_defs = processOneByte_def handleDataByte_def handleAfterIAC_def
  handleOptionByte_def handleSubnegByte_def handleSubnegIACByte_def

section \<open>A token-level specification\<close>

text \<open>
  What the byte stream means: data bytes, two-byte commands, option requests and
  subnegotiations, each with its wire encoding (RFC 854, RFC 855).
\<close>

datatype token =
    TData byte
  | TCommand byte
  | TOption byte byte
  | TSubneg bytes

definition esc :: "byte \<Rightarrow> bytes" where
  "esc b = (if b = IAC then [IAC, IAC] else [b])"

fun encode_token :: "token \<Rightarrow> bytes" where
  "encode_token (TData b) = esc b"
| "encode_token (TCommand c) = [IAC, c]"
| "encode_token (TOption c opt) = [IAC, c, opt]"
| "encode_token (TSubneg bs) = [IAC, SB] @ concat (map esc bs) @ [IAC, SE]"

definition option_commands :: "byte set" where
  "option_commands = {DO, DONT, WILL, WONT}"

fun wf_token :: "token \<Rightarrow> bool" where
  "wf_token (TData b) = True"
| "wf_token (TCommand c) = (c \<notin> {IAC, SB} \<union> option_commands)"
| "wf_token (TOption c opt) = (c \<in> option_commands)"
| "wf_token (TSubneg bs) = True"

definition encode_tokens :: "token list \<Rightarrow> bytes" where
  "encode_tokens ts = concat (map encode_token ts)"

text \<open>
  The abstract negotiator remembers only the options it has announced.  It answers a token
  as the protocol asks: announce a supported option once, refuse the others, accept the
  server's own supported options, report the window size and the terminal type on request.
\<close>

definition announced :: "negotiator \<Rightarrow> byte set" where
  "announced n = {opt. getOptionState n opt \<noteq> Inactive}"

definition negotiable :: "byte set" where
  "negotiable = {ECHO, SGA, TERMINAL_TYPE, NAWS}"

fun spec_token :: "string \<Rightarrow> 32 word \<Rightarrow> 32 word \<Rightarrow> token \<Rightarrow> byte set
    \<Rightarrow> byte set \<times> bytes \<times> bytes list" where
  "spec_token term c r (TData b) S = (S, [b], [])"
| "spec_token term c r (TCommand cmd) S = (S, [], [])"
| "spec_token term c r (TOption cmd opt) S =
     (let known = opt \<in> negotiable in
      if cmd = DO then
        (if known
         then (insert opt S, [], (if opt \<in> S then [] else [[IAC, WILL, opt]])
                                 @ (if opt = NAWS then [encodeNaws c r] else []))
         else (S, [], [[IAC, WONT, opt]]))
      else if cmd = DONT then (S, [], [[IAC, WONT, opt]])
      else if cmd = WILL then (S, [], [[IAC, if known then DO else DONT, opt]])
      else (S, [], [[IAC, DONT, opt]]))"
| "spec_token term c r (TSubneg bs) S =
     (S, [], if take 2 bs = [TERMINAL_TYPE, SEND]
             then [[IAC, SB, TERMINAL_TYPE, IS_q] @ map of_char term @ [IAC, SE]] else [])"

fun spec_tokens :: "string \<Rightarrow> 32 word \<Rightarrow> 32 word \<Rightarrow> token list \<Rightarrow> byte set
    \<Rightarrow> byte set \<times> bytes \<times> bytes list" where
  "spec_tokens term c r [] S = (S, [], [])"
| "spec_tokens term c r (t # ts) S =
     (let (S1, c1, r1) = spec_token term c r t S;
          (S2, c2, r2) = spec_tokens term c r ts S1
      in (S2, c1 @ c2, r1 @ r2))"

section \<open>The parser implements the specification\<close>

definition same_config :: "negotiator \<Rightarrow> negotiator \<Rightarrow> bool" where
  "same_config n m \<longleftrightarrow>
     ngTerminalType m = ngTerminalType n \<and> ngCols m = ngCols n \<and> ngRows m = ngRows n"

lemma codes_distinct [simp]:
  "IAC \<noteq> SB" "SB \<noteq> IAC" "IAC \<noteq> SE" "SE \<noteq> IAC" "DO \<noteq> DONT" "DO \<noteq> WILL" "DO \<noteq> WONT"
  "DONT \<noteq> DO" "DONT \<noteq> WILL" "DONT \<noteq> WONT" "WILL \<noteq> DO" "WILL \<noteq> DONT" "WILL \<noteq> WONT"
  "WONT \<noteq> DO" "WONT \<noteq> DONT" "WONT \<noteq> WILL" "IAC \<noteq> DO" "IAC \<noteq> DONT" "IAC \<noteq> WILL" "IAC \<noteq> WONT"
  "DO \<noteq> IAC" "DONT \<noteq> IAC" "WILL \<noteq> IAC" "WONT \<noteq> IAC" "SB \<noteq> DO" "SB \<noteq> DONT" "SB \<noteq> WILL"
  "SB \<noteq> WONT" "DO \<noteq> SB" "DONT \<noteq> SB" "WILL \<noteq> SB" "WONT \<noteq> SB"
  by (simp_all add: telnet_codes)

lemma getOptionState_simps [simp]:
  "getOptionState (n\<lparr>pstate := p\<rparr>) opt = getOptionState n opt"
  "getOptionState (n\<lparr>subnegBuffer := bs\<rparr>) opt = getOptionState n opt"
  "getOptionState (n\<lparr>currentCommand := c\<rparr>) opt = getOptionState n opt"
  "getOptionState (setOptionState opt' s n) opt = (if opt = opt' then s else getOptionState n opt)"
  by (simp_all add: getOptionState_def setOptionState_def map_get_set)

lemma setOptionState_simps [simp]:
  "ngTerminalType (setOptionState opt s n) = ngTerminalType n"
  "ngCols (setOptionState opt s n) = ngCols n" "ngRows (setOptionState opt s n) = ngRows n"
  "pstate (setOptionState opt s n) = pstate n"
  by (simp_all add: setOptionState_def)

lemma announced_simps [simp]:
  "announced (n\<lparr>pstate := p\<rparr>) = announced n"
  "announced (n\<lparr>subnegBuffer := bs\<rparr>) = announced n"
  "announced (n\<lparr>currentCommand := c\<rparr>) = announced n"
  "announced (setOptionState opt Active n) = insert opt (announced n)"
  by (auto simp: announced_def)

lemma iac_literal: "(0xFF :: byte) = IAC"
  by (simp add: IAC_def)

lemma subneg_byte:
  "pstate n = InSubnegotiation \<Longrightarrow>
   processInbound (esc b) n = (n\<lparr>subnegBuffer := subnegBuffer n @ [b]\<rparr>, [], [])"
  by (cases "b = IAC")
    (simp_all add: esc_def run_simps processOneByte_def handleSubnegByte_def
      handleSubnegIACByte_def iac_literal)

lemma subneg_payload:
  "pstate n = InSubnegotiation \<Longrightarrow>
   processInbound (concat (map esc bs)) n = (n\<lparr>subnegBuffer := subnegBuffer n @ bs\<rparr>, [], [])"
  by (induction bs arbitrary: n) (simp_all add: run_simps telnet.run_append subneg_byte)

lemma run_data:
  "pstate n = PData \<Longrightarrow> processInbound (esc b) n = (n, [b], [])"
  by (cases "b = IAC")
    (simp_all add: esc_def run_simps processOneByte_def handleDataByte_def handleAfterIAC_def
      iac_literal)

lemma run_command:
  "pstate n = PData \<Longrightarrow> wf_token (TCommand c) \<Longrightarrow> processInbound [IAC, c] n = (n, [], [])"
  by (simp add: run_simps processOneByte_def handleDataByte_def handleAfterIAC_def
      option_commands_def)

lemma run_option:
  "pstate n = PData \<Longrightarrow> c \<in> option_commands \<Longrightarrow>
   processInbound [IAC, c, opt] n =
     handleOptionByte opt (n\<lparr>currentCommand := c, pstate := GotCommand\<rparr>)"
  by (auto simp: run_simps processOneByte_def handleDataByte_def handleAfterIAC_def
      option_commands_def split: prod.splits)

lemma run_subneg:
  "pstate n = PData \<Longrightarrow>
   processInbound (encode_token (TSubneg bs)) n =
     (let (n', rs) = processSubnegotiation (n\<lparr>subnegBuffer := bs, pstate := SubnegotiationGotIAC\<rparr>)
      in (n'\<lparr>pstate := PData\<rparr>, [], rs))"
  by (simp add: telnet.run_append subneg_payload run_simps processOneByte_def handleDataByte_def
      handleAfterIAC_def handleSubnegByte_def handleSubnegIACByte_def Let_def split: prod.splits)

lemma announced_iff: "opt \<in> announced n \<longleftrightarrow> getOptionState n opt \<noteq> Inactive"
  by (simp add: announced_def)

lemma supported_negotiable: "set SUPPORTED_OPTIONS = negotiable"
  by (simp add: SUPPORTED_OPTIONS_def negotiable_def)

lemma option_refines:
  assumes "c \<in> option_commands"
    and "handleOptionByte opt (n\<lparr>currentCommand := c, pstate := GotCommand\<rparr>) = (n', clean, resp)"
  shows "pstate n' = PData \<and> same_config n n'
    \<and> spec_token (ngTerminalType n) (ngCols n) (ngRows n) (TOption c opt) (announced n)
        = (announced n', clean, resp)"
proof (cases "c = DO")
  case True
  from assms(2) True show ?thesis
    by (cases "opt \<in> negotiable"; cases "getOptionState n opt"; cases "opt = NAWS")
      (simp_all add: handleOptionByte_def handleDo_def supported_negotiable announced_iff
        same_config_def, (auto simp: announced_iff)?)
next
  case False
  with assms show ?thesis
    by (cases "opt \<in> negotiable")
      (auto simp: handleOptionByte_def handleWill_def option_commands_def supported_negotiable
        same_config_def)
qed

lemma subneg_refines:
  assumes "processSubnegotiation m = (m', rs)"
  shows "announced m' = announced m \<and> same_config m m' \<and>
    rs = (if take 2 (subnegBuffer m) = [TERMINAL_TYPE, SEND] then [encodeTerminalType m] else [])"
  using assms by (auto simp: processSubnegotiation_def same_config_def split: list.splits)

lemma token_refines:
  assumes "pstate n = PData" and "wf_token t"
    and "processInbound (encode_token t) n = (n', clean, resp)"
  shows "pstate n' = PData \<and> same_config n n'
    \<and> spec_token (ngTerminalType n) (ngCols n) (ngRows n) t (announced n) = (announced n', clean, resp)"
proof (cases t)
  case (TData b)
  with assms show ?thesis by (simp add: run_data same_config_def)
next
  case (TCommand c)
  with assms show ?thesis by (simp add: run_command same_config_def)
next
  case (TOption c opt)
  with assms(2) have "c \<in> option_commands" by simp
  moreover from this assms(1,3) TOption
  have "handleOptionByte opt (n\<lparr>currentCommand := c, pstate := GotCommand\<rparr>) = (n', clean, resp)"
    by (simp add: run_option)
  ultimately show ?thesis unfolding TOption by (rule option_refines)
next
  case (TSubneg bs)
  let ?m = "n\<lparr>subnegBuffer := bs, pstate := SubnegotiationGotIAC\<rparr>"
  obtain m' rs where m': "processSubnegotiation ?m = (m', rs)" by fastforce
  with assms(1) have "processInbound (encode_token (TSubneg bs)) n = (m'\<lparr>pstate := PData\<rparr>, [], rs)"
    by (simp only: run_subneg) simp
  with assms(3) TSubneg have "n' = m'\<lparr>pstate := PData\<rparr>" "clean = []" "resp = rs" by auto
  with subneg_refines [OF m'] TSubneg show ?thesis
    by (simp add: same_config_def encodeTerminalType_def)
qed

lemma tokens_refine:
  assumes "pstate n = PData" and "\<forall>t\<in>set ts. wf_token t"
    and "processInbound (encode_tokens ts) n = (n', clean, resp)"
  shows "pstate n' = PData \<and> same_config n n' \<and>
    spec_tokens (ngTerminalType n) (ngCols n) (ngRows n) ts (announced n) = (announced n', clean, resp)"
  using assms
proof (induction ts arbitrary: n n' clean resp)
  case Nil
  then show ?case by (simp add: encode_tokens_def run_simps same_config_def)
next
  case (Cons t ts)
  obtain n1 c1 r1 where s1: "processInbound (encode_token t) n = (n1, c1, r1)"
    by (metis prod_cases3)
  obtain n2 c2 r2 where s2: "processInbound (encode_tokens ts) n1 = (n2, c2, r2)"
    by (metis prod_cases3)
  from Cons.prems have "wf_token t" and wf: "\<forall>t\<in>set ts. wf_token t" by auto
  note h1 = token_refines [OF Cons.prems(1) this(1) s1]
  then have "pstate n1 = PData" by simp
  note h2 = Cons.IH [OF this wf s2]
  from Cons.prems(3) s1 s2 have "n' = n2" "clean = c1 @ c2" "resp = r1 @ r2"
    by (simp_all add: encode_tokens_def telnet.run_append)
  with h1 h2 show ?case by (auto simp: same_config_def)
qed

section \<open>Sessions of the negotiator\<close>

text \<open>
  What the telnet shell does with a negotiator over its life: offer capabilities, feed it
  chunks, report a new window size.
\<close>

datatype neg_op = OpOffers | OpInbound bytes | OpResize "32 word" "32 word"

fun neg_step :: "neg_op \<Rightarrow> negotiator \<Rightarrow> negotiator \<times> bytes list" where
  "neg_step OpOffers n = buildProactiveOffers n"
| "neg_step (OpInbound bs) n = (let (n', _, rs) = processInbound bs n in (n', rs))"
| "neg_step (OpResize c r) n = (setWindowSize c r n, [])"

fun neg_run :: "neg_op list \<Rightarrow> negotiator \<Rightarrow> negotiator \<times> bytes list" where
  "neg_run [] n = (n, [])"
| "neg_run (x # xs) n =
     (let (n1, r1) = neg_step x n; (n2, r2) = neg_run xs n1 in (n2, r1 @ r2))"

text \<open>Announcements of an option: how many \<open>IAC WILL opt\<close> a list of buffers holds, against
  the change of the option's state.\<close>

definition wills :: "byte \<Rightarrow> bytes list \<Rightarrow> nat" where
  "wills opt rs = length (filter (\<lambda>x. x = [IAC, WILL, opt]) rs)"

definition fresh :: "byte \<Rightarrow> negotiator \<Rightarrow> nat" where
  "fresh opt n = (if getOptionState n opt = Inactive then 1 else 0)"

lemma wills_simps [simp]:
  "wills opt [] = 0" "wills opt (r1 @ r2) = wills opt r1 + wills opt r2"
  "wills opt (x # xs) = (if x = [IAC, WILL, opt] then 1 else 0) + wills opt xs"
  by (simp_all add: wills_def)

lemma fresh_simps [simp]:
  "fresh opt (n\<lparr>pstate := p\<rparr>) = fresh opt n"
  "fresh opt (n\<lparr>subnegBuffer := bs\<rparr>) = fresh opt n"
  "fresh opt (n\<lparr>currentCommand := c\<rparr>) = fresh opt n"
  by (simp_all add: fresh_def)

lemma encodeNaws_Cons: "\<exists>bs. encodeNaws c r = IAC # SB # NAWS # bs"
  by (simp add: encodeNaws_def appendEscaped_def Let_def)

lemma encodeNaws_not_will [simp]: "encodeNaws c r \<noteq> [IAC, WILL, opt]"
  using encodeNaws_Cons [of c r] by (auto simp: telnet_codes)

lemma encodeTerminalType_not_will [simp]: "encodeTerminalType n \<noteq> [IAC, WILL, opt]"
  by (simp add: encodeTerminalType_def)

lemma handleDo_wills: "handleDo b n = (n', rs) \<Longrightarrow> wills opt rs + fresh opt n' \<le> fresh opt n"
  by (auto simp: handleDo_def fresh_def Let_def split: if_splits)

lemma processOneByte_wills:
  assumes "processOneByte b n = (n', c, rs)"
  shows "wills opt rs + fresh opt n' \<le> fresh opt n"
proof (cases "pstate n")
  case GotCommand
  then show ?thesis
    using assms handleDo_wills [of b "n\<lparr>pstate := PData\<rparr>" _ _ opt]
    by (auto simp: processOneByte_def handleOptionByte_def handleWill_def Let_def
        split: if_splits prod.splits)
next
  case SubnegotiationGotIAC
  then show ?thesis
    using assms
    by (auto simp: processOneByte_def handleSubnegIACByte_def processSubnegotiation_def
        split: if_splits list.splits)
qed (use assms in \<open>auto simp: processOneByte_def handleDataByte_def handleAfterIAC_def
      handleSubnegByte_def split: if_splits\<close>)

lemma processInbound_wills:
  "processInbound bs n = (n', c, rs) \<Longrightarrow> wills opt rs + fresh opt n' \<le> fresh opt n"
proof (induction bs arbitrary: n n' c rs)
  case Nil
  then show ?case by (simp add: run_simps)
next
  case (Cons b bs)
  obtain n1 c1 r1 where st: "processOneByte b n = (n1, c1, r1)" by (metis prod_cases3)
  obtain n2 c2 r2 where rn: "processInbound bs n1 = (n2, c2, r2)" by (metis prod_cases3)
  from Cons.IH [OF rn] processOneByte_wills [OF st, of opt] Cons.prems st rn
  show ?case by (auto simp: run_simps)
qed

lemma buildOffers_wills:
  "buildOffers opts n acc = (n', rs) \<Longrightarrow> wills opt rs + fresh opt n' \<le> wills opt acc + fresh opt n"
proof (induction opts n acc rule: buildOffers.induct)
  case (2 opt' opts n acc)
  then show ?case by (auto simp: fresh_def split: if_splits)
qed simp

lemma neg_step_wills: "neg_step x n = (n', rs) \<Longrightarrow> wills opt rs + fresh opt n' \<le> fresh opt n"
proof (cases x)
  case OpOffers
  then show "neg_step x n = (n', rs) \<Longrightarrow> ?thesis"
    using buildOffers_wills [of "[TERMINAL_TYPE, NAWS]" n "[]" n' rs opt]
    by (simp add: buildProactiveOffers_def del: buildOffers.simps)
next
  case (OpInbound bs)
  then show "neg_step x n = (n', rs) \<Longrightarrow> ?thesis"
    by (auto split: prod.splits intro: processInbound_wills)
next
  case (OpResize c r)
  then show "neg_step x n = (n', rs) \<Longrightarrow> ?thesis"
    by (auto simp: setWindowSize_def fresh_def getOptionState_def)
qed

lemma neg_run_wills: "neg_run xs n = (n', rs) \<Longrightarrow> wills opt rs + fresh opt n' \<le> fresh opt n"
proof (induction xs arbitrary: n n' rs)
  case (Cons x xs)
  then show ?case by (fastforce dest: neg_step_wills [where opt = opt] split: prod.splits)
qed simp

section \<open>What the encoders put on the wire\<close>

lemma appendEscaped_esc: "appendEscaped bs v = bs @ esc v"
  by (simp add: appendEscaped_def esc_def)

lemma foldl_appendEscaped: "foldl appendEscaped acc bs = acc @ concat (map esc bs)"
  by (induction bs arbitrary: acc) (simp_all add: appendEscaped_esc)

definition naws_payload :: "32 word \<Rightarrow> 32 word \<Rightarrow> bytes" where
  "naws_payload c r = [NAWS, ucast (drop_bit 8 c), ucast c, ucast (drop_bit 8 r), ucast r]"

lemma low_byte: "(ucast (w AND 0xFF :: 32 word) :: byte) = ucast w"
proof -
  have "w AND 0xFF = take_bit 8 w" by (simp add: take_bit_eq_mask mask_numeral)
  then show ?thesis by (simp only:) (rule bit_word_eqI, simp add: bit_simps)
qed

lemma high_byte: "(ucast (signed_drop_bit 8 w :: 32 word) :: byte) = ucast (drop_bit 8 w)"
  by (rule bit_word_eqI) (auto simp: bit_simps)

lemma encodeNaws_token: "encodeNaws c r = encode_token (TSubneg (naws_payload c r))"
  by (simp add: encodeNaws_def naws_payload_def appendEscaped_esc Let_def low_byte high_byte esc_def
      IAC_def NAWS_def)

lemma two_bytes:
  "256 * unat (ucast (drop_bit 8 w) :: byte) + unat (ucast w :: byte) = unat (w :: 32 word) mod 65536"
proof -
  have "unat (ucast w :: byte) = unat w mod 256"
    by (simp add: unsigned_ucast_eq take_bit_eq_mod)
  moreover have "unat (ucast (drop_bit 8 w) :: byte) = unat w div 256 mod 256"
    by (simp add: unsigned_ucast_eq take_bit_eq_mod drop_bit_eq_div unat_div)
  ultimately show ?thesis
    using mod_mult2_eq [of "unat w" 256 256] by simp
qed

definition wf_response :: "bytes \<Rightarrow> bool" where
  "wf_response r \<longleftrightarrow> (\<exists>t. wf_token t \<and> (\<forall>b. t \<noteq> TData b) \<and> r = encode_token t)"

lemma wf_response_option: "c \<in> option_commands \<Longrightarrow> wf_response [IAC, c, opt]"
  unfolding wf_response_def by (rule exI [of _ "TOption c opt"]) simp

lemma wf_response_naws: "wf_response (encodeNaws c r)"
  unfolding wf_response_def encodeNaws_token
  by (rule exI [of _ "TSubneg (naws_payload c r)"]) simp

lemma esc_plain: "IAC \<notin> set bs \<Longrightarrow> concat (map esc bs) = bs"
  by (induction bs) (auto simp: esc_def)

lemma wf_response_term:
  assumes "IAC \<notin> set (map of_char (ngTerminalType n))"
  shows "wf_response (encodeTerminalType n)"
  unfolding wf_response_def
  by (rule exI [of _ "TSubneg (TERMINAL_TYPE # IS_q # map of_char (ngTerminalType n))"])
    (use esc_plain [OF assms] in \<open>simp add: encodeTerminalType_def esc_def telnet_codes\<close>)

definition plain_term :: "string \<Rightarrow> negotiator \<Rightarrow> bool" where
  "plain_term term n \<longleftrightarrow> ngTerminalType n = term \<and> IAC \<notin> set (map of_char term)"

lemma processOneByte_wf:
  assumes "plain_term term n" and "processOneByte b n = (n', c, rs)"
  shows "plain_term term n' \<and> (\<forall>r\<in>set rs. wf_response r)"
proof -
  have wf: "wf_response (encodeTerminalType n)"
    using assms(1) by (intro wf_response_term) (auto simp: plain_term_def)
  show ?thesis
    using assms wf
    by (cases "pstate n")
      (auto simp: processOneByte_def handleDataByte_def handleAfterIAC_def handleSubnegByte_def
        handleOptionByte_def handleDo_def handleWill_def handleSubnegIACByte_def Let_def
        processSubnegotiation_def plain_term_def wf_response_naws option_commands_def
        intro!: wf_response_option split: if_splits prod.splits list.splits)
qed

lemma buildOffers_wf:
  "buildOffers opts n acc = (n', rs) \<Longrightarrow> plain_term term n \<Longrightarrow> \<forall>r\<in>set acc. wf_response r \<Longrightarrow>
   plain_term term n' \<and> (\<forall>r\<in>set rs. wf_response r)"
proof (induction opts n acc rule: buildOffers.induct)
  case (2 opt opts n acc)
  have "wf_response [IAC, WILL, opt]"
    by (rule wf_response_option) (simp add: option_commands_def)
  with 2 show ?case by (auto simp: plain_term_def split: if_splits)
qed simp

lemma neg_step_wf:
  assumes "plain_term term n" and "neg_step x n = (n', rs)"
  shows "plain_term term n' \<and> (\<forall>r\<in>set rs. wf_response r)"
proof (cases x)
  case OpOffers
  with assms show ?thesis
    by (auto simp: buildProactiveOffers_def simp del: buildOffers.simps dest!: buildOffers_wf)
next
  case (OpInbound bs)
  then obtain c where run: "processInbound bs n = (n', c, rs)"
    using assms(2) by (auto split: prod.splits)
  have "plain_term term n'"
    by (rule telnet.run_invariant [where P = "plain_term term", OF _ assms(1) run])
      (rule processOneByte_wf [THEN conjunct1])
  moreover have "\<forall>r\<in>set rs. wf_response r"
    by (rule telnet.run_outputs [where P = "plain_term term", OF _ assms(1) run])
      (rule processOneByte_wf)
  ultimately show ?thesis ..
next
  case (OpResize c r)
  with assms show ?thesis by (auto simp: setWindowSize_def plain_term_def)
qed

lemma neg_run_wf:
  "plain_term term n \<Longrightarrow> neg_run xs n = (n', rs) \<Longrightarrow> \<forall>r\<in>set rs. wf_response r"
proof (induction xs arbitrary: n n' rs)
  case (Cons x xs)
  obtain n1 r1 where st: "neg_step x n = (n1, r1)" by fastforce
  obtain n2 r2 where rn: "neg_run xs n1 = (n2, r2)" by fastforce
  from neg_step_wf [OF Cons.prems(1) st] Cons.IH [OF _ rn] Cons.prems(2) st rn
  show ?case by auto
qed simp

section \<open>Properties\<close>

text \<open>C7: the byte-level parser implements the token-level protocol.  For every sequence of
  well-formed protocol elements, reading their wire encoding from the data state returns to
  the data state, leaves the configuration alone, and produces exactly the clean bytes, the
  responses and the set of announced options that the specification of the protocol gives.\<close>

theorem negotiator_implements_protocol:
  assumes "pstate n = PData" and "\<forall>t\<in>set ts. wf_token t"
    and "processInbound (encode_tokens ts) n = (n', clean, resp)"
  shows "pstate n' = PData \<and> same_config n n' \<and>
    spec_tokens (ngTerminalType n) (ngCols n) (ngRows n) ts (announced n) = (announced n', clean, resp)"
  using assms by (rule tokens_refine)

theorem negotiator_implements_protocol_witness:
  "let n = new_negotiator ''vt100'';
       ts = [TData 65, TOption DO NAWS, TData IAC];
       (n', clean, resp) = processInbound (encode_tokens ts) n
   in pstate n' = PData \<and> clean = [65, IAC] \<and> resp = [[IAC, WILL, NAWS], encodeNaws 80 24]"
proof -
  let ?n = "new_negotiator ''vt100''" and ?ts = "[TData 65, TOption DO NAWS, TData IAC]"
  obtain n' clean resp where run: "processInbound (encode_tokens ?ts) ?n = (n', clean, resp)"
    by (metis prod_cases3)
  have "pstate n' = PData \<and> same_config ?n n' \<and>
    spec_tokens (ngTerminalType ?n) (ngCols ?n) (ngRows ?n) ?ts (announced ?n) = (announced n', clean, resp)"
    by (rule negotiator_implements_protocol [OF _ _ run])
      (simp_all add: new_negotiator_def option_commands_def)
  then have "pstate n' = PData \<and> clean = [65, IAC] \<and> resp = [[IAC, WILL, NAWS], encodeNaws 80 24]"
    by (auto simp: negotiable_def announced_iff getOptionState_def new_negotiator_def)
  with run show ?thesis by simp
qed

text \<open>C16: an option is announced at most once.  Whatever the server sends, in whatever chunks,
  and whenever the offers are made or the window is resized, the buffers a negotiator sends
  over its whole life hold \<open>IAC WILL opt\<close> at most once for each option, so two
  negotiating ends cannot fall into an acknowledgement loop.\<close>

theorem will_at_most_once: "wills opt (snd (neg_run ops (new_negotiator term))) \<le> 1"
proof -
  obtain n rs where run: "neg_run ops (new_negotiator term) = (n, rs)" by fastforce
  from neg_run_wills [OF this, of opt] show ?thesis
    by (simp add: run fresh_def split: if_splits)
qed

text \<open>C25: a peer that reads the window-size report with the same parser finds, at the closing
  \<open>IAC SE\<close>, the option code and four bytes that give the width and the height modulo
  65536; no byte of the report leaks into the terminal data, even when a byte is 255.\<close>

theorem naws_read_back:
  assumes "pstate n = PData"
  shows "\<exists>n' wh wl hh hl. processInbound (butlast (encodeNaws c r)) n = (n', [], [])
    \<and> pstate n' = SubnegotiationGotIAC \<and> subnegBuffer n' = [NAWS, wh, wl, hh, hl]
    \<and> 256 * unat wh + unat wl = unat c mod 65536
    \<and> 256 * unat hh + unat hl = unat r mod 65536"
proof -
  let ?m = "n\<lparr>subnegBuffer := naws_payload c r, pstate := SubnegotiationGotIAC\<rparr>"
  have "butlast (encodeNaws c r) = [IAC, SB] @ concat (map esc (naws_payload c r)) @ [IAC]"
    by (simp add: encodeNaws_token butlast_append)
  moreover have "processInbound ([IAC, SB] @ concat (map esc (naws_payload c r)) @ [IAC]) n = (?m, [], [])"
    using assms by (simp add: telnet.run_append subneg_payload run_simps processOneByte_def
        handleDataByte_def handleAfterIAC_def handleSubnegByte_def)
  ultimately show ?thesis using two_bytes [of c] two_bytes [of r]
    by (auto simp: naws_payload_def)
qed

theorem naws_read_back_witness:
  "\<exists>n' wh wl hh hl. processInbound (butlast (encodeNaws 511 65535)) (new_negotiator ''vt100'') = (n', [], [])
    \<and> pstate n' = SubnegotiationGotIAC \<and> subnegBuffer n' = [NAWS, wh, wl, hh, hl]
    \<and> 256 * unat wh + unat wl = 511 \<and> 256 * unat hh + unat hl = 65535"
  using naws_read_back [of "new_negotiator ''vt100''" 511 65535] by (simp add: new_negotiator_def)

text \<open>C20: everything the negotiator ever sends is a well-formed protocol element: an option
  reply or a complete subnegotiation with its payload escaped.  The terminal type must not
  contain the character 255: \<open>encodeTerminalType\<close> copies it without escaping.\<close>

theorem responses_well_formed:
  assumes "IAC \<notin> set (map of_char term)"
    and "r \<in> set (snd (neg_run ops (new_negotiator term)))"
  shows "\<exists>t. wf_token t \<and> (\<forall>b. t \<noteq> TData b) \<and> r = encode_token t"
proof -
  obtain n rs where run: "neg_run ops (new_negotiator term) = (n, rs)" by fastforce
  have "plain_term term (new_negotiator term)"
    using assms(1) by (simp add: plain_term_def new_negotiator_def)
  from neg_run_wf [OF this run] assms(2) run show ?thesis by (simp add: wf_response_def)
qed

theorem responses_well_formed_witness:
  "\<exists>t. wf_token t \<and> (\<forall>b. t \<noteq> TData b) \<and>
     [IAC, WILL, NAWS] = encode_token t"
proof (rule responses_well_formed)
  show "IAC \<notin> set (map of_char ''vt'')" by (simp add: IAC_def of_char_def)
  show "[IAC, WILL, NAWS] \<in> set (snd (neg_run [OpOffers] (new_negotiator ''vt'')))"
    by (simp add: buildProactiveOffers_def getOptionState_def setOptionState_def new_negotiator_def
        telnet_codes)
qed

text \<open>Two facts about limits of the code: the server's \<open>DONT\<close> does not return the option to
  the inactive state, so a later \<open>DO\<close> is not acknowledged; and a terminal type with the
  character 255 is sent unescaped.\<close>

lemma dont_then_do_not_acknowledged:
  "snd (neg_run [OpInbound [IAC, DO, ECHO], OpInbound [IAC, DONT, ECHO], OpInbound [IAC, DO, ECHO]]
     (new_negotiator term)) = [[IAC, WILL, ECHO], [IAC, WONT, ECHO]]"
  by (simp add: run_simps handler_defs handleDo_def SUPPORTED_OPTIONS_def Let_def getOptionState_def
      setOptionState_def new_negotiator_def telnet_codes)

lemma terminal_type_unescaped:
  "encodeTerminalType (new_negotiator [CHR 0xFF]) = [IAC, SB, TERMINAL_TYPE, IS_q, 0xFF, IAC, SE]"
  by (simp add: encodeTerminalType_def new_negotiator_def of_char_def)

end
