(* ===== verification/Telnet_Auth.thy ===== *)
theory Telnet_Auth
  imports Prelude_JS
begin

text \<open>
  Expect-style telnet login, \<open>app/services/telnet/telnet-auth.ts\<close>.  A regular expression of
  the options together with the decoding \<open>buffer.toString('utf-8')\<close> is a predicate on the
  buffered bytes; user name and password are their UTF-8 bytes.  The two timer handles are
  the flags \<open>timeoutArmed\<close> and \<open>settleArmed\<close>, set where the code stores a handle and cleared
  where it stores null.  A timer may fire whenever its flag is set; this allows a second
  firing that \<open>setTimeout\<close> would not make, which the callbacks' guards turn into a no-op.
\<close>

section \<open>State\<close>

definition MAX_AUTH_BUFFER_BYTES :: nat where "MAX_AUTH_BUFFER_BYTES = 65536"

datatype auth_state =
  WaitingLogin | WaitingPassword | WaitingResult | Authenticated | PassThrough | Failed

record auth_options =
  aoUsername :: "bytes option"
  aoPassword :: "bytes option"
  loginPrompt :: "(bytes \<Rightarrow> bool) option"
  passwordPrompt :: "(bytes \<Rightarrow> bool) option"
  failurePattern :: "(bytes \<Rightarrow> bool) option"

record authenticator =
  aOptions :: auth_options
  currentState :: auth_state
  abuffer :: bytes
  timeoutArmed :: bool
  settleArmed :: bool

record process_result =
  writeToSocket :: "bytes option"
  forwardToClient :: "bytes option"

definition CRLF :: bytes where "CRLF = [13, 10]"

definition resolveInitialState :: "auth_options \<Rightarrow> auth_state" where
  "resolveInitialState opts =
     (if loginPrompt opts = None \<or> aoUsername opts = None then PassThrough else WaitingLogin)"

definition hasPassword :: "auth_options \<Rightarrow> bool" where
  "hasPassword opts \<longleftrightarrow> aoPassword opts \<noteq> None"

definition isWaitingState :: "auth_state \<Rightarrow> bool" where
  "isWaitingState s \<longleftrightarrow> s = WaitingLogin \<or> s = WaitingPassword \<or> s = WaitingResult"

definition noAction :: process_result where
  "noAction = \<lparr>writeToSocket = None, forwardToClient = None\<rparr>"

definition new_authenticator :: "auth_options \<Rightarrow> authenticator" where
  "new_authenticator opts = \<lparr>aOptions = opts, currentState = resolveInitialState opts,
     abuffer = [], timeoutArmed = False, settleArmed = False\<rparr>"

section \<open>Timers\<close>

definition cancelTimeout :: "authenticator \<Rightarrow> authenticator" where
  "cancelTimeout a = (if timeoutArmed a then a\<lparr>timeoutArmed := False\<rparr> else a)"

definition cancelResultSettle :: "authenticator \<Rightarrow> authenticator" where
  "cancelResultSettle a = (if settleArmed a then a\<lparr>settleArmed := False\<rparr> else a)"

definition startTimeout :: "authenticator \<Rightarrow> authenticator" where
  "startTimeout a = (cancelTimeout a)\<lparr>timeoutArmed := True\<rparr>"

definition auth_destroy :: "authenticator \<Rightarrow> authenticator" where
  "auth_destroy a = cancelResultSettle (cancelTimeout a)"

text \<open>The callback of \<open>startTimeout\<close>; the bytes are the argument of \<open>onTimeout\<close>, if called.
  The handle is not reset by the callback, so \<open>timeoutArmed\<close> stays as it is.\<close>

definition timeoutFires :: "authenticator \<Rightarrow> authenticator \<times> bytes option" where
  "timeoutFires a =
     (if isWaitingState (currentState a)
      then (a\<lparr>abuffer := [], currentState := PassThrough\<rparr>, Some (abuffer a))
      else (a, None))"

definition settleAuthResult :: "authenticator \<Rightarrow> authenticator \<times> bytes option" where
  "settleAuthResult a =
     (if currentState a \<noteq> WaitingResult then (a, None)
      else ((cancelTimeout (a\<lparr>currentState := Authenticated, abuffer := []\<rparr>))\<lparr>settleArmed := False\<rparr>,
            Some (abuffer a)))"

section \<open>Data\<close>

definition transitionToPassThrough :: "authenticator \<Rightarrow> authenticator \<times> process_result" where
  "transitionToPassThrough a =
     (cancelResultSettle (cancelTimeout (a\<lparr>abuffer := [], currentState := PassThrough\<rparr>)),
      \<lparr>writeToSocket = None, forwardToClient = Some (abuffer a)\<rparr>)"

definition handleWaitingLogin :: "bytes \<Rightarrow> authenticator \<Rightarrow> authenticator \<times> process_result" where
  "handleWaitingLogin data a0 =
     (let a = a0\<lparr>abuffer := abuffer a0 @ data\<rparr>
      in if length (abuffer a) > MAX_AUTH_BUFFER_BYTES then transitionToPassThrough a
         else case loginPrompt (aOptions a) of
           None \<Rightarrow> (a, noAction)
         | Some test \<Rightarrow>
             if test (abuffer a)
             then (a\<lparr>abuffer := [],
                     currentState := (if hasPassword (aOptions a) then WaitingPassword else WaitingResult)\<rparr>,
                   \<lparr>writeToSocket = Some ((case aoUsername (aOptions a) of None \<Rightarrow> [] | Some u \<Rightarrow> u) @ CRLF),
                    forwardToClient = None\<rparr>)
             else (a, noAction))"

definition handleWaitingPassword :: "bytes \<Rightarrow> authenticator \<Rightarrow> authenticator \<times> process_result" where
  "handleWaitingPassword data a0 =
     (let a = a0\<lparr>abuffer := abuffer a0 @ data\<rparr>
      in if length (abuffer a) > MAX_AUTH_BUFFER_BYTES then transitionToPassThrough a
         else case passwordPrompt (aOptions a) of
           None \<Rightarrow> (a, noAction)
         | Some test \<Rightarrow>
             if test (abuffer a)
             then (a\<lparr>abuffer := [], currentState := WaitingResult, settleArmed := False\<rparr>,
                   \<lparr>writeToSocket = Some ((case aoPassword (aOptions a) of None \<Rightarrow> [] | Some u \<Rightarrow> u) @ CRLF),
                    forwardToClient = None\<rparr>)
             else (a, noAction))"

definition handleWaitingResult :: "bytes \<Rightarrow> authenticator \<Rightarrow> authenticator \<times> process_result" where
  "handleWaitingResult data a0 =
     (let a = a0\<lparr>abuffer := abuffer a0 @ data\<rparr>
      in if length (abuffer a) > MAX_AUTH_BUFFER_BYTES then transitionToPassThrough a
         else if (case failurePattern (aOptions a) of None \<Rightarrow> False | Some test \<Rightarrow> test (abuffer a))
           then (cancelResultSettle (cancelTimeout (a\<lparr>currentState := Failed, abuffer := []\<rparr>)),
                 \<lparr>writeToSocket = None, forwardToClient = Some data\<rparr>)
         else (if settleArmed a then a else a\<lparr>settleArmed := True\<rparr>, noAction))"

definition processData :: "bytes \<Rightarrow> authenticator \<Rightarrow> authenticator \<times> process_result" where
  "processData data a =
     (case currentState a of
        WaitingLogin \<Rightarrow> handleWaitingLogin data a
      | WaitingPassword \<Rightarrow> handleWaitingPassword data a
      | WaitingResult \<Rightarrow> handleWaitingResult data a
      | Authenticated \<Rightarrow> (a, \<lparr>writeToSocket = None, forwardToClient = Some data\<rparr>)
      | PassThrough \<Rightarrow> (a, \<lparr>writeToSocket = None, forwardToClient = Some data\<rparr>)
      | Failed \<Rightarrow> (a, \<lparr>writeToSocket = None, forwardToClient = Some data\<rparr>))"

section \<open>Runs\<close>

text \<open>
  The authenticator's life as a step relation: its client calls \<open>processData\<close>,
  \<open>startTimeout\<close>, \<open>cancelTimeout\<close> and \<open>destroy\<close>; the event loop fires an armed timer.
  A step is labelled with what it writes to the server and what it hands to the client.
\<close>

datatype auth_op = Data bytes | StartTimeout | CancelTimeout | Destroy | TimeoutFires | SettleFires

datatype auth_label = Label (to_server: "bytes list") (to_client: bytes)

fun opt_list :: "'a option \<Rightarrow> 'a list" where
  "opt_list None = []"
| "opt_list (Some x) = [x]"

fun opt_bytes :: "bytes option \<Rightarrow> bytes" where
  "opt_bytes None = []"
| "opt_bytes (Some x) = x"

inductive auth_step :: "authenticator \<Rightarrow> auth_op \<Rightarrow> auth_label \<Rightarrow> authenticator \<Rightarrow> bool" where
  data: "processData d a = (a', r) \<Longrightarrow>
     auth_step a (Data d) (Label (opt_list (writeToSocket r)) (opt_bytes (forwardToClient r))) a'"
| start: "auth_step a StartTimeout (Label [] []) (startTimeout a)"
| cancel: "auth_step a CancelTimeout (Label [] []) (cancelTimeout a)"
| destroy: "auth_step a Destroy (Label [] []) (auth_destroy a)"
| timeout: "timeoutArmed a \<Longrightarrow> timeoutFires a = (a', f) \<Longrightarrow>
     auth_step a TimeoutFires (Label [] (opt_bytes f)) a'"
| settle: "settleArmed a \<Longrightarrow> settleAuthResult a = (a', f) \<Longrightarrow>
     auth_step a SettleFires (Label [] (opt_bytes f)) a'"

inductive_cases auth_stepE: "auth_step a x l a'"

inductive auth_run :: "authenticator \<Rightarrow> (auth_op \<times> auth_label) list \<Rightarrow> authenticator \<Rightarrow> bool" where
  auth_nil: "auth_run a [] a"
| auth_snoc: "auth_run a ls b \<Longrightarrow> auth_step b x l c \<Longrightarrow> auth_run a (ls @ [(x, l)]) c"

definition written :: "(auth_op \<times> auth_label) list \<Rightarrow> bytes list" where
  "written ls = concat (map (to_server \<circ> snd) ls)"

lemma written_simps [simp]:
  "written [] = []" "written (ls @ [(x, l)]) = written ls @ to_server l"
  by (simp_all add: written_def)

lemmas timer_defs = cancelTimeout_def cancelResultSettle_def startTimeout_def auth_destroy_def
  timeoutFires_def settleAuthResult_def
lemmas data_defs = processData_def handleWaitingLogin_def handleWaitingPassword_def
  handleWaitingResult_def transitionToPassThrough_def noAction_def Let_def

section \<open>Invariants\<close>

text \<open>The user name and password lines, as the code writes them.\<close>

definition user_line :: "auth_options \<Rightarrow> bytes" where
  "user_line opts = (case aoUsername opts of None \<Rightarrow> [] | Some u \<Rightarrow> u) @ CRLF"

definition pass_line :: "auth_options \<Rightarrow> bytes" where
  "pass_line opts = (case aoPassword opts of None \<Rightarrow> [] | Some u \<Rightarrow> u) @ CRLF"

text \<open>What may have been written to the server in each state.\<close>

definition writes_ok :: "auth_options \<Rightarrow> auth_state \<Rightarrow> bytes list \<Rightarrow> bool" where
  "writes_ok opts s ws =
     (let done = [user_line opts] @ (if hasPassword opts then [pass_line opts] else [])
      in case s of
           WaitingLogin \<Rightarrow> ws = []
         | WaitingPassword \<Rightarrow> hasPassword opts \<and> ws = [user_line opts]
         | WaitingResult \<Rightarrow> ws = done
         | Authenticated \<Rightarrow> ws = done
         | Failed \<Rightarrow> ws = done
         | PassThrough \<Rightarrow> ws = [] \<or> ws = [user_line opts] \<or> ws = done)"

definition auth_inv :: "auth_options \<Rightarrow> bytes list \<Rightarrow> authenticator \<Rightarrow> bool" where
  "auth_inv opts ws a \<longleftrightarrow> aOptions a = opts \<and> writes_ok opts (currentState a) ws
     \<and> length (abuffer a) \<le> MAX_AUTH_BUFFER_BYTES
     \<and> (isWaitingState (currentState a) \<or> abuffer a = [])"

lemma auth_inv_init: "auth_inv opts [] (new_authenticator opts)"
  by (simp add: auth_inv_def new_authenticator_def writes_ok_def resolveInitialState_def
      isWaitingState_def Let_def)

lemma processData_inv:
  assumes "auth_inv opts ws a" and "processData d a = (a', r)"
  shows "auth_inv opts (ws @ opt_list (writeToSocket r)) a'"
proof (cases "currentState a")
  case WaitingLogin
  with assms show ?thesis
    by (auto simp: data_defs auth_inv_def writes_ok_def timer_defs user_line_def isWaitingState_def
        split: if_splits option.splits)
next
  case WaitingPassword
  with assms show ?thesis
    by (auto simp: data_defs auth_inv_def writes_ok_def timer_defs pass_line_def isWaitingState_def
        split: if_splits option.splits)
next
  case WaitingResult
  with assms show ?thesis
    by (auto simp: data_defs auth_inv_def writes_ok_def timer_defs isWaitingState_def
        split: if_splits option.splits)
qed (use assms in \<open>auto simp: processData_def auth_inv_def\<close>)

lemma auth_step_inv:
  assumes "auth_step a x l a'" and "auth_inv opts ws a"
  shows "auth_inv opts (ws @ to_server l) a'"
  using assms
proof (cases rule: auth_step.cases)
  case (data d r)
  with assms(2) show ?thesis by (simp add: processData_inv)
qed (auto simp: timer_defs auth_inv_def writes_ok_def isWaitingState_def Let_def
    split: if_splits auth_state.splits)

lemma auth_run_inv: "auth_run a ls b \<Longrightarrow> auth_inv opts [] a \<Longrightarrow> auth_inv opts (written ls) b"
  by (induction rule: auth_run.induct) (auto dest: auth_step_inv)

lemma auth_step_settled:
  assumes "auth_step a x l a'" and "\<not> isWaitingState (currentState a)"
  shows "currentState a' = currentState a \<and> to_server l = []
    \<and> (case x of Data d \<Rightarrow> to_client l = d | _ \<Rightarrow> to_client l = [])"
  using assms
  by (cases rule: auth_step.cases)
    (auto simp: timer_defs isWaitingState_def processData_def split: auth_state.splits if_splits)

definition client_cancels :: "auth_op \<Rightarrow> bool" where
  "client_cancels x \<longleftrightarrow> x = CancelTimeout \<or> x = Destroy"

lemma auth_step_armed:
  assumes "auth_step a x l a'" and "\<not> client_cancels x"
    and "isWaitingState (currentState a) \<longrightarrow> timeoutArmed a"
  shows "isWaitingState (currentState a') \<longrightarrow> timeoutArmed a'"
  using assms
  by (cases rule: auth_step.cases)
    (auto simp: data_defs timer_defs isWaitingState_def client_cancels_def
      split: auth_state.splits if_splits option.splits)

lemma auth_run_armed:
  assumes "auth_run a ls b" and "\<forall>(x, l)\<in>set ls. \<not> client_cancels x"
    and "isWaitingState (currentState a) \<longrightarrow> timeoutArmed a"
  shows "isWaitingState (currentState b) \<longrightarrow> timeoutArmed b"
  using assms by (induction rule: auth_run.induct) (auto dest: auth_step_armed)

section \<open>Properties\<close>

text \<open>C26: credentials leave the server at most once, in order.  Whatever the remote side
  sends and however timers and cancellations interleave, the writes to the server are a
  prefix of user name line, password line; the password line is written only if a password
  is configured.\<close>

theorem credentials_sent_once_in_order:
  assumes "auth_run (new_authenticator opts) ls a"
  shows "written ls \<in> {[], [user_line opts]} \<or>
    hasPassword opts \<and> written ls = [user_line opts, pass_line opts]"
proof -
  from auth_run_inv [OF assms auth_inv_init] have "writes_ok opts (currentState a) (written ls)"
    by (simp add: auth_inv_def)
  then show ?thesis
    by (auto simp: writes_ok_def Let_def split: auth_state.splits if_splits)
qed

definition demo_opts :: auth_options where
  "demo_opts = \<lparr>aoUsername = Some [117], aoPassword = Some [112],
     loginPrompt = Some (\<lambda>b. b \<noteq> [] \<and> last b = 58), passwordPrompt = Some (\<lambda>b. b \<noteq> [] \<and> last b = 62),
     failurePattern = Some (\<lambda>b. take 3 b = [1, 2, 3])\<rparr>"

lemma demo_login:
  "auth_step (new_authenticator demo_opts) (Data [108, 58]) (Label [[117, 13, 10]] [])
     ((new_authenticator demo_opts)\<lparr>currentState := WaitingPassword\<rparr>)"
proof -
  have "processData [108, 58] (new_authenticator demo_opts) =
      ((new_authenticator demo_opts)\<lparr>currentState := WaitingPassword\<rparr>,
       \<lparr>writeToSocket = Some [117, 13, 10], forwardToClient = None\<rparr>)"
    by (simp add: data_defs new_authenticator_def demo_opts_def resolveInitialState_def
        MAX_AUTH_BUFFER_BYTES_def hasPassword_def CRLF_def)
  from auth_step.data [OF this] show ?thesis by simp
qed

lemma demo_run:
  "auth_run (new_authenticator demo_opts) [(Data [108, 58], Label [[117, 13, 10]] [])]
     ((new_authenticator demo_opts)\<lparr>currentState := WaitingPassword\<rparr>)"
  using auth_snoc [OF auth_nil demo_login] by simp

theorem credentials_sent_once_in_order_witness:
  "written [(Data [108, 58], Label [[117, 13, 10]] [])] \<in> {[], [user_line demo_opts]} \<or>
    hasPassword demo_opts \<and>
    written [(Data [108, 58], Label [[117, 13, 10]] [])] = [user_line demo_opts, pass_line demo_opts]"
  by (rule credentials_sent_once_in_order [OF demo_run])

text \<open>The authenticator never holds data once login is settled and never holds more than
  64 KiB.  In every reachable state the buffer is within the bound, and it is empty unless
  the state is one of the three waiting states.\<close>

theorem auth_buffer_bounded:
  assumes "auth_run (new_authenticator opts) ls a"
  shows "length (abuffer a) \<le> MAX_AUTH_BUFFER_BYTES
    \<and> (\<not> isWaitingState (currentState a) \<longrightarrow> abuffer a = [])"
  using auth_run_inv [OF assms auth_inv_init] by (auto simp: auth_inv_def)

theorem auth_buffer_bounded_witness:
  "length (abuffer ((new_authenticator demo_opts)\<lparr>currentState := WaitingPassword\<rparr>))
     \<le> MAX_AUTH_BUFFER_BYTES"
  using auth_buffer_bounded [OF demo_run] by simp

text \<open>C27: login cannot hang.  If the client started the timeout and never cancels it, then in
  every reachable state that still waits the timeout is armed, and its firing hands all
  buffered bytes to the terminal and leaves the waiting states for good: from then on every
  byte goes to the terminal unchanged and nothing is written to the server.\<close>

theorem auth_timeout_releases:
  assumes "auth_run (startTimeout (new_authenticator opts)) ls a"
    and "\<forall>(x, l)\<in>set ls. \<not> client_cancels x" and "isWaitingState (currentState a)"
  shows "\<exists>b. auth_step a TimeoutFires (Label [] (abuffer a)) b \<and> currentState b = PassThrough
    \<and> (\<forall>x l c. auth_step b x l c \<longrightarrow> currentState c = PassThrough \<and> to_server l = []
        \<and> (\<forall>d. x = Data d \<longrightarrow> to_client l = d))"
proof -
  have "isWaitingState (currentState a) \<longrightarrow> timeoutArmed a"
    by (rule auth_run_armed [OF assms(1,2)]) (simp add: startTimeout_def)
  with assms(3) have armed: "timeoutArmed a" by simp
  let ?b = "a\<lparr>abuffer := [], currentState := PassThrough\<rparr>"
  have "timeoutFires a = (?b, Some (abuffer a))"
    using assms(3) by (simp add: timeoutFires_def)
  with auth_step.timeout [OF armed this] have "auth_step a TimeoutFires (Label [] (abuffer a)) ?b"
    by simp
  moreover have "currentState c = PassThrough \<and> to_server l = [] \<and> (\<forall>d. x = Data d \<longrightarrow> to_client l = d)"
    if "auth_step ?b x l c" for x l c
    using auth_step_settled [OF that] by (auto simp: isWaitingState_def)
  ultimately show ?thesis by (intro exI [of _ ?b]) simp
qed

theorem auth_timeout_releases_witness:
  "\<exists>b. auth_step (startTimeout (new_authenticator demo_opts)) TimeoutFires (Label [] []) b
     \<and> currentState b = PassThrough"
proof -
  let ?a = "startTimeout (new_authenticator demo_opts)"
  have "isWaitingState (currentState ?a)" and "abuffer ?a = []"
    by (simp_all add: timer_defs new_authenticator_def demo_opts_def resolveInitialState_def
        isWaitingState_def)
  from auth_timeout_releases [OF auth_nil _ this(1)] this(2) show ?thesis by auto
qed

text \<open>A limit of the code: on a failure message only the last chunk is shown; the bytes
  buffered before it are dropped.\<close>

lemma failure_drops_buffered_bytes:
  "let a = (new_authenticator demo_opts)\<lparr>currentState := WaitingResult\<rparr>;
       (b, r1) = processData [1, 2] a; (c, r2) = processData [3] b
   in forwardToClient r1 = None \<and> forwardToClient r2 = Some [3] \<and> currentState c = Failed
      \<and> abuffer c = []"
  by (simp add: data_defs new_authenticator_def demo_opts_def MAX_AUTH_BUFFER_BYTES_def timer_defs)

end
