(* ===== verification/Owner_Registry.thy ===== *)
theory Owner_Registry
  imports Prelude_JS
begin

text \<open>
  The contract shared by the two connection pools and the prompt tracker: entities with an
  id and an owner, found by id and listed by owner.  The locale states what a client relies
  on; below it, the lemmas about the two-map representation (\<open>id \<mapsto> entity\<close> and
  \<open>owner \<mapsto> ids\<close>) all three components use to keep it.
\<close>

section \<open>Interface\<close>

datatype ('i, 'e) registry_op = RAdd 'e | RRemove 'i

locale owner_registry =
  fixes ident :: "'e \<Rightarrow> 'i" and owner :: "'e \<Rightarrow> 'o"
    and empty :: 's and add :: "'e \<Rightarrow> 's \<Rightarrow> 's" and remove :: "'i \<Rightarrow> 's \<Rightarrow> 's"
    and lookup :: "'s \<Rightarrow> 'i \<Rightarrow> 'e option" and owned :: "'s \<Rightarrow> 'o \<Rightarrow> 'i list"
    and invar :: "'s \<Rightarrow> bool"
  assumes invar_empty: "invar empty"
    and invar_add: "invar s \<Longrightarrow> lookup s (ident e) = None \<Longrightarrow> invar (add e s)"
    and invar_remove: "invar s \<Longrightarrow> invar (remove i s)"
    and lookup_empty: "lookup empty i = None"
    and lookup_add: "invar s \<Longrightarrow> lookup (add e s) i = (if i = ident e then Some e else lookup s i)"
    and lookup_remove: "invar s \<Longrightarrow> lookup (remove j s) i = (if i = j then None else lookup s i)"
    and owned_iff: "invar s \<Longrightarrow> i \<in> set (owned s o') \<longleftrightarrow> (\<exists>e. lookup s i = Some e \<and> owner e = o')"
    and owned_distinct: "invar s \<Longrightarrow> distinct (owned s o')"
begin

lemmas registry_simps = invar_empty invar_add invar_remove lookup_empty lookup_add lookup_remove

fun apply_op :: "('i, 'e) registry_op \<Rightarrow> 's \<Rightarrow> 's" where
  "apply_op (RAdd e) s = add e s"
| "apply_op (RRemove i) s = remove i s"

text \<open>Histories in which no id is added while it is present.\<close>

fun fresh_ops :: "('i, 'e) registry_op list \<Rightarrow> 's \<Rightarrow> bool" where
  "fresh_ops [] s = True"
| "fresh_ops (x # xs) s =
     ((case x of RAdd e \<Rightarrow> lookup s (ident e) = None | RRemove i \<Rightarrow> True) \<and> fresh_ops xs (apply_op x s))"

text \<open>What the history says is present: the last add of the id, unless removed later.\<close>

fun present :: "('i, 'e) registry_op list \<Rightarrow> ('i \<Rightarrow> 'e option) \<Rightarrow> 'i \<Rightarrow> 'e option" where
  "present [] m = m"
| "present (RAdd e # xs) m = present xs (m(ident e := Some e))"
| "present (RRemove i # xs) m = present xs (m(i := None))"

lemma history_refines:
  "invar s \<Longrightarrow> fresh_ops xs s \<Longrightarrow>
     invar (fold apply_op xs s) \<and> lookup (fold apply_op xs s) = present xs (lookup s)"
proof (induction xs arbitrary: s)
  case Nil
  then show ?case by simp
next
  case (Cons x xs)
  have "lookup (apply_op x s) = (case x of RAdd e \<Rightarrow> (lookup s)(ident e := Some e)
      | RRemove i \<Rightarrow> (lookup s)(i := None))"
    using Cons.prems by (cases x) (auto simp: fun_eq_iff lookup_add lookup_remove)
  moreover have "invar (apply_op x s)"
    using Cons.prems by (cases x) (auto simp: invar_add invar_remove)
  ultimately show ?case using Cons by (cases x) (auto simp: fun_upd_def)
qed

lemma owned_add:
  assumes "invar s" and "lookup s (ident e) = None"
  shows "set (owned (add e s) o') = (if o' = owner e then insert (ident e) (set (owned s o'))
    else set (owned s o'))"
  using assms by (auto simp: owned_iff invar_add lookup_add split: if_splits)

lemma owned_remove:
  "invar s \<Longrightarrow> set (owned (remove i s) o') = set (owned s o') - {i}"
  by (auto simp: owned_iff invar_remove lookup_remove split: if_splits)

lemma owned_disjoint:
  "invar s \<Longrightarrow> i \<in> set (owned s o1) \<Longrightarrow> i \<in> set (owned s o2) \<Longrightarrow> o1 = o2"
  by (auto simp: owned_iff)

text \<open>Removing every entity of an owner, one by one, as the clients do on disconnect.\<close>

lemma fold_remove:
  assumes "invar s"
  shows "invar (fold remove is s)
    \<and> lookup (fold remove is s) i = (if i \<in> set is then None else lookup s i)"
  using assms by (induction "is" arbitrary: s) (auto simp: invar_remove lookup_remove)

lemma remove_owner:
  assumes "invar s"
  shows "owned (fold remove (owned s o1) s) o1 = []"
    and "o2 \<noteq> o1 \<Longrightarrow> set (owned (fold remove (owned s o1) s) o2) = set (owned s o2)"
proof -
  have inv: "invar (fold remove (owned s o1) s)" using fold_remove [OF assms] by blast
  have "i \<notin> set (owned (fold remove (owned s o1) s) o1)" for i
    by (auto simp: owned_iff [OF inv] owned_iff [OF assms] fold_remove [OF assms] split: if_splits)
  then show "owned (fold remove (owned s o1) s) o1 = []" by (metis list.set_intros(1) neq_Nil_conv)
  show "set (owned (fold remove (owned s o1) s) o2) = set (owned s o2)" if "o2 \<noteq> o1"
    using that
    by (auto simp: owned_iff [OF inv] owned_iff [OF assms] fold_remove [OF assms] split: if_splits)
qed

end

section \<open>Two maps\<close>

definition ids_of :: "('o, 'i list) jsmap \<Rightarrow> 'o \<Rightarrow> 'i list" where
  "ids_of os o' = (case map_get os o' of None \<Rightarrow> [] | Some ids \<Rightarrow> ids)"

definition index_ok :: "('e \<Rightarrow> 'o) \<Rightarrow> ('i, 'e) jsmap \<Rightarrow> ('o, 'i list) jsmap \<Rightarrow> bool" where
  "index_ok own es os \<longleftrightarrow> wf_map es \<and> wf_map os \<and> (\<forall>o'. map_get os o' \<noteq> Some [])
     \<and> (\<forall>o'. distinct (ids_of os o'))
     \<and> (\<forall>o' i. i \<in> set (ids_of os o') \<longleftrightarrow> (\<exists>e. map_get es i = Some e \<and> own e = o'))"

lemma index_ok_Nil [simp]: "index_ok own [] []"
  by (simp add: index_ok_def ids_of_def)

lemma ids_of_iff:
  "index_ok own es os \<Longrightarrow> i \<in> set (ids_of os o') \<longleftrightarrow> (\<exists>e. map_get es i = Some e \<and> own e = o')"
  by (simp add: index_ok_def)

lemma ids_of_distinct: "index_ok own es os \<Longrightarrow> distinct (ids_of os o')"
  by (simp add: index_ok_def)

lemma ids_of_set: "ids_of (map_set o1 ids os) o' = (if o' = o1 then ids else ids_of os o')"
  by (simp add: ids_of_def map_get_set)

lemma ids_of_delete: "ids_of (map_delete o1 os) o' = (if o' = o1 then [] else ids_of os o')"
  by (simp add: ids_of_def map_get_delete)

lemma index_ok_add:
  assumes "index_ok own es os" and "map_get es i = None"
  shows "index_ok own (map_set i e es) (map_set (own e) (set_add i (ids_of os (own e))) os)"
  unfolding index_ok_def
proof (intro conjI allI)
  fix o' j
  show "j \<in> set (ids_of (map_set (own e) (set_add i (ids_of os (own e))) os) o') \<longleftrightarrow>
      (\<exists>e'. map_get (map_set i e es) j = Some e' \<and> own e' = o')"
    using assms(2) by (auto simp: ids_of_set map_get_set ids_of_iff [OF assms(1)])
qed (use assms(1) in \<open>auto simp: index_ok_def map_get_set ids_of_set\<close>)

text \<open>The removal all three components perform: drop the id from its owner's set, drop the
  owner when the set becomes empty.\<close>

definition drop_id :: "'i \<Rightarrow> 'o \<Rightarrow> ('o, 'i list) jsmap \<Rightarrow> ('o, 'i list) jsmap" where
  "drop_id i o' os =
     (case map_get os o' of
        None \<Rightarrow> os
      | Some ids \<Rightarrow>
          (let ids' = set_del i ids in if length ids' = 0 then map_delete o' os else map_set o' ids' os))"

lemma ids_of_drop: "ids_of (drop_id i o' os) o2 = (if o2 = o' then set_del i (ids_of os o2) else ids_of os o2)"
  by (auto simp: ids_of_def drop_id_def set_del_def Let_def map_get_set map_get_delete split: option.splits)

lemma index_ok_remove:
  assumes "index_ok own es os" and "map_get es i = Some e"
  shows "index_ok own (map_delete i es) (drop_id i (own e) os)"
proof -
  have "map_get (drop_id i (own e) os) o' \<noteq> Some []" for o'
    using assms(1) by (auto simp: index_ok_def drop_id_def Let_def map_get_set map_get_delete
        split: option.splits if_splits)
  moreover have "wf_map (drop_id i (own e) os)"
    using assms(1) by (auto simp: index_ok_def drop_id_def Let_def split: option.splits)
  moreover have "j \<in> set (ids_of (drop_id i (own e) os) o2) \<longleftrightarrow>
      (\<exists>e'. map_get (map_delete i es) j = Some e' \<and> own e' = o2)" for o2 j
    using assms(2) by (auto simp: ids_of_drop map_get_delete ids_of_iff [OF assms(1)])
  moreover have "distinct (ids_of (drop_id i (own e) os) o2)" for o2
    by (simp add: ids_of_drop ids_of_distinct [OF assms(1)])
  ultimately show ?thesis
    using assms(1) unfolding index_ok_def by blast
qed

text \<open>Dropping an owner with all its entities.\<close>

lemma map_get_fold_delete:
  "map_get (fold map_delete is es) i = (if i \<in> set is then None else map_get es i)"
  by (induction "is" arbitrary: es) (auto simp: map_get_delete)

lemma wf_map_fold_delete: "wf_map es \<Longrightarrow> wf_map (fold map_delete is es)"
  by (induction "is" arbitrary: es) auto

lemma index_ok_remove_owner:
  assumes "index_ok own es os"
  shows "index_ok own (fold map_delete (ids_of os o') es) (map_delete o' os)"
proof -
  show ?thesis
    unfolding index_ok_def
  proof (intro conjI allI)
    fix o2 j
    show "j \<in> set (ids_of (map_delete o' os) o2) \<longleftrightarrow>
        (\<exists>e. map_get (fold map_delete (ids_of os o') es) j = Some e \<and> own e = o2)"
      by (auto simp: ids_of_delete map_get_fold_delete ids_of_iff [OF assms])
  qed (use assms in \<open>auto simp: index_ok_def wf_map_fold_delete map_get_delete ids_of_delete\<close>)
qed

end
