(* ===== verification/Connection_Pools.thy ===== *)
theory Connection_Pools
  imports Owner_Registry
begin

text \<open>
  The connection pools of the two protocols, \<open>app/services/ssh/connection-pool.ts\<close> and
  \<open>app/services/telnet/telnet-connection-pool.ts\<close>.  Both keep a map from connection id to
  connection and a map from session id to the set of its connection ids; both are
  interpretations of \<^theory_text>\<open>owner_registry\<close>.  The client handle of an SSH connection
  and the socket, negotiator and authenticator of a telnet connection are the type parameter
  \<open>'c\<close>; what \<open>clear\<close> does to them is the list of connections it visits.
\<close>

type_synonym connection_id = string
type_synonym session_id = string

record 'c pooled_connection =
  cid :: connection_id
  csession :: session_id
  chandle :: 'c

record 'c pool =
  connections :: "(connection_id, 'c pooled_connection) jsmap"
  sessionConnections :: "(session_id, connection_id list) jsmap"

definition empty_pool :: "'c pool" where
  "empty_pool = \<lparr>connections = [], sessionConnections = []\<rparr>"

section \<open>SSH\<close>

definition ssh_pool_add :: "'c pooled_connection \<Rightarrow> 'c pool \<Rightarrow> 'c pool" where
  "ssh_pool_add c p =
     (let cs = map_set (cid c) c (connections p);
          ids = (case map_get (sessionConnections p) (csession c) of None \<Rightarrow> [] | Some s \<Rightarrow> s)
      in p\<lparr>connections := cs,
           sessionConnections := map_set (csession c) (set_add (cid c) ids) (sessionConnections p)\<rparr>)"

definition ssh_pool_get :: "'c pool \<Rightarrow> connection_id \<Rightarrow> 'c pooled_connection option" where
  "ssh_pool_get p i = map_get (connections p) i"

definition ssh_pool_remove :: "connection_id \<Rightarrow> 'c pool \<Rightarrow> 'c pool" where
  "ssh_pool_remove i p =
     (case map_get (connections p) i of
        None \<Rightarrow> p
      | Some c \<Rightarrow>
          (let sc = (case map_get (sessionConnections p) (csession c) of
                       None \<Rightarrow> sessionConnections p
                     | Some ids \<Rightarrow>
                         (let ids' = set_del i ids
                          in if length ids' = 0 then map_delete (csession c) (sessionConnections p)
                             else map_set (csession c) ids' (sessionConnections p)))
           in p\<lparr>sessionConnections := sc, connections := map_delete i (connections p)\<rparr>))"

definition ssh_pool_getBySession :: "'c pool \<Rightarrow> session_id \<Rightarrow> 'c pooled_connection list" where
  "ssh_pool_getBySession p sid =
     (case map_get (sessionConnections p) sid of
        None \<Rightarrow> []
      | Some ids \<Rightarrow> List.map_filter (\<lambda>i. map_get (connections p) i) ids)"

definition ssh_pool_clear :: "'c pool \<Rightarrow> 'c pool \<times> 'c pooled_connection list" where
  "ssh_pool_clear p = (p\<lparr>connections := [], sessionConnections := []\<rparr>, map_values (connections p))"

section \<open>Telnet\<close>

definition telnet_pool_add :: "'c pooled_connection \<Rightarrow> 'c pool \<Rightarrow> 'c pool" where
  "telnet_pool_add c p =
     (let cs = map_set (cid c) c (connections p);
          sessionSet = (case map_get (sessionConnections p) (csession c) of None \<Rightarrow> [] | Some s \<Rightarrow> s)
      in p\<lparr>connections := cs,
           sessionConnections := map_set (csession c) (set_add (cid c) sessionSet) (sessionConnections p)\<rparr>)"

definition telnet_pool_get :: "'c pool \<Rightarrow> connection_id \<Rightarrow> 'c pooled_connection option" where
  "telnet_pool_get p i = map_get (connections p) i"

definition telnet_pool_getBySession :: "'c pool \<Rightarrow> session_id \<Rightarrow> 'c pooled_connection list" where
  "telnet_pool_getBySession p sid =
     (case map_get (sessionConnections p) sid of
        None \<Rightarrow> []
      | Some ids \<Rightarrow> List.map_filter (\<lambda>i. map_get (connections p) i) ids)"

definition telnet_pool_remove :: "connection_id \<Rightarrow> 'c pool \<Rightarrow> 'c pool \<times> bool" where
  "telnet_pool_remove i p =
     (case map_get (connections p) i of
        None \<Rightarrow> (p, False)
      | Some c \<Rightarrow>
          (let sc = (case map_get (sessionConnections p) (csession c) of
                       None \<Rightarrow> sessionConnections p
                     | Some ids \<Rightarrow>
                         (let ids' = set_del i ids
                          in if length ids' = 0 then map_delete (csession c) (sessionConnections p)
                             else map_set (csession c) ids' (sessionConnections p)))
           in (p\<lparr>sessionConnections := sc, connections := map_delete i (connections p)\<rparr>, True)))"

definition telnet_pool_clear :: "'c pool \<Rightarrow> 'c pool \<times> 'c pooled_connection list" where
  "telnet_pool_clear p = (p\<lparr>connections := [], sessionConnections := []\<rparr>, map_values (connections p))"

definition telnet_pool_size :: "'c pool \<Rightarrow> nat" where
  "telnet_pool_size p = length (connections p)"

section \<open>Invariant and contract\<close>

definition pool_ok :: "'c pool \<Rightarrow> bool" where
  "pool_ok p \<longleftrightarrow> index_ok csession (connections p) (sessionConnections p)
     \<and> (\<forall>i c. map_get (connections p) i = Some c \<longrightarrow> cid c = i)"

definition pool_ids :: "'c pool \<Rightarrow> session_id \<Rightarrow> connection_id list" where
  "pool_ids p sid = ids_of (sessionConnections p) sid"

lemma ssh_pool_add_maps:
  "ssh_pool_add c p = p\<lparr>connections := map_set (cid c) c (connections p),
     sessionConnections := map_set (csession c)
       (set_add (cid c) (ids_of (sessionConnections p) (csession c))) (sessionConnections p)\<rparr>"
  by (simp add: ssh_pool_add_def ids_of_def)

lemma ssh_pool_remove_maps:
  "ssh_pool_remove i p = (case map_get (connections p) i of None \<Rightarrow> p
     | Some c \<Rightarrow> p\<lparr>sessionConnections := drop_id i (csession c) (sessionConnections p),
                   connections := map_delete i (connections p)\<rparr>)"
  by (simp add: ssh_pool_remove_def drop_id_def split: option.split)

lemma telnet_is_ssh:
  "telnet_pool_add = ssh_pool_add" "telnet_pool_get = ssh_pool_get"
  "telnet_pool_getBySession = ssh_pool_getBySession"
  "fst (telnet_pool_remove i p) = ssh_pool_remove i p"
  by (auto simp: fun_eq_iff telnet_pool_add_def ssh_pool_add_def telnet_pool_get_def
      ssh_pool_get_def telnet_pool_getBySession_def ssh_pool_getBySession_def
      telnet_pool_remove_def ssh_pool_remove_def Let_def split: option.splits)

lemma ssh_pool_add_ok:
  assumes "pool_ok p" and "ssh_pool_get p (cid c) = None"
  shows "pool_ok (ssh_pool_add c p)"
  using assms index_ok_add [of csession "connections p" "sessionConnections p" "cid c" c]
  by (auto simp: pool_ok_def ssh_pool_add_maps ssh_pool_get_def map_get_set)

lemma ssh_pool_remove_ok: "pool_ok p \<Longrightarrow> pool_ok (ssh_pool_remove i p)"
  by (auto simp: pool_ok_def ssh_pool_remove_maps map_get_delete index_ok_remove split: option.split)

interpretation ssh_pool: owner_registry cid csession empty_pool ssh_pool_add ssh_pool_remove
  ssh_pool_get pool_ids pool_ok
proof unfold_locales
  show "pool_ok empty_pool" by (simp add: pool_ok_def empty_pool_def)
  show "ssh_pool_get empty_pool i = None" for i by (simp add: ssh_pool_get_def empty_pool_def)
qed (auto simp: ssh_pool_add_ok ssh_pool_remove_ok, auto simp: ssh_pool_get_def ssh_pool_add_maps
    ssh_pool_remove_maps map_get_set map_get_delete pool_ids_def pool_ok_def ids_of_iff
    ids_of_distinct split: option.splits)

interpretation telnet_pool: owner_registry cid csession empty_pool telnet_pool_add
  "\<lambda>i p. fst (telnet_pool_remove i p)" telnet_pool_get pool_ids pool_ok
  unfolding telnet_is_ssh by (rule ssh_pool.owner_registry_axioms)

section \<open>Reachable pools\<close>

text \<open>Connection ids are random UUIDs, so an id is added only while it is absent.\<close>

inductive ssh_pool_reach :: "'c pool \<Rightarrow> bool" where
  ssh_empty: "ssh_pool_reach empty_pool"
| ssh_add: "ssh_pool_reach p \<Longrightarrow> ssh_pool_get p (cid c) = None \<Longrightarrow> ssh_pool_reach (ssh_pool_add c p)"
| ssh_remove: "ssh_pool_reach p \<Longrightarrow> ssh_pool_reach (ssh_pool_remove i p)"
| ssh_clear: "ssh_pool_reach p \<Longrightarrow> ssh_pool_reach (fst (ssh_pool_clear p))"

inductive telnet_pool_reach :: "'c pool \<Rightarrow> bool" where
  telnet_empty: "telnet_pool_reach empty_pool"
| telnet_add: "telnet_pool_reach p \<Longrightarrow> telnet_pool_get p (cid c) = None \<Longrightarrow>
     telnet_pool_reach (telnet_pool_add c p)"
| telnet_remove: "telnet_pool_reach p \<Longrightarrow> telnet_pool_reach (fst (telnet_pool_remove i p))"
| telnet_clear: "telnet_pool_reach p \<Longrightarrow> telnet_pool_reach (fst (telnet_pool_clear p))"

lemma pool_clear_empty:
  "fst (ssh_pool_clear p) = empty_pool" "fst (telnet_pool_clear p) = empty_pool"
  by (simp_all add: ssh_pool_clear_def telnet_pool_clear_def empty_pool_def)

lemma ssh_pool_reach_ok: "ssh_pool_reach p \<Longrightarrow> pool_ok p"
  by (induction rule: ssh_pool_reach.induct)
    (simp_all add: ssh_pool.registry_simps pool_clear_empty)

lemma telnet_pool_reach_ok: "telnet_pool_reach p \<Longrightarrow> pool_ok p"
  by (induction rule: telnet_pool_reach.induct)
    (simp_all add: telnet_pool.registry_simps pool_clear_empty)

lemma getBySession_ids:
  "ssh_pool_getBySession p sid = List.map_filter (ssh_pool_get p) (pool_ids p sid)"
  by (simp add: ssh_pool_getBySession_def pool_ids_def ids_of_def ssh_pool_get_def
      List.map_filter_def split: option.split)

lemma getBySession_set:
  assumes "pool_ok p"
  shows "set (ssh_pool_getBySession p sid) = {c. ssh_pool_get p (cid c) = Some c \<and> csession c = sid}"
proof -
  have cid: "ssh_pool_get p i = Some c \<Longrightarrow> cid c = i" for i c
    using assms by (simp add: pool_ok_def ssh_pool_get_def)
  have "c \<in> set (ssh_pool_getBySession p sid) \<longleftrightarrow>
      ssh_pool_get p (cid c) = Some c \<and> csession c = sid" for c
  proof
    assume "c \<in> set (ssh_pool_getBySession p sid)"
    then obtain i where "i \<in> set (pool_ids p sid)" and i: "ssh_pool_get p i = Some c"
      by (auto simp: getBySession_ids set_map_filter)
    then have "csession c = sid" by (simp add: ssh_pool.owned_iff [OF assms])
    with i cid [OF i] show "ssh_pool_get p (cid c) = Some c \<and> csession c = sid" by simp
  next
    assume c: "ssh_pool_get p (cid c) = Some c \<and> csession c = sid"
    then have "cid c \<in> set (pool_ids p sid)" by (simp add: ssh_pool.owned_iff [OF assms])
    with c show "c \<in> set (ssh_pool_getBySession p sid)"
      by (auto simp: getBySession_ids set_map_filter)
  qed
  then show ?thesis by blast
qed

lemma getBySession_distinct:
  assumes "pool_ok p"
  shows "distinct (map cid (ssh_pool_getBySession p sid))"
proof -
  have "map cid (List.map_filter (ssh_pool_get p) is) = filter (\<lambda>i. ssh_pool_get p i \<noteq> None) is" for "is"
    using assms by (induction "is") (auto simp: List.map_filter_def pool_ok_def ssh_pool_get_def)
  then show ?thesis by (simp add: getBySession_ids ssh_pool.owned_distinct [OF assms])
qed

section \<open>Properties\<close>

text \<open>A session sees exactly its own SSH connections.  In every reachable pool, listing a
  session gives each pooled connection of that session once and no connection of another
  session, so the two indexes of the pool never disagree.\<close>

theorem ssh_pool_lists_own_connections:
  assumes "ssh_pool_reach p"
  shows "set (ssh_pool_getBySession p sid) = {c. ssh_pool_get p (cid c) = Some c \<and> csession c = sid}
    \<and> distinct (map cid (ssh_pool_getBySession p sid))"
  using getBySession_set getBySession_distinct ssh_pool_reach_ok [OF assms] by blast

definition demo_conn :: "string \<Rightarrow> string \<Rightarrow> nat pooled_connection" where
  "demo_conn i s = \<lparr>cid = i, csession = s, chandle = 0\<rparr>"

lemma demo_pool_reach:
  "ssh_pool_reach (ssh_pool_add (demo_conn ''b'' ''t'') (ssh_pool_add (demo_conn ''a'' ''s'') empty_pool))"
  by (intro ssh_pool_reach.intros)
    (simp_all add: ssh_pool_get_def ssh_pool_add_def empty_pool_def demo_conn_def)

theorem ssh_pool_lists_own_connections_witness:
  "let p = ssh_pool_add (demo_conn ''b'' ''t'') (ssh_pool_add (demo_conn ''a'' ''s'') empty_pool)
   in demo_conn ''a'' ''s'' \<in> set (ssh_pool_getBySession p ''s'')
      \<and> demo_conn ''b'' ''t'' \<notin> set (ssh_pool_getBySession p ''s'')"
  using ssh_pool_lists_own_connections [OF demo_pool_reach, of "''s''"]
  by (simp add: ssh_pool_get_def ssh_pool_add_def empty_pool_def demo_conn_def map_get_set)

text \<open>Removing a telnet connection reports whether it was there, takes it out of the pool
  and of its session's listing, and leaves every other connection and every other session's
  listing as they were.\<close>

theorem telnet_pool_remove_exact:
  assumes "telnet_pool_reach p" and "telnet_pool_remove i p = (p', removed)"
  shows "(removed \<longleftrightarrow> telnet_pool_get p i \<noteq> None)
    \<and> (\<forall>j. telnet_pool_get p' j = (if j = i then None else telnet_pool_get p j))
    \<and> (\<forall>sid. set (telnet_pool_getBySession p' sid) = {c \<in> set (telnet_pool_getBySession p sid). cid c \<noteq> i})"
proof -
  note okp = telnet_pool_reach_ok [OF assms(1)]
  have p': "p' = ssh_pool_remove i p"
    using assms(2) telnet_is_ssh(4) [of i p] by simp
  have "removed \<longleftrightarrow> telnet_pool_get p i \<noteq> None"
    using assms(2) by (auto simp: telnet_pool_remove_def telnet_pool_get_def split: option.splits)
  moreover have "\<forall>j. telnet_pool_get p' j = (if j = i then None else telnet_pool_get p j)"
    unfolding p' telnet_is_ssh by (simp add: ssh_pool.lookup_remove [OF okp])
  moreover have "set (telnet_pool_getBySession p' sid)
      = {c \<in> set (telnet_pool_getBySession p sid). cid c \<noteq> i}" for sid
    unfolding p' telnet_is_ssh
    by (auto simp: getBySession_set okp ssh_pool_remove_ok ssh_pool.lookup_remove [OF okp] split: if_splits)
  ultimately show ?thesis by blast
qed

theorem telnet_pool_remove_exact_witness:
  "let p = telnet_pool_add (demo_conn ''a'' ''s'') empty_pool
   in \<forall>p' removed. telnet_pool_remove ''a'' p = (p', removed) \<longrightarrow> removed"
proof -
  have "telnet_pool_reach (telnet_pool_add (demo_conn ''a'' ''s'') empty_pool)"
    by (intro telnet_pool_reach.intros) (simp add: telnet_pool_get_def empty_pool_def)
  from telnet_pool_remove_exact [OF this, of "''a''"] show ?thesis
    by (auto simp: telnet_pool_get_def telnet_pool_add_def demo_conn_def)
qed

end
