(* ===== verification/JS_Strings.thy ===== *)
theory JS_Strings
  imports Prelude_JS "HOL-Library.Sublist"
begin

text \<open>
  The string operations of JavaScript and of Node's \<open>path.posix\<close> the server uses, on strings
  whose code units are below 256, with the lemmas about splitting and path normalisation the
  components share.
\<close>

section \<open>Characters\<close>

definition code :: "char \<Rightarrow> nat" where
  "code c = of_char c"

definition is_digit :: "char \<Rightarrow> bool" where
  "is_digit c \<longleftrightarrow> 48 \<le> code c \<and> code c \<le> 57"

definition is_upper :: "char \<Rightarrow> bool" where
  "is_upper c \<longleftrightarrow> 65 \<le> code c \<and> code c \<le> 90"

definition is_lower :: "char \<Rightarrow> bool" where
  "is_lower c \<longleftrightarrow> 97 \<le> code c \<and> code c \<le> 122"

definition is_alpha :: "char \<Rightarrow> bool" where
  "is_alpha c \<longleftrightarrow> is_upper c \<or> is_lower c"

text \<open>The regular expression class \<open>\w\<close>.\<close>

definition is_word :: "char \<Rightarrow> bool" where
  "is_word c \<longleftrightarrow> is_alpha c \<or> is_digit c \<or> c = CHR ''_''"

text \<open>White space of \<open>trim\<close> and of the class \<open>\s\<close>: tab, line feed, vertical tab, form feed,
  carriage return, space and no-break space.\<close>

definition is_space :: "char \<Rightarrow> bool" where
  "is_space c \<longleftrightarrow> code c \<in> {9, 10, 11, 12, 13, 32, 160}"

definition char_lower :: "char \<Rightarrow> char" where
  "char_lower c = (if is_upper c \<or> (192 \<le> code c \<and> code c \<le> 222 \<and> code c \<noteq> 215)
     then char_of (code c + 32) else c)"

definition to_lower :: "string \<Rightarrow> string" where
  "to_lower s = map char_lower s"

section \<open>Strings\<close>

definition trim_start :: "string \<Rightarrow> string" where
  "trim_start s = dropWhile is_space s"

definition trim :: "string \<Rightarrow> string" where
  "trim s = rev (dropWhile is_space (rev (dropWhile is_space s)))"

definition ends_with :: "string \<Rightarrow> string \<Rightarrow> bool" where
  "ends_with s p \<longleftrightarrow> starts_with (rev s) (rev p)"

fun index_of :: "string \<Rightarrow> string \<Rightarrow> nat option" where
  "index_of p [] = (if p = [] then Some 0 else None)"
| "index_of p (c # s) = (if starts_with (c # s) p then Some 0 else map_option Suc (index_of p s))"

definition str_includes :: "string \<Rightarrow> string \<Rightarrow> bool" where
  "str_includes s p \<longleftrightarrow> index_of p s \<noteq> None"

fun split_on :: "char \<Rightarrow> string \<Rightarrow> string list" where
  "split_on c [] = [[]]"
| "split_on c (x # xs) =
     (if x = c then [] # split_on c xs
      else case split_on c xs of [] \<Rightarrow> [[x]] | y # ys \<Rightarrow> (x # y) # ys)"

fun join_with :: "string \<Rightarrow> string list \<Rightarrow> string" where
  "join_with sep [] = []"
| "join_with sep [x] = x"
| "join_with sep (x # y # ys) = x @ sep @ join_with sep (y # ys)"

lemma split_on_not_Nil [simp]: "split_on c s \<noteq> []"
  by (induction s) (auto split: list.split)

lemma split_on_append: "split_on c (s @ c # t) = split_on c s @ split_on c t"
  by (induction s) (auto split: list.split simp: append_eq_Cons_conv)

lemma split_on_plain: "c \<notin> set s \<Longrightarrow> split_on c s = [s]"
  by (induction s) auto

lemma split_on_parts: "x \<in> set (split_on c s) \<Longrightarrow> c \<notin> set x"
  by (induction s arbitrary: x) (auto split: if_splits list.splits)

lemma split_on_join:
  "xs \<noteq> [] \<Longrightarrow> \<forall>x\<in>set xs. c \<notin> set x \<Longrightarrow> split_on c (join_with [c] xs) = xs"
  by (induction "[c]" xs rule: join_with.induct) (auto simp: split_on_plain split_on_append)

lemma includes_iff: "str_includes s p \<longleftrightarrow> (\<exists>a b. s = a @ p @ b)"
proof (induction s)
  case Nil
  then show ?case by (auto simp: str_includes_def)
next
  case (Cons c s)
  have "str_includes (c # s) p \<longleftrightarrow> starts_with (c # s) p \<or> str_includes s p"
    by (simp add: str_includes_def)
  also have "\<dots> \<longleftrightarrow> (\<exists>r. c # s = p @ r) \<or> (\<exists>a b. s = a @ p @ b)"
    using Cons by (simp add: starts_with_iff)
  also have "\<dots> \<longleftrightarrow> (\<exists>a b. c # s = a @ p @ b)"
    by (metis append_Cons append_Nil append_eq_Cons_conv)
  finally show ?case .
qed

lemma includes_char: "str_includes s [c] \<longleftrightarrow> c \<in> set s"
  by (simp add: includes_iff in_set_conv_decomp)

section \<open>Decimal numbers\<close>

definition digit_val :: "char \<Rightarrow> nat" where
  "digit_val c = code c - 48"

definition dec_val :: "string \<Rightarrow> nat" where
  "dec_val ds = foldl (\<lambda>n c. 10 * n + digit_val c) 0 ds"

text \<open>\<open>Number.parseInt(s, 10)\<close>; \<open>None\<close> is \<open>NaN\<close>.\<close>

definition parse_int :: "string \<Rightarrow> int option" where
  "parse_int s =
     (let t = trim_start s;
          neg = (t \<noteq> [] \<and> hd t = CHR ''-'');
          u = (if t \<noteq> [] \<and> (hd t = CHR ''-'' \<or> hd t = CHR ''+'') then tl t else t);
          ds = takeWhile is_digit u
      in if ds = [] then None else Some (if neg then - int (dec_val ds) else int (dec_val ds)))"

fun show_nat :: "nat \<Rightarrow> string" where
  "show_nat n = (if n < 10 then [char_of (48 + n)] else show_nat (n div 10) @ [char_of (48 + n mod 10)])"

declare show_nat.simps [simp del]

definition show_int :: "int \<Rightarrow> string" where
  "show_int i = (if i < 0 then CHR ''-'' # show_nat (nat (- i)) else show_nat (nat i))"

lemma digit_char: "n < 10 \<Longrightarrow> is_digit (char_of (48 + n)) \<and> digit_val (char_of (48 + n)) = n"
  by (simp add: is_digit_def digit_val_def code_def)

lemma dec_val_snoc: "dec_val (ds @ [c]) = 10 * dec_val ds + digit_val c"
  by (simp add: dec_val_def)

lemma show_nat_digits: "list_all is_digit (show_nat n) \<and> show_nat n \<noteq> [] \<and> dec_val (show_nat n) = n"
proof (induction n rule: show_nat.induct)
  case (1 n)
  show ?case
  proof (cases "n < 10")
    case True
    with digit_char [of n] show ?thesis by (subst (1 2 3) show_nat.simps) (simp add: dec_val_def)
  next
    case False
    with 1 digit_char [of "n mod 10"] show ?thesis
      by (subst (1 2 3) show_nat.simps) (simp add: dec_val_snoc)
  qed
qed

lemma digit_not_special: "is_digit c \<Longrightarrow> \<not> is_space c \<and> c \<noteq> CHR ''-'' \<and> c \<noteq> CHR ''+''"
  by (auto simp: is_digit_def is_space_def code_def)

lemma parse_show_nat: "parse_int (show_nat n) = Some (int n)"
proof -
  obtain c cs where s: "show_nat n = c # cs" and d: "list_all is_digit (c # cs)" and v: "dec_val (c # cs) = n"
    using show_nat_digits [of n] by (cases "show_nat n") auto
  have tw: "takeWhile is_digit cs = cs"
    using d by (simp add: list_all_iff takeWhile_eq_all_conv)
  have "is_digit c" using d by simp
  with s v digit_not_special [of c] show ?thesis
    by (simp add: parse_int_def trim_start_def Let_def tw)
qed

section \<open>POSIX paths\<close>

abbreviation slash :: char where "slash \<equiv> CHR ''/''"

text \<open>\<open>normalizeString\<close> of Node's path module: the segments kept so far are a stack, the last
  one on top.\<close>

fun norm_step :: "bool \<Rightarrow> string \<Rightarrow> string list \<Rightarrow> string list" where
  "norm_step climb seg st =
     (if seg = [] \<or> seg = ''.'' then st
      else if seg = ''..'' then
        (case st of
           [] \<Rightarrow> if climb then [''..''] else []
         | t # ts \<Rightarrow> if t = ''..'' then (if climb then ''..'' # st else st) else ts)
      else seg # st)"

definition norm_segs :: "bool \<Rightarrow> string list \<Rightarrow> string list" where
  "norm_segs climb segs = rev (fold (norm_step climb) segs [])"

definition posix_normalize :: "string \<Rightarrow> string" where
  "posix_normalize p =
     (if p = [] then ''.''
      else
        let isAbsolute = (hd p = slash);
            trailing = (last p = slash);
            q = join_with ''/'' (norm_segs (\<not> isAbsolute) (split_on slash p))
        in if q = [] then (if isAbsolute then ''/'' else if trailing then ''./'' else ''.'')
           else
             let q' = (if trailing then q @ ''/'' else q)
             in if isAbsolute then slash # q' else q')"

definition posix_join :: "string \<Rightarrow> string \<Rightarrow> string" where
  "posix_join a b =
     (let joined = (if a = [] then b else if b = [] then a else a @ ''/'' @ b)
      in if joined = [] then ''.'' else posix_normalize joined)"

definition strip_slashes :: "string \<Rightarrow> string" where
  "strip_slashes p = rev (dropWhile (\<lambda>c. c = slash) (rev p))"

definition posix_basename :: "string \<Rightarrow> string" where
  "posix_basename p = last (split_on slash (strip_slashes p))"

text \<open>\<open>extname\<close> of a name without separators.\<close>

definition posix_extname :: "string \<Rightarrow> string" where
  "posix_extname base =
     (let rest = takeWhile (\<lambda>c. c \<noteq> CHR ''.'') (rev base);
          i = length base - length rest
      in if i \<le> 1 \<or> base = ''..'' then [] else drop (i - 1) base)"

text \<open>Segments of a normalised path: no empty, \<open>.\<close> or separator; \<open>..\<close> only in front, and only
  where climbing above the start is allowed.\<close>

definition plain_seg :: "string \<Rightarrow> bool" where
  "plain_seg s \<longleftrightarrow> s \<noteq> [] \<and> s \<noteq> ''.'' \<and> s \<noteq> ''..'' \<and> slash \<notin> set s"

definition norm_stack :: "bool \<Rightarrow> string list \<Rightarrow> bool" where
  "norm_stack climb st \<longleftrightarrow>
     (\<exists>ns k. st = ns @ replicate k ''..'' \<and> (\<forall>s\<in>set ns. plain_seg s) \<and> (\<not> climb \<longrightarrow> k = 0))"

lemma norm_stack_dots: "climb \<or> k = 0 \<Longrightarrow> norm_stack climb (replicate k ''..'')"
  unfolding norm_stack_def by (intro exI [of _ "[]"] exI [of _ k]) auto

lemma norm_step_stack:
  assumes "norm_stack climb st" and "slash \<notin> set seg"
  shows "norm_stack climb (norm_step climb seg st)"
proof -
  obtain ns k where st: "st = ns @ replicate k ''..''" and ns: "\<forall>s\<in>set ns. plain_seg s"
    and k: "\<not> climb \<longrightarrow> k = 0"
    using assms(1) by (auto simp: norm_stack_def)
  consider "seg = [] \<or> seg = ''.''" | "seg = ''..''" | "plain_seg seg"
    using assms(2) by (auto simp: plain_seg_def)
  then show ?thesis
  proof cases
    case 1
    with assms(1) show ?thesis by auto
  next
    case 2
    show ?thesis
    proof (cases ns)
      case Nil
      then have "norm_step climb seg st = (if climb then replicate (Suc k) ''..'' else [])"
        using 2 st k by (cases k) auto
      then show ?thesis using norm_stack_dots [of climb "Suc k"] norm_stack_dots [of climb 0]
        by (cases climb) simp_all
    next
      case (Cons t ts)
      then have "norm_step climb seg st = ts @ replicate k ''..''"
        using 2 st ns by (auto simp: plain_seg_def)
      with Cons ns k show ?thesis by (auto simp: norm_stack_def)
    qed
  next
    case 3
    then have "norm_step climb seg st = (seg # ns) @ replicate k ''..''"
      using st by (auto simp: plain_seg_def)
    with 3 ns k show ?thesis unfolding norm_stack_def by (metis set_ConsD)
  qed
qed

declare norm_step.simps [simp del]

lemma norm_fold_stack:
  "norm_stack climb st \<Longrightarrow> \<forall>s\<in>set segs. slash \<notin> set s \<Longrightarrow>
   norm_stack climb (fold (norm_step climb) segs st)"
  by (induction segs arbitrary: st) (auto simp: norm_step_stack)

lemma norm_segs_form:
  assumes "\<forall>s\<in>set segs. slash \<notin> set s"
  shows "\<exists>k ns. norm_segs climb segs = replicate k ''..'' @ ns \<and> (\<forall>s\<in>set ns. plain_seg s)
    \<and> (\<not> climb \<longrightarrow> k = 0)"
proof -
  have "norm_stack climb []" by (auto simp: norm_stack_def)
  from norm_fold_stack [OF this assms] obtain ns k where
    "fold (norm_step climb) segs [] = ns @ replicate k ''..''" "\<forall>s\<in>set ns. plain_seg s"
    "\<not> climb \<longrightarrow> k = 0"
    by (auto simp: norm_stack_def)
  then show ?thesis unfolding norm_segs_def
    by (intro exI [of _ k] exI [of _ "rev ns"]) simp
qed

lemma fold_norm_plain:
  "\<forall>s\<in>set segs. plain_seg s \<Longrightarrow> fold (norm_step climb) segs st = rev segs @ st"
  by (induction segs arbitrary: st) (auto simp: norm_step.simps plain_seg_def)

text \<open>The segments that matter, and how normalisation acts on them.\<close>

definition path_segs :: "string \<Rightarrow> string list" where
  "path_segs p = filter (\<lambda>s. s \<noteq> [] \<and> s \<noteq> ''.'') (split_on slash p)"

lemma path_segs_append: "path_segs (a @ slash # b) = path_segs a @ path_segs b"
  by (simp add: path_segs_def split_on_append)

lemma path_segs_slash [simp]: "path_segs (slash # p) = path_segs p"
  by (simp add: path_segs_def)

lemma fold_norm_filter:
  "fold (norm_step climb) segs st = fold (norm_step climb) (filter (\<lambda>s. s \<noteq> [] \<and> s \<noteq> ''.'') segs) st"
  by (induction segs arbitrary: st) (auto simp: norm_step.simps)

lemma norm_segs_plain:
  assumes "\<forall>s\<in>set (path_segs p). plain_seg s"
  shows "norm_segs climb (split_on slash p) = path_segs p"
  using assms unfolding norm_segs_def path_segs_def
  by (subst fold_norm_filter) (simp add: fold_norm_plain del: set_filter)

lemma norm_segs_split:
  "\<exists>k ns. norm_segs climb (split_on slash p) = replicate k ''..'' @ ns \<and> (\<forall>s\<in>set ns. plain_seg s)
    \<and> (\<not> climb \<longrightarrow> k = 0)"
  by (rule norm_segs_form) (blast dest: split_on_parts)

lemma norm_segs_clean:
  assumes "s \<in> set (norm_segs climb (split_on slash p))"
  shows "s \<noteq> [] \<and> s \<noteq> ''.'' \<and> slash \<notin> set s"
proof -
  obtain k ns where rs: "norm_segs climb (split_on slash p) = replicate k ''..'' @ ns"
    and ns: "\<forall>s\<in>set ns. plain_seg s"
    using norm_segs_split [of climb p] by blast
  from assms have "s = ''..'' \<or> s \<in> set ns"
    unfolding rs by (auto dest: in_set_replicate [THEN iffD1])
  then have "s = ''..'' \<or> plain_seg s" using ns by blast
  then show ?thesis by (elim disjE) (simp_all add: plain_seg_def)
qed

lemma join_not_Nil:
  assumes "xs \<noteq> []" and "\<forall>x\<in>set xs. x \<noteq> []"
  shows "join_with sep xs \<noteq> []"
proof -
  from assms obtain x ys where "xs = x # ys" and "x \<noteq> []" by (cases xs) simp_all
  then show ?thesis by (cases ys) simp_all
qed

lemma posix_normalize_segs:
  assumes "p \<noteq> []"
  shows "path_segs (posix_normalize p) = norm_segs (hd p \<noteq> slash) (split_on slash p)"
proof -
  let ?rs = "norm_segs (hd p \<noteq> slash) (split_on slash p)"
  have clean: "\<forall>s\<in>set ?rs. s \<noteq> [] \<and> s \<noteq> ''.'' \<and> slash \<notin> set s"
    using norm_segs_clean by blast
  then have flt: "filter (\<lambda>s. s \<noteq> [] \<and> s \<noteq> ''.'') ?rs = ?rs" by simp
  show ?thesis
  proof (cases "?rs = []")
    case True
    with assms show ?thesis
      by (simp add: posix_normalize_def Let_def path_segs_def)
  next
    case False
    moreover have "join_with ''/'' ?rs \<noteq> []"
      using clean by (intro join_not_Nil False) simp
    moreover have "path_segs (join_with ''/'' ?rs) = ?rs"
      using clean False flt by (simp add: path_segs_def split_on_join)
    moreover have "path_segs (join_with ''/'' ?rs @ [slash]) = ?rs"
      using path_segs_append [of "join_with ''/'' ?rs" "[]"] \<open>path_segs (join_with ''/'' ?rs) = ?rs\<close>
      by (simp add: path_segs_def)
    ultimately show ?thesis
      using assms by (cases "hd p = slash") (simp_all add: posix_normalize_def Let_def)
  qed
qed

lemma posix_normalize_not_Nil [simp]: "posix_normalize p \<noteq> []"
  by (simp add: posix_normalize_def Let_def)

lemma posix_normalize_absolute:
  "p \<noteq> [] \<Longrightarrow> hd p = slash \<Longrightarrow> hd (posix_normalize p) = slash"
  by (simp add: posix_normalize_def Let_def)

lemma posix_normalize_absolute_segs:
  "p \<noteq> [] \<Longrightarrow> hd p = slash \<Longrightarrow> \<forall>s\<in>set (path_segs (posix_normalize p)). plain_seg s"
  using norm_segs_split [of False p] by (auto simp: posix_normalize_segs)

lemma posix_normalize_climbs:
  assumes "p \<noteq> []" and "\<not> (\<forall>s\<in>set (path_segs (posix_normalize p)). plain_seg s)"
  shows "starts_with (posix_normalize p) ''..''"
proof -
  let ?rs = "norm_segs (hd p \<noteq> slash) (split_on slash p)"
  obtain k ns where rs: "?rs = replicate k ''..'' @ ns" and ns: "\<forall>s\<in>set ns. plain_seg s"
    and k: "hd p = slash \<longrightarrow> k = 0"
    using norm_segs_split [of "hd p \<noteq> slash" p] by auto
  from assms ns rs have "k \<noteq> 0" by (auto simp: posix_normalize_segs)
  with k rs obtain r where "?rs = ''..'' # r" and hd: "hd p \<noteq> slash" by (cases k) auto
  then have "\<exists>t. join_with ''/'' ?rs = ''..'' @ t" by (cases r) auto
  with assms(1) hd show ?thesis
    by (auto simp: posix_normalize_def Let_def starts_with_iff)
qed

end
