(* ===== verification/Path_Validator.thy ===== *)
theory Path_Validator
  imports JS_Strings
begin

text \<open>
  Path policy of the SFTP subsystem, \<open>app/services/sftp/path-validator.ts\<close>: normalisation
  (with the home directory \<open>~\<close> kept), the traversal check, the allowed directories, the
  blocked extensions, file names and the joining of paths.
\<close>

definition MAX_PATH_LENGTH :: nat where "MAX_PATH_LENGTH = 4096"
definition MAX_FILENAME_LENGTH :: nat where "MAX_FILENAME_LENGTH = 255"

datatype path_error_code =
  PATH_TRAVERSAL | PATH_TOO_LONG | PATH_FORBIDDEN | EXTENSION_BLOCKED | INVALID_PATH

record path_error =
  pe_code :: path_error_code
  pe_message :: string
  pe_path :: string

record path_options =
  allowedPaths :: "string list option"
  blockedExtensions :: "string list"
  checkExtension :: bool

abbreviation path_err :: "path_error_code \<Rightarrow> string \<Rightarrow> string \<Rightarrow> (path_error, 'a) result" where
  "path_err c m p \<equiv> err \<lparr>pe_code = c, pe_message = m, pe_path = p\<rparr>"

abbreviation NUL :: char where "NUL \<equiv> CHR 0x00"

section \<open>Operations\<close>

definition normalizePath :: "string \<Rightarrow> string" where
  "normalizePath inputPath =
     (if inputPath = [] \<or> inputPath = ''.'' then ''.''
      else if inputPath = ''~'' \<or> inputPath = ''~/'' then ''~''
      else if starts_with inputPath ''~/'' then
        (let normalizedRest = posix_normalize (drop 2 inputPath)
         in if normalizedRest = ''.'' then ''~'' else ''~/'' @ normalizedRest)
      else posix_normalize inputPath)"

definition checkPathTraversal :: "string \<Rightarrow> string \<Rightarrow> (path_error, unit) result" where
  "checkPathTraversal normalizedPath originalPath =
     (if starts_with normalizedPath ''..''
      then path_err PATH_TRAVERSAL ''Path traversal attempt detected'' originalPath
      else if NUL \<in> set normalizedPath
      then path_err INVALID_PATH ''Invalid characters in path'' originalPath
      else ok ())"

fun allowed_by :: "string \<Rightarrow> string list \<Rightarrow> bool" where
  "allowed_by normalizedPath [] = False"
| "allowed_by normalizedPath (allowedPath # rest) =
     (let normalizedAllowed = normalizePath allowedPath
      in if normalizedPath = normalizedAllowed then True
         else if starts_with normalizedPath (normalizedAllowed @ ''/'') then True
         else allowed_by normalizedPath rest)"

definition is_home :: "string \<Rightarrow> bool" where
  "is_home p \<longleftrightarrow> p = ''~'' \<or> starts_with p ''~/''"

definition checkAllowedPaths :: "string \<Rightarrow> string list option \<Rightarrow> (path_error, unit) result" where
  "checkAllowedPaths normalizedPath allowed =
     (case allowed of
        None \<Rightarrow> ok ()
      | Some as \<Rightarrow>
          if length as = 0 then ok ()
          else if is_home normalizedPath \<and> list_ex is_home as then ok ()
          else if allowed_by normalizedPath as then ok ()
          else path_err PATH_FORBIDDEN ''Path not in allowed directories'' normalizedPath)"

definition normalize_ext :: "string \<Rightarrow> string" where
  "normalize_ext e = (let lower = to_lower e in if starts_with lower ''.'' then lower else ''.'' @ lower)"

definition file_ext :: "string \<Rightarrow> string" where
  "file_ext p = to_lower (posix_extname (posix_basename p))"

definition checkBlockedExtension :: "string \<Rightarrow> string list \<Rightarrow> (path_error, unit) result" where
  "checkBlockedExtension normalizedPath blocked =
     (if length blocked = 0 then ok ()
      else
        let ext = file_ext normalizedPath
        in if ext = [] then ok ()
           else if ext \<in> set (map normalize_ext blocked)
           then path_err EXTENSION_BLOCKED (''File extension '' @ ext @ '' is not allowed'') normalizedPath
           else ok ())"

definition validatePath :: "string \<Rightarrow> path_options \<Rightarrow> (path_error, string) result" where
  "validatePath requestedPath options =
     (if NUL \<in> set requestedPath
      then path_err INVALID_PATH ''Path contains null bytes'' requestedPath
      else if length requestedPath > MAX_PATH_LENGTH
      then path_err PATH_TOO_LONG
             (''Path exceeds maximum length of '' @ show_nat MAX_PATH_LENGTH @ '' characters'') requestedPath
      else
        let normalized = normalizePath requestedPath
        in case checkPathTraversal normalized requestedPath of
             Inl e \<Rightarrow> err e
           | Inr _ \<Rightarrow>
               (case checkAllowedPaths normalized (allowedPaths options) of
                  Inl e \<Rightarrow> err e
                | Inr _ \<Rightarrow>
                    if checkExtension options
                    then (case checkBlockedExtension normalized (blockedExtensions options) of
                            Inl e \<Rightarrow> err e
                          | Inr _ \<Rightarrow> ok normalized)
                    else ok normalized))"

definition validateFileName :: "string \<Rightarrow> (path_error, string) result" where
  "validateFileName fileName =
     (if NUL \<in> set fileName
      then path_err INVALID_PATH ''Filename contains invalid characters'' fileName
      else if length fileName > MAX_FILENAME_LENGTH
      then path_err PATH_TOO_LONG
             (''Filename exceeds maximum length of '' @ show_nat MAX_FILENAME_LENGTH @ '' characters'') fileName
      else if slash \<in> set fileName \<or> CHR 0x5C \<in> set fileName
      then path_err INVALID_PATH ''Filename cannot contain path separators'' fileName
      else if fileName = ''.'' \<or> fileName = ''..''
      then path_err INVALID_PATH ''Invalid filename'' fileName
      else ok fileName)"

definition joinPathSafely :: "string \<Rightarrow> string \<Rightarrow> (path_error, string) result" where
  "joinPathSafely basePath relativePath =
     (let normalizedBase = normalizePath basePath;
          normalizedRelative = normalizePath relativePath
      in if starts_with normalizedRelative ''/'' \<or> starts_with normalizedRelative ''..''
         then path_err PATH_TRAVERSAL ''Cannot use absolute or parent paths'' relativePath
         else
           let joined = posix_join normalizedBase normalizedRelative;
               normalizedJoined = normalizePath joined
           in if normalizedBase \<noteq> ''.'' \<and> normalizedBase \<noteq> ''~''
                 \<and> \<not> starts_with normalizedJoined normalizedBase
              then path_err PATH_TRAVERSAL ''Path escapes base directory'' relativePath
              else ok normalizedJoined)"

section \<open>Containment\<close>

lemma dotdot_not_plain: "\<forall>s\<in>set (path_segs q). plain_seg s \<Longrightarrow> ''..'' \<notin> set (split_on slash q)"
  by (auto simp: path_segs_def plain_seg_def)

lemma normalizePath_plain:
  assumes "\<not> starts_with p ''~/''" and "\<not> starts_with (normalizePath p) ''..''"
  shows "\<forall>s\<in>set (path_segs (normalizePath p)). plain_seg s"
proof (cases "p = [] \<or> p = ''.'' \<or> p = ''~'' \<or> p = ''~/''")
  case True
  then show ?thesis by (auto simp: normalizePath_def path_segs_def plain_seg_def)
next
  case False
  with assms(1) have "normalizePath p = posix_normalize p" by (simp add: normalizePath_def)
  with False assms(2) posix_normalize_climbs [of p] show ?thesis by auto
qed

lemma validatePath_ok [ok_simps]:
  "validatePath p opts = ok q \<longleftrightarrow> NUL \<notin> set p \<and> length p \<le> MAX_PATH_LENGTH \<and> q = normalizePath p
     \<and> checkPathTraversal q p = ok () \<and> checkAllowedPaths q (allowedPaths opts) = ok ()
     \<and> (checkExtension opts \<longrightarrow> checkBlockedExtension q (blockedExtensions opts) = ok ())"
  by (auto simp: validatePath_def Let_def split: sum.splits if_splits)

lemma checkPathTraversal_ok [ok_simps]:
  "checkPathTraversal q p = ok () \<longleftrightarrow> \<not> starts_with q ''..'' \<and> NUL \<notin> set q"
  by (simp add: checkPathTraversal_def)

lemma allowed_by_iff:
  "allowed_by q as \<longleftrightarrow> (\<exists>a\<in>set as. q = normalizePath a \<or> starts_with q (normalizePath a @ ''/''))"
  by (induction as) (auto simp: Let_def)

lemma normalizePath_absolute:
  "starts_with p ''/'' \<Longrightarrow> normalizePath p = posix_normalize p"
  by (auto simp: normalizePath_def starts_with_iff)

lemma joined_segs:
  assumes "starts_with b ''/''"
    and "\<forall>s\<in>set (path_segs b). plain_seg s" and "\<forall>s\<in>set (path_segs r). plain_seg s" and "r \<noteq> []"
  shows "path_segs (normalizePath (posix_join b r)) = path_segs b @ path_segs r"
proof -
  let ?j = "b @ slash # r"
  from assms(1) have j: "?j \<noteq> []" "hd ?j = slash" by (auto simp: starts_with_iff)
  have segs: "path_segs ?j = path_segs b @ path_segs r" by (rule path_segs_append)
  with assms(2,3) have "\<forall>s\<in>set (path_segs ?j). plain_seg s" by auto
  from norm_segs_plain [OF this] j segs
  have once: "path_segs (posix_normalize ?j) = path_segs b @ path_segs r"
    by (simp add: posix_normalize_segs)
  let ?n = "posix_normalize ?j"
  have "hd ?n = slash" using j by (rule posix_normalize_absolute)
  moreover have "\<forall>s\<in>set (path_segs ?n). plain_seg s" using once assms(2,3) by auto
  ultimately have "path_segs (posix_normalize ?n) = path_segs b @ path_segs r"
    using norm_segs_plain [of ?n] once by (simp add: posix_normalize_segs)
  moreover have "starts_with ?n ''/''"
    using \<open>hd ?n = slash\<close> by (cases ?n) (simp_all add: starts_with_iff)
  moreover have "posix_join b r = ?n"
    using assms(1,4) by (auto simp: posix_join_def starts_with_iff)
  ultimately show ?thesis by (simp add: normalizePath_absolute)
qed

section \<open>Properties\<close>

text \<open>C28: an accepted path never climbs.  Unless the request starts with \<open>~/\<close>, the path that
  \<open>validatePath\<close> returns has no \<open>..\<close> segment, contains no null byte, and is within one of the
  allowed directories: equal to its normal form or below it.  For \<open>~/\<close> requests the
  statement fails, see \<open>tilde_request_climbs\<close>.\<close>

theorem accepted_path_confined:
  assumes "validatePath p opts = ok q" and "\<not> starts_with p ''~/''"
    and "allowedPaths opts = Some as" and "as \<noteq> []"
  shows "''..'' \<notin> set (split_on slash q) \<and> NUL \<notin> set q
    \<and> (is_home q \<and> (\<exists>a\<in>set as. is_home a)
       \<or> (\<exists>a\<in>set as. q = normalizePath a \<or> starts_with q (normalizePath a @ ''/'')))"
proof -
  from assms(1) have q: "q = normalizePath p" and t: "\<not> starts_with q ''..''" "NUL \<notin> set q"
    and al: "checkAllowedPaths q (Some as) = ok ()"
    using assms(3) unfolding validatePath_ok checkPathTraversal_ok by auto
  from q t(1) assms(2) have "\<forall>s\<in>set (path_segs q). plain_seg s"
    using normalizePath_plain by blast
  with t(2) al assms(4) show ?thesis
    by (auto simp: checkAllowedPaths_def list_ex_iff allowed_by_iff dest: dotdot_not_plain split: if_splits)
qed

definition srv_opts :: path_options where
  "srv_opts = \<lparr>allowedPaths = Some [''/srv''], blockedExtensions = [''exe''], checkExtension = True\<rparr>"

lemma srv_accepts: "validatePath ''/srv/a/../b.txt'' srv_opts = ok ''/srv/b.txt''"
  by code_simp

theorem accepted_path_confined_witness:
  "''..'' \<notin> set (split_on slash ''/srv/b.txt'') \<and> NUL \<notin> set ''/srv/b.txt''
    \<and> (is_home ''/srv/b.txt'' \<and> (\<exists>a\<in>set [''/srv'']. is_home a)
       \<or> (\<exists>a\<in>set [''/srv'']. ''/srv/b.txt'' = normalizePath a
             \<or> starts_with ''/srv/b.txt'' (normalizePath a @ ''/'')))"
  by (rule accepted_path_confined [OF srv_accepts]) (simp_all add: srv_opts_def starts_with_def)

text \<open>C24: joining stays below the base.  For an absolute base and a relative path that does
  not start with \<open>~/\<close>, a successful \<open>joinPathSafely\<close> returns a path whose segments extend
  the segments of the normalised base, with no \<open>..\<close> among them.  For \<open>~/\<close> the statement
  fails, see \<open>join_escapes_into_sibling\<close>.\<close>

theorem join_stays_below_base:
  assumes "joinPathSafely base rel = ok q" and "starts_with base ''/''" and "\<not> starts_with rel ''~/''"
  shows "prefix (path_segs (normalizePath base)) (path_segs q) \<and> ''..'' \<notin> set (split_on slash q)"
proof -
  let ?b = "normalizePath base" and ?r = "normalizePath rel"
  from assms(1) have r: "\<not> starts_with ?r ''..''" and q: "q = normalizePath (posix_join ?b ?r)"
    by (auto simp: joinPathSafely_def Let_def split: if_splits)
  from assms(2) have base: "base \<noteq> []" "hd base = slash" by (auto simp: starts_with_iff)
  have b: "?b = posix_normalize base" by (rule normalizePath_absolute [OF assms(2)])
  have plain_b: "\<forall>s\<in>set (path_segs ?b). plain_seg s"
    unfolding b by (rule posix_normalize_absolute_segs [OF base])
  have plain_r: "\<forall>s\<in>set (path_segs ?r). plain_seg s"
    by (rule normalizePath_plain [OF assms(3) r])
  have "starts_with ?b ''/''"
    unfolding b using posix_normalize_absolute [OF base]
    by (cases "posix_normalize base") (simp_all add: starts_with_iff)
  moreover have "?r \<noteq> []" by (auto simp: normalizePath_def Let_def)
  ultimately have "path_segs q = path_segs ?b @ path_segs ?r"
    unfolding q by (intro joined_segs plain_b plain_r)
  with plain_b plain_r show ?thesis by (auto intro!: dotdot_not_plain)
qed

theorem join_stays_below_base_witness:
  "prefix (path_segs (normalizePath ''/srv/data'')) (path_segs ''/srv/data/x/y'')
    \<and> ''..'' \<notin> set (split_on slash ''/srv/data/x/y'')"
proof (rule join_stays_below_base)
  show "joinPathSafely ''/srv/data'' ''x/./z/../y'' = ok ''/srv/data/x/y''" by code_simp
qed (simp_all add: starts_with_def)

text \<open>A file with a blocked extension is never accepted.  When extensions are checked,
  whatever mix of case and leading dot the configuration and the request use, the extension
  of an accepted path is not one of the blocked ones.\<close>

theorem blocked_extension_rejected:
  assumes "validatePath p opts = ok q" and "checkExtension opts" and "e \<in> set (blockedExtensions opts)"
  shows "file_ext q \<noteq> normalize_ext e"
proof -
  have "normalize_ext e \<noteq> []"
    by (auto simp: normalize_ext_def Let_def starts_with_def)
  moreover have "checkBlockedExtension q (blockedExtensions opts) = ok ()"
    using assms(1,2) unfolding validatePath_ok by auto
  ultimately show ?thesis
    using assms(3) by (auto simp: checkBlockedExtension_def Let_def split: if_splits)
qed

theorem blocked_extension_rejected_witness:
  "file_ext ''/srv/b.txt'' \<noteq> normalize_ext ''exe''"
  by (rule blocked_extension_rejected [OF srv_accepts]) (simp_all add: srv_opts_def)

text \<open>Where the code falls short of its own description.  A request below \<open>~/\<close> may climb out
  of the home directory; a base directory may be left for a sibling that shares its prefix;
  an allowed directory written with a trailing slash, and the root directory, allow nothing
  below them; a file whose name merely begins with two dots is taken for a traversal.\<close>

lemma tilde_request_climbs:
  "validatePath ''~/../../etc/passwd''
     \<lparr>allowedPaths = Some [''~''], blockedExtensions = [], checkExtension = False\<rparr> = ok ''~/../../etc/passwd''"
  by code_simp

lemma join_escapes_into_sibling:
  "joinPathSafely ''/home/u'' ''~/../../u2/secret'' = ok ''/home/u2/secret''"
  by code_simp

lemma allowed_trailing_slash_allows_nothing:
  "validatePath ''/data/x''
     \<lparr>allowedPaths = Some [''/data/'', ''/''], blockedExtensions = [], checkExtension = False\<rparr> =
   path_err PATH_FORBIDDEN ''Path not in allowed directories'' ''/data/x''"
  by code_simp

lemma dotted_name_rejected:
  "validatePath ''..hidden'' \<lparr>allowedPaths = None, blockedExtensions = [], checkExtension = False\<rparr> =
   path_err PATH_TRAVERSAL ''Path traversal attempt detected'' ''..hidden''"
  by code_simp

end
