(* ===== verification/Rate_Limiter.thy ===== *)
theory Rate_Limiter
  imports Prelude_JS
begin

text \<open>
  The byte rate limiter of SFTP transfers, \<open>app/services/sftp/rate-limiter.ts\<close>: a window
  counter with a byte budget per window.  Byte counts and times are integers (the code only
  adds, subtracts and compares integral numbers).  An operation gets the value of
  \<open>Date.now()\<close> as its argument \<open>now\<close>; the two readings of one synchronous call are the
  same value.
\<close>

section \<open>Interface\<close>

text \<open>What a client of an admission check relies on: an admitted amount is added to the
  total, a refused amount leaves the total alone.\<close>

locale byte_admission =
  fixes check :: "int \<Rightarrow> int \<Rightarrow> 's \<Rightarrow> 's" and admits :: "int \<Rightarrow> int \<Rightarrow> 's \<Rightarrow> bool"
    and total :: "'s \<Rightarrow> int"
  assumes total_admitted: "admits b now s \<Longrightarrow> total (check b now s) = total s + b"
    and total_refused: "\<not> admits b now s \<Longrightarrow> total (check b now s) = total s"
begin

fun run_checks :: "(int \<times> int) list \<Rightarrow> 's \<Rightarrow> 's" where
  "run_checks [] s = s"
| "run_checks ((now, b) # xs) s = run_checks xs (check b now s)"

fun admitted :: "(int \<times> int) list \<Rightarrow> 's \<Rightarrow> int list" where
  "admitted [] s = []"
| "admitted ((now, b) # xs) s =
     (if admits b now s then b # admitted xs (check b now s) else admitted xs (check b now s))"

lemma total_run: "total (run_checks xs s) = total s + sum_list (admitted xs s)"
  by (induction xs s rule: run_checks.induct) (auto simp: total_admitted total_refused)

lemma total_step: "0 \<le> b \<Longrightarrow> total s \<le> total (check b now s) \<and> total (check b now s) \<le> total s + b"
  by (cases "admits b now s") (simp_all add: total_admitted total_refused)

end

section \<open>State and operations\<close>

record rate_limiter =
  rlBytesPerSecond :: int
  rlWindowMs :: int
  rlBytesInWindow :: int
  rlWindowStart :: int
  rlPaused :: bool
  rlTotalBytes :: int
  rlStartTime :: int

record rate_result =
  rrAllowed :: bool
  rrWaitMs :: int
  rrCurrentRate :: int

definition new_rate_limiter :: "int \<Rightarrow> int option \<Rightarrow> int \<Rightarrow> rate_limiter" where
  "new_rate_limiter bytesPerSecond windowMs now =
     \<lparr>rlBytesPerSecond = bytesPerSecond,
      rlWindowMs = (case windowMs of None \<Rightarrow> 1000 | Some w \<Rightarrow> w),
      rlBytesInWindow = 0, rlWindowStart = now, rlPaused = False, rlTotalBytes = 0,
      rlStartTime = now\<rparr>"

definition createRateLimiter :: "int \<Rightarrow> int \<Rightarrow> rate_limiter" where
  "createRateLimiter bytesPerSecond now = new_rate_limiter bytesPerSecond None now"

definition UNLIMITED_RATE_LIMITER :: "int \<Rightarrow> rate_limiter" where
  "UNLIMITED_RATE_LIMITER now = new_rate_limiter 0 None now"

definition calculateCurrentRate :: "int \<Rightarrow> rate_limiter \<Rightarrow> int" where
  "calculateCurrentRate now s =
     (let elapsed = now - rlStartTime s
      in if elapsed \<le> 0 then 0 else (rlTotalBytes s * 1000) div elapsed)"

definition checkAndUpdate :: "int \<Rightarrow> int \<Rightarrow> rate_limiter \<Rightarrow> rate_limiter \<times> rate_result" where
  "checkAndUpdate n now s =
     (if rlBytesPerSecond s \<le> 0 then
        (let s1 = s\<lparr>rlTotalBytes := rlTotalBytes s + n\<rparr>
         in (s1, \<lparr>rrAllowed = True, rrWaitMs = 0, rrCurrentRate = calculateCurrentRate now s1\<rparr>))
      else
        (let windowElapsed = now - rlWindowStart s;
             s1 = (if windowElapsed \<ge> rlWindowMs s
                   then s\<lparr>rlBytesInWindow := 0, rlWindowStart := now\<rparr> else s)
         in if rlBytesInWindow s1 + n \<le> rlBytesPerSecond s1 then
              (let s2 = s1\<lparr>rlBytesInWindow := rlBytesInWindow s1 + n,
                           rlTotalBytes := rlTotalBytes s1 + n\<rparr>
               in (s2, \<lparr>rrAllowed = True, rrWaitMs = 0, rrCurrentRate = calculateCurrentRate now s2\<rparr>))
            else
              (let waitMs = rlWindowMs s1 - windowElapsed
               in (s1, \<lparr>rrAllowed = False, rrWaitMs = max 1 waitMs,
                        rrCurrentRate = calculateCurrentRate now s1\<rparr>))))"

definition wouldAllow :: "int \<Rightarrow> int \<Rightarrow> rate_limiter \<Rightarrow> bool" where
  "wouldAllow n now s =
     (if rlBytesPerSecond s \<le> 0 then True
      else let windowElapsed = now - rlWindowStart s
           in if windowElapsed \<ge> rlWindowMs s then n \<le> rlBytesPerSecond s
              else rlBytesInWindow s + n \<le> rlBytesPerSecond s)"

definition getElapsedMs :: "int \<Rightarrow> rate_limiter \<Rightarrow> int" where
  "getElapsedMs now s = now - rlStartTime s"

definition rl_pause :: "rate_limiter \<Rightarrow> rate_limiter" where
  "rl_pause s = s\<lparr>rlPaused := True\<rparr>"

definition rl_resume :: "int \<Rightarrow> rate_limiter \<Rightarrow> rate_limiter" where
  "rl_resume now s = s\<lparr>rlPaused := False, rlWindowStart := now, rlBytesInWindow := 0\<rparr>"

definition rl_reset :: "int \<Rightarrow> rate_limiter \<Rightarrow> rate_limiter" where
  "rl_reset now s = s\<lparr>rlBytesInWindow := 0, rlWindowStart := now, rlPaused := False,
     rlTotalBytes := 0, rlStartTime := now\<rparr>"

definition getConfig :: "rate_limiter \<Rightarrow> int \<times> int" where
  "getConfig s = (rlBytesPerSecond s, rlWindowMs s)"

section \<open>Admission\<close>

lemma check_allowed: "rrAllowed (snd (checkAndUpdate n now s)) = wouldAllow n now s"
  by (simp add: checkAndUpdate_def wouldAllow_def Let_def)

lemma check_total:
  "rlTotalBytes (fst (checkAndUpdate n now s)) = rlTotalBytes s + (if wouldAllow n now s then n else 0)"
  by (simp add: checkAndUpdate_def wouldAllow_def Let_def)

definition check_state :: "int \<Rightarrow> int \<Rightarrow> rate_limiter \<Rightarrow> rate_limiter" where
  "check_state n now s = fst (checkAndUpdate n now s)"

interpretation rl: byte_admission check_state wouldAllow rlTotalBytes
  by unfold_locales (simp_all add: check_total check_state_def)

lemma check_config [simp]:
  "rlBytesPerSecond (check_state n now s) = rlBytesPerSecond s"
  "rlWindowMs (check_state n now s) = rlWindowMs s"
  "rlStartTime (check_state n now s) = rlStartTime s"
  by (simp_all add: check_state_def checkAndUpdate_def Let_def)

definition rl_inv :: "int \<Rightarrow> rate_limiter \<Rightarrow> bool" where
  "rl_inv now s \<longleftrightarrow> 0 < rlBytesPerSecond s \<and> 0 < rlWindowMs s
     \<and> rlStartTime s \<le> rlWindowStart s \<and> rlWindowStart s \<le> now
     \<and> 0 \<le> rlBytesInWindow s \<and> rlBytesInWindow s \<le> rlBytesPerSecond s
     \<and> rlTotalBytes s \<le> rlBytesPerSecond s * ((rlWindowStart s - rlStartTime s) div rlWindowMs s)
         + rlBytesInWindow s"

lemma div_next_window:
  fixes a b w p :: int
  assumes "0 < w" and "a + w \<le> b" and "0 < p"
  shows "p * (a div w) + p \<le> p * (b div w)"
proof -
  have "(a + w) div w \<le> b div w" using assms by (intro zdiv_mono1) auto
  then have "a div w + 1 \<le> b div w" using assms by simp
  then have "p * (a div w + 1) \<le> p * (b div w)" using assms by (simp add: mult_left_mono)
  then show ?thesis by (simp add: algebra_simps)
qed

lemma rl_inv_check [inv_intros]:
  assumes "rl_inv now0 s" and "now0 \<le> now" and "0 \<le> n"
  shows "rl_inv now (check_state n now s)"
proof (cases "now - rlWindowStart s \<ge> rlWindowMs s")
  case False
  then show ?thesis using assms by (simp add: rl_inv_def check_state_def checkAndUpdate_def Let_def)
next
  case True
  let ?k = "\<lambda>t. (t - rlStartTime s) div rlWindowMs s"
  have "rlBytesPerSecond s * ?k (rlWindowStart s) + rlBytesPerSecond s \<le> rlBytesPerSecond s * ?k now"
    using assms True by (intro div_next_window) (auto simp: rl_inv_def)
  then have "rlTotalBytes s \<le> rlBytesPerSecond s * ?k now"
    using assms by (auto simp: rl_inv_def)
  then show ?thesis using assms True by (auto simp: rl_inv_def check_state_def checkAndUpdate_def Let_def)
qed

lemma rl_inv_bound:
  assumes "rl_inv now s"
  shows "rlTotalBytes s \<le> rlBytesPerSecond s * ((now - rlStartTime s) div rlWindowMs s + 1)"
proof -
  have "(rlWindowStart s - rlStartTime s) div rlWindowMs s \<le> (now - rlStartTime s) div rlWindowMs s"
    using assms by (intro zdiv_mono1) (auto simp: rl_inv_def)
  then have "rlBytesPerSecond s * ((rlWindowStart s - rlStartTime s) div rlWindowMs s)
      \<le> rlBytesPerSecond s * ((now - rlStartTime s) div rlWindowMs s)"
    using assms by (simp add: rl_inv_def mult_left_mono)
  moreover have "rlBytesInWindow s \<le> rlBytesPerSecond s" and "rlTotalBytes s
      \<le> rlBytesPerSecond s * ((rlWindowStart s - rlStartTime s) div rlWindowMs s) + rlBytesInWindow s"
    using assms by (simp_all add: rl_inv_def)
  ultimately show ?thesis unfolding distrib_left by linarith
qed

text \<open>A sequence of checks with a clock that does not run backwards.\<close>

fun clock_ok :: "int \<Rightarrow> (int \<times> int) list \<Rightarrow> bool" where
  "clock_ok t [] = True"
| "clock_ok t ((now, n) # xs) = (t \<le> now \<and> 0 \<le> n \<and> clock_ok now xs)"

fun clock_end :: "int \<Rightarrow> (int \<times> int) list \<Rightarrow> int" where
  "clock_end t [] = t"
| "clock_end t ((now, n) # xs) = clock_end now xs"

lemma rl_inv_run: "rl_inv t s \<Longrightarrow> clock_ok t xs \<Longrightarrow> rl_inv (clock_end t xs) (rl.run_checks xs s)"
  by (induction t xs arbitrary: s rule: clock_ok.induct) (auto intro: rl_inv_check)

lemma run_config:
  "rlBytesPerSecond (rl.run_checks xs s) = rlBytesPerSecond s
   \<and> rlWindowMs (rl.run_checks xs s) = rlWindowMs s \<and> rlStartTime (rl.run_checks xs s) = rlStartTime s"
  by (induction xs s rule: rl.run_checks.induct) simp_all

lemma rl_inv_new: "0 < b \<Longrightarrow> 0 < w \<Longrightarrow> rl_inv t (new_rate_limiter b (Some w) t)"
  by (simp add: rl_inv_def new_rate_limiter_def)

section \<open>Corner cases\<close>

text \<open>A chunk larger than the budget is never admitted, however long the client waits, and
  once the window has expired the advised wait is one millisecond.\<close>

lemma oversized_never_admitted:
  "0 < rlBytesPerSecond s \<Longrightarrow> 0 \<le> rlBytesInWindow s \<Longrightarrow> rlBytesPerSecond s < n \<Longrightarrow>
     \<not> wouldAllow n now s"
  by (simp add: wouldAllow_def Let_def)

lemma oversized_wait_1:
  "0 < rlBytesPerSecond s \<Longrightarrow> rlBytesPerSecond s < n \<Longrightarrow> rlWindowMs s \<le> now - rlWindowStart s \<Longrightarrow>
     rrWaitMs (snd (checkAndUpdate n now s)) = 1"
  by (simp add: checkAndUpdate_def Let_def)

text \<open>Pausing changes no verdict, and resuming grants a fresh budget at once: pause and resume
  let the double budget through in one instant.\<close>

lemma pause_ignored: "wouldAllow n now (rl_pause s) = wouldAllow n now s"
  by (simp add: wouldAllow_def rl_pause_def)

lemma resume_doubles_budget:
  "let s1 = fst (checkAndUpdate 10 0 (createRateLimiter 10 0));
       s2 = fst (checkAndUpdate 10 0 (rl_resume 0 (rl_pause s1)))
   in rlTotalBytes s2 = 20"
  by (simp add: checkAndUpdate_def createRateLimiter_def new_rate_limiter_def rl_resume_def
      rl_pause_def Let_def)

section \<open>Properties\<close>

text \<open>C29: the byte budget.  Whatever chunks are checked at whatever non-decreasing times, the
  bytes a limiter has admitted since its creation are exactly the sum of the admitted chunks,
  and at most its budget times the number of windows begun.\<close>

theorem rate_limit_enforced:
  assumes "0 < bps" and "0 < w" and "clock_ok t0 xs"
  shows "let s0 = new_rate_limiter bps (Some w) t0; s = rl.run_checks xs s0
    in rlTotalBytes s = sum_list (rl.admitted xs s0)
       \<and> rlTotalBytes s \<le> bps * ((clock_end t0 xs - t0) div w + 1)"
proof -
  let ?s0 = "new_rate_limiter bps (Some w) t0"
  have "rl_inv (clock_end t0 xs) (rl.run_checks xs ?s0)"
    using assms by (intro rl_inv_run rl_inv_new) auto
  from rl_inv_bound [OF this] run_config [of xs ?s0]
  have "rlTotalBytes (rl.run_checks xs ?s0) \<le> bps * ((clock_end t0 xs - t0) div w + 1)"
    by (simp add: new_rate_limiter_def)
  then show ?thesis using rl.total_run [of xs ?s0] by (simp add: new_rate_limiter_def)
qed

theorem rate_limit_enforced_witness:
  "clock_ok 0 [(0, 60), (10, 60), (1000, 60)]
   \<and> (let s0 = new_rate_limiter 100 (Some 1000) 0; s = rl.run_checks [(0, 60), (10, 60), (1000, 60)] s0
      in rl.admitted [(0, 60), (10, 60), (1000, 60)] s0 = [60, 60] \<and> rlTotalBytes s \<le> 200)"
  using rate_limit_enforced [of 100 1000 0 "[(0, 60), (10, 60), (1000, 60)]"]
  by (simp add: new_rate_limiter_def check_state_def checkAndUpdate_def wouldAllow_def Let_def)

text \<open>C22: the advised wait is right.  A chunk within the budget that is refused is admitted by
  every check made at least \<open>waitMs\<close> later with nothing in between, and the dry run
  \<open>wouldAllow\<close> gives the verdict of the real check.\<close>

theorem retry_after_wait_admitted:
  assumes "checkAndUpdate n now s = (s', r)" and "\<not> rrAllowed r"
    and "0 \<le> n" and "n \<le> rlBytesPerSecond s" and "now + rrWaitMs r \<le> later"
  shows "0 < rrWaitMs r \<and> \<not> wouldAllow n now s \<and> wouldAllow n later s'
    \<and> rrAllowed (snd (checkAndUpdate n later s'))"
  using assms by (auto simp: checkAndUpdate_def wouldAllow_def Let_def split: if_splits)

theorem retry_after_wait_admitted_witness:
  "let s = fst (checkAndUpdate 60 0 (createRateLimiter 100 0)); (s', r) = checkAndUpdate 60 10 s
   in rrWaitMs r = 990 \<and> rrAllowed (snd (checkAndUpdate 60 1000 s'))"
proof -
  let ?s = "fst (checkAndUpdate 60 0 (createRateLimiter 100 0))"
  have "rrAllowed (snd (checkAndUpdate 60 1000 (fst (checkAndUpdate 60 10 ?s))))"
    using retry_after_wait_admitted [of 60 10 ?s "fst (checkAndUpdate 60 10 ?s)"
        "snd (checkAndUpdate 60 10 ?s)" 1000]
    by (simp add: checkAndUpdate_def createRateLimiter_def new_rate_limiter_def Let_def)
  then show ?thesis
    by (simp add: checkAndUpdate_def createRateLimiter_def new_rate_limiter_def Let_def)
qed

end
