(* ===== verification/Transfer_Manager.thy ===== *)
theory Transfer_Manager
  imports Rate_Limiter JS_Strings
begin

text \<open>
  The transfer table of the SFTP service, \<open>app/services/sftp/transfer-manager.ts\<close>.  The
  class keeps a \<open>Map\<close> from transfer ids to mutable transfer objects; nobody outside writes
  to these objects, so the model stores them by value and an operation returns the new table
  and the result of the method.  \<open>now\<close> is \<open>Date.now()\<close>.
\<close>

section \<open>Data\<close>

datatype transfer_direction = Upload | Download

datatype transfer_status = TPending | TActive | TPaused | TCompleted | TFailed | TCancelled

fun status_text :: "transfer_status \<Rightarrow> string" where
  "status_text TPending = ''pending''"
| "status_text TActive = ''active''"
| "status_text TPaused = ''paused''"
| "status_text TCompleted = ''completed''"
| "status_text TFailed = ''failed''"
| "status_text TCancelled = ''cancelled''"

datatype transfer_error_code = TRANSFER_NOT_FOUND | MAX_TRANSFERS | INVALID_STATE | CHUNK_MISMATCH

record transfer_error =
  teCode :: transfer_error_code
  teMessage :: string
  teTransferId :: "string option"

record start_params =
  spTransferId :: string
  spSessionId :: string
  spDirection :: transfer_direction
  spRemotePath :: string
  spFileName :: string
  spTotalBytes :: int
  spRateLimit :: "int option"

record transfer =
  tId :: string
  tSessionId :: string
  tDirection :: transfer_direction
  tRemotePath :: string
  tFileName :: string
  tTotalBytes :: int
  tBytesTransferred :: int
  tStartedAt :: int
  tLastChunkAt :: int
  tStatus :: transfer_status
  tNextChunkIndex :: int
  tRateLimiter :: rate_limiter

record transfer_progress =
  tpTransferId :: string
  tpDirection :: transfer_direction
  tpBytesTransferred :: int
  tpTotalBytes :: int
  tpPercentComplete :: int
  tpBytesPerSecond :: int
  tpEstimatedSecondsRemaining :: "int option"

record transfer_completion =
  tcTransferId :: string
  tcDirection :: transfer_direction
  tcBytesTransferred :: int
  tcDurationMs :: int
  tcAverageBytesPerSecond :: int

record transfer_manager =
  tmTransfers :: "(string, transfer) jsmap"
  tmMaxConcurrent :: int
  tmDefaultRate :: int

definition new_transfer_manager :: "int \<Rightarrow> int option \<Rightarrow> transfer_manager" where
  "new_transfer_manager maxConcurrentTransfers defaultRateLimitBytesPerSec =
     \<lparr>tmTransfers = [], tmMaxConcurrent = maxConcurrentTransfers,
      tmDefaultRate = (case defaultRateLimitBytesPerSec of None \<Rightarrow> 0 | Some r \<Rightarrow> r)\<rparr>"

section \<open>Queries\<close>

definition not_found :: "string \<Rightarrow> transfer_error" where
  "not_found tid = \<lparr>teCode = TRANSFER_NOT_FOUND, teMessage = ''Transfer not found'',
     teTransferId = Some tid\<rparr>"

definition bad_state :: "string \<Rightarrow> transfer_status \<Rightarrow> string \<Rightarrow> transfer_error" where
  "bad_state verb st tid = \<lparr>teCode = INVALID_STATE,
     teMessage = ''Cannot '' @ verb @ '' transfer in '' @ status_text st @ '' state'',
     teTransferId = Some tid\<rparr>"

definition getTransfer :: "string \<Rightarrow> transfer_manager \<Rightarrow> transfer option" where
  "getTransfer tid m = map_get (tmTransfers m) tid"

definition counted :: "string \<Rightarrow> transfer \<Rightarrow> bool" where
  "counted sid t \<longleftrightarrow> tSessionId t = sid \<and> (tStatus t = TPending \<or> tStatus t = TActive)"

definition getActiveCount :: "string \<Rightarrow> transfer_manager \<Rightarrow> nat" where
  "getActiveCount sid m = length (filter (counted sid) (map_values (tmTransfers m)))"

definition canStartTransfer :: "string \<Rightarrow> transfer_manager \<Rightarrow> bool" where
  "canStartTransfer sid m \<longleftrightarrow> int (getActiveCount sid m) < tmMaxConcurrent m"

definition getSessionTransfers :: "string \<Rightarrow> transfer_manager \<Rightarrow> transfer list" where
  "getSessionTransfers sid m = filter (\<lambda>t. tSessionId t = sid) (map_values (tmTransfers m))"

definition getTotalCount :: "transfer_manager \<Rightarrow> nat" where
  "getTotalCount m = length (tmTransfers m)"

definition verifyOwnership :: "string \<Rightarrow> string \<Rightarrow> transfer_manager \<Rightarrow> (transfer_error, transfer) result" where
  "verifyOwnership tid sid m =
     (case map_get (tmTransfers m) tid of
        Some t \<Rightarrow> if tSessionId t \<noteq> sid then err (not_found tid) else ok t
      | None \<Rightarrow> err (not_found tid))"

definition ceil_div :: "int \<Rightarrow> int \<Rightarrow> int" where
  "ceil_div a b = - ((- a) div b)"

definition getProgress :: "string \<Rightarrow> int \<Rightarrow> transfer_manager \<Rightarrow> (transfer_error, transfer_progress) result" where
  "getProgress tid now m =
     (case map_get (tmTransfers m) tid of None \<Rightarrow> err (not_found tid)
      | Some t \<Rightarrow>
          let bytesPerSecond = calculateCurrentRate now (tRateLimiter t);
              percentComplete = (if tTotalBytes t > 0 then (tBytesTransferred t * 100) div tTotalBytes t else 0);
              remainingBytes = tTotalBytes t - tBytesTransferred t;
              estimatedSecondsRemaining =
                (if bytesPerSecond > 0 then Some (ceil_div remainingBytes bytesPerSecond) else None)
          in ok \<lparr>tpTransferId = tId t, tpDirection = tDirection t,
                 tpBytesTransferred = tBytesTransferred t, tpTotalBytes = tTotalBytes t,
                 tpPercentComplete = percentComplete, tpBytesPerSecond = bytesPerSecond,
                 tpEstimatedSecondsRemaining = estimatedSecondsRemaining\<rparr>)"

section \<open>Operations\<close>

definition put :: "string \<Rightarrow> transfer \<Rightarrow> transfer_manager \<Rightarrow> transfer_manager" where
  "put tid t m = m\<lparr>tmTransfers := map_set tid t (tmTransfers m)\<rparr>"

definition drop_transfer :: "string \<Rightarrow> transfer_manager \<Rightarrow> transfer_manager" where
  "drop_transfer tid m = m\<lparr>tmTransfers := map_delete tid (tmTransfers m)\<rparr>"

definition startTransfer ::
  "start_params \<Rightarrow> int \<Rightarrow> transfer_manager \<Rightarrow> transfer_manager \<times> (transfer_error, transfer) result" where
  "startTransfer p now m =
     (if int (getActiveCount (spSessionId p) m) \<ge> tmMaxConcurrent m then
        (m, err \<lparr>teCode = MAX_TRANSFERS,
                 teMessage = ''Maximum concurrent transfers ('' @ show_int (tmMaxConcurrent m) @ '') reached'',
                 teTransferId = Some (spTransferId p)\<rparr>)
      else if map_get (tmTransfers m) (spTransferId p) \<noteq> None then
        (m, err \<lparr>teCode = INVALID_STATE, teMessage = ''Transfer already exists'',
                 teTransferId = Some (spTransferId p)\<rparr>)
      else
        let rateLimitBytesPerSec = (case spRateLimit p of None \<Rightarrow> tmDefaultRate m | Some r \<Rightarrow> r);
            t = \<lparr>tId = spTransferId p, tSessionId = spSessionId p, tDirection = spDirection p,
                 tRemotePath = spRemotePath p, tFileName = spFileName p,
                 tTotalBytes = spTotalBytes p, tBytesTransferred = 0, tStartedAt = now,
                 tLastChunkAt = now, tStatus = TPending, tNextChunkIndex = 0,
                 tRateLimiter = createRateLimiter rateLimitBytesPerSec now\<rparr>
        in (put (spTransferId p) t m, ok t))"

definition activateTransfer ::
  "string \<Rightarrow> int \<Rightarrow> transfer_manager \<Rightarrow> transfer_manager \<times> (transfer_error, transfer) result" where
  "activateTransfer tid now m =
     (case map_get (tmTransfers m) tid of None \<Rightarrow> (m, err (not_found tid))
      | Some t \<Rightarrow>
          if tStatus t \<noteq> TPending then (m, err (bad_state ''activate'' (tStatus t) tid))
          else let t' = t\<lparr>tStatus := TActive, tLastChunkAt := now\<rparr> in (put tid t' m, ok t'))"

definition updateProgress ::
  "string \<Rightarrow> int \<Rightarrow> int \<Rightarrow> int \<Rightarrow> transfer_manager \<Rightarrow> transfer_manager \<times> (transfer_error, transfer) result" where
  "updateProgress tid chunkIndex bytesReceived now m =
     (case map_get (tmTransfers m) tid of None \<Rightarrow> (m, err (not_found tid))
      | Some t \<Rightarrow>
          if tStatus t \<noteq> TActive then (m, err (bad_state ''update'' (tStatus t) tid))
          else if chunkIndex \<noteq> tNextChunkIndex t then
            (m, err \<lparr>teCode = CHUNK_MISMATCH,
                     teMessage = ''Expected chunk '' @ show_int (tNextChunkIndex t) @ '', got ''
                       @ show_int chunkIndex,
                     teTransferId = Some tid\<rparr>)
          else
            let t' = t\<lparr>tBytesTransferred := tBytesTransferred t + bytesReceived,
                        tLastChunkAt := now, tNextChunkIndex := chunkIndex + 1,
                        tRateLimiter := fst (checkAndUpdate bytesReceived now (tRateLimiter t))\<rparr>
            in (put tid t' m, ok t'))"

definition completeTransfer ::
  "string \<Rightarrow> int \<Rightarrow> transfer_manager \<Rightarrow> transfer_manager \<times> (transfer_error, transfer_completion) result" where
  "completeTransfer tid now m =
     (case map_get (tmTransfers m) tid of None \<Rightarrow> (m, err (not_found tid))
      | Some t \<Rightarrow>
          let durationMs = getElapsedMs now (tRateLimiter t);
              averageBytesPerSecond =
                (if durationMs > 0 then (tBytesTransferred t * 1000) div durationMs else 0)
          in (drop_transfer tid m,
              ok \<lparr>tcTransferId = tId t, tcDirection = tDirection t,
                  tcBytesTransferred = tBytesTransferred t, tcDurationMs = durationMs,
                  tcAverageBytesPerSecond = averageBytesPerSecond\<rparr>))"

definition cancelTransfer ::
  "string \<Rightarrow> transfer_manager \<Rightarrow> transfer_manager \<times> (transfer_error, unit) result" where
  "cancelTransfer tid m =
     (case map_get (tmTransfers m) tid of None \<Rightarrow> (m, ok ()) | Some t \<Rightarrow> (drop_transfer tid m, ok ()))"

definition failTransfer ::
  "string \<Rightarrow> string \<Rightarrow> transfer_manager \<Rightarrow> transfer_manager \<times> (transfer_error, unit) result" where
  "failTransfer tid reason m =
     (case map_get (tmTransfers m) tid of None \<Rightarrow> (m, err (not_found tid))
      | Some t \<Rightarrow> (drop_transfer tid m, ok ()))"

definition pauseTransfer ::
  "string \<Rightarrow> transfer_manager \<Rightarrow> transfer_manager \<times> (transfer_error, unit) result" where
  "pauseTransfer tid m =
     (case map_get (tmTransfers m) tid of None \<Rightarrow> (m, err (not_found tid))
      | Some t \<Rightarrow>
          if tStatus t \<noteq> TActive then (m, err (bad_state ''pause'' (tStatus t) tid))
          else (put tid (t\<lparr>tStatus := TPaused, tRateLimiter := rl_pause (tRateLimiter t)\<rparr>) m, ok ()))"

definition resumeTransfer ::
  "string \<Rightarrow> int \<Rightarrow> transfer_manager \<Rightarrow> transfer_manager \<times> (transfer_error, unit) result" where
  "resumeTransfer tid now m =
     (case map_get (tmTransfers m) tid of None \<Rightarrow> (m, err (not_found tid))
      | Some t \<Rightarrow>
          if tStatus t \<noteq> TPaused then (m, err (bad_state ''resume'' (tStatus t) tid))
          else (put tid (t\<lparr>tStatus := TActive, tRateLimiter := rl_resume now (tRateLimiter t)\<rparr>) m, ok ()))"

definition cancelSessionTransfers :: "string \<Rightarrow> transfer_manager \<Rightarrow> transfer_manager" where
  "cancelSessionTransfers sid m =
     m\<lparr>tmTransfers := fold (\<lambda>t ts. if tSessionId t = sid then map_delete (tId t) ts else ts)
         (map_values (tmTransfers m)) (tmTransfers m)\<rparr>"

definition tm_clear :: "transfer_manager \<Rightarrow> transfer_manager" where
  "tm_clear m = m\<lparr>tmTransfers := []\<rparr>"

section \<open>Histories\<close>

datatype tm_op = OStart start_params | OActivate string | OUpdate string int int
  | OComplete string | OCancel string | OFail string string | OPause string | OResume string
  | OCancelSession string | OClear

fun tm_apply :: "int \<times> tm_op \<Rightarrow> transfer_manager \<Rightarrow> transfer_manager" where
  "tm_apply (now, OStart p) m = fst (startTransfer p now m)"
| "tm_apply (now, OActivate i) m = fst (activateTransfer i now m)"
| "tm_apply (now, OUpdate i c n) m = fst (updateProgress i c n now m)"
| "tm_apply (now, OComplete i) m = fst (completeTransfer i now m)"
| "tm_apply (now, OCancel i) m = fst (cancelTransfer i m)"
| "tm_apply (now, OFail i r) m = fst (failTransfer i r m)"
| "tm_apply (now, OPause i) m = fst (pauseTransfer i m)"
| "tm_apply (now, OResume i) m = fst (resumeTransfer i now m)"
| "tm_apply (now, OCancelSession sid) m = cancelSessionTransfers sid m"
| "tm_apply (now, OClear) m = tm_clear m"

text \<open>The chunks of one transfer the table accepted since the transfer was last started.\<close>

fun log_step :: "string \<Rightarrow> int \<times> tm_op \<Rightarrow> transfer_manager \<Rightarrow> (int \<times> int) list \<Rightarrow> (int \<times> int) list" where
  "log_step i (now, OStart p) m cs =
     (if spTransferId p = i \<and> isl (snd (startTransfer p now m)) = False then [] else cs)"
| "log_step i (now, OUpdate j c n) m cs =
     (if j = i \<and> isl (snd (updateProgress j c n now m)) = False then cs @ [(c, n)] else cs)"
| "log_step i _ m cs = cs"

fun tm_run :: "string \<Rightarrow> (int \<times> tm_op) list \<Rightarrow> transfer_manager \<Rightarrow> (int \<times> int) list \<Rightarrow>
    transfer_manager \<times> (int \<times> int) list" where
  "tm_run i [] m cs = (m, cs)"
| "tm_run i (x # xs) m cs = tm_run i xs (tm_apply x m) (log_step i x m cs)"

section \<open>The table invariant\<close>

definition tm_ok :: "transfer_manager \<Rightarrow> bool" where
  "tm_ok m \<longleftrightarrow> wf_map (tmTransfers m) \<and> (\<forall>i t. getTransfer i m = Some t \<longrightarrow> tId t = i)"

lemma getTransfer_put [simp]: "getTransfer i (put j t m) = (if i = j then Some t else getTransfer i m)"
  by (simp add: getTransfer_def put_def map_get_set)

lemma getTransfer_drop [simp]:
  "getTransfer i (drop_transfer j m) = (if i = j then None else getTransfer i m)"
  by (simp add: getTransfer_def drop_transfer_def map_get_delete)

lemma getTransfer_new [simp]: "getTransfer i (new_transfer_manager mx d) = None"
  by (simp add: getTransfer_def new_transfer_manager_def)

lemma getTransfer_clear [simp]: "getTransfer i (tm_clear m) = None"
  by (simp add: getTransfer_def tm_clear_def)

lemma tm_ok_new [intro, simp]: "tm_ok (new_transfer_manager mx d)"
  by (simp add: tm_ok_def) (simp add: new_transfer_manager_def)

lemma tm_ok_put [inv_intros]: "tm_ok m \<Longrightarrow> tId t = i \<Longrightarrow> tm_ok (put i t m)"
  by (simp add: tm_ok_def) (simp add: put_def)

lemma tm_ok_drop [inv_intros]: "tm_ok m \<Longrightarrow> tm_ok (drop_transfer i m)"
  by (simp add: tm_ok_def) (simp add: drop_transfer_def)

lemma tm_ok_clear [inv_intros]: "tm_ok (tm_clear m)"
  by (simp add: tm_ok_def) (simp add: tm_clear_def)

lemma fold_delete_owned:
  "wf_map ts \<Longrightarrow> wf_map (fold (\<lambda>t ts. if tSessionId t = sid then map_delete (tId t) ts else ts) xs ts)
   \<and> map_get (fold (\<lambda>t ts. if tSessionId t = sid then map_delete (tId t) ts else ts) xs ts) i
     = (if \<exists>t\<in>set xs. tId t = i \<and> tSessionId t = sid then None else map_get ts i)"
  by (induction xs arbitrary: ts) (auto simp: map_get_delete)

lemma getTransfer_cancelSession:
  assumes "tm_ok m"
  shows "getTransfer i (cancelSessionTransfers sid m) =
    (case getTransfer i m of None \<Rightarrow> None | Some t \<Rightarrow> if tSessionId t = sid then None else Some t)"
proof -
  have wf: "wf_map (tmTransfers m)" and ids: "\<And>i t. getTransfer i m = Some t \<Longrightarrow> tId t = i"
    using assms by (auto simp: tm_ok_def)
  have "(\<exists>t\<in>set (map_values (tmTransfers m)). tId t = i \<and> tSessionId t = sid)
      \<longleftrightarrow> (\<exists>t. getTransfer i m = Some t \<and> tSessionId t = sid)" (is "?l \<longleftrightarrow> ?r")
  proof
    assume ?l
    then obtain j t where jt: "(j, t) \<in> set (tmTransfers m)" and t: "tId t = i" "tSessionId t = sid"
      by auto
    then have "getTransfer j m = Some t" by (simp add: getTransfer_def wf_map_get_iff [OF wf])
    with ids t show ?r by blast
  next
    assume ?r
    with ids show ?l by (metis getTransfer_def map_get_in_values)
  qed
  moreover have "getTransfer i (cancelSessionTransfers sid m) =
      (if \<exists>t\<in>set (map_values (tmTransfers m)). tId t = i \<and> tSessionId t = sid then None
       else getTransfer i m)"
    unfolding getTransfer_def cancelSessionTransfers_def
    using conjunct2 [OF fold_delete_owned [OF wf, where xs = "map_values (tmTransfers m)"]] by simp
  ultimately show ?thesis by (simp split: option.split)
qed

lemma tm_ok_cancelSession [inv_intros]:
  assumes "tm_ok m"
  shows "tm_ok (cancelSessionTransfers sid m)"
proof -
  have "wf_map (tmTransfers (cancelSessionTransfers sid m))"
    using assms conjunct1 [OF fold_delete_owned
      [where ts = "tmTransfers m" and xs = "map_values (tmTransfers m)" and sid = sid]]
    by (simp add: cancelSessionTransfers_def tm_ok_def)
  then show ?thesis using assms
    by (auto simp: tm_ok_def getTransfer_cancelSession [OF assms] split: option.splits if_splits)
qed

lemmas tm_op_defs = startTransfer_def activateTransfer_def updateProgress_def completeTransfer_def
  cancelTransfer_def failTransfer_def pauseTransfer_def resumeTransfer_def

lemma tm_ok_get: "tm_ok m \<Longrightarrow> map_get (tmTransfers m) i = Some t \<Longrightarrow> tId t = i"
  by (simp add: tm_ok_def getTransfer_def)

lemma tm_ok_apply [inv_intros]: "tm_ok m \<Longrightarrow> tm_ok (tm_apply x m)"
  by (cases "(x, m)" rule: tm_apply.cases)
    (auto simp: tm_op_defs Let_def tm_ok_get split: option.split intro!: inv_intros)

lemma tm_ok_history: "tm_ok m \<Longrightarrow> tm_ok (fold tm_apply xs m)"
  by (induction xs arbitrary: m) (auto intro: inv_intros)

section \<open>Chunk order\<close>

definition log_ok :: "string \<Rightarrow> transfer_manager \<Rightarrow> (int \<times> int) list \<Rightarrow> bool" where
  "log_ok i m cs \<longleftrightarrow> (\<forall>t. getTransfer i m = Some t \<longrightarrow>
     tNextChunkIndex t = int (length cs) \<and> map fst cs = map int [0..<length cs]
     \<and> tBytesTransferred t = sum_list (map snd cs))"

lemma log_ok_put [simp]: "j \<noteq> i \<Longrightarrow> log_ok i (put j t m) cs = log_ok i m cs"
  by (simp add: log_ok_def)

lemma log_ok_drop: "log_ok i m cs \<Longrightarrow> log_ok i (drop_transfer j m) cs"
  by (simp add: log_ok_def)

lemma log_ok_update: "log_ok i m cs \<Longrightarrow>
   log_ok i (fst (updateProgress j c n now m))
     (if j = i \<and> isl (snd (updateProgress j c n now m)) = False then cs @ [(c, n)] else cs)"
  by (cases "getTransfer i m"; cases "j = i")
    (auto simp: updateProgress_def log_ok_def Let_def getTransfer_def [symmetric] split: option.split)

lemma log_ok_start: "log_ok i m cs \<Longrightarrow>
   log_ok i (fst (startTransfer p now m))
     (if spTransferId p = i \<and> isl (snd (startTransfer p now m)) = False then [] else cs)"
  by (cases "spTransferId p = i") (auto simp: startTransfer_def log_ok_def Let_def)

lemma log_ok_same:
  "log_ok i m cs \<Longrightarrow> getTransfer j m = Some t \<Longrightarrow> tNextChunkIndex t' = tNextChunkIndex t \<Longrightarrow>
   tBytesTransferred t' = tBytesTransferred t \<Longrightarrow> log_ok i (put j t' m) cs"
  by (auto simp: log_ok_def)

lemma log_ok_step:
  assumes "tm_ok m" and "log_ok i m cs"
  shows "log_ok i (tm_apply x m) (log_step i x m cs)"
proof (cases "(x, m)" rule: tm_apply.cases)
  case (1 now p m) then show ?thesis using assms using log_ok_start [of i m cs p now] by simp
next
  case (2 now j m) then show ?thesis using assms
    by (auto simp: activateTransfer_def Let_def getTransfer_def intro: log_ok_same split: option.split)
next
  case (3 now j c n m) then show ?thesis using assms log_ok_update [of i m cs j c n now] by simp
next
  case (4 now j m) then show ?thesis using assms
    by (auto simp: completeTransfer_def Let_def intro: log_ok_drop split: option.split)
next
  case (5 now j m) then show ?thesis using assms
    by (auto simp: cancelTransfer_def intro: log_ok_drop split: option.split)
next
  case (6 now j r m) then show ?thesis using assms
    by (auto simp: failTransfer_def intro: log_ok_drop split: option.split)
next
  case (7 now j m) then show ?thesis using assms
    by (auto simp: pauseTransfer_def getTransfer_def intro: log_ok_same split: option.split)
next
  case (8 now j m) then show ?thesis using assms
    by (auto simp: resumeTransfer_def getTransfer_def intro: log_ok_same split: option.split)
next
  case (9 now sid m) then show ?thesis using assms
    by (auto simp: log_ok_def getTransfer_cancelSession split: option.splits if_splits)
next
  case (10 now m) then show ?thesis by (simp add: log_ok_def)
qed

lemma tm_run_log:
  "tm_ok m \<Longrightarrow> log_ok i m cs \<Longrightarrow> tm_run i xs m cs = (m', cs') \<Longrightarrow> log_ok i m' cs'"
  by (induction xs arbitrary: m cs) (auto intro: log_ok_step inv_intros)

lemma tm_run_state: "fst (tm_run i xs m cs) = fold tm_apply xs m"
  by (induction xs arbitrary: m cs) auto

section \<open>Concurrency limit\<close>

definition counted_ids :: "string \<Rightarrow> transfer_manager \<Rightarrow> string set" where
  "counted_ids sid m = {i. \<exists>t. getTransfer i m = Some t \<and> counted sid t}"

lemma active_count_card: "tm_ok m \<Longrightarrow> getActiveCount sid m = card (counted_ids sid m)"
  unfolding getActiveCount_def counted_ids_def getTransfer_def
  by (rule wf_map_count) (simp add: tm_ok_def)

lemma finite_counted [simp]: "finite (counted_ids sid m)"
  by (simp add: counted_ids_def getTransfer_def finite_map_get)

fun is_resume :: "int \<times> tm_op \<Rightarrow> bool" where
  "is_resume (now, OResume i) = True"
| "is_resume _ = False"

lemma counted_put_mono:
  "map_get (tmTransfers m) j = Some t \<Longrightarrow> (counted sid t' \<Longrightarrow> counted sid t) \<Longrightarrow>
     counted_ids sid (put j t' m) \<subseteq> counted_ids sid m"
  by (auto simp: counted_ids_def getTransfer_def [symmetric] split: if_splits)

lemma counted_put_rule:
  "i \<in> counted_ids sid (put j t' m) \<Longrightarrow> map_get (tmTransfers m) j = Some t \<Longrightarrow>
     (tStatus t' = TPending \<or> tStatus t' = TActive \<longrightarrow> tSessionId t' = tSessionId t \<and>
        (tStatus t = TPending \<or> tStatus t = TActive)) \<Longrightarrow> i \<in> counted_ids sid m"
  using counted_put_mono [of m j t sid t'] by (auto simp: counted_def)

lemma counted_drop_mono: "counted_ids sid (drop_transfer j m) \<subseteq> counted_ids sid m"
  by (auto simp: counted_ids_def split: if_splits)

lemma counted_start:
  "counted_ids sid (fst (startTransfer p now m)) \<subseteq> counted_ids sid m
   \<or> (sid = spSessionId p \<and> int (getActiveCount sid m) < tmMaxConcurrent m
      \<and> counted_ids sid (fst (startTransfer p now m)) = insert (spTransferId p) (counted_ids sid m))"
  by (auto simp: startTransfer_def Let_def counted_ids_def counted_def getTransfer_def [symmetric])

lemma counted_step:
  assumes "tm_ok m" and "\<not> is_resume x"
  shows "counted_ids sid (tm_apply x m) \<subseteq> counted_ids sid m
   \<or> (int (getActiveCount sid m) < tmMaxConcurrent m
      \<and> (\<exists>i. counted_ids sid (tm_apply x m) = insert i (counted_ids sid m)))"
proof (cases "(x, m)" rule: tm_apply.cases)
  case (1 now p m') then show ?thesis using counted_start [of sid p now m] by auto
next
  case (2 now j m') then show ?thesis using assms
    by (auto simp: activateTransfer_def Let_def split: option.split dest: counted_put_rule)
next
  case (3 now j c n m') then show ?thesis using assms
    by (auto simp: updateProgress_def Let_def split: option.split dest: counted_put_rule)
next
  case (4 now j m') then show ?thesis using counted_drop_mono [of sid j m]
    by (auto simp: completeTransfer_def Let_def split: option.split)
next
  case (5 now j m') then show ?thesis using counted_drop_mono [of sid j m]
    by (auto simp: cancelTransfer_def split: option.split)
next
  case (6 now j r m') then show ?thesis using counted_drop_mono [of sid j m]
    by (auto simp: failTransfer_def split: option.split)
next
  case (7 now j m') then show ?thesis using assms
    by (auto simp: pauseTransfer_def split: option.split dest: counted_put_rule)
next
  case (8 now j m') with assms show ?thesis by simp
next
  case (9 now s m') then show ?thesis using assms
    by (auto simp: counted_ids_def getTransfer_cancelSession split: option.splits if_splits)
next
  case (10 now m') then show ?thesis by (simp add: counted_ids_def)
qed

lemma max_apply [simp]: "tmMaxConcurrent (tm_apply x m) = tmMaxConcurrent m"
  by (cases "(x, m)" rule: tm_apply.cases)
    (auto simp: tm_op_defs Let_def put_def drop_transfer_def cancelSessionTransfers_def tm_clear_def
      split: option.split)

lemma active_count_step:
  assumes "tm_ok m" and "\<not> is_resume x" and "int (getActiveCount sid m) \<le> tmMaxConcurrent m"
  shows "int (getActiveCount sid (tm_apply x m)) \<le> tmMaxConcurrent m"
proof -
  have "card (counted_ids sid (tm_apply x m)) \<le> card (counted_ids sid m)
      \<or> int (getActiveCount sid m) < tmMaxConcurrent m
         \<and> card (counted_ids sid (tm_apply x m)) \<le> Suc (card (counted_ids sid m))"
    using counted_step [OF assms(1,2), of sid] by (auto simp: card_mono card_insert_if)
  then show ?thesis using assms by (auto simp: active_count_card tm_ok_apply)
qed

lemma active_count_history:
  "tm_ok m \<Longrightarrow> \<forall>x\<in>set xs. \<not> is_resume x \<Longrightarrow> int (getActiveCount sid m) \<le> tmMaxConcurrent m \<Longrightarrow>
     int (getActiveCount sid (fold tm_apply xs m)) \<le> tmMaxConcurrent (fold tm_apply xs m)"
proof (induction xs arbitrary: m)
  case (Cons x xs)
  then show ?case using Cons.IH [of "tm_apply x m"] by (simp add: tm_ok_apply active_count_step)
qed simp

lemma max_history: "tmMaxConcurrent (fold tm_apply xs m) = tmMaxConcurrent m"
  by (induction xs arbitrary: m) simp_all

section \<open>Session isolation\<close>

lemma verifyOwnership_ok_iff [ok_simps]:
  "verifyOwnership i sid m = ok t \<longleftrightarrow> getTransfer i m = Some t \<and> tSessionId t = sid"
  by (auto simp: verifyOwnership_def getTransfer_def split: option.split)

lemma verifyOwnership_cases:
  "verifyOwnership i sid m = (case getTransfer i m of
     Some t \<Rightarrow> if tSessionId t = sid then ok t else err (not_found i) | None \<Rightarrow> err (not_found i))"
  by (simp add: verifyOwnership_def getTransfer_def split: option.split)

lemma session_transfers_iff:
  assumes "tm_ok m"
  shows "t \<in> set (getSessionTransfers sid m) \<longleftrightarrow> getTransfer (tId t) m = Some t \<and> tSessionId t = sid"
proof -
  have wf: "wf_map (tmTransfers m)" using assms by (simp add: tm_ok_def)
  have "t \<in> set (map_values (tmTransfers m)) \<longleftrightarrow> getTransfer (tId t) m = Some t"
  proof
    assume "t \<in> set (map_values (tmTransfers m))"
    then obtain i where "(i, t) \<in> set (tmTransfers m)" by auto
    then have "getTransfer i m = Some t" by (simp add: getTransfer_def wf_map_get_iff [OF wf])
    with assms show "getTransfer (tId t) m = Some t" by (auto simp: tm_ok_def)
  next
    assume "getTransfer (tId t) m = Some t"
    then show "t \<in> set (map_values (tmTransfers m))" by (simp only: getTransfer_def map_get_in_values)
  qed
  then show ?thesis by (auto simp: getSessionTransfers_def)
qed

section \<open>Corner cases\<close>

text \<open>A paused transfer does not count against the limit, and resuming does not check it: two
  transfers run with a limit of one.\<close>

definition demo_start :: "string \<Rightarrow> start_params" where
  "demo_start i = \<lparr>spTransferId = i, spSessionId = ''s'', spDirection = Upload,
     spRemotePath = ''/f'', spFileName = ''f'', spTotalBytes = 30, spRateLimit = Some 10\<rparr>"

lemma resume_exceeds_limit:
  "getActiveCount ''s'' (fold tm_apply
     [(0, OStart (demo_start ''a'')), (0, OActivate ''a''), (0, OPause ''a''),
      (0, OStart (demo_start ''b'')), (0, OResume ''a'')] (new_transfer_manager 1 None)) = 2"
  by code_simp

text \<open>The verdict of the rate limiter is dropped: chunks it refuses are accepted at once.\<close>

lemma refused_chunk_accepted:
  "let m = fold tm_apply [(0, OStart (demo_start ''a'')), (0, OActivate ''a''), (0, OUpdate ''a'' 0 10)]
         (new_transfer_manager 1 None);
       r = snd (updateProgress ''a'' 1 10 0 m)
   in map_option (\<lambda>t. wouldAllow 10 0 (tRateLimiter t)) (getTransfer ''a'' m) = Some False
      \<and> (case r of Inr t \<Rightarrow> tBytesTransferred t = 20 | Inl _ \<Rightarrow> False)"
  by code_simp

text \<open>Completion checks neither the state nor the byte count.\<close>

lemma complete_without_data:
  "case snd (completeTransfer ''a'' 5 (tm_apply (0, OStart (demo_start ''a'')) (new_transfer_manager 1 None)))
   of Inr c \<Rightarrow> tcBytesTransferred c = 0 | Inl _ \<Rightarrow> False"
  by code_simp

section \<open>Properties\<close>

text \<open>C30: chunks are taken in order.  After any history of the table, a present transfer has
  accepted exactly the chunks 0, 1, 2, ... since it was started, its next index is their number
  and its byte count is their sum; every other chunk was refused.\<close>

theorem chunks_in_order:
  assumes "tm_run i xs (new_transfer_manager mx d) [] = (m, chunks)" and "getTransfer i m = Some t"
  shows "map fst chunks = map int [0..<length chunks]
    \<and> tNextChunkIndex t = int (length chunks) \<and> tBytesTransferred t = sum_list (map snd chunks)"
  using tm_run_log [OF _ _ assms(1)] assms(2) by (simp add: log_ok_def)

definition demo_history :: "(int \<times> tm_op) list" where
  "demo_history = [(0, OStart (demo_start ''a'')), (0, OUpdate ''a'' 0 7), (1, OActivate ''a''),
     (2, OUpdate ''a'' 0 10), (3, OUpdate ''a'' 0 10), (4, OUpdate ''a'' 2 10), (5, OUpdate ''a'' 1 5)]"

lemma demo_history_run:
  "snd (tm_run ''a'' demo_history (new_transfer_manager 1 None) []) = [(0, 10), (1, 5)]
   \<and> getTransfer ''a'' (fst (tm_run ''a'' demo_history (new_transfer_manager 1 None) [])) \<noteq> None"
  by code_simp

theorem chunks_in_order_witness:
  "\<exists>t. getTransfer ''a'' (fold tm_apply demo_history (new_transfer_manager 1 None)) = Some t
     \<and> tNextChunkIndex t = 2 \<and> tBytesTransferred t = 15"
proof -
  obtain m cs where run: "tm_run ''a'' demo_history (new_transfer_manager 1 None) [] = (m, cs)"
    by (meson surj_pair)
  with demo_history_run obtain t where "getTransfer ''a'' m = Some t" and "cs = [(0, 10), (1, 5)]" by auto
  moreover have "m = fold tm_apply demo_history (new_transfer_manager 1 None)"
    using tm_run_state [of "''a''" demo_history "new_transfer_manager 1 None" "[]"] run by simp
  moreover have "tNextChunkIndex t = 2 \<and> tBytesTransferred t = 15"
    using chunks_in_order [OF run \<open>getTransfer ''a'' m = Some t\<close>] \<open>cs = [(0, 10), (1, 5)]\<close> by simp
  ultimately show ?thesis by blast
qed

text \<open>The concurrency limit.  In any history without a resume, no session ever has more
  pending and active transfers than the configured maximum, and a start is refused exactly when
  the maximum is reached or the id is taken.\<close>

theorem concurrency_limited:
  assumes "0 \<le> mx" and "\<forall>x\<in>set xs. \<not> is_resume x"
  shows "let m = fold tm_apply xs (new_transfer_manager mx d)
    in int (getActiveCount sid m) \<le> mx
       \<and> (isl (snd (startTransfer p now m)) \<longleftrightarrow>
            int (getActiveCount (spSessionId p) m) = mx \<or> getTransfer (spTransferId p) m \<noteq> None)"
proof -
  let ?start = "new_transfer_manager mx d" and ?m = "fold tm_apply xs (new_transfer_manager mx d)"
  have "int (getActiveCount s ?start) \<le> tmMaxConcurrent ?start" for s
    using assms by (simp add: getActiveCount_def new_transfer_manager_def)
  then have le: "int (getActiveCount s ?m) \<le> tmMaxConcurrent ?m" for s
    using active_count_history [OF _ assms(2)] tm_ok_new by blast
  moreover have "tmMaxConcurrent ?m = mx"
    using max_history [of xs ?start] by (simp add: new_transfer_manager_def)
  ultimately show ?thesis
    using le [of "spSessionId p"]
    by (auto simp: startTransfer_def Let_def getTransfer_def intro: antisym)
qed

theorem concurrency_limited_witness:
  "getActiveCount ''s'' (fold tm_apply
     [(0, OStart (demo_start ''a'')), (0, OStart (demo_start ''b''))] (new_transfer_manager 1 None)) = 1"
proof -
  have "int (getActiveCount ''s'' (fold tm_apply
     [(0, OStart (demo_start ''a'')), (0, OStart (demo_start ''b''))] (new_transfer_manager 1 None))) \<le> 1"
    using concurrency_limited [of 1 "[(0, OStart (demo_start ''a'')), (0, OStart (demo_start ''b''))]"
        None "''s''" undefined 0] by (simp add: Let_def del: fold_simps)
  moreover have "0 < getActiveCount ''s'' (fold tm_apply
     [(0, OStart (demo_start ''a'')), (0, OStart (demo_start ''b''))] (new_transfer_manager 1 None))"
    by code_simp
  ultimately show ?thesis by linarith
qed

text \<open>C31: sessions are isolated.  In any history, a session that asks for a transfer it does
  not own gets the very error it gets for an id that does not exist; cancelling a session
  removes all its transfers and leaves what every other session can see unchanged.\<close>

theorem sessions_isolated:
  "let m = fold tm_apply xs (new_transfer_manager mx d); m' = cancelSessionTransfers sid m
   in verifyOwnership i s m = (if \<exists>t\<in>set (getSessionTransfers s m). tId t = i
          then ok (the (getTransfer i m)) else err (not_found i))
      \<and> getSessionTransfers sid m' = [] \<and> verifyOwnership i sid m' = err (not_found i)
      \<and> (s \<noteq> sid \<longrightarrow> verifyOwnership i s m' = verifyOwnership i s m
            \<and> set (getSessionTransfers s m') = set (getSessionTransfers s m))"
proof -
  define m where "m = fold tm_apply xs (new_transfer_manager mx d)"
  define m' where "m' = cancelSessionTransfers sid m"
  have okm: "tm_ok m" unfolding m_def by (rule tm_ok_history) simp
  then have okm': "tm_ok m'" unfolding m'_def by (rule tm_ok_cancelSession)
  note look = getTransfer_cancelSession [OF okm, of _ sid, folded m'_def]
  have "(\<exists>t\<in>set (getSessionTransfers s m). tId t = i)
      \<longleftrightarrow> (\<exists>t. getTransfer i m = Some t \<and> tSessionId t = s)"
    using okm by (metis session_transfers_iff tm_ok_def)
  then have "verifyOwnership i s m = (if \<exists>t\<in>set (getSessionTransfers s m). tId t = i
      then ok (the (getTransfer i m)) else err (not_found i))"
    by (auto simp: verifyOwnership_cases split: option.split)
  moreover have "t \<notin> set (getSessionTransfers sid m')" for t
    by (auto simp: session_transfers_iff [OF okm'] look split: option.splits if_splits)
  then have "getSessionTransfers sid m' = []" by (metis list.set_intros(1) neq_Nil_conv)
  moreover have "verifyOwnership i sid m' = err (not_found i)"
    by (auto simp: verifyOwnership_cases look split: option.split)
  moreover have "s \<noteq> sid \<Longrightarrow> verifyOwnership i s m' = verifyOwnership i s m"
    by (auto simp: verifyOwnership_cases look split: option.split)
  moreover have "s \<noteq> sid \<Longrightarrow> set (getSessionTransfers s m') = set (getSessionTransfers s m)"
    by (auto simp: session_transfers_iff [OF okm] session_transfers_iff [OF okm'] look
        split: option.splits if_splits)
  ultimately show ?thesis unfolding m_def m'_def by (simp add: Let_def)
qed

definition demo_shared :: "(int \<times> tm_op) list" where
  "demo_shared = [(0, OStart (demo_start ''a'')), (0, OStart ((demo_start ''b'')\<lparr>spSessionId := ''t''\<rparr>))]"

lemma demo_shared_owner:
  "\<not> isl (verifyOwnership ''b'' ''t'' (fold tm_apply demo_shared (new_transfer_manager 2 None)))"
  by code_simp

theorem sessions_isolated_witness:
  "let m' = cancelSessionTransfers ''s'' (fold tm_apply demo_shared (new_transfer_manager 2 None))
   in \<not> isl (verifyOwnership ''b'' ''t'' m') \<and> getSessionTransfers ''s'' m' = []
      \<and> verifyOwnership ''b'' ''s'' m' = err (not_found ''b'')"
  using sessions_isolated [where xs = demo_shared and mx = 2 and d = None and sid = "''s''"
      and i = "''b''" and s = "''t''"] demo_shared_owner
  by (simp add: Let_def)

end
