(* ===== verification/JS_Values.thy ===== *)
theory JS_Values
  imports JS_Strings
begin

text \<open>
  The values a client message can hold: what JSON can express, plus \<open>undefined\<close> for a missing
  property and the special numbers of local computations.  An object lists its own enumerable
  properties in enumeration order, with distinct keys.  Finite numbers are exact rationals.
  The helpers of \<open>app/utils/safe-property-access.ts\<close> are here because every validator uses them.
\<close>

datatype jsnum = NaN | Infinity bool | Num rat

datatype jsval = JUndefined | JNull | JBool bool | JNum jsnum | JStr string
  | JArr "jsval list" | JObj "(string \<times> jsval) list"

text \<open>Comparisons are false when a side is \<open>NaN\<close>; \<open>Infinity True\<close> is the negative infinity.\<close>

fun num_less :: "jsnum \<Rightarrow> rat \<Rightarrow> bool" where
  "num_less NaN _ = False"
| "num_less (Infinity neg) _ = neg"
| "num_less (Num x) y = (x < y)"

fun num_greater :: "jsnum \<Rightarrow> rat \<Rightarrow> bool" where
  "num_greater NaN _ = False"
| "num_greater (Infinity neg) _ = (\<not> neg)"
| "num_greater (Num x) y = (x > y)"

definition nullish :: "jsval \<Rightarrow> bool" where
  "nullish v \<longleftrightarrow> v = JUndefined \<or> v = JNull"

text \<open>\<open>typeof v === 'object'\<close>\<close>

fun is_object :: "jsval \<Rightarrow> bool" where
  "is_object JNull = True"
| "is_object (JArr _) = True"
| "is_object (JObj _) = True"
| "is_object _ = False"

text \<open>\<open>o[key]\<close> for a key that is neither an array index, nor \<open>length\<close>, nor inherited.\<close>

fun jget :: "jsval \<Rightarrow> string \<Rightarrow> jsval" where
  "jget (JObj m) k = (case map_get m k of None \<Rightarrow> JUndefined | Some v \<Rightarrow> v)"
| "jget _ k = JUndefined"

definition isRecord :: "jsval \<Rightarrow> bool" where
  "isRecord v \<longleftrightarrow> (case v of JObj _ \<Rightarrow> True | _ \<Rightarrow> False)"

definition safeGet :: "jsval \<Rightarrow> string \<Rightarrow> jsval" where
  "safeGet obj key = jget obj key"

text \<open>\<open>Object.entries\<close> of a record.\<close>

fun entries_of :: "jsval \<Rightarrow> (string \<times> jsval) list" where
  "entries_of (JObj m) = m"
| "entries_of _ = []"

text \<open>\<open>Number.parseInt(s, 10)\<close> of a number or a string, as both the terminal and the exec
  handlers read numeric fields.\<close>

definition parse_number :: "string \<Rightarrow> jsnum" where
  "parse_number s = (case parse_int s of None \<Rightarrow> NaN | Some i \<Rightarrow> Num (of_int i))"

lemma isRecord_iff: "isRecord v \<longleftrightarrow> (\<exists>m. v = JObj m)"
  by (cases v) (auto simp: isRecord_def)

lemma num_in_range_iff:
  "x \<noteq> NaN \<and> \<not> num_less x lo \<and> \<not> num_greater x hi \<longleftrightarrow> (\<exists>q. x = Num q \<and> lo \<le> q \<and> q \<le> hi)"
  by (cases x) auto

end
