(* ===== verification/Session_State.thy ===== *)
theory Session_State
  imports JS_Values
begin

text \<open>
  The session state machine, \<open>app/state/\<close>: the state of a session (\<open>types.ts\<close>), the actions
  (\<open>actions.ts\<close>), the four reducers and their combination (\<open>reducers/*.ts\<close>) and the derived
  values (\<open>selectors.ts\<close>).  A reducer that returns the very object it was given returns
  \<open>None\<close> here, one that returns a new object \<open>Some\<close> of it, because the store compares the
  object identities.  A port is any number the client sent.  \<open>now\<close> is \<open>Date.now()\<close>; \<open>null\<close> is \<open>None\<close>.
\<close>

section \<open>Data\<close>

datatype auth_status = AuthPending | AuthAuthenticated | AuthFailed

datatype connection_status = Disconnected | Connecting | Connected | ConnError | Closed

record auth_info =
  auStatus :: auth_status
  auMethod :: "string option"
  auUsername :: "string option"
  auTimestamp :: int
  auErrorMessage :: "string option"

record connection_info =
  cnStatus :: connection_status
  cnConnectionId :: "string option"
  cnHost :: "string option"
  cnPort :: "jsnum option"
  cnErrorMessage :: "string option"
  cnLastActivity :: int

record terminal_info =
  trTerm :: string
  trRows :: int
  trCols :: int
  trEnvironment :: "(string, string) jsmap"
  trCwd :: "string option"

record session_metadata =
  mdCreatedAt :: int
  mdUpdatedAt :: int
  mdClientIp :: "string option"
  mdUserAgent :: "string option"
  mdUserId :: "string option"

record session_state =
  ssId :: string
  ssAuth :: auth_info
  ssConnection :: connection_info
  ssTerminal :: terminal_info
  ssMetadata :: session_metadata

text \<open>In \<open>METADATA_UPDATE\<close> an absent field is \<open>None\<close> and a \<open>null\<close> field \<open>Some None\<close>.\<close>

datatype session_action =
    AUTH_REQUEST string "string option"
  | AUTH_SUCCESS string string "string option"
  | AUTH_FAILURE string string
  | AUTH_LOGOUT
  | AUTH_CLEAR_ERROR
  | CONNECTION_START string jsnum
  | CONNECTION_ESTABLISHED string
  | CONNECTION_ERROR string
  | CONNECTION_CLOSED "string option"
  | CONNECTION_ACTIVITY
  | TERMINAL_INIT string int int "(string, string) jsmap" "string option"
  | TERMINAL_RESIZE int int
  | TERMINAL_SET_TERM string
  | TERMINAL_SET_ENV "(string, string) jsmap"
  | TERMINAL_UPDATE_ENV "(string, string) jsmap"
  | TERMINAL_SET_CWD string
  | TERMINAL_DESTROY
  | METADATA_SET_CLIENT string string
  | METADATA_UPDATE "string option option" "string option option" "string option option" "int option"
  | METADATA_UPDATE_TIMESTAMP
  | SESSION_RESET
  | SESSION_END

definition default_terminal :: terminal_info where
  "default_terminal = \<lparr>trTerm = ''xterm-256color'', trRows = 24, trCols = 80, trEnvironment = [], trCwd = None\<rparr>"

definition createInitialState :: "string \<Rightarrow> int \<Rightarrow> session_state" where
  "createInitialState sessionId now =
     \<lparr>ssId = sessionId,
      ssAuth = \<lparr>auStatus = AuthPending, auMethod = None, auUsername = None, auTimestamp = now,
                auErrorMessage = None\<rparr>,
      ssConnection = \<lparr>cnStatus = Disconnected, cnConnectionId = None, cnHost = None, cnPort = None,
                      cnErrorMessage = None, cnLastActivity = now\<rparr>,
      ssTerminal = default_terminal,
      ssMetadata = \<lparr>mdCreatedAt = now, mdUpdatedAt = now, mdClientIp = None, mdUserAgent = None,
                    mdUserId = None\<rparr>\<rparr>"

section \<open>Reducers\<close>

definition nullish_or :: "'a option \<Rightarrow> 'a option \<Rightarrow> 'a option" where
  "nullish_or x y = (case x of None \<Rightarrow> y | Some _ \<Rightarrow> x)"

fun authReducer :: "int \<Rightarrow> auth_info \<Rightarrow> session_action \<Rightarrow> auth_info option" where
  "authReducer now s (AUTH_REQUEST meth username) = Some
     (s\<lparr>auStatus := AuthPending, auMethod := Some meth,
        auUsername := nullish_or username (auUsername s), auErrorMessage := None\<rparr>)"
| "authReducer now s (AUTH_SUCCESS username meth userId) = Some
     \<lparr>auStatus = AuthAuthenticated, auMethod = Some meth, auUsername = Some username,
      auTimestamp = now, auErrorMessage = None\<rparr>"
| "authReducer now s (AUTH_FAILURE error meth) = Some
     (s\<lparr>auStatus := AuthFailed, auMethod := Some meth, auErrorMessage := Some error,
        auTimestamp := now\<rparr>)"
| "authReducer now s AUTH_LOGOUT = Some
     \<lparr>auStatus = AuthPending, auMethod = None, auUsername = None, auTimestamp = now,
      auErrorMessage = None\<rparr>"
| "authReducer now s AUTH_CLEAR_ERROR = Some (s\<lparr>auErrorMessage := None\<rparr>)"
| "authReducer now s (CONNECTION_ERROR _) = Some
     (s\<lparr>auStatus := (if auStatus s = AuthAuthenticated then AuthPending else auStatus s)\<rparr>)"
| "authReducer now s (CONNECTION_CLOSED _) = Some
     (s\<lparr>auStatus := (if auStatus s = AuthAuthenticated then AuthPending else auStatus s)\<rparr>)"
| "authReducer now s _ = None"

definition resetConnectionState :: "int \<Rightarrow> connection_info \<Rightarrow> connection_info" where
  "resetConnectionState now s =
     \<lparr>cnStatus = Disconnected, cnConnectionId = None, cnHost = cnHost s, cnPort = cnPort s,
      cnErrorMessage = None, cnLastActivity = now\<rparr>"

fun connectionReducer :: "int \<Rightarrow> connection_info \<Rightarrow> session_action \<Rightarrow> connection_info option" where
  "connectionReducer now s (CONNECTION_START host port) = Some
     (s\<lparr>cnStatus := Connecting, cnHost := Some host, cnPort := Some port, cnErrorMessage := None,
        cnLastActivity := now\<rparr>)"
| "connectionReducer now s (CONNECTION_ESTABLISHED connectionId) = Some
     (s\<lparr>cnStatus := Connected, cnConnectionId := Some connectionId, cnErrorMessage := None,
        cnLastActivity := now\<rparr>)"
| "connectionReducer now s (CONNECTION_ERROR error) = Some
     (s\<lparr>cnStatus := ConnError, cnErrorMessage := Some error, cnLastActivity := now\<rparr>)"
| "connectionReducer now s (CONNECTION_CLOSED reason) = Some
     (s\<lparr>cnStatus := Closed, cnConnectionId := None, cnErrorMessage := reason,
        cnLastActivity := now\<rparr>)"
| "connectionReducer now s CONNECTION_ACTIVITY = Some (s\<lparr>cnLastActivity := now\<rparr>)"
| "connectionReducer now s (AUTH_FAILURE _ _) = Some (resetConnectionState now s)"
| "connectionReducer now s AUTH_LOGOUT = Some (resetConnectionState now s)"
| "connectionReducer now s _ = None"

definition spread :: "('k, 'v) jsmap \<Rightarrow> ('k, 'v) jsmap \<Rightarrow> ('k, 'v) jsmap" where
  "spread a b = fold (\<lambda>(k, v). map_set k v) b a"

fun terminalReducer :: "terminal_info \<Rightarrow> session_action \<Rightarrow> terminal_info option" where
  "terminalReducer s (TERMINAL_INIT term rows columns environment cwd) = Some
     \<lparr>trTerm = term, trRows = rows, trCols = columns, trEnvironment = environment, trCwd = cwd\<rparr>"
| "terminalReducer s (TERMINAL_RESIZE rows columns) = Some (s\<lparr>trRows := rows, trCols := columns\<rparr>)"
| "terminalReducer s (TERMINAL_SET_TERM term) = Some (s\<lparr>trTerm := term\<rparr>)"
| "terminalReducer s (TERMINAL_SET_ENV environment) = Some (s\<lparr>trEnvironment := environment\<rparr>)"
| "terminalReducer s (TERMINAL_UPDATE_ENV environment) = Some
     (s\<lparr>trEnvironment := spread (trEnvironment s) environment\<rparr>)"
| "terminalReducer s (TERMINAL_SET_CWD cwd) = Some (s\<lparr>trCwd := Some cwd\<rparr>)"
| "terminalReducer s TERMINAL_DESTROY = Some default_terminal"
| "terminalReducer s _ = None"

definition touchMetadata :: "int \<Rightarrow> session_metadata \<Rightarrow> session_metadata" where
  "touchMetadata now s = s\<lparr>mdUpdatedAt := now\<rparr>"

definition mergeMetadataUpdate :: "int \<Rightarrow> session_metadata \<Rightarrow> string option option \<Rightarrow>
    string option option \<Rightarrow> string option option \<Rightarrow> int option \<Rightarrow> session_metadata" where
  "mergeMetadataUpdate now s userId clientIp userAgent updatedAt =
     s\<lparr>mdUserId := (case userId of None \<Rightarrow> mdUserId s | Some u \<Rightarrow> u),
       mdClientIp := (case clientIp of None \<Rightarrow> mdClientIp s | Some c \<Rightarrow> c),
       mdUserAgent := (case userAgent of None \<Rightarrow> mdUserAgent s | Some a \<Rightarrow> a),
       mdUpdatedAt := (case updatedAt of None \<Rightarrow> now | Some t \<Rightarrow> t)\<rparr>"

fun metadataReducer :: "int \<Rightarrow> session_metadata \<Rightarrow> session_action \<Rightarrow> session_metadata option" where
  "metadataReducer now s (METADATA_SET_CLIENT clientIp userAgent) = Some
     (s\<lparr>mdClientIp := Some clientIp, mdUserAgent := Some userAgent, mdUpdatedAt := now\<rparr>)"
| "metadataReducer now s (METADATA_UPDATE userId clientIp userAgent updatedAt) = Some
     (mergeMetadataUpdate now s userId clientIp userAgent updatedAt)"
| "metadataReducer now s METADATA_UPDATE_TIMESTAMP = Some (touchMetadata now s)"
| "metadataReducer now s CONNECTION_ACTIVITY = Some (touchMetadata now s)"
| "metadataReducer now s (TERMINAL_RESIZE _ _) = Some (touchMetadata now s)"
| "metadataReducer now s (AUTH_SUCCESS _ _ userId) = Some (s\<lparr>mdUserId := userId, mdUpdatedAt := now\<rparr>)"
| "metadataReducer now s _ = None"

definition applySessionEnd :: "session_state \<Rightarrow> session_state" where
  "applySessionEnd s =
     s\<lparr>ssConnection := (ssConnection s)\<lparr>cnStatus := Closed, cnConnectionId := None,
          cnErrorMessage := Some ''Session ended''\<rparr>,
       ssAuth := (ssAuth s)\<lparr>auStatus := AuthPending, auUsername := None\<rparr>\<rparr>"

definition or_same :: "'a \<Rightarrow> 'a option \<Rightarrow> 'a" where
  "or_same x y = (case y of None \<Rightarrow> x | Some z \<Rightarrow> z)"

definition reduceSubReducers :: "int \<Rightarrow> session_state \<Rightarrow> session_action \<Rightarrow> session_state option" where
  "reduceSubReducers now s a =
     (let newAuth = authReducer now (ssAuth s) a;
          newConnection = connectionReducer now (ssConnection s) a;
          newTerminal = terminalReducer (ssTerminal s) a;
          newMetadata = metadataReducer now (ssMetadata s) a
      in if newAuth = None \<and> newConnection = None \<and> newTerminal = None \<and> newMetadata = None then None
         else Some \<lparr>ssId = ssId s, ssAuth = or_same (ssAuth s) newAuth,
                    ssConnection = or_same (ssConnection s) newConnection,
                    ssTerminal = or_same (ssTerminal s) newTerminal,
                    ssMetadata = or_same (ssMetadata s) newMetadata\<rparr>)"

definition sessionReducer :: "int \<Rightarrow> session_state \<Rightarrow> session_action \<Rightarrow> session_state option" where
  "sessionReducer now s a =
     (if a = SESSION_RESET then Some (createInitialState (ssId s) now)
      else if a = SESSION_END then Some (applySessionEnd s)
      else reduceSubReducers now s a)"

section \<open>Selectors\<close>

definition isAuthenticated :: "session_state \<Rightarrow> bool" where
  "isAuthenticated s \<longleftrightarrow> auStatus (ssAuth s) = AuthAuthenticated"

definition hasAuthError :: "session_state \<Rightarrow> bool" where
  "hasAuthError s \<longleftrightarrow> auStatus (ssAuth s) = AuthFailed"

definition isConnected :: "session_state \<Rightarrow> bool" where
  "isConnected s \<longleftrightarrow> cnStatus (ssConnection s) = Connected"

definition isConnecting :: "session_state \<Rightarrow> bool" where
  "isConnecting s \<longleftrightarrow> cnStatus (ssConnection s) = Connecting"

definition hasConnectionError :: "session_state \<Rightarrow> bool" where
  "hasConnectionError s \<longleftrightarrow> cnStatus (ssConnection s) = ConnError"

definition canExecuteCommands :: "session_state \<Rightarrow> bool" where
  "canExecuteCommands s \<longleftrightarrow> isAuthenticated s \<and> isConnected s"

definition isSessionActive :: "session_state \<Rightarrow> bool" where
  "isSessionActive s \<longleftrightarrow> isAuthenticated s \<and> (isConnected s \<or> isConnecting s)"

definition getLastActivity :: "session_state \<Rightarrow> int" where
  "getLastActivity s = max (mdUpdatedAt (ssMetadata s)) (cnLastActivity (ssConnection s))"

definition getIdleTime :: "int \<Rightarrow> session_state \<Rightarrow> int" where
  "getIdleTime now s = now - getLastActivity s"

definition isIdle :: "int \<Rightarrow> session_state \<Rightarrow> int option \<Rightarrow> bool" where
  "isIdle now s threshold \<longleftrightarrow> getIdleTime now s > (case threshold of None \<Rightarrow> 300000 | Some t \<Rightarrow> t)"

definition getAllErrors :: "session_state \<Rightarrow> string list" where
  "getAllErrors s =
     (case auErrorMessage (ssAuth s) of None \<Rightarrow> [] | Some m \<Rightarrow> [''Auth: '' @ m])
     @ (case cnErrorMessage (ssConnection s) of None \<Rightarrow> [] | Some m \<Rightarrow> [''Connection: '' @ m])"

definition hasAnyError :: "session_state \<Rightarrow> bool" where
  "hasAnyError s \<longleftrightarrow> hasAuthError s \<or> hasConnectionError s"

datatype overall_status = Initializing | Authenticating | StConnecting | Ready | StError | StClosed

definition getOverallStatus :: "session_state \<Rightarrow> overall_status" where
  "getOverallStatus s =
     (if cnStatus (ssConnection s) = Closed then StClosed
      else if hasAnyError s then StError
      else if \<not> isAuthenticated s then Authenticating
      else if \<not> isConnected s then StConnecting
      else Ready)"

section \<open>Runs\<close>

definition reduce :: "int \<times> session_action \<Rightarrow> session_state \<Rightarrow> session_state" where
  "reduce x s = or_same s (sessionReducer (fst x) s (snd x))"

definition run_actions :: "(int \<times> session_action) list \<Rightarrow> session_state \<Rightarrow> session_state" where
  "run_actions xs s = fold reduce xs s"

text \<open>What an action says about a flag: it sets it, clears it or leaves it.\<close>

fun auth_effect :: "session_action \<Rightarrow> bool option" where
  "auth_effect (AUTH_SUCCESS _ _ _) = Some True"
| "auth_effect (AUTH_REQUEST _ _) = Some False"
| "auth_effect (AUTH_FAILURE _ _) = Some False"
| "auth_effect AUTH_LOGOUT = Some False"
| "auth_effect (CONNECTION_ERROR _) = Some False"
| "auth_effect (CONNECTION_CLOSED _) = Some False"
| "auth_effect SESSION_RESET = Some False"
| "auth_effect SESSION_END = Some False"
| "auth_effect _ = None"

fun conn_effect :: "session_action \<Rightarrow> bool option" where
  "conn_effect (CONNECTION_ESTABLISHED _) = Some True"
| "conn_effect (CONNECTION_START _ _) = Some False"
| "conn_effect (CONNECTION_ERROR _) = Some False"
| "conn_effect (CONNECTION_CLOSED _) = Some False"
| "conn_effect (AUTH_FAILURE _ _) = Some False"
| "conn_effect AUTH_LOGOUT = Some False"
| "conn_effect SESSION_RESET = Some False"
| "conn_effect SESSION_END = Some False"
| "conn_effect _ = None"

definition last_effect :: "(session_action \<Rightarrow> bool option) \<Rightarrow> (int \<times> session_action) list \<Rightarrow> bool" where
  "last_effect f xs = fold (\<lambda>x b. or_same b (f (snd x))) xs False"

lemmas reducer_simps = reduce_def sessionReducer_def reduceSubReducers_def or_same_def Let_def
  createInitialState_def applySessionEnd_def resetConnectionState_def

lemma isAuthenticated_reduce:
  "isAuthenticated (reduce (now, a) s) = or_same (isAuthenticated s) (auth_effect a)"
  by (cases a) (simp_all add: reducer_simps isAuthenticated_def)

lemma isConnected_reduce:
  "isConnected (reduce (now, a) s) = or_same (isConnected s) (conn_effect a)"
  by (cases a) (simp_all add: reducer_simps isConnected_def)

lemma flags_run:
  "isAuthenticated (fold reduce xs s) = fold (\<lambda>x b. or_same b (auth_effect (snd x))) xs (isAuthenticated s)"
  "isConnected (fold reduce xs s) = fold (\<lambda>x b. or_same b (conn_effect (snd x))) xs (isConnected s)"
  by (induction xs arbitrary: s) (auto simp: isAuthenticated_reduce isConnected_reduce)

definition session_ok :: "session_state \<Rightarrow> bool" where
  "session_ok s \<longleftrightarrow>
     (isConnected s \<longrightarrow> cnConnectionId (ssConnection s) \<noteq> None)
     \<and> (cnStatus (ssConnection s) \<in> {Disconnected, Closed} \<longrightarrow> cnConnectionId (ssConnection s) = None)
     \<and> (isAuthenticated s \<longrightarrow> auUsername (ssAuth s) \<noteq> None \<and> auMethod (ssAuth s) \<noteq> None
          \<and> auErrorMessage (ssAuth s) = None)"

lemma session_ok_init: "session_ok (createInitialState sid now)"
  by (simp add: session_ok_def createInitialState_def isConnected_def isAuthenticated_def)

lemma session_ok_reduce [inv_intros]: "session_ok s \<Longrightarrow> session_ok (reduce (now, a) s)"
  by (cases a) (simp_all add: reducer_simps session_ok_def isConnected_def isAuthenticated_def nullish_or_def)

lemma session_ok_run: "session_ok s \<Longrightarrow> session_ok (run_actions xs s)"
  unfolding run_actions_def
  by (induction xs arbitrary: s) (auto intro: session_ok_reduce)

lemma ssId_reduce [simp]: "ssId (reduce (now, a) s) = ssId s"
  by (cases a) (simp_all add: reducer_simps)

lemma ssId_run [simp]: "ssId (run_actions xs s) = ssId s"
  unfolding run_actions_def by (induction xs arbitrary: s) (auto simp del: fold_simps(1) simp: fold_simps)

lemma ready_iff: "getOverallStatus s = Ready \<longleftrightarrow> canExecuteCommands s"
  by (auto simp: getOverallStatus_def canExecuteCommands_def hasAnyError_def hasAuthError_def
      hasConnectionError_def isAuthenticated_def isConnected_def)

section \<open>Corner cases\<close>

text \<open>Clearing the authentication error removes the message but keeps the failed status, so the
  session still reports an error although no error is listed; and the status
  \<open>initializing\<close> that the type of \<open>getOverallStatus\<close> declares is never returned.\<close>

lemma error_without_errors:
  "let s = run_actions [(0, AUTH_FAILURE ''denied'' ''manual''), (1, AUTH_CLEAR_ERROR)]
             (createInitialState ''s'' 0)
   in getOverallStatus s = StError \<and> getAllErrors s = []"
  by (simp add: run_actions_def reducer_simps getOverallStatus_def getAllErrors_def hasAnyError_def
      hasAuthError_def)

lemma never_initializing: "getOverallStatus s \<noteq> Initializing"
  by (simp add: getOverallStatus_def)

section \<open>Properties\<close>

text \<open>C29: who may execute commands.  After any sequence of actions a session can execute
  commands, and reports the status \<open>ready\<close>, exactly when the last action that decides
  authentication was a success and the last one that decides the connection established it:
  every failure, logout, close, connection error, reset or end in between revokes the right.\<close>

theorem can_execute_iff:
  "canExecuteCommands (run_actions xs (createInitialState sid t))
     = (last_effect auth_effect xs \<and> last_effect conn_effect xs)
   \<and> (getOverallStatus (run_actions xs (createInitialState sid t)) = Ready)
     = (last_effect auth_effect xs \<and> last_effect conn_effect xs)"
  unfolding ready_iff
  by (simp add: canExecuteCommands_def run_actions_def flags_run last_effect_def)
    (simp add: createInitialState_def isAuthenticated_def isConnected_def)

text \<open>Consistency of the session state.  In every state reached by actions, a connected
  session has a connection id and a closed or disconnected one has none, an authenticated
  session has a user name and a method and shows no authentication error, and the session id is
  the one it was created with.\<close>

theorem session_state_consistent:
  "let s = run_actions xs (createInitialState sid t)
   in session_ok s \<and> ssId s = sid"
  by (simp add: session_ok_run session_ok_init) (simp add: createInitialState_def)

end
