(* ===== verification/Keyed_Machines.thy ===== *)
theory Keyed_Machines
  imports Prelude_JS
begin

text \<open>
  The contract of a table of independent machines: every operation concerns one key or all of
  them, and acts on the part of the state a key can see as a step of that key's machine.  The
  session store and the per-client tables are such tables; from the contract follow the
  simulation by one machine per key and the independence of the keys.
\<close>

locale keyed_machines =
  fixes view :: "'st \<Rightarrow> 'k \<Rightarrow> 'v"
    and apply_op :: "'o \<Rightarrow> 'st \<Rightarrow> 'st"
    and key_of :: "'o \<Rightarrow> 'k option"
    and vstep :: "'o \<Rightarrow> 'v \<Rightarrow> 'v"
  assumes view_own: "key_of x = Some k \<Longrightarrow> view (apply_op x s) k = vstep x (view s k)"
    and view_global: "key_of x = None \<Longrightarrow> view (apply_op x s) k = vstep x (view s k)"
    and view_other: "key_of x = Some k' \<Longrightarrow> k \<noteq> k' \<Longrightarrow> view (apply_op x s) k = view s k"
begin

definition concerns :: "'k \<Rightarrow> 'o \<Rightarrow> bool" where
  "concerns k x \<longleftrightarrow> key_of x = Some k \<or> key_of x = None"

lemma view_apply: "view (apply_op x s) k = (if concerns k x then vstep x (view s k) else view s k)"
  by (cases "key_of x") (auto simp: concerns_def view_own view_global view_other)

lemma simulation: "view (fold apply_op xs s) k = fold vstep (filter (concerns k) xs) (view s k)"
  by (induction xs arbitrary: s) (simp_all add: view_apply)

lemma unconcerned: "\<forall>x\<in>set xs. \<not> concerns k x \<Longrightarrow> view (fold apply_op xs s) k = view s k"
  by (induction xs arbitrary: s) (simp_all add: view_apply)

lemma interleaving_irrelevant:
  "filter (concerns k) xs = filter (concerns k) ys \<Longrightarrow>
     view (fold apply_op xs s) k = view (fold apply_op ys s) k"
  by (simp add: simulation)

lemma view_invariant:
  assumes "\<And>x v. P v \<Longrightarrow> P (vstep x v)" and "P (view s k)"
  shows "P (view (fold apply_op xs s) k)"
proof -
  have "P v \<Longrightarrow> P (fold vstep ys v)" for v ys
    by (induction ys arbitrary: v) (auto intro: assms(1))
  then show ?thesis using assms(2) by (simp add: simulation)
qed

end

end
