(* ===== verification/Session_Store.thy ===== *)
theory Session_Store
  imports Session_State Keyed_Machines
begin

text \<open>
  The store of all sessions, \<open>app/state/store.ts\<close>: three maps from session ids to the state,
  the listeners and the recent actions.  Listeners are compared by identity and are a type
  parameter; the calls a dispatch makes are returned, in order, as triples of listener, new and
  old state.  Exceptions of a listener are caught and logged by the store, so the calls do not
  depend on each other.
\<close>

section \<open>State and operations\<close>

record 'l session_store =
  stStates :: "(string, session_state) jsmap"
  stListeners :: "(string, 'l list) jsmap"
  stHistory :: "(string, session_action list) jsmap"
  stMaxHistorySize :: nat

definition new_session_store :: "nat option \<Rightarrow> 'l session_store" where
  "new_session_store maxHistorySize =
     \<lparr>stStates = [], stListeners = [], stHistory = [],
      stMaxHistorySize = (case maxHistorySize of None \<Rightarrow> 100 | Some n \<Rightarrow> n)\<rparr>"

definition createSession :: "string \<Rightarrow> int \<Rightarrow> 'l session_store \<Rightarrow> 'l session_store \<times> session_state" where
  "createSession sid now st =
     (case map_get (stStates st) sid of
        Some existing \<Rightarrow> (st, existing)
      | None \<Rightarrow>
          let initialState = createInitialState sid now
          in (st\<lparr>stStates := map_set sid initialState (stStates st),
                 stHistory := map_set sid [] (stHistory st)\<rparr>, initialState))"

definition getState :: "'l session_store \<Rightarrow> string \<Rightarrow> session_state option" where
  "getState st sid = map_get (stStates st) sid"

definition getSessionIds :: "'l session_store \<Rightarrow> string list" where
  "getSessionIds st = map_keys (stStates st)"

definition getActionHistory :: "'l session_store \<Rightarrow> string \<Rightarrow> session_action list" where
  "getActionHistory st sid = (case map_get (stHistory st) sid of None \<Rightarrow> [] | Some h \<Rightarrow> h)"

definition push_bounded :: "nat \<Rightarrow> 'a \<Rightarrow> 'a list \<Rightarrow> 'a list" where
  "push_bounded n x xs = (let h = xs @ [x] in if length h > n then tl h else h)"

definition recordAction :: "string \<Rightarrow> session_action \<Rightarrow> 'l session_store \<Rightarrow> 'l session_store" where
  "recordAction sid a st =
     st\<lparr>stHistory := map_set sid (push_bounded (stMaxHistorySize st) a (getActionHistory st sid))
         (stHistory st)\<rparr>"

definition notifyListeners :: "string \<Rightarrow> session_state \<Rightarrow> session_state \<Rightarrow> 'l session_store \<Rightarrow>
    ('l \<times> session_state \<times> session_state) list" where
  "notifyListeners sid newState oldState st =
     (case map_get (stListeners st) sid of None \<Rightarrow> []
      | Some ls \<Rightarrow> map (\<lambda>l. (l, newState, oldState)) ls)"

definition dispatch :: "string \<Rightarrow> session_action \<Rightarrow> int \<Rightarrow> 'l session_store \<Rightarrow>
    'l session_store \<times> ('l \<times> session_state \<times> session_state) list" where
  "dispatch sid a now st =
     (case map_get (stStates st) sid of None \<Rightarrow> (st, [])
      | Some currentState \<Rightarrow>
          (case sessionReducer now currentState a of None \<Rightarrow> (st, [])
           | Some newState \<Rightarrow>
               let st1 = recordAction sid a (st\<lparr>stStates := map_set sid newState (stStates st)\<rparr>)
               in (st1, notifyListeners sid newState currentState st1)))"

definition subscribe :: "string \<Rightarrow> 'l \<Rightarrow> 'l session_store \<Rightarrow> 'l session_store" where
  "subscribe sid l st =
     (let ls = (case map_get (stListeners st) sid of None \<Rightarrow> [] | Some ls \<Rightarrow> ls)
      in st\<lparr>stListeners := map_set sid (set_add l ls) (stListeners st)\<rparr>)"

definition unsubscribe :: "string \<Rightarrow> 'l \<Rightarrow> 'l session_store \<Rightarrow> 'l session_store" where
  "unsubscribe sid l st =
     (case map_get (stListeners st) sid of None \<Rightarrow> st
      | Some ls \<Rightarrow>
          let ls' = set_del l ls
          in if ls' = [] then st\<lparr>stListeners := map_delete sid (stListeners st)\<rparr>
             else st\<lparr>stListeners := map_set sid ls' (stListeners st)\<rparr>)"

definition removeSession :: "string \<Rightarrow> int \<Rightarrow> 'l session_store \<Rightarrow>
    'l session_store \<times> ('l \<times> session_state \<times> session_state) list" where
  "removeSession sid now st =
     (case map_get (stStates st) sid of None \<Rightarrow> (st, [])
      | Some _ \<Rightarrow>
          let (st1, calls) = dispatch sid SESSION_END now st
          in (st1\<lparr>stStates := map_delete sid (stStates st1),
                  stListeners := map_delete sid (stListeners st1),
                  stHistory := map_delete sid (stHistory st1)\<rparr>, calls))"

definition store_clear :: "'l session_store \<Rightarrow> 'l session_store" where
  "store_clear st = st\<lparr>stStates := [], stListeners := [], stHistory := []\<rparr>"

definition getStats :: "'l session_store \<Rightarrow> nat \<times> nat \<times> nat" where
  "getStats st = (length (stStates st), sum_list (map length (map_values (stListeners st))),
     sum_list (map length (map_values (stHistory st))))"

section \<open>One machine per session\<close>

datatype 'l store_op = SCreate string | SDispatch string session_action | SSubscribe string 'l
  | SUnsubscribe string 'l | SRemove string | SClear

fun store_apply :: "int \<times> 'l store_op \<Rightarrow> 'l session_store \<Rightarrow> 'l session_store" where
  "store_apply (now, SCreate sid) st = fst (createSession sid now st)"
| "store_apply (now, SDispatch sid a) st = fst (dispatch sid a now st)"
| "store_apply (now, SSubscribe sid l) st = subscribe sid l st"
| "store_apply (now, SUnsubscribe sid l) st = unsubscribe sid l st"
| "store_apply (now, SRemove sid) st = fst (removeSession sid now st)"
| "store_apply (now, SClear) st = store_clear st"

fun op_session :: "int \<times> 'l store_op \<Rightarrow> string option" where
  "op_session (now, SCreate sid) = Some sid"
| "op_session (now, SDispatch sid a) = Some sid"
| "op_session (now, SSubscribe sid l) = Some sid"
| "op_session (now, SUnsubscribe sid l) = Some sid"
| "op_session (now, SRemove sid) = Some sid"
| "op_session (now, SClear) = None"

text \<open>What the store shows of one session, and the reference machine of one session.\<close>

record 'l session_view =
  vState :: "session_state option"
  vListeners :: "'l list"
  vHistory :: "session_action list"
  vMax :: nat

definition store_view :: "'l session_store \<Rightarrow> string \<Rightarrow> 'l session_view" where
  "store_view st sid = \<lparr>vState = getState st sid,
     vListeners = (case map_get (stListeners st) sid of None \<Rightarrow> [] | Some ls \<Rightarrow> ls),
     vHistory = getActionHistory st sid, vMax = stMaxHistorySize st\<rparr>"

definition spec_dispatch :: "int \<Rightarrow> session_action \<Rightarrow> 'l session_view \<Rightarrow> 'l session_view" where
  "spec_dispatch now a v =
     (case vState v of None \<Rightarrow> v
      | Some s \<Rightarrow> (case sessionReducer now s a of None \<Rightarrow> v
          | Some s' \<Rightarrow> v\<lparr>vState := Some s', vHistory := push_bounded (vMax v) a (vHistory v)\<rparr>))"

fun spec_step :: "int \<times> 'l store_op \<Rightarrow> 'l session_view \<Rightarrow> 'l session_view" where
  "spec_step (now, SCreate sid) v =
     (if vState v = None then v\<lparr>vState := Some (createInitialState sid now), vHistory := []\<rparr> else v)"
| "spec_step (now, SDispatch sid a) v = spec_dispatch now a v"
| "spec_step (now, SSubscribe sid l) v = v\<lparr>vListeners := set_add l (vListeners v)\<rparr>"
| "spec_step (now, SUnsubscribe sid l) v = v\<lparr>vListeners := set_del l (vListeners v)\<rparr>"
| "spec_step (now, SRemove sid) v =
     (if vState v = None then v else v\<lparr>vState := None, vListeners := [], vHistory := []\<rparr>)"
| "spec_step (now, SClear) v = v\<lparr>vState := None, vListeners := [], vHistory := []\<rparr>"

lemma view_fields [simp]:
  "vState (store_view st sid) = getState st sid"
  "vHistory (store_view st sid) = getActionHistory st sid"
  "vMax (store_view st sid) = stMaxHistorySize st"
  by (simp_all add: store_view_def)

lemma view_create:
  "store_view (fst (createSession sid now st)) k =
     (if k = sid then spec_step (now, SCreate sid) (store_view st k) else store_view st k)"
  by (cases "map_get (stStates st) sid")
    (simp_all add: createSession_def store_view_def getState_def getActionHistory_def Let_def map_get_set)

lemma view_dispatch:
  "store_view (fst (dispatch sid a now st)) k =
     (if k = sid then spec_dispatch now a (store_view st k) else store_view st k)"
proof (cases "map_get (stStates st) sid")
  case None
  then show ?thesis by (simp add: dispatch_def spec_dispatch_def getState_def)
next
  case (Some s)
  then show ?thesis
    by (cases "sessionReducer now s a")
      (simp_all add: dispatch_def spec_dispatch_def store_view_def getState_def recordAction_def
        getActionHistory_def Let_def map_get_set)
qed

lemma view_subscribe:
  "store_view (subscribe sid l st) k =
     (if k = sid then (store_view st k)\<lparr>vListeners := set_add l (vListeners (store_view st k))\<rparr>
      else store_view st k)"
  by (simp add: subscribe_def store_view_def getState_def getActionHistory_def Let_def map_get_set)

lemma view_unsubscribe:
  "store_view (unsubscribe sid l st) k =
     (if k = sid then (store_view st k)\<lparr>vListeners := set_del l (vListeners (store_view st k))\<rparr>
      else store_view st k)"
  by (cases "map_get (stListeners st) sid")
    (auto simp: unsubscribe_def store_view_def getState_def getActionHistory_def Let_def map_get_set
      map_get_delete set_del_def)

lemma view_remove:
  "store_view (fst (removeSession sid now st)) k =
     (if k = sid then spec_step (now, SRemove sid) (store_view st k) else store_view st k)"
proof (cases "map_get (stStates st) sid")
  case None
  then show ?thesis by (simp add: removeSession_def getState_def)
next
  case (Some s)
  then show ?thesis
    by (simp add: removeSession_def dispatch_def sessionReducer_def store_view_def getState_def
        recordAction_def getActionHistory_def Let_def map_get_set map_get_delete)
qed

lemma view_clear: "store_view (store_clear st) k =
     (store_view st k)\<lparr>vState := None, vListeners := [], vHistory := []\<rparr>"
  by (simp add: store_clear_def store_view_def getState_def getActionHistory_def)

lemmas view_ops = view_create view_dispatch view_subscribe view_unsubscribe view_remove view_clear

interpretation sessions: keyed_machines store_view store_apply op_session spec_step
proof
  fix x :: "int \<times> 'a store_op" and k s
  show "op_session x = Some k \<Longrightarrow> store_view (store_apply x s) k = spec_step x (store_view s k)"
    by (cases x rule: op_session.cases) (simp_all add: view_ops)
  show "op_session x = None \<Longrightarrow> store_view (store_apply x s) k = spec_step x (store_view s k)"
    by (cases x rule: op_session.cases) (simp_all add: view_ops)
  fix k'
  show "op_session x = Some k' \<Longrightarrow> k \<noteq> k' \<Longrightarrow> store_view (store_apply x s) k = store_view s k"
    by (cases x rule: op_session.cases) (simp_all add: view_ops)
qed

section \<open>The reference machine\<close>

text \<open>The actions a session records: since its creation, those that changed its state.  The
  reference keeps all of them; the store the last \<open>maxHistorySize\<close>.\<close>

definition full_dispatch :: "int \<Rightarrow> session_action \<Rightarrow>
    (session_state \<times> session_action list) option \<Rightarrow> (session_state \<times> session_action list) option" where
  "full_dispatch now a v =
     (case v of None \<Rightarrow> None
      | Some (s, h) \<Rightarrow> (case sessionReducer now s a of None \<Rightarrow> v | Some s' \<Rightarrow> Some (s', h @ [a])))"

fun full_step :: "int \<times> 'l store_op \<Rightarrow> (session_state \<times> session_action list) option \<Rightarrow>
    (session_state \<times> session_action list) option" where
  "full_step (now, SCreate sid) v = (case v of None \<Rightarrow> Some (createInitialState sid now, []) | Some _ \<Rightarrow> v)"
| "full_step (now, SDispatch sid a) v = full_dispatch now a v"
| "full_step (now, SRemove sid) v = None"
| "full_step (now, SClear) v = None"
| "full_step (now, SSubscribe sid l) v = v"
| "full_step (now, SUnsubscribe sid l) v = v"

definition last_n :: "nat \<Rightarrow> 'a list \<Rightarrow> 'a list" where
  "last_n n xs = drop (length xs - n) xs"

lemma last_n_Nil [simp]: "last_n n [] = []"
  by (simp add: last_n_def)

lemma last_n_length: "length (last_n n xs) = min n (length xs)"
  by (simp add: last_n_def)

lemma push_last_n: "push_bounded n x (last_n n xs) = last_n n (xs @ [x])"
proof (cases "length xs < n")
  case True
  then show ?thesis by (simp add: push_bounded_def last_n_def)
next
  case False
  then have "Suc (length xs) - n = Suc (length xs - n)" by simp
  moreover have "drop (Suc (length xs - n)) (xs @ [x]) = tl (drop (length xs - n) (xs @ [x]))"
    by (simp only: drop_Suc tl_drop)
  ultimately show ?thesis using False by (simp add: push_bounded_def last_n_def Let_def)
qed

definition view_matches :: "(session_state \<times> session_action list) option \<Rightarrow> 'l session_view \<Rightarrow> bool" where
  "view_matches f v \<longleftrightarrow> vState v = map_option fst f
     \<and> vHistory v = (case f of None \<Rightarrow> [] | Some (s, h) \<Rightarrow> last_n (vMax v) h)"

lemma view_matches_step: "view_matches f v \<Longrightarrow> view_matches (full_step x f) (spec_step x v)"
  by (cases x rule: op_session.cases; cases f)
    (auto simp: view_matches_def spec_dispatch_def full_dispatch_def push_last_n
      simp del: drop_append split: option.split)

lemma view_matches_run: "view_matches f v \<Longrightarrow> view_matches (fold full_step xs f) (fold spec_step xs v)"
  by (induction xs arbitrary: f v) (auto intro: view_matches_step)

lemma vMax_step [simp]: "vMax (spec_step x v) = vMax v"
  by (cases x rule: op_session.cases) (auto simp: spec_dispatch_def split: option.split)

lemma store_empty_view: "store_view (new_session_store n) sid = \<lparr>vState = None, vListeners = [],
    vHistory = [], vMax = (case n of None \<Rightarrow> 100 | Some m \<Rightarrow> m)\<rparr>"
  by (simp add: store_view_def new_session_store_def getState_def getActionHistory_def)

lemma vMax_run: "vMax (fold spec_step xs v) = vMax v"
  by (induction xs arbitrary: v) simp_all

section \<open>Properties\<close>

text \<open>C32: the store is one independent machine per session.  After any history of store
  operations, what the store holds of a session is the result of running only the operations
  that name this session (or clear the store) on the reference machine: the state is the fold of
  the reducer over the actions dispatched since the session was created, and the recorded
  history is the last \<open>maxHistorySize\<close> state-changing actions, in order.\<close>

theorem store_refines_sessions:
  "let st = fold store_apply xs (new_session_store (Some n));
       f = fold full_step (filter (sessions.concerns sid) xs) None
   in getState st sid = map_option fst f
      \<and> getActionHistory st sid = (case f of None \<Rightarrow> [] | Some (s, h) \<Rightarrow> last_n n h)
      \<and> length (getActionHistory st sid) \<le> n"
proof -
  let ?st = "fold store_apply xs (new_session_store (Some n))"
  let ?f = "fold full_step (filter (sessions.concerns sid) xs) None"
  have "store_view ?st sid
      = fold spec_step (filter (sessions.concerns sid) xs) (store_view (new_session_store (Some n)) sid)"
    by (rule sessions.simulation)
  moreover have "view_matches None (store_view (new_session_store (Some n) :: 'a session_store) sid)"
    by (simp add: view_matches_def store_empty_view)
  ultimately have "view_matches ?f (store_view ?st sid)" and "vMax (store_view ?st sid) = n"
    by (simp_all add: view_matches_run vMax_run store_empty_view)
  then show ?thesis by (auto simp: view_matches_def Let_def last_n_length split: option.split)
qed

text \<open>Listeners hear every change once, in order.  A dispatch that changes the state of a
  session calls each listener of this session once, in the order of subscription, with the
  new and the previous state, and a dispatch without effect, or to a session that does not
  exist, calls nobody and changes nothing.\<close>

theorem dispatch_notifies:
  "case getState st sid of
     None \<Rightarrow> dispatch sid a now st = (st, [])
   | Some s \<Rightarrow> (case sessionReducer now s a of
        None \<Rightarrow> dispatch sid a now st = (st, [])
      | Some s' \<Rightarrow>
          getState (fst (dispatch sid a now st)) sid = Some s'
          \<and> snd (dispatch sid a now st) = map (\<lambda>l. (l, s', s)) (vListeners (store_view st sid))
          \<and> (\<forall>k. k \<noteq> sid \<longrightarrow> store_view (fst (dispatch sid a now st)) k = store_view st k))"
proof (cases "getState st sid")
  case None
  then show ?thesis by (simp add: dispatch_def getState_def)
next
  case (Some s)
  show ?thesis
  proof (cases "sessionReducer now s a")
    case None
    with Some show ?thesis by (simp add: dispatch_def getState_def)
  next
    case (Some s')
    with \<open>getState st sid = Some s\<close> show ?thesis
      by (auto simp: view_dispatch)
        (auto simp: dispatch_def getState_def recordAction_def notifyListeners_def store_view_def
          Let_def split: option.split)
  qed
qed

theorem dispatch_notifies_witness:
  "let st = subscribe ''s'' ''l2'' (subscribe ''s'' ''l1'' (fst (createSession ''s'' 0 (new_session_store None))))
   in map fst (snd (dispatch ''s'' AUTH_LOGOUT 5 st)) = [''l1'', ''l2'']"
proof -
  let ?st = "subscribe ''s'' ''l2'' (subscribe ''s'' ''l1''
      (fst (createSession ''s'' 0 (new_session_store None))))"
  have "getState ?st ''s'' = Some (createInitialState ''s'' 0)"
    and "vListeners (store_view ?st ''s'') = [''l1'', ''l2'']"
    by (simp_all add: getState_def store_view_def subscribe_def createSession_def new_session_store_def
        set_add_def Let_def)
  with dispatch_notifies [where st = ?st and sid = "''s''" and a = AUTH_LOGOUT and now = 5] show ?thesis
    by (simp add: reducer_simps o_def)
qed

end
