(* ===== verification/Prompt_Tracker.thy ===== *)
theory Prompt_Tracker
  imports Owner_Registry JS_Strings
begin

text \<open>
  The prompts a server has sent and not yet seen answered,
  \<open>app/socket/handlers/prompt-tracker.ts\<close>, and the constructors of prompts,
  \<open>app/socket/handlers/prompt-handler.ts\<close>.  The tracker is a third instance of
  \<^theory_text>\<open>owner_registry\<close>, with a limit on the prompts of one socket and an expiry time.
  The random ids of \<open>randomUUID\<close> are arguments.
\<close>

section \<open>Prompts\<close>

datatype prompt_type = PInput | PConfirm | PNotice | PToast
datatype prompt_severity = SevInfo | SevWarning | SevError | SevSuccess
datatype button_variant = Primary | Secondary | Danger
datatype input_type = InText | InPassword | InTextarea

record prompt_button =
  pbAction :: string
  pbLabel :: string
  pbVariant :: "button_variant option"

record prompt_input =
  piId :: string
  piLabel :: string
  piType :: input_type
  piPlaceholder :: "string option"
  piValue :: "string option"
  piRequired :: "bool option"

record prompt_payload =
  ppId :: string
  ppType :: prompt_type
  ppTitle :: string
  ppMessage :: "string option"
  ppButtons :: "prompt_button list option"
  ppInputs :: "prompt_input list option"
  ppSeverity :: "prompt_severity option"
  ppIcon :: "string option"
  ppAutoFocus :: "bool option"
  ppTimeout :: "int option"
  ppCloseOnBackdrop :: "bool option"

definition MAX_PENDING_PROMPTS_PER_SOCKET :: nat where "MAX_PENDING_PROMPTS_PER_SOCKET = 10"
definition DEFAULT_PROMPT_MS :: int where "DEFAULT_PROMPT_MS = 300000"
definition DEFAULT_TOAST_MS :: int where "DEFAULT_TOAST_MS = 5000"

definition or_default :: "'a option \<Rightarrow> 'a \<Rightarrow> 'a" where
  "or_default x d = (case x of None \<Rightarrow> d | Some y \<Rightarrow> y)"

text \<open>The options of the four constructors in one record; a constructor reads the fields its own
  options type has.\<close>

record prompt_options =
  poTitle :: string
  poMessage :: "string option"
  poInputs :: "prompt_input list"
  poSubmitLabel :: "string option"
  poConfirmLabel :: "string option"
  poOkLabel :: "string option"
  poCancelLabel :: "string option"
  poSeverity :: "prompt_severity option"
  poIcon :: "string option"
  poAutoFocus :: "bool option"
  poTimeout :: "int option"

definition createInputPrompt :: "string \<Rightarrow> prompt_options \<Rightarrow> prompt_payload" where
  "createInputPrompt i o' =
     (let buttons = [\<lparr>pbAction = ''submit'', pbLabel = or_default (poSubmitLabel o') ''Submit'',
                      pbVariant = Some Primary\<rparr>,
                     \<lparr>pbAction = ''cancel'', pbLabel = or_default (poCancelLabel o') ''Cancel'',
                      pbVariant = Some Secondary\<rparr>]
      in \<lparr>ppId = i, ppType = PInput, ppTitle = poTitle o', ppMessage = poMessage o',
          ppButtons = Some buttons, ppInputs = Some (poInputs o'),
          ppSeverity = Some (or_default (poSeverity o') SevInfo), ppIcon = poIcon o',
          ppAutoFocus = Some (or_default (poAutoFocus o') True),
          ppTimeout = Some (or_default (poTimeout o') DEFAULT_PROMPT_MS),
          ppCloseOnBackdrop = Some False\<rparr>)"

definition createConfirmPrompt :: "string \<Rightarrow> prompt_options \<Rightarrow> prompt_payload" where
  "createConfirmPrompt i o' =
     (let buttons = [\<lparr>pbAction = ''confirm'', pbLabel = or_default (poConfirmLabel o') ''Yes'',
                      pbVariant = Some Primary\<rparr>,
                     \<lparr>pbAction = ''cancel'', pbLabel = or_default (poCancelLabel o') ''No'',
                      pbVariant = Some Secondary\<rparr>]
      in \<lparr>ppId = i, ppType = PConfirm, ppTitle = poTitle o', ppMessage = poMessage o',
          ppButtons = Some buttons, ppInputs = None,
          ppSeverity = Some (or_default (poSeverity o') SevInfo), ppIcon = poIcon o',
          ppAutoFocus = Some True, ppTimeout = Some (or_default (poTimeout o') DEFAULT_PROMPT_MS),
          ppCloseOnBackdrop = Some True\<rparr>)"

definition createNoticePrompt :: "string \<Rightarrow> prompt_options \<Rightarrow> prompt_payload" where
  "createNoticePrompt i o' =
     (let buttons = [\<lparr>pbAction = ''ok'', pbLabel = or_default (poOkLabel o') ''OK'',
                      pbVariant = Some Primary\<rparr>]
      in \<lparr>ppId = i, ppType = PNotice, ppTitle = poTitle o', ppMessage = poMessage o',
          ppButtons = Some buttons, ppInputs = None,
          ppSeverity = Some (or_default (poSeverity o') SevInfo), ppIcon = poIcon o',
          ppAutoFocus = Some True, ppTimeout = Some (or_default (poTimeout o') DEFAULT_PROMPT_MS),
          ppCloseOnBackdrop = Some True\<rparr>)"

definition createToastPrompt :: "string \<Rightarrow> prompt_options \<Rightarrow> prompt_payload" where
  "createToastPrompt i o' =
     \<lparr>ppId = i, ppType = PToast, ppTitle = poTitle o', ppMessage = poMessage o',
      ppButtons = None, ppInputs = None,
      ppSeverity = Some (or_default (poSeverity o') SevInfo), ppIcon = poIcon o',
      ppAutoFocus = Some False, ppTimeout = Some (or_default (poTimeout o') DEFAULT_TOAST_MS),
      ppCloseOnBackdrop = Some True\<rparr>"

section \<open>Tracker\<close>

record tracked_prompt =
  tkId :: string
  tkSocketId :: string
  tkPayload :: prompt_payload
  tkCreatedAt :: int
  tkTimeoutAt :: int
  tkExpectedButtons :: "string list"
  tkExpectedInputs :: "string list"

record prompt_tracker =
  promptsById :: "(string, tracked_prompt) jsmap"
  promptsBySocket :: "(string, string list) jsmap"

definition createPromptTracker :: prompt_tracker where
  "createPromptTracker = \<lparr>promptsById = [], promptsBySocket = []\<rparr>"

definition getPendingCount :: "prompt_tracker \<Rightarrow> string \<Rightarrow> nat" where
  "getPendingCount pt socketId =
     (case map_get (promptsBySocket pt) socketId of None \<Rightarrow> 0 | Some ids \<Rightarrow> length ids)"

definition get_prompt :: "prompt_tracker \<Rightarrow> string \<Rightarrow> tracked_prompt option" where
  "get_prompt pt promptId = map_get (promptsById pt) promptId"

text \<open>The part of \<open>track\<close> that stores the prompt in both indexes.\<close>

definition store_prompt :: "tracked_prompt \<Rightarrow> prompt_tracker \<Rightarrow> prompt_tracker" where
  "store_prompt t pt =
     (let byId = map_set (tkId t) t (promptsById pt);
          socketPrompts = (case map_get (promptsBySocket pt) (tkSocketId t) of None \<Rightarrow> [] | Some s \<Rightarrow> s)
      in pt\<lparr>promptsById := byId,
            promptsBySocket := map_set (tkSocketId t) (set_add (tkId t) socketPrompts) (promptsBySocket pt)\<rparr>)"

definition track :: "string \<Rightarrow> prompt_payload \<Rightarrow> int \<Rightarrow> prompt_tracker \<Rightarrow>
    prompt_tracker \<times> (string, unit) result" where
  "track socketId payload now pt =
     (let currentCount = (case map_get (promptsBySocket pt) socketId of None \<Rightarrow> 0 | Some s \<Rightarrow> length s)
      in if currentCount \<ge> MAX_PENDING_PROMPTS_PER_SOCKET then
           (pt, err (''Too many pending prompts (max '' @ show_nat MAX_PENDING_PROMPTS_PER_SOCKET @ '')''))
         else
           let timeout = or_default (ppTimeout payload) DEFAULT_PROMPT_MS;
               expectedButtons = map pbAction (or_default (ppButtons payload) []);
               expectedInputs = map piId (or_default (ppInputs payload) []);
               tracked = \<lparr>tkId = ppId payload, tkSocketId = socketId, tkPayload = payload,
                          tkCreatedAt = now, tkTimeoutAt = now + timeout,
                          tkExpectedButtons = expectedButtons, tkExpectedInputs = expectedInputs\<rparr>
           in (store_prompt tracked pt, ok ()))"

definition remove_prompt :: "string \<Rightarrow> prompt_tracker \<Rightarrow> prompt_tracker" where
  "remove_prompt promptId pt =
     (case map_get (promptsById pt) promptId of None \<Rightarrow> pt
      | Some tracked \<Rightarrow>
          let bySocket = (case map_get (promptsBySocket pt) (tkSocketId tracked) of
                None \<Rightarrow> promptsBySocket pt
              | Some s \<Rightarrow>
                  let s' = set_del promptId s
                  in if length s' = 0 then map_delete (tkSocketId tracked) (promptsBySocket pt)
                     else map_set (tkSocketId tracked) s' (promptsBySocket pt))
          in pt\<lparr>promptsById := map_delete promptId (promptsById pt), promptsBySocket := bySocket\<rparr>)"

definition validate :: "string \<Rightarrow> string \<Rightarrow> int \<Rightarrow> prompt_tracker \<Rightarrow>
    prompt_tracker \<times> (string, tracked_prompt) result" where
  "validate socketId promptId now pt =
     (case map_get (promptsById pt) promptId of
        None \<Rightarrow> (pt, err ''Unknown or already responded prompt ID'')
      | Some tracked \<Rightarrow>
          if tkSocketId tracked \<noteq> socketId then (pt, err ''Prompt ID does not belong to this socket'')
          else if now > tkTimeoutAt tracked then
            (remove_prompt promptId pt, err ''Prompt has expired'')
          else (pt, ok tracked))"

definition removeAllForSocket :: "string \<Rightarrow> prompt_tracker \<Rightarrow> prompt_tracker" where
  "removeAllForSocket socketId pt =
     (case map_get (promptsBySocket pt) socketId of None \<Rightarrow> pt
      | Some ids \<Rightarrow> pt\<lparr>promptsById := fold map_delete ids (promptsById pt),
                       promptsBySocket := map_delete socketId (promptsBySocket pt)\<rparr>)"

section \<open>Invariant and contract\<close>

definition tracker_ok :: "prompt_tracker \<Rightarrow> bool" where
  "tracker_ok pt \<longleftrightarrow> index_ok tkSocketId (promptsById pt) (promptsBySocket pt)
     \<and> (\<forall>i t. map_get (promptsById pt) i = Some t \<longrightarrow> tkId t = i)"

definition socket_ids :: "prompt_tracker \<Rightarrow> string \<Rightarrow> string list" where
  "socket_ids pt s = ids_of (promptsBySocket pt) s"

lemma store_prompt_maps:
  "store_prompt t pt = pt\<lparr>promptsById := map_set (tkId t) t (promptsById pt),
     promptsBySocket := map_set (tkSocketId t)
       (set_add (tkId t) (ids_of (promptsBySocket pt) (tkSocketId t))) (promptsBySocket pt)\<rparr>"
  by (simp add: store_prompt_def ids_of_def Let_def)

lemma remove_prompt_maps:
  "remove_prompt i pt = (case map_get (promptsById pt) i of None \<Rightarrow> pt
     | Some t \<Rightarrow> pt\<lparr>promptsById := map_delete i (promptsById pt),
                   promptsBySocket := drop_id i (tkSocketId t) (promptsBySocket pt)\<rparr>)"
  by (simp add: remove_prompt_def drop_id_def Let_def split: option.split)

lemma pending_count_ids: "getPendingCount pt s = length (socket_ids pt s)"
  by (simp add: getPendingCount_def socket_ids_def ids_of_def split: option.split)

lemma tracker_ok_store:
  assumes "tracker_ok pt" and "get_prompt pt (tkId t) = None"
  shows "tracker_ok (store_prompt t pt)"
  using assms index_ok_add [of tkSocketId "promptsById pt" "promptsBySocket pt" "tkId t" t]
  by (auto simp: tracker_ok_def store_prompt_maps get_prompt_def map_get_set)

lemma tracker_ok_remove [inv_intros]: "tracker_ok pt \<Longrightarrow> tracker_ok (remove_prompt i pt)"
  by (auto simp: tracker_ok_def remove_prompt_maps map_get_delete index_ok_remove split: option.split)

interpretation prompts: owner_registry tkId tkSocketId createPromptTracker store_prompt remove_prompt
  get_prompt socket_ids tracker_ok
proof unfold_locales
  show "tracker_ok createPromptTracker" by (simp add: tracker_ok_def createPromptTracker_def)
  show "get_prompt createPromptTracker i = None" for i by (simp add: get_prompt_def createPromptTracker_def)
  fix pt :: prompt_tracker and t i j s
  assume pt: "tracker_ok pt"
  show "get_prompt pt (tkId t) = None \<Longrightarrow> tracker_ok (store_prompt t pt)"
    using pt by (rule tracker_ok_store)
  show "tracker_ok (remove_prompt i pt)" using pt by (rule tracker_ok_remove)
  show "get_prompt (store_prompt t pt) i = (if i = tkId t then Some t else get_prompt pt i)"
    by (simp add: get_prompt_def store_prompt_maps map_get_set)
  show "get_prompt (remove_prompt j pt) i = (if i = j then None else get_prompt pt i)"
    by (simp add: get_prompt_def remove_prompt_maps map_get_delete split: option.split)
  show "i \<in> set (socket_ids pt s) \<longleftrightarrow> (\<exists>t. get_prompt pt i = Some t \<and> tkSocketId t = s)"
    using pt by (simp add: socket_ids_def get_prompt_def tracker_ok_def ids_of_iff)
  show "distinct (socket_ids pt s)"
    using pt ids_of_distinct [of tkSocketId "promptsById pt" "promptsBySocket pt" s]
    by (simp add: socket_ids_def tracker_ok_def)
qed

section \<open>Reachable trackers\<close>

lemma removeAll_ok:
  assumes "tracker_ok pt"
  shows "tracker_ok (removeAllForSocket s pt)"
    and "get_prompt (removeAllForSocket s pt) i =
      (case get_prompt pt i of None \<Rightarrow> None | Some t \<Rightarrow> if tkSocketId t = s then None else Some t)"
proof -
  have ok: "index_ok tkSocketId (promptsById pt) (promptsBySocket pt)"
    using assms by (simp add: tracker_ok_def)
  have rep: "removeAllForSocket s pt = pt\<lparr>promptsById := fold map_delete (ids_of (promptsBySocket pt) s) (promptsById pt),
      promptsBySocket := map_delete s (promptsBySocket pt)\<rparr>"
  proof (cases "map_get (promptsBySocket pt) s")
    case None
    then have "map_delete s (promptsBySocket pt) = promptsBySocket pt"
      by (simp add: map_of_eq_None_iff AList.delete_id)
    with None show ?thesis by (simp add: removeAllForSocket_def ids_of_def)
  next
    case (Some ids)
    then show ?thesis by (simp add: removeAllForSocket_def ids_of_def)
  qed
  have look: "get_prompt (removeAllForSocket s pt) i =
      (if i \<in> set (ids_of (promptsBySocket pt) s) then None else get_prompt pt i)" for i
    by (simp add: rep get_prompt_def map_get_fold_delete)
  then show "get_prompt (removeAllForSocket s pt) i =
      (case get_prompt pt i of None \<Rightarrow> None | Some t \<Rightarrow> if tkSocketId t = s then None else Some t)"
    by (auto simp: ids_of_iff [OF ok] get_prompt_def split: option.split)
  have "index_ok tkSocketId (promptsById (removeAllForSocket s pt))
      (promptsBySocket (removeAllForSocket s pt))"
    using index_ok_remove_owner [OF ok, of s] by (simp add: rep)
  then show "tracker_ok (removeAllForSocket s pt)"
    using assms look by (auto simp: tracker_ok_def get_prompt_def split: if_splits)
qed

inductive tracker_reach :: "prompt_tracker \<Rightarrow> bool" where
  empty: "tracker_reach createPromptTracker"
| track: "tracker_reach pt \<Longrightarrow> get_prompt pt (ppId p) = None \<Longrightarrow> tracker_reach (fst (track s p now pt))"
| validate: "tracker_reach pt \<Longrightarrow> tracker_reach (fst (validate s i now pt))"
| remove: "tracker_reach pt \<Longrightarrow> tracker_reach (remove_prompt i pt)"
| remove_all: "tracker_reach pt \<Longrightarrow> tracker_reach (removeAllForSocket s pt)"

definition tracked_of :: "string \<Rightarrow> prompt_payload \<Rightarrow> int \<Rightarrow> tracked_prompt" where
  "tracked_of s p now = \<lparr>tkId = ppId p, tkSocketId = s, tkPayload = p, tkCreatedAt = now,
     tkTimeoutAt = now + or_default (ppTimeout p) DEFAULT_PROMPT_MS,
     tkExpectedButtons = map pbAction (or_default (ppButtons p) []),
     tkExpectedInputs = map piId (or_default (ppInputs p) [])\<rparr>"

lemma track_cases:
  "track s p now pt = (if getPendingCount pt s \<ge> MAX_PENDING_PROMPTS_PER_SOCKET
     then (pt, err (''Too many pending prompts (max '' @ show_nat MAX_PENDING_PROMPTS_PER_SOCKET @ '')''))
     else (store_prompt (tracked_of s p now) pt, ok ()))"
  by (simp add: track_def getPendingCount_def tracked_of_def Let_def)

lemma tracked_of_fields [simp]: "tkId (tracked_of s p now) = ppId p" "tkSocketId (tracked_of s p now) = s"
  by (simp_all add: tracked_of_def)

lemma validate_state: "fst (validate s i now pt) \<in> {pt, remove_prompt i pt}"
  by (auto simp: validate_def split: option.split)

lemma tracker_reach_ok: "tracker_reach pt \<Longrightarrow> tracker_ok pt"
proof (induction rule: tracker_reach.induct)
  case (track pt p s now)
  then show ?case by (simp add: track_cases tracker_ok_store)
next
  case (validate pt s i now)
  then show ?case using validate_state [of s i now pt] tracker_ok_remove [of pt i] by auto
qed (simp_all add: prompts.invar_empty tracker_ok_remove removeAll_ok)

lemma pending_mono:
  assumes "tracker_ok pt" and "tracker_ok pt'" and "set (socket_ids pt' s) \<subseteq> set (socket_ids pt s)"
  shows "getPendingCount pt' s \<le> getPendingCount pt s"
  using assms prompts.owned_distinct
  by (simp add: pending_count_ids) (metis List.finite_set card_mono distinct_card)

lemma pending_store:
  assumes "tracker_ok pt" and "get_prompt pt (tkId t) = None"
  shows "getPendingCount (store_prompt t pt) s
    = (if s = tkSocketId t then Suc (getPendingCount pt s) else getPendingCount pt s)"
proof -
  have "tkId t \<notin> set (socket_ids pt s)" using assms by (auto simp: prompts.owned_iff)
  moreover have "distinct (socket_ids (store_prompt t pt) s)" "distinct (socket_ids pt s)"
    using assms prompts.owned_distinct tracker_ok_store by blast+
  ultimately show ?thesis using prompts.owned_add [OF assms, of s]
    by (auto simp: pending_count_ids distinct_card [symmetric] simp del: distinct_card)
qed

lemma pending_limit: "tracker_reach pt \<Longrightarrow> getPendingCount pt s \<le> MAX_PENDING_PROMPTS_PER_SOCKET"
proof (induction rule: tracker_reach.induct)
  case empty
  then show ?case by (simp add: getPendingCount_def createPromptTracker_def)
next
  case (track pt p s' now)
  then show ?case using tracker_reach_ok [of pt] by (auto simp: track_cases pending_store)
next
  case (validate pt s' i now)
  have "getPendingCount (remove_prompt i pt) s \<le> getPendingCount pt s"
    using tracker_reach_ok [OF validate.hyps] by (intro pending_mono) (auto simp: prompts.owned_remove tracker_ok_remove)
  with validate show ?case using validate_state [of s' i now pt] by auto
next
  case (remove pt i)
  have "getPendingCount (remove_prompt i pt) s \<le> getPendingCount pt s"
    using tracker_reach_ok [OF remove.hyps] by (intro pending_mono) (auto simp: prompts.owned_remove tracker_ok_remove)
  with remove show ?case by simp
next
  case (remove_all pt s')
  have ok: "tracker_ok pt" using remove_all.hyps by (rule tracker_reach_ok)
  have "getPendingCount (removeAllForSocket s' pt) s \<le> getPendingCount pt s"
    by (intro pending_mono ok removeAll_ok(1) [OF ok])
      (auto simp: prompts.owned_iff [OF ok] prompts.owned_iff [OF removeAll_ok(1) [OF ok]] removeAll_ok(2) [OF ok]
        split: option.splits if_splits)
  with remove_all show ?case by simp
qed

section \<open>Properties\<close>

text \<open>C33: prompts belong to sockets.  In every reachable tracker a socket has at most ten
  pending prompts, the count is the number of tracked prompts it owns, only the owner passes
  validation and only before the expiry time, and a disconnect forgets the prompts of this
  socket and of no other.\<close>

theorem prompts_owned_and_bounded:
  assumes "tracker_reach pt"
  shows "getPendingCount pt s \<le> 10
    \<and> getPendingCount pt s = card {i. \<exists>t. get_prompt pt i = Some t \<and> tkSocketId t = s}
    \<and> (snd (validate s i now pt) = ok t \<longleftrightarrow>
         get_prompt pt i = Some t \<and> tkSocketId t = s \<and> now \<le> tkTimeoutAt t)
    \<and> (\<forall>j. get_prompt (removeAllForSocket s pt) j =
         (case get_prompt pt j of None \<Rightarrow> None | Some u \<Rightarrow> if tkSocketId u = s then None else Some u))"
proof -
  have ok: "tracker_ok pt" using assms by (rule tracker_reach_ok)
  have "getPendingCount pt s = card (set (socket_ids pt s))"
    using prompts.owned_distinct [OF ok, of s] by (simp add: pending_count_ids distinct_card)
  also have "set (socket_ids pt s) = {i. \<exists>t. get_prompt pt i = Some t \<and> tkSocketId t = s}"
    by (auto simp: prompts.owned_iff [OF ok])
  finally have "getPendingCount pt s = card {i. \<exists>t. get_prompt pt i = Some t \<and> tkSocketId t = s}" .
  moreover have "snd (validate s i now pt) = ok t \<longleftrightarrow>
      get_prompt pt i = Some t \<and> tkSocketId t = s \<and> now \<le> tkTimeoutAt t"
    by (auto simp: validate_def get_prompt_def split: option.split)
  ultimately show ?thesis
    using pending_limit [OF assms, of s] removeAll_ok(2) [OF ok, of s]
    by (simp add: MAX_PENDING_PROMPTS_PER_SOCKET_def)
qed

definition demo_options :: prompt_options where
  "demo_options = \<lparr>poTitle = ''t'', poMessage = None, poInputs = [], poSubmitLabel = None,
     poConfirmLabel = None, poOkLabel = None, poCancelLabel = None, poSeverity = None, poIcon = None,
     poAutoFocus = None, poTimeout = Some 1000\<rparr>"

theorem prompts_owned_and_bounded_witness:
  "let pt = fst (track ''a'' (createConfirmPrompt ''p'' demo_options) 0 createPromptTracker)
   in getPendingCount pt ''a'' \<le> 10 \<and> get_prompt (removeAllForSocket ''a'' pt) ''p'' = None
      \<and> get_prompt (removeAllForSocket ''b'' pt) ''p'' \<noteq> None"
proof -
  let ?pt = "fst (track ''a'' (createConfirmPrompt ''p'' demo_options) 0 createPromptTracker)"
  have reach: "tracker_reach ?pt"
    by (intro tracker_reach.intros) (simp add: get_prompt_def createPromptTracker_def)
  have "get_prompt ?pt ''p'' = Some (tracked_of ''a'' (createConfirmPrompt ''p'' demo_options) 0)"
    by (simp add: track_cases createPromptTracker_def getPendingCount_def get_prompt_def store_prompt_def
        createConfirmPrompt_def MAX_PENDING_PROMPTS_PER_SOCKET_def Let_def)
  moreover note a = prompts_owned_and_bounded [OF reach, of "''a''" "''p''" 0 undefined]
  moreover note b = prompts_owned_and_bounded [OF reach, of "''b''" "''p''" 0 undefined]
  ultimately show ?thesis
    using conjunct1 [OF a] spec [OF conjunct2 [OF conjunct2 [OF conjunct2 [OF a]]], of "''p''"]
      spec [OF conjunct2 [OF conjunct2 [OF conjunct2 [OF b]]], of "''p''"]
    by (simp only: Let_def option.case tracked_of_fields) simp
qed

end
