(* ===== verification/Prompt_Protocol.thy ===== *)
theory Prompt_Protocol
  imports Prompt_Tracker JS_Values
begin

text \<open>
  Validation of the answers to prompts, \<open>app/socket/handlers/prompt-validator.ts\<close>, and the
  socket adapter that sends prompts and handles their answers,
  \<open>app/socket/adapters/service-socket-prompt.ts\<close>.  The registered response handlers are a
  type parameter; what the adapter does with an answer is the outcome: the refusal it logs, or
  the call of a handler.  Emitting a prompt is the returned payload.
\<close>

section \<open>Patterns and limits\<close>

definition action_name :: "string \<Rightarrow> bool" where
  "action_name s \<longleftrightarrow> s \<noteq> [] \<and> is_alpha (hd s) \<and> length s \<le> 64
     \<and> list_all (\<lambda>c. is_word c \<or> c = CHR ''-'') (tl s)"

definition input_key :: "string \<Rightarrow> bool" where
  "input_key s \<longleftrightarrow> s \<noteq> [] \<and> is_alpha (hd s) \<and> length s \<le> 64 \<and> list_all is_word (tl s)"

fun html_tag :: "string \<Rightarrow> bool" where
  "html_tag [] = False"
| "html_tag (c # s) = ((c = CHR ''<'' \<and> length (takeWhile (\<lambda>x. x \<noteq> CHR ''>'') s) \<le> 1000
      \<and> dropWhile (\<lambda>x. x \<noteq> CHR ''>'') s \<noteq> []) \<or> html_tag s)"

definition is_hex :: "char \<Rightarrow> bool" where
  "is_hex c \<longleftrightarrow> is_digit c \<or> (97 \<le> code (char_lower c) \<and> code (char_lower c) \<le> 102)"

definition uuid_v4 :: "string \<Rightarrow> bool" where
  "uuid_v4 s \<longleftrightarrow> length s = 36
     \<and> list_all (\<lambda>i. if i \<in> {8, 13, 18, 23} then s ! i = CHR ''-'' else is_hex (s ! i)) [0..<36]
     \<and> s ! 14 = CHR ''4'' \<and> char_lower (s ! 19) \<in> {CHR ''8'', CHR ''9'', CHR ''a'', CHR ''b''}"

definition MAX_ACTION_LENGTH :: nat where "MAX_ACTION_LENGTH = 64"
definition MAX_INPUTS :: nat where "MAX_INPUTS = 10"
definition MAX_INPUT_VALUE_LENGTH :: nat where "MAX_INPUT_VALUE_LENGTH = 10000"
definition MAX_TITLE_LENGTH :: nat where "MAX_TITLE_LENGTH = 256"
definition MAX_MESSAGE_LENGTH :: nat where "MAX_MESSAGE_LENGTH = 4096"
definition MAX_ICON_LENGTH :: nat where "MAX_ICON_LENGTH = 64"

definition quoted :: "string \<Rightarrow> string" where
  "quoted s = CHR 0x27 # s @ [CHR 0x27]"

section \<open>Validation\<close>

record prompt_response =
  prId :: string
  prAction :: string
  prInputs :: "(string, string) jsmap option"

fun isPromptId :: "jsval \<Rightarrow> bool" where
  "isPromptId (JStr s) = (length s > 0 \<and> length s \<le> 128)"
| "isPromptId _ = False"

fun validateAction :: "jsval \<Rightarrow> (string, string) result" where
  "validateAction (JStr value) =
     (if length value = 0 then err ''Action is required''
      else if length value > MAX_ACTION_LENGTH then
        err (''Action exceeds maximum length of '' @ show_nat MAX_ACTION_LENGTH)
      else if \<not> action_name value then
        err ''Invalid action format: must start with letter, contain only alphanumeric, underscore, hyphen''
      else ok value)"
| "validateAction _ = err ''Action must be a string''"

fun check_entries :: "(string \<times> jsval) list \<Rightarrow> (string, string) jsmap \<Rightarrow>
    (string, (string, string) jsmap) result" where
  "check_entries [] validatedInputs = ok validatedInputs"
| "check_entries ((key, value) # entries) validatedInputs =
     (if \<not> input_key key then err (''Invalid input key format: '' @ key)
      else case value of
        JStr s \<Rightarrow>
          if length s > MAX_INPUT_VALUE_LENGTH then
            err (''Input value for '' @ quoted key @ '' exceeds maximum length of ''
              @ show_nat MAX_INPUT_VALUE_LENGTH)
          else if html_tag s then
            err (''Input value for '' @ quoted key @ '' contains invalid HTML-like content'')
          else check_entries entries (map_set key s validatedInputs)
      | _ \<Rightarrow> err (''Input value for '' @ quoted key @ '' must be a string''))"

definition validateResponseInputs :: "jsval \<Rightarrow> (string, (string, string) jsmap) result" where
  "validateResponseInputs inputs =
     (if \<not> isRecord inputs then err ''Inputs must be an object''
      else let entries = entries_of inputs
           in if length entries > MAX_INPUTS then
                err (''Too many input values (max '' @ show_nat MAX_INPUTS @ '')'')
              else check_entries entries [])"

definition the_str :: "jsval \<Rightarrow> string" where
  "the_str v = (case v of JStr s \<Rightarrow> s | _ \<Rightarrow> [])"

definition validatePromptResponse :: "jsval \<Rightarrow> (string, prompt_response) result" where
  "validatePromptResponse data =
     (if \<not> isRecord data then err ''Prompt response must be an object''
      else
        let i = safeGet data ''id''
        in if \<not> isPromptId i then err ''Invalid or missing prompt ID''
           else case validateAction (safeGet data ''action'') of
               Inl e \<Rightarrow> err e
             | Inr action \<Rightarrow>
                 let inputs = safeGet data ''inputs''
                 in if \<not> nullish inputs then
                      (case validateResponseInputs inputs of
                         Inl e \<Rightarrow> err e
                       | Inr ins \<Rightarrow> ok \<lparr>prId = the_str i, prAction = action, prInputs = Some ins\<rparr>)
                    else ok \<lparr>prId = the_str i, prAction = action, prInputs = None\<rparr>)"

definition set_of_list :: "'a list \<Rightarrow> 'a list" where
  "set_of_list xs = fold set_add xs []"

definition validateResponseAction :: "string \<Rightarrow> prompt_button list \<Rightarrow> (string, unit) result" where
  "validateResponseAction action expectedButtons =
     (let validActions = set_add ''timeout'' (set_add ''dismissed''
            (set_of_list (map pbAction expectedButtons)))
      in if action \<notin> set validActions then
           err (''Invalid action '' @ quoted action @ ''. Expected one of: ''
             @ join_with '', '' validActions)
         else ok ())"

definition validateResponseInputKeys :: "(string, string) jsmap option \<Rightarrow> prompt_input list option \<Rightarrow>
    (string, unit) result" where
  "validateResponseInputKeys responseInputs expectedInputs =
     (if expectedInputs = None \<or> expectedInputs = Some [] then
        (if responseInputs \<noteq> None \<and> length (map_keys (the responseInputs)) > 0
         then err ''Unexpected input values provided'' else ok ())
      else
        let expectedKeys = set_of_list (map piId (the expectedInputs));
            requiredKeys = set_of_list (map piId (filter (\<lambda>i. piRequired i = Some True) (the expectedInputs)))
        in case responseInputs of
             None \<Rightarrow> if length requiredKeys > 0
               then err (''Missing required inputs: '' @ join_with '', '' requiredKeys) else ok ()
           | Some ins \<Rightarrow>
               (case find (\<lambda>k. k \<notin> set expectedKeys) (map_keys ins) of
                  Some k \<Rightarrow> err (''Unexpected input key: '' @ k)
                | None \<Rightarrow>
                    (case find (\<lambda>k. map_get ins k = None \<or> map_get ins k = Some []) requiredKeys of
                       Some k \<Rightarrow> err (''Missing or empty required input: '' @ k)
                     | None \<Rightarrow> ok ())))"

fun validateTitle :: "jsval \<Rightarrow> (string, string) result" where
  "validateTitle (JStr title) =
     (if length title = 0 then err ''Title is required''
      else if length title > MAX_TITLE_LENGTH then
        err (''Title exceeds maximum length of '' @ show_nat MAX_TITLE_LENGTH)
      else if html_tag title then err ''Title contains invalid HTML-like content''
      else ok title)"
| "validateTitle _ = err ''Title must be a string''"

fun validateMessage :: "jsval \<Rightarrow> (string, string option) result" where
  "validateMessage JUndefined = ok None"
| "validateMessage JNull = ok None"
| "validateMessage (JStr message) =
     (if length message > MAX_MESSAGE_LENGTH then
        err (''Message exceeds maximum length of '' @ show_nat MAX_MESSAGE_LENGTH)
      else if html_tag message then err ''Message contains invalid HTML-like content''
      else ok (Some message))"
| "validateMessage _ = err ''Message must be a string''"

fun validatePromptId :: "jsval \<Rightarrow> (string, string) result" where
  "validatePromptId (JStr i) = (if \<not> uuid_v4 i then err ''Prompt ID must be a valid UUID v4'' else ok i)"
| "validatePromptId _ = err ''Prompt ID must be a string''"

section \<open>Adapter\<close>

record 'h prompt_adapter =
  paTracker :: prompt_tracker
  paHandlers :: "(string, 'h) jsmap"

definition new_prompt_adapter :: "'h prompt_adapter" where
  "new_prompt_adapter = \<lparr>paTracker = createPromptTracker, paHandlers = []\<rparr>"

datatype 'h prompt_outcome =
    InvalidFormat string | Unauthorized string | InvalidAction string | InvalidInputs string
  | NoHandler prompt_response tracked_prompt | Called 'h prompt_response tracked_prompt

definition check_action :: "prompt_response \<Rightarrow> tracked_prompt \<Rightarrow> (string, unit) result" where
  "check_action response tracked =
     (case ppButtons (tkPayload tracked) of
        Some buttons \<Rightarrow>
          if length buttons > 0 then validateResponseAction (prAction response) buttons else ok ()
      | None \<Rightarrow> ok ())"

definition handlePromptResponse :: "string \<Rightarrow> jsval \<Rightarrow> int \<Rightarrow> 'h prompt_adapter \<Rightarrow>
    'h prompt_adapter \<times> 'h prompt_outcome" where
  "handlePromptResponse socketId data now pa =
     (case validatePromptResponse data of
        Inl e \<Rightarrow> (pa, InvalidFormat e)
      | Inr response \<Rightarrow>
          (case validate socketId (prId response) now (paTracker pa) of
             (pt, Inl e) \<Rightarrow> (pa\<lparr>paTracker := pt\<rparr>, Unauthorized e)
           | (pt, Inr tracked) \<Rightarrow>
               (case check_action response tracked of
                  Inl e \<Rightarrow> (pa, InvalidAction e)
                | Inr _ \<Rightarrow>
                    (case validateResponseInputKeys (prInputs response) (ppInputs (tkPayload tracked)) of
                       Inl e \<Rightarrow> (pa, InvalidInputs e)
                     | Inr _ \<Rightarrow>
                         let pa1 = pa\<lparr>paTracker := remove_prompt (prId response) pt\<rparr>
                         in case map_get (paHandlers pa1) (prId response) of
                              None \<Rightarrow> (pa1, NoHandler response tracked)
                            | Some handler \<Rightarrow>
                                (pa1\<lparr>paHandlers := map_delete (prId response) (paHandlers pa1)\<rparr>,
                                 Called handler response tracked)))))"

definition sendPrompt :: "string \<Rightarrow> prompt_payload \<Rightarrow> 'h \<Rightarrow> int \<Rightarrow> 'h prompt_adapter \<Rightarrow>
    'h prompt_adapter \<times> prompt_payload option" where
  "sendPrompt socketId payload onResponse now pa =
     (case track socketId payload now (paTracker pa) of
        (pt, Inl e) \<Rightarrow> (pa\<lparr>paTracker := pt\<rparr>, None)
      | (pt, Inr _) \<Rightarrow>
          (pa\<lparr>paTracker := pt, paHandlers := map_set (ppId payload) onResponse (paHandlers pa)\<rparr>,
           Some payload))"

definition sendInputPrompt :: "string \<Rightarrow> string \<Rightarrow> prompt_options \<Rightarrow> 'h \<Rightarrow> int \<Rightarrow> 'h prompt_adapter \<Rightarrow>
    'h prompt_adapter \<times> prompt_payload option" where
  "sendInputPrompt socketId uuid o' onResponse now pa =
     sendPrompt socketId (createInputPrompt uuid o') onResponse now pa"

definition sendConfirmPrompt :: "string \<Rightarrow> string \<Rightarrow> prompt_options \<Rightarrow> 'h \<Rightarrow> int \<Rightarrow> 'h prompt_adapter \<Rightarrow>
    'h prompt_adapter \<times> prompt_payload option" where
  "sendConfirmPrompt socketId uuid o' onResponse now pa =
     sendPrompt socketId (createConfirmPrompt uuid o') onResponse now pa"

definition sendNoticePrompt :: "string \<Rightarrow> string \<Rightarrow> prompt_options \<Rightarrow> 'h \<Rightarrow> int \<Rightarrow> 'h prompt_adapter \<Rightarrow>
    'h prompt_adapter \<times> prompt_payload option" where
  "sendNoticePrompt socketId uuid o' onResponse now pa =
     sendPrompt socketId (createNoticePrompt uuid o') onResponse now pa"

definition sendToastPrompt :: "string \<Rightarrow> prompt_options \<Rightarrow> 'h prompt_adapter \<Rightarrow>
    'h prompt_adapter \<times> prompt_payload option" where
  "sendToastPrompt uuid o' pa = (pa, Some (createToastPrompt uuid o'))"

definition prompt_handleDisconnect :: "string \<Rightarrow> 'h prompt_adapter \<Rightarrow> 'h prompt_adapter" where
  "prompt_handleDisconnect socketId pa =
     pa\<lparr>paTracker := removeAllForSocket socketId (paTracker pa), paHandlers := []\<rparr>"

section \<open>What an accepted answer looks like\<close>

lemma html_tag_iff:
  "html_tag s \<longleftrightarrow> (\<exists>a t b. s = a @ CHR ''<'' # t @ CHR ''>'' # b \<and> CHR ''>'' \<notin> set t \<and> length t \<le> 1000)"
proof (induction s)
  case Nil
  then show ?case by simp
next
  case (Cons c s)
  let ?p = "\<lambda>x. x \<noteq> CHR ''>''"
  have here: "length (takeWhile ?p s) \<le> 1000 \<and> dropWhile ?p s \<noteq> []
      \<longleftrightarrow> (\<exists>t b. s = t @ CHR ''>'' # b \<and> CHR ''>'' \<notin> set t \<and> length t \<le> 1000)"
  proof
    assume a: "length (takeWhile ?p s) \<le> 1000 \<and> dropWhile ?p s \<noteq> []"
    then obtain x b where "dropWhile ?p s = x # b" by (cases "dropWhile ?p s") auto
    moreover from this have "x = CHR ''>''" by (simp add: dropWhile_eq_Cons_conv)
    ultimately have "s = takeWhile ?p s @ CHR ''>'' # b" by (metis takeWhile_dropWhile_id)
    moreover have "CHR ''>'' \<notin> set (takeWhile ?p s)" by (auto dest: set_takeWhileD)
    ultimately show "\<exists>t b. s = t @ CHR ''>'' # b \<and> CHR ''>'' \<notin> set t \<and> length t \<le> 1000"
      using a by blast
  next
    assume "\<exists>t b. s = t @ CHR ''>'' # b \<and> CHR ''>'' \<notin> set t \<and> length t \<le> 1000"
    then obtain t b where s: "s = t @ CHR ''>'' # b" and t: "CHR ''>'' \<notin> set t" "length t \<le> 1000" by blast
    then have "\<forall>x\<in>set t. ?p x" by auto
    then have "takeWhile ?p s = t" and "dropWhile ?p s = CHR ''>'' # b"
      using s by (simp_all add: takeWhile_append2 dropWhile_append2)
    with t show "length (takeWhile ?p s) \<le> 1000 \<and> dropWhile ?p s \<noteq> []" by simp
  qed
  have "html_tag (c # s) \<longleftrightarrow>
      (c = CHR ''<'' \<and> (\<exists>t b. s = t @ CHR ''>'' # b \<and> CHR ''>'' \<notin> set t \<and> length t \<le> 1000))
      \<or> (\<exists>a t b. s = a @ CHR ''<'' # t @ CHR ''>'' # b \<and> CHR ''>'' \<notin> set t \<and> length t \<le> 1000)"
    using here Cons.IH by auto
  also have "\<dots> \<longleftrightarrow> (\<exists>a t b. c # s = a @ CHR ''<'' # t @ CHR ''>'' # b \<and> CHR ''>'' \<notin> set t
      \<and> length t \<le> 1000)" (is "?l \<longleftrightarrow> ?r")
  proof
    assume ?l
    then show ?r
    proof
      assume "c = CHR ''<'' \<and> (\<exists>t b. s = t @ CHR ''>'' # b \<and> CHR ''>'' \<notin> set t \<and> length t \<le> 1000)"
      then have "\<exists>t b. c # s = [] @ CHR ''<'' # t @ CHR ''>'' # b \<and> CHR ''>'' \<notin> set t \<and> length t \<le> 1000"
        by simp
      then show ?r by blast
    next
      assume "\<exists>a t b. s = a @ CHR ''<'' # t @ CHR ''>'' # b \<and> CHR ''>'' \<notin> set t \<and> length t \<le> 1000"
      then obtain a t b where "c # s = (c # a) @ CHR ''<'' # t @ CHR ''>'' # b"
        and "CHR ''>'' \<notin> set t" "length t \<le> 1000" by auto
      then show ?r by blast
    qed
  next
    assume ?r
    then obtain a t b where *: "c # s = a @ CHR ''<'' # t @ CHR ''>'' # b"
      "CHR ''>'' \<notin> set t" "length t \<le> 1000" by blast
    show ?l
    proof (cases a)
      case Nil
      with * show ?l by auto
    next
      case (Cons x a')
      with * have "s = a' @ CHR ''<'' # t @ CHR ''>'' # b" by simp
      with * show ?l by blast
    qed
  qed
  finally show ?case .
qed

definition clean_inputs :: "(string, string) jsmap \<Rightarrow> bool" where
  "clean_inputs ins \<longleftrightarrow> wf_map ins
     \<and> (\<forall>(k, v) \<in> set ins. input_key k \<and> length v \<le> MAX_INPUT_VALUE_LENGTH \<and> \<not> html_tag v)"

lemma set_update_subset: "set (map_set k v m) \<subseteq> insert (k, v) (set m)"
  by (induction m) (auto split: if_splits)

lemma clean_inputs_set:
  "clean_inputs m \<Longrightarrow> input_key k \<Longrightarrow> length v \<le> MAX_INPUT_VALUE_LENGTH \<Longrightarrow> \<not> html_tag v \<Longrightarrow>
     clean_inputs (map_set k v m)"
  using set_update_subset [of k v m] by (fastforce simp: clean_inputs_def)

lemma length_update_le: "length (map_set k v m) \<le> Suc (length m)"
  by (induction m) (auto split: if_splits)

lemma check_entries_clean:
  "clean_inputs m \<Longrightarrow> check_entries es m = ok ins \<Longrightarrow>
     clean_inputs ins \<and> length ins \<le> length m + length es"
proof (induction es arbitrary: m)
  case Nil
  then show ?case by simp
next
  case (Cons e es)
  obtain k v where e: "e = (k, v)" by fastforce
  with Cons.prems obtain s where v: "v = JStr s" by (cases v) (auto split: if_splits)
  with e Cons.prems have "clean_inputs (map_set k s m)" and "check_entries es (map_set k s m) = ok ins"
    by (auto intro: clean_inputs_set split: if_splits)
  with Cons.IH have "clean_inputs ins \<and> length ins \<le> length (map_set k s m) + length es" by blast
  then show ?case using length_update_le [of k s m] by auto
qed

lemma validateAction_ok [ok_simps]:
  "validateAction v = ok a \<longleftrightarrow> v = JStr a \<and> action_name a"
  by (cases v) (auto simp: action_name_def MAX_ACTION_LENGTH_def)

lemma validateResponseInputs_ok:
  assumes "validateResponseInputs v = ok ins"
  shows "clean_inputs ins \<and> length ins \<le> MAX_INPUTS"
proof -
  from assms have "check_entries (entries_of v) [] = ok ins" and "length (entries_of v) \<le> MAX_INPUTS"
    by (auto simp: validateResponseInputs_def Let_def split: if_splits)
  with check_entries_clean [of "[]" "entries_of v" ins] show ?thesis
    by (simp add: clean_inputs_def)
qed

lemma isPromptId_iff: "isPromptId v \<longleftrightarrow> (\<exists>s. v = JStr s \<and> 0 < length s \<and> length s \<le> 128)"
  by (cases v) auto

section \<open>Authorisation\<close>

lemma find_None: "find P xs = None \<longleftrightarrow> (\<forall>x\<in>set xs. \<not> P x)"
  by (induction xs) auto

lemma set_of_list_set [simp]: "set (set_of_list xs) = set xs"
proof -
  have "set (fold set_add xs ys) = set ys \<union> set xs" for ys :: "'a list"
    by (induction xs arbitrary: ys) auto
  then show ?thesis by (simp add: set_of_list_def)
qed

lemma set_of_list_Nil [simp]: "set_of_list xs = [] \<longleftrightarrow> xs = []"
  by (metis set_of_list_set set_empty)

lemma validateResponseAction_ok [ok_simps]:
  "validateResponseAction a bs = ok u \<longleftrightarrow> a \<in> set (map pbAction bs) \<union> {''dismissed'', ''timeout''}"
  by (auto simp: validateResponseAction_def Let_def)

definition inputs_answered :: "(string, string) jsmap option \<Rightarrow> prompt_input list option \<Rightarrow> bool" where
  "inputs_answered answer expected \<longleftrightarrow>
     (\<forall>k \<in> set (map_keys (or_default answer [])). k \<in> piId ` set (or_default expected []))
     \<and> (\<forall>i \<in> set (or_default expected []). piRequired i = Some True \<longrightarrow>
          (\<exists>v. map_get (or_default answer []) (piId i) = Some v \<and> v \<noteq> []))"

lemma validateResponseInputKeys_ok:
  "validateResponseInputKeys answer expected = ok u \<Longrightarrow> inputs_answered answer expected"
  by (cases answer; cases expected)
    (auto simp: validateResponseInputKeys_def inputs_answered_def or_default_def find_None Let_def
      filter_empty_conv split: if_splits option.splits)

lemma validate_ok_state: "validate s i now pt = (pt', ok t) \<Longrightarrow> pt' = pt"
  by (auto simp: validate_def split: option.splits if_splits)

lemma handle_called:
  assumes "handlePromptResponse s data now pa = (pa', Called h r t)"
  shows "validatePromptResponse data = ok r"
    and "validate s (prId r) now (paTracker pa) = (paTracker pa, ok t)"
    and "check_action r t = ok ()"
    and "validateResponseInputKeys (prInputs r) (ppInputs (tkPayload t)) = ok ()"
    and "map_get (paHandlers pa) (prId r) = Some h"
    and "paTracker pa' = remove_prompt (prId r) (paTracker pa)"
    and "paHandlers pa' = map_delete (prId r) (paHandlers pa)"
  using assms validate_ok_state
  by (fastforce simp: handlePromptResponse_def Let_def split: sum.splits prod.splits option.splits)+

section \<open>Histories\<close>

datatype 'h adapter_op = ASend prompt_payload 'h | AAnswer jsval | ADisconnect

fun adapter_step :: "string \<Rightarrow> int \<times> 'h adapter_op \<Rightarrow> 'h prompt_adapter \<Rightarrow>
    'h prompt_adapter \<times> (string \<times> 'h) list" where
  "adapter_step s (now, ASend p h) pa = (fst (sendPrompt s p h now pa), [])"
| "adapter_step s (now, AAnswer d) pa =
     (case handlePromptResponse s d now pa of
        (pa', Called h r t) \<Rightarrow> (pa', [(prId r, h)])
      | (pa', _) \<Rightarrow> (pa', []))"
| "adapter_step s (now, ADisconnect) pa = (prompt_handleDisconnect s pa, [])"

fun adapter_run :: "string \<Rightarrow> (int \<times> 'h adapter_op) list \<Rightarrow> 'h prompt_adapter \<Rightarrow> (string \<times> 'h) list" where
  "adapter_run s [] pa = []"
| "adapter_run s (x # xs) pa =
     (let (pa', calls) = adapter_step s x pa in calls @ adapter_run s xs pa')"

fun sent :: "(int \<times> 'h adapter_op) list \<Rightarrow> (string \<times> 'h) list" where
  "sent [] = []"
| "sent ((now, ASend p h) # xs) = (ppId p, h) # sent xs"
| "sent (_ # xs) = sent xs"

definition handlers :: "'h prompt_adapter \<Rightarrow> (string \<times> 'h) set" where
  "handlers pa = {(i, h). map_get (paHandlers pa) i = Some h}"

lemma handlers_send: "handlers (fst (sendPrompt s p h now pa)) \<subseteq> insert (ppId p, h) (handlers pa)"
  by (auto simp: sendPrompt_def handlers_def map_get_set split: prod.splits sum.splits if_splits)

lemma handlers_answer:
  "case handlePromptResponse s d now pa of
     (pa', Called h r t) \<Rightarrow> (prId r, h) \<in> handlers pa \<and> handlers pa' = handlers pa - {prId r} \<times> UNIV
   | (pa', _) \<Rightarrow> handlers pa' = handlers pa"
proof (cases "handlePromptResponse s d now pa")
  case (Pair pa' res)
  show ?thesis
  proof (cases res)
    case (Called h r t)
    with Pair have "handlePromptResponse s d now pa = (pa', Called h r t)" by simp
    from handle_called(5,7) [OF this] show ?thesis
      using Pair Called by (auto simp: handlers_def map_get_delete split: if_splits)
  qed (use Pair in \<open>auto simp: handlePromptResponse_def handlers_def Let_def
      split: sum.splits prod.splits option.splits\<close>)
qed

lemma adapter_step_handlers:
  assumes "adapter_step s x pa = (pa', calls)"
  shows "handlers pa' \<subseteq> handlers pa \<union> set (sent [x])"
    and "calls = [] \<or> (\<exists>i h. calls = [(i, h)] \<and> (i, h) \<in> handlers pa \<and> i \<notin> fst ` handlers pa')"
proof -
  have "handlers pa' \<subseteq> handlers pa \<union> set (sent [x])
    \<and> (calls = [] \<or> (\<exists>i h. calls = [(i, h)] \<and> (i, h) \<in> handlers pa \<and> i \<notin> fst ` handlers pa'))"
  proof (cases "(s, x, pa)" rule: adapter_step.cases)
    case (1 s' now p h pa'')
    then show ?thesis using assms handlers_send [of s p h now pa] by auto
  next
    case (2 s' now d pa'')
    obtain q res where q: "handlePromptResponse s d now pa = (q, res)" by fastforce
    then show ?thesis using assms 2 handlers_answer [where s = s and d = d and now = now and pa = pa] by (cases res) auto
  next
    case (3 s' now pa'')
    then show ?thesis using assms by (auto simp: prompt_handleDisconnect_def handlers_def)
  qed
  then show "handlers pa' \<subseteq> handlers pa \<union> set (sent [x])"
    and "calls = [] \<or> (\<exists>i h. calls = [(i, h)] \<and> (i, h) \<in> handlers pa \<and> i \<notin> fst ` handlers pa')" by blast+
qed

lemma sent_Cons: "sent (x # xs) = sent [x] @ sent xs"
  by (cases x rule: prod.exhaust, rename_tac now a, case_tac a) auto

lemma calls_once:
  "distinct (map fst (sent xs)) \<Longrightarrow> fst ` handlers pa \<inter> fst ` set (sent xs) = {} \<Longrightarrow>
     distinct (map fst (adapter_run s xs pa))
     \<and> set (adapter_run s xs pa) \<subseteq> handlers pa \<union> set (sent xs)"
proof (induction xs arbitrary: pa)
  case Nil
  then show ?case by simp
next
  case (Cons x xs)
  obtain pa' calls where st: "adapter_step s x pa = (pa', calls)" by fastforce
  note h = adapter_step_handlers [OF st]
  have d: "distinct (map fst (sent [x]))" "distinct (map fst (sent xs))"
    "fst ` set (sent [x]) \<inter> fst ` set (sent xs) = {}"
    using Cons.prems(1) by (auto simp: sent_Cons [of x xs])
  have "fst ` handlers pa' \<subseteq> fst ` handlers pa \<union> fst ` set (sent [x])"
    using h(1) by (metis image_Un image_mono)
  moreover have "fst ` handlers pa \<inter> fst ` set (sent xs) = {}"
    using Cons.prems(2) by (simp add: sent_Cons [of x xs] image_Un) blast
  ultimately have "fst ` handlers pa' \<inter> fst ` set (sent xs) = {}" using d(3) by blast
  from Cons.IH [OF d(2) this] have ih: "distinct (map fst (adapter_run s xs pa'))"
    "set (adapter_run s xs pa') \<subseteq> handlers pa' \<union> set (sent xs)" by auto
  from h(2) show ?case
  proof
    assume "calls = []"
    with st ih h(1) show ?thesis by (auto simp: sent_Cons [of x xs])
  next
    assume "\<exists>i h. calls = [(i, h)] \<and> (i, h) \<in> handlers pa \<and> i \<notin> fst ` handlers pa'"
    then obtain i g where c: "calls = [(i, g)]" "(i, g) \<in> handlers pa" "i \<notin> fst ` handlers pa'" by blast
    from c(2) Cons.prems(2) have "i \<notin> fst ` set (sent xs)" by (force simp: sent_Cons [of x xs])
    with c(3) ih(2) have "i \<notin> fst ` set (adapter_run s xs pa')" by fastforce
    with st ih h(1) c(1,2) show ?thesis by (auto simp: sent_Cons [of x xs])
  qed
qed

section \<open>Corner cases\<close>

text \<open>A tag with more than a thousand characters between its brackets is not seen.\<close>

lemma long_tag_accepted: "\<not> html_tag (CHR ''<'' # replicate 1001 CHR ''a'' @ [CHR ''>''])"
proof -
  have "takeWhile (\<lambda>x. x \<noteq> CHR ''>'') (replicate n CHR ''a'' @ [CHR ''>'']) = replicate n CHR ''a''" for n
    by (induction n) auto
  moreover have "\<not> html_tag (replicate n CHR ''a'' @ [CHR ''>''])" for n
    by (induction n) auto
  ultimately show ?thesis by simp
qed

text \<open>Cancelling an input prompt with a required field is refused, because the required inputs
  are demanded of every answer.\<close>

definition demo_input :: prompt_input where
  "demo_input = \<lparr>piId = ''name'', piLabel = ''Name'', piType = InText, piPlaceholder = None,
     piValue = None, piRequired = Some True\<rparr>"

definition demo_adapter :: "string prompt_adapter" where
  "demo_adapter = fst (sendInputPrompt ''sock'' ''p1'' (demo_options\<lparr>poInputs := [demo_input]\<rparr>) ''h'' 0
     new_prompt_adapter)"

definition demo_answer :: "string \<Rightarrow> (string \<times> jsval) list \<Rightarrow> jsval" where
  "demo_answer action ins = JObj [(''id'', JStr ''p1''), (''action'', JStr action), (''inputs'', JObj ins)]"

lemma cancel_refused:
  "snd (handlePromptResponse ''sock'' (JObj [(''id'', JStr ''p1''), (''action'', JStr ''cancel'')]) 5 demo_adapter)
     = InvalidInputs ''Missing required inputs: name''"
  by code_simp

text \<open>A \<open>timeout\<close> answer that arrives after the expiry is refused, and the handler of the expired
  prompt stays registered.\<close>

lemma timeout_answer_lost:
  "let (pa, res) = handlePromptResponse ''sock'' (JObj [(''id'', JStr ''p1''), (''action'', JStr ''timeout'')])
         1001 demo_adapter
   in res = Unauthorized ''Prompt has expired'' \<and> map_get (paHandlers pa) ''p1'' = Some ''h''"
  by code_simp

section \<open>Properties\<close>

text \<open>Accepted answers are clean.  An answer that passes validation has an id of 1 to 128
  characters and an action name of the documented form; its input values, if any, are at most
  ten, under distinct well-formed keys, each at most 10000 characters and without a tag of up to
  1000 characters.\<close>

theorem accepted_answers_clean:
  assumes "validatePromptResponse data = ok r"
  shows "0 < length (prId r) \<and> length (prId r) \<le> 128 \<and> action_name (prAction r)
    \<and> (\<forall>ins. prInputs r = Some ins \<longrightarrow> length ins \<le> 10 \<and> clean_inputs ins
         \<and> (\<forall>v a t b. v \<in> set (map_values ins) \<longrightarrow> v = a @ CHR ''<'' # t @ CHR ''>'' # b \<longrightarrow>
              CHR ''>'' \<in> set t \<or> 1000 < length t))"
proof -
  from assms obtain s where s: "safeGet data ''id'' = JStr s" "0 < length s" "length s \<le> 128" "prId r = s"
    by (auto simp: validatePromptResponse_def isPromptId_iff the_str_def Let_def split: if_splits sum.splits)
  from assms have "action_name (prAction r)"
    by (auto simp: validatePromptResponse_def Let_def ok_simps split: if_splits sum.splits)
  moreover have "length ins \<le> 10 \<and> clean_inputs ins" if "prInputs r = Some ins" for ins
  proof -
    from assms that have "validateResponseInputs (safeGet data ''inputs'') = ok ins"
      by (auto simp: validatePromptResponse_def Let_def split: if_splits sum.splits)
    from validateResponseInputs_ok [OF this] show ?thesis by (simp add: MAX_INPUTS_def)
  qed
  moreover have "CHR ''>'' \<in> set t \<or> 1000 < length t"
    if "clean_inputs ins" and "a @ CHR ''<'' # t @ CHR ''>'' # b \<in> set (map_values ins)" for ins a t b
  proof -
    from that have "\<not> html_tag (a @ CHR ''<'' # t @ CHR ''>'' # b)" by (auto simp: clean_inputs_def)
    then show ?thesis unfolding html_tag_iff by (metis not_le)
  qed
  ultimately show ?thesis using s by blast
qed

lemma demo_answer_accepted:
  "validatePromptResponse (demo_answer ''submit'' [(''name'', JStr ''bob'')])
     = ok \<lparr>prId = ''p1'', prAction = ''submit'', prInputs = Some [(''name'', ''bob'')]\<rparr>"
  by code_simp

theorem accepted_answers_clean_witness:
  "length [(''name'', ''bob'')] \<le> 10 \<and> action_name ''submit'' \<and> clean_inputs [(''name'', ''bob'')]"
  using accepted_answers_clean [OF demo_answer_accepted] by simp

text \<open>C34: a response handler is called only for an authorised answer.  When an answer reaches a
  handler, the prompt was pending for this very socket and not expired, the action is one of its
  buttons (or a dismissal or timeout), every value belongs to an input of the prompt and every
  required input has a non-empty value; afterwards the prompt is no longer pending and its
  handler no longer registered.\<close>

theorem handler_called_authorised:
  assumes "handlePromptResponse s data now pa = (pa', Called h r t)"
  shows "get_prompt (paTracker pa) (prId r) = Some t \<and> tkSocketId t = s \<and> now \<le> tkTimeoutAt t
    \<and> (\<forall>bs. ppButtons (tkPayload t) = Some bs \<longrightarrow> bs \<noteq> [] \<longrightarrow>
         prAction r \<in> set (map pbAction bs) \<union> {''dismissed'', ''timeout''})
    \<and> inputs_answered (prInputs r) (ppInputs (tkPayload t))
    \<and> get_prompt (paTracker pa') (prId r) = None \<and> map_get (paHandlers pa') (prId r) = None"
proof -
  note called = handle_called [OF assms]
  from called(2) have "get_prompt (paTracker pa) (prId r) = Some t \<and> tkSocketId t = s \<and> now \<le> tkTimeoutAt t"
    by (auto simp: validate_def get_prompt_def split: option.splits if_splits)
  moreover from called(3) have "prAction r \<in> set (map pbAction bs) \<union> {''dismissed'', ''timeout''}"
    if "ppButtons (tkPayload t) = Some bs" and "bs \<noteq> []" for bs
    using that by (simp add: check_action_def ok_simps)
  moreover have "inputs_answered (prInputs r) (ppInputs (tkPayload t))"
    using called(4) by (rule validateResponseInputKeys_ok)
  moreover have "get_prompt (paTracker pa') (prId r) = None"
    using called(6) by (simp add: get_prompt_def remove_prompt_maps split: option.split)
  ultimately show ?thesis using called(7) by simp
qed

lemma demo_answer_called:
  "\<exists>t. handlePromptResponse ''sock'' (demo_answer ''submit'' [(''name'', JStr ''bob'')]) 5 demo_adapter
     = (demo_adapter\<lparr>paTracker := createPromptTracker, paHandlers := []\<rparr>,
        Called ''h'' \<lparr>prId = ''p1'', prAction = ''submit'', prInputs = Some [(''name'', ''bob'')]\<rparr> t)
     \<and> tkTimeoutAt t = 1000"
  by (rule exI [of _ "the (get_prompt (paTracker demo_adapter) ''p1'')"]) code_simp

theorem handler_called_authorised_witness:
  "\<exists>t. get_prompt (paTracker demo_adapter) ''p1'' = Some t \<and> 5 \<le> tkTimeoutAt t"
proof -
  from demo_answer_called obtain t where
    "handlePromptResponse ''sock'' (demo_answer ''submit'' [(''name'', JStr ''bob'')]) 5 demo_adapter
     = (demo_adapter\<lparr>paTracker := createPromptTracker, paHandlers := []\<rparr>,
        Called ''h'' \<lparr>prId = ''p1'', prAction = ''submit'', prInputs = Some [(''name'', ''bob'')]\<rparr> t)" by blast
  from handler_called_authorised [OF this] show ?thesis by auto
qed

text \<open>C35: a prompt is answered at most once.  In any history of prompts sent under distinct ids,
  answers of any content and disconnects, each handler call is of a handler registered with the
  prompt of that id, and no id is answered twice.\<close>

theorem prompt_answered_at_most_once:
  assumes "distinct (map fst (sent xs))"
  shows "distinct (map fst (adapter_run s xs new_prompt_adapter))
    \<and> set (adapter_run s xs new_prompt_adapter) \<subseteq> set (sent xs)"
  using calls_once [OF assms, of new_prompt_adapter s]
  by (simp add: handlers_def new_prompt_adapter_def)

definition demo_ops :: "(int \<times> string adapter_op) list" where
  "demo_ops = [(0, ASend (createInputPrompt ''p1'' (demo_options\<lparr>poInputs := [demo_input]\<rparr>)) ''h''),
     (5, AAnswer (demo_answer ''submit'' [(''name'', JStr ''bob'')])),
     (6, AAnswer (demo_answer ''submit'' [(''name'', JStr ''eve'')]))]"

lemma demo_ops_sent: "sent demo_ops = [(''p1'', ''h'')]"
  by (simp add: demo_ops_def createInputPrompt_def Let_def)

lemma demo_ops_calls: "(''p1'', ''h'') \<in> set (adapter_run ''sock'' demo_ops new_prompt_adapter)"
  by code_simp

theorem prompt_answered_at_most_once_witness:
  "map fst (adapter_run ''sock'' demo_ops new_prompt_adapter) = [''p1'']"
proof -
  let ?cs = "adapter_run ''sock'' demo_ops new_prompt_adapter"
  have "distinct (map fst ?cs)" and "set ?cs \<subseteq> {(''p1'', ''h'')}"
    using prompt_answered_at_most_once [of demo_ops "''sock''"] by (simp_all add: demo_ops_sent)
  moreover have "?cs \<noteq> []" using demo_ops_calls by auto
  then obtain c cs where "?cs = c # cs" by (cases ?cs) auto
  ultimately show ?thesis by (cases cs) auto
qed

end
