(* ===== verification/Backpressure.thy ===== *)
theory Backpressure
  imports JS_Values "HOL-Library.Multiset"
begin

text \<open>
  Flow control of a socket, \<open>app/socket/backpressure.ts\<close>: the reading of the WebSocket buffer, the
  pause and resume decision with its two marks, and the controller on which a sender waits for
  the buffer to drain.  A waiter stands for the promise of one \<open>waitForDrain\<close> call; the events
  are the calls, the \<open>drain\<close> event of the transport, the poll timer and \<open>destroy\<close>, each with
  the buffer reading made at that moment.  An event returns the waiters whose promises it
  resolves, in order.
\<close>

section \<open>Decision\<close>

text \<open>The accessors of the socket are read as an object of unknown values; an access that throws
  gives \<open>null\<close> and is the value \<open>JUndefined\<close> here.\<close>

definition getWebSocketBufferedBytes :: "jsval \<Rightarrow> jsnum option" where
  "getWebSocketBufferedBytes socket =
     (let conn = jget socket ''conn''
      in if \<not> is_object conn \<or> conn = JNull then None
         else let transport = jget conn ''transport''
              in if \<not> is_object transport \<or> transport = JNull then None
                 else if jget transport ''name'' \<noteq> JStr ''websocket'' then None
                 else let wsSocket = jget transport ''socket''
                      in if \<not> is_object wsSocket \<or> wsSocket = JNull then None
                         else case jget wsSocket ''bufferedAmount'' of JNum n \<Rightarrow> Some n | _ \<Rightarrow> None)"

datatype bp_action = BpPause | BpResume | BpNone

fun num_at_least :: "jsnum \<Rightarrow> rat \<Rightarrow> bool" where
  "num_at_least NaN _ = False"
| "num_at_least (Infinity neg) _ = (\<not> neg)"
| "num_at_least (Num x) y = (x \<ge> y)"

definition computeBackpressureAction :: "jsnum option \<Rightarrow> int \<Rightarrow> bool \<Rightarrow> bp_action" where
  "computeBackpressureAction bufferedBytes highWaterMark currentlyPaused =
     (case bufferedBytes of None \<Rightarrow> BpNone
      | Some n \<Rightarrow>
          let lowWaterMark = highWaterMark div 4
          in if \<not> currentlyPaused \<and> num_at_least n (of_int highWaterMark) then BpPause
             else if currentlyPaused \<and> num_less n (of_int lowWaterMark) then BpResume
             else BpNone)"

section \<open>Controller\<close>

record 'w bp_state =
  bpHighWaterMark :: int
  bpDestroyed :: bool
  bpPending :: "'w option"
  bpTimer :: bool
  bpListeners :: nat

definition createBackpressureController :: "int \<Rightarrow> 'w bp_state" where
  "createBackpressureController highWaterMark =
     \<lparr>bpHighWaterMark = highWaterMark, bpDestroyed = False, bpPending = None, bpTimer = False,
      bpListeners = 0\<rparr>"

definition checkAndResolve :: "jsnum option \<Rightarrow> 'w bp_state \<Rightarrow> 'w bp_state \<times> 'w list" where
  "checkAndResolve buffered s =
     (case bpPending s of None \<Rightarrow> (s, [])
      | Some w \<Rightarrow>
          let action = computeBackpressureAction buffered (bpHighWaterMark s) True
          in if action = BpResume \<or> buffered = None then
               (s\<lparr>bpPending := None, bpTimer := False, bpListeners := bpListeners s - 1\<rparr>, [w])
             else (s\<lparr>bpTimer := True\<rparr>, []))"

definition waitForDrain :: "'w \<Rightarrow> jsnum option \<Rightarrow> 'w bp_state \<Rightarrow> 'w bp_state \<times> 'w list" where
  "waitForDrain w buffered s =
     (if bpDestroyed s then (s, [w])
      else if computeBackpressureAction buffered (bpHighWaterMark s) False \<noteq> BpPause then (s, [w])
      else
        let (s1, out) = (case bpPending s of None \<Rightarrow> (s, [])
              | Some prev \<Rightarrow>
                  (s\<lparr>bpPending := None, bpTimer := False, bpListeners := bpListeners s - 1\<rparr>, [prev]))
        in (s1\<lparr>bpPending := Some w, bpListeners := bpListeners s1 + 1, bpTimer := True\<rparr>, out))"

text \<open>A listener added with \<open>once\<close> is removed before it is called; each registration is called.\<close>

fun call_listeners :: "nat \<Rightarrow> jsnum option \<Rightarrow> 'w bp_state \<Rightarrow> 'w bp_state \<times> 'w list" where
  "call_listeners 0 buffered s = (s, [])"
| "call_listeners (Suc n) buffered s =
     (let (s1, out1) = checkAndResolve buffered s; (s2, out2) = call_listeners n buffered s1
      in (s2, out1 @ out2))"

definition drain_event :: "jsnum option \<Rightarrow> 'w bp_state \<Rightarrow> 'w bp_state \<times> 'w list" where
  "drain_event buffered s = call_listeners (bpListeners s) buffered (s\<lparr>bpListeners := 0\<rparr>)"

definition timer_event :: "jsnum option \<Rightarrow> 'w bp_state \<Rightarrow> 'w bp_state \<times> 'w list" where
  "timer_event buffered s =
     (if bpTimer s then checkAndResolve buffered (s\<lparr>bpTimer := False\<rparr>) else (s, []))"

definition bp_destroy :: "'w bp_state \<Rightarrow> 'w bp_state \<times> 'w list" where
  "bp_destroy s =
     (let (s1, out) = (case bpPending s of None \<Rightarrow> (s\<lparr>bpDestroyed := True\<rparr>, [])
           | Some w \<Rightarrow> (s\<lparr>bpDestroyed := True, bpPending := None\<rparr>, [w]))
      in (s1\<lparr>bpTimer := False, bpListeners := bpListeners s1 - 1\<rparr>, out))"

datatype 'w bp_event = EWait 'w "jsnum option" | EDrain "jsnum option" | ETimer "jsnum option" | EDestroy

fun bp_step :: "'w bp_event \<Rightarrow> 'w bp_state \<Rightarrow> 'w bp_state \<times> 'w list" where
  "bp_step (EWait w b) s = waitForDrain w b s"
| "bp_step (EDrain b) s = drain_event b s"
| "bp_step (ETimer b) s = timer_event b s"
| "bp_step EDestroy s = bp_destroy s"

fun bp_run :: "'w bp_event list \<Rightarrow> 'w bp_state \<Rightarrow> 'w bp_state \<times> 'w list" where
  "bp_run [] s = (s, [])"
| "bp_run (e # es) s =
     (let (s1, out1) = bp_step e s; (s2, out2) = bp_run es s1 in (s2, out1 @ out2))"

fun waits :: "'w bp_event list \<Rightarrow> 'w list" where
  "waits [] = []"
| "waits (EWait w b # es) = w # waits es"
| "waits (_ # es) = waits es"

section \<open>Invariant\<close>

definition bp_ok :: "'w bp_state \<Rightarrow> bool" where
  "bp_ok s \<longleftrightarrow> (bpTimer s \<longleftrightarrow> bpPending s \<noteq> None) \<and> bpListeners s \<le> 1
     \<and> (bpListeners s = 1 \<longrightarrow> bpPending s \<noteq> None) \<and> (bpDestroyed s \<longrightarrow> bpPending s = None)"

definition pending :: "'w bp_state \<Rightarrow> 'w multiset" where
  "pending s = (case bpPending s of None \<Rightarrow> {#} | Some w \<Rightarrow> {#w#})"

lemma bp_step_ok:
  assumes "bp_ok s" and "bp_step e s = (s', out)"
  shows "bp_ok s' \<and> mset out + pending s' = pending s + mset (waits [e])
    \<and> bpHighWaterMark s' = bpHighWaterMark s \<and> (bpDestroyed s \<longrightarrow> bpDestroyed s')"
proof (cases e)
  case (EWait w b)
  with assms show ?thesis
    by (cases "bpPending s")
      (auto simp: waitForDrain_def bp_ok_def pending_def split: if_splits)
next
  case (EDrain b)
  have s0: "bp_ok (s\<lparr>bpListeners := 0\<rparr>)" using assms(1) by (auto simp: bp_ok_def)
  have "bpListeners s = 0 \<or> bpListeners s = Suc 0" using assms(1) by (auto simp: bp_ok_def)
  then show ?thesis
  proof
    assume "bpListeners s = 0"
    with EDrain assms have "s' = s\<lparr>bpListeners := 0\<rparr>" "out = []" by (simp_all add: drain_event_def)
    with EDrain s0 show ?thesis by (simp add: pending_def)
  next
    assume "bpListeners s = Suc 0"
    with EDrain assms(2) have "checkAndResolve b (s\<lparr>bpListeners := 0\<rparr>) = (s', out)"
      by (simp add: drain_event_def split: prod.splits)
    with EDrain assms(1) show ?thesis
      by (cases "bpPending s")
        (auto simp: checkAndResolve_def bp_ok_def pending_def Let_def split: if_splits)
  qed
next
  case (ETimer b)
  with assms show ?thesis
    by (cases "bpPending s")
      (auto simp: timer_event_def checkAndResolve_def bp_ok_def pending_def Let_def split: if_splits)
next
  case EDestroy
  with assms show ?thesis
    by (cases "bpPending s") (auto simp: bp_destroy_def bp_ok_def pending_def)
qed

lemma waits_Cons: "waits (e # es) = waits [e] @ waits es"
  by (cases e) auto

lemma bp_run_ok:
  "bp_ok s \<Longrightarrow> bp_run es s = (s', out) \<Longrightarrow>
     bp_ok s' \<and> mset out + pending s' = pending s + mset (waits es)
     \<and> bpHighWaterMark s' = bpHighWaterMark s"
proof (induction es arbitrary: s s' out)
  case Nil
  then show ?case by simp
next
  case (Cons e es)
  obtain s1 out1 where st: "bp_step e s = (s1, out1)" by fastforce
  obtain s2 out2 where rn: "bp_run es s1 = (s2, out2)" by fastforce
  note a = bp_step_ok [OF Cons.prems(1) st]
  note b = Cons.IH [OF conjunct1 [OF a] rn]
  have "s' = s2" "out = out1 @ out2" using Cons.prems(2) st rn by auto
  moreover have "mset out1 + (mset out2 + pending s2) = pending s + mset (waits [e]) + mset (waits es)"
    using a b by (simp add: ac_simps)
  ultimately show ?case using a b by (simp add: waits_Cons [of e es] ac_simps)
qed

section \<open>Corner cases\<close>

text \<open>With a high water mark below four the low water mark is zero and no buffer is below it: a
  waiter is released only when the reading fails or the controller is destroyed.\<close>

lemma small_mark_never_resumes:
  assumes "0 \<le> hwm" and "hwm < 4" and "\<not> num_less n 0"
  shows "computeBackpressureAction (Some n) hwm True \<noteq> BpResume"
proof -
  have "hwm div 4 = 0" using assms by (simp add: div_pos_pos_trivial)
  then show ?thesis using assms by (simp add: computeBackpressureAction_def Let_def)
qed

section \<open>Properties\<close>

text \<open>C38: no waiter is lost or released twice.  In any sequence of waits, drain events, timers and
  destruction, the waiters released so far together with the one still pending are exactly the
  waiters there were; a waiter is pending exactly while the poll timer runs, at most one drain
  listener is registered, and a pending waiter is released by the next poll that reads less than
  a quarter of the high water mark or cannot read the buffer.\<close>

theorem waiters_released_once:
  assumes "bp_run es (createBackpressureController hwm) = (s, out)"
  shows "mset out + pending s = mset (waits es)
    \<and> (bpTimer s \<longleftrightarrow> bpPending s \<noteq> None) \<and> bpListeners s \<le> 1
    \<and> (\<forall>w b. bpPending s = Some w \<longrightarrow> b = None \<or> (\<exists>n. b = Some n \<and> num_less n (of_int (hwm div 4))) \<longrightarrow>
         snd (timer_event b s) = [w])
    \<and> (let (s1, out1) = bp_destroy s in mset (out @ out1) = mset (waits es) \<and> bpPending s1 = None)"
proof -
  let ?s0 = "createBackpressureController hwm"
  have s0: "bp_ok ?s0" "pending ?s0 = {#}" "bpHighWaterMark ?s0 = hwm"
    by (simp_all add: bp_ok_def pending_def createBackpressureController_def)
  from s0 bp_run_ok [OF s0(1) assms] have ok: "bp_ok s" and m: "mset out + pending s = mset (waits es)"
    and hwm: "bpHighWaterMark s = hwm" by auto
  have "snd (timer_event b s) = [w]" if "bpPending s = Some w"
    and "b = None \<or> (\<exists>n. b = Some n \<and> num_less n (of_int (hwm div 4)))" for w b
    using that ok hwm
    by (auto simp: timer_event_def checkAndResolve_def bp_ok_def computeBackpressureAction_def Let_def)
  moreover obtain s1 out1 where d: "bp_destroy s = (s1, out1)" by fastforce
  moreover from d have "bpPending s1 = None" and "mset out1 = pending s"
    by (auto simp: bp_destroy_def pending_def split: option.splits prod.splits)
  ultimately show ?thesis using ok m by (auto simp: bp_ok_def)
qed

theorem waiters_released_once_witness:
  "snd (bp_run [EWait ''a'' (Some (Num 100)), EDrain (Some (Num 50)), EWait ''b'' (Some (Num 200)),
      ETimer (Some (Num 24))] (createBackpressureController 100)) = [''a'', ''b'']"
proof -
  let ?es = "[EWait ''a'' (Some (Num 100)), EDrain (Some (Num 50)), EWait ''b'' (Some (Num 200))]"
  obtain s out where run: "bp_run ?es (createBackpressureController 100) = (s, out)" by fastforce
  have s: "bpPending s = Some ''b''" "out = [''a'']"
    using run by (simp_all add: createBackpressureController_def waitForDrain_def drain_event_def
        checkAndResolve_def computeBackpressureAction_def Let_def split: prod.splits if_splits) auto
  have "snd (timer_event (Some (Num 24)) s) = [''b'']"
    using waiters_released_once [OF run] s(1) by auto
  moreover have "bp_run (?es @ [ETimer (Some (Num 24))]) (createBackpressureController 100)
      = (fst (timer_event (Some (Num 24)) s), out @ snd (timer_event (Some (Num 24)) s))"
    using run by (simp split: prod.splits) auto
  ultimately show ?thesis using s(2) by simp
qed

end
