(* ===== verification/Download_Stream.thy ===== *)
theory Download_Stream
  imports Transfer_Manager
begin

text \<open>
  Streaming a download, \<open>streamDownloadChunks\<close> and \<open>cancelDownload\<close> of
  \<open>app/services/sftp/sftp-service.ts\<close>: up to \<open>DOWNLOAD_CONCURRENCY\<close> reads of the remote file
  are in flight, their answers arrive in any order, and the chunks are emitted in file order,
  one at a time, while the next emission waits for the previous \<open>onChunk\<close> to finish.

  The callbacks of one download are its events.  The remote file, the transport and the client
  are outside: an event carries what they answer.  The closure variables and the entry of the
  \<open>downloadStreams\<close> map are the state; the calls of the callbacks and of \<open>sftp.read\<close> and
  \<open>sftp.close\<close> are the outputs, in order.  Logging is left out.
\<close>

section \<open>State\<close>

definition DOWNLOAD_CONCURRENCY :: nat where "DOWNLOAD_CONCURRENCY = 32"
definition PROGRESS_INTERVAL_MS :: int where "PROGRESS_INTERVAL_MS = 250"

datatype dl_output =
    OutRead nat nat nat
  | OutChunk nat bytes bool
  | OutProgress transfer_progress
  | OutComplete transfer_completion
  | OutError string
  | OutClose
  | OutResolve

record download =
  dlTransferId :: string
  dlFileSize :: nat
  dlChunkSize :: nat
  dlTotalChunks :: nat
  dlNextRead :: nat
  dlNextEmit :: nat
  dlBytesTransferred :: nat
  dlLastProgress :: int
  dlHasError :: bool
  dlHandle :: bool
  dlBuffer :: "(nat, bytes) jsmap"
  dlCancelled :: bool
  dlEntry :: "bool option"
  dlEmitting :: "bool option"
  dlInFlight :: "nat list"
  dlOpening :: bool
  dlTransfers :: transfer_manager

text \<open>\<open>dlEntry\<close> is the \<open>cancelled\<close> flag of the entry in \<open>downloadStreams\<close>, if present;
  \<open>dlEmitting\<close> is \<open>isEmitting\<close> with the \<open>isLast\<close> flag of the chunk being emitted;
  \<open>dlInFlight\<close> are the reads without an answer.\<close>

definition ceil_nat :: "nat \<Rightarrow> nat \<Rightarrow> nat" where
  "ceil_nat a b = (a + b - 1) div b"

definition start_stream :: "string \<Rightarrow> nat \<Rightarrow> nat \<Rightarrow> int \<Rightarrow> transfer_manager \<Rightarrow> download" where
  "start_stream tid fileSize chunkSize now m =
     \<lparr>dlTransferId = tid, dlFileSize = fileSize, dlChunkSize = chunkSize,
      dlTotalChunks = ceil_nat fileSize chunkSize, dlNextRead = 0, dlNextEmit = 0,
      dlBytesTransferred = 0, dlLastProgress = now, dlHasError = False, dlHandle = False,
      dlBuffer = [], dlCancelled = False, dlEntry = Some False, dlEmitting = None, dlInFlight = [],
      dlOpening = True, dlTransfers = m\<rparr>"

section \<open>Local functions\<close>

definition emitProgressIfDue :: "int \<Rightarrow> download \<Rightarrow> download \<times> dl_output list" where
  "emitProgressIfDue now d =
     (if now - dlLastProgress d < PROGRESS_INTERVAL_MS then (d, [])
      else let d1 = d\<lparr>dlLastProgress := now\<rparr>
           in case getProgress (dlTransferId d) now (dlTransfers d) of
                Inr p \<Rightarrow> (d1, [OutProgress p]) | Inl _ \<Rightarrow> (d1, []))"

definition dl_cleanup :: "download \<Rightarrow> download \<times> dl_output list" where
  "dl_cleanup d =
     (let d1 = d\<lparr>dlEntry := None\<rparr>
      in if dlHandle d1 then (d1\<lparr>dlHandle := False\<rparr>, [OutClose]) else (d1, []))"

definition completeDownload :: "int \<Rightarrow> download \<Rightarrow> download \<times> dl_output list" where
  "completeDownload now d =
     (let (d1, out) = dl_cleanup d; (m, r) = completeTransfer (dlTransferId d) now (dlTransfers d1)
      in (d1\<lparr>dlTransfers := m\<rparr>, out @ (case r of Inr c \<Rightarrow> [OutComplete c] | Inl _ \<Rightarrow> [])))"

text \<open>The loop of \<open>emitBufferedChunks\<close> up to its next \<open>await\<close> or its end.\<close>

definition emit_next :: "int \<Rightarrow> download \<Rightarrow> download \<times> dl_output list" where
  "emit_next now d =
     (case map_get (dlBuffer d) (dlNextEmit d) of
        None \<Rightarrow> (d\<lparr>dlEmitting := None\<rparr>, [])
      | Some chunk \<Rightarrow>
          let isLast = (int (dlNextEmit d) = int (dlTotalChunks d) - 1)
          in (d\<lparr>dlBuffer := map_delete (dlNextEmit d) (dlBuffer d),
                dlBytesTransferred := dlBytesTransferred d + length chunk,
                dlTransfers := fst (updateProgress (dlTransferId d) (int (dlNextEmit d))
                  (int (length chunk)) now (dlTransfers d)),
                dlEmitting := Some isLast\<rparr>,
              [OutChunk (dlNextEmit d) chunk isLast]))"

definition emitBufferedChunks :: "int \<Rightarrow> download \<Rightarrow> download \<times> dl_output list" where
  "emitBufferedChunks now d = (if dlEmitting d \<noteq> None then (d, []) else emit_next now d)"

definition readChunk :: "nat \<Rightarrow> download \<Rightarrow> download \<times> dl_output list" where
  "readChunk chunkIdx d =
     (if dlHasError d \<or> dlCancelled d \<or> \<not> dlHandle d then (d, [])
      else
        let offset = chunkIdx * dlChunkSize d;
            bytesToRead = min (dlChunkSize d) (dlFileSize d - offset)
        in (d\<lparr>dlInFlight := dlInFlight d @ [chunkIdx]\<rparr>, [OutRead chunkIdx offset bytesToRead]))"

section \<open>Events\<close>

definition open_failed :: "string \<Rightarrow> download \<Rightarrow> download \<times> dl_output list" where
  "open_failed message d =
     (d\<lparr>dlOpening := False, dlTransfers := fst (cancelTransfer (dlTransferId d) (dlTransfers d))\<rparr>,
      [OutError message, OutResolve])"

fun initial_reads :: "nat \<Rightarrow> download \<Rightarrow> download \<times> dl_output list" where
  "initial_reads 0 d = (d, [])"
| "initial_reads (Suc n) d =
     (let chunkIdx = dlNextRead d;
          (d1, out1) = readChunk chunkIdx (d\<lparr>dlNextRead := chunkIdx + 1\<rparr>);
          (d2, out2) = initial_reads n d1
      in (d2, out1 @ out2))"

definition opened :: "download \<Rightarrow> download \<times> dl_output list" where
  "opened d =
     (let d1 = d\<lparr>dlOpening := False, dlHandle := True,
                 dlCancelled := (case dlEntry d of Some c \<Rightarrow> c | None \<Rightarrow> dlCancelled d)\<rparr>
      in if dlCancelled d1 then
           (let (d2, out) = dl_cleanup d1 in (d2, out @ [OutResolve]))
         else initial_reads (min DOWNLOAD_CONCURRENCY (dlTotalChunks d1)) d1)"

definition read_done :: "nat \<Rightarrow> bytes \<Rightarrow> int \<Rightarrow> download \<Rightarrow> download \<times> dl_output list" where
  "read_done chunkIdx data now d0 =
     (let d = d0\<lparr>dlInFlight := remove1 chunkIdx (dlInFlight d0)\<rparr>
      in if dlHasError d \<or> dlCancelled d then (d, [])
         else
           let (d1, out1) = emitBufferedChunks now (d\<lparr>dlBuffer := map_set chunkIdx data (dlBuffer d)\<rparr>)
           in if dlNextRead d1 < dlTotalChunks d1 then
                (let nextIdx = dlNextRead d1;
                     (d2, out2) = readChunk nextIdx (d1\<lparr>dlNextRead := nextIdx + 1\<rparr>)
                 in (d2, out1 @ out2))
              else (d1, out1))"

definition read_failed :: "nat \<Rightarrow> string \<Rightarrow> download \<Rightarrow> download \<times> dl_output list" where
  "read_failed chunkIdx message d0 =
     (let d = d0\<lparr>dlInFlight := remove1 chunkIdx (dlInFlight d0)\<rparr>
      in if dlHasError d \<or> dlCancelled d then (d, [])
         else
           let (d1, out) = dl_cleanup (d\<lparr>dlHasError := True\<rparr>)
           in (d1\<lparr>dlTransfers := fst (cancelTransfer (dlTransferId d) (dlTransfers d1))\<rparr>,
               out @ [OutError message, OutResolve]))"

text \<open>The \<open>await\<close> of \<open>onChunk\<close> returns, and the \<open>finally\<close> block after the last chunk.\<close>

definition chunk_accepted :: "int \<Rightarrow> download \<Rightarrow> download \<times> dl_output list" where
  "chunk_accepted now d =
     (case dlEmitting d of None \<Rightarrow> (d, [])
      | Some isLast \<Rightarrow>
          let (d1, out1) = emitProgressIfDue now d;
              d2 = d1\<lparr>dlNextEmit := dlNextEmit d1 + 1\<rparr>
          in if isLast then
               (let (d3, out3) = completeDownload now d2;
                    d4 = d3\<lparr>dlEmitting := None\<rparr>;
                    (d5, out5) = (if map_get (dlBuffer d4) (dlNextEmit d4) \<noteq> None
                                  then emitBufferedChunks now d4 else (d4, []))
                in (d5, out1 @ out3 @ [OutResolve] @ out5))
             else (let (d3, out3) = emit_next now d2 in (d3, out1 @ out3)))"

text \<open>The promise of \<open>onChunk\<close> is rejected: only the \<open>finally\<close> block runs.\<close>

definition chunk_rejected :: "int \<Rightarrow> download \<Rightarrow> download \<times> dl_output list" where
  "chunk_rejected now d =
     (case dlEmitting d of None \<Rightarrow> (d, [])
      | Some _ \<Rightarrow>
          let d1 = d\<lparr>dlEmitting := None\<rparr>
          in if map_get (dlBuffer d1) (dlNextEmit d1) \<noteq> None then emitBufferedChunks now d1 else (d1, []))"

definition cancelDownload :: "download \<Rightarrow> download" where
  "cancelDownload d =
     (let d1 = (case dlEntry d of None \<Rightarrow> d | Some _ \<Rightarrow> d\<lparr>dlEntry := None\<rparr>)
      in d1\<lparr>dlTransfers := fst (cancelTransfer (dlTransferId d) (dlTransfers d1))\<rparr>)"

text \<open>The entry object is marked before it leaves the map; nothing else holds it, since the
  stream copied its flag into \<open>downloadState\<close> when the file was opened, so the mark is lost with
  the entry.\<close>

datatype dl_event = EOpened | EOpenFailed string | EReadDone nat bytes | EReadFailed nat string
  | EChunkAccepted | EChunkRejected | ECancel

text \<open>When an event can happen: the open callback once, the answer to a read once per read in
  flight, the end of an \<open>onChunk\<close> while it runs, a cancellation always.\<close>

fun dl_enabled :: "dl_event \<Rightarrow> download \<Rightarrow> bool" where
  "dl_enabled EOpened d = dlOpening d"
| "dl_enabled (EOpenFailed _) d = dlOpening d"
| "dl_enabled (EReadDone i _) d = (i \<in> set (dlInFlight d))"
| "dl_enabled (EReadFailed i _) d = (i \<in> set (dlInFlight d))"
| "dl_enabled EChunkAccepted d = (dlEmitting d \<noteq> None)"
| "dl_enabled EChunkRejected d = (dlEmitting d \<noteq> None)"
| "dl_enabled ECancel d = True"

fun dl_step :: "int \<times> dl_event \<Rightarrow> download \<Rightarrow> download \<times> dl_output list" where
  "dl_step (now, EOpened) d = opened d"
| "dl_step (now, EOpenFailed msg) d = open_failed msg d"
| "dl_step (now, EReadDone i data) d = read_done i data now d"
| "dl_step (now, EReadFailed i msg) d = read_failed i msg d"
| "dl_step (now, EChunkAccepted) d = chunk_accepted now d"
| "dl_step (now, EChunkRejected) d = chunk_rejected now d"
| "dl_step (now, ECancel) d = (cancelDownload d, [])"

inductive dl_run :: "download \<Rightarrow> (int \<times> dl_event) list \<Rightarrow> download \<Rightarrow> dl_output list \<Rightarrow> bool" where
  dl_start: "dl_run d [] d []"
| dl_event: "dl_run d es d1 out1 \<Longrightarrow> dl_enabled e d1 \<Longrightarrow> dl_step (now, e) d1 = (d2, out2) \<Longrightarrow>
     dl_run d (es @ [(now, e)]) d2 (out1 @ out2)"

inductive_cases dl_runE: "dl_run d es d' out"

section \<open>Order of the chunks\<close>

fun chunk_of :: "dl_output \<Rightarrow> (nat \<times> bytes \<times> bool) option" where
  "chunk_of (OutChunk i c l) = Some (i, c, l)"
| "chunk_of _ = None"

definition chunks :: "dl_output list \<Rightarrow> (nat \<times> bytes \<times> bool) list" where
  "chunks out = List.map_filter chunk_of out"

lemma chunks_simps [simp]:
  "chunks [] = []" "chunks (OutChunk i c l # out) = (i, c, l) # chunks out"
  "chunks (OutRead i a b # out) = chunks out" "chunks (OutProgress p # out) = chunks out"
  "chunks (OutComplete r # out) = chunks out" "chunks (OutError e # out) = chunks out"
  "chunks (OutClose # out) = chunks out" "chunks (OutResolve # out) = chunks out"
  by (simp_all add: chunks_def List.map_filter_def)

lemma chunks_append [simp]: "chunks (a @ b) = chunks a @ chunks b"
  by (induction a) (simp_all add: chunks_def List.map_filter_def)

text \<open>The number of chunks handed to \<open>onChunk\<close>.\<close>

definition emitted :: "download \<Rightarrow> nat" where
  "emitted d = dlNextEmit d + (if dlEmitting d = None then 0 else 1)"

definition present :: "nat \<Rightarrow> download \<Rightarrow> bool" where
  "present i d \<longleftrightarrow> map_get (dlBuffer d) i \<noteq> None"

definition core_inv :: "(nat \<Rightarrow> bytes) \<Rightarrow> download \<Rightarrow> dl_output list \<Rightarrow> bool" where
  "core_inv f d out \<longleftrightarrow>
     chunks out = map (\<lambda>i. (i, f i, Suc i = dlTotalChunks d)) [0..<emitted d]
     \<and> (\<forall>i c. map_get (dlBuffer d) i = Some c \<longrightarrow> c = f i)
     \<and> (\<forall>i. present i d \<longrightarrow> emitted d \<le> i \<and> i < dlNextRead d \<and> i \<notin> set (dlInFlight d))
     \<and> distinct (dlInFlight d) \<and> (\<forall>i\<in>set (dlInFlight d). emitted d \<le> i \<and> i < dlNextRead d)
     \<and> emitted d \<le> dlNextRead d \<and> dlNextRead d \<le> dlTotalChunks d
     \<and> (\<forall>l. dlEmitting d = Some l \<longrightarrow> l = (Suc (dlNextEmit d) = dlTotalChunks d))
     \<and> \<not> dlCancelled d \<and> dlEntry d \<noteq> Some True
     \<and> (dlHasError d \<longrightarrow> \<not> dlHandle d)"

lemma present_delete:
  "present i (d\<lparr>dlBuffer := map_delete k b\<rparr>) \<longleftrightarrow> i \<noteq> k \<and> map_get b i \<noteq> None"
  by (auto simp: present_def map_get_delete)

lemma emit_next_core:
  assumes inv: "core_inv f d out" and idle: "dlEmitting d = None" and e: "emit_next now d = (d', out')"
  shows "core_inv f d' (out @ out')"
    and "dlEmitting d' = None \<Longrightarrow> \<not> present (dlNextEmit d') d'"
    and "dlNextRead d' = dlNextRead d \<and> dlInFlight d' = dlInFlight d \<and> dlTotalChunks d' = dlTotalChunks d
       \<and> dlNextEmit d' = dlNextEmit d \<and> dlHandle d' = dlHandle d \<and> dlHasError d' = dlHasError d
       \<and> dlOpening d' = dlOpening d \<and> dlTransferId d' = dlTransferId d"
    and "i < emitted d' \<or> present i d' \<longleftrightarrow> i < emitted d \<or> present i d"
proof -
  have k: "emitted d = dlNextEmit d" using idle by (simp add: emitted_def)
  have "core_inv f d' (out @ out') \<and> (dlEmitting d' = None \<longrightarrow> \<not> present (dlNextEmit d') d')
    \<and> dlNextRead d' = dlNextRead d \<and> dlInFlight d' = dlInFlight d \<and> dlTotalChunks d' = dlTotalChunks d
       \<and> dlNextEmit d' = dlNextEmit d \<and> dlHandle d' = dlHandle d \<and> dlHasError d' = dlHasError d
       \<and> dlOpening d' = dlOpening d \<and> dlTransferId d' = dlTransferId d
    \<and> (i < emitted d' \<or> present i d' \<longleftrightarrow> i < emitted d \<or> present i d)"
  proof (cases "map_get (dlBuffer d) (dlNextEmit d)")
    case None
    with e have d': "d' = d\<lparr>dlEmitting := None\<rparr>" and out': "out' = []" by (auto simp: emit_next_def)
    have "d' = d" using d' idle by (simp add: d')
    then show ?thesis using inv out' None by (simp add: present_def)
  next
    case (Some c)
    then have p: "present (dlNextEmit d) d" by (simp add: present_def)
    then have lt: "dlNextEmit d < dlNextRead d" "dlNextEmit d \<notin> set (dlInFlight d)"
      and c: "c = f (dlNextEmit d)" using inv Some by (auto simp: core_inv_def)
    let ?l = "Suc (dlNextEmit d) = dlTotalChunks d"
    have l: "(int (dlNextEmit d) = int (dlTotalChunks d) - 1) = ?l" by auto
    define t where "t = fst (updateProgress (dlTransferId d) (int (dlNextEmit d)) (int (length c)) now (dlTransfers d))"
    have d': "d' = d\<lparr>dlBuffer := map_delete (dlNextEmit d) (dlBuffer d),
        dlBytesTransferred := dlBytesTransferred d + length c, dlTransfers := t, dlEmitting := Some ?l\<rparr>"
      and out': "out' = [OutChunk (dlNextEmit d) c ?l]"
      using e Some by (auto simp: emit_next_def Let_def l t_def)
    have k': "emitted d' = Suc (dlNextEmit d)" by (simp add: d' emitted_def)
    have pr: "present j d' \<longleftrightarrow> j \<noteq> dlNextEmit d \<and> present j d" for j
      by (auto simp: d' present_def map_get_delete)
    have "core_inv f d' (out @ out')"
      unfolding core_inv_def k' pr
      using inv lt c unfolding core_inv_def k
      by (auto simp: d' out' map_get_delete Suc_le_eq nat_less_le split: if_splits)
    moreover have "i < emitted d' \<or> present i d' \<longleftrightarrow> i < emitted d \<or> present i d"
      unfolding k k' pr using p less_Suc_eq [of i "dlNextEmit d"] by auto
    ultimately show ?thesis by (simp add: d')
  qed
  then show "core_inv f d' (out @ out')"
    and "dlEmitting d' = None \<Longrightarrow> \<not> present (dlNextEmit d') d'"
    and "dlNextRead d' = dlNextRead d \<and> dlInFlight d' = dlInFlight d \<and> dlTotalChunks d' = dlTotalChunks d
       \<and> dlNextEmit d' = dlNextEmit d \<and> dlHandle d' = dlHandle d \<and> dlHasError d' = dlHasError d
       \<and> dlOpening d' = dlOpening d \<and> dlTransferId d' = dlTransferId d"
    and "i < emitted d' \<or> present i d' \<longleftrightarrow> i < emitted d \<or> present i d" by blast+
qed

section \<open>The invariant of a download\<close>

definition errored :: "dl_output list \<Rightarrow> bool" where
  "errored out \<longleftrightarrow> (\<exists>m. OutError m \<in> set out)"

lemma errored_simps [simp]:
  "errored [] = False" "errored (a @ b) = (errored a \<or> errored b)"
  "errored (x # out) = ((\<exists>m. x = OutError m) \<or> errored out)"
  by (auto simp: errored_def)

definition live_inv :: "download \<Rightarrow> dl_output list \<Rightarrow> bool" where
  "live_inv d out \<longleftrightarrow>
     (\<forall>i<dlNextRead d. i < emitted d \<or> present i d \<or> i \<in> set (dlInFlight d))
     \<and> (dlEmitting d = None \<longrightarrow> \<not> present (dlNextEmit d) d)
     \<and> (dlInFlight d = [] \<longrightarrow> dlNextRead d = dlTotalChunks d)
     \<and> (dlHandle d \<or> dlNextEmit d = dlTotalChunks d)
     \<and> (dlNextEmit d = dlTotalChunks d \<longrightarrow> 0 < dlTotalChunks d \<longrightarrow> OutResolve \<in> set out)"

definition dl_inv :: "(nat \<Rightarrow> bytes) \<Rightarrow> download \<Rightarrow> dl_output list \<Rightarrow> bool" where
  "dl_inv f d out \<longleftrightarrow> core_inv f d out
     \<and> (dlOpening d \<longrightarrow> dlNextRead d = 0 \<and> dlInFlight d = [] \<and> dlEmitting d = None \<and> \<not> dlHasError d
          \<and> \<not> errored out)
     \<and> (dlHasError d \<longrightarrow> errored out)
     \<and> (errored out \<longrightarrow> dlHasError d \<or> dlInFlight d = [] \<and> dlEmitting d = None)
     \<and> (\<not> errored out \<longrightarrow> \<not> dlOpening d \<longrightarrow> live_inv d out)"

definition pot :: "download \<Rightarrow> nat" where
  "pot d = (if dlOpening d then 1 else 0) + (dlTotalChunks d - dlNextRead d) + length (dlInFlight d)
     + (dlTotalChunks d - dlNextEmit d)"

lemma emit_next_flag: "emit_next now (d\<lparr>dlEmitting := x\<rparr>) = emit_next now d"
  by (auto simp: emit_next_def Let_def split: option.split)

lemma core_frame:
  assumes "core_inv f d out" and "chunks out' = chunks out"
    and "dlBuffer d' = dlBuffer d" "dlNextRead d' = dlNextRead d" "dlNextEmit d' = dlNextEmit d"
    "dlEmitting d' = dlEmitting d" "dlTotalChunks d' = dlTotalChunks d"
    and "distinct (dlInFlight d')" "set (dlInFlight d') \<subseteq> set (dlInFlight d)"
    and "\<not> dlCancelled d'" "dlEntry d' \<noteq> Some True" "dlHasError d' \<longrightarrow> \<not> dlHandle d'"
  shows "core_inv f d' out'"
  using assms unfolding core_inv_def emitted_def present_def by auto

lemma initial_reads_spec:
  "dlHandle d \<Longrightarrow> \<not> dlHasError d \<Longrightarrow> \<not> dlCancelled d \<Longrightarrow> initial_reads n d = (d', out) \<Longrightarrow>
     d' = d\<lparr>dlNextRead := dlNextRead d + n, dlInFlight := dlInFlight d @ [dlNextRead d..<dlNextRead d + n]\<rparr>
     \<and> chunks out = [] \<and> \<not> errored out \<and> OutResolve \<notin> set out"
proof (induction n arbitrary: d d' out)
  case 0
  then show ?case by simp
next
  case (Suc n)
  obtain d1 out1 where r: "readChunk (dlNextRead d) (d\<lparr>dlNextRead := dlNextRead d + 1\<rparr>) = (d1, out1)"
    by fastforce
  obtain d2 out2 where i: "initial_reads n d1 = (d2, out2)" by fastforce
  from r Suc.prems have d1: "d1 = d\<lparr>dlNextRead := dlNextRead d + 1, dlInFlight := dlInFlight d @ [dlNextRead d]\<rparr>"
    and o1: "chunks out1 = []" "\<not> errored out1" "OutResolve \<notin> set out1"
    by (auto simp: readChunk_def Let_def)
  have up: "[dlNextRead d..<dlNextRead d + Suc n] = dlNextRead d # [Suc (dlNextRead d)..<Suc (dlNextRead d) + n]"
    by (simp add: upt_conv_Cons del: upt_Suc)
  have ok: "dlHandle d1" "\<not> dlHasError d1" "\<not> dlCancelled d1" using Suc.prems d1 by auto
  have d': "d' = d2" "out = out1 @ out2" using Suc.prems(4) r i by (auto simp: Let_def)
  from Suc.IH [OF ok i] o1 show ?case
    unfolding up d' by (simp add: d1 del: upt_Suc)
qed

lemma opened_inv:
  assumes inv: "dl_inv f d out" and en: "dlOpening d" and e: "opened d = (d', out')"
  shows "dl_inv f d' (out @ out') \<and> pot d' < pot d"
proof -
  have c: "core_inv f d out" and nr: "dlNextRead d = 0" "dlInFlight d = []" "dlEmitting d = None" "\<not> dlHasError d"
    "\<not> errored out" using inv en by (auto simp: dl_inv_def)
  let ?d1 = "d\<lparr>dlOpening := False, dlHandle := True,
      dlCancelled := (case dlEntry d of Some c \<Rightarrow> c | None \<Rightarrow> dlCancelled d)\<rparr>"
  have nc: "\<not> dlCancelled ?d1" using c by (auto simp: core_inv_def split: option.split)
  let ?n = "min DOWNLOAD_CONCURRENCY (dlTotalChunks d)"
  have "initial_reads ?n ?d1 = (d', out')" using e nc by (simp add: opened_def Let_def)
  from initial_reads_spec [OF _ _ nc this] nr
  have d': "d' = ?d1\<lparr>dlNextRead := ?n, dlInFlight := [0..<?n]\<rparr>" and o': "chunks out' = []" "\<not> errored out'"
    by auto
  have e0: "emitted d = 0" "dlNextEmit d = 0" and np: "\<not> present i d" for i
    using c nr by (auto simp: core_inv_def emitted_def)
  have e1: "emitted d' = 0" and p1: "present i d' = present i d" for i
    using e0 nr by (simp_all add: d' emitted_def present_def)
  have "core_inv f d' (out @ out')"
    using c nr nc o' e0 e1 p1 np unfolding core_inv_def
    by (auto simp: d' present_def split: option.split)
  moreover have "?n = 0 \<longleftrightarrow> dlTotalChunks d = 0" by (auto simp: DOWNLOAD_CONCURRENCY_def)
  then have "live_inv d' (out @ out')"
    using e0 e1 p1 np nr by (auto simp: live_inv_def d')
  moreover have "pot d' < pot d" using en nr e0 by (simp add: pot_def d')
  ultimately show ?thesis using o' nr by (simp add: dl_inv_def d')
qed

lemma core_full:
  assumes c: "core_inv f d out" and e: "emitted d = dlTotalChunks d"
  shows "dlNextRead d = dlTotalChunks d" "\<not> present i d" "dlInFlight d = []"
proof -
  show n: "dlNextRead d = dlTotalChunks d" using c e unfolding core_inv_def by linarith
  have p: "\<forall>i. present i d \<longrightarrow> emitted d \<le> i \<and> i < dlNextRead d \<and> i \<notin> set (dlInFlight d)"
    and fl: "\<forall>i\<in>set (dlInFlight d). emitted d \<le> i \<and> i < dlNextRead d"
    using c unfolding core_inv_def by blast+
  show "\<not> present i d" using p e n by fastforce
  have "i \<notin> set (dlInFlight d)" for i using fl e n by fastforce
  then show "dlInFlight d = []" by (cases "dlInFlight d") auto
qed

lemma completeDownload_frame:
  assumes "completeDownload now d = (d', out)"
  shows "dlNextRead d' = dlNextRead d" "dlInFlight d' = dlInFlight d" "dlTotalChunks d' = dlTotalChunks d"
    "\<not> dlHandle d'" "dlHasError d' = dlHasError d" "dlOpening d' = dlOpening d"
    "dlBuffer d' = dlBuffer d" "dlCancelled d' = dlCancelled d" "dlEntry d' = None"
    "dlNextEmit d' = dlNextEmit d" "chunks out = []" "\<not> errored out"
  using assms unfolding completeDownload_def dl_cleanup_def Let_def
  by (auto split: prod.splits if_splits sum.splits)

lemma chunk_accepted_inv:
  assumes inv: "dl_inv f d out" and en: "dlEmitting d \<noteq> None" and e: "chunk_accepted now d = (d', out')"
  shows "dl_inv f d' (out @ out') \<and> pot d' < pot d"
proof -
  obtain l where l: "dlEmitting d = Some l" using en by blast
  have c: "core_inv f d out" and op: "\<not> dlOpening d" and he: "dlHasError d \<longleftrightarrow> errored out"
    using inv en by (auto simp: dl_inv_def)
  obtain d1 out1 where pr: "emitProgressIfDue now d = (d1, out1)" by fastforce
  have d1: "d1 = d\<lparr>dlLastProgress := dlLastProgress d1\<rparr>" and o1: "chunks out1 = []" "\<not> errored out1"
    using pr by (auto simp: emitProgressIfDue_def Let_def split: if_splits sum.splits)
  define d2 where "d2 = d1\<lparr>dlNextEmit := dlNextEmit d1 + 1, dlEmitting := None\<rparr>"
  have f2: "dlNextRead d2 = dlNextRead d" "dlInFlight d2 = dlInFlight d" "dlTotalChunks d2 = dlTotalChunks d"
    "dlHandle d2 = dlHandle d" "dlHasError d2 = dlHasError d" "dlOpening d2 = dlOpening d"
    "dlBuffer d2 = dlBuffer d" "dlCancelled d2 = dlCancelled d" "dlEntry d2 = dlEntry d"
    "dlNextEmit d2 = Suc (dlNextEmit d)" "dlEmitting d2 = None"
    by (subst d2_def, subst d1, simp)+
  have em: "emitted d2 = emitted d" "emitted d = Suc (dlNextEmit d)" using f2 l by (simp_all add: emitted_def)
  have c2: "core_inv f d2 (out @ out1)"
    using c o1 unfolding core_inv_def em present_def f2 by auto
  have lt: "Suc (dlNextEmit d) \<le> dlTotalChunks d" using c em unfolding core_inv_def by linarith
  show ?thesis
  proof (cases l)
    case False
    obtain d3 out3 where n: "emit_next now (d1\<lparr>dlNextEmit := dlNextEmit d1 + 1\<rparr>) = (d3, out3)" by fastforce
    then have n2: "emit_next now d2 = (d3, out3)"
      unfolding d2_def using emit_next_flag [where d = "d1\<lparr>dlNextEmit := dlNextEmit d1 + 1\<rparr>"] by simp
    have r: "d' = d3" "out' = out1 @ out3" using e l pr n False by (auto simp: chunk_accepted_def Let_def)
    note s = emit_next_core [OF c2 f2(11) n2]
    have "\<not> errored out3" using n2 by (auto simp: emit_next_def Let_def split: option.splits)
    moreover have "live_inv d3 (out @ out1 @ out3)" if "\<not> errored out"
    proof -
      have "live_inv d out" using inv op that by (simp add: dl_inv_def)
      then have cov: "\<forall>i<dlNextRead d. i < emitted d \<or> present i d \<or> i \<in> set (dlInFlight d)"
        and idle: "dlInFlight d = [] \<longrightarrow> dlNextRead d = dlTotalChunks d"
        and h: "dlHandle d \<or> dlNextEmit d = dlTotalChunks d"
        by (auto simp: live_inv_def)
      have p2: "present i d2 = present i d" for i by (simp add: present_def f2)
      have ne: "Suc (dlNextEmit d) \<noteq> dlTotalChunks d"
        using c l False by (auto simp: core_inv_def)
      show ?thesis unfolding live_inv_def
        using cov idle h lt ne s(2) s(3) s(4) em p2 f2 by auto
    qed
    moreover have "pot d3 < pot d" using s(3) f2 lt by (simp add: pot_def)
    ultimately show ?thesis using s(1,3) he op o1 f2 inv l
      by (auto simp: r dl_inv_def)
  next
    case True
    have tot: "Suc (dlNextEmit d) = dlTotalChunks d" using c l True by (auto simp: core_inv_def)
    obtain d3 out3 where cd: "completeDownload now (d1\<lparr>dlNextEmit := dlNextEmit d1 + 1\<rparr>) = (d3, out3)" by fastforce
    note fr = completeDownload_frame [OF cd]
    have f3: "dlNextRead d3 = dlNextRead d" "dlInFlight d3 = dlInFlight d" "dlTotalChunks d3 = dlTotalChunks d"
      "\<not> dlHandle d3" "dlHasError d3 = dlHasError d" "dlOpening d3 = dlOpening d"
      "dlBuffer d3 = dlBuffer d" "dlCancelled d3 = dlCancelled d" "dlEntry d3 = None"
      "dlNextEmit d3 = Suc (dlNextEmit d)" and o3: "chunks out3 = []" "\<not> errored out3"
      using fr f2 by (simp_all add: d2_def)
    have full: "emitted d = dlTotalChunks d" "dlNextRead d = dlTotalChunks d" and np: "\<not> present i d"
      and nf: "dlInFlight d = []" for i
      using core_full [OF c] em(2) tot by auto
    have "map_get (dlBuffer d3) (dlNextEmit d3) = None" using np [of "dlNextEmit d3"] f3 by (simp add: present_def)
    then have r: "d' = d3\<lparr>dlEmitting := None\<rparr>" "out' = out1 @ out3 @ [OutResolve]"
      using e l pr cd True by (auto simp: chunk_accepted_def Let_def)
    have em': "emitted d' = emitted d" using em f3 by (simp add: r emitted_def)
    have p': "\<not> present i d'" for i using np [of i] f3 by (simp add: r present_def)
    have "core_inv f d' (out @ out')"
      using c o1 o3 f3 full nf em' p' np unfolding core_inv_def by (auto simp: r present_def)
    moreover have "live_inv d' (out @ out')"
      using full nf em' p' tot f3 by (auto simp: live_inv_def r)
    moreover have "pot d' < pot d" using f3 tot by (simp add: pot_def r)
    ultimately show ?thesis using he op o1 o3 f3 nf inv
      by (auto simp: dl_inv_def r)
  qed
qed

lemma buffer_read_core:
  assumes c: "core_inv f d out" and i: "i \<in> set (dlInFlight d)"
  shows "core_inv f (d\<lparr>dlInFlight := remove1 i (dlInFlight d), dlBuffer := map_set i (f i) (dlBuffer d)\<rparr>) out"
    and "emitted d < dlTotalChunks d"
proof -
  have "i < dlNextRead d" "emitted d \<le> i" "distinct (dlInFlight d)" "dlNextRead d \<le> dlTotalChunks d"
    using c i unfolding core_inv_def by blast+
  then show "core_inv f (d\<lparr>dlInFlight := remove1 i (dlInFlight d), dlBuffer := map_set i (f i) (dlBuffer d)\<rparr>) out"
    and "emitted d < dlTotalChunks d"
    using c i unfolding core_inv_def emitted_def present_def
    by (auto simp: map_get_set split: if_splits)
qed

lemma emit_next_not_errored: "emit_next now d = (d', out') \<Longrightarrow> \<not> errored out'"
  by (auto simp: emit_next_def Let_def split: option.splits)

lemma emitBufferedChunks_spec:
  assumes inv: "core_inv f d out" and e: "emitBufferedChunks now d = (d', out')"
  shows "core_inv f d' (out @ out')"
    and "dlEmitting d' = None \<Longrightarrow> \<not> present (dlNextEmit d') d'"
    and "dlNextRead d' = dlNextRead d \<and> dlInFlight d' = dlInFlight d \<and> dlTotalChunks d' = dlTotalChunks d
       \<and> dlNextEmit d' = dlNextEmit d \<and> dlHandle d' = dlHandle d \<and> dlHasError d' = dlHasError d
       \<and> dlOpening d' = dlOpening d \<and> dlTransferId d' = dlTransferId d"
    and "i < emitted d' \<or> present i d' \<longleftrightarrow> i < emitted d \<or> present i d"
    and "\<not> errored out'"
proof -
  have "core_inv f d' (out @ out') \<and> (dlEmitting d' = None \<longrightarrow> \<not> present (dlNextEmit d') d')
    \<and> (dlNextRead d' = dlNextRead d \<and> dlInFlight d' = dlInFlight d \<and> dlTotalChunks d' = dlTotalChunks d
       \<and> dlNextEmit d' = dlNextEmit d \<and> dlHandle d' = dlHandle d \<and> dlHasError d' = dlHasError d
       \<and> dlOpening d' = dlOpening d \<and> dlTransferId d' = dlTransferId d)
    \<and> (i < emitted d' \<or> present i d' \<longleftrightarrow> i < emitted d \<or> present i d) \<and> \<not> errored out'"
  proof (cases "dlEmitting d = None")
    case True
    then have n: "emit_next now d = (d', out')" using e by (simp add: emitBufferedChunks_def)
    show ?thesis using emit_next_core [OF inv True n] emit_next_not_errored [OF n] by blast
  next
    case False
    then have "d' = d" "out' = []" using e by (simp_all add: emitBufferedChunks_def)
    then show ?thesis using inv False by auto
  qed
  then show "core_inv f d' (out @ out')"
    and "dlEmitting d' = None \<Longrightarrow> \<not> present (dlNextEmit d') d'"
    and "dlNextRead d' = dlNextRead d \<and> dlInFlight d' = dlInFlight d \<and> dlTotalChunks d' = dlTotalChunks d
       \<and> dlNextEmit d' = dlNextEmit d \<and> dlHandle d' = dlHandle d \<and> dlHasError d' = dlHasError d
       \<and> dlOpening d' = dlOpening d \<and> dlTransferId d' = dlTransferId d"
    and "i < emitted d' \<or> present i d' \<longleftrightarrow> i < emitted d \<or> present i d"
    and "\<not> errored out'" by blast+
qed

lemma next_read_core:
  assumes c: "core_inv f d out" and n: "dlNextRead d < dlTotalChunks d"
    and h: "dlHandle d"
    and r: "readChunk (dlNextRead d) (d\<lparr>dlNextRead := dlNextRead d + 1\<rparr>) = (d', out')"
  shows "core_inv f d' (out @ out')"
    and "d' = d\<lparr>dlNextRead := dlNextRead d + 1, dlInFlight := dlInFlight d @ [dlNextRead d]\<rparr>"
    and "\<not> errored out'"
proof -
  have ok: "\<not> dlHasError d" "\<not> dlCancelled d" using c h unfolding core_inv_def by auto
  show d': "d' = d\<lparr>dlNextRead := dlNextRead d + 1, dlInFlight := dlInFlight d @ [dlNextRead d]\<rparr>"
    and "\<not> errored out'"
    using r ok h by (auto simp: readChunk_def Let_def)
  have o': "chunks out' = []" using r ok h by (auto simp: readChunk_def Let_def)
  have e: "emitted d' = emitted d" "\<And>i. present i d' = present i d"
    by (simp_all add: d' emitted_def present_def)
  have "emitted d \<le> dlNextRead d" and lt: "\<forall>i. present i d \<longrightarrow> i < dlNextRead d"
    "\<forall>i\<in>set (dlInFlight d). i < dlNextRead d"
    using c unfolding core_inv_def by blast+
  then show "core_inv f d' (out @ out')"
    using c n o' unfolding core_inv_def e by (auto simp: d')
qed

lemma read_done_inv:
  assumes inv: "dl_inv f d out" and i: "i \<in> set (dlInFlight d)" and e: "read_done i (f i) now d = (d', out')"
  shows "dl_inv f d' (out @ out') \<and> pot d' < pot d"
proof -
  have c: "core_inv f d out" and op: "\<not> dlOpening d" and len: "0 < length (dlInFlight d)"
    and he: "dlHasError d \<longleftrightarrow> errored out" using inv i by (auto simp: dl_inv_def)
  have nc: "\<not> dlCancelled d" using c by (simp add: core_inv_def)
  show ?thesis
  proof (cases "dlHasError d")
    case True
    then have d': "d' = d\<lparr>dlInFlight := remove1 i (dlInFlight d)\<rparr>" and o': "out' = []"
      using e by (auto simp: read_done_def)
    have "core_inv f d' (out @ out')"
      by (rule core_frame [OF c]) (use c set_remove1_subset [of i "dlInFlight d"] in \<open>auto simp: d' o' core_inv_def\<close>)
    then show ?thesis using True he op len i
      by (auto simp: dl_inv_def d' o' pot_def length_remove1)
  next
    case False
    let ?b = "d\<lparr>dlInFlight := remove1 i (dlInFlight d), dlBuffer := map_set i (f i) (dlBuffer d)\<rparr>"
    have ne: "\<not> errored out" using False he by simp
    have live: "live_inv d out" using inv op ne by (simp add: dl_inv_def)
    have lt: "emitted d < dlTotalChunks d" using buffer_read_core(2) [OF c i] .
    then have lt1: "dlNextEmit d < dlTotalChunks d" by (simp add: emitted_def split: if_splits)
    have h: "dlHandle d" using live lt1 by (auto simp: live_inv_def)
    obtain d1 out1 where b: "emitBufferedChunks now ?b = (d1, out1)" by fastforce
    note s = emitBufferedChunks_spec [OF buffer_read_core(1) [OF c i] b]
    have cov: "\<forall>j<dlNextRead d. j < emitted d1 \<or> present j d1 \<or> j \<in> set (dlInFlight d1)"
    proof (intro allI impI)
      fix j assume "j < dlNextRead d"
      then have "j < emitted d \<or> present j d \<or> j \<in> set (dlInFlight d)" using live by (simp add: live_inv_def)
      then have "(j < emitted ?b \<or> present j ?b) \<or> j \<in> set (remove1 i (dlInFlight d))"
        by (cases "j = i") (auto simp: emitted_def present_def map_get_set in_set_remove1)
      then show "j < emitted d1 \<or> present j d1 \<or> j \<in> set (dlInFlight d1)"
        using s(3) s(4) [of j] by auto
    qed
    have lr: "length (dlInFlight d1) = length (dlInFlight d) - 1" using s(3) i by (simp add: length_remove1)
    show ?thesis
    proof (cases "dlNextRead d1 < dlTotalChunks d1")
      case True
      obtain d2 out2 where r: "readChunk (dlNextRead d1) (d1\<lparr>dlNextRead := dlNextRead d1 + 1\<rparr>) = (d2, out2)" by fastforce
      have h1: "dlHandle d1" using s(3) h by simp
      note t = next_read_core [OF s(1) True h1 r]
      have d': "d' = d2" "out' = out1 @ out2"
        using e b True r False nc by (auto simp: read_done_def Let_def)
      have em: "emitted d2 = emitted d1" "\<And>j. present j d2 = present j d1"
        by (simp_all add: t(2) emitted_def present_def)
      have "live_inv d2 (out @ out1 @ out2)"
        unfolding live_inv_def em using cov s(2) s(3) h lt1 by (auto simp: t(2) less_Suc_eq)
      moreover have "pot d2 < pot d" using s(3) lr len True by (simp add: t(2) pot_def)
      ultimately show ?thesis using s(3) s(5) t(1) t(3) ne False op by (simp add: dl_inv_def d' t(2))
    next
      case nr: False
      have d': "d' = d1" "out' = out1"
        using e b nr False nc by (auto simp: read_done_def Let_def)
      have "dlNextRead d1 \<le> dlTotalChunks d1" using s(1) unfolding core_inv_def by blast
      then have "live_inv d1 (out @ out1)"
        unfolding live_inv_def using cov s(2) s(3) h lt1 nr by auto
      moreover have "pot d1 < pot d" using s(3) lr len by (simp add: pot_def)
      ultimately show ?thesis using s(1) s(3) s(5) ne False op by (simp add: dl_inv_def d')
    qed
  qed
qed

lemma read_failed_inv:
  assumes inv: "dl_inv f d out" and i: "i \<in> set (dlInFlight d)" and e: "read_failed i msg d = (d', out')"
  shows "dl_inv f d' (out @ out') \<and> pot d' < pot d"
proof -
  have c: "core_inv f d out" and op: "\<not> dlOpening d" and len: "0 < length (dlInFlight d)"
    and he: "dlHasError d \<longleftrightarrow> errored out" using inv i by (auto simp: dl_inv_def)
  have nc: "\<not> dlCancelled d" using c by (simp add: core_inv_def)
  have sub: "distinct (remove1 i (dlInFlight d))" "set (remove1 i (dlInFlight d)) \<subseteq> set (dlInFlight d)"
    using c set_remove1_subset [of i "dlInFlight d"] by (auto simp: core_inv_def)
  show ?thesis
  proof (cases "dlHasError d")
    case True
    then have d': "d' = d\<lparr>dlInFlight := remove1 i (dlInFlight d)\<rparr>" and o': "out' = []"
      using e by (auto simp: read_failed_def)
    have "core_inv f d' (out @ out')"
      by (rule core_frame [OF c]) (use c sub in \<open>auto simp: d' o' core_inv_def\<close>)
    then show ?thesis using True he op len i
      by (auto simp: dl_inv_def d' o' pot_def length_remove1)
  next
    case False
    then have f: "dlInFlight d' = remove1 i (dlInFlight d)" "dlBuffer d' = dlBuffer d"
      "dlNextRead d' = dlNextRead d" "dlNextEmit d' = dlNextEmit d" "dlEmitting d' = dlEmitting d"
      "dlTotalChunks d' = dlTotalChunks d" "dlCancelled d' = dlCancelled d" "dlEntry d' = None"
      "dlHasError d'" "\<not> dlHandle d'" "dlOpening d' = dlOpening d" "chunks out' = []" "errored out'"
      using e nc by (auto simp: read_failed_def dl_cleanup_def Let_def split: if_splits)
    have "core_inv f d' (out @ out')"
      by (rule core_frame [OF c]) (use nc sub in \<open>simp_all add: f\<close>)
    then show ?thesis using op len i
      by (auto simp: dl_inv_def f pot_def length_remove1)
  qed
qed

lemma open_failed_inv:
  assumes inv: "dl_inv f d out" and en: "dlOpening d" and e: "open_failed msg d = (d', out')"
  shows "dl_inv f d' (out @ out') \<and> pot d' < pot d"
proof -
  have c: "core_inv f d out" and op: "dlNextRead d = 0" "dlInFlight d = []" "dlEmitting d = None" "\<not> dlHasError d"
    using inv en by (auto simp: dl_inv_def)
  have d': "d' = d\<lparr>dlOpening := False, dlTransfers := fst (cancelTransfer (dlTransferId d) (dlTransfers d))\<rparr>"
    and o': "out' = [OutError msg, OutResolve]" using e by (simp_all add: open_failed_def)
  have "core_inv f d' (out @ out')"
    by (rule core_frame [OF c]) (use c in \<open>simp_all add: d' o' core_inv_def\<close>)
  then show ?thesis using op en by (simp add: dl_inv_def d' o' pot_def)
qed

lemma cancelDownload_inv:
  assumes inv: "dl_inv f d out"
  shows "dl_inv f (cancelDownload d) out \<and> pot (cancelDownload d) = pot d"
proof -
  have c: "core_inv f d out" using inv by (simp add: dl_inv_def)
  let ?d = "cancelDownload d"
  have f: "dlInFlight ?d = dlInFlight d" "dlBuffer ?d = dlBuffer d"
      "dlNextRead ?d = dlNextRead d" "dlNextEmit ?d = dlNextEmit d" "dlEmitting ?d = dlEmitting d"
      "dlTotalChunks ?d = dlTotalChunks d" "dlCancelled ?d = dlCancelled d" "dlEntry ?d = None"
      "dlHasError ?d = dlHasError d" "dlHandle ?d = dlHandle d" "dlOpening ?d = dlOpening d"
    by (simp_all add: cancelDownload_def Let_def split: option.split)
  have "core_inv f ?d out"
    by (rule core_frame [OF c]) (use c in \<open>simp_all add: f core_inv_def\<close>)
  moreover have "live_inv ?d out = live_inv d out"
    by (simp add: live_inv_def f emitted_def present_def)
  ultimately show ?thesis using inv by (simp add: dl_inv_def f pot_def)
qed

section \<open>Runs\<close>

text \<open>The remote file answers the read of chunk \<open>i\<close> with \<open>f i\<close>, and the client accepts what it is
  sent.\<close>

fun answers :: "(nat \<Rightarrow> bytes) \<Rightarrow> int \<times> dl_event \<Rightarrow> bool" where
  "answers f (now, EReadDone i data) = (data = f i)"
| "answers f (now, EChunkRejected) = False"
| "answers f (now, EOpened) = True"
| "answers f (now, EOpenFailed m) = True"
| "answers f (now, EReadFailed i m) = True"
| "answers f (now, EChunkAccepted) = True"
| "answers f (now, ECancel) = True"

definition cost :: "int \<times> dl_event \<Rightarrow> nat" where
  "cost te = (case snd te of ECancel \<Rightarrow> 0 | _ \<Rightarrow> 1)"

lemma dl_step_inv:
  assumes inv: "dl_inv f d out" and en: "dl_enabled e d" and a: "answers f (now, e)"
    and s: "dl_step (now, e) d = (d', out')"
  shows "dl_inv f d' (out @ out') \<and> pot d' + cost (now, e) \<le> pot d"
proof (cases e)
  case EOpened
  with opened_inv [OF inv] en s show ?thesis by (simp add: cost_def Suc_le_eq)
next
  case (EOpenFailed m)
  with open_failed_inv [OF inv] en s show ?thesis by (simp add: cost_def Suc_le_eq)
next
  case (EReadDone i data)
  with read_done_inv [OF inv, of i] en s a show ?thesis by (simp add: cost_def Suc_le_eq)
next
  case (EReadFailed i m)
  with read_failed_inv [OF inv, of i] en s show ?thesis by (simp add: cost_def Suc_le_eq)
next
  case EChunkAccepted
  with chunk_accepted_inv [OF inv] en s show ?thesis by (simp add: cost_def Suc_le_eq)
next
  case EChunkRejected
  with a show ?thesis by simp
next
  case ECancel
  with cancelDownload_inv [OF inv] s show ?thesis by (auto simp: cost_def)
qed

lemma emitted_chunks: "dl_inv f d out \<Longrightarrow> emitted d = length (chunks out) \<and> emitted d \<le> dlTotalChunks d"
  unfolding dl_inv_def core_inv_def by auto

subsection \<open>The number of chunks is fixed\<close>

lemma emit_next_size: "dlTotalChunks (fst (emit_next now d)) = dlTotalChunks d"
  by (auto simp: emit_next_def Let_def split: option.split)

lemma emitBufferedChunks_size: "dlTotalChunks (fst (emitBufferedChunks now d)) = dlTotalChunks d"
  by (simp add: emitBufferedChunks_def emit_next_size)

lemma readChunk_size: "dlTotalChunks (fst (readChunk i d)) = dlTotalChunks d"
  by (simp add: readChunk_def Let_def)

lemma initial_reads_size: "dlTotalChunks (fst (initial_reads n d)) = dlTotalChunks d"
proof (induction n arbitrary: d)
  case (Suc n)
  show ?case using Suc.IH readChunk_size [of "dlNextRead d" "d\<lparr>dlNextRead := dlNextRead d + 1\<rparr>"]
    by (simp add: Let_def split: prod.split) (metis fst_conv)
qed simp

lemma cleanup_size: "dlTotalChunks (fst (dl_cleanup d)) = dlTotalChunks d"
  by (simp add: dl_cleanup_def Let_def)

lemma progress_size: "dlTotalChunks (fst (emitProgressIfDue now d)) = dlTotalChunks d"
  by (simp add: emitProgressIfDue_def Let_def split: sum.split)

lemmas size_simps = emit_next_size emitBufferedChunks_size readChunk_size initial_reads_size cleanup_size
  progress_size

lemma chunk_accepted_size: "dlTotalChunks (fst (chunk_accepted now d)) = dlTotalChunks d"
proof -
  obtain d1 out1 where p: "emitProgressIfDue now d = (d1, out1)" by fastforce
  obtain d3 out3 where c: "completeDownload now (d1\<lparr>dlNextEmit := dlNextEmit d1 + 1\<rparr>) = (d3, out3)" by fastforce
  have d1: "dlTotalChunks d1 = dlTotalChunks d" using progress_size [of now d] p by simp
  have d3: "dlTotalChunks d3 = dlTotalChunks d" using completeDownload_frame(3) [OF c] d1 by simp
  show ?thesis
    using emit_next_size [of now "d1\<lparr>dlNextEmit := dlNextEmit d1 + 1\<rparr>"]
      emitBufferedChunks_size [of now "d3\<lparr>dlEmitting := None\<rparr>"] p c d1 d3
    by (auto simp: chunk_accepted_def Let_def split: option.split prod.split)
qed

lemma read_done_size: "dlTotalChunks (fst (read_done i data now d)) = dlTotalChunks d"
proof -
  let ?b = "d\<lparr>dlInFlight := remove1 i (dlInFlight d), dlBuffer := map_set i data (dlBuffer d)\<rparr>"
  obtain d1 out1 where b: "emitBufferedChunks now ?b = (d1, out1)" by fastforce
  have "dlTotalChunks d1 = dlTotalChunks d" using emitBufferedChunks_size [of now ?b] b by simp
  then show ?thesis
    using readChunk_size [of "dlNextRead d1" "d1\<lparr>dlNextRead := dlNextRead d1 + 1\<rparr>"] b
    by (auto simp: read_done_def Let_def split: prod.split)
qed

lemma opened_size: "dlTotalChunks (fst (opened d)) = dlTotalChunks d"
proof -
  have fst_case: "fst (case p of (a, b) \<Rightarrow> (a, g b)) = fst p" for p :: "download \<times> 'a" and g :: "'a \<Rightarrow> 'b"
    by (cases p) simp
  show ?thesis by (simp add: opened_def Let_def fst_case initial_reads_size cleanup_size)
qed

lemma dl_step_size: "dl_step te d = (d', out') \<Longrightarrow> dlTotalChunks d' = dlTotalChunks d"
proof (induction te d rule: dl_step.induct)
  case (1 now d)
  then show ?case using opened_size [of d] by simp
next
  case (3 now i data d)
  then show ?case using read_done_size [of i data now d] by simp
next
  case (4 now i msg d)
  then show ?case by (auto simp: read_failed_def dl_cleanup_def Let_def split: if_splits)
next
  case (5 now d)
  then show ?case using chunk_accepted_size [of now d] by simp
next
  case (6 now d)
  then show ?case using emitBufferedChunks_size [of now "d\<lparr>dlEmitting := None\<rparr>"]
    by (auto simp: chunk_rejected_def Let_def split: option.splits if_splits)
qed (auto simp: open_failed_def cancelDownload_def Let_def split: option.split)

subsection \<open>Resolution\<close>

lemma emit_next_unresolved: "emit_next now d = (d', out') \<Longrightarrow> OutResolve \<notin> set out'"
  by (auto simp: emit_next_def Let_def split: option.splits)

lemma readChunk_unresolved: "readChunk i d = (d', out') \<Longrightarrow> OutResolve \<notin> set out'"
  by (auto simp: readChunk_def Let_def split: if_splits)

lemma read_done_unresolved:
  assumes "read_done i data now d = (d', out')"
  shows "OutResolve \<notin> set out'"
proof -
  let ?b = "d\<lparr>dlInFlight := remove1 i (dlInFlight d), dlBuffer := map_set i data (dlBuffer d)\<rparr>"
  obtain d1 out1 where b: "emitBufferedChunks now ?b = (d1, out1)" by fastforce
  then have "OutResolve \<notin> set out1"
    using emit_next_unresolved by (auto simp: emitBufferedChunks_def split: if_splits)
  with assms b readChunk_unresolved show ?thesis
    by (auto simp: read_done_def Let_def split: if_splits prod.splits)
qed

lemma progress_unresolved: "emitProgressIfDue now d = (d1, out1) \<Longrightarrow> OutResolve \<notin> set out1"
  by (auto simp: emitProgressIfDue_def Let_def split: if_splits sum.splits)

lemma resolve_means_done:
  assumes inv: "dl_inv f d out" and en: "dl_enabled e d" and a: "answers f (now, e)"
    and s: "dl_step (now, e) d = (d', out')" and r: "OutResolve \<in> set out'"
  shows "errored out' \<or> emitted d = dlTotalChunks d"
proof (cases e)
  case EOpened
  have c: "core_inv f d out" and he: "\<not> dlHasError d" using inv en EOpened by (auto simp: dl_inv_def)
  let ?d1 = "d\<lparr>dlOpening := False, dlHandle := True,
      dlCancelled := (case dlEntry d of Some c \<Rightarrow> c | None \<Rightarrow> dlCancelled d)\<rparr>"
  have nc: "\<not> dlCancelled ?d1" using c by (auto simp: core_inv_def split: option.split)
  have "initial_reads (min DOWNLOAD_CONCURRENCY (dlTotalChunks d)) ?d1 = (d', out')"
    using s EOpened nc by (simp add: opened_def Let_def)
  from initial_reads_spec [OF _ _ nc this] he r show ?thesis by simp
next
  case (EOpenFailed m)
  with s show ?thesis by (auto simp: open_failed_def)
next
  case (EReadDone i data)
  with s read_done_unresolved r show ?thesis by fastforce
next
  case (EReadFailed i m)
  with s r show ?thesis by (auto simp: read_failed_def Let_def split: if_splits prod.splits)
next
  case EChunkAccepted
  obtain l where l: "dlEmitting d = Some l" using en EChunkAccepted by auto
  obtain d1 out1 where p: "emitProgressIfDue now d = (d1, out1)" by fastforce
  show ?thesis
  proof (cases l)
    case True
    then show ?thesis using inv l by (auto simp: dl_inv_def core_inv_def emitted_def)
  next
    case False
    obtain d3 out3 where n: "emit_next now (d1\<lparr>dlNextEmit := dlNextEmit d1 + 1\<rparr>) = (d3, out3)" by fastforce
    have "out' = out1 @ out3" using s EChunkAccepted l p n False by (auto simp: chunk_accepted_def Let_def)
    then show ?thesis using r progress_unresolved [OF p] emit_next_unresolved [OF n] by simp
  qed
next
  case EChunkRejected
  with a show ?thesis by simp
next
  case ECancel
  with s r show ?thesis by simp
qed

lemma dl_run_inv:
  assumes "dl_run d es d' out" and "dl_inv f d []" and "list_all (answers f) es"
  shows "dl_inv f d' out \<and> pot d' + sum_list (map cost es) \<le> pot d \<and> dlTotalChunks d' = dlTotalChunks d
    \<and> (OutResolve \<in> set out \<longrightarrow> errored out \<or> emitted d' = dlTotalChunks d')"
  using assms
proof (induction rule: dl_run.induct)
  case (dl_start d)
  then show ?case by simp
next
  case (dl_event d es d1 out1 e now d2 out2)
  then have inv: "dl_inv f d1 out1" and a: "answers f (now, e)" by simp_all
  note st = dl_step_inv [OF inv dl_event.hyps(2) a dl_event.hyps(3)]
  have sz: "dlTotalChunks d2 = dlTotalChunks d1" using dl_step_size [OF dl_event.hyps(3)] .
  have e12: "emitted d1 \<le> emitted d2" "emitted d2 \<le> dlTotalChunks d2"
    using emitted_chunks [OF inv] emitted_chunks [OF conjunct1 [OF st]] by auto
  have "OutResolve \<in> set out2 \<Longrightarrow> errored out2 \<or> emitted d1 = dlTotalChunks d1"
    using resolve_means_done [OF inv dl_event.hyps(2) a dl_event.hyps(3)] .
  with dl_event st sz e12 show ?case by fastforce
qed

lemma start_inv: "dl_inv f (start_stream tid len cs now m) []"
  by (simp add: dl_inv_def core_inv_def start_stream_def emitted_def present_def)

lemma start_pot: "pot (start_stream tid len cs now m) = 2 * ceil_nat len cs + 1"
  by (simp add: pot_def start_stream_def)

lemma start_total: "dlTotalChunks (start_stream tid len cs now m) = ceil_nat len cs"
  by (simp add: start_stream_def)

definition file_chunk :: "bytes \<Rightarrow> nat \<Rightarrow> nat \<Rightarrow> bytes" where
  "file_chunk file cs i = take cs (drop (i * cs) file)"

lemma concat_file_chunks: "concat (map (file_chunk file cs) [0..<k]) = take (k * cs) file"
proof (induction k)
  case (Suc k)
  have "concat (map (file_chunk file cs) [0..<Suc k]) = take (k * cs) file @ file_chunk file cs k"
    by (simp add: Suc.IH)
  also have "\<dots> = take (k * cs + cs) file" by (simp add: take_add file_chunk_def)
  finally show ?case by (simp add: add.commute)
qed simp

lemma ceil_nat_mult: "0 < b \<Longrightarrow> a \<le> ceil_nat a b * b"
proof -
  assume b: "0 < b"
  have "a + b - 1 = ceil_nat a b * b + (a + b - 1) mod b" by (simp add: ceil_nat_def)
  moreover have "(a + b - 1) mod b < b" using b by simp
  ultimately show ?thesis using b by linarith
qed

lemma all_file_chunks:
  "0 < cs \<Longrightarrow> concat (map (file_chunk file cs) [0..<ceil_nat (length file) cs]) = file"
  using ceil_nat_mult [of cs "length file"] by (simp add: concat_file_chunks)

subsection \<open>What is asked of the server\<close>

text \<open>The reads a step asks for: chunk \<open>i\<close> from its offset, as many bytes as the chunk has.\<close>

definition asks :: "download \<Rightarrow> download \<times> dl_output list \<Rightarrow> bool" where
  "asks d r \<longleftrightarrow> dlChunkSize (fst r) = dlChunkSize d \<and> dlFileSize (fst r) = dlFileSize d
     \<and> (\<forall>i off n. OutRead i off n \<in> set (snd r) \<longrightarrow>
          off = i * dlChunkSize d \<and> n = min (dlChunkSize d) (dlFileSize d - off))"

lemma asks_append: "asks d (d1, out1) \<Longrightarrow> asks d1 (d2, out2) \<Longrightarrow> asks d (d2, out1 @ out2)"
  by (auto simp: asks_def)

lemma asks_same: "dlChunkSize d' = dlChunkSize d \<Longrightarrow> dlFileSize d' = dlFileSize d \<Longrightarrow> asks d' r \<Longrightarrow> asks d r"
  by (simp add: asks_def)

lemma readChunk_asks: "asks d (readChunk i d)"
  by (simp add: asks_def readChunk_def Let_def)

lemma emit_next_asks: "asks d (emit_next now d)"
  by (simp add: asks_def emit_next_def Let_def split: option.split)

lemma emitBuffered_asks: "asks d (emitBufferedChunks now d)"
  using emit_next_asks by (simp add: emitBufferedChunks_def asks_def)

lemma cleanup_asks: "asks d (dl_cleanup d)"
  by (simp add: asks_def dl_cleanup_def Let_def)

lemma progress_asks: "asks d (emitProgressIfDue now d)"
  by (auto simp: asks_def emitProgressIfDue_def Let_def split: sum.split)

lemma complete_asks: "asks d (completeDownload now d)"
  using cleanup_asks [of d] by (auto simp: asks_def completeDownload_def Let_def split: prod.split sum.split)

lemma initial_reads_asks: "asks d (initial_reads n d)"
proof (induction n arbitrary: d)
  case 0
  then show ?case by (simp add: asks_def)
next
  case (Suc n)
  obtain d1 out1 where r: "readChunk (dlNextRead d) (d\<lparr>dlNextRead := dlNextRead d + 1\<rparr>) = (d1, out1)" by fastforce
  obtain d2 out2 where i: "initial_reads n d1 = (d2, out2)" by fastforce
  have "asks d (d1, out1)"
    using readChunk_asks [of "d\<lparr>dlNextRead := dlNextRead d + 1\<rparr>" "dlNextRead d"] r by (auto intro: asks_same [rotated 2])
  from asks_append [OF this Suc.IH [of d1, unfolded i]] show ?case
    using r i by (simp add: Let_def)
qed

lemma opened_asks: "asks d (opened d)"
proof -
  let ?d1 = "d\<lparr>dlOpening := False, dlHandle := True,
      dlCancelled := (case dlEntry d of Some c \<Rightarrow> c | None \<Rightarrow> dlCancelled d)\<rparr>"
  have "asks d (initial_reads n ?d1)" for n by (rule asks_same [OF _ _ initial_reads_asks]) simp_all
  moreover have "asks d (dl_cleanup ?d1)" by (rule asks_same [OF _ _ cleanup_asks]) simp_all
  ultimately show ?thesis by (auto simp: opened_def Let_def asks_def split: prod.split)
qed

lemma read_done_asks: "asks d (read_done i data now d)"
proof -
  let ?b = "d\<lparr>dlInFlight := remove1 i (dlInFlight d), dlBuffer := map_set i data (dlBuffer d)\<rparr>"
  obtain d1 out1 where b: "emitBufferedChunks now ?b = (d1, out1)" by fastforce
  have one: "asks d (d1, out1)" by (rule asks_same [OF _ _ emitBuffered_asks [of ?b now, unfolded b]]) simp_all
  obtain d2 out2 where r: "readChunk (dlNextRead d1) (d1\<lparr>dlNextRead := dlNextRead d1 + 1\<rparr>) = (d2, out2)" by fastforce
  have "asks d1 (d2, out2)"
    by (rule asks_same [OF _ _ readChunk_asks [of "d1\<lparr>dlNextRead := dlNextRead d1 + 1\<rparr>" "dlNextRead d1", unfolded r]]) simp_all
  from asks_append [OF one this] one b r show ?thesis
    by (auto simp: read_done_def Let_def asks_def [of _ "(_, [])"])
qed

lemma chunk_accepted_asks: "asks d (chunk_accepted now d)"
proof (cases "dlEmitting d")
  case None
  then show ?thesis by (simp add: chunk_accepted_def asks_def)
next
  case (Some isLast)
  obtain d1 out1 where p: "emitProgressIfDue now d = (d1, out1)" by fastforce
  let ?d2 = "d1\<lparr>dlNextEmit := dlNextEmit d1 + 1\<rparr>"
  have one: "asks d (d1, out1)" using progress_asks [of d now] p by simp
  obtain d3 out3 where c: "completeDownload now ?d2 = (d3, out3)" by fastforce
  obtain d4 out4 where n: "emit_next now ?d2 = (d4, out4)" by fastforce
  obtain d5 out5 where e: "emitBufferedChunks now (d3\<lparr>dlEmitting := None\<rparr>) = (d5, out5)" by fastforce
  have "asks d1 (d3, out3)" by (rule asks_same [OF _ _ complete_asks [of ?d2 now, unfolded c]]) simp_all
  moreover have "asks d1 (d4, out4)" by (rule asks_same [OF _ _ emit_next_asks [of ?d2 now, unfolded n]]) simp_all
  moreover have "asks d3 (d5, out5)"
    by (rule asks_same [OF _ _ emitBuffered_asks [of "d3\<lparr>dlEmitting := None\<rparr>" now, unfolded e]]) simp_all
  ultimately show ?thesis
    using one Some p c n e by (auto simp: chunk_accepted_def Let_def asks_def)
qed

lemma dl_step_asks: "asks d (dl_step te d)"
proof (induction te d rule: dl_step.induct)
  case (4 now i msg d)
  have "asks d (dl_cleanup (d\<lparr>dlInFlight := remove1 i (dlInFlight d), dlHasError := True\<rparr>))"
    by (rule asks_same [OF _ _ cleanup_asks]) simp_all
  then show ?case by (auto simp: read_failed_def Let_def asks_def split: prod.split)
next
  case (6 now d)
  have "asks d (emitBufferedChunks now (d\<lparr>dlEmitting := None\<rparr>))" by (rule asks_same [OF _ _ emitBuffered_asks]) simp_all
  then show ?case by (auto simp: chunk_rejected_def Let_def asks_def split: option.split)
qed (use opened_asks read_done_asks chunk_accepted_asks in
  \<open>auto simp: open_failed_def cancelDownload_def Let_def asks_def split: option.split\<close>)

text \<open>The server answers a read that was asked for with the bytes of the file at the offset and of
  the length that were asked for, and the client accepts every chunk.\<close>

fun served :: "bytes \<Rightarrow> dl_output list \<Rightarrow> dl_event \<Rightarrow> bool" where
  "served file out (EReadDone i data) =
     list_ex (\<lambda>x. case x of OutRead j off n \<Rightarrow> j = i \<and> data = take n (drop off file) | _ \<Rightarrow> False) out"
| "served file out EChunkRejected = False"
| "served file out _ = True"

inductive served_run :: "bytes \<Rightarrow> download \<Rightarrow> (int \<times> dl_event) list \<Rightarrow> download \<Rightarrow> dl_output list \<Rightarrow> bool" where
  served_start: "served_run file d [] d []"
| served_event: "served_run file d es d1 out1 \<Longrightarrow> dl_enabled e d1 \<Longrightarrow> served file out1 e \<Longrightarrow>
     dl_step (now, e) d1 = (d2, out2) \<Longrightarrow> served_run file d (es @ [(now, e)]) d2 (out1 @ out2)"

lemma served_answers:
  assumes a: "asks d (d1, out)" and len: "dlFileSize d = length file" and s: "served file out e"
  shows "answers (file_chunk file (dlChunkSize d)) (now, e)"
proof (cases e)
  case (EReadDone i data)
  then obtain x where x: "x \<in> set out"
      "case x of OutRead j off n \<Rightarrow> j = i \<and> data = take n (drop off file) | _ \<Rightarrow> False"
    using s unfolding EReadDone served.simps list_ex_iff by blast
  then obtain off n where "OutRead i off n \<in> set out" and "data = take n (drop off file)"
    by (cases x rule: dl_output.exhaust) auto
  moreover from this a len have "off = i * dlChunkSize d" "n = min (dlChunkSize d) (length file - off)"
    by (simp_all add: asks_def)
  ultimately show ?thesis by (simp add: EReadDone file_chunk_def min_def)
qed (use s in simp_all)

lemma served_run_answers:
  assumes "served_run file d es d' out" and "dlFileSize d = length file"
  shows "dl_run d es d' out \<and> list_all (answers (file_chunk file (dlChunkSize d))) es \<and> asks d (d', out)"
  using assms
proof (induction rule: served_run.induct)
  case (served_start f d)
  then show ?case by (simp add: dl_start asks_def)
next
  case (served_event f d es d1 out1 e now d2 out2)
  then have run: "dl_run d es d1 out1" and ans: "list_all (answers (file_chunk f (dlChunkSize d))) es"
    and a: "asks d (d1, out1)" by simp_all
  have "asks d1 (d2, out2)" using dl_step_asks [of d1 "(now, e)"] served_event.hyps(4) by simp
  with served_answers [OF a served_event.prems served_event.hyps(3)] asks_append [OF a] ans
    dl_event [OF run served_event.hyps(2,4)] show ?case by simp
qed

section \<open>Properties\<close>

text \<open>C2: A download emits the chunks of the file in order, each once, whatever the order in
  which the reads are answered: when the server answers each read with the bytes of the file at the
  offset and of the length the service asked for, and the client accepts every chunk, the chunks
  handed to \<open>onChunk\<close> are numbers 0, 1, 2, ... with the bytes of the file at their offset, only the
  last is marked last, and when the stream resolves without an error their concatenation is the
  file.\<close>

theorem download_emits_file_in_order:
  assumes served: "served_run file (start_stream tid (length file) cs now m) es d out" and cs: "0 < cs"
  shows "chunks out = map (\<lambda>i. (i, file_chunk file cs i, Suc i = ceil_nat (length file) cs))
           [0..<length (chunks out)]
    \<and> length (chunks out) \<le> ceil_nat (length file) cs
    \<and> (OutResolve \<in> set out \<longrightarrow> \<not> errored out \<longrightarrow> concat (map (fst \<circ> snd) (chunks out)) = file)"
proof -
  have size: "dlFileSize (start_stream tid (length file) cs now m) = length file"
    "dlChunkSize (start_stream tid (length file) cs now m) = cs" by (simp_all add: start_stream_def)
  have run: "dl_run (start_stream tid (length file) cs now m) es d out"
    and ans: "list_all (answers (file_chunk file cs)) es"
    using served_run_answers [OF served size(1)] size(2) by simp_all
  note r = dl_run_inv [OF run start_inv ans, unfolded start_total]
  then have inv: "dl_inv (file_chunk file cs) d out" and t: "dlTotalChunks d = ceil_nat (length file) cs" by auto
  note e = emitted_chunks [OF inv]
  have c: "chunks out = map (\<lambda>i. (i, file_chunk file cs i, Suc i = ceil_nat (length file) cs))
           [0..<length (chunks out)]"
    using inv e t unfolding dl_inv_def core_inv_def by simp
  have "concat (map (fst \<circ> snd) (chunks out)) = file" if "OutResolve \<in> set out" "\<not> errored out"
  proof -
    have n: "length (chunks out) = ceil_nat (length file) cs" using r e t that by simp
    have "map (fst \<circ> snd) (chunks out) = map (file_chunk file cs) [0..<ceil_nat (length file) cs]"
      by (subst c) (simp add: n comp_def)
    then show ?thesis using all_file_chunks [OF cs] by simp
  qed
  then show ?thesis using c e t by simp
qed


text \<open>A file of 3 bytes in chunks of 2, whose second read is answered first.\<close>

definition demo_file :: bytes where "demo_file = [1, 2, 3]"

definition demo_start :: download where
  "demo_start = start_stream ''t'' (length demo_file) 2 0 (new_transfer_manager 2 None)"

definition demo_events :: "(int \<times> dl_event) list" where
  "demo_events = [(0, EOpened), (1, EReadDone 1 [3]), (2, EReadDone 0 [1, 2]), (3, EChunkAccepted),
     (4, EChunkAccepted)]"

fun run_served :: "bytes \<Rightarrow> (int \<times> dl_event) list \<Rightarrow> download \<Rightarrow> dl_output list \<Rightarrow> (download \<times> dl_output list) option" where
  "run_served file [] d out = Some (d, out)"
| "run_served file (te # es) d out =
     (if dl_enabled (snd te) d \<and> served file out (snd te)
      then (let (d1, out1) = dl_step te d in run_served file es d1 (out @ out1)) else None)"

lemma run_served_run:
  "served_run file d es0 d1 out1 \<Longrightarrow> run_served file es d1 out1 = Some (d2, out2) \<Longrightarrow>
     served_run file d (es0 @ es) d2 out2"
proof (induction es arbitrary: es0 d1 out1)
  case (Cons te es)
  obtain now e where te: "te = (now, e)" by fastforce
  obtain d3 out3 where s: "dl_step te d1 = (d3, out3)" by fastforce
  have "served_run file d (es0 @ [te]) d3 (out1 @ out3)"
    using served_event [OF Cons.prems(1), of e now d3 out3] Cons.prems(2) s te by (simp split: if_splits)
  from Cons.IH [OF this] Cons.prems(2) s show ?case by (simp split: if_splits)
qed simp

fun run_events :: "(int \<times> dl_event) list \<Rightarrow> download \<Rightarrow> dl_output list \<Rightarrow> (download \<times> dl_output list) option" where
  "run_events [] d out = Some (d, out)"
| "run_events (te # es) d out =
     (if dl_enabled (snd te) d then (let (d1, out1) = dl_step te d in run_events es d1 (out @ out1)) else None)"

lemma run_events_run:
  "dl_run d es0 d1 out1 \<Longrightarrow> run_events es d1 out1 = Some (d2, out2) \<Longrightarrow> dl_run d (es0 @ es) d2 out2"
proof (induction es arbitrary: es0 d1 out1)
  case (Cons te es)
  obtain now e where te: "te = (now, e)" by fastforce
  obtain d3 out3 where s: "dl_step te d1 = (d3, out3)" by fastforce
  have "dl_run d (es0 @ [te]) d3 (out1 @ out3)"
    using dl_event [OF Cons.prems(1), of e now d3 out3] Cons.prems(2) s te by (simp split: if_splits)
  from Cons.IH [OF this] Cons.prems(2) s show ?case by (simp split: if_splits)
qed simp

lemma errored_code [code]: "errored out = list_ex (\<lambda>x. case x of OutError m \<Rightarrow> True | _ \<Rightarrow> False) out"
  by (induction out) (auto split: dl_output.splits)

definition demo_end :: "download \<times> dl_output list" where
  "demo_end = the (run_events demo_events demo_start [])"

lemma demo_download_run: "dl_run demo_start demo_events (fst demo_end) (snd demo_end)"
proof -
  have "run_events demo_events demo_start [] \<noteq> None" by code_simp
  then have "run_events demo_events demo_start [] = Some (fst demo_end, snd demo_end)"
    by (auto simp: demo_end_def)
  from run_events_run [OF dl_start this] show ?thesis by simp
qed

lemma demo_served_run: "served_run demo_file demo_start demo_events (fst demo_end) (snd demo_end)"
proof -
  have "run_served demo_file demo_events demo_start [] = Some demo_end" by code_simp
  then have "run_served demo_file demo_events demo_start [] = Some (fst demo_end, snd demo_end)" by simp
  from run_served_run [OF served_start this] show ?thesis by simp
qed

lemma demo_facts:
  "OutResolve \<in> set (snd demo_end)" "\<not> errored (snd demo_end)" "\<not> dlOpening (fst demo_end)"
  "dlInFlight (fst demo_end) = []" "dlEmitting (fst demo_end) = None"
  by code_simp+

lemma demo_answers: "list_all (answers (file_chunk demo_file 2)) demo_events"
  by code_simp

theorem download_emits_file_in_order_witness:
  "concat (map (fst \<circ> snd) (chunks (snd demo_end))) = [1, 2, 3]"
  using download_emits_file_in_order [OF demo_served_run [unfolded demo_start_def]] demo_facts
  by (simp add: demo_file_def)


section \<open>Corners\<close>

text \<open>A cancellation does not stop the stream: the flag that \<open>readChunk\<close> tests is copied from the
  entry of the map when the file is opened, and \<open>cancelDownload\<close> deletes that entry.\<close>

lemma cancel_never_stops:
  assumes "dl_run (start_stream tid len cs now m) es d out" and "list_all (answers f) es"
  shows "\<not> dlCancelled d"
  using dl_run_inv [OF assms(1) start_inv assms(2)] by (simp add: dl_inv_def core_inv_def)

text \<open>The stream of an empty file neither resolves nor closes its handle.\<close>

lemma empty_file_hangs:
  assumes cs: "0 < cs" and o: "opened (start_stream tid 0 cs now m) = (d, out)"
  shows "out = [] \<and> dlHandle d \<and> dlInFlight d = [] \<and> dlEmitting d = None"
proof -
  have "(cs - Suc 0) div cs = 0" using cs by simp
  with o show ?thesis by (auto simp: opened_def start_stream_def ceil_nat_def Let_def)
qed

text \<open>A rejected \<open>onChunk\<close> loses its chunk: the loop ends before \<open>nextChunkToEmit\<close> moves on, and the
  chunk has left the buffer, so no later event emits anything.\<close>

lemma rejected_chunk_stalls:
  assumes "dlEmitting d = Some l" and "map_get (dlBuffer d) (dlNextEmit d) = None"
  shows "chunk_rejected now d = (d\<lparr>dlEmitting := None\<rparr>, [])"
  using assms by (simp add: chunk_rejected_def)

end
