(* ===== verification/Exec_Requests.thy ===== *)
theory Exec_Requests
  imports JS_Values
begin

text \<open>
  Requests of a client for commands and terminals: \<open>app/socket/handlers/exec-validator.ts\<close>,
  \<open>exec-safety.ts\<close>, \<open>exec-environment.ts\<close>, \<open>exec-handler.ts\<close> and \<open>terminal-handler.ts\<close>.  A
  validation result is \<open>Inl\<close> of the error message or \<open>Inr\<close> of the validated data; numbers keep
  their JavaScript values.
\<close>

section \<open>Exec payloads\<close>

record exec_request =
  erCommand :: string
  erPty :: "bool option"
  erTerm :: "string option"
  erCols :: "jsnum option"
  erRows :: "jsnum option"
  erEnv :: "(string, string) jsmap option"
  erTimeoutMs :: "jsnum option"

fun parseNumericValue :: "jsval \<Rightarrow> jsnum" where
  "parseNumericValue (JNum n) = n"
| "parseNumericValue (JStr s) = parse_number s"
| "parseNumericValue _ = NaN"

definition validateNumericField :: "jsval \<Rightarrow> rat \<Rightarrow> rat \<Rightarrow> string \<Rightarrow> (string, jsnum) result" where
  "validateNumericField value lo hi errorMessage =
     (let n = parseNumericValue value
      in if n = NaN \<or> num_less n lo \<or> num_greater n hi then err errorMessage else ok n)"

fun collect_strings :: "(string \<times> jsval) list \<Rightarrow> (string, string) jsmap \<Rightarrow>
    (string, (string, string) jsmap) result" where
  "collect_strings [] env = ok env"
| "collect_strings ((key, value) # entries) env =
     (case value of
        JStr s \<Rightarrow> collect_strings entries (map_set key s env)
      | _ \<Rightarrow> err ''Environment variables must be string key-value pairs'')"

definition validateEnvironmentVariables :: "jsval \<Rightarrow> (string, (string, string) jsmap) result" where
  "validateEnvironmentVariables envObj =
     (if \<not> isRecord envObj then err ''Environment variables must be an object''
      else collect_strings (entries_of envObj) [])"

definition new_request :: "string \<Rightarrow> exec_request" where
  "new_request command = \<lparr>erCommand = command, erPty = None, erTerm = None, erCols = None,
     erRows = None, erEnv = None, erTimeoutMs = None\<rparr>"

definition validateBasePayload :: "jsval \<Rightarrow> (string, exec_request) result" where
  "validateBasePayload payload =
     (if nullish payload \<or> \<not> is_object payload then err ''Invalid exec payload format''
      else case jget payload ''command'' of
          JStr command \<Rightarrow>
            if trim command = [] then err ''Command is required'' else ok (new_request command)
        | _ \<Rightarrow> err ''Command is required'')"

definition processPtyField :: "jsval \<Rightarrow> exec_request \<Rightarrow> (string, exec_request) result" where
  "processPtyField p v =
     (let value = jget p ''pty''
      in if nullish value then ok v
         else case value of JBool b \<Rightarrow> ok (v\<lparr>erPty := Some b\<rparr>) | _ \<Rightarrow> err ''PTY flag must be boolean'')"

definition processTermField :: "jsval \<Rightarrow> exec_request \<Rightarrow> (string, exec_request) result" where
  "processTermField p v =
     (let value = jget p ''term''
      in if nullish value then ok v
         else case value of
             JStr t \<Rightarrow> if trim t = [] then err ''Invalid terminal type'' else ok (v\<lparr>erTerm := Some t\<rparr>)
           | _ \<Rightarrow> err ''Invalid terminal type'')"

datatype numeric_field = FCols | FRows | FTimeoutMs

fun field_key :: "numeric_field \<Rightarrow> string" where
  "field_key FCols = ''cols''"
| "field_key FRows = ''rows''"
| "field_key FTimeoutMs = ''timeoutMs''"

fun set_field :: "numeric_field \<Rightarrow> jsnum \<Rightarrow> exec_request \<Rightarrow> exec_request" where
  "set_field FCols n v = v\<lparr>erCols := Some n\<rparr>"
| "set_field FRows n v = v\<lparr>erRows := Some n\<rparr>"
| "set_field FTimeoutMs n v = v\<lparr>erTimeoutMs := Some n\<rparr>"

definition processNumericField :: "jsval \<Rightarrow> numeric_field \<Rightarrow> rat \<Rightarrow> rat \<Rightarrow> string \<Rightarrow> exec_request \<Rightarrow>
    (string, exec_request) result" where
  "processNumericField p fieldName lo hi errorMessage v =
     (let value = jget p (field_key fieldName)
      in if nullish value then ok v
         else case validateNumericField value lo hi errorMessage of
             Inl e \<Rightarrow> err e | Inr n \<Rightarrow> ok (set_field fieldName n v))"

definition processEnvField :: "jsval \<Rightarrow> exec_request \<Rightarrow> (string, exec_request) result" where
  "processEnvField p v =
     (let value = jget p ''env''
      in if nullish value then ok v
         else case validateEnvironmentVariables value of
             Inl e \<Rightarrow> err e | Inr env \<Rightarrow> ok (v\<lparr>erEnv := Some env\<rparr>))"

definition and_then :: "('e, 'a) result \<Rightarrow> ('a \<Rightarrow> ('e, 'b) result) \<Rightarrow> ('e, 'b) result" where
  "and_then r f = (case r of Inl e \<Rightarrow> err e | Inr x \<Rightarrow> f x)"

definition validateOptionalFields :: "jsval \<Rightarrow> exec_request \<Rightarrow> (string, exec_request) result" where
  "validateOptionalFields p v =
     and_then (processPtyField p v) (\<lambda>v.
     and_then (processTermField p v) (\<lambda>v.
     and_then (processNumericField p FCols 1 1000 ''Invalid columns value'' v) (\<lambda>v.
     and_then (processNumericField p FRows 1 1000 ''Invalid rows value'' v) (\<lambda>v.
     and_then (processNumericField p FTimeoutMs 0 3600000 ''Invalid timeout value'' v) (\<lambda>v.
       processEnvField p v)))))"

definition validateExecPayload :: "jsval \<Rightarrow> (string, exec_request) result" where
  "validateExecPayload payload =
     and_then (validateBasePayload payload) (validateOptionalFields payload)"

record exec_state =
  esCommand :: string
  esPty :: bool
  esTerm :: string
  esCols :: jsnum
  esRows :: jsnum
  esEnv :: "(string, string) jsmap"
  esTimeoutMs :: "jsnum option"

definition or_else :: "'a option \<Rightarrow> 'a \<Rightarrow> 'a" where
  "or_else x d = (case x of None \<Rightarrow> d | Some y \<Rightarrow> y)"

definition createExecState :: "exec_request \<Rightarrow> string option \<Rightarrow> jsnum option \<Rightarrow> jsnum option \<Rightarrow> exec_state" where
  "createExecState payload sessionTerm sessionCols sessionRows =
     \<lparr>esCommand = erCommand payload, esPty = or_else (erPty payload) False,
      esTerm = or_else (erTerm payload) (or_else sessionTerm ''xterm-256color''),
      esCols = or_else (erCols payload) (or_else sessionCols (Num 80)),
      esRows = or_else (erRows payload) (or_else sessionRows (Num 24)),
      esEnv = or_else (erEnv payload) [], esTimeoutMs = erTimeoutMs payload\<rparr>"

section \<open>Environment\<close>

definition mergeEnvironmentVariables :: "(string, string) jsmap option list \<Rightarrow> (string, string) jsmap" where
  "mergeEnvironmentVariables sources =
     fold (\<lambda>src merged. case src of None \<Rightarrow> merged
         | Some env \<Rightarrow> fold (\<lambda>(k, v). map_set k v) env merged) sources []"

definition sanitizeEnvVarName :: "string \<Rightarrow> string option" where
  "sanitizeEnvVarName name =
     (let sanitized = filter is_word name
      in if sanitized = [] \<or> length sanitized > 255 then None
         else if is_digit (hd sanitized) then None
         else Some sanitized)"

definition sensitiveVars :: "string list" where
  "sensitiveVars = [''SSH_AUTH_SOCK'', ''SSH_AGENT_PID'', ''GPG_AGENT_INFO'', ''AWS_SECRET_ACCESS_KEY'',
     ''AWS_SESSION_TOKEN'']"

definition filter_step :: "string \<times> string \<Rightarrow> (string, string) jsmap \<Rightarrow> (string, string) jsmap" where
  "filter_step e filtered =
     (case sanitizeEnvVarName (fst e) of
        Some k \<Rightarrow> if k \<notin> set sensitiveVars then map_set k (take 10000 (snd e)) filtered else filtered
      | None \<Rightarrow> filtered)"

definition filterEnvironmentVariables :: "(string, string) jsmap \<Rightarrow> (string, string) jsmap" where
  "filterEnvironmentVariables env = fold filter_step env []"

section \<open>Command screening\<close>

fun any_suffix :: "(string \<Rightarrow> bool) \<Rightarrow> string \<Rightarrow> bool" where
  "any_suffix P [] = P []"
| "any_suffix P (c # s) = (P (c # s) \<or> any_suffix P s)"

definition spaces1 :: "string \<Rightarrow> bool" where
  "spaces1 s \<longleftrightarrow> s \<noteq> [] \<and> is_space (hd s)"

text \<open>The three patterns, anchored at a position of the lower-cased command.\<close>

definition rm_root :: "string \<Rightarrow> bool" where
  "rm_root s \<longleftrightarrow> starts_with s '';'' \<and>
     (let t = dropWhile is_space (drop 1 s)
      in starts_with t ''rm'' \<and> spaces1 (drop 2 t) \<and>
         (let u = dropWhile is_space (drop 2 t)
          in starts_with u ''-rf'' \<and> spaces1 (drop 3 u) \<and> starts_with (dropWhile is_space (drop 3 u)) ''/''))"

definition dd_device :: "string \<Rightarrow> bool" where
  "dd_device s \<longleftrightarrow> starts_with s ''dd'' \<and> spaces1 (drop 2 s) \<and> str_includes (drop 3 s) ''of=/dev/''"

definition redirect_device :: "string \<Rightarrow> bool" where
  "redirect_device s \<longleftrightarrow> starts_with s ''>'' \<and>
     (let t = dropWhile is_space (drop 1 s)
      in starts_with t ''/dev/s'' \<and> drop 6 t \<noteq> [] \<and> is_lower (hd (drop 6 t)))"

definition isCommandSafe :: "string \<Rightarrow> bool" where
  "isCommandSafe command =
     (let c = to_lower command
      in \<not> any_suffix rm_root c \<and> \<not> any_suffix dd_device c \<and> \<not> any_suffix redirect_device c)"

section \<open>Terminals\<close>

record terminal_config =
  tgTerm :: "string option"
  tgCols :: "jsnum option"
  tgRows :: "jsnum option"

record terminal_setup =
  tuTerm :: string
  tuCols :: jsnum
  tuRows :: jsnum

definition validateDimension :: "jsval \<Rightarrow> rat \<Rightarrow> rat \<Rightarrow> jsnum option" where
  "validateDimension value lo hi =
     (if nullish value then None
      else let n = parseNumericValue value
           in if n \<noteq> NaN \<and> \<not> num_less n lo \<and> \<not> num_greater n hi then Some n else None)"

definition validateTerminalDimensions :: "jsval \<Rightarrow> jsval \<Rightarrow> (string, jsnum option \<times> jsnum option) result" where
  "validateTerminalDimensions columns rows =
     (let validCols = validateDimension columns 1 1000
      in if \<not> nullish columns \<and> validCols = None then err ''Invalid columns value''
         else let validRows = validateDimension rows 1 1000
              in if \<not> nullish rows \<and> validRows = None then err ''Invalid rows value''
                 else ok (validCols, validRows))"

definition term_char :: "char \<Rightarrow> bool" where
  "term_char c \<longleftrightarrow> is_alpha c \<or> is_digit c \<or> c = CHR ''-''"

definition validateTerminalType :: "jsval \<Rightarrow> string option" where
  "validateTerminalType v =
     (case v of
        JStr s \<Rightarrow> let trimmed = trim s
                 in if trimmed = [] then None
                    else if \<not> list_all term_char trimmed then None
                    else Some trimmed
      | _ \<Rightarrow> None)"

definition processTerminalUpdate :: "jsval \<Rightarrow> terminal_config \<Rightarrow> (string, terminal_config) result" where
  "processTerminalUpdate settings currentConfig =
     (if nullish settings \<or> \<not> is_object settings then err ''Invalid terminal settings''
      else
        let newConfig = (case validateTerminalType (jget settings ''term'') of
              None \<Rightarrow> currentConfig | Some t \<Rightarrow> currentConfig\<lparr>tgTerm := Some t\<rparr>)
        in case validateTerminalDimensions (jget settings ''cols'') (jget settings ''rows'') of
             Inl e \<Rightarrow> err e
           | Inr (columns, rows) \<Rightarrow>
               ok (newConfig\<lparr>tgCols := (case columns of None \<Rightarrow> tgCols newConfig | Some n \<Rightarrow> Some n),
                             tgRows := (case rows of None \<Rightarrow> tgRows newConfig | Some n \<Rightarrow> Some n)\<rparr>))"

text \<open>The server configuration enters through its terminal type.\<close>

definition createTerminalState :: "terminal_config \<Rightarrow> string \<Rightarrow> terminal_setup" where
  "createTerminalState config serverTerm =
     (let term = or_else (tgTerm config) serverTerm
      in \<lparr>tuTerm = (if term = [] then ''xterm-256color'' else term),
          tuCols = or_else (tgCols config) (Num 80), tuRows = or_else (tgRows config) (Num 24)\<rparr>)"

definition handleTerminalSetup :: "jsval \<Rightarrow> terminal_config \<Rightarrow> string \<Rightarrow> (string, terminal_setup) result" where
  "handleTerminalSetup settings currentConfig serverTerm =
     (case processTerminalUpdate settings currentConfig of
        Inl e \<Rightarrow> err e | Inr config \<Rightarrow> ok (createTerminalState config serverTerm))"

definition handleTerminalResize :: "jsval \<Rightarrow> (string, jsnum \<times> jsnum) result" where
  "handleTerminalResize size' =
     (if nullish size' \<or> \<not> is_object size' then err ''Invalid resize data''
      else case validateTerminalDimensions (jget size' ''cols'') (jget size' ''rows'') of
          Inl e \<Rightarrow> err e
        | Inr (Some columns, Some rows) \<Rightarrow> ok (columns, rows)
        | Inr _ \<Rightarrow> err ''Both cols and rows are required for resize'')"

text \<open>\<open>mergeTerminalConfig\<close> reads the client settings as an object of unknown values, \<open>null\<close> when
  there are none.\<close>

definition mergeTerminalConfig :: "jsval \<Rightarrow> terminal_config \<Rightarrow> string \<Rightarrow> terminal_config" where
  "mergeTerminalConfig clientSettings sessionConfig serverTerm =
     (let merged = \<lparr>tgTerm = Some (or_else (tgTerm sessionConfig) serverTerm),
                     tgCols = tgCols sessionConfig, tgRows = tgRows sessionConfig\<rparr>
      in if nullish clientSettings then merged
         else
           let merged1 = (case validateTerminalType (jget clientSettings ''term'') of
                 None \<Rightarrow> merged | Some t \<Rightarrow> merged\<lparr>tgTerm := Some t\<rparr>)
           in case validateTerminalDimensions (jget clientSettings ''cols'') (jget clientSettings ''rows'') of
                Inl _ \<Rightarrow> merged1
              | Inr (columns, rows) \<Rightarrow>
                  merged1\<lparr>tgCols := (case columns of None \<Rightarrow> tgCols merged1 | Some n \<Rightarrow> Some n),
                          tgRows := (case rows of None \<Rightarrow> tgRows merged1 | Some n \<Rightarrow> Some n)\<rparr>)"

section \<open>Exec handler\<close>

record exec_options =
  eoPty :: "bool option"
  eoTerm :: "string option"
  eoCols :: "jsnum option"
  eoRows :: "jsnum option"

definition createExecOptions :: "exec_state \<Rightarrow> exec_options" where
  "createExecOptions st =
     (if esPty st
      then \<lparr>eoPty = Some True, eoTerm = Some (esTerm st), eoCols = Some (esCols st), eoRows = Some (esRows st)\<rparr>
      else \<lparr>eoPty = None, eoTerm = None, eoCols = None, eoRows = None\<rparr>)"

definition handleExecRequest :: "jsval \<Rightarrow> string option \<Rightarrow> jsnum option \<Rightarrow> jsnum option \<Rightarrow>
    (string, string) jsmap option \<Rightarrow> (string, exec_state \<times> exec_options \<times> (string, string) jsmap) result" where
  "handleExecRequest payload sessionTerm sessionCols sessionRows sessionEnv =
     (case validateExecPayload payload of
        Inl e \<Rightarrow> err e
      | Inr v \<Rightarrow>
          let st = createExecState v sessionTerm sessionCols sessionRows;
              options = createExecOptions st;
              mergedEnv = mergeEnvironmentVariables [sessionEnv, Some (esEnv st)]
          in ok (st, options, mergedEnv))"

section \<open>Validated payloads\<close>

lemma and_then_ok [ok_simps]: "and_then r f = ok y \<longleftrightarrow> (\<exists>x. r = ok x \<and> f x = ok y)"
  by (cases r) (auto simp: and_then_def)

definition in_range :: "jsnum \<Rightarrow> rat \<Rightarrow> rat \<Rightarrow> bool" where
  "in_range n lo hi \<longleftrightarrow> (\<exists>q. n = Num q \<and> lo \<le> q \<and> q \<le> hi)"

definition all_in_range :: "jsnum option \<Rightarrow> rat \<Rightarrow> rat \<Rightarrow> bool" where
  "all_in_range x lo hi \<longleftrightarrow> (\<forall>n. x = Some n \<longrightarrow> in_range n lo hi)"

lemma validateNumericField_ok [ok_simps]:
  "validateNumericField v lo hi e = ok n \<longleftrightarrow> n = parseNumericValue v \<and> in_range n lo hi"
  using num_in_range_iff [of "parseNumericValue v" lo hi]
  by (auto simp: validateNumericField_def in_range_def Let_def)

lemma processPty_ok: "processPtyField p v = ok w \<Longrightarrow> \<exists>b. w = v\<lparr>erPty := b\<rparr>"
  by (cases "jget p ''pty''"; cases v) (auto simp: processPtyField_def Let_def split: if_splits)

lemma processTerm_ok:
  "processTermField p v = ok w \<Longrightarrow> erTerm v = None \<Longrightarrow> \<exists>t. w = v\<lparr>erTerm := t\<rparr> \<and> (\<forall>x. t = Some x \<longrightarrow> trim x \<noteq> [])"
  by (cases "jget p ''term''"; cases v) (auto simp: processTermField_def Let_def split: if_splits)

lemma processNumeric_ok:
  "processNumericField p f lo hi e v = ok w \<Longrightarrow>
     w = v \<or> (\<exists>n. w = set_field f n v \<and> in_range n lo hi)"
  by (auto simp: processNumericField_def Let_def ok_simps split: if_splits sum.splits)

definition string_entries :: "jsval \<Rightarrow> (string, string) jsmap \<Rightarrow> bool" where
  "string_entries v env \<longleftrightarrow> (\<exists>m. v = JObj m \<and> map fst m = map fst env
     \<and> (\<forall>k s. map_get env k = Some s \<longleftrightarrow> map_get m k = Some (JStr s)))"

lemma collect_strings_ok:
  "collect_strings es env = ok env' \<Longrightarrow> distinct (map fst env @ map fst es) \<Longrightarrow>
     \<exists>xs. env' = env @ xs \<and> es = map (\<lambda>(k, s). (k, JStr s)) xs"
proof (induction es arbitrary: env)
  case Nil
  then show ?case by simp
next
  case (Cons e es)
  obtain k v where e: "e = (k, v)" by fastforce
  with Cons.prems(1) obtain s where v: "v = JStr s" and r: "collect_strings es (map_set k s env) = ok env'"
    by (cases v) auto
  have new: "map_set k s env = env @ [(k, s)]"
    using Cons.prems(2) e by (intro map_set_new) (auto simp: map_of_eq_None_iff)
  with Cons.IH [OF r] Cons.prems(2) e obtain xs where
    "env' = env @ (k, s) # xs" and "es = map (\<lambda>(k, s). (k, JStr s)) xs" by auto
  with e v show ?case by (intro exI [of _ "(k, s) # xs"]) simp
qed

text \<open>Objects have distinct keys.\<close>

fun wf_value :: "jsval \<Rightarrow> bool" where
  "wf_value (JObj m) = (distinct (map fst m) \<and> (\<forall>v \<in> snd ` set m. wf_value v))"
| "wf_value (JArr vs) = (\<forall>v \<in> set vs. wf_value v)"
| "wf_value _ = True"

lemma wf_value_get: "wf_value v \<Longrightarrow> wf_value (jget v k)"
  by (cases v) (auto split: option.split dest!: map_of_SomeD intro: rev_image_eqI)

lemma map_of_strings: "map_of (map (\<lambda>(k, s). (k, JStr s)) xs) k = map_option JStr (map_of xs k)"
  by (induction xs) auto

lemma processEnv_ok:
  assumes "processEnvField p v = ok w" and "wf_value p"
  shows "w = v \<or> (\<exists>env. w = v\<lparr>erEnv := Some env\<rparr> \<and> string_entries (jget p ''env'') env)"
proof (cases "nullish (jget p ''env'')")
  case True
  then show ?thesis using assms(1) by (simp add: processEnvField_def)
next
  case False
  with assms(1) obtain env where env: "validateEnvironmentVariables (jget p ''env'') = ok env"
    and w: "w = v\<lparr>erEnv := Some env\<rparr>"
    by (auto simp: processEnvField_def Let_def split: sum.splits)
  then obtain m where m: "jget p ''env'' = JObj m" and c: "collect_strings m [] = ok env"
    by (auto simp: validateEnvironmentVariables_def isRecord_iff split: if_splits)
  have "distinct (map fst m)" using wf_value_get [OF assms(2), of "''env''"] m by simp
  with collect_strings_ok [OF c] have "m = map (\<lambda>(k, s). (k, JStr s)) env" by auto
  then have "map fst m = map fst env" and "map_get m k = map_option JStr (map_get env k)" for k
    by (auto simp: map_of_strings)
  then have "string_entries (JObj m) env" by (auto simp: string_entries_def)
  with w m show ?thesis by auto
qed

definition request_ok :: "jsval \<Rightarrow> exec_request \<Rightarrow> bool" where
  "request_ok p r \<longleftrightarrow> jget p ''command'' = JStr (erCommand r) \<and> trim (erCommand r) \<noteq> []
     \<and> (\<forall>t. erTerm r = Some t \<longrightarrow> trim t \<noteq> [])
     \<and> all_in_range (erCols r) 1 1000 \<and> all_in_range (erRows r) 1 1000
     \<and> all_in_range (erTimeoutMs r) 0 3600000
     \<and> (\<forall>env. erEnv r = Some env \<longrightarrow> string_entries (jget p ''env'') env)"

lemma request_ok_numeric:
  "request_ok p v \<Longrightarrow> processNumericField p FCols 1 1000 e v = ok w \<Longrightarrow> request_ok p w"
  "request_ok p v \<Longrightarrow> processNumericField p FRows 1 1000 e v = ok w \<Longrightarrow> request_ok p w"
  "request_ok p v \<Longrightarrow> processNumericField p FTimeoutMs 0 3600000 e v = ok w \<Longrightarrow> request_ok p w"
  by (auto dest!: processNumeric_ok simp: request_ok_def all_in_range_def)

lemma validateBase_ok:
  "validateBasePayload p = ok v \<Longrightarrow>
     \<exists>c. v = new_request c \<and> jget p ''command'' = JStr c \<and> trim c \<noteq> []"
  by (auto simp: validateBasePayload_def split: if_splits jsval.splits)

lemma validateExecPayload_ok:
  assumes "validateExecPayload p = ok r" and "wf_value p"
  shows "request_ok p r"
proof -
  from assms(1) obtain v0 v1 v2 v3 v4 v5 where
    b: "validateBasePayload p = ok v0" and pty: "processPtyField p v0 = ok v1"
    and tm: "processTermField p v1 = ok v2"
    and c: "processNumericField p FCols 1 1000 ''Invalid columns value'' v2 = ok v3"
    and rw: "processNumericField p FRows 1 1000 ''Invalid rows value'' v3 = ok v4"
    and to: "processNumericField p FTimeoutMs 0 3600000 ''Invalid timeout value'' v4 = ok v5"
    and en: "processEnvField p v5 = ok r"
    unfolding validateExecPayload_def validateOptionalFields_def ok_simps by blast
  from validateBase_ok [OF b] have "request_ok p v0" "erTerm v0 = None"
    by (auto simp: request_ok_def new_request_def all_in_range_def)
  then have "request_ok p v1" "erTerm v1 = None"
    using processPty_ok [OF pty] by (auto simp: request_ok_def)
  then have "request_ok p v2" using processTerm_ok [OF tm] by (auto simp: request_ok_def)
  then have "request_ok p v5" using c rw to request_ok_numeric by blast
  then show ?thesis using processEnv_ok [OF en assms(2)] by (auto simp: request_ok_def)
qed

lemma fold_map_set_get:
  "map_get (fold (\<lambda>(k, v). map_set k v) env m) k = (case map_get (rev env) k of None \<Rightarrow> map_get m k | Some v \<Rightarrow> Some v)"
  by (induction env arbitrary: m) (auto simp: map_get_set map_of_append map_add_def split: option.splits)

lemma map_of_rev: "distinct (map fst env) \<Longrightarrow> map_of (rev env) = map_of env"
  using map_of_inject_set [of "rev env" env] by (simp add: rev_map [symmetric])

lemma merge_two:
  "wf_map a \<Longrightarrow> wf_map b \<Longrightarrow> map_get (mergeEnvironmentVariables [Some a, Some b]) k =
     (case map_get b k of None \<Rightarrow> map_get a k | Some v \<Rightarrow> Some v)"
  by (simp add: mergeEnvironmentVariables_def fold_map_set_get wf_map_def map_of_rev split: option.split)

section \<open>Environment filter\<close>

definition safe_env_name :: "string \<Rightarrow> bool" where
  "safe_env_name k \<longleftrightarrow> k \<noteq> [] \<and> length k \<le> 255 \<and> list_all is_word k \<and> \<not> is_digit (hd k)
     \<and> k \<notin> set sensitiveVars"

definition safe_env :: "(string, string) jsmap \<Rightarrow> bool" where
  "safe_env env \<longleftrightarrow> wf_map env \<and> (\<forall>(k, v) \<in> set env. safe_env_name k \<and> length v \<le> 10000)"

lemma sanitize_some: "sanitizeEnvVarName n = Some k \<Longrightarrow> k \<notin> set sensitiveVars \<Longrightarrow> safe_env_name k"
  by (auto simp: sanitizeEnvVarName_def safe_env_name_def list_all_iff Let_def split: if_splits)

lemma sanitize_id: "safe_env_name k \<Longrightarrow> sanitizeEnvVarName k = Some k"
  by (auto simp: sanitizeEnvVarName_def safe_env_name_def list_all_iff Let_def)

lemma set_map_set_subset: "set (map_set k v m) \<subseteq> insert (k, v) (set m)"
  by (induction m) (auto split: if_splits)

lemma safe_env_step: "safe_env env \<Longrightarrow> safe_env (filter_step e env)"
  using set_map_set_subset
  by (fastforce simp: filter_step_def safe_env_def sanitize_some split: option.splits)

lemma safe_env_fold: "safe_env m \<Longrightarrow> safe_env (fold filter_step env m)"
  by (induction env arbitrary: m) (auto intro: safe_env_step)

section \<open>Terminal configuration\<close>

definition terminal_ok :: "terminal_config \<Rightarrow> bool" where
  "terminal_ok c \<longleftrightarrow> all_in_range (tgCols c) 1 1000 \<and> all_in_range (tgRows c) 1 1000"

lemma validateDimension_range: "validateDimension v lo hi = Some n \<Longrightarrow> in_range n lo hi"
  using num_in_range_iff [of n lo hi]
  by (auto simp: validateDimension_def in_range_def Let_def split: if_splits)

lemma validateTerminalDimensions_ok:
  "validateTerminalDimensions c r = ok (x, y) \<Longrightarrow> all_in_range x 1 1000 \<and> all_in_range y 1 1000"
  by (auto simp: validateTerminalDimensions_def all_in_range_def Let_def validateDimension_range split: if_splits)

lemma validateTerminalType_chars:
  "validateTerminalType v = Some t \<Longrightarrow> t \<noteq> [] \<and> list_all term_char t"
  by (auto simp: validateTerminalType_def Let_def split: jsval.splits if_splits)

lemma processTerminalUpdate_ok:
  assumes "processTerminalUpdate v c = ok c'" and "terminal_ok c"
  shows "terminal_ok c'" and "tgTerm c' \<noteq> tgTerm c \<Longrightarrow> \<exists>t. tgTerm c' = Some t \<and> t \<noteq> [] \<and> list_all term_char t"
proof -
  obtain x y where d: "validateTerminalDimensions (jget v ''cols'') (jget v ''rows'') = ok (x, y)"
    using assms(1) by (auto simp: processTerminalUpdate_def Let_def split: if_splits sum.splits)
  show "terminal_ok c'"
    using assms validateTerminalDimensions_ok [OF d] d
    by (auto simp: processTerminalUpdate_def terminal_ok_def Let_def all_in_range_def
        split: if_splits option.splits)
  show "tgTerm c' \<noteq> tgTerm c \<Longrightarrow> \<exists>t. tgTerm c' = Some t \<and> t \<noteq> [] \<and> list_all term_char t"
    using assms d validateTerminalType_chars
    by (auto simp: processTerminalUpdate_def Let_def split: if_splits option.splits)
qed

section \<open>Corner cases\<close>

text \<open>The documented pattern needs a semicolon in front: the plain command passes.\<close>

lemma plain_rm_passes: "isCommandSafe ''rm -rf /'' \<and> \<not> isCommandSafe ''ls; rm -rf /''"
  by code_simp

text \<open>Fractions pass as terminal sizes.\<close>

lemma fractional_size_accepted:
  "handleTerminalResize (JObj [(''cols'', JNum (Num (161/2))), (''rows'', JNum (Num (1001/1000)))])
     = ok (Num (161/2), Num (1001/1000))"
  by (simp add: handleTerminalResize_def nullish_def validateTerminalDimensions_def validateDimension_def Let_def)

text \<open>The environment of a request is merged unfiltered: a variable the filter drops reaches the
  command.\<close>

definition demo_exec :: jsval where
  "demo_exec = JObj [(''command'', JStr ''id''), (''cols'', JStr ''120''),
     (''env'', JObj [(''SSH_AUTH_SOCK'', JStr ''/tmp/x'')])]"

lemma demo_exec_valid: "\<exists>r. validateExecPayload demo_exec = ok r
    \<and> erCols r = Some (Num 120) \<and> erEnv r = Some [(''SSH_AUTH_SOCK'', ''/tmp/x'')]"
proof -
  have "parse_int ''120'' = Some 120" "trim ''id'' = ''id''" by code_simp+
  then show ?thesis
    by (simp add: validateExecPayload_def validateBasePayload_def validateOptionalFields_def and_then_def
        processPtyField_def processTermField_def processNumericField_def validateNumericField_def
        processEnvField_def validateEnvironmentVariables_def isRecord_def nullish_def demo_exec_def
        parse_number_def new_request_def Let_def)
qed

lemma sensitive_env_reaches_command:
  "\<exists>st eo env. handleExecRequest demo_exec None None None None = ok (st, eo, env)
     \<and> map_get env ''SSH_AUTH_SOCK'' = Some ''/tmp/x'' \<and> filterEnvironmentVariables env = []"
proof -
  from demo_exec_valid obtain r where r: "validateExecPayload demo_exec = ok r"
    and e: "erEnv r = Some [(''SSH_AUTH_SOCK'', ''/tmp/x'')]" by blast
  have "filterEnvironmentVariables [(''SSH_AUTH_SOCK'', ''/tmp/x'')] = []" by code_simp
  with r e show ?thesis
    by (simp add: handleExecRequest_def createExecState_def or_else_def mergeEnvironmentVariables_def Let_def)
qed

section \<open>Properties\<close>

text \<open>Validated exec requests.  When a payload (an object whose keys are distinct) passes
  validation, the command is the one it holds and is not blank, columns and rows are in 1..1000
  and the timeout in 0..3600000 milliseconds if given, a terminal type is not blank, and the
  environment holds exactly the string entries of the payload.  The command is then run with the
  request's settings before those of the session, and the request's variables override the
  session's.\<close>

theorem exec_request_validated:
  assumes "wf_value p" and "handleExecRequest p term columns rows (Some senv) = ok (st, eo, env)"
    and "wf_map senv"
  shows "\<exists>r. validateExecPayload p = ok r \<and> request_ok p r \<and> esCommand st = erCommand r
    \<and> esTerm st = or_else (erTerm r) (or_else term ''xterm-256color'')
    \<and> esCols st = or_else (erCols r) (or_else columns (Num 80))
    \<and> esRows st = or_else (erRows r) (or_else rows (Num 24))
    \<and> (eoCols eo = (if esPty st then Some (esCols st) else None))
    \<and> (\<forall>k. map_get env k =
         (case map_get (or_else (erEnv r) []) k of None \<Rightarrow> map_get senv k | Some v \<Rightarrow> Some v))"
proof -
  from assms(2) obtain r where r: "validateExecPayload p = ok r"
    and st: "st = createExecState r term columns rows" and eo: "eo = createExecOptions st"
    and env: "env = mergeEnvironmentVariables [Some senv, Some (esEnv st)]"
    by (auto simp: handleExecRequest_def Let_def split: sum.splits)
  have "esEnv st = or_else (erEnv r) []" by (simp add: st createExecState_def)
  moreover have "wf_map (or_else (erEnv r) [])"
    using validateExecPayload_ok [OF r assms(1)] wf_value_get [OF assms(1), of "''env''"]
    by (auto simp: request_ok_def string_entries_def or_else_def wf_map_def split: option.split)
  ultimately have "map_get env k =
      (case map_get (or_else (erEnv r) []) k of None \<Rightarrow> map_get senv k | Some v \<Rightarrow> Some v)" for k
    using assms(3) env by (simp add: merge_two)
  then show ?thesis using r validateExecPayload_ok [OF r assms(1)]
    by (intro exI [of _ r]) (simp add: st eo createExecState_def createExecOptions_def)
qed

theorem exec_request_validated_witness:
  "\<exists>r. validateExecPayload demo_exec = ok r \<and> all_in_range (erCols r) 1 1000"
proof -
  obtain st eo env where h: "handleExecRequest demo_exec None None None (Some []) = ok (st, eo, env)"
    using demo_exec_valid by (auto simp: handleExecRequest_def Let_def)
  have "wf_value demo_exec" by (simp add: demo_exec_def)
  from exec_request_validated [OF this h] show ?thesis by (auto simp: request_ok_def)
qed

text \<open>The environment filter is safe and idempotent on names.  Every variable that comes out
  has a non-empty name of at most 255 word characters that does not begin with a digit and is
  none of the sensitive ones, a value of at most 10000 characters, and names are distinct; a
  variable of such a name with the last value given for it comes through.\<close>

theorem env_filter_safe:
  "safe_env (filterEnvironmentVariables env)
   \<and> (safe_env_name k \<longrightarrow> map_get (filterEnvironmentVariables (env @ [(k, v)])) k = Some (take 10000 v))"
proof -
  have "safe_env (filterEnvironmentVariables env)"
    unfolding filterEnvironmentVariables_def by (rule safe_env_fold) (simp add: safe_env_def)
  moreover have "map_get (filterEnvironmentVariables (env @ [(k, v)])) k = Some (take 10000 v)"
    if "safe_env_name k"
    using that sanitize_id [OF that]
    by (simp add: filterEnvironmentVariables_def filter_step_def safe_env_name_def)
  ultimately show ?thesis by blast
qed

theorem env_filter_safe_witness:
  "map_get (filterEnvironmentVariables ([(''a-b'', ''x'')] @ [(''ab'', ''y'')])) ''ab'' = Some ''y''"
proof -
  have "safe_env_name ''ab''" by code_simp
  with env_filter_safe [of "[(''a-b'', ''x'')]" "''ab''" "''y''"] show ?thesis by simp
qed

text \<open>Terminal sizes stay in range.  Starting from a configuration whose sizes are unset or
  in 1..1000, every accepted update keeps them so and sets the terminal type, if at all, to a
  non-empty name of letters, digits and hyphens; an accepted resize has both sizes in range; and
  a set-up terminal always has sizes in range and a type.\<close>

theorem terminal_sizes_in_range:
  assumes "terminal_ok c"
  shows "(processTerminalUpdate v c = ok c' \<longrightarrow> terminal_ok c' \<and>
         (tgTerm c' = tgTerm c \<or> (\<exists>t. tgTerm c' = Some t \<and> t \<noteq> [] \<and> list_all term_char t)))
    \<and> (handleTerminalResize w = ok (x, y) \<longrightarrow> in_range x 1 1000 \<and> in_range y 1 1000)
    \<and> (handleTerminalSetup v c serverTerm = ok t \<longrightarrow>
         in_range (tuCols t) 1 1000 \<and> in_range (tuRows t) 1 1000 \<and> tuTerm t \<noteq> [])"
proof -
  have "handleTerminalResize w = ok (x, y) \<Longrightarrow> in_range x 1 1000 \<and> in_range y 1 1000"
    using validateTerminalDimensions_ok
    by (fastforce simp: handleTerminalResize_def all_in_range_def split: if_splits sum.splits option.splits)
  moreover have "in_range (tuCols t) 1 1000 \<and> in_range (tuRows t) 1 1000 \<and> tuTerm t \<noteq> []"
    if "handleTerminalSetup v c serverTerm = ok t"
  proof -
    from that obtain c2 where u: "processTerminalUpdate v c = ok c2" and t: "t = createTerminalState c2 serverTerm"
      by (auto simp: handleTerminalSetup_def split: sum.splits)
    have "terminal_ok c2" using u assms by (rule processTerminalUpdate_ok)
    then show ?thesis unfolding t
      by (auto simp: createTerminalState_def terminal_ok_def all_in_range_def or_else_def in_range_def Let_def
          split: option.split)
  qed
  ultimately show ?thesis using processTerminalUpdate_ok assms by blast
qed

theorem terminal_sizes_in_range_witness:
  "\<exists>x y. handleTerminalResize (JObj [(''cols'', JNum (Num 80)), (''rows'', JNum (Num 24))]) = ok (x, y)
     \<and> in_range x 1 1000 \<and> in_range y 1 1000"
proof -
  have "terminal_ok \<lparr>tgTerm = None, tgCols = None, tgRows = None\<rparr>"
    by (simp add: terminal_ok_def all_in_range_def)
  moreover have "handleTerminalResize (JObj [(''cols'', JNum (Num 80)), (''rows'', JNum (Num 24))]) = ok (Num 80, Num 24)"
    by (simp add: handleTerminalResize_def nullish_def validateTerminalDimensions_def validateDimension_def Let_def)
  ultimately show ?thesis using terminal_sizes_in_range by blast
qed

end
