(* ===== verification/Shell_Commands.thy ===== *)
theory Shell_Commands
  imports JS_Strings
begin

text \<open>
  The shell backend of the file service, \<open>app/services/sftp/shell-commands.ts\<close>: building the
  commands, with a lexer of the POSIX shell as their specification, and reading the output of
  \<open>ls -la\<close>.  The modification time (\<open>parseLsDate\<close>) depends on the clock and time zone of
  the server and is a parameter.  \<open>getFileType\<close> and \<open>formatPermissions\<close> are those of
  \<open>sftp-session.ts\<close>, the SFTP backend that produces the same entries from mode words.
\<close>

unbundle bit_operations_syntax

section \<open>Commands\<close>

abbreviation quote :: char where "quote \<equiv> CHR 0x27"
abbreviation backslash :: char where "backslash \<equiv> CHR 0x5C"

definition escapeShellPath :: "string \<Rightarrow> string" where
  "escapeShellPath path =
     (let escaped = concat (map (\<lambda>c. if c = quote then [quote, backslash, quote, quote] else [c]) path)
      in quote # escaped @ [quote])"

definition buildListCommand :: "string \<Rightarrow> bool \<Rightarrow> string" where
  "buildListCommand path showHidden =
     (let flags = (if showHidden then ''-laA'' else ''-la'')
      in ''ls '' @ flags @ '' '' @ escapeShellPath path)"

definition buildStatCommand :: "string \<Rightarrow> string" where
  "buildStatCommand path = ''ls -lad '' @ escapeShellPath path"

definition buildHomeCommand :: string where
  "buildHomeCommand = ''echo ~''"

definition resolveHomePath :: "string \<Rightarrow> string" where
  "resolveHomePath stdout = trim stdout"

section \<open>The shell's reading of a command\<close>

text \<open>How a POSIX shell splits a line into words: blanks separate, a backslash quotes the next
  character, single quotes quote everything up to the next one.  Characters with another meaning
  to the shell outside quotes, an unterminated quote and a trailing backslash give
  \<open>None\<close>.\<close>

definition sh_plain :: "char \<Rightarrow> bool" where
  "sh_plain c \<longleftrightarrow> is_word c \<or> c \<in> {CHR ''-'', CHR ''.'', CHR ''/'', CHR '','', CHR '':'', CHR ''+'', CHR ''@''}"

fun sh_lex :: "string \<Rightarrow> string option \<Rightarrow> string list option"
  and sh_quoted :: "string \<Rightarrow> string \<Rightarrow> string list option" where
  "sh_lex [] None = Some []"
| "sh_lex [] (Some w) = Some [w]"
| "sh_lex (c # s) cur =
     (let w = (case cur of None \<Rightarrow> [] | Some v \<Rightarrow> v)
      in if c = CHR '' '' then
           (case cur of None \<Rightarrow> sh_lex s None | Some v \<Rightarrow> map_option ((#) v) (sh_lex s None))
         else if c = quote then sh_quoted s w
         else if c = backslash then
           (case s of [] \<Rightarrow> None | d # s' \<Rightarrow> if d = CHR 0x0A then None else sh_lex s' (Some (w @ [d])))
         else if sh_plain c then sh_lex s (Some (w @ [c]))
         else None)"
| "sh_quoted [] w = None"
| "sh_quoted (c # s) w = (if c = quote then sh_lex s (Some w) else sh_quoted s (w @ [c]))"

definition sh_words :: "string \<Rightarrow> string list option" where
  "sh_words s = sh_lex s None"

lemma sh_quoted_escaped:
  "sh_quoted (concat (map (\<lambda>c. if c = quote then [quote, backslash, quote, quote] else [c]) p) @ quote # s) w
     = sh_lex s (Some (w @ p))"
proof (induction p arbitrary: w)
  case Nil
  then show ?case by simp
next
  case (Cons c p)
  show ?case
  proof (cases "c = quote")
    case True
    then show ?thesis using Cons.IH [of "w @ [c]"] by (simp add: Let_def)
  next
    case False
    then show ?thesis using Cons.IH [of "w @ [c]"] by simp
  qed
qed

lemma sh_lex_escaped: "sh_lex (escapeShellPath p @ s) None = sh_lex s (Some p)"
  using sh_quoted_escaped [of p s "[]"] by (simp add: escapeShellPath_def Let_def)

lemma sh_lex_blank: "sh_lex (CHR '' '' # s) (Some w) = map_option ((#) w) (sh_lex s None)"
  by (simp add: Let_def)

lemma sh_lex_plain: "list_all sh_plain u \<Longrightarrow> sh_lex (u @ s) (Some w) = sh_lex s (Some (w @ u))"
proof (induction u arbitrary: w)
  case (Cons c u)
  then have "c \<noteq> CHR '' ''" "c \<noteq> quote" "c \<noteq> backslash"
    by (auto simp: sh_plain_def is_word_def is_alpha_def is_upper_def is_lower_def is_digit_def code_def)
  with Cons show ?case by (simp add: Let_def)
qed simp

section \<open>Listings\<close>

datatype sftp_file_type = FtFile | FtDirectory | FtSymlink | FtOther

record file_entry =
  feName :: string
  fePath :: string
  feType :: sftp_file_type
  feSize :: int
  fePermissions :: string
  fePermissionsOctal :: "32 word"
  feOwner :: string
  feGroup :: string
  feModifiedAt :: string
  feAccessedAt :: string
  feIsHidden :: bool

definition PERMISSION_BITS :: "32 word list" where
  "PERMISSION_BITS = [256, 128, 64, 32, 16, 8, 4, 2, 1]"

text \<open>\<open>s.charAt(i)\<close> is the empty string out of range.\<close>

definition char_at :: "string \<Rightarrow> nat \<Rightarrow> string" where
  "char_at s i = (if i < length s then [s ! i] else [])"

definition getFileTypeFromChar :: "string \<Rightarrow> sftp_file_type" where
  "getFileTypeFromChar c =
     (if c = ''d'' then FtDirectory else if c = ''l'' then FtSymlink else if c = ''-'' then FtFile
      else FtOther)"

definition parsePermissionString :: "string \<Rightarrow> 32 word" where
  "parsePermissionString permString =
     fold (\<lambda>(i, b) octal. if char_at permString (i + 1) \<noteq> ''-'' then octal OR b else octal)
       (enumerate 0 PERMISSION_BITS) 0"

text \<open>\<open>line.split(/\s+/)\<close>: maximal runs of white space separate.\<close>

fun split_space :: "string \<Rightarrow> string list" where
  "split_space [] = [[]]"
| "split_space (c # s) =
     (if is_space c then
        (case s of [] \<Rightarrow> [[], []]
         | d # _ \<Rightarrow> if is_space d then split_space s else [] # split_space s)
      else case split_space s of [] \<Rightarrow> [[c]] | w # ws \<Rightarrow> (c # w) # ws)"

fun skip_fields :: "nat \<Rightarrow> string list \<Rightarrow> string \<Rightarrow> string option" where
  "skip_fields 0 parts line = Some line"
| "skip_fields (Suc n) [] line = None"
| "skip_fields (Suc n) (p # ps) line =
     skip_fields n ps (drop (length p) (dropWhile (\<lambda>c. c = CHR '' '') line))"

text \<open>The code keeps a position into the line; here the rest of the line from that position.\<close>

definition findNameStart :: "string \<Rightarrow> string list \<Rightarrow> string option" where
  "findNameStart line parts =
     (case skip_fields 8 parts line of None \<Rightarrow> None
      | Some rest \<Rightarrow>
          let name = dropWhile (\<lambda>c. c = CHR '' '') rest in if name = [] then None else Some name)"

definition parseLsLine :: "(string \<Rightarrow> string \<Rightarrow> string \<Rightarrow> string) \<Rightarrow> string \<Rightarrow> string \<Rightarrow> file_entry option" where
  "parseLsLine lsDate line basePath =
     (let parts = split_space line
      in if length parts < 9 then None
         else
           let permString = parts ! 0
           in if length permString < 10 then None
              else case findNameStart line parts of None \<Rightarrow> None
              | Some name0 \<Rightarrow>
                  let name = (case index_of '' -> '' name0 of None \<Rightarrow> name0 | Some k \<Rightarrow> take k name0);
                      modifiedAt = lsDate (parts ! 5) (parts ! 6) (parts ! 7);
                      fullPath = (if basePath = ''/'' \<or> basePath = ''.'' then ''/'' @ name
                                  else basePath @ ''/'' @ name)
                  in Some \<lparr>feName = name, fePath = fullPath,
                           feType = getFileTypeFromChar (char_at permString 0),
                           feSize = (case parse_int (parts ! 4) of None \<Rightarrow> 0 | Some n \<Rightarrow> n),
                           fePermissions = take 9 (drop 1 permString),
                           fePermissionsOctal = parsePermissionString permString,
                           feOwner = parts ! 2, feGroup = parts ! 3, feModifiedAt = modifiedAt,
                           feAccessedAt = modifiedAt, feIsHidden = starts_with name ''.''\<rparr>)"

definition header_line :: "string \<Rightarrow> bool" where
  "header_line l \<longleftrightarrow> l = [] \<or> starts_with l ''total ''"

definition parseDirectoryListing :: "(string \<Rightarrow> string \<Rightarrow> string \<Rightarrow> string) \<Rightarrow> string \<Rightarrow> string \<Rightarrow>
    file_entry list" where
  "parseDirectoryListing lsDate stdout basePath =
     List.map_filter (\<lambda>line.
         let trimmed = trim line
         in if header_line trimmed then None
            else case parseLsLine lsDate trimmed basePath of None \<Rightarrow> None
              | Some entry \<Rightarrow>
                  if feName entry = ''.'' \<or> feName entry = ''..'' then None else Some entry)
       (split_on (CHR 0x0A) stdout)"

text \<open>\<open>path.posix.dirname\<close>, used for the base of a single entry, is overridden below, so it is
  a parameter.\<close>

fun parseStatLines :: "(string \<Rightarrow> string \<Rightarrow> string \<Rightarrow> string) \<Rightarrow> (string \<Rightarrow> string) \<Rightarrow> string \<Rightarrow>
    string list \<Rightarrow> file_entry option" where
  "parseStatLines lsDate dirname path [] = None"
| "parseStatLines lsDate dirname path (line # ls) =
     (let trimmed = trim line
      in if header_line trimmed then parseStatLines lsDate dirname path ls
         else case parseLsLine lsDate trimmed (dirname path) of
             Some entry \<Rightarrow> Some (entry\<lparr>fePath := path, feName := posix_basename path\<rparr>)
           | None \<Rightarrow> parseStatLines lsDate dirname path ls)"

definition parseStatEntry :: "(string \<Rightarrow> string \<Rightarrow> string \<Rightarrow> string) \<Rightarrow> (string \<Rightarrow> string) \<Rightarrow> string \<Rightarrow>
    string \<Rightarrow> file_entry option" where
  "parseStatEntry lsDate dirname stdout path =
     parseStatLines lsDate dirname path (split_on (CHR 0x0A) stdout)"

section \<open>Mode words\<close>

definition getFileType :: "32 word \<Rightarrow> sftp_file_type" where
  "getFileType mode =
     (let type = mode AND 0xF000
      in if type = 0x4000 then FtDirectory else if type = 0x8000 then FtFile
         else if type = 0xA000 then FtSymlink else FtOther)"

definition formatPermissions :: "32 word \<Rightarrow> string" where
  "formatPermissions mode =
     (let perms = mode AND 0x1FF
      in [if perms AND 256 = 0 then CHR ''-'' else CHR ''r'',
          if perms AND 128 = 0 then CHR ''-'' else CHR ''w'',
          if perms AND 64 = 0 then CHR ''-'' else CHR ''x'',
          if perms AND 32 = 0 then CHR ''-'' else CHR ''r'',
          if perms AND 16 = 0 then CHR ''-'' else CHR ''w'',
          if perms AND 8 = 0 then CHR ''-'' else CHR ''x'',
          if perms AND 4 = 0 then CHR ''-'' else CHR ''r'',
          if perms AND 2 = 0 then CHR ''-'' else CHR ''w'',
          if perms AND 1 = 0 then CHR ''-'' else CHR ''x''])"

section \<open>Permissions\<close>

lemma and_lit: "x = 2 ^ k \<Longrightarrow> m AND x = 0 \<longleftrightarrow> \<not> bit m k" for m x :: "32 word"
  by (simp add: bit_iff_and_push_bit_not_eq_0 push_bit_eq_mult)

lemma bit_lit: "x = 2 ^ k \<Longrightarrow> k < 32 \<Longrightarrow> bit x n \<longleftrightarrow> n = k" for x :: "32 word"
  by (auto simp: bit_exp_iff)

lemma perm_bit_zero:
  fixes m :: "32 word"
  shows "m AND 256 = 0 \<longleftrightarrow> \<not> bit m 8" "m AND 128 = 0 \<longleftrightarrow> \<not> bit m 7" "m AND 64 = 0 \<longleftrightarrow> \<not> bit m 6"
    "m AND 32 = 0 \<longleftrightarrow> \<not> bit m 5" "m AND 16 = 0 \<longleftrightarrow> \<not> bit m 4" "m AND 8 = 0 \<longleftrightarrow> \<not> bit m 3"
    "m AND 4 = 0 \<longleftrightarrow> \<not> bit m 2" "m AND 2 = 0 \<longleftrightarrow> \<not> bit m 1" "m AND 1 = 0 \<longleftrightarrow> \<not> bit m 0"
  by (rule and_lit, simp)+

lemma perm_bit:
  "bit (256 :: 32 word) n \<longleftrightarrow> n = 8" "bit (128 :: 32 word) n \<longleftrightarrow> n = 7" "bit (64 :: 32 word) n \<longleftrightarrow> n = 6"
  "bit (32 :: 32 word) n \<longleftrightarrow> n = 5" "bit (16 :: 32 word) n \<longleftrightarrow> n = 4" "bit (8 :: 32 word) n \<longleftrightarrow> n = 3"
  "bit (4 :: 32 word) n \<longleftrightarrow> n = 2" "bit (2 :: 32 word) n \<longleftrightarrow> n = 1" "bit (1 :: 32 word) n \<longleftrightarrow> n = 0"
  by (rule bit_lit, simp, simp)+

lemma bit_0x1FF: "bit (0x1FF :: 32 word) n \<longleftrightarrow> n < 9"
proof -
  have "(0x1FF :: 32 word) = mask 9" by (simp add: mask_eq_exp_minus_1)
  then have "bit (0x1FF :: 32 word) n \<longleftrightarrow> n < 32 \<and> n < 9"
    by (simp only: bit_mask_iff possible_bit_word) simp
  then show ?thesis by linarith
qed

lemma below_9: "n < 9 \<longleftrightarrow> n = 0 \<or> n = 1 \<or> n = 2 \<or> n = 3 \<or> n = 4 \<or> n = 5 \<or> n = 6 \<or> n = 7 \<or> n = (8::nat)"
  by linarith

lemma or_if: "bit (if q then x OR y else x) n \<longleftrightarrow> bit x n \<or> q \<and> bit y n" for x y :: "32 word"
  by (simp add: bit_or_iff)

lemma parse_permission_bits:
  assumes "length p = 9"
  shows "bit (parsePermissionString (t # p)) n \<longleftrightarrow> n < 9 \<and> p ! (8 - n) \<noteq> CHR ''-''"
proof -
  obtain a b c d e f g h i where p: "p = [a, b, c, d, e, f, g, h, i]"
    using assms by (auto simp: numeral_eq_Suc length_Suc_conv)
  have "bit (parsePermissionString (t # p)) n \<longleftrightarrow>
      a \<noteq> CHR ''-'' \<and> n = 8 \<or> b \<noteq> CHR ''-'' \<and> n = 7 \<or> c \<noteq> CHR ''-'' \<and> n = 6 \<or> d \<noteq> CHR ''-'' \<and> n = 5
      \<or> e \<noteq> CHR ''-'' \<and> n = 4 \<or> f \<noteq> CHR ''-'' \<and> n = 3 \<or> g \<noteq> CHR ''-'' \<and> n = 2 \<or> h \<noteq> CHR ''-'' \<and> n = 1
      \<or> i \<noteq> CHR ''-'' \<and> n = 0"
    unfolding p parsePermissionString_def PERMISSION_BITS_def
    by (simp only: enumerate_simps fold_simps case_prod_conv or_if perm_bit char_at_def) simp
  also have "\<dots> \<longleftrightarrow> n < 9 \<and> p ! (8 - n) \<noteq> CHR ''-''"
  proof (cases "n < 9")
    case True
    then show ?thesis unfolding p below_9 by (elim disjE) simp_all
  next
    case False
    then show ?thesis by auto
  qed
  finally show ?thesis .
qed

lemma format_permission_chars:
  assumes "n < 9"
  shows "formatPermissions m ! (8 - n) \<noteq> CHR ''-'' \<longleftrightarrow> bit m n"
  using assms unfolding below_9
  by (elim disjE) (simp_all add: formatPermissions_def Let_def perm_bit_zero bit_and_iff bit_0x1FF)

section \<open>Reading a listing\<close>

definition field :: "string \<Rightarrow> bool" where
  "field f \<longleftrightarrow> f \<noteq> [] \<and> list_all (\<lambda>c. \<not> is_space c) f"

abbreviation blanks :: "nat \<Rightarrow> string" where "blanks n \<equiv> replicate (Suc n) (CHR '' '')"

lemma is_space_blank [simp]: "is_space (CHR '' '')"
  by code_simp

lemma split_space_not_Nil [simp]: "split_space s \<noteq> []"
proof (induction s)
  case (Cons c t)
  then show ?case
    by (subst split_space.simps(2)) (cases t; cases "split_space t"; simp del: split_space.simps(2))
qed simp

lemma split_space_blanks:
  "r \<noteq> [] \<Longrightarrow> \<not> is_space (hd r) \<Longrightarrow> split_space (blanks n @ r) = [] # split_space r"
proof (induction n)
  case 0
  then obtain c s where "r = c # s" "\<not> is_space c" by (cases r) auto
  then show ?case by simp
next
  case (Suc n)
  then show ?case by simp
qed

lemma split_space_prefix:
  "list_all (\<lambda>c. \<not> is_space c) f \<Longrightarrow> split_space s = w # ws \<Longrightarrow> split_space (f @ s) = (f @ w) # ws"
  by (induction f) auto

lemma split_space_field:
  assumes "field f" and "r \<noteq> []" and "\<not> is_space (hd r)"
  shows "split_space (f @ blanks n @ r) = f # split_space r"
  using split_space_prefix [OF _ split_space_blanks [OF assms(2,3), of n], of f] assms(1)
  by (simp add: field_def)

lemma drop_blanks: "r \<noteq> [] \<Longrightarrow> \<not> is_space (hd r) \<Longrightarrow> dropWhile (\<lambda>c. c = CHR '' '') (blanks n @ r) = r"
proof -
  assume "r \<noteq> []" and "\<not> is_space (hd r)"
  then obtain c s where r: "r = c # s" "\<not> is_space c" by (cases r) auto
  then have "c \<noteq> CHR '' ''" using is_space_blank by metis
  then show ?thesis unfolding r by (induction n) simp_all
qed

fun padded :: "(string \<times> nat) list \<Rightarrow> string \<Rightarrow> string" where
  "padded [] name = name"
| "padded ((f, n) # fs) name = f @ blanks n @ padded fs name"

lemma padded_hd:
  "list_all (\<lambda>(f, n). field f) fs \<Longrightarrow> name \<noteq> [] \<Longrightarrow> \<not> is_space (hd name) \<Longrightarrow>
     padded fs name \<noteq> [] \<and> \<not> is_space (hd (padded fs name))"
  by (cases "(fs, name)" rule: padded.cases) (auto simp: field_def neq_Nil_conv)

lemma split_space_padded:
  assumes "name \<noteq> []" and "\<not> is_space (hd name)"
  shows "list_all (\<lambda>(f, n). field f) fs \<Longrightarrow>
     split_space (padded fs name) = map fst fs @ split_space name"
proof (induction fs)
  case (Cons x fs)
  obtain f n where "x = (f, n)" by fastforce
  with Cons padded_hd [of fs name] assms show ?case by (simp add: split_space_field del: replicate_Suc)
qed simp

lemma skip_fields_padded:
  assumes "name \<noteq> []" and "\<not> is_space (hd name)"
  shows "list_all (\<lambda>(f, n). field f) fs \<Longrightarrow> field g \<Longrightarrow> \<exists>r.
     skip_fields (Suc (length fs)) (map fst fs @ g # ws) (blanks k @ padded fs (g @ blanks n @ name)) = Some r
     \<and> r = blanks n @ name"
proof (induction fs arbitrary: k)
  case Nil
  then have "g @ blanks n @ name \<noteq> []" and "\<not> is_space (hd (g @ blanks n @ name))"
    by (auto simp: field_def neq_Nil_conv)
  then show ?case by (simp add: drop_blanks del: append_assoc replicate_Suc)
next
  case (Cons x fs)
  obtain f m where x: "x = (f, m)" by fastforce
  have "padded (x # fs) (g @ blanks n @ name) \<noteq> []"
    and "\<not> is_space (hd (padded (x # fs) (g @ blanks n @ name)))"
    using Cons.prems x by (auto simp: field_def neq_Nil_conv)
  then show ?case using Cons.IH [of m] Cons.prems x
    by (simp add: drop_blanks del: append_assoc replicate_Suc)
qed

text \<open>A line of \<open>ls -l\<close> as the tools print it: eight fields, each followed by one or more blanks,
  and the name.\<close>

record ls_row =
  lrPerm :: string
  lrLinks :: string
  lrOwner :: string
  lrGroup :: string
  lrSize :: nat
  lrMonth :: string
  lrDay :: string
  lrTime :: string
  lrPads :: "nat \<Rightarrow> nat"
  lrName :: string

definition row_fields :: "ls_row \<Rightarrow> string list" where
  "row_fields r = [lrPerm r, lrLinks r, lrOwner r, lrGroup r, show_nat (lrSize r), lrMonth r, lrDay r, lrTime r]"

definition ls_line :: "ls_row \<Rightarrow> string" where
  "ls_line r = padded (zip (row_fields r) (map (lrPads r) [0..<8])) (lrName r)"

definition row_ok :: "ls_row \<Rightarrow> bool" where
  "row_ok r \<longleftrightarrow> list_all field (row_fields r) \<and> 10 \<le> length (lrPerm r)
     \<and> lrName r \<noteq> [] \<and> \<not> is_space (hd (lrName r)) \<and> \<not> is_space (last (lrName r))
     \<and> CHR 0x0A \<notin> set (lrName r) \<and> index_of '' -> '' (lrName r) = None"

definition row_entry :: "(string \<Rightarrow> string \<Rightarrow> string \<Rightarrow> string) \<Rightarrow> string \<Rightarrow> ls_row \<Rightarrow> file_entry" where
  "row_entry lsDate basePath r =
     (let t = lsDate (lrMonth r) (lrDay r) (lrTime r)
      in \<lparr>feName = lrName r,
          fePath = (if basePath = ''/'' \<or> basePath = ''.'' then ''/'' @ lrName r
                    else basePath @ ''/'' @ lrName r),
          feType = getFileTypeFromChar (char_at (lrPerm r) 0), feSize = int (lrSize r),
          fePermissions = take 9 (drop 1 (lrPerm r)),
          fePermissionsOctal = parsePermissionString (lrPerm r),
          feOwner = lrOwner r, feGroup = lrGroup r, feModifiedAt = t, feAccessedAt = t,
          feIsHidden = starts_with (lrName r) ''.''\<rparr>)"

lemma zip_8: "zip [a, b, c, d, e, f, g, h] (map k [0..<8])
   = [(a, k 0), (b, k 1), (c, k 2), (d, k 3), (e, k 4), (f, k 5), (g, k 6), (h, k 7)]"
  by (simp add: upt_conv_Cons numeral_eq_Suc)

lemma row_ok_fields:
  assumes "row_ok r"
  shows "list_all (\<lambda>(f, n). field f) (zip (row_fields r) (map (lrPads r) [0..<8]))"
  using assms by (simp add: row_ok_def row_fields_def zip_8)

lemma split_space_row:
  assumes "row_ok r"
  shows "split_space (ls_line r) = row_fields r @ split_space (lrName r)"
proof -
  have "map fst (zip (row_fields r) (map (lrPads r) [0..<8])) = row_fields r"
    by (simp add: row_fields_def)
  then show ?thesis
    using split_space_padded [OF _ _ row_ok_fields [OF assms], of "lrName r"] assms
    by (simp add: ls_line_def row_ok_def)
qed

lemma skip_fields_step:
  "r \<noteq> [] \<Longrightarrow> \<not> is_space (hd r) \<Longrightarrow>
     skip_fields (Suc n) (f # ps) (blanks k @ f @ s) = skip_fields n ps s"
  if "r = f @ s"
  using that drop_blanks [of r k] by (simp del: replicate_Suc)

lemma skip_fields_all:
  "list_all (\<lambda>(f, n). field f) fs \<Longrightarrow> name \<noteq> [] \<Longrightarrow> \<not> is_space (hd name) \<Longrightarrow>
     \<exists>j. skip_fields (length fs) (map fst fs @ ws) (blanks k @ padded fs name) = Some (blanks j @ name)"
proof (induction fs arbitrary: k)
  case Nil
  then show ?case by auto
next
  case (Cons x fs)
  obtain f n where x: "x = (f, n)" by fastforce
  have "f @ blanks n @ padded fs name \<noteq> []" and "\<not> is_space (hd (f @ blanks n @ padded fs name))"
    using Cons.prems x by (auto simp: field_def neq_Nil_conv)
  from skip_fields_step [OF refl this, of "length fs" "map fst fs @ ws" k]
  show ?case using Cons.IH [of n] Cons.prems x by (simp del: replicate_Suc)
qed

lemma skip_fields_no_blank:
  assumes "r \<noteq> []" and "\<not> is_space (hd r)"
  shows "skip_fields n ps r = skip_fields n ps (blanks 0 @ r) \<or> n = 0"
  using drop_blanks [OF assms, of 0] drop_blanks [OF assms, of 0]
proof (cases "(n, ps, r)" rule: skip_fields.cases)
  case (3 n' p ps' line)
  have "dropWhile (\<lambda>c. c = CHR '' '') r = r" using assms is_space_blank by (cases r) auto
  with 3 drop_blanks [OF assms, of 0] show ?thesis by simp
qed simp_all

lemma findNameStart_row:
  assumes "row_ok r"
  shows "findNameStart (ls_line r) (split_space (ls_line r)) = Some (lrName r)"
proof -
  let ?fs = "zip (row_fields r) (map (lrPads r) [0..<8])"
  note fields = row_ok_fields [OF assms]
  have name: "lrName r \<noteq> []" "\<not> is_space (hd (lrName r))" using assms by (auto simp: row_ok_def)
  have fst: "map fst ?fs = row_fields r" and len: "length ?fs = 8" by (simp_all add: row_fields_def)
  have "ls_line r \<noteq> []" "\<not> is_space (hd (ls_line r))"
    using padded_hd [OF fields name] by (simp_all add: ls_line_def)
  then have "skip_fields 8 (split_space (ls_line r)) (ls_line r)
      = skip_fields 8 (split_space (ls_line r)) (blanks 0 @ ls_line r)"
    using skip_fields_no_blank by (metis zero_neq_numeral)
  also have "\<exists>j. \<dots> = Some (blanks j @ lrName r)"
    using skip_fields_all [OF fields name, of "split_space (lrName r)" 0]
    unfolding split_space_row [OF assms] unfolding ls_line_def by (simp only: fst len)
  finally obtain j where "skip_fields 8 (split_space (ls_line r)) (ls_line r) = Some (blanks j @ lrName r)" ..
  then show ?thesis using drop_blanks [OF name, of j] name(1)
    by (simp add: findNameStart_def Let_def del: replicate_Suc)
qed

section \<open>Rows read back\<close>

lemma parseLsLine_row:
  assumes "row_ok r"
  shows "parseLsLine lsDate (ls_line r) basePath = Some (row_entry lsDate basePath r)"
proof -
  have len: "\<not> length (split_space (ls_line r)) < 9"
    using split_space_not_Nil [of "lrName r"]
    by (cases "split_space (lrName r)") (simp_all add: split_space_row [OF assms] row_fields_def)
  have nth: "split_space (ls_line r) ! 0 = lrPerm r" "split_space (ls_line r) ! 2 = lrOwner r"
    "split_space (ls_line r) ! 3 = lrGroup r" "split_space (ls_line r) ! 4 = show_nat (lrSize r)"
    "split_space (ls_line r) ! 5 = lrMonth r" "split_space (ls_line r) ! 6 = lrDay r"
    "split_space (ls_line r) ! 7 = lrTime r"
    by (simp_all add: split_space_row [OF assms] row_fields_def)
  show ?thesis using assms
    by (simp add: parseLsLine_def len nth findNameStart_row row_entry_def parse_show_nat row_ok_def Let_def)
qed

lemma trim_id: "s \<noteq> [] \<Longrightarrow> \<not> is_space (hd s) \<Longrightarrow> \<not> is_space (last s) \<Longrightarrow> trim s = s"
proof -
  assume s: "s \<noteq> []" "\<not> is_space (hd s)" "\<not> is_space (last s)"
  have "dropWhile is_space s = s" using s by (cases s) auto
  moreover have "dropWhile is_space (rev s) = rev s"
    using s by (cases s rule: rev_cases) auto
  ultimately show ?thesis by (simp add: trim_def)
qed

lemma padded_last: "name \<noteq> [] \<Longrightarrow> last (padded fs name) = last name"
proof (induction fs name rule: padded.induct)
  case (2 f n fs name)
  then have "padded fs name \<noteq> []" by (cases "(fs, name)" rule: padded.cases) auto
  with 2 show ?case by (simp add: last_append)
qed simp

lemma padded_set: "set (padded fs name) \<subseteq> insert (CHR '' '') (\<Union> (set ` fst ` set fs)) \<union> set name"
  by (induction fs name rule: padded.induct) auto

lemma row_line_facts:
  assumes "row_ok r"
  shows "trim (ls_line r) = ls_line r" and "\<not> header_line (ls_line r)" and "CHR 0x0A \<notin> set (ls_line r)"
proof -
  let ?fs = "zip (row_fields r) (map (lrPads r) [0..<8])"
  note fields = row_ok_fields [OF assms]
  have name: "lrName r \<noteq> []" "\<not> is_space (hd (lrName r))" "\<not> is_space (last (lrName r))"
    "CHR 0x0A \<notin> set (lrName r)" using assms by (auto simp: row_ok_def)
  have hd: "ls_line r \<noteq> []" "\<not> is_space (hd (ls_line r))"
    using padded_hd [OF fields name(1,2)] by (simp_all add: ls_line_def)
  then show "trim (ls_line r) = ls_line r"
    using name by (intro trim_id) (simp_all add: ls_line_def padded_last)
  have "ls_line r = lrPerm r @ drop (length (lrPerm r)) (ls_line r)"
    by (simp add: ls_line_def row_fields_def zip_8 del: replicate_Suc)
  then have "take 10 (ls_line r) = take 10 (lrPerm r)"
    using assms by (metis (no_types, lifting) append_Nil2 diff_is_0_eq row_ok_def take0 take_append)
  moreover have "list_all (\<lambda>c. \<not> is_space c) (lrPerm r)"
    using assms by (simp add: row_ok_def row_fields_def field_def)
  ultimately have "list_all (\<lambda>c. \<not> is_space c) (take 10 (ls_line r))"
    by (auto simp: list_all_iff dest: in_set_takeD)
  moreover have "CHR '' '' \<in> set (take 10 (ls_line r))" if "starts_with (ls_line r) ''total ''"
  proof -
    from that obtain u where "ls_line r = ''total '' @ u" by (auto simp: starts_with_iff)
    then show ?thesis by simp
  qed
  ultimately show "\<not> header_line (ls_line r)"
    using hd(1) is_space_blank by (metis header_line_def list_all_iff)
  have nl: "is_space (CHR 0x0A)" by code_simp
  have "CHR 0x0A \<notin> set f" if "f \<in> fst ` set ?fs" for f
    using that fields nl by (auto simp: list_all_iff field_def)
  then have "CHR 0x0A \<notin> insert (CHR '' '') (\<Union> (set ` fst ` set ?fs)) \<union> set (lrName r)"
    using name(4) by blast
  then show "CHR 0x0A \<notin> set (ls_line r)"
    unfolding ls_line_def using padded_set [of ?fs "lrName r"] by blast
qed

lemma split_lines: "\<forall>l\<in>set ls. c \<notin> set l \<Longrightarrow> ls \<noteq> [] \<Longrightarrow> split_on c (join_with [c] ls) = ls"
  by (rule split_on_join) (auto simp: list_all_iff)

lemma total_line:
  shows "header_line (trim (''total '' @ show_nat n))" and "CHR 0x0A \<notin> set (''total '' @ show_nat n)"
proof -
  have d: "\<forall>c\<in>set (show_nat n). is_digit c" "show_nat n \<noteq> []"
    using show_nat_digits [of n] by (simp_all add: list_all_iff)
  have t: "\<not> is_space (CHR ''t'')" and nl: "is_space (CHR 0x0A)" by code_simp+
  have "\<not> is_space (last (show_nat n))" using d digit_not_special by (metis last_in_set)
  then have "trim (''total '' @ show_nat n) = ''total '' @ show_nat n"
    using t d(2) by (intro trim_id) simp_all
  then show "header_line (trim (''total '' @ show_nat n))" by (simp add: header_line_def starts_with_def)
  show "CHR 0x0A \<notin> set (''total '' @ show_nat n)" using d(1) nl digit_not_special by auto
qed

section \<open>Corner cases\<close>

text \<open>A regular file whose name contains an arrow is listed under the part before it.\<close>

lemma arrow_name_truncated:
  "map_option feName (parseLsLine (\<lambda>_ _ _. []) ''-rw-r--r-- 1 u g 4 Jan 1 2024 a -> b'' ''/d'') = Some ''a''"
  by code_simp

text \<open>A set-uid bit without execute permission, shown as \<open>S\<close>, is read as an execute bit.\<close>

lemma setuid_read_as_execute: "parsePermissionString ''-rwSr--r--'' = 0x1E4"
  by (simp add: parsePermissionString_def PERMISSION_BITS_def char_at_def)

text \<open>A relative path that begins with a dash reaches \<open>ls\<close> as options.\<close>

lemma dash_path_is_option: "sh_words (buildStatCommand ''-R'') = Some [''ls'', ''-lad'', ''-R'']"
  by code_simp

section \<open>Properties\<close>

text \<open>No command injection.  Whatever bytes a path holds, the shell reads the commands built
  from it as exactly three words: the program, the flags and the path itself; and an escaped path
  stands for the path in every position where a new word begins.\<close>

theorem shell_commands_quote:
  "sh_words (buildListCommand path showHidden)
     = Some [''ls'', if showHidden then ''-laA'' else ''-la'', path]
   \<and> sh_words (buildStatCommand path) = Some [''ls'', ''-lad'', path]
   \<and> sh_lex (escapeShellPath path @ rest) None = sh_lex rest (Some path)"
proof -
  have plain: "sh_plain (CHR ''l'')" "sh_plain (CHR ''s'')" "sh_plain (CHR ''-'')" "sh_plain (CHR ''a'')"
    "sh_plain (CHR ''A'')" "sh_plain (CHR ''d'')" by code_simp+
  have word: "sh_lex (c # u @ CHR '' '' # s) None = map_option ((#) (c # u)) (sh_lex s None)"
    if "list_all sh_plain (c # u)" for c u s
  proof -
    have "c \<noteq> CHR '' ''" "c \<noteq> quote" "c \<noteq> backslash"
      using that by (auto simp: sh_plain_def is_word_def is_alpha_def is_upper_def is_lower_def
          is_digit_def code_def)
    then have "sh_lex (c # u @ CHR '' '' # s) None = sh_lex (u @ CHR '' '' # s) (Some [c])"
      using that by (simp add: Let_def)
    also have "\<dots> = sh_lex (CHR '' '' # s) (Some (c # u))"
      using sh_lex_plain [of u "CHR '' '' # s" "[c]"] that by simp
    finally show ?thesis by (simp only: sh_lex_blank)
  qed
  have path: "sh_lex (escapeShellPath path) None = Some [path]"
    using sh_lex_escaped [of path "[]"] by simp
  have ls: "sh_words (''ls '' @ flags @ '' '' @ escapeShellPath path) = Some [''ls'', flags, path]"
    if "flags = c # u" and "list_all sh_plain flags" for flags c u
    using word [of "CHR ''l''" "''s''" "flags @ CHR '' '' # escapeShellPath path"]
      word [of c u "escapeShellPath path"] that path plain by (simp add: sh_words_def del: sh_lex.simps)
  show ?thesis
    using ls [of "''-laA''"] ls [of "''-la''"] ls [of "''-lad''"] plain sh_lex_escaped
    by (simp add: buildListCommand_def buildStatCommand_def Let_def)
qed

text \<open>Permissions survive the round trip.  Formatting the permission bits of a mode word and
  parsing the text, after any type character, gives the nine permission bits back; the text has
  nine characters and shows a letter exactly for a set bit.\<close>

theorem permissions_roundtrip:
  "parsePermissionString (t # formatPermissions mode) = mode AND 0x1FF
   \<and> length (formatPermissions mode) = 9"
proof -
  have len: "length (formatPermissions mode) = 9" by (simp add: formatPermissions_def Let_def)
  have "bit (parsePermissionString (t # formatPermissions mode)) n \<longleftrightarrow> bit (mode AND 0x1FF) n" for n
    using format_permission_chars [of n mode]
    by (simp only: parse_permission_bits [OF len] bit_and_iff bit_0x1FF) blast
  then show ?thesis using len by (simp add: bit_eq_iff)
qed

text \<open>C36: listings are read back.  For any rows of \<open>ls -la\<close> whose fields are separated by one or
  more blanks and whose names neither begin nor end with white space nor hold a line feed or an
  arrow (inner blanks are allowed), parsing the output after its \<open>total\<close> line gives one entry per
  row, in order and with the row's values, except for the rows of \<open>.\<close> and \<open>..\<close>.\<close>

theorem listing_roundtrip:
  assumes "list_all row_ok rows"
  shows "parseDirectoryListing lsDate
      (join_with [CHR 0x0A] ((''total '' @ show_nat blocks) # map ls_line rows)) basePath
    = map (row_entry lsDate basePath) (filter (\<lambda>r. lrName r \<notin> {''.'', ''..''}) rows)"
proof -
  let ?parse = "\<lambda>line. let trimmed = trim line
         in if header_line trimmed then None
            else case parseLsLine lsDate trimmed basePath of None \<Rightarrow> None
              | Some entry \<Rightarrow> if feName entry = ''.'' \<or> feName entry = ''..'' then None else Some entry"
  have "\<forall>l\<in>set ((''total '' @ show_nat blocks) # map ls_line rows). CHR 0x0A \<notin> set l"
    using assms row_line_facts(3) total_line(2) by (auto simp: list_all_iff)
  then have "split_on (CHR 0x0A) (join_with [CHR 0x0A] ((''total '' @ show_nat blocks) # map ls_line rows))
      = (''total '' @ show_nat blocks) # map ls_line rows" by (rule split_lines) simp
  moreover have "?parse (''total '' @ show_nat blocks) = None"
    using total_line(1) by (simp add: Let_def)
  moreover have "?parse (ls_line r) = (if lrName r \<in> {''.'', ''..''} then None
      else Some (row_entry lsDate basePath r))" if "row_ok r" for r
    by (simp add: row_line_facts [OF that] parseLsLine_row [OF that] Let_def) (simp add: row_entry_def Let_def)
  then have "List.map_filter ?parse (map ls_line rows)
      = map (row_entry lsDate basePath) (filter (\<lambda>r. lrName r \<notin> {''.'', ''..''}) rows)"
    using assms(1) by (induction rows) (auto simp: List.map_filter_def)
  ultimately show ?thesis
    by (simp add: parseDirectoryListing_def List.map_filter_def)
qed

definition demo_row :: "string \<Rightarrow> ls_row" where
  "demo_row name = \<lparr>lrPerm = ''drwxr-xr-x'', lrLinks = ''2'', lrOwner = ''root'', lrGroup = ''wheel'',
     lrSize = 4096, lrMonth = ''Jan'', lrDay = ''1'', lrTime = ''00:00'', lrPads = (\<lambda>i. i mod 3),
     lrName = name\<rparr>"

lemma field_show_nat: "field (show_nat n)"
  using show_nat_digits [of n] digit_not_special by (auto simp: field_def list_all_iff)

lemma demo_fields:
  "list_all field [''drwxr-xr-x'', ''2'', ''root'', ''wheel'', ''Jan'', ''1'', ''00:00'']"
  by code_simp

lemma demo_names: "list_all (\<lambda>n. n \<noteq> [] \<and> \<not> is_space (hd n) \<and> \<not> is_space (last n) \<and> CHR 0x0A \<notin> set n
    \<and> index_of '' -> '' n = None) [''.'', ''my  file'', ''..'']"
  by code_simp

lemma demo_rows_ok: "list_all row_ok [demo_row ''.'', demo_row ''my  file'', demo_row ''..'']"
  using demo_fields demo_names field_show_nat [of 4096]
  by (simp add: row_ok_def row_fields_def demo_row_def)

theorem listing_roundtrip_witness:
  "map feName (parseDirectoryListing (\<lambda>_ _ _. [])
      (join_with [CHR 0x0A] ((''total '' @ show_nat 4) # map ls_line
        [demo_row ''.'', demo_row ''my  file'', demo_row ''..''])) ''/srv'')
   = [''my  file'']"
  unfolding listing_roundtrip [OF demo_rows_ok] by (simp add: demo_row_def row_entry_def Let_def)

end
