(* ===== verification/Sftp_Session.thy ===== *)
theory Sftp_Session
  imports Shell_Commands
begin

text \<open>
  SFTP sessions on SSH connections, \<open>app/services/sftp/sftp-session.ts\<close>.  The ssh2 library answers
  each request with a callback; an operation settles with the first of its callback, its timer and
  an exception of the call, and that first event is the \<open>answer\<close> the operations take.  The printer
  of dates is a parameter.  The last activity of a session is written and never read; it is left
  out.
\<close>

section \<open>Errors and answers\<close>

datatype session_error_code = SESSION_ERROR | NOT_FOUND | PERMISSION_DENIED | TIMED_OUT | OPERATION_FAILED

record session_error =
  xeCode :: session_error_code
  xeMessage :: string
  xePath :: "string option"

datatype 'a answer = Answered 'a | Refused string | Expired | Threw "string option"

definition mapSftpError :: "string \<Rightarrow> string option \<Rightarrow> session_error" where
  "mapSftpError errorMessage path =
     (let message = to_lower errorMessage
      in if str_includes message ''no such file'' \<or> str_includes message ''not found''
         then \<lparr>xeCode = NOT_FOUND, xeMessage = ''File or directory not found'', xePath = path\<rparr>
         else if str_includes message ''permission denied'' \<or> str_includes message ''access denied''
         then \<lparr>xeCode = PERMISSION_DENIED, xeMessage = ''Permission denied'', xePath = path\<rparr>
         else \<lparr>xeCode = OPERATION_FAILED, xeMessage = errorMessage, xePath = path\<rparr>)"

definition thrown :: "string option \<Rightarrow> string" where
  "thrown m = (case m of None \<Rightarrow> ''Unknown error'' | Some e \<Rightarrow> e)"

definition wrapSftpOperation :: "string \<Rightarrow> string \<Rightarrow> string \<Rightarrow> ('a \<Rightarrow> (session_error, 'r) result) \<Rightarrow>
    'a answer \<Rightarrow> (session_error, 'r) result" where
  "wrapSftpOperation timeoutMessage failureMessage path onSuccess a =
     (case a of
        Expired \<Rightarrow> err \<lparr>xeCode = TIMED_OUT, xeMessage = timeoutMessage, xePath = Some path\<rparr>
      | Refused m \<Rightarrow> err (mapSftpError m (Some path))
      | Answered r \<Rightarrow> onSuccess r
      | Threw m \<Rightarrow> err \<lparr>xeCode = OPERATION_FAILED, xeMessage = failureMessage @ '': '' @ thrown m, xePath = Some path\<rparr>)"

section \<open>Operations on a session\<close>

record ssh2_stats =
  stMode :: "32 word"
  stSize :: int
  stUid :: nat
  stGid :: nat
  stMtime :: int
  stAtime :: int

record ssh2_entry =
  enFilename :: string
  enAttrs :: ssh2_stats

definition MAX_DIRECTORY_ENTRIES :: nat where "MAX_DIRECTORY_ENTRIES = 10000"

definition transformFileEntry :: "(int \<Rightarrow> string) \<Rightarrow> string \<Rightarrow> ssh2_entry \<Rightarrow> file_entry" where
  "transformFileEntry isoDate basePath entry =
     (let attrs = enAttrs entry;
          fullPath = (if basePath = ''/'' \<or> basePath = ''.'' then ''/'' @ enFilename entry
                      else basePath @ ''/'' @ enFilename entry)
      in \<lparr>feName = enFilename entry, fePath = fullPath, feType = getFileType (stMode attrs),
          feSize = stSize attrs, fePermissions = formatPermissions (stMode attrs),
          fePermissionsOctal = stMode attrs AND 0x1FF, feOwner = show_nat (stUid attrs),
          feGroup = show_nat (stGid attrs), feModifiedAt = isoDate (stMtime attrs * 1000),
          feAccessedAt = isoDate (stAtime attrs * 1000), feIsHidden = starts_with (enFilename entry) ''.''\<rparr>)"

definition transformStats :: "(int \<Rightarrow> string) \<Rightarrow> string \<Rightarrow> ssh2_stats \<Rightarrow> file_entry" where
  "transformStats isoDate path stats =
     (let name = last (split_on slash path)
      in \<lparr>feName = name, fePath = path, feType = getFileType (stMode stats), feSize = stSize stats,
          fePermissions = formatPermissions (stMode stats), fePermissionsOctal = stMode stats AND 0x1FF,
          feOwner = show_nat (stUid stats), feGroup = show_nat (stGid stats),
          feModifiedAt = isoDate (stMtime stats * 1000), feAccessedAt = isoDate (stAtime stats * 1000),
          feIsHidden = starts_with name ''.''\<rparr>)"

definition listDirectory :: "(int \<Rightarrow> string) \<Rightarrow> string \<Rightarrow> bool \<Rightarrow> ssh2_entry list answer \<Rightarrow>
    (session_error, file_entry list) result" where
  "listDirectory isoDate path showHidden a =
     wrapSftpOperation ''Directory listing timeout'' ''Failed to list directory'' path
       (\<lambda>list.
          let limitedList = take MAX_DIRECTORY_ENTRIES list;
              filteredList = (if showHidden then limitedList
                              else filter (\<lambda>e. \<not> starts_with (enFilename e) ''.'') limitedList)
          in ok (map (transformFileEntry isoDate path) filteredList)) a"

definition statPath :: "(int \<Rightarrow> string) \<Rightarrow> string \<Rightarrow> ssh2_stats answer \<Rightarrow> (session_error, file_entry) result" where
  "statPath isoDate path a =
     wrapSftpOperation ''Stat operation timeout'' ''Failed to stat'' path (\<lambda>s. ok (transformStats isoDate path s)) a"

definition mkdirPath :: "string \<Rightarrow> unit answer \<Rightarrow> (session_error, unit) result" where
  "mkdirPath path a =
     wrapSftpOperation ''Mkdir operation timeout'' ''Failed to create directory'' path (\<lambda>_. ok ()) a"

definition unlinkPath :: "string \<Rightarrow> unit answer \<Rightarrow> (session_error, unit) result" where
  "unlinkPath path a =
     wrapSftpOperation ''Unlink operation timeout'' ''Failed to delete file'' path (\<lambda>_. ok ()) a"

definition rmdirPath :: "string \<Rightarrow> unit answer \<Rightarrow> (session_error, unit) result" where
  "rmdirPath path a =
     wrapSftpOperation ''Rmdir operation timeout'' ''Failed to remove directory'' path (\<lambda>_. ok ()) a"

definition realpathOf :: "string \<Rightarrow> string answer \<Rightarrow> (session_error, string) result" where
  "realpathOf path a =
     wrapSftpOperation ''Realpath operation timeout'' ''Failed to resolve path'' path (\<lambda>p. ok p) a"

text \<open>The answer is that of \<open>realpath('.')\<close>, asked only for a path below \<open>~\<close>.\<close>

definition is_tilde :: "string \<Rightarrow> bool" where
  "is_tilde path \<longleftrightarrow> path = ''~'' \<or> starts_with path ''~/''"

definition expand_home :: "string \<Rightarrow> string \<Rightarrow> string" where
  "expand_home path homeDir =
     (if path = ''~'' then homeDir
      else (if ends_with homeDir ''/'' then homeDir else homeDir @ ''/'') @ drop 2 path)"

definition expandTildePath :: "string \<Rightarrow> string answer \<Rightarrow> (session_error, string) result" where
  "expandTildePath path a =
     (if \<not> is_tilde path then ok path
      else wrapSftpOperation ''Expand path timeout'' ''Failed to expand path'' path
             (\<lambda>homeDir. ok (expand_home path homeDir)) a)"

section \<open>The session table\<close>

text \<open>A session is identified by the number of the channel that carries it; \<open>smOpening\<close> are the
  calls of \<open>sshClient.sftp\<close> whose callback has not run, with the connection and whether the promise
  of the caller has settled, and \<open>smEnded\<close> the channels that were ended.\<close>

record sftp_session =
  xsConnectionId :: string
  xsSessionId :: string
  xsChannel :: nat

record session_manager =
  smSessions :: "(string, sftp_session) jsmap"
  smOpening :: "(string \<times> string \<times> bool) list"
  smEnded :: "nat list"

definition new_session_manager :: session_manager where
  "new_session_manager = \<lparr>smSessions = [], smOpening = [], smEnded = []\<rparr>"

definition getSession :: "string \<Rightarrow> session_manager \<Rightarrow> sftp_session option" where
  "getSession cid m = map_get (smSessions m) cid"

text \<open>\<open>Inr None\<close> is a promise that stays pending.\<close>

definition openSession :: "string \<Rightarrow> string \<Rightarrow> string option option \<Rightarrow> session_manager \<Rightarrow>
    session_manager \<times> (session_error, sftp_session option) result" where
  "openSession cid sid throws m =
     (case map_get (smSessions m) cid of
        Some existing \<Rightarrow> (m, ok (Some existing))
      | None \<Rightarrow>
          (case throws of
             Some e \<Rightarrow> (m, err \<lparr>xeCode = SESSION_ERROR, xeMessage = ''SFTP session error: '' @ thrown e, xePath = None\<rparr>)
           | None \<Rightarrow> (m\<lparr>smOpening := smOpening m @ [(cid, sid, False)]\<rparr>, ok None)))"

definition session_timeout :: "nat \<Rightarrow> session_manager \<Rightarrow> session_manager \<times> (session_error, sftp_session) result option" where
  "session_timeout k m =
     (case smOpening m ! k of (cid, sid, settled) \<Rightarrow>
        (m\<lparr>smOpening := (smOpening m)[k := (cid, sid, True)]\<rparr>,
         if settled then None
         else Some (err \<lparr>xeCode = TIMED_OUT, xeMessage = ''SFTP session open timeout'', xePath = None\<rparr>)))"

definition remove_nth :: "nat \<Rightarrow> 'a list \<Rightarrow> 'a list" where
  "remove_nth k xs = take k xs @ drop (Suc k) xs"

definition session_opened :: "nat \<Rightarrow> (string, nat) result \<Rightarrow> session_manager \<Rightarrow>
    session_manager \<times> (session_error, sftp_session) result option" where
  "session_opened k r m =
     (case smOpening m ! k of (cid, sid, settled) \<Rightarrow>
        let m1 = m\<lparr>smOpening := remove_nth k (smOpening m)\<rparr>
        in case r of
             Inl e \<Rightarrow>
               (m1, if settled then None
                    else Some (err \<lparr>xeCode = SESSION_ERROR,
                                    xeMessage = ''Failed to open SFTP session: '' @ e, xePath = None\<rparr>))
           | Inr channel \<Rightarrow>
               let session = \<lparr>xsConnectionId = cid, xsSessionId = sid, xsChannel = channel\<rparr>
               in (m1\<lparr>smSessions := map_set cid session (smSessions m1)\<rparr>,
                   if settled then None else Some (ok session)))"

definition closeSession :: "string \<Rightarrow> session_manager \<Rightarrow> session_manager" where
  "closeSession cid m =
     (case map_get (smSessions m) cid of
        None \<Rightarrow> m
      | Some session \<Rightarrow> m\<lparr>smEnded := smEnded m @ [xsChannel session],
                         smSessions := map_delete cid (smSessions m)\<rparr>)"

definition closeAll :: "session_manager \<Rightarrow> session_manager" where
  "closeAll m = fold closeSession (map_keys (smSessions m)) m"

definition getSessionCount :: "session_manager \<Rightarrow> nat" where
  "getSessionCount m = length (smSessions m)"

section \<open>Lemmas\<close>

lemma wrap_ok [ok_simps]:
  "wrapSftpOperation t f p g a = ok r \<longleftrightarrow> (\<exists>x. a = Answered x \<and> g x = ok r)"
  by (auto simp: wrapSftpOperation_def split: answer.splits)

lemma expand_ok [ok_simps]:
  "expandTildePath p a = ok q \<longleftrightarrow>
     (if is_tilde p then \<exists>h. a = Answered h \<and> q = expand_home p h else q = p)"
  by (auto simp: expandTildePath_def wrap_ok)

lemma getSession_close: "getSession c (closeSession k m) = (if c = k then None else getSession c m)"
  by (auto simp: closeSession_def getSession_def split: option.split)

lemma getSession_closeAll: "getSession c (closeAll m) = None"
proof -
  have "getSession c (fold closeSession ks m') = (if c \<in> set ks then None else getSession c m')" for ks m'
    by (induction ks arbitrary: m') (auto simp: getSession_close)
  then show ?thesis by (simp add: closeAll_def) (auto simp: getSession_def map_get_None_iff)
qed

section \<open>Corners\<close>

text \<open>Entries of a listing of \<open>.\<close>, the home directory for the server, get paths below the root.\<close>

lemma dot_listing_paths: "fePath (transformFileEntry isoDate ''.'' e) = ''/'' @ enFilename e"
  by (simp add: transformFileEntry_def Let_def)

text \<open>The limit on entries counts hidden ones that are then left out.\<close>

lemma hidden_entries_use_limit:
  assumes "\<forall>e\<in>set hidden. starts_with (enFilename e) ''.''" and "length hidden = MAX_DIRECTORY_ENTRIES"
  shows "listDirectory isoDate p False (Answered (hidden @ visible)) = ok []"
  using assms by (auto simp: listDirectory_def wrapSftpOperation_def Let_def filter_empty_conv)

text \<open>Two requests that open a session at the same time open two channels; the table keeps the
  second, and no later operation can end the first.\<close>

lemma concurrent_opens_leak:
  assumes "map_get (smSessions m) c = None" and "smOpening m = []" and "k1 \<noteq> k2" and "k1 \<notin> set (smEnded m)"
  shows "let m1 = fst (openSession c s None m); m2 = fst (openSession c s None m1);
           m3 = fst (session_opened 0 (ok k1) m2); m4 = fst (session_opened 0 (ok k2) m3)
         in map_option xsChannel (getSession c m4) = Some k2 \<and> k1 \<notin> set (smEnded (closeSession c m4))"
  using assms by (simp add: openSession_def session_opened_def Let_def remove_nth_def getSession_def closeSession_def)

end
