(* ===== verification/File_Service.thy ===== *)
theory File_Service
  imports Sftp_Session Transfer_Manager Path_Validator
begin

text \<open>
  The file service behind the SFTP messages: \<open>app/services/sftp/file-service-shared.ts\<close> and the
  operations of \<open>app/services/sftp/sftp-service.ts\<close> apart from the download stream, which is in
  \<open>Download_Stream\<close>.  An operation takes the answers of the calls it awaits as a record and runs at
  the moment the last of them arrives; what it asks of the remote side is the list of its calls.
  The open of an upload and the write of a chunk stay pending in the state until their callback or
  their timer runs.  Logging is left out.
\<close>

section \<open>Errors, configuration, responses\<close>

datatype sftp_error_code = SFTP_NOT_ENABLED | SFTP_NO_CONNECTION | SFTP_SESSION_ERROR | SFTP_NOT_FOUND
  | SFTP_PERMISSION_DENIED | SFTP_PATH_FORBIDDEN | SFTP_EXTENSION_BLOCKED | SFTP_FILE_TOO_LARGE
  | SFTP_ALREADY_EXISTS | SFTP_TRANSFER_CANCELLED | SFTP_RATE_LIMITED | SFTP_MAX_TRANSFERS
  | SFTP_CHUNK_ERROR | SFTP_TIMEOUT | SFTP_INVALID_REQUEST

record service_error =
  seCode :: sftp_error_code
  seMessage :: string
  sePath :: "string option"
  seTransferId :: "string option"
  seFileName :: "string option"

abbreviation service_err :: "sftp_error_code \<Rightarrow> string \<Rightarrow> string option \<Rightarrow> string option \<Rightarrow> service_error" where
  "service_err c m p t \<equiv> \<lparr>seCode = c, seMessage = m, sePath = p, seTransferId = t, seFileName = None\<rparr>"

record sftp_config =
  scEnabled :: bool
  scMaxFileSize :: int
  scRateLimit :: int
  scChunkSize :: int
  scMaxConcurrent :: int
  scAllowedPaths :: "string list option"
  scBlockedExtensions :: "string list"

record upload_start =
  usTransferId :: string
  usSessionId :: string
  usConnectionId :: string
  usRemotePath :: string
  usFileName :: string
  usFileSize :: int
  usOverwrite :: "bool option"

record upload_chunk =
  ucTransferId :: string
  ucIndex :: int
  ucData :: bytes
  ucIsLast :: bool

record download_start =
  dsTransferId :: string
  dsSessionId :: string
  dsConnectionId :: string
  dsRemotePath :: string

record download_ready =
  drTransferId :: string
  drFileName :: string
  drFileSize :: int
  drMimeType :: string

datatype service_reply =
    RpDirectory string "file_entry list"
  | RpStat string file_entry
  | RpOperation string
  | RpUploadReady string int
  | RpUploadAck string int int
  | RpDownloadReady download_ready
  | RpComplete transfer_completion

section \<open>Shared helpers\<close>

definition mapPathErrorCode :: "path_error_code \<Rightarrow> sftp_error_code" where
  "mapPathErrorCode c =
     (case c of EXTENSION_BLOCKED \<Rightarrow> SFTP_EXTENSION_BLOCKED | PATH_FORBIDDEN \<Rightarrow> SFTP_PATH_FORBIDDEN
      | _ \<Rightarrow> SFTP_INVALID_REQUEST)"

definition getPathValidationOptions :: "sftp_config \<Rightarrow> bool \<Rightarrow> path_options" where
  "getPathValidationOptions cfg ck =
     \<lparr>allowedPaths = scAllowedPaths cfg, blockedExtensions = scBlockedExtensions cfg, checkExtension = ck\<rparr>"

definition validateOperationPreconditions :: "sftp_config \<Rightarrow> string \<Rightarrow> bool \<Rightarrow> string option \<Rightarrow>
    (service_error, string) result" where
  "validateOperationPreconditions cfg path ck tid =
     (if \<not> scEnabled cfg then err (service_err SFTP_NOT_ENABLED ''SFTP feature is disabled'' None tid)
      else case validatePath path (getPathValidationOptions cfg ck) of
          Inl e \<Rightarrow> err (service_err (mapPathErrorCode (pe_code e)) (pe_message e) (Some path) tid)
        | Inr p \<Rightarrow> ok p)"

definition mapTransferStartError :: "transfer_error \<Rightarrow> string \<Rightarrow> service_error" where
  "mapTransferStartError e tid =
     service_err (if teCode e = MAX_TRANSFERS then SFTP_MAX_TRANSFERS else SFTP_INVALID_REQUEST)
       (teMessage e) None (Some tid)"

definition too_large :: "int \<Rightarrow> int \<Rightarrow> string" where
  "too_large n mx = ''File size '' @ show_int n @ '' exceeds maximum '' @ show_int mx"

definition validateUploadPreFlight :: "upload_start \<Rightarrow> int \<Rightarrow> (service_error, unit) result" where
  "validateUploadPreFlight request maxFileSize =
     (if usFileSize request > maxFileSize
      then err (service_err SFTP_FILE_TOO_LARGE (too_large (usFileSize request) maxFileSize) None
                  (Some (usTransferId request)))
      else case validateFileName (usFileName request) of
          Inl e \<Rightarrow> err (service_err SFTP_INVALID_REQUEST (pe_message e) None (Some (usTransferId request)))
        | Inr _ \<Rightarrow> ok ())"

definition mapChunkUpdateError :: "transfer_error \<Rightarrow> string \<Rightarrow> service_error" where
  "mapChunkUpdateError e tid =
     service_err (if teCode e = CHUNK_MISMATCH then SFTP_CHUNK_ERROR else SFTP_INVALID_REQUEST)
       (teMessage e) None (Some tid)"

definition startUploadTransfer :: "upload_start \<Rightarrow> string \<Rightarrow> int \<Rightarrow> int \<Rightarrow> transfer_manager \<Rightarrow>
    transfer_manager \<times> (service_error, transfer) result" where
  "startUploadTransfer request resolvedPath rateLimit now m =
     (case startTransfer \<lparr>spTransferId = usTransferId request, spSessionId = usSessionId request,
             spDirection = Upload, spRemotePath = resolvedPath, spFileName = usFileName request,
             spTotalBytes = usFileSize request, spRateLimit = Some rateLimit\<rparr> now m of
        (m', Inl e) \<Rightarrow> (m', err (mapTransferStartError e (usTransferId request)))
      | (m', Inr t) \<Rightarrow> (m', ok t))"

definition MIME_TYPES :: "(string \<times> string) list" where
  "MIME_TYPES =
    [(''.txt'', ''text/plain''), (''.html'', ''text/html''), (''.htm'', ''text/html''),
     (''.css'', ''text/css''), (''.js'', ''text/javascript''), (''.json'', ''application/json''),
     (''.xml'', ''application/xml''), (''.csv'', ''text/csv''), (''.md'', ''text/markdown''),
     (''.yaml'', ''text/yaml''), (''.yml'', ''text/yaml''),
     (''.png'', ''image/png''), (''.jpg'', ''image/jpeg''), (''.jpeg'', ''image/jpeg''),
     (''.gif'', ''image/gif''), (''.svg'', ''image/svg+xml''), (''.webp'', ''image/webp''),
     (''.ico'', ''image/x-icon''),
     (''.zip'', ''application/zip''), (''.gz'', ''application/gzip''), (''.tar'', ''application/x-tar''),
     (''.tgz'', ''application/gzip''), (''.7z'', ''application/x-7z-compressed''),
     (''.rar'', ''application/vnd.rar''),
     (''.pdf'', ''application/pdf''), (''.doc'', ''application/msword''),
     (''.docx'', ''application/vnd.openxmlformats-officedocument.wordprocessingml.document''),
     (''.xls'', ''application/vnd.ms-excel''),
     (''.xlsx'', ''application/vnd.openxmlformats-officedocument.spreadsheetml.sheet''),
     (''.bin'', ''application/octet-stream''), (''.exe'', ''application/octet-stream''),
     (''.dll'', ''application/octet-stream''), (''.so'', ''application/octet-stream''),
     (''.sh'', ''application/x-sh''), (''.bash'', ''application/x-sh''), (''.py'', ''text/x-python''),
     (''.rb'', ''text/x-ruby''), (''.php'', ''text/x-php''), (''.ts'', ''text/typescript''),
     (''.tsx'', ''text/typescript'')]"

definition getMimeType :: "string \<Rightarrow> string" where
  "getMimeType filename =
     (if CHR ''.'' \<notin> set filename then ''application/octet-stream''
      else let extension = to_lower (CHR ''.'' # last (split_on (CHR ''.'') filename))
           in case map_get MIME_TYPES extension of None \<Rightarrow> ''application/octet-stream'' | Some t \<Rightarrow> t)"

definition buildDownloadReadyResponse :: "string \<Rightarrow> file_entry \<Rightarrow> download_ready" where
  "buildDownloadReadyResponse tid f =
     \<lparr>drTransferId = tid, drFileName = feName f, drFileSize = feSize f, drMimeType = getMimeType (feName f)\<rparr>"

definition validateAndStartDownload :: "sftp_config \<Rightarrow> download_start \<Rightarrow> string \<Rightarrow> file_entry \<Rightarrow> int \<Rightarrow>
    transfer_manager \<Rightarrow> transfer_manager \<times> (service_error, download_ready) result" where
  "validateAndStartDownload cfg request resolvedPath fileInfo now m =
     (let tid = dsTransferId request
      in if feType fileInfo \<noteq> FtFile
         then (m, err (service_err SFTP_INVALID_REQUEST ''Can only download files'' (Some resolvedPath) (Some tid)))
         else if feSize fileInfo > scMaxFileSize cfg
         then (m, err (service_err SFTP_FILE_TOO_LARGE (too_large (feSize fileInfo) (scMaxFileSize cfg))
                        (Some resolvedPath) (Some tid)))
         else case startTransfer \<lparr>spTransferId = tid, spSessionId = dsSessionId request, spDirection = Download,
                     spRemotePath = resolvedPath, spFileName = feName fileInfo, spTotalBytes = feSize fileInfo,
                     spRateLimit = Some (scRateLimit cfg)\<rparr> now m of
             (m', Inl e) \<Rightarrow> (m', err (mapTransferStartError e tid))
           | (m', Inr _) \<Rightarrow> (fst (activateTransfer tid now m'), ok (buildDownloadReadyResponse tid fileInfo)))"

definition mapSessionError :: "session_error \<Rightarrow> service_error" where
  "mapSessionError e =
     (case xeCode e of
        NOT_FOUND \<Rightarrow> service_err SFTP_NOT_FOUND (xeMessage e) (xePath e) None
      | PERMISSION_DENIED \<Rightarrow> service_err SFTP_PERMISSION_DENIED (xeMessage e) (xePath e) None
      | TIMED_OUT \<Rightarrow> service_err SFTP_TIMEOUT (xeMessage e) (xePath e) None
      | SESSION_ERROR \<Rightarrow> service_err SFTP_SESSION_ERROR (xeMessage e) None None
      | OPERATION_FAILED \<Rightarrow> service_err SFTP_SESSION_ERROR (xeMessage e) (xePath e) None)"

section \<open>State\<close>

text \<open>What the service asks of the SFTP channel.\<close>

datatype remote_call = RcOpenSession | RcRealpath string | RcReaddir string | RcStat string
  | RcMkdir string int | RcUnlink string | RcRmdir string | RcOpen string string
  | RcWrite string nat bytes | RcClose string

text \<open>\<open>svOpening\<close> and \<open>svWriting\<close> are the calls of \<open>sftp.open\<close> and \<open>sftp.write\<close> whose callback has not
  run, with a flag for a promise already settled by the timer.\<close>

record file_service =
  svConfig :: sftp_config
  svSessions :: session_manager
  svTransfers :: transfer_manager
  svUploads :: "(string, nat) jsmap"
  svOpening :: "(upload_start \<times> string \<times> bool) list"
  svWriting :: "(upload_chunk \<times> int \<times> bool) list"

definition new_file_service :: "sftp_config \<Rightarrow> file_service" where
  "new_file_service cfg =
     \<lparr>svConfig = cfg, svSessions = new_session_manager,
      svTransfers = new_transfer_manager (scMaxConcurrent cfg) (Some (scRateLimit cfg)),
      svUploads = [], svOpening = [], svWriting = []\<rparr>"

text \<open>Answers of the calls an operation awaits: whether the connection has an SSH client, the
  channel that is opened, the real path of the home directory, and the operation itself.\<close>

record op_answers =
  anClient :: bool
  anChannel :: "nat answer"
  anHome :: "string answer"
  anStat :: "ssh2_stats answer"
  anList :: "ssh2_entry list answer"
  anDone :: "unit answer"

section \<open>Preparing an operation\<close>

definition ensureSession :: "string \<Rightarrow> string \<Rightarrow> op_answers \<Rightarrow> file_service \<Rightarrow>
    file_service \<times> remote_call list \<times> (service_error, sftp_session) result" where
  "ensureSession cid sid a s =
     (case getSession cid (svSessions s) of
        Some existing \<Rightarrow> (s, [], ok existing)
      | None \<Rightarrow>
          if \<not> anClient a then (s, [], err (service_err SFTP_NO_CONNECTION ''No active SSH connection'' None None))
          else
            let k = length (smOpening (svSessions s));
                (m1, r1) = openSession cid sid (case anChannel a of Threw e \<Rightarrow> Some e | _ \<Rightarrow> None) (svSessions s);
                (m2, r2) =
                  (case r1 of
                     Inl e \<Rightarrow> (m1, err e)
                   | Inr (Some x) \<Rightarrow> (m1, ok x)
                   | Inr None \<Rightarrow>
                       (case anChannel a of
                          Answered c \<Rightarrow> (let (m, r) = session_opened k (ok c) m1 in (m, the r))
                        | Refused e \<Rightarrow> (let (m, r) = session_opened k (err e) m1 in (m, the r))
                        | _ \<Rightarrow> (let (m, r) = session_timeout k m1 in (m, the r))))
            in (s\<lparr>svSessions := m2\<rparr>, [RcOpenSession],
                case r2 of Inl e \<Rightarrow> err (mapSessionError e) | Inr x \<Rightarrow> ok x))"

definition resolveTildePath :: "string \<Rightarrow> op_answers \<Rightarrow> remote_call list \<times> (service_error, string) result" where
  "resolveTildePath path a =
     (if is_tilde path then
        ([RcRealpath ''.''],
         case expandTildePath path (anHome a) of Inl e \<Rightarrow> err (mapSessionError e) | Inr p \<Rightarrow> ok p)
      else ([], ok path))"

definition setupOperation :: "string \<Rightarrow> string \<Rightarrow> string \<Rightarrow> bool \<Rightarrow> string option \<Rightarrow> op_answers \<Rightarrow> file_service \<Rightarrow>
    file_service \<times> remote_call list \<times> (service_error, string) result" where
  "setupOperation cid sid path ck tid a s =
     (case validateOperationPreconditions (svConfig s) path ck tid of
        Inl e \<Rightarrow> (s, [], err e)
      | Inr normalized \<Rightarrow>
          (case ensureSession cid sid a s of
             (s1, calls1, Inl e) \<Rightarrow> (s1, calls1, err (e\<lparr>seTransferId := tid\<rparr>))
           | (s1, calls1, Inr session) \<Rightarrow>
               (case resolveTildePath normalized a of
                  (calls2, Inl e) \<Rightarrow> (s1, calls1 @ calls2, err (e\<lparr>seTransferId := tid\<rparr>))
                | (calls2, Inr resolved) \<Rightarrow> (s1, calls1 @ calls2, ok resolved))))"

section \<open>Operations that settle at once\<close>

definition sv_listDirectory :: "(int \<Rightarrow> string) \<Rightarrow> string \<Rightarrow> string \<Rightarrow> string \<Rightarrow> bool \<Rightarrow> op_answers \<Rightarrow> file_service \<Rightarrow>
    file_service \<times> remote_call list \<times> (service_error, service_reply) result" where
  "sv_listDirectory isoDate cid sid path showHidden a s =
     (case setupOperation cid sid path False None a s of
        (s1, calls, Inl e) \<Rightarrow> (s1, calls, err e)
      | (s1, calls, Inr p) \<Rightarrow>
          (s1, calls @ [RcReaddir p],
           case listDirectory isoDate p showHidden (anList a) of
             Inl e \<Rightarrow> err (mapSessionError e) | Inr entries \<Rightarrow> ok (RpDirectory p entries)))"

definition sv_stat :: "(int \<Rightarrow> string) \<Rightarrow> string \<Rightarrow> string \<Rightarrow> string \<Rightarrow> op_answers \<Rightarrow> file_service \<Rightarrow>
    file_service \<times> remote_call list \<times> (service_error, service_reply) result" where
  "sv_stat isoDate cid sid path a s =
     (case setupOperation cid sid path False None a s of
        (s1, calls, Inl e) \<Rightarrow> (s1, calls, err e)
      | (s1, calls, Inr p) \<Rightarrow>
          (s1, calls @ [RcStat p],
           case statPath isoDate p (anStat a) of Inl e \<Rightarrow> err (mapSessionError e) | Inr entry \<Rightarrow> ok (RpStat p entry)))"

definition DEFAULT_DIR_MODE :: int where "DEFAULT_DIR_MODE = 493"

definition sv_mkdir :: "string \<Rightarrow> string \<Rightarrow> string \<Rightarrow> int option \<Rightarrow> op_answers \<Rightarrow> file_service \<Rightarrow>
    file_service \<times> remote_call list \<times> (service_error, service_reply) result" where
  "sv_mkdir cid sid path mode a s =
     (case setupOperation cid sid path False None a s of
        (s1, calls, Inl e) \<Rightarrow> (s1, calls, err e)
      | (s1, calls, Inr p) \<Rightarrow>
          (s1, calls @ [RcMkdir p (case mode of None \<Rightarrow> DEFAULT_DIR_MODE | Some m \<Rightarrow> m)],
           case mkdirPath p (anDone a) of Inl e \<Rightarrow> err (mapSessionError e) | Inr _ \<Rightarrow> ok (RpOperation p)))"

definition sv_delete :: "(int \<Rightarrow> string) \<Rightarrow> string \<Rightarrow> string \<Rightarrow> string \<Rightarrow> bool \<Rightarrow> op_answers \<Rightarrow> file_service \<Rightarrow>
    file_service \<times> remote_call list \<times> (service_error, service_reply) result" where
  "sv_delete isoDate cid sid path recursive a s =
     (case setupOperation cid sid path False None a s of
        (s1, calls, Inl e) \<Rightarrow> (s1, calls, err e)
      | (s1, calls, Inr p) \<Rightarrow>
          (case statPath isoDate p (anStat a) of
             Inl e \<Rightarrow> (s1, calls @ [RcStat p], err (mapSessionError e))
           | Inr entry \<Rightarrow>
               let (call, r) = (if feType entry = FtDirectory then (RcRmdir p, rmdirPath p (anDone a))
                                else (RcUnlink p, unlinkPath p (anDone a)))
               in (s1, calls @ [RcStat p, call],
                   case r of Inl e \<Rightarrow> err (mapSessionError e) | Inr _ \<Rightarrow> ok (RpOperation p))))"

definition sv_startDownload :: "(int \<Rightarrow> string) \<Rightarrow> download_start \<Rightarrow> op_answers \<Rightarrow> int \<Rightarrow> file_service \<Rightarrow>
    file_service \<times> remote_call list \<times> (service_error, service_reply) result" where
  "sv_startDownload isoDate request a now s =
     (case setupOperation (dsConnectionId request) (dsSessionId request) (dsRemotePath request) True
             (Some (dsTransferId request)) a s of
        (s1, calls, Inl e) \<Rightarrow> (s1, calls, err e)
      | (s1, calls, Inr p) \<Rightarrow>
          (case statPath isoDate p (anStat a) of
             Inl e \<Rightarrow> (s1, calls @ [RcStat p], err ((mapSessionError e)\<lparr>seTransferId := Some (dsTransferId request)\<rparr>))
           | Inr fileInfo \<Rightarrow>
               let (m, r) = validateAndStartDownload (svConfig s1) request p fileInfo now (svTransfers s1)
               in (s1\<lparr>svTransfers := m\<rparr>, calls @ [RcStat p],
                   case r of Inl e \<Rightarrow> err e | Inr ready \<Rightarrow> ok (RpDownloadReady ready))))"

section \<open>Uploads\<close>

definition closeUpload :: "string \<Rightarrow> file_service \<Rightarrow> file_service \<times> remote_call list" where
  "closeUpload tid s =
     (case map_get (svUploads s) tid of
        None \<Rightarrow> (s, [])
      | Some handle \<Rightarrow> (s\<lparr>svUploads := map_delete tid (svUploads s)\<rparr>, [RcClose tid]))"

text \<open>The promise of an upload start stays pending (\<open>ok None\<close>) until the file is open.\<close>

definition sv_startUpload :: "(int \<Rightarrow> string) \<Rightarrow> upload_start \<Rightarrow> op_answers \<Rightarrow> int \<Rightarrow> file_service \<Rightarrow>
    file_service \<times> remote_call list \<times> (service_error, service_reply option) result" where
  "sv_startUpload isoDate request a now s =
     (case validateUploadPreFlight request (scMaxFileSize (svConfig s)) of
        Inl e \<Rightarrow> (s, [], err e)
      | Inr _ \<Rightarrow>
          (case setupOperation (usConnectionId request) (usSessionId request) (usRemotePath request) True
                  (Some (usTransferId request)) a s of
             (s1, calls, Inl e) \<Rightarrow> (s1, calls, err (e\<lparr>seFileName := Some (usFileName request)\<rparr>))
           | (s1, calls, Inr p) \<Rightarrow>
               let overwrite = (usOverwrite request = Some True);
                   calls1 = (if overwrite then calls else calls @ [RcStat p])
               in if \<not> overwrite \<and> \<not> isl (statPath isoDate p (anStat a))
                  then (s1, calls1, err (service_err SFTP_ALREADY_EXISTS ''File already exists'' (Some p)
                                           (Some (usTransferId request))))
                  else
                    (case startUploadTransfer request p (scRateLimit (svConfig s1)) now (svTransfers s1) of
                       (m, Inl e) \<Rightarrow> (s1\<lparr>svTransfers := m\<rparr>, calls1, err e)
                     | (m, Inr _) \<Rightarrow>
                         (s1\<lparr>svTransfers := m, svOpening := svOpening s1 @ [(request, p, False)]\<rparr>,
                          calls1 @ [RcOpen p (if overwrite then ''w'' else ''wx'')], ok None))))"

definition upload_open_timeout :: "nat \<Rightarrow> file_service \<Rightarrow> file_service \<times> (service_error, service_reply) result option" where
  "upload_open_timeout k s =
     (case svOpening s ! k of (request, p, settled) \<Rightarrow>
        (s\<lparr>svTransfers := fst (cancelTransfer (usTransferId request) (svTransfers s)),
           svOpening := (svOpening s)[k := (request, p, True)]\<rparr>,
         if settled then None
         else Some (err (service_err SFTP_TIMEOUT ''Upload start timeout'' None (Some (usTransferId request))))))"

definition upload_opened :: "nat \<Rightarrow> (string, nat) result \<Rightarrow> int \<Rightarrow> file_service \<Rightarrow>
    file_service \<times> (service_error, service_reply) result option" where
  "upload_opened k r now s =
     (case svOpening s ! k of (request, p, settled) \<Rightarrow>
        let tid = usTransferId request; s1 = s\<lparr>svOpening := remove_nth k (svOpening s)\<rparr>
        in case r of
             Inl m \<Rightarrow>
               (s1\<lparr>svTransfers := fst (cancelTransfer tid (svTransfers s1))\<rparr>,
                if settled then None
                else Some (err (service_err SFTP_PERMISSION_DENIED m (Some p) (Some tid))))
           | Inr handle \<Rightarrow>
               (s1\<lparr>svUploads := map_set tid handle (svUploads s1),
                   svTransfers := fst (activateTransfer tid now (svTransfers s1))\<rparr>,
                if settled then None else Some (ok (RpUploadReady tid (scChunkSize (svConfig s1))))))"

definition sv_processUploadChunk :: "upload_chunk \<Rightarrow> int \<Rightarrow> file_service \<Rightarrow>
    file_service \<times> remote_call list \<times> (service_error, service_reply option) result" where
  "sv_processUploadChunk request now s =
     (let tid = ucTransferId request; n = int (length (ucData request))
      in case map_get (svUploads s) tid of
           None \<Rightarrow> (s, [], err (service_err SFTP_INVALID_REQUEST ''Transfer not found or already completed'' None (Some tid)))
         | Some handle \<Rightarrow>
             (case updateProgress tid (ucIndex request) n now (svTransfers s) of
                (m, Inl e) \<Rightarrow> (s\<lparr>svTransfers := m\<rparr>, [], err (mapChunkUpdateError e tid))
              | (m, Inr t) \<Rightarrow>
                  let offset = tBytesTransferred t - n
                  in (s\<lparr>svTransfers := m, svWriting := svWriting s @ [(request, tBytesTransferred t, False)]\<rparr>,
                      [RcWrite tid (nat offset) (ucData request)], ok None)))"

definition chunk_write_timeout :: "nat \<Rightarrow> file_service \<Rightarrow> file_service \<times> (service_error, service_reply) result option" where
  "chunk_write_timeout k s =
     (case svWriting s ! k of (request, n, settled) \<Rightarrow>
        (s\<lparr>svWriting := (svWriting s)[k := (request, n, True)]\<rparr>,
         if settled then None
         else Some (err (service_err SFTP_TIMEOUT ''Chunk write timeout'' None (Some (ucTransferId request))))))"

definition chunk_written :: "nat \<Rightarrow> string option \<Rightarrow> file_service \<Rightarrow>
    file_service \<times> remote_call list \<times> (service_error, service_reply) result option" where
  "chunk_written k writeErr s =
     (case svWriting s ! k of (request, n, settled) \<Rightarrow>
        let tid = ucTransferId request; s1 = s\<lparr>svWriting := remove_nth k (svWriting s)\<rparr>
        in case writeErr of
             Some m \<Rightarrow>
               (let (s2, calls) = closeUpload tid s1
                in (s2, calls, if settled then None else Some (err (service_err SFTP_CHUNK_ERROR m None (Some tid)))))
           | None \<Rightarrow>
               (let (s2, calls) = (if ucIsLast request then closeUpload tid s1 else (s1, []))
                in (s2, calls, if settled then None else Some (ok (RpUploadAck tid (ucIndex request) n)))))"

definition sv_completeUpload :: "string \<Rightarrow> int \<Rightarrow> file_service \<Rightarrow>
    file_service \<times> remote_call list \<times> (service_error, service_reply) result" where
  "sv_completeUpload tid now s =
     (case completeTransfer tid now (svTransfers s) of
        (m, Inl e) \<Rightarrow> (s\<lparr>svTransfers := m\<rparr>, [], err (service_err SFTP_INVALID_REQUEST (teMessage e) None (Some tid)))
      | (m, Inr c) \<Rightarrow>
          (let (s1, calls) = closeUpload tid (s\<lparr>svTransfers := m\<rparr>)
           in (s1, calls, ok (RpComplete (c\<lparr>tcTransferId := tid, tcDirection := Upload\<rparr>)))))"

definition sv_cancelUpload :: "string \<Rightarrow> file_service \<Rightarrow> file_service \<times> remote_call list" where
  "sv_cancelUpload tid s =
     (let (s1, calls) = closeUpload tid s
      in (s1\<lparr>svTransfers := fst (cancelTransfer tid (svTransfers s1))\<rparr>, calls))"

definition sv_getProgress :: "string \<Rightarrow> int \<Rightarrow> file_service \<Rightarrow> (service_error, transfer_progress) result" where
  "sv_getProgress tid now s =
     (case getProgress tid now (svTransfers s) of
        Inl e \<Rightarrow> err (service_err SFTP_INVALID_REQUEST (teMessage e) None (Some tid))
      | Inr p \<Rightarrow> ok (p\<lparr>tpTransferId := tid\<rparr>))"

definition verifyTransferOwnership :: "string \<Rightarrow> string \<Rightarrow> file_service \<Rightarrow> (transfer_error, transfer) result" where
  "verifyTransferOwnership tid sid s = verifyOwnership tid sid (svTransfers s)"

definition sv_closeSession :: "string \<Rightarrow> file_service \<Rightarrow> file_service" where
  "sv_closeSession cid s = s\<lparr>svSessions := closeSession cid (svSessions s)\<rparr>"

definition sv_cancelSessionTransfers :: "string \<Rightarrow> file_service \<Rightarrow> file_service" where
  "sv_cancelSessionTransfers sid s = s\<lparr>svTransfers := cancelSessionTransfers sid (svTransfers s)\<rparr>"

end
