(* ===== verification/Upload_Assembly.thy ===== *)
theory Upload_Assembly
  imports File_Service "HOL-Library.Multiset"
begin

text \<open>
  What the file service does with the remote side: every call of an operation concerns a path that
  passed the validation, and the writes of an upload put the accepted chunks one after the other
  into the file, in whatever order the server performs them.
\<close>

section \<open>Remote calls of an operation\<close>

datatype service_op = OpList string bool | OpStat string | OpMkdir string "int option"
  | OpDelete string bool | OpUpload upload_start | OpDownload download_start

fun op_path :: "service_op \<Rightarrow> string" where
  "op_path (OpList p h) = p"
| "op_path (OpStat p) = p"
| "op_path (OpMkdir p m) = p"
| "op_path (OpDelete p r) = p"
| "op_path (OpUpload u) = usRemotePath u"
| "op_path (OpDownload d) = dsRemotePath d"

fun op_checks_extension :: "service_op \<Rightarrow> bool" where
  "op_checks_extension (OpUpload u) = True"
| "op_checks_extension (OpDownload d) = True"
| "op_checks_extension _ = False"

text \<open>One method of the service, with its arguments.\<close>

fun service_method :: "(int \<Rightarrow> string) \<Rightarrow> string \<Rightarrow> string \<Rightarrow> service_op \<Rightarrow> op_answers \<Rightarrow> int \<Rightarrow> file_service \<Rightarrow>
    file_service \<times> remote_call list \<times> (service_error, service_reply option) result" where
  "service_method isoDate cid sid (OpList p h) a now s =
     (case sv_listDirectory isoDate cid sid p h a s of (s1, cs, r) \<Rightarrow> (s1, cs, map_sum id Some r))"
| "service_method isoDate cid sid (OpStat p) a now s =
     (case sv_stat isoDate cid sid p a s of (s1, cs, r) \<Rightarrow> (s1, cs, map_sum id Some r))"
| "service_method isoDate cid sid (OpMkdir p m) a now s =
     (case sv_mkdir cid sid p m a s of (s1, cs, r) \<Rightarrow> (s1, cs, map_sum id Some r))"
| "service_method isoDate cid sid (OpDelete p rc) a now s =
     (case sv_delete isoDate cid sid p rc a s of (s1, cs, r) \<Rightarrow> (s1, cs, map_sum id Some r))"
| "service_method isoDate cid sid (OpUpload u) a now s = sv_startUpload isoDate u a now s"
| "service_method isoDate cid sid (OpDownload d) a now s =
     (case sv_startDownload isoDate d a now s of (s1, cs, r) \<Rightarrow> (s1, cs, map_sum id Some r))"

text \<open>The streaming of a started download: it opens the path it is given.\<close>

definition sv_streamDownload :: "string \<Rightarrow> string \<Rightarrow> string \<Rightarrow> file_service \<Rightarrow> remote_call list \<times> service_error option" where
  "sv_streamDownload cid tid path s =
     (case getSession cid (svSessions s) of
        None \<Rightarrow> ([], Some (service_err SFTP_NO_CONNECTION ''SFTP session not found'' None (Some tid)))
      | Some session \<Rightarrow> ([RcOpen path ''r''], None))"

text \<open>What the socket adapter does with the service for one request: the method of the request and, when a
  download was started, its streaming with the path of the request.\<close>

fun run_op :: "(int \<Rightarrow> string) \<Rightarrow> string \<Rightarrow> string \<Rightarrow> service_op \<Rightarrow> op_answers \<Rightarrow> int \<Rightarrow> file_service \<Rightarrow>
    file_service \<times> remote_call list \<times> (service_error, service_reply option) result" where
  "run_op isoDate cid sid (OpDownload d) a now s =
     (case service_method isoDate cid sid (OpDownload d) a now s of
        (s1, cs, Inl e) \<Rightarrow> (s1, cs, Inl e)
      | (s1, cs, Inr r) \<Rightarrow>
          (s1, cs @ fst (sv_streamDownload (dsConnectionId d) (dsTransferId d) (dsRemotePath d) s1), Inr r))"
| "run_op isoDate cid sid op a now s = service_method isoDate cid sid op a now s"

fun op_streams :: "service_op \<Rightarrow> bool" where
  "op_streams (OpDownload d) = True"
| "op_streams _ = False"

text \<open>The path an operation may name to the remote side: the validated path, with \<open>~\<close> replaced by
  the home directory the server reported.\<close>

definition reaches :: "op_answers \<Rightarrow> string \<Rightarrow> string \<Rightarrow> bool" where
  "reaches a v p \<longleftrightarrow> (if is_tilde v then \<exists>h. anHome a = Answered h \<and> p = expand_home v h else p = v)"

fun call_path :: "remote_call \<Rightarrow> string option" where
  "call_path (RcReaddir p) = Some p"
| "call_path (RcStat p) = Some p"
| "call_path (RcMkdir p m) = Some p"
| "call_path (RcUnlink p) = Some p"
| "call_path (RcRmdir p) = Some p"
| "call_path (RcOpen p f) = Some p"
| "call_path _ = None"

definition accepted :: "sftp_config \<Rightarrow> string \<Rightarrow> bool \<Rightarrow> string \<Rightarrow> bool" where
  "accepted cfg path ck v \<longleftrightarrow> scEnabled cfg \<and> validatePath path (getPathValidationOptions cfg ck) = ok v"

lemma preconditions_ok: "validateOperationPreconditions cfg path ck tid = ok v \<longleftrightarrow> accepted cfg path ck v"
  by (auto simp: validateOperationPreconditions_def accepted_def split: sum.split)

lemma ensureSession_frame:
  assumes "ensureSession cid sid a s = (s1, calls, r)"
  shows "set calls \<subseteq> {RcOpenSession} \<and> svConfig s1 = svConfig s \<and> svTransfers s1 = svTransfers s
    \<and> svUploads s1 = svUploads s \<and> svOpening s1 = svOpening s \<and> svWriting s1 = svWriting s"
  using assms unfolding ensureSession_def Let_def
  by (auto split: option.splits if_splits prod.splits)

lemma setupOperation_spec:
  assumes s: "setupOperation cid sid path ck tid a s = (s1, calls, r)"
  shows "set calls \<subseteq> {RcOpenSession, RcRealpath ''.''}"
    and "r = ok p \<Longrightarrow> \<exists>v. accepted (svConfig s) path ck v \<and> reaches a v p"
    and "\<nexists>v. accepted (svConfig s) path ck v \<Longrightarrow> s1 = s \<and> calls = [] \<and> isl r"
    and "svConfig s1 = svConfig s \<and> svTransfers s1 = svTransfers s
       \<and> svUploads s1 = svUploads s \<and> svOpening s1 = svOpening s \<and> svWriting s1 = svWriting s"
proof -
  show "set calls \<subseteq> {RcOpenSession, RcRealpath ''.''}"
    using s ensureSession_frame unfolding setupOperation_def resolveTildePath_def
    by (fastforce split: sum.splits prod.splits if_splits)
  show "r = ok p \<Longrightarrow> \<exists>v. accepted (svConfig s) path ck v \<and> reaches a v p"
    using s unfolding setupOperation_def resolveTildePath_def reaches_def
    by (auto simp: preconditions_ok expand_ok split: sum.splits prod.splits if_splits)
  show "\<nexists>v. accepted (svConfig s) path ck v \<Longrightarrow> s1 = s \<and> calls = [] \<and> isl r"
  proof -
    assume none: "\<nexists>v. accepted (svConfig s) path ck v"
    obtain e where "validateOperationPreconditions (svConfig s) path ck tid = err e"
      using none preconditions_ok [of "svConfig s" path ck tid]
      by (cases "validateOperationPreconditions (svConfig s) path ck tid") auto
    then have "(s1, calls, r) = (s, [], err e)" using s by (simp add: setupOperation_def)
    then show "s1 = s \<and> calls = [] \<and> isl r" by simp
  qed
  show "svConfig s1 = svConfig s \<and> svTransfers s1 = svTransfers s
       \<and> svUploads s1 = svUploads s \<and> svOpening s1 = svOpening s \<and> svWriting s1 = svWriting s"
    using s ensureSession_frame unfolding setupOperation_def
    by (fastforce split: sum.splits prod.splits)
qed

text \<open>The calls of one method.\<close>

lemma service_method_calls:
  assumes "service_method isoDate cid sid op a now s = (s1, calls, r)"
  shows "(\<forall>c\<in>set calls. c \<in> {RcOpenSession, RcRealpath ''.''}
            \<or> (\<exists>v p. accepted (svConfig s) (op_path op) (op_checks_extension op) v \<and> reaches a v p
                 \<and> call_path c = Some p))
    \<and> ((\<nexists>v. accepted (svConfig s) (op_path op) (op_checks_extension op) v) \<longrightarrow> s1 = s \<and> calls = [] \<and> isl r)"
proof (cases op)
  case (OpList p h)
  with assms show ?thesis
    using setupOperation_spec(1-3) [of cid sid p False None a s]
    by (fastforce simp: sv_listDirectory_def split: prod.splits sum.splits)
next
  case (OpStat p)
  with assms show ?thesis
    using setupOperation_spec(1-3) [of cid sid p False None a s]
    by (fastforce simp: sv_stat_def split: prod.splits sum.splits)
next
  case (OpMkdir p m)
  with assms show ?thesis
    using setupOperation_spec(1-3) [of cid sid p False None a s]
    by (fastforce simp: sv_mkdir_def split: prod.splits sum.splits)
next
  case (OpDelete p rc)
  with assms show ?thesis
    using setupOperation_spec(1-3) [of cid sid p False None a s]
    by (fastforce simp: sv_delete_def Let_def split: prod.splits sum.splits if_splits)
next
  case (OpUpload u)
  with assms show ?thesis
    using setupOperation_spec(1-3) [of "usConnectionId u" "usSessionId u" "usRemotePath u" True "Some (usTransferId u)" a s]
    by (fastforce simp: sv_startUpload_def Let_def split: prod.splits sum.splits if_splits)
next
  case (OpDownload d)
  with assms show ?thesis
    using setupOperation_spec(1-3) [of "dsConnectionId d" "dsSessionId d" "dsRemotePath d" True "Some (dsTransferId d)" a s]
    by (fastforce simp: sv_startDownload_def Let_def split: prod.splits sum.splits)
qed

text \<open>The calls of one request: the streaming of a download adds the opening of the path as it was sent.\<close>

lemma run_op_calls:
  assumes "run_op isoDate cid sid op a now s = (s1, calls, r)"
  shows "(\<forall>c\<in>set calls. c \<in> {RcOpenSession, RcRealpath ''.''}
            \<or> (\<exists>v. accepted (svConfig s) (op_path op) (op_checks_extension op) v
                 \<and> ((\<exists>p. reaches a v p \<and> call_path c = Some p) \<or> op_streams op \<and> c = RcOpen (op_path op) ''r'')))
    \<and> ((\<nexists>v. accepted (svConfig s) (op_path op) (op_checks_extension op) v) \<longrightarrow> s1 = s \<and> calls = [] \<and> isl r)"
proof -
  obtain s2 cs r2 where m: "service_method isoDate cid sid op a now s = (s2, cs, r2)" by (metis prod_cases3)
  note spec = service_method_calls [OF m]
  have "\<exists>v. accepted (svConfig s) (op_path op) (op_checks_extension op) v" if "\<not> isl r2"
    using spec that by blast
  moreover have "s1 = s2 \<and> r = r2 \<and> (calls = cs \<or> op_streams op \<and> \<not> isl r2 \<and> calls = cs @ [RcOpen (op_path op) ''r''])"
    using assms m by (cases op; cases r2) (auto simp: sv_streamDownload_def split: option.splits)
  ultimately show ?thesis using spec by auto
qed


definition demo_config :: sftp_config where
  "demo_config = \<lparr>scEnabled = True, scMaxFileSize = 100, scRateLimit = 0, scChunkSize = 10, scMaxConcurrent = 2,
     scAllowedPaths = Some [''/srv''], scBlockedExtensions = [''.exe'']\<rparr>"

definition demo_answers :: op_answers where
  "demo_answers = \<lparr>anClient = True, anChannel = Answered 7, anHome = Answered ''/home/u'', anStat = Refused ''No such file'',
     anList = Answered [], anDone = Answered ()\<rparr>"


section \<open>Runs of uploads\<close>

text \<open>The events of the uploads of a server: requests, and the callbacks and timers of the pending
  opens and writes, by their position.  A callback that is not pending cannot run and changes
  nothing.\<close>

datatype up_event = UStart upload_start op_answers | UOpened nat "(string, nat) result" | UOpenTimeout nat
  | UChunk upload_chunk | UWritten nat "string option" | UWriteTimeout nat
  | UComplete string | UCancel string | UCloseSession string | UCancelSession string

fun up_step :: "(int \<Rightarrow> string) \<Rightarrow> int \<times> up_event \<Rightarrow> file_service \<Rightarrow> file_service \<times> remote_call list" where
  "up_step iso_date (now, UStart u a) s = (case sv_startUpload iso_date u a now s of (s1, cs, r) \<Rightarrow> (s1, cs))"
| "up_step iso_date (now, UOpened k r) s =
     (if k < length (svOpening s) then (fst (upload_opened k r now s), []) else (s, []))"
| "up_step iso_date (now, UOpenTimeout k) s =
     (if k < length (svOpening s) then (fst (upload_open_timeout k s), []) else (s, []))"
| "up_step iso_date (now, UChunk c) s = (case sv_processUploadChunk c now s of (s1, cs, r) \<Rightarrow> (s1, cs))"
| "up_step iso_date (now, UWritten k e) s =
     (if k < length (svWriting s) then (case chunk_written k e s of (s1, cs, r) \<Rightarrow> (s1, cs)) else (s, []))"
| "up_step iso_date (now, UWriteTimeout k) s =
     (if k < length (svWriting s) then (fst (chunk_write_timeout k s), []) else (s, []))"
| "up_step iso_date (now, UComplete tid) s = (case sv_completeUpload tid now s of (s1, cs, r) \<Rightarrow> (s1, cs))"
| "up_step iso_date (now, UCancel tid) s = sv_cancelUpload tid s"
| "up_step iso_date (now, UCloseSession cid) s = (sv_closeSession cid s, [])"
| "up_step iso_date (now, UCancelSession sid) s = (sv_cancelSessionTransfers sid s, [])"

fun up_run :: "(int \<Rightarrow> string) \<Rightarrow> (int \<times> up_event) list \<Rightarrow> file_service \<Rightarrow> remote_call list \<Rightarrow>
    file_service \<times> remote_call list" where
  "up_run iso_date [] s cs = (s, cs)"
| "up_run iso_date (e # es) s cs = (let (s1, cs1) = up_step iso_date e s in up_run iso_date es s1 (cs @ cs1))"

text \<open>The transfers that are started; the server draws a fresh identifier for each.\<close>

definition starts :: "(int \<times> up_event) list \<Rightarrow> string list" where
  "starts es = List.map_filter (\<lambda>e. case snd e of UStart u a \<Rightarrow> Some (usTransferId u) | _ \<Rightarrow> None) es"

definition writes_of :: "string \<Rightarrow> remote_call list \<Rightarrow> (nat \<times> bytes) list" where
  "writes_of tid cs = List.map_filter
     (\<lambda>c. case c of RcWrite t o' d \<Rightarrow> if t = tid then Some (o', d) else None | _ \<Rightarrow> None) cs"

text \<open>A file as a partial map from positions to bytes; a write sets the bytes of its range.\<close>

definition write_at :: "nat \<times> bytes \<Rightarrow> (nat \<Rightarrow> byte option) \<Rightarrow> nat \<Rightarrow> byte option" where
  "write_at w f = (\<lambda>i. if fst w \<le> i \<and> i < fst w + length (snd w) then Some (snd w ! (i - fst w)) else f i)"

fun contiguous :: "nat \<Rightarrow> (nat \<times> bytes) list \<Rightarrow> bool" where
  "contiguous n [] = True"
| "contiguous n ((p, d) # ws) = (p = n \<and> contiguous (n + length d) ws)"

abbreviation data_of :: "(nat \<times> bytes) list \<Rightarrow> bytes" where
  "data_of ws \<equiv> concat (map snd ws)"

lemma contiguous_snoc: "contiguous n (ws @ [(p, d)]) \<longleftrightarrow> contiguous n ws \<and> p = n + length (data_of ws)"
  by (induction n ws rule: contiguous.induct) auto

lemma contiguous_from: "contiguous n ws \<Longrightarrow> w \<in> set ws \<Longrightarrow> n \<le> fst w"
  by (induction n ws rule: contiguous.induct) auto

lemma contiguous_disjoint:
  "contiguous n ws \<Longrightarrow> v \<in> set ws \<Longrightarrow> w \<in> set ws \<Longrightarrow>
     v = w \<or> fst v + length (snd v) \<le> fst w \<or> fst w + length (snd w) \<le> fst v"
proof (induction n ws rule: contiguous.induct)
  case (2 n p d ws)
  then show ?case using contiguous_from [of "n + length d" ws] by fastforce
qed simp

lemma write_in_order:
  "contiguous n ws \<Longrightarrow> fold write_at ws f =
     (\<lambda>i. if n \<le> i \<and> i < n + length (data_of ws) then Some (data_of ws ! (i - n)) else f i)"
proof (induction n ws arbitrary: f rule: contiguous.induct)
  case (2 n p d ws)
  then show ?case by (auto simp: fun_eq_iff write_at_def nth_append)
qed (auto simp: fun_eq_iff)

lemma write_any_order:
  assumes c: "contiguous 0 ws" and m: "mset ws' = mset ws"
  shows "fold write_at ws' (\<lambda>_. None) = (\<lambda>i. if i < length (data_of ws) then Some (data_of ws ! i) else None)"
proof -
  have "fold write_at ws = fold write_at ws'"
  proof (rule fold_multiset_equiv)
    fix v w assume "v \<in> set ws" "w \<in> set ws"
    from contiguous_disjoint [OF c this] show "write_at v \<circ> write_at w = write_at w \<circ> write_at v"
      by (auto simp: fun_eq_iff write_at_def)
  qed (simp add: m)
  with write_in_order [OF c, of "\<lambda>_. None"] show ?thesis by (simp add: fun_eq_iff)
qed

lemma writes_of_simps [simp]:
  "writes_of tid [] = []" "writes_of tid (a @ b) = writes_of tid a @ writes_of tid b"
  by (simp_all add: writes_of_def List.map_filter_def)

lemma writes_of_Cons: "writes_of tid (c # cs) =
    (case c of RcWrite t p d \<Rightarrow> if t = tid then [(p, d)] else [] | _ \<Rightarrow> []) @ writes_of tid cs"
  by (auto simp: writes_of_def List.map_filter_def split: remote_call.split)

fun is_write :: "remote_call \<Rightarrow> bool" where
  "is_write (RcWrite t p d) = True"
| "is_write _ = False"

lemma no_writes: "list_all (\<lambda>c. \<not> is_write c) cs \<Longrightarrow> writes_of tid cs = []"
  by (induction cs) (auto simp: writes_of_Cons split: remote_call.split)

section \<open>The invariant of the uploads\<close>

text \<open>\<open>used\<close> are the transfers started so far.\<close>

definition up_inv :: "string set \<Rightarrow> file_service \<Rightarrow> remote_call list \<Rightarrow> bool" where
  "up_inv used s cs \<longleftrightarrow>
     (\<forall>tid. contiguous 0 (writes_of tid cs))
     \<and> (\<forall>tid t. getTransfer tid (svTransfers s) = Some t \<longrightarrow>
          tBytesTransferred t = int (length (data_of (writes_of tid cs)))
          \<and> tNextChunkIndex t = int (length (writes_of tid cs)))
     \<and> (\<forall>tid. writes_of tid cs \<noteq> [] \<longrightarrow> tid \<in> used)
     \<and> set (map_keys (svUploads s)) \<subseteq> used
     \<and> (\<forall>x\<in>set (svOpening s). usTransferId (fst x) \<in> used)"

definition keeps :: "transfer_manager \<Rightarrow> transfer_manager \<Rightarrow> bool" where
  "keeps m m' \<longleftrightarrow> (\<forall>tid t'. getTransfer tid m' = Some t' \<longrightarrow>
     (\<exists>t. getTransfer tid m = Some t \<and> tBytesTransferred t' = tBytesTransferred t
          \<and> tNextChunkIndex t' = tNextChunkIndex t))"

lemma keeps_refl [simp]: "keeps m m"
  by (simp add: keeps_def)

lemma keeps_drop [simp]: "keeps m (drop_transfer tid m)"
  by (simp add: keeps_def)

lemma keeps_cancel [simp]: "keeps m (fst (cancelTransfer tid m))"
  by (simp add: cancelTransfer_def split: option.split)

lemma keeps_complete: "completeTransfer tid now m = (m', r) \<Longrightarrow> keeps m m'"
  by (auto simp: completeTransfer_def Let_def split: option.splits)

lemma keeps_activate [simp]: "keeps m (fst (activateTransfer tid now m))"
  by (auto simp: activateTransfer_def Let_def keeps_def getTransfer_def put_def map_get_set split: option.split)

lemma keeps_cancelSession [simp]: "keeps m (cancelSessionTransfers sid m)"
proof -
  have "map_get (fold (\<lambda>t ts. if tSessionId t = sid then map_delete (tId t) ts else ts) xs ts) tid = Some t \<Longrightarrow>
      map_get ts tid = Some t" for xs ts tid t
  proof (induction xs arbitrary: ts)
    case (Cons x xs)
    have "map_get (if tSessionId x = sid then map_delete (tId x) ts else ts) tid = Some t"
      using Cons.IH Cons.prems by simp
    then show ?case by (auto simp: map_get_delete split: if_splits)
  qed simp
  then have "getTransfer tid (cancelSessionTransfers sid m) = Some t \<Longrightarrow> getTransfer tid m = Some t" for tid t
    by (simp add: cancelSessionTransfers_def getTransfer_def)
  then show ?thesis unfolding keeps_def by blast
qed

lemma up_inv_keep:
  assumes inv: "up_inv used s cs" and k: "keeps (svTransfers s) (svTransfers s')"
    and "set (map_keys (svUploads s')) \<subseteq> set (map_keys (svUploads s))"
    and "fst ` set (svOpening s') \<subseteq> fst ` set (svOpening s)"
    and w: "list_all (\<lambda>c. \<not> is_write c) cs'"
  shows "up_inv used s' (cs @ cs')"
proof -
  have o: "usTransferId (fst x) \<in> used" if x: "x \<in> set (svOpening s')" for x
  proof -
    have "fst x \<in> fst ` set (svOpening s)" using x assms(4) by blast
    then obtain y where "y \<in> set (svOpening s)" "fst y = fst x" by force
    then show ?thesis using inv by (auto simp: up_inv_def)
  qed
  have t: "tBytesTransferred t = int (length (data_of (writes_of tid cs)))
      \<and> tNextChunkIndex t = int (length (writes_of tid cs))"
    if g: "getTransfer tid (svTransfers s') = Some t" for tid t
  proof -
    obtain t0 where "getTransfer tid (svTransfers s) = Some t0" "tBytesTransferred t = tBytesTransferred t0"
        "tNextChunkIndex t = tNextChunkIndex t0"
      using g k by (auto simp: keeps_def)
    then show ?thesis using inv by (simp add: up_inv_def)
  qed
  have w: "\<And>tid. writes_of tid (cs @ cs') = writes_of tid cs" using no_writes [OF w] by simp
  show ?thesis unfolding up_inv_def w
  proof (intro conjI allI impI ballI)
    fix tid t assume "getTransfer tid (svTransfers s') = Some t"
    then show "tBytesTransferred t = int (length (data_of (writes_of tid cs)))"
      and "tNextChunkIndex t = int (length (writes_of tid cs))" using t by blast+
  next
    show "set (map_keys (svUploads s')) \<subseteq> used" using inv assms(3) unfolding up_inv_def by blast
  next
    fix x assume "x \<in> set (svOpening s')"
    then show "usTransferId (fst x) \<in> used" by (rule o)
  qed (use inv in \<open>auto simp: up_inv_def\<close>)
qed

lemma up_inv_mono: "up_inv used s cs \<Longrightarrow> used \<subseteq> used' \<Longrightarrow> up_inv used' s cs"
  unfolding up_inv_def by blast

lemma closeUpload_frame:
  assumes "closeUpload tid s = (s', cs)"
  shows "svTransfers s' = svTransfers s \<and> svOpening s' = svOpening s
    \<and> set (map_keys (svUploads s')) \<subseteq> set (map_keys (svUploads s)) \<and> list_all (\<lambda>c. \<not> is_write c) cs"
  using assms by (auto simp: closeUpload_def map_delete_filter split: option.splits)

lemma remove_nth_subset: "set (remove_nth k xs) \<subseteq> set xs"
  by (auto simp: remove_nth_def dest: in_set_takeD in_set_dropD)

lemma calls_without_writes: "set calls \<subseteq> {RcOpenSession, RcRealpath p} \<Longrightarrow> list_all (\<lambda>c. \<not> is_write c) calls"
  by (auto simp: list_all_iff)

lemma startUpload_inv:
  assumes inv: "up_inv used s cs" and new: "usTransferId u \<notin> used"
    and e: "sv_startUpload isoDate u a now s = (s', cs', r)"
  shows "up_inv (insert (usTransferId u) used) s' (cs @ cs')"
proof (cases "validateUploadPreFlight u (scMaxFileSize (svConfig s))")
  case (Inl x)
  with e have "s' = s" "cs' = []" by (simp_all add: sv_startUpload_def)
  then show ?thesis using up_inv_mono [OF inv] by auto
next
  case (Inr x)
  obtain s1 calls r1 where su: "setupOperation (usConnectionId u) (usSessionId u) (usRemotePath u) True
      (Some (usTransferId u)) a s = (s1, calls, r1)" by (metis prod_cases3)
  note st = setupOperation_spec [OF su]
  have nw: "list_all (\<lambda>c. \<not> is_write c) calls" using calls_without_writes [OF st(1)] .
  show ?thesis
  proof (cases r1)
    case (Inl x2)
    with e Inr su have "s' = s1" "cs' = calls" by (simp_all add: sv_startUpload_def)
    moreover have "up_inv used s1 (cs @ calls)" by (rule up_inv_keep [OF inv]) (use st(4) nw in auto)
    ultimately show ?thesis using up_inv_mono [OF _ subset_insertI] by simp
  next
    case ir: (Inr p)
    let ?calls1 = "if usOverwrite u = Some True then calls else calls @ [RcStat p]"
    have "up_inv used s1 (cs @ ?calls1)" by (rule up_inv_keep [OF inv]) (use st(4) nw in auto)
    then have base: "up_inv (insert (usTransferId u) used) s1 (cs @ ?calls1)"
      by (rule up_inv_mono [OF _ subset_insertI])
    obtain m r2 where up: "startUploadTransfer u p (scRateLimit (svConfig s1)) now (svTransfers s1) = (m, r2)" by fastforce
    consider "s' = s1" "cs' = ?calls1" | y where "r2 = err y" "s' = s1\<lparr>svTransfers := m\<rparr>" "cs' = ?calls1"
      | t f where "r2 = ok t" "s' = s1\<lparr>svTransfers := m, svOpening := svOpening s1 @ [(u, p, False)]\<rparr>" "cs' = ?calls1 @ [RcOpen p f]"
      using e Inr su ir up by (auto simp: sv_startUpload_def Let_def split: if_splits sum.splits)
    then show ?thesis
    proof cases
      case 1
      then show ?thesis using base by simp
    next
      case 2
      then have "m = svTransfers s1"
        using up by (auto simp: startUploadTransfer_def startTransfer_def Let_def split: if_splits sum.splits prod.splits)
      then show ?thesis using 2 base by simp
    next
      case 3
      obtain t0 where m: "m = put (usTransferId u) t0 (svTransfers s)" and t0: "tBytesTransferred t0 = 0" "tNextChunkIndex t0 = 0"
        using up 3(1) st(4) by (auto simp: startUploadTransfer_def startTransfer_def Let_def split: if_splits sum.splits prod.splits)
      have none: "writes_of (usTransferId u) cs = []" using inv new by (auto simp: up_inv_def)
      have "writes_of tid cs' = []" for tid using no_writes [OF nw] 3 by (auto simp: writes_of_Cons)
      then show ?thesis
        using inv st(4) none t0 unfolding up_inv_def 3 m
        by (auto simp: getTransfer_def put_def map_get_set)
    qed
  qed
qed

lemma processUploadChunk_inv:
  assumes inv: "up_inv used s cs" and e: "sv_processUploadChunk c now s = (s', cs', r)"
  shows "up_inv used s' (cs @ cs')"
proof (cases "map_get (svUploads s) (ucTransferId c)")
  case None
  with e have "s' = s" "cs' = []" by (simp_all add: sv_processUploadChunk_def Let_def)
  then show ?thesis using inv by simp
next
  case (Some h)
  let ?tid = "ucTransferId c" and ?n = "int (length (ucData c))"
  have used: "?tid \<in> used" using inv Some by (force simp: up_inv_def dest: map_of_SomeD)
  obtain m r1 where up: "updateProgress ?tid (ucIndex c) ?n now (svTransfers s) = (m, r1)" by fastforce
  show ?thesis
  proof (cases r1)
    case (Inl x)
    then have "m = svTransfers s" "s' = s\<lparr>svTransfers := m\<rparr>" "cs' = []"
      using up e Some by (auto simp: updateProgress_def sv_processUploadChunk_def Let_def split: option.splits if_splits)
    then show ?thesis using inv by simp
  next
    case (Inr t)
    obtain t0 where t0: "getTransfer ?tid (svTransfers s) = Some t0" and m: "m = put ?tid t (svTransfers s)"
      and t: "tBytesTransferred t = tBytesTransferred t0 + ?n" "tNextChunkIndex t = tNextChunkIndex t0 + 1"
      using up Inr by (auto simp: updateProgress_def Let_def getTransfer_def split: option.splits if_splits)
    have b0: "tBytesTransferred t0 = int (length (data_of (writes_of ?tid cs)))"
        "tNextChunkIndex t0 = int (length (writes_of ?tid cs))" using inv t0 by (simp_all add: up_inv_def)
    have s': "svTransfers s' = m" "svUploads s' = svUploads s" "svOpening s' = svOpening s"
      and cs': "cs' = [RcWrite ?tid (length (data_of (writes_of ?tid cs))) (ucData c)]"
      using e Some up Inr t b0 by (auto simp: sv_processUploadChunk_def Let_def)
    have w: "writes_of tid (cs @ cs') = writes_of tid cs @
        (if tid = ?tid then [(length (data_of (writes_of ?tid cs)), ucData c)] else [])" for tid
      by (simp add: cs' writes_of_Cons)
    show ?thesis unfolding up_inv_def w
    proof (intro conjI allI impI)
      fix tid
      show "contiguous 0 (writes_of tid cs @ (if tid = ?tid then [(length (data_of (writes_of ?tid cs)), ucData c)] else []))"
        using inv by (auto simp: up_inv_def contiguous_snoc)
      show "writes_of tid cs @ (if tid = ?tid then [(length (data_of (writes_of ?tid cs)), ucData c)] else []) \<noteq> []
          \<Longrightarrow> tid \<in> used"
        using inv used by (auto simp: up_inv_def split: if_splits)
      fix x assume "getTransfer tid (svTransfers s') = Some x"
      then have "tBytesTransferred x = int (length (data_of (writes_of tid cs
          @ (if tid = ?tid then [(length (data_of (writes_of ?tid cs)), ucData c)] else []))))
        \<and> tNextChunkIndex x = int (length (writes_of tid cs
          @ (if tid = ?tid then [(length (data_of (writes_of ?tid cs)), ucData c)] else [])))"
        using inv t b0 by (cases "tid = ?tid") (auto simp: s' m up_inv_def)
      then show "tBytesTransferred x = int (length (data_of (writes_of tid cs
          @ (if tid = ?tid then [(length (data_of (writes_of ?tid cs)), ucData c)] else []))))"
        and "tNextChunkIndex x = int (length (writes_of tid cs
          @ (if tid = ?tid then [(length (data_of (writes_of ?tid cs)), ucData c)] else [])))" by blast+
    qed (use inv in \<open>auto simp: up_inv_def s'\<close>)
  qed
qed

lemma upload_opened_inv:
  assumes inv: "up_inv used s cs" and k: "k < length (svOpening s)"
  shows "up_inv used (fst (upload_opened k r now s)) cs"
proof -
  obtain u p b where o: "svOpening s ! k = (u, p, b)" by (cases "svOpening s ! k")
  have "(u, p, b) \<in> set (svOpening s)" using k o by (metis nth_mem)
  then have used: "usTransferId u \<in> used" using inv by (force simp: up_inv_def)
  let ?s1 = "fst (upload_opened k r now s)"
  have op: "svOpening ?s1 = remove_nth k (svOpening s)"
    and up: "svUploads ?s1 = (case r of Inl m \<Rightarrow> svUploads s | Inr h \<Rightarrow> map_set (usTransferId u) h (svUploads s))"
    and tr: "keeps (svTransfers s) (svTransfers ?s1)"
    by (simp_all add: upload_opened_def o Let_def split: sum.split)
  have "\<forall>x\<in>set (svOpening ?s1). usTransferId (fst x) \<in> used"
    using inv remove_nth_subset [of k "svOpening s"] unfolding op up_inv_def by blast
  moreover have "set (map_keys (svUploads ?s1)) \<subseteq> used"
    using inv used unfolding up by (simp add: up_inv_def dom_update split: sum.split)
  moreover have "tBytesTransferred t = int (length (data_of (writes_of tid cs)))
      \<and> tNextChunkIndex t = int (length (writes_of tid cs))"
    if g: "getTransfer tid (svTransfers ?s1) = Some t" for tid t
    using g tr inv unfolding keeps_def up_inv_def by fastforce
  ultimately show ?thesis using inv unfolding up_inv_def by blast
qed

lemma open_timeout_inv:
  assumes inv: "up_inv used s cs" and k: "k < length (svOpening s)"
  shows "up_inv used (fst (upload_open_timeout k s)) (cs @ [])"
proof (rule up_inv_keep [OF inv])
  obtain u p b where o: "svOpening s ! k = (u, p, b)" by (cases "svOpening s ! k")
  then have "(u, p, b) \<in> set (svOpening s)" using k by (metis nth_mem)
  then have "u \<in> fst ` set (svOpening s)" by force
  moreover have "fst ` set ((svOpening s)[k := (u, p, True)]) \<subseteq> fst ` insert (u, p, True) (set (svOpening s))"
    by (rule image_mono [OF set_update_subset_insert])
  ultimately show "fst ` set (svOpening (fst (upload_open_timeout k s))) \<subseteq> fst ` set (svOpening s)"
    by (simp add: upload_open_timeout_def o insert_absorb)
qed (auto simp: upload_open_timeout_def split: prod.split)

lemma chunk_written_inv:
  assumes inv: "up_inv used s cs" and e: "chunk_written k we s = (s', cs', r)"
  shows "up_inv used s' (cs @ cs')"
proof -
  obtain c n b where w: "svWriting s ! k = (c, n, b)" by (cases "svWriting s ! k")
  let ?s1 = "s\<lparr>svWriting := remove_nth k (svWriting s)\<rparr>"
  obtain s2 calls where cl: "closeUpload (ucTransferId c) ?s1 = (s2, calls)" by fastforce
  have "s' = s2 \<and> cs' = calls \<or> s' = ?s1 \<and> cs' = []"
    using e cl by (auto simp: chunk_written_def w Let_def split: option.splits if_splits)
  then show ?thesis
    using up_inv_keep [OF inv, of s2 calls] up_inv_keep [OF inv, of ?s1 "[]"] closeUpload_frame [OF cl] by auto
qed

lemma completeUpload_inv:
  assumes inv: "up_inv used s cs" and e: "sv_completeUpload tid now s = (s', cs', r)"
  shows "up_inv used s' (cs @ cs')"
proof -
  obtain m r1 where c: "completeTransfer tid now (svTransfers s) = (m, r1)" by fastforce
  obtain s2 calls where cl: "closeUpload tid (s\<lparr>svTransfers := m\<rparr>) = (s2, calls)" by fastforce
  have "s' = s2 \<and> cs' = calls \<or> s' = s\<lparr>svTransfers := m\<rparr> \<and> cs' = []"
    using e cl c by (auto simp: sv_completeUpload_def split: sum.splits)
  then show ?thesis
    using up_inv_keep [OF inv, of s2 calls] up_inv_keep [OF inv, of "s\<lparr>svTransfers := m\<rparr>" "[]"]
      closeUpload_frame [OF cl] keeps_complete [OF c] by auto
qed

lemma cancelUpload_inv:
  assumes inv: "up_inv used s cs" and e: "sv_cancelUpload tid s = (s', cs')"
  shows "up_inv used s' (cs @ cs')"
proof -
  obtain s2 calls where cl: "closeUpload tid s = (s2, calls)" by fastforce
  then have "s' = s2\<lparr>svTransfers := fst (cancelTransfer tid (svTransfers s2))\<rparr>" "cs' = calls"
    using e by (auto simp: sv_cancelUpload_def)
  then show ?thesis using up_inv_keep [OF inv, of s' cs'] closeUpload_frame [OF cl] by simp
qed

definition starts_of :: "int \<times> up_event \<Rightarrow> string set" where
  "starts_of e = (case snd e of UStart u a \<Rightarrow> {usTransferId u} | _ \<Rightarrow> {})"

lemma up_step_inv:
  assumes inv: "up_inv used s cs" and new: "starts_of e \<inter> used = {}" and st: "up_step isoDate e s = (s', cs')"
  shows "up_inv (used \<union> starts_of e) s' (cs @ cs')"
proof -
  obtain now ev where e: "e = (now, ev)" by fastforce
  show ?thesis
  proof (cases ev)
    case (UStart u a)
    obtain r where "sv_startUpload isoDate u a now s = (s', cs', r)"
      using st by (auto simp: e UStart split: prod.splits)
    from startUpload_inv [OF inv _ this] new show ?thesis by (simp add: starts_of_def e UStart)
  next
    case (UOpened k r)
    with st inv upload_opened_inv [OF inv] show ?thesis by (auto simp: e starts_of_def split: if_splits)
  next
    case (UOpenTimeout k)
    with st inv open_timeout_inv [OF inv] show ?thesis by (auto simp: e starts_of_def split: if_splits)
  next
    case (UChunk c)
    with st processUploadChunk_inv [OF inv] show ?thesis by (auto simp: e starts_of_def split: prod.splits)
  next
    case (UWritten k x)
    with st inv chunk_written_inv [OF inv] show ?thesis by (auto simp: e starts_of_def split: prod.splits if_splits)
  next
    case (UWriteTimeout k)
    then have "s' = s\<lparr>svWriting := svWriting s'\<rparr>" "cs' = []"
      using st by (auto simp: e chunk_write_timeout_def split: prod.splits if_splits)
    then have "svTransfers s' = svTransfers s \<and> svUploads s' = svUploads s \<and> svOpening s' = svOpening s \<and> cs' = []"
      by (cases s; cases s') simp
    then show ?thesis using inv up_inv_keep [OF inv, of s' "[]"] by (simp add: starts_of_def e UWriteTimeout)
  next
    case (UComplete tid)
    with st completeUpload_inv [OF inv] show ?thesis by (auto simp: e starts_of_def split: prod.splits)
  next
    case (UCancel tid)
    with st cancelUpload_inv [OF inv] show ?thesis by (auto simp: e starts_of_def)
  next
    case (UCloseSession cid)
    with st up_inv_keep [OF inv, of s' "[]"] show ?thesis by (auto simp: e starts_of_def sv_closeSession_def)
  next
    case (UCancelSession sid)
    with st up_inv_keep [OF inv, of s' "[]"] show ?thesis by (auto simp: e starts_of_def sv_cancelSessionTransfers_def)
  qed
qed

lemma starts_Cons: "starts (e # es) = (case snd e of UStart u a \<Rightarrow> [usTransferId u] | _ \<Rightarrow> []) @ starts es"
  by (auto simp: starts_def List.map_filter_def split: up_event.split)

lemma starts_of_set: "set (starts (e # es)) = starts_of e \<union> set (starts es)"
  by (auto simp: starts_Cons starts_of_def split: up_event.split)

lemma up_run_inv:
  "up_inv used s cs \<Longrightarrow> distinct (starts es) \<Longrightarrow> set (starts es) \<inter> used = {} \<Longrightarrow>
     up_run isoDate es s cs = (s', cs') \<Longrightarrow> up_inv (used \<union> set (starts es)) s' cs'"
proof (induction es arbitrary: s cs used)
  case Nil
  then show ?case by (simp add: starts_def List.map_filter_def)
next
  case (Cons e es)
  obtain s1 cs1 where st: "up_step isoDate e s = (s1, cs1)" by fastforce
  have "starts_of e \<inter> used = {}" "starts_of e \<inter> set (starts es) = {}" "distinct (starts es)"
    using Cons.prems(2,3) starts_of_set [of e es]
    by (auto simp: starts_Cons starts_of_def split: up_event.splits)
  moreover from this up_step_inv [OF Cons.prems(1) _ st] have "up_inv (used \<union> starts_of e) s1 (cs @ cs1)" by blast
  ultimately have "up_inv ((used \<union> starts_of e) \<union> set (starts es)) s' cs'"
    using Cons.IH [of "used \<union> starts_of e" s1 "cs @ cs1"] Cons.prems(3,4) st starts_of_set [of e es] by auto
  then show ?case by (simp add: starts_of_set Un_assoc)
qed

lemma new_service_inv: "up_inv {} (new_file_service cfg) []"
  by (simp add: up_inv_def new_file_service_def new_transfer_manager_def getTransfer_def)

section \<open>The accepted chunks\<close>

text \<open>The chunks of a transfer the service took in a run: those it answered without an error, as the
  client sent them.\<close>

fun accepted_chunk :: "string \<Rightarrow> int \<times> up_event \<Rightarrow> file_service \<Rightarrow> upload_chunk list" where
  "accepted_chunk tid (now, UChunk c) s =
     (case sv_processUploadChunk c now s of (s1, cs, r) \<Rightarrow> if ucTransferId c = tid \<and> \<not> isl r then [c] else [])"
| "accepted_chunk tid _ s = []"

fun accepted_chunks :: "(int \<Rightarrow> string) \<Rightarrow> string \<Rightarrow> (int \<times> up_event) list \<Rightarrow> file_service \<Rightarrow> upload_chunk list" where
  "accepted_chunks iso_date tid [] s = []"
| "accepted_chunks iso_date tid (e # es) s =
     accepted_chunk tid e s @ accepted_chunks iso_date tid es (fst (up_step iso_date e s))"

lemma startUpload_no_write:
  assumes e: "sv_startUpload isoDate u a now s = (s', cs', r)"
  shows "list_all (\<lambda>c. \<not> is_write c) cs'"
proof -
  obtain s1 calls r1 where su: "setupOperation (usConnectionId u) (usSessionId u) (usRemotePath u) True
      (Some (usTransferId u)) a s = (s1, calls, r1)" by (metis prod_cases3)
  have "list_all (\<lambda>c. \<not> is_write c) calls" using calls_without_writes [OF setupOperation_spec(1) [OF su]] .
  then show ?thesis using e su by (auto simp: sv_startUpload_def Let_def split: sum.splits prod.splits if_splits)
qed

lemma only_chunks_write:
  assumes st: "up_step isoDate (now, ev) s = (s', cs')" and n: "\<And>c. ev \<noteq> UChunk c"
  shows "list_all (\<lambda>c. \<not> is_write c) cs'"
proof (cases ev)
  case (UStart u a)
  then show ?thesis using st startUpload_no_write by (auto split: prod.splits)
next
  case (UWritten k e)
  then show ?thesis using st closeUpload_frame
    by (auto simp: chunk_written_def Let_def split: prod.splits if_splits option.splits)
next
  case (UComplete t)
  then show ?thesis using st closeUpload_frame
    by (auto simp: sv_completeUpload_def Let_def split: prod.splits sum.splits)
next
  case (UCancel t)
  then show ?thesis using st closeUpload_frame by (auto simp: sv_cancelUpload_def split: prod.splits)
qed (use st n in \<open>auto split: if_splits\<close>)

text \<open>An accepted chunk has the next index and is written as it came; a refused one is not written.\<close>

lemma processUploadChunk_spec:
  assumes inv: "up_inv used s cs" and e: "sv_processUploadChunk c now s = (s', cs', r)"
  shows "isl r \<Longrightarrow> cs' = []"
    and "\<not> isl r \<Longrightarrow> ucIndex c = int (length (writes_of (ucTransferId c) cs))
      \<and> (\<exists>p. cs' = [RcWrite (ucTransferId c) p (ucData c)])"
proof -
  show "isl r \<Longrightarrow> cs' = []"
    using e by (auto simp: sv_processUploadChunk_def Let_def split: option.splits prod.splits sum.splits)
  show "\<not> isl r \<Longrightarrow> ucIndex c = int (length (writes_of (ucTransferId c) cs))
      \<and> (\<exists>p. cs' = [RcWrite (ucTransferId c) p (ucData c)])"
    using e inv
    by (auto simp: sv_processUploadChunk_def updateProgress_def up_inv_def getTransfer_def Let_def
        split: option.splits if_splits)
qed

lemma up_step_accepted:
  assumes inv: "up_inv used s cs" and st: "up_step isoDate e s = (s', cs')"
  shows "map snd (writes_of tid cs') = map ucData (accepted_chunk tid e s)
    \<and> map ucIndex (accepted_chunk tid e s)
        = map int [length (writes_of tid cs)..<length (writes_of tid (cs @ cs'))]"
proof -
  obtain now ev where e: "e = (now, ev)" by fastforce
  show ?thesis
  proof (cases "\<exists>c. ev = UChunk c")
    case True
    then obtain c r where c: "ev = UChunk c" and p: "sv_processUploadChunk c now s = (s', cs', r)"
      using st by (auto simp: e split: prod.splits)
    show ?thesis using processUploadChunk_spec [OF inv p] p
      by (cases "isl r") (auto simp: e c writes_of_Cons)
  next
    case False
    then have "list_all (\<lambda>c. \<not> is_write c) cs'" using only_chunks_write [of isoDate now ev s s' cs'] st e by blast
    moreover have "accepted_chunk tid e s = []" using False by (cases ev) (auto simp: e)
    ultimately show ?thesis by (simp add: no_writes)
  qed
qed

lemma up_run_accepted:
  "up_inv used s cs \<Longrightarrow> distinct (starts es) \<Longrightarrow> set (starts es) \<inter> used = {} \<Longrightarrow>
     up_run isoDate es s cs = (s', cs') \<Longrightarrow>
     map snd (writes_of tid cs') = map snd (writes_of tid cs) @ map ucData (accepted_chunks isoDate tid es s)
     \<and> map ucIndex (accepted_chunks isoDate tid es s) = map int [length (writes_of tid cs)..<length (writes_of tid cs')]"
proof (induction es arbitrary: s cs used)
  case Nil
  then show ?case by simp
next
  case (Cons e es)
  obtain s1 cs1 where st: "up_step isoDate e s = (s1, cs1)" by fastforce
  have d: "starts_of e \<inter> used = {}" "starts_of e \<inter> set (starts es) = {}" "distinct (starts es)"
    using Cons.prems(2,3) starts_of_set [of e es]
    by (auto simp: starts_Cons starts_of_def split: up_event.splits)
  have inv: "up_inv (used \<union> starts_of e) s1 (cs @ cs1)" using up_step_inv [OF Cons.prems(1) d(1) st] .
  have free: "set (starts es) \<inter> (used \<union> starts_of e) = {}"
    using Cons.prems(3) d(2) starts_of_set [of e es] by auto
  have run: "up_run isoDate es s1 (cs @ cs1) = (s', cs')" using Cons.prems(4) st by simp
  note ih = Cons.IH [OF inv d(3) free run]
  note one = up_step_accepted [OF Cons.prems(1) st, of tid]
  let ?l = "length (writes_of tid cs)" and ?m = "length (writes_of tid (cs @ cs1))" and ?n = "length (writes_of tid cs')"
  have "?l \<le> ?m" by simp
  moreover have "?m \<le> ?n" using arg_cong [OF conjunct1 [OF ih], of length] by simp
  ultimately have "[?l..<?m] @ [?m..<?n] = [?l..<?n]" using upt_add_eq_append [of ?l ?m "?n - ?m"] by simp
  then have "map int [?l..<?m] @ map int [?m..<?n] = map int [?l..<?n]" by (metis map_append)
  then show ?case using ih one st by simp
qed

text \<open>C1: An upload arrives whole.  After any run of the file service in which transfers have fresh
  identifiers, the chunks of a transfer that the service took are those with the indices 0, 1, 2 and
  so on in this order, and the writes it issued for the transfer, performed in any order on an empty
  file, leave exactly the data the client sent in these chunks, one after the other; the byte count
  of the transfer is the length of this data.\<close>

theorem upload_file_assembled:
  assumes run: "up_run isoDate es (new_file_service cfg) [] = (s, calls)" and fresh: "distinct (starts es)"
    and order: "mset ws = mset (writes_of tid calls)"
  shows "let chunks = accepted_chunks isoDate tid es (new_file_service cfg); data = concat (map ucData chunks)
     in map ucIndex chunks = map int [0..<length chunks]
      \<and> fold write_at ws (\<lambda>_. None) = (\<lambda>i. if i < length data then Some (data ! i) else None)
      \<and> (\<forall>t. getTransfer tid (svTransfers s) = Some t \<longrightarrow> tBytesTransferred t = int (length data))"
proof -
  let ?acc = "accepted_chunks isoDate tid es (new_file_service cfg)"
  have inv: "up_inv ({} \<union> set (starts es)) s calls" using up_run_inv [OF new_service_inv fresh _ run] by simp
  then have c: "contiguous 0 (writes_of tid calls)" by (simp add: up_inv_def)
  have a: "map snd (writes_of tid calls) = map ucData ?acc \<and> map ucIndex ?acc = map int [0..<length (writes_of tid calls)]"
    using up_run_accepted [OF new_service_inv fresh _ run, of tid] by simp
  then have "length (writes_of tid calls) = length ?acc" and "data_of (writes_of tid calls) = concat (map ucData ?acc)"
    by (metis length_map, simp)
  with write_any_order [OF c order] inv a show ?thesis by (simp add: up_inv_def Let_def cong: if_cong)
qed

definition demo_upload :: "string \<Rightarrow> upload_start" where
  "demo_upload tid = \<lparr>usTransferId = tid, usSessionId = ''s'', usConnectionId = ''c'', usRemotePath = ''/srv/f'',
     usFileName = ''f'', usFileSize = 3, usOverwrite = None\<rparr>"

definition demo_upload_events :: "(int \<times> up_event) list" where
  "demo_upload_events =
     [(0, UStart (demo_upload ''t'') demo_answers), (1, UOpened 0 (ok 4)),
      (2, UChunk \<lparr>ucTransferId = ''t'', ucIndex = 0, ucData = [1, 2], ucIsLast = False\<rparr>),
      (3, UChunk \<lparr>ucTransferId = ''t'', ucIndex = 2, ucData = [9], ucIsLast = False\<rparr>),
      (4, UChunk \<lparr>ucTransferId = ''t'', ucIndex = 1, ucData = [3], ucIsLast = True\<rparr>),
      (5, UWritten 1 None), (6, UWritten 0 None), (7, UComplete ''t'')]"

lemma demo_upload_accepted:
  "map ucData (accepted_chunks (\<lambda>_. []) ''t'' demo_upload_events (new_file_service demo_config)) = [[1, 2], [3]]"
  by code_simp

lemma demo_upload_writes:
  "writes_of ''t'' (snd (up_run (\<lambda>_. []) demo_upload_events (new_file_service demo_config) [])) = [(0, [1, 2]), (2, [3])]"
  by code_simp

theorem upload_file_assembled_witness:
  "map (fold write_at [(2, [3]), (0, [1, 2])] (\<lambda>_. None)) [0, 1, 2, 3] = [Some 1, Some 2, Some 3, None]"
proof -
  obtain s calls where run: "up_run (\<lambda>_. []) demo_upload_events (new_file_service demo_config) [] = (s, calls)"
    by fastforce
  then have w: "writes_of ''t'' calls = [(0, [1, 2]), (2, [3])]" using demo_upload_writes by simp
  have "distinct (starts demo_upload_events)" by code_simp
  from upload_file_assembled [OF run this, of "[(2, [3]), (0, [1, 2])]" "''t''"] w
  show ?thesis by (simp add: add_mset_commute Let_def demo_upload_accepted)
qed

section \<open>Corners\<close>

text \<open>When the open of an upload is answered after its timer, the handle is stored although the
  transfer is gone: no chunk or completion reaches it, so it is never closed unless the transfer is
  cancelled by its identifier, which the client was never told.\<close>

lemma late_open_leaks_handle:
  assumes "svOpening s = [(u, p, False)]"
  shows "map_get (svUploads (fst (upload_opened 0 (ok h) now (fst (upload_open_timeout 0 s))))) (usTransferId u) = Some h
     \<and> getTransfer (usTransferId u) (svTransfers (fst (upload_opened 0 (ok h) now (fst (upload_open_timeout 0 s))))) = None
     \<and> snd (upload_opened 0 (ok h) now (fst (upload_open_timeout 0 s))) = None"
  using assms
  by (auto simp: upload_opened_def upload_open_timeout_def cancelTransfer_def activateTransfer_def getTransfer_def
      drop_transfer_def Let_def split: option.split)

text \<open>After a failed write the handle is closed but the transfer stays in the table and counts
  against the limit of its session.\<close>

lemma failed_write_keeps_transfer:
  "chunk_written k (Some m) s = (s', cs, r) \<Longrightarrow> svTransfers s' = svTransfers s"
  using closeUpload_frame by (fastforce simp: chunk_written_def Let_def split: prod.splits)

text \<open>An upload can be completed in any state, whatever part of the announced size arrived.\<close>

lemma incomplete_upload_completes:
  assumes "getTransfer tid (svTransfers s) = Some t"
  shows "\<exists>s' cs c. sv_completeUpload tid now s = (s', cs, ok (RpComplete c))"
  using assms by (auto simp: sv_completeUpload_def completeTransfer_def getTransfer_def Let_def split: prod.split)

text \<open>The validation looks at the path before \<open>~\<close> is replaced: a path below \<open>~\<close> passes for any
  allowed directories that include the home directory, although it may climb out of it.\<close>

lemma tilde_climbs_past_validation:
  "accepted (demo_config\<lparr>scAllowedPaths := Some [''~'']\<rparr>) ''~/../v/.ssh/id'' False ''~/../v/.ssh/id''
   \<and> reaches demo_answers ''~/../v/.ssh/id'' ''/home/u/../v/.ssh/id''"
proof -
  have "validatePath ''~/../v/.ssh/id'' (getPathValidationOptions (demo_config\<lparr>scAllowedPaths := Some [''~'']\<rparr>) False)
      = ok ''~/../v/.ssh/id''" by code_simp
  moreover have "is_tilde ''~/../v/.ssh/id''" "expand_home ''~/../v/.ssh/id'' ''/home/u'' = ''/home/u/../v/.ssh/id''"
    by code_simp+
  ultimately show ?thesis by (simp add: accepted_def reaches_def demo_config_def demo_answers_def)
qed

end
