(* ===== verification/Sftp_Messages.thy ===== *)
theory Sftp_Messages
  imports JS_Values
begin

text \<open>
  The validators of the SFTP messages a client sends, \<open>app/validation/socket/sftp.ts\<close>: each turns
  an arbitrary value into the request type of \<open>app/types/contracts/v1/sftp.ts\<close> or an error.  The
  request interfaces are the constructors of one type, an absent optional property is \<open>None\<close>, and
  integers are read from exact numbers.
\<close>

section \<open>Requests\<close>

datatype sftp_request =
    ListRequest string "bool option"
  | StatRequest string
  | MkdirRequest string "int option"
  | DeleteRequest string "bool option"
  | UploadStart string string int "string option" "bool option"
  | UploadChunk string int string bool
  | UploadCancel string
  | DownloadStart string
  | DownloadCancel string

definition SFTP_MAX_PATH_LENGTH :: nat where "SFTP_MAX_PATH_LENGTH = 4096"
definition SFTP_MAX_FILE_SIZE :: int where "SFTP_MAX_FILE_SIZE = 104857600"
definition SFTP_CHUNK_SIZE :: nat where "SFTP_CHUNK_SIZE = 32768"
definition MAX_SAFE_INTEGER :: int where "MAX_SAFE_INTEGER = 9007199254740991"

section \<open>Helpers\<close>

definition ensureRecord :: "jsval \<Rightarrow> string \<Rightarrow> (string, jsval) result" where
  "ensureRecord v msg = (if isRecord v then ok v else err msg)"

definition limit :: "'a option \<Rightarrow> 'a \<Rightarrow> 'a" where
  "limit x d = (case x of None \<Rightarrow> d | Some y \<Rightarrow> y)"

fun string_of :: "jsval \<Rightarrow> string option" where
  "string_of (JStr s) = Some s"
| "string_of _ = None"

fun bool_of :: "jsval \<Rightarrow> bool option" where
  "bool_of (JBool b) = Some b"
| "bool_of _ = None"

text \<open>\<open>typeof value === 'number' && Number.isInteger(value)\<close>\<close>

fun int_of :: "jsval \<Rightarrow> int option" where
  "int_of (JNum (Num q)) = (if of_int \<lfloor>q\<rfloor> = q then Some \<lfloor>q\<rfloor> else None)"
| "int_of _ = None"

definition validateRequiredString :: "jsval \<Rightarrow> string \<Rightarrow> nat option \<Rightarrow> nat option \<Rightarrow> (string, string) result" where
  "validateRequiredString obj field maxLength minLength =
     (let v = safeGet obj field
      in if nullish v then err (field @ '' is required'')
         else case string_of v of
             None \<Rightarrow> err (field @ '' must be a string'')
           | Some s \<Rightarrow>
               if length s < limit minLength 1 then err (field @ '' must not be empty'')
               else if length s > limit maxLength SFTP_MAX_PATH_LENGTH
               then err (field @ '' exceeds maximum length of '' @ show_nat (limit maxLength SFTP_MAX_PATH_LENGTH))
               else ok s)"

definition validateOptionalString :: "jsval \<Rightarrow> string \<Rightarrow> nat option \<Rightarrow> (string, string option) result" where
  "validateOptionalString obj field maxLength =
     (let v = safeGet obj field
      in if nullish v then ok None
         else case string_of v of
             None \<Rightarrow> err (field @ '' must be a string'')
           | Some s \<Rightarrow>
               if length s > limit maxLength SFTP_MAX_PATH_LENGTH
               then err (field @ '' exceeds maximum length of '' @ show_nat (limit maxLength SFTP_MAX_PATH_LENGTH))
               else ok (Some s))"

definition between :: "string \<Rightarrow> int \<Rightarrow> int \<Rightarrow> string" where
  "between field lo hi = field @ '' must be between '' @ show_int lo @ '' and '' @ show_int hi"

definition validateRequiredInt :: "jsval \<Rightarrow> string \<Rightarrow> int option \<Rightarrow> int option \<Rightarrow> (string, int) result" where
  "validateRequiredInt obj field lo hi =
     (let v = safeGet obj field; mn = limit lo 0; mx = limit hi MAX_SAFE_INTEGER
      in if nullish v then err (field @ '' is required'')
         else case int_of v of
             None \<Rightarrow> err (field @ '' must be an integer'')
           | Some i \<Rightarrow> if i < mn \<or> i > mx then err (between field mn mx) else ok i)"

definition validateOptionalInt :: "jsval \<Rightarrow> string \<Rightarrow> int option \<Rightarrow> int option \<Rightarrow> (string, int option) result" where
  "validateOptionalInt obj field lo hi =
     (let v = safeGet obj field; mn = limit lo 0; mx = limit hi MAX_SAFE_INTEGER
      in if nullish v then ok None
         else case int_of v of
             None \<Rightarrow> err (field @ '' must be an integer'')
           | Some i \<Rightarrow> if i < mn \<or> i > mx then err (between field mn mx) else ok (Some i))"

definition validateOptionalBoolean :: "jsval \<Rightarrow> string \<Rightarrow> (string, bool option) result" where
  "validateOptionalBoolean obj field =
     (let v = safeGet obj field in if nullish v then ok None else ok (bool_of v))"

definition validateRequiredBoolean :: "jsval \<Rightarrow> string \<Rightarrow> (string, bool) result" where
  "validateRequiredBoolean obj field =
     (let v = safeGet obj field
      in if nullish v then err (field @ '' is required'')
         else case bool_of v of None \<Rightarrow> err (field @ '' must be a boolean'') | Some b \<Rightarrow> ok b)"

definition isTransferId :: "jsval \<Rightarrow> bool" where
  "isTransferId v \<longleftrightarrow> (case string_of v of None \<Rightarrow> False | Some s \<Rightarrow> length s > 0)"

definition validateTransferId :: "jsval \<Rightarrow> (string, string) result" where
  "validateTransferId obj =
     (let v = safeGet obj ''transferId''
      in if \<not> isTransferId v then err ''transferId is required and must be a non-empty string''
         else let s = the (string_of v)
              in if length s > 128 then err ''transferId exceeds maximum length'' else ok s)"

section \<open>Validators\<close>

definition validateSftpListRequest :: "jsval \<Rightarrow> (string, sftp_request) result" where
  "validateSftpListRequest data =
     (case ensureRecord data ''List request must be an object'' of Inl e \<Rightarrow> err e | Inr obj \<Rightarrow>
      case validateRequiredString obj ''path'' None None of Inl e \<Rightarrow> err e | Inr path \<Rightarrow>
      case validateOptionalBoolean obj ''showHidden'' of Inl e \<Rightarrow> err e | Inr showHidden \<Rightarrow>
      ok (ListRequest path showHidden))"

definition validateSftpStatRequest :: "jsval \<Rightarrow> (string, sftp_request) result" where
  "validateSftpStatRequest data =
     (case ensureRecord data ''Stat request must be an object'' of Inl e \<Rightarrow> err e | Inr obj \<Rightarrow>
      case validateRequiredString obj ''path'' None None of Inl e \<Rightarrow> err e | Inr path \<Rightarrow>
      ok (StatRequest path))"

definition validateSftpMkdirRequest :: "jsval \<Rightarrow> (string, sftp_request) result" where
  "validateSftpMkdirRequest data =
     (case ensureRecord data ''Mkdir request must be an object'' of Inl e \<Rightarrow> err e | Inr obj \<Rightarrow>
      case validateRequiredString obj ''path'' None None of Inl e \<Rightarrow> err e | Inr path \<Rightarrow>
      case validateOptionalInt obj ''mode'' (Some 0) (Some 511) of Inl e \<Rightarrow> err e | Inr mode \<Rightarrow>
      ok (MkdirRequest path mode))"

definition validateSftpDeleteRequest :: "jsval \<Rightarrow> (string, sftp_request) result" where
  "validateSftpDeleteRequest data =
     (case ensureRecord data ''Delete request must be an object'' of Inl e \<Rightarrow> err e | Inr obj \<Rightarrow>
      case validateRequiredString obj ''path'' None None of Inl e \<Rightarrow> err e | Inr path \<Rightarrow>
      case validateOptionalBoolean obj ''recursive'' of Inl e \<Rightarrow> err e | Inr recursive \<Rightarrow>
      ok (DeleteRequest path recursive))"

definition validateSftpUploadStartRequest :: "jsval \<Rightarrow> int option \<Rightarrow> (string, sftp_request) result" where
  "validateSftpUploadStartRequest data maxFileSize =
     (case ensureRecord data ''Upload start request must be an object'' of Inl e \<Rightarrow> err e | Inr obj \<Rightarrow>
      case validateRequiredString obj ''remotePath'' None None of Inl e \<Rightarrow> err e | Inr remotePath \<Rightarrow>
      case validateRequiredString obj ''fileName'' (Some 255) None of Inl e \<Rightarrow> err e | Inr fileName \<Rightarrow>
      case validateRequiredInt obj ''fileSize'' (Some 0) (Some (limit maxFileSize SFTP_MAX_FILE_SIZE)) of
        Inl e \<Rightarrow> err e | Inr fileSize \<Rightarrow>
      case validateOptionalString obj ''mimeType'' (Some 128) of Inl e \<Rightarrow> err e | Inr mimeType \<Rightarrow>
      case validateOptionalBoolean obj ''overwrite'' of Inl e \<Rightarrow> err e | Inr overwrite \<Rightarrow>
      ok (UploadStart remotePath fileName fileSize mimeType overwrite))"

definition maxDataLength :: nat where
  "maxDataLength = nat \<lceil>of_nat SFTP_CHUNK_SIZE * (134 / 100 :: rat)\<rceil> + 100"

definition validateSftpUploadChunkRequest :: "jsval \<Rightarrow> (string, sftp_request) result" where
  "validateSftpUploadChunkRequest data =
     (case ensureRecord data ''Upload chunk request must be an object'' of Inl e \<Rightarrow> err e | Inr obj \<Rightarrow>
      case validateTransferId obj of Inl e \<Rightarrow> err e | Inr transferId \<Rightarrow>
      case validateRequiredInt obj ''chunkIndex'' (Some 0) (Some 1000000) of Inl e \<Rightarrow> err e | Inr chunkIndex \<Rightarrow>
      case validateRequiredString obj ''data'' (Some maxDataLength) (Some 0) of Inl e \<Rightarrow> err e | Inr dat \<Rightarrow>
      case validateRequiredBoolean obj ''isLast'' of Inl e \<Rightarrow> err e | Inr isLast \<Rightarrow>
      ok (UploadChunk transferId chunkIndex dat isLast))"

definition validateSftpUploadCancelRequest :: "jsval \<Rightarrow> (string, sftp_request) result" where
  "validateSftpUploadCancelRequest data =
     (case ensureRecord data ''Upload cancel request must be an object'' of Inl e \<Rightarrow> err e | Inr obj \<Rightarrow>
      case validateTransferId obj of Inl e \<Rightarrow> err e | Inr transferId \<Rightarrow> ok (UploadCancel transferId))"

definition validateSftpDownloadStartRequest :: "jsval \<Rightarrow> (string, sftp_request) result" where
  "validateSftpDownloadStartRequest data =
     (case ensureRecord data ''Download start request must be an object'' of Inl e \<Rightarrow> err e | Inr obj \<Rightarrow>
      case validateRequiredString obj ''remotePath'' None None of Inl e \<Rightarrow> err e | Inr remotePath \<Rightarrow>
      ok (DownloadStart remotePath))"

definition validateSftpDownloadCancelRequest :: "jsval \<Rightarrow> (string, sftp_request) result" where
  "validateSftpDownloadCancelRequest data =
     (case ensureRecord data ''Download cancel request must be an object'' of Inl e \<Rightarrow> err e | Inr obj \<Rightarrow>
      case validateTransferId obj of Inl e \<Rightarrow> err e | Inr transferId \<Rightarrow> ok (DownloadCancel transferId))"

text \<open>The events of the socket, \<open>SFTP_EVENTS\<close> of \<open>app/constants/sftp.ts\<close>, and the validator that
  the adapter calls for each.\<close>

datatype sftp_event = EvList | EvStat | EvMkdir | EvDelete | EvUploadStart | EvUploadChunk
  | EvUploadCancel | EvDownloadStart | EvDownloadCancel

fun validate_event :: "int option \<Rightarrow> sftp_event \<Rightarrow> jsval \<Rightarrow> (string, sftp_request) result" where
  "validate_event mx EvList d = validateSftpListRequest d"
| "validate_event mx EvStat d = validateSftpStatRequest d"
| "validate_event mx EvMkdir d = validateSftpMkdirRequest d"
| "validate_event mx EvDelete d = validateSftpDeleteRequest d"
| "validate_event mx EvUploadStart d = validateSftpUploadStartRequest d mx"
| "validate_event mx EvUploadChunk d = validateSftpUploadChunkRequest d"
| "validate_event mx EvUploadCancel d = validateSftpUploadCancelRequest d"
| "validate_event mx EvDownloadStart d = validateSftpDownloadStartRequest d"
| "validate_event mx EvDownloadCancel d = validateSftpDownloadCancelRequest d"

section \<open>Specification\<close>

definition path_ok :: "string \<Rightarrow> bool" where
  "path_ok p \<longleftrightarrow> 1 \<le> length p \<and> length p \<le> SFTP_MAX_PATH_LENGTH"

definition id_ok :: "string \<Rightarrow> bool" where
  "id_ok i \<longleftrightarrow> 1 \<le> length i \<and> length i \<le> 128"

fun wf_request :: "int option \<Rightarrow> sftp_request \<Rightarrow> bool" where
  "wf_request mx (ListRequest p h) = path_ok p"
| "wf_request mx (StatRequest p) = path_ok p"
| "wf_request mx (MkdirRequest p m) = (path_ok p \<and> (\<forall>i. m = Some i \<longrightarrow> 0 \<le> i \<and> i \<le> 511))"
| "wf_request mx (DeleteRequest p r) = path_ok p"
| "wf_request mx (UploadStart p f n t w) =
     (path_ok p \<and> 1 \<le> length f \<and> length f \<le> 255 \<and> 0 \<le> n \<and> n \<le> limit mx SFTP_MAX_FILE_SIZE
      \<and> (\<forall>s. t = Some s \<longrightarrow> length s \<le> 128))"
| "wf_request mx (UploadChunk i k d l) = (id_ok i \<and> 0 \<le> k \<and> k \<le> 1000000 \<and> length d \<le> maxDataLength)"
| "wf_request mx (UploadCancel i) = id_ok i"
| "wf_request mx (DownloadStart p) = path_ok p"
| "wf_request mx (DownloadCancel i) = id_ok i"

fun event_of :: "sftp_request \<Rightarrow> sftp_event" where
  "event_of (ListRequest p h) = EvList"
| "event_of (StatRequest p) = EvStat"
| "event_of (MkdirRequest p m) = EvMkdir"
| "event_of (DeleteRequest p r) = EvDelete"
| "event_of (UploadStart p f n t w) = EvUploadStart"
| "event_of (UploadChunk i k d l) = EvUploadChunk"
| "event_of (UploadCancel i) = EvUploadCancel"
| "event_of (DownloadStart p) = EvDownloadStart"
| "event_of (DownloadCancel i) = EvDownloadCancel"

text \<open>What a message says: it is an object, the required properties are those of the request, an optional
  text or number is missing or the one of the request, and a flag that is no boolean counts as missing.\<close>

definition says_optional :: "('a \<Rightarrow> jsval) \<Rightarrow> jsval \<Rightarrow> 'a option \<Rightarrow> bool" where
  "says_optional f v x \<longleftrightarrow> (case x of None \<Rightarrow> v = JUndefined \<or> v = JNull | Some y \<Rightarrow> v = f y)"

definition says_flag :: "jsval \<Rightarrow> bool option \<Rightarrow> bool" where
  "says_flag v x \<longleftrightarrow> (case x of None \<Rightarrow> v \<noteq> JBool True \<and> v \<noteq> JBool False | Some b \<Rightarrow> v = JBool b)"

fun says :: "jsval \<Rightarrow> sftp_request \<Rightarrow> bool" where
  "says d (ListRequest p h) \<longleftrightarrow> isRecord d \<and> safeGet d ''path'' = JStr p \<and> says_flag (safeGet d ''showHidden'') h"
| "says d (StatRequest p) \<longleftrightarrow> isRecord d \<and> safeGet d ''path'' = JStr p"
| "says d (MkdirRequest p m) \<longleftrightarrow> isRecord d \<and> safeGet d ''path'' = JStr p
     \<and> says_optional (\<lambda>i. JNum (Num (of_int i))) (safeGet d ''mode'') m"
| "says d (DeleteRequest p r) \<longleftrightarrow> isRecord d \<and> safeGet d ''path'' = JStr p \<and> says_flag (safeGet d ''recursive'') r"
| "says d (UploadStart p f n t w) \<longleftrightarrow> isRecord d \<and> safeGet d ''remotePath'' = JStr p \<and> safeGet d ''fileName'' = JStr f
     \<and> safeGet d ''fileSize'' = JNum (Num (of_int n)) \<and> says_optional JStr (safeGet d ''mimeType'') t
     \<and> says_flag (safeGet d ''overwrite'') w"
| "says d (UploadChunk i k x l) \<longleftrightarrow> isRecord d \<and> safeGet d ''transferId'' = JStr i
     \<and> safeGet d ''chunkIndex'' = JNum (Num (of_int k)) \<and> safeGet d ''data'' = JStr x \<and> safeGet d ''isLast'' = JBool l"
| "says d (UploadCancel i) \<longleftrightarrow> isRecord d \<and> safeGet d ''transferId'' = JStr i"
| "says d (DownloadStart p) \<longleftrightarrow> isRecord d \<and> safeGet d ''remotePath'' = JStr p"
| "says d (DownloadCancel i) \<longleftrightarrow> isRecord d \<and> safeGet d ''transferId'' = JStr i"

text \<open>The message a client sends for a request: an optional property may be left out.\<close>

definition opt :: "string \<Rightarrow> ('a \<Rightarrow> jsval) \<Rightarrow> 'a option \<Rightarrow> (string \<times> jsval) list" where
  "opt k f x = (case x of None \<Rightarrow> [] | Some y \<Rightarrow> [(k, f y)])"

abbreviation j_int :: "int \<Rightarrow> jsval" where "j_int i \<equiv> JNum (Num (of_int i))"

fun encode :: "sftp_request \<Rightarrow> jsval" where
  "encode (ListRequest p h) = JObj ((''path'', JStr p) # opt ''showHidden'' JBool h)"
| "encode (StatRequest p) = JObj [(''path'', JStr p)]"
| "encode (MkdirRequest p m) = JObj ((''path'', JStr p) # opt ''mode'' j_int m)"
| "encode (DeleteRequest p r) = JObj ((''path'', JStr p) # opt ''recursive'' JBool r)"
| "encode (UploadStart p f n t w) = JObj ([(''remotePath'', JStr p), (''fileName'', JStr f), (''fileSize'', j_int n)]
     @ opt ''mimeType'' JStr t @ opt ''overwrite'' JBool w)"
| "encode (UploadChunk i k d l) = JObj [(''transferId'', JStr i), (''chunkIndex'', j_int k), (''data'', JStr d), (''isLast'', JBool l)]"
| "encode (UploadCancel i) = JObj [(''transferId'', JStr i)]"
| "encode (DownloadStart p) = JObj [(''remotePath'', JStr p)]"
| "encode (DownloadCancel i) = JObj [(''transferId'', JStr i)]"

section \<open>Successful results of the helpers\<close>

lemma string_of_Some [ok_simps]: "string_of v = Some s \<longleftrightarrow> v = JStr s"
  by (cases v) auto

lemma int_of_Some [ok_simps]: "int_of v = Some i \<longleftrightarrow> v = j_int i"
  by (cases v rule: int_of.cases) auto

lemma bool_of_Some [ok_simps]: "bool_of v = Some b \<longleftrightarrow> v = JBool b"
  by (cases v) auto

lemma nullish_simps [simp]: "\<not> nullish (JStr s)" "\<not> nullish (JNum n)" "\<not> nullish (JBool b)" "nullish JUndefined"
  by (auto simp: nullish_def)

lemma ensureRecord_ok [ok_simps]: "ensureRecord v m = ok w \<longleftrightarrow> isRecord v \<and> w = v"
  by (auto simp: ensureRecord_def)

lemma requiredString_ok [ok_simps]: "validateRequiredString obj f mx mn = ok s \<longleftrightarrow>
    safeGet obj f = JStr s \<and> limit mn 1 \<le> length s \<and> length s \<le> limit mx SFTP_MAX_PATH_LENGTH"
  by (cases "safeGet obj f") (auto simp: validateRequiredString_def Let_def nullish_def)

lemma optionalString_ok [ok_simps]: "validateOptionalString obj f mx = ok s \<longleftrightarrow>
    (nullish (safeGet obj f) \<and> s = None
     \<or> (\<exists>t. safeGet obj f = JStr t \<and> s = Some t \<and> length t \<le> limit mx SFTP_MAX_PATH_LENGTH))"
  by (cases "safeGet obj f") (auto simp: validateOptionalString_def Let_def nullish_def)

lemma requiredInt_ok [ok_simps]: "validateRequiredInt obj f lo hi = ok i \<longleftrightarrow>
    safeGet obj f = j_int i \<and> limit lo 0 \<le> i \<and> i \<le> limit hi MAX_SAFE_INTEGER"
  by (auto simp: validateRequiredInt_def Let_def nullish_def int_of_Some split: option.split if_splits)

lemma optionalInt_ok [ok_simps]: "validateOptionalInt obj f lo hi = ok x \<longleftrightarrow>
    (nullish (safeGet obj f) \<and> x = None
     \<or> (\<exists>i. safeGet obj f = j_int i \<and> x = Some i \<and> limit lo 0 \<le> i \<and> i \<le> limit hi MAX_SAFE_INTEGER))"
  by (auto simp: validateOptionalInt_def Let_def nullish_def int_of_Some split: option.split if_splits)

lemma optionalBoolean_ok [ok_simps]: "validateOptionalBoolean obj f = ok x \<longleftrightarrow> x = bool_of (safeGet obj f)"
  by (cases "safeGet obj f") (auto simp: validateOptionalBoolean_def Let_def nullish_def)

lemma requiredBoolean_ok [ok_simps]: "validateRequiredBoolean obj f = ok b \<longleftrightarrow> safeGet obj f = JBool b"
  by (cases "safeGet obj f") (auto simp: validateRequiredBoolean_def Let_def nullish_def)

lemma transferId_ok [ok_simps]: "validateTransferId obj = ok s \<longleftrightarrow> safeGet obj ''transferId'' = JStr s \<and> id_ok s"
  by (cases "safeGet obj ''transferId''") (auto simp: validateTransferId_def isTransferId_def id_ok_def Suc_le_eq)

lemmas sftp_validators = validateSftpListRequest_def validateSftpStatRequest_def validateSftpMkdirRequest_def
  validateSftpDeleteRequest_def validateSftpUploadStartRequest_def validateSftpUploadChunkRequest_def
  validateSftpUploadCancelRequest_def validateSftpDownloadStartRequest_def validateSftpDownloadCancelRequest_def

lemma sftp_request_event: "validate_event mx ev d = ok r \<Longrightarrow> event_of r = ev"
  by (cases ev) (auto simp: sftp_validators ok_simps)

lemma says_flag_iff: "says_flag v x \<longleftrightarrow> x = bool_of v"
  by (cases v; cases x) (auto simp: says_flag_def)

lemma says_optional_iff:
  "says_optional f v x \<longleftrightarrow> nullish v \<and> x = None \<or> (\<exists>y. v = f y \<and> x = Some y)"
  by (cases x) (auto simp: says_optional_def nullish_def)

section \<open>Property\<close>

text \<open>C40: The SFTP validators accept exactly the messages that say a well-formed request: a validator returns a
  request if and only if this is a request of its event whose bounds hold, the message is an object, and each
  property of the request is read from the message; a required property is there with its type, an optional text or
  number may be missing, and a flag that is missing or no boolean counts as not given.  In particular every
  well-formed request, written as a message, is accepted and read back unchanged.\<close>

theorem sftp_requests_typed:
  "(validate_event mx ev d = ok r \<longleftrightarrow> event_of r = ev \<and> wf_request mx r \<and> says d r)
   \<and> (wf_request mx q \<longrightarrow> validate_event mx (event_of q) (encode q) = ok q)"
proof (intro conjI impI)
  show "validate_event mx ev d = ok r \<longleftrightarrow> event_of r = ev \<and> wf_request mx r \<and> says d r"
    by (cases ev; cases r)
      (auto simp: sftp_validators ok_simps path_ok_def limit_def says_flag_iff says_optional_iff)
next
  assume "wf_request mx q"
  then show "validate_event mx (event_of q) (encode q) = ok q"
    by (cases q) (auto simp: sftp_validators ok_simps path_ok_def limit_def isRecord_def safeGet_def opt_def
        split: option.splits)
qed

theorem sftp_requests_typed_witness:
  "validate_event None EvMkdir (JObj [(''path'', JStr ''/srv''), (''mode'', j_int 493)])
     = ok (MkdirRequest ''/srv'' (Some 493)) \<and> wf_request None (MkdirRequest ''/srv'' (Some 493))"
proof -
  have wf: "wf_request None (MkdirRequest ''/srv'' (Some 493))" by (simp add: path_ok_def SFTP_MAX_PATH_LENGTH_def)
  then show ?thesis
    using sftp_requests_typed [of None EvMkdir _ _ "MkdirRequest ''/srv'' (Some 493)"] by (simp add: opt_def)
qed

section \<open>Corners\<close>

text \<open>An optional flag of another type is dropped without an error.\<close>

lemma wrong_flag_dropped:
  "validateSftpDeleteRequest (JObj [(''path'', JStr ''/srv''), (''recursive'', JStr ''true'')])
     = ok (DeleteRequest ''/srv'' None)"
  by (simp add: validateSftpDeleteRequest_def ensureRecord_def isRecord_def validateRequiredString_def
      validateOptionalBoolean_def safeGet_def limit_def SFTP_MAX_PATH_LENGTH_def)

text \<open>The bound on the data of a chunk is computed from the default chunk size, whatever size the
  server is configured with and announces to the client: the base64 text of one chunk of 64 KiB is
  refused.\<close>

definition base64_length :: "nat \<Rightarrow> nat" where
  "base64_length n = 4 * ((n + 2) div 3)"

lemma larger_chunks_refused:
  assumes "length d = base64_length 65536"
  shows "validateSftpUploadChunkRequest (encode (UploadChunk i k d l)) \<noteq> ok r"
proof -
  have "\<lceil>1097728 / 25 :: rat\<rceil> = 43910" by (rule ceiling_unique) simp_all
  then have "maxDataLength = 44010" by (simp add: maxDataLength_def SFTP_CHUNK_SIZE_def)
  then have "maxDataLength < length d" unfolding assms by (simp add: base64_length_def)
  then show ?thesis by (auto simp: sftp_validators ok_simps limit_def safeGet_def)
qed

end
