(* ===== verification/Sftp_Adapter.thy ===== *)
theory Sftp_Adapter
  imports Upload_Assembly Sftp_Messages
begin

text \<open>
  The SFTP messages of one socket, \<open>app/socket/adapters/service-socket-sftp.ts\<close>: each handler checks
  that file transfer is enabled, validates the message, looks up the connection and the session of
  the socket, calls the file service and emits its answer.  The service is shared by all sockets and
  is passed through; logging is left out.  Where the service leaves its promise pending, the rest of
  the handler is a function of what it settles with.
\<close>

section \<open>State and outputs\<close>

record socket_ids =
  skConnectionId :: "string option"
  skSessionId :: "string option"

record sftp_socket_error =
  ssOperation :: string
  ssCode :: sftp_error_code
  ssMessage :: string
  ssPath :: "string option"
  ssTransferId :: "string option"
  ssFileName :: "string option"

datatype sftp_output = EmReply service_reply | EmError sftp_socket_error
  | StartStream string string string int | DestroyController string

text \<open>The service of the server, if there is one, and the transfers with a back-pressure
  controller.\<close>

record sftp_adapter =
  saService :: "file_service option"
  saControllers :: "string list"

type_synonym adapter_result = "sftp_adapter \<times> remote_call list \<times> sftp_output list"

section \<open>Helpers\<close>

abbreviation em_error :: "string \<Rightarrow> sftp_error_code \<Rightarrow> string \<Rightarrow> string option \<Rightarrow> sftp_output" where
  "em_error oper c m tid \<equiv> EmError \<lparr>ssOperation = oper, ssCode = c, ssMessage = m, ssPath = None,
     ssTransferId = tid, ssFileName = None\<rparr>"

definition emitValidationError :: "string \<Rightarrow> string \<Rightarrow> sftp_output" where
  "emitValidationError oper m = em_error oper SFTP_INVALID_REQUEST m None"

definition emitNoConnectionError :: "string \<Rightarrow> string option \<Rightarrow> sftp_output" where
  "emitNoConnectionError oper tid = em_error oper SFTP_NO_CONNECTION ''No SSH connection established'' tid"

definition emitNotEnabledError :: "string \<Rightarrow> string option \<Rightarrow> sftp_output" where
  "emitNotEnabledError oper tid = em_error oper SFTP_NOT_ENABLED ''SFTP is not enabled'' tid"

definition emitSftpError :: "string \<Rightarrow> service_error \<Rightarrow> sftp_output" where
  "emitSftpError oper e = EmError \<lparr>ssOperation = oper, ssCode = seCode e, ssMessage = seMessage e, ssPath = sePath e,
     ssTransferId = seTransferId e, ssFileName = seFileName e\<rparr>"

definition ensureSftpEnabled :: "sftp_adapter \<Rightarrow> bool" where
  "ensureSftpEnabled ad =
     (case saService ad of None \<Rightarrow> False | Some s \<Rightarrow> scEnabled (svConfig s))"

definition getConnectionAndSessionIds :: "socket_ids \<Rightarrow> (string \<times> string) option" where
  "getConnectionAndSessionIds k =
     (case (skConnectionId k, skSessionId k) of (Some c, Some s) \<Rightarrow> Some (c, s) | _ \<Rightarrow> None)"

definition answer_with :: "string \<Rightarrow> (service_error, service_reply) result \<Rightarrow> sftp_output list" where
  "answer_with oper r = [case r of Inl e \<Rightarrow> emitSftpError oper e | Inr v \<Rightarrow> EmReply v]"

text \<open>The checks every request handler starts with.\<close>

definition guarded :: "string \<Rightarrow> (string, sftp_request) result \<Rightarrow> socket_ids \<Rightarrow> sftp_adapter \<Rightarrow>
    (sftp_request \<Rightarrow> string \<Rightarrow> string \<Rightarrow> file_service \<Rightarrow> adapter_result) \<Rightarrow> adapter_result" where
  "guarded oper validation k ad run =
     (if \<not> ensureSftpEnabled ad then (ad, [], [emitNotEnabledError ''list'' None])
      else case validation of
          Inl m \<Rightarrow> (ad, [], [emitValidationError oper m])
        | Inr request \<Rightarrow>
            (case getConnectionAndSessionIds k of
               None \<Rightarrow> (ad, [], [emitNoConnectionError oper None])
             | Some (cid, sid) \<Rightarrow>
                 (case saService ad of
                    None \<Rightarrow> (ad, [], [emitNotEnabledError oper None])
                  | Some s \<Rightarrow> run request cid sid s)))"

definition serve :: "sftp_adapter \<Rightarrow> string \<Rightarrow> file_service \<times> remote_call list \<times> (service_error, service_reply) result \<Rightarrow>
    adapter_result" where
  "serve ad oper r = (case r of (s, calls, res) \<Rightarrow> (ad\<lparr>saService := Some s\<rparr>, calls, answer_with oper res))"

definition or_false :: "bool option \<Rightarrow> bool" where
  "or_false b = (case b of None \<Rightarrow> False | Some x \<Rightarrow> x)"

section \<open>Handlers\<close>

definition handleList :: "(int \<Rightarrow> string) \<Rightarrow> jsval \<Rightarrow> op_answers \<Rightarrow> socket_ids \<Rightarrow> sftp_adapter \<Rightarrow> adapter_result" where
  "handleList isoDate data a k ad =
     guarded ''list'' (validateSftpListRequest data) k ad (\<lambda>request cid sid s.
       case request of
         ListRequest path showHidden \<Rightarrow>
           serve ad ''list'' (sv_listDirectory isoDate cid sid path (or_false showHidden) a s)
       | _ \<Rightarrow> (ad, [], []))"

definition handleStat :: "(int \<Rightarrow> string) \<Rightarrow> jsval \<Rightarrow> op_answers \<Rightarrow> socket_ids \<Rightarrow> sftp_adapter \<Rightarrow> adapter_result" where
  "handleStat isoDate data a k ad =
     guarded ''stat'' (validateSftpStatRequest data) k ad (\<lambda>request cid sid s.
       case request of
         StatRequest path \<Rightarrow> serve ad ''stat'' (sv_stat isoDate cid sid path a s)
       | _ \<Rightarrow> (ad, [], []))"

definition handleMkdir :: "jsval \<Rightarrow> op_answers \<Rightarrow> socket_ids \<Rightarrow> sftp_adapter \<Rightarrow> adapter_result" where
  "handleMkdir data a k ad =
     guarded ''mkdir'' (validateSftpMkdirRequest data) k ad (\<lambda>request cid sid s.
       case request of
         MkdirRequest path mode \<Rightarrow> serve ad ''mkdir'' (sv_mkdir cid sid path mode a s)
       | _ \<Rightarrow> (ad, [], []))"

definition handleDelete :: "(int \<Rightarrow> string) \<Rightarrow> jsval \<Rightarrow> op_answers \<Rightarrow> socket_ids \<Rightarrow> sftp_adapter \<Rightarrow> adapter_result" where
  "handleDelete isoDate data a k ad =
     guarded ''delete'' (validateSftpDeleteRequest data) k ad (\<lambda>request cid sid s.
       case request of
         DeleteRequest path recursive \<Rightarrow>
           serve ad ''delete'' (sv_delete isoDate cid sid path (or_false recursive) a s)
       | _ \<Rightarrow> (ad, [], []))"

text \<open>\<open>fresh\<close> is the identifier the server draws; the answer to a start that is pending is emitted
  by \<open>upload_start_settled\<close>.\<close>

definition handleUploadStart :: "(int \<Rightarrow> string) \<Rightarrow> string \<Rightarrow> jsval \<Rightarrow> op_answers \<Rightarrow> int \<Rightarrow> socket_ids \<Rightarrow> sftp_adapter \<Rightarrow>
    adapter_result" where
  "handleUploadStart isoDate fresh data a now k ad =
     guarded ''upload''
       (validateSftpUploadStartRequest data (map_option (\<lambda>s. scMaxFileSize (svConfig s)) (saService ad))) k ad
       (\<lambda>request cid sid s.
         case request of
           UploadStart remotePath fileName fileSize mimeType overwrite \<Rightarrow>
             (case sv_startUpload isoDate \<lparr>usTransferId = fresh, usSessionId = sid, usConnectionId = cid,
                     usRemotePath = remotePath, usFileName = fileName, usFileSize = fileSize,
                     usOverwrite = overwrite\<rparr> a now s of
                (s1, calls, Inl e) \<Rightarrow> (ad\<lparr>saService := Some s1\<rparr>, calls, [emitSftpError ''upload'' e])
              | (s1, calls, Inr _) \<Rightarrow> (ad\<lparr>saService := Some s1\<rparr>, calls, []))
         | _ \<Rightarrow> (ad, [], []))"

definition upload_start_settled :: "(service_error, service_reply) result \<Rightarrow> sftp_output list" where
  "upload_start_settled r = answer_with ''upload'' r"

definition hidden_transfer :: "string \<Rightarrow> service_error" where
  "hidden_transfer tid = service_err SFTP_NOT_FOUND ''Transfer not found'' None (Some tid)"

text \<open>The decoding of base64 text is a parameter.\<close>

definition handleUploadChunk :: "(string \<Rightarrow> bytes) \<Rightarrow> jsval \<Rightarrow> int \<Rightarrow> socket_ids \<Rightarrow> sftp_adapter \<Rightarrow> adapter_result" where
  "handleUploadChunk base64 data now k ad =
     (case validateSftpUploadChunkRequest data of
        Inr (UploadChunk tid index dat isLast) \<Rightarrow>
          (case saService ad of
             None \<Rightarrow> (ad, [], [emitNotEnabledError ''upload'' (Some tid)])
           | Some s \<Rightarrow>
               (case getConnectionAndSessionIds k of
                  None \<Rightarrow> (ad, [], [emitNoConnectionError ''upload'' (Some tid)])
                | Some (cid, sid) \<Rightarrow>
                    if isl (verifyTransferOwnership tid sid s)
                    then (ad, [], [emitSftpError ''upload'' (hidden_transfer tid)])
                    else
                      (case sv_processUploadChunk \<lparr>ucTransferId = tid, ucIndex = index, ucData = base64 dat,
                              ucIsLast = isLast\<rparr> now s of
                         (s1, calls, Inl e) \<Rightarrow> (ad\<lparr>saService := Some s1\<rparr>, calls, [emitSftpError ''upload'' e])
                       | (s1, calls, Inr _) \<Rightarrow> (ad\<lparr>saService := Some s1\<rparr>, calls, []))))
      | Inl m \<Rightarrow> (ad, [], [emitValidationError ''upload'' m])
      | _ \<Rightarrow> (ad, [], []))"

definition upload_chunk_settled :: "string \<Rightarrow> bool \<Rightarrow> (service_error, service_reply) result \<Rightarrow> int \<Rightarrow> sftp_adapter \<Rightarrow>
    adapter_result" where
  "upload_chunk_settled tid isLast r now ad =
     (case r of
        Inl e \<Rightarrow> (ad, [], [emitSftpError ''upload'' e])
      | Inr ack \<Rightarrow>
          (case saService ad of
             Some s \<Rightarrow>
               if isLast
               then (case sv_completeUpload tid now s of
                       (s1, calls, Inl e) \<Rightarrow> (ad\<lparr>saService := Some s1\<rparr>, calls, [EmReply ack])
                     | (s1, calls, Inr c) \<Rightarrow> (ad\<lparr>saService := Some s1\<rparr>, calls, [EmReply ack, EmReply c]))
               else (ad, [], [EmReply ack])
           | None \<Rightarrow> (ad, [], [EmReply ack])))"

definition handleUploadCancel :: "jsval \<Rightarrow> socket_ids \<Rightarrow> sftp_adapter \<Rightarrow> adapter_result" where
  "handleUploadCancel data k ad =
     (case validateSftpUploadCancelRequest data of
        Inr (UploadCancel tid) \<Rightarrow>
          (case (saService ad, getConnectionAndSessionIds k) of
             (Some s, Some (cid, sid)) \<Rightarrow>
               if isl (verifyTransferOwnership tid sid s) then (ad, [], [])
               else (let (s1, calls) = sv_cancelUpload tid s in (ad\<lparr>saService := Some s1\<rparr>, calls, []))
           | _ \<Rightarrow> (ad, [], []))
      | Inl m \<Rightarrow> (ad, [], [emitValidationError ''upload'' m])
      | _ \<Rightarrow> (ad, [], []))"

definition handleDownloadStart :: "(int \<Rightarrow> string) \<Rightarrow> string \<Rightarrow> jsval \<Rightarrow> op_answers \<Rightarrow> int \<Rightarrow> socket_ids \<Rightarrow> sftp_adapter \<Rightarrow>
    adapter_result" where
  "handleDownloadStart isoDate fresh data a now k ad =
     guarded ''download'' (validateSftpDownloadStartRequest data) k ad (\<lambda>request cid sid s.
       case request of
         DownloadStart remotePath \<Rightarrow>
           (case sv_startDownload isoDate \<lparr>dsTransferId = fresh, dsSessionId = sid, dsConnectionId = cid,
                   dsRemotePath = remotePath\<rparr> a now s of
              (s1, calls, Inl e) \<Rightarrow> (ad\<lparr>saService := Some s1\<rparr>, calls, [emitSftpError ''download'' e])
            | (s1, calls, Inr reply) \<Rightarrow>
                (ad\<lparr>saService := Some s1, saControllers := set_add fresh (saControllers ad)\<rparr>, calls,
                 [EmReply reply,
                  StartStream cid fresh remotePath
                    (case reply of RpDownloadReady r \<Rightarrow> drFileSize r | _ \<Rightarrow> 0)]))
       | _ \<Rightarrow> (ad, [], []))"

text \<open>The callbacks of the stream that end it.\<close>

definition drop_controller :: "string \<Rightarrow> sftp_adapter \<Rightarrow> sftp_adapter" where
  "drop_controller tid ad = ad\<lparr>saControllers := set_del tid (saControllers ad)\<rparr>"

definition download_complete :: "string \<Rightarrow> transfer_completion \<Rightarrow> sftp_adapter \<Rightarrow> sftp_adapter \<times> sftp_output list" where
  "download_complete tid c ad = (drop_controller tid ad, [DestroyController tid, EmReply (RpComplete c)])"

definition download_error :: "string \<Rightarrow> service_error \<Rightarrow> sftp_adapter \<Rightarrow> sftp_adapter \<times> sftp_output list" where
  "download_error tid e ad = (drop_controller tid ad, [DestroyController tid, emitSftpError ''download'' e])"

text \<open>\<open>cancelDownload\<close> of the service drops the transfer; the stream it stops, or fails to stop, is
  in \<open>Download_Stream\<close>.\<close>

definition sv_cancelDownload :: "string \<Rightarrow> file_service \<Rightarrow> file_service" where
  "sv_cancelDownload tid s = s\<lparr>svTransfers := fst (cancelTransfer tid (svTransfers s))\<rparr>"

definition handleDownloadCancel :: "jsval \<Rightarrow> socket_ids \<Rightarrow> sftp_adapter \<Rightarrow> adapter_result" where
  "handleDownloadCancel data k ad =
     (case validateSftpDownloadCancelRequest data of
        Inr (DownloadCancel tid) \<Rightarrow>
          (case (saService ad, getConnectionAndSessionIds k) of
             (Some s, Some (cid, sid)) \<Rightarrow>
               if isl (verifyTransferOwnership tid sid s) then (ad, [], [])
               else ((drop_controller tid ad)\<lparr>saService := Some (sv_cancelDownload tid s)\<rparr>, [],
                     if tid \<in> set (saControllers ad) then [DestroyController tid] else [])
           | _ \<Rightarrow> (ad, [], []))
      | Inl m \<Rightarrow> (ad, [], [emitValidationError ''download'' m])
      | _ \<Rightarrow> (ad, [], []))"

definition sftp_handleDisconnect :: "socket_ids \<Rightarrow> sftp_adapter \<Rightarrow> sftp_adapter" where
  "sftp_handleDisconnect k ad =
     (case (saService ad, getConnectionAndSessionIds k) of
        (Some s, Some (cid, sid)) \<Rightarrow>
          ad\<lparr>saService := Some (sv_cancelSessionTransfers sid (sv_closeSession cid s))\<rparr>
      | _ \<Rightarrow> ad)"

section \<open>Lemmas\<close>

fun emission :: "sftp_output \<Rightarrow> bool" where
  "emission (EmReply r) = True"
| "emission (EmError e) = True"
| "emission _ = False"

fun is_error :: "sftp_output \<Rightarrow> bool" where
  "is_error (EmError e) = True"
| "is_error _ = False"

lemma serve_one:
  "serve ad oper r = (ad', calls, out) \<Longrightarrow> \<exists>x. out = [x] \<and> emission x"
  by (auto simp: serve_def answer_with_def emitSftpError_def split: prod.splits sum.splits)

text \<open>All events of the socket in one function.\<close>

fun handle_event :: "(int \<Rightarrow> string) \<Rightarrow> (string \<Rightarrow> bytes) \<Rightarrow> string \<Rightarrow> sftp_event \<Rightarrow> jsval \<Rightarrow> op_answers \<Rightarrow> int \<Rightarrow>
    socket_ids \<Rightarrow> sftp_adapter \<Rightarrow> adapter_result" where
  "handle_event isoDate b64 fresh EvList data a now k ad = handleList isoDate data a k ad"
| "handle_event isoDate b64 fresh EvStat data a now k ad = handleStat isoDate data a k ad"
| "handle_event isoDate b64 fresh EvMkdir data a now k ad = handleMkdir data a k ad"
| "handle_event isoDate b64 fresh EvDelete data a now k ad = handleDelete isoDate data a k ad"
| "handle_event isoDate b64 fresh EvUploadStart data a now k ad = handleUploadStart isoDate fresh data a now k ad"
| "handle_event isoDate b64 fresh EvUploadChunk data a now k ad = handleUploadChunk b64 data now k ad"
| "handle_event isoDate b64 fresh EvUploadCancel data a now k ad = handleUploadCancel data k ad"
| "handle_event isoDate b64 fresh EvDownloadStart data a now k ad = handleDownloadStart isoDate fresh data a now k ad"
| "handle_event isoDate b64 fresh EvDownloadCancel data a now k ad = handleDownloadCancel data k ad"

definition size_limit :: "sftp_adapter \<Rightarrow> int option" where
  "size_limit ad = map_option (\<lambda>s. scMaxFileSize (svConfig s)) (saService ad)"

definition guarded_event :: "sftp_event \<Rightarrow> bool" where
  "guarded_event ev \<longleftrightarrow> ev \<notin> {EvUploadChunk, EvUploadCancel, EvDownloadCancel}"

definition cancel_event :: "sftp_event \<Rightarrow> bool" where
  "cancel_event ev \<longleftrightarrow> ev \<in> {EvUploadCancel, EvDownloadCancel}"

text \<open>Why a request is refused before it reaches the service.\<close>

definition refusal :: "sftp_event \<Rightarrow> jsval \<Rightarrow> socket_ids \<Rightarrow> sftp_adapter \<Rightarrow> sftp_error_code option" where
  "refusal ev data k ad =
     (if guarded_event ev \<and> \<not> ensureSftpEnabled ad then Some SFTP_NOT_ENABLED
      else if isl (validate_event (size_limit ad) ev data) then Some SFTP_INVALID_REQUEST
      else if cancel_event ev then None
      else if saService ad = None then Some SFTP_NOT_ENABLED
      else if getConnectionAndSessionIds k = None then Some SFTP_NO_CONNECTION else None)"

text \<open>The answers the service still owes: one for each pending open and write whose timer has not answered.\<close>

definition service_owed :: "file_service \<Rightarrow> nat" where
  "service_owed s = length (filter (\<lambda>(u, p, answered). \<not> answered) (svOpening s))
     + length (filter (\<lambda>(c, n, answered). \<not> answered) (svWriting s))"

definition owed :: "sftp_adapter \<Rightarrow> nat" where
  "owed ad = (case saService ad of None \<Rightarrow> 0 | Some s \<Rightarrow> service_owed s)"

lemma guarded_not_cancel: "guarded_event ev \<Longrightarrow> \<not> cancel_event ev"
  by (auto simp: guarded_event_def cancel_event_def)

lemma guarded_refused:
  assumes "refusal ev data k ad = Some c" and "v = validate_event (size_limit ad) ev data" and "guarded_event ev"
  shows "\<exists>e. guarded oper v k ad run = (ad, [], [EmError e]) \<and> ssCode e = c"
  using assms guarded_not_cancel [OF assms(3)]
  by (auto simp: refusal_def guarded_def emitNotEnabledError_def emitValidationError_def emitNoConnectionError_def
      ensureSftpEnabled_def split: if_splits sum.splits option.splits)

lemma guarded_passed:
  assumes "refusal ev data k ad = None" and "v = validate_event (size_limit ad) ev data" and "guarded_event ev"
  shows "\<exists>r cid sid s. v = ok r \<and> event_of r = ev \<and> saService ad = Some s \<and> guarded oper v k ad run = run r cid sid s"
proof -
  note g = assms(3) guarded_not_cancel [OF assms(3)]
  have "\<not> isl v" using assms g by (auto simp: refusal_def split: if_splits)
  then obtain r where r: "v = ok r" by (cases v) auto
  have "event_of r = ev" using sftp_request_event [of "size_limit ad" ev data r] r assms(2) by simp
  moreover obtain s where s: "saService ad = Some s"
    using assms(1) g by (auto simp: refusal_def ensureSftpEnabled_def split: if_splits option.splits)
  moreover obtain cid sid where "getConnectionAndSessionIds k = Some (cid, sid)"
    using assms(1) g by (auto simp: refusal_def split: if_splits)
  then have "guarded oper v k ad run = run r cid sid s"
    using assms(1) g r s by (simp add: guarded_def refusal_def split: if_splits)
  ultimately show ?thesis using r by blast
qed

fun_cases event_of_cases: "event_of r = EvList" "event_of r = EvStat" "event_of r = EvMkdir"
  "event_of r = EvDelete" "event_of r = EvUploadStart" "event_of r = EvDownloadStart"

text \<open>What the service calls leave pending.\<close>

lemma setup_owed:
  "setupOperation cid sid path ck tid a s = (s1, cs, r) \<Longrightarrow> service_owed s1 = service_owed s"
  using setupOperation_spec(4) by (simp add: service_owed_def)

lemma list_owed: "sv_listDirectory isoDate cid sid path h a s = (s1, cs, r) \<Longrightarrow> service_owed s1 = service_owed s"
  by (auto simp: sv_listDirectory_def split: prod.splits sum.splits dest!: setup_owed)

lemma stat_owed: "sv_stat isoDate cid sid path a s = (s1, cs, r) \<Longrightarrow> service_owed s1 = service_owed s"
  by (auto simp: sv_stat_def split: prod.splits sum.splits dest!: setup_owed)

lemma mkdir_owed: "sv_mkdir cid sid path m a s = (s1, cs, r) \<Longrightarrow> service_owed s1 = service_owed s"
  by (auto simp: sv_mkdir_def split: prod.splits sum.splits dest!: setup_owed)

lemma delete_owed: "sv_delete isoDate cid sid path rc a s = (s1, cs, r) \<Longrightarrow> service_owed s1 = service_owed s"
  by (auto simp: sv_delete_def Let_def split: prod.splits sum.splits if_splits dest!: setup_owed)

lemma transfers_owed [simp]: "service_owed (s\<lparr>svTransfers := m\<rparr>) = service_owed s"
  "service_owed (s\<lparr>svUploads := u\<rparr>) = service_owed s"
  by (simp_all add: service_owed_def)

lemma startDownload_owed: "sv_startDownload isoDate d a now s = (s1, cs, r) \<Longrightarrow> service_owed s1 = service_owed s"
  by (auto simp: sv_startDownload_def Let_def split: prod.splits sum.splits dest!: setup_owed)

lemma cancelUpload_owed: "sv_cancelUpload tid s = (s1, cs) \<Longrightarrow> service_owed s1 = service_owed s"
  by (auto simp: sv_cancelUpload_def closeUpload_def split: prod.splits option.splits)

lemma startUpload_owed:
  assumes e: "sv_startUpload isoDate u a now s = (s1, cs, r)"
  shows "service_owed s1 = service_owed s + (case r of Inl e \<Rightarrow> 0 | Inr x \<Rightarrow> 1)"
proof (cases "validateUploadPreFlight u (scMaxFileSize (svConfig s))")
  case (Inl x)
  with e show ?thesis by (auto simp: sv_startUpload_def)
next
  case (Inr x)
  obtain s2 calls r2 where su: "setupOperation (usConnectionId u) (usSessionId u) (usRemotePath u) True
      (Some (usTransferId u)) a s = (s2, calls, r2)" by (metis prod_cases3)
  have s2: "service_owed s2 = service_owed s" by (rule setup_owed [OF su])
  show ?thesis
  proof (cases r2)
    case (Inl y)
    with e Inr su s2 show ?thesis by (auto simp: sv_startUpload_def)
  next
    case ir: (Inr p)
    have opened: "service_owed (s2\<lparr>svTransfers := m, svOpening := svOpening s2 @ [(u, p, False)]\<rparr>) = Suc (service_owed s2)" for m
      by (simp add: service_owed_def)
    obtain m r3 where up: "startUploadTransfer u p (scRateLimit (svConfig s2)) now (svTransfers s2) = (m, r3)" by fastforce
    consider "s1 = s2" "isl r" | "s1 = s2\<lparr>svTransfers := m\<rparr>" "isl r"
      | "s1 = s2\<lparr>svTransfers := m, svOpening := svOpening s2 @ [(u, p, False)]\<rparr>" "\<not> isl r"
      using e Inr su ir up by (auto simp: sv_startUpload_def Let_def split: if_splits sum.splits)
    then show ?thesis by cases (auto simp: opened s2 split: sum.split)
  qed
qed

lemma processUploadChunk_owed:
  "sv_processUploadChunk c now s = (s1, cs, r) \<Longrightarrow>
     service_owed s1 = service_owed s + (case r of Inl e \<Rightarrow> 0 | Inr x \<Rightarrow> 1)"
  by (auto simp: sv_processUploadChunk_def service_owed_def Let_def split: option.splits prod.splits sum.splits)

text \<open>A pending open or write gives its answer once: at its timer, or when it settles before.\<close>

lemma filter_remove_nth:
  "k < length xs \<Longrightarrow> length (filter P xs) = length (filter P (remove_nth k xs)) + (if P (xs ! k) then 1 else 0)"
  by (subst id_take_nth_drop [of k xs]) (auto simp: remove_nth_def)

lemma filter_update:
  "k < length xs \<Longrightarrow> \<not> P y \<Longrightarrow> length (filter P xs) = length (filter P (xs[k := y])) + (if P (xs ! k) then 1 else 0)"
  by (subst id_take_nth_drop [of k xs]) (auto simp: upd_conv_take_nth_drop)

lemma opened_owed:
  assumes k: "k < length (svOpening s)" and e: "upload_opened k r now s = (s1, x)"
  shows "service_owed s = service_owed s1 + (if x = None then 0 else 1)"
proof -
  obtain u p b where o: "svOpening s ! k = (u, p, b)" by (cases "svOpening s ! k")
  have "svOpening s1 = remove_nth k (svOpening s)" "svWriting s1 = svWriting s" "x = None \<longleftrightarrow> b"
    using e by (auto simp: upload_opened_def o Let_def split: sum.splits if_splits)
  then show ?thesis
    using filter_remove_nth [OF k, of "\<lambda>(u, p, answered). \<not> answered"] by (simp add: service_owed_def o)
qed

lemma open_timeout_owed:
  assumes k: "k < length (svOpening s)" and e: "upload_open_timeout k s = (s1, x)"
  shows "service_owed s = service_owed s1 + (if x = None then 0 else 1)"
proof -
  obtain u p b where o: "svOpening s ! k = (u, p, b)" by (cases "svOpening s ! k")
  have "svOpening s1 = (svOpening s)[k := (u, p, True)]" "svWriting s1 = svWriting s" "x = None \<longleftrightarrow> b"
    using e by (auto simp: upload_open_timeout_def o Let_def split: if_splits)
  then show ?thesis
    using filter_update [OF k, of "\<lambda>(u, p, answered). \<not> answered" "(u, p, True)"] by (simp add: service_owed_def o)
qed

lemma written_owed:
  assumes k: "k < length (svWriting s)" and e: "chunk_written k we s = (s1, cs, x)"
  shows "service_owed s = service_owed s1 + (if x = None then 0 else 1)"
proof -
  obtain c n b where o: "svWriting s ! k = (c, n, b)" by (cases "svWriting s ! k")
  have "svOpening s1 = svOpening s" "svWriting s1 = remove_nth k (svWriting s)" "x = None \<longleftrightarrow> b"
    using e by (auto simp: chunk_written_def closeUpload_def o Let_def split: option.splits if_splits)
  then show ?thesis
    using filter_remove_nth [OF k, of "\<lambda>(c, n, answered). \<not> answered"] by (simp add: service_owed_def o)
qed

lemma write_timeout_owed:
  assumes k: "k < length (svWriting s)" and e: "chunk_write_timeout k s = (s1, x)"
  shows "service_owed s = service_owed s1 + (if x = None then 0 else 1)"
proof -
  obtain c n b where o: "svWriting s ! k = (c, n, b)" by (cases "svWriting s ! k")
  have "svOpening s1 = svOpening s" "svWriting s1 = (svWriting s)[k := (c, n, True)]" "x = None \<longleftrightarrow> b"
    using e by (auto simp: chunk_write_timeout_def o Let_def split: if_splits)
  then show ?thesis
    using filter_update [OF k, of "\<lambda>(c, n, answered). \<not> answered" "(c, n, True)"] by (simp add: service_owed_def o)
qed

lemmas pending_settles_once = opened_owed open_timeout_owed written_owed write_timeout_owed

text \<open>A handler that checks its guards and then emits one answer, an upload start possibly later.\<close>

definition one_answer :: "sftp_event \<Rightarrow> sftp_adapter \<Rightarrow> adapter_result \<Rightarrow> bool" where
  "one_answer ev ad x \<longleftrightarrow> (case x of (ad', calls, out) \<Rightarrow>
     owed ad' + length (filter emission out) = Suc (owed ad)
     \<and> (length (filter emission out) = 1 \<or> ev = EvUploadStart \<and> out = []))"

definition answered_by :: "sftp_event \<Rightarrow> (string, sftp_request) result \<Rightarrow> socket_ids \<Rightarrow> sftp_adapter \<Rightarrow>
    adapter_result \<Rightarrow> bool" where
  "answered_by ev v k ad x \<longleftrightarrow> (\<exists>oper run. x = guarded oper v k ad run
    \<and> (\<forall>r cid sid s. event_of r = ev \<longrightarrow> saService ad = Some s \<longrightarrow> one_answer ev ad (run r cid sid s)))"

lemma answered_byI:
  assumes "\<And>r cid sid s. event_of r = ev \<Longrightarrow> saService ad = Some s \<Longrightarrow> one_answer ev ad (run r cid sid s)"
  shows "answered_by ev v k ad (guarded oper v k ad run)"
  using assms unfolding answered_by_def by blast

lemmas handler_defs = handleList_def handleStat_def handleMkdir_def handleDelete_def handleUploadStart_def
  handleDownloadStart_def

lemma serve_answers:
  assumes "saService ad = Some s" and "service_owed (fst r) = service_owed s"
  shows "one_answer ev ad (serve ad oper r)"
  using assms by (auto simp: one_answer_def serve_def answer_with_def emitSftpError_def owed_def split: prod.splits sum.split)

lemma triple: "x = (fst x, fst (snd x), snd (snd x))"
  by simp

lemmas services_owed = list_owed stat_owed mkdir_owed delete_owed

lemma services_owed_fst:
  "service_owed (fst (sv_listDirectory isoDate cid sid path h a s)) = service_owed s"
  "service_owed (fst (sv_stat isoDate cid sid path a s)) = service_owed s"
  "service_owed (fst (sv_mkdir cid sid path m a s)) = service_owed s"
  "service_owed (fst (sv_delete isoDate cid sid path rc a s)) = service_owed s"
  by (rule services_owed [OF triple])+

lemma handlers_answered:
  "answered_by EvList (validateSftpListRequest data) k ad (handleList isoDate data a k ad)"
  "answered_by EvStat (validateSftpStatRequest data) k ad (handleStat isoDate data a k ad)"
  "answered_by EvMkdir (validateSftpMkdirRequest data) k ad (handleMkdir data a k ad)"
  "answered_by EvDelete (validateSftpDeleteRequest data) k ad (handleDelete isoDate data a k ad)"
  unfolding handler_defs
  by (rule answered_byI; auto intro!: serve_answers simp: services_owed_fst elim!: event_of_cases)+

lemma starts_answered:
  "answered_by EvUploadStart (validateSftpUploadStartRequest data (size_limit ad)) k ad
     (handleUploadStart isoDate fresh data a now k ad)"
  "answered_by EvDownloadStart (validateSftpDownloadStartRequest data) k ad
     (handleDownloadStart isoDate fresh data a now k ad)"
  unfolding handler_defs size_limit_def
  by (rule answered_byI; auto simp: emitSftpError_def one_answer_def owed_def
      elim!: event_of_cases dest!: startUpload_owed startDownload_owed split: prod.splits sum.splits)+

lemma handle_event_answered:
  "guarded_event ev \<Longrightarrow>
     answered_by ev (validate_event (size_limit ad) ev data) k ad (handle_event isoDate b64 fresh ev data a now k ad)"
  by (cases ev) (simp_all add: guarded_event_def handlers_answered starts_answered)

fun named_transfer :: "sftp_request \<Rightarrow> string option" where
  "named_transfer (UploadChunk i k d l) = Some i"
| "named_transfer (UploadCancel i) = Some i"
| "named_transfer (DownloadCancel i) = Some i"
| "named_transfer _ = None"

lemma foreign_transfer:
  assumes "saService ad = Some s" and "getConnectionAndSessionIds k = Some (cid, sid)"
    and "validate_event (size_limit ad) ev data = ok r" and "named_transfer r = Some tid"
    and "isl (verifyTransferOwnership tid sid s)"
  shows "handle_event isoDate b64 fresh ev data a now k ad
    = (ad, [], if ev = EvUploadChunk then [emitSftpError ''upload'' (hidden_transfer tid)] else [])"
proof -
  have "event_of r = ev" using sftp_request_event [OF assms(3)] .
  then show ?thesis using assms
    by (cases r) (auto simp: handleUploadChunk_def handleUploadCancel_def handleDownloadCancel_def)
qed

text \<open>Requests of the guarded events, chunks and cancellations.\<close>

lemma guarded_request:
  assumes h: "handle_event isoDate b64 fresh ev data a now k ad = (ad', calls, out)" and g: "guarded_event ev"
  shows "case refusal ev data k ad of
      Some c \<Rightarrow> ad' = ad \<and> calls = [] \<and> (\<exists>e. out = [EmError e] \<and> ssCode e = c)
    | None \<Rightarrow> one_answer ev ad (ad', calls, out)"
proof -
  obtain oper run where x: "(ad', calls, out) = guarded oper (validate_event (size_limit ad) ev data) k ad run"
    and one: "\<And>r cid sid s. event_of r = ev \<Longrightarrow> saService ad = Some s \<Longrightarrow> one_answer ev ad (run r cid sid s)"
    using handle_event_answered [OF g, of ad data k isoDate b64 fresh a now] h by (auto simp: answered_by_def)
  show ?thesis
  proof (cases "refusal ev data k ad")
    case None
    obtain r cid sid s where "event_of r = ev" "saService ad = Some s" "run r cid sid s = (ad', calls, out)"
      using guarded_passed [OF None refl g, of oper run] x by auto
    with one [of r s cid sid] show ?thesis by (simp add: None)
  next
    case (Some c)
    from guarded_refused [OF Some refl g, of oper run] x show ?thesis by (auto simp: Some)
  qed
qed

lemma chunk_request:
  assumes h: "handle_event isoDate b64 fresh EvUploadChunk data a now k ad = (ad', calls, out)"
  shows "case refusal EvUploadChunk data k ad of
      Some c \<Rightarrow> ad' = ad \<and> calls = [] \<and> (\<exists>e. out = [EmError e] \<and> ssCode e = c)
    | None \<Rightarrow> owed ad' + length (filter emission out) = Suc (owed ad)"
proof (cases "validateSftpUploadChunkRequest data")
  case (Inl m)
  then show ?thesis using h
    by (auto simp: refusal_def guarded_event_def handleUploadChunk_def emitValidationError_def)
next
  case (Inr r)
  then have "event_of r = EvUploadChunk" using sftp_request_event [of "size_limit ad" EvUploadChunk data r] by simp
  then obtain tid index dat isLast where r: "r = UploadChunk tid index dat isLast" by (cases r) auto
  have "refusal EvUploadChunk data k ad = (if saService ad = None then Some SFTP_NOT_ENABLED
      else if getConnectionAndSessionIds k = None then Some SFTP_NO_CONNECTION else None)"
    by (simp add: refusal_def guarded_event_def cancel_event_def Inr)
  moreover have "handle_event isoDate b64 fresh EvUploadChunk data a now k ad
      = handleUploadChunk b64 data now k ad" by simp
  ultimately show ?thesis using h Inr r
    by (auto simp: handleUploadChunk_def owed_def emitNotEnabledError_def emitNoConnectionError_def
        emitSftpError_def split: option.splits prod.splits if_splits sum.splits dest!: processUploadChunk_owed)
qed

lemma cancel_request:
  assumes h: "handle_event isoDate b64 fresh ev data a now k ad = (ad', calls, out)" and c: "cancel_event ev"
  shows "case refusal ev data k ad of
      Some c \<Rightarrow> ad' = ad \<and> calls = [] \<and> (\<exists>e. out = [EmError e] \<and> ssCode e = c)
    | None \<Rightarrow> owed ad' = owed ad \<and> filter emission out = []"
proof (cases "validate_event (size_limit ad) ev data")
  case (Inl m)
  then show ?thesis using h c
    by (auto simp: refusal_def guarded_event_def cancel_event_def handleUploadCancel_def handleDownloadCancel_def
        emitValidationError_def)
next
  case (Inr r)
  then have "event_of r = ev" using sftp_request_event by blast
  moreover have "refusal ev data k ad = None"
    using c by (auto simp: refusal_def guarded_event_def cancel_event_def Inr)
  ultimately show ?thesis using h c Inr
    by (cases r) (auto simp: cancel_event_def handleUploadCancel_def handleDownloadCancel_def owed_def
        drop_controller_def sv_cancelDownload_def service_owed_def Let_def
        split: option.splits prod.splits if_splits dest!: cancelUpload_owed)
qed

section \<open>Property\<close>


definition demo_adapter :: sftp_adapter where
  "demo_adapter = \<lparr>saService = Some (fst (up_run (\<lambda>_. []) (take 2 demo_upload_events) (new_file_service demo_config) [])),
     saControllers = []\<rparr>"


section \<open>Corners\<close>

text \<open>The path that is streamed is the one of the message, not the validated one that was looked at:
  with a path below \<open>~\<close>, which the server does not expand, the stream opens another file name.\<close>

lemma download_streams_raw_path:
  assumes "handleDownloadStart isoDate fresh data a now k ad = (ad', calls, out)"
    and "StartStream c t p n \<in> set out"
  shows "validateSftpDownloadStartRequest data = ok (DownloadStart p)"
  using assms
  by (auto simp: handleDownloadStart_def guarded_def emitNotEnabledError_def emitValidationError_def
      emitNoConnectionError_def emitSftpError_def split: if_splits sum.splits option.splits prod.splits
      sftp_request.splits)

text \<open>A request to a disabled service is answered as a listing whatever it asked.\<close>

lemma disabled_answer_names_list:
  assumes "\<not> ensureSftpEnabled ad"
  shows "handleUploadStart isoDate fresh data a now k ad = (ad, [], [emitNotEnabledError ''list'' None])"
  using assms by (simp add: handleUploadStart_def guarded_def)

text \<open>A disconnect ends the session and drops its transfers but closes no upload handle and destroys
  no controller.\<close>

lemma disconnect_keeps_handles:
  assumes "saService ad = Some s"
  shows "map_option svUploads (saService (sftp_handleDisconnect k ad)) = Some (svUploads s)
    \<and> saControllers (sftp_handleDisconnect k ad) = saControllers ad"
  using assms by (simp add: sftp_handleDisconnect_def sv_cancelSessionTransfers_def sv_closeSession_def
      split: option.split prod.split)

end
