(* ===== verification/Host_Keys.thy ===== *)
theory Host_Keys
  imports JS_Values "HOL-Library.Multiset"
begin

text \<open>
  Verification of SSH host keys, \<open>app/services/host-key/\<close>: the read-only store, the service and the
  callback ssh2 calls with the key a server presents.  The rows of the database, base64 and SHA-256
  are parameters.  A verification that asks the client registers listeners on the socket and a
  timer; \<open>hvPending\<close> are the verifications that wait, in the order of their listeners, and every
  call of \<open>verify\<close> and every message is an output.
\<close>

section \<open>Configuration, store, service\<close>

datatype unknown_action = AskClient | AlertClient | RejectKey

record host_key_config =
  hkEnabled :: bool
  hkServerStore :: bool
  hkClientStore :: bool
  hkUnknownAction :: unknown_action

record stored_key =
  skHost :: string
  skPort :: int
  skAlgorithm :: string
  skKey :: string
  skAddedAt :: string
  skComment :: "string option"

datatype key_status = KeyTrusted | KeyMismatch | KeyUnknown

text \<open>\<open>None\<close> is a closed or missing database.\<close>

type_synonym key_store = "stored_key list option"

definition find_row :: "string \<Rightarrow> int \<Rightarrow> string \<Rightarrow> stored_key list \<Rightarrow> stored_key option" where
  "find_row host port algorithm rows =
     List.find (\<lambda>r. skHost r = host \<and> skPort r = port \<and> skAlgorithm r = algorithm) rows"

definition store_lookup :: "string \<Rightarrow> int \<Rightarrow> string \<Rightarrow> string option \<Rightarrow> key_store \<Rightarrow> key_status \<times> string option" where
  "store_lookup host port algorithm presentedKey db =
     (case db of
        None \<Rightarrow> (KeyUnknown, None)
      | Some rows \<Rightarrow>
          (case find_row host port algorithm rows of
             None \<Rightarrow> (KeyUnknown, None)
           | Some row \<Rightarrow>
               (case presentedKey of
                  None \<Rightarrow> (KeyTrusted, Some (skKey row))
                | Some k \<Rightarrow> if skKey row = k then (KeyTrusted, Some (skKey row)) else (KeyMismatch, Some (skKey row)))))"

definition store_getAll :: "string \<Rightarrow> int \<Rightarrow> key_store \<Rightarrow> stored_key list" where
  "store_getAll host port db =
     (case db of None \<Rightarrow> [] | Some rows \<Rightarrow> filter (\<lambda>r. skHost r = host \<and> skPort r = port) rows)"

record host_key_service =
  hsConfig :: host_key_config
  hsStore :: "key_store option"

definition new_host_key_service :: "host_key_config \<Rightarrow> key_store \<Rightarrow> host_key_service" where
  "new_host_key_service cfg db =
     \<lparr>hsConfig = cfg, hsStore = (if hkServerStore cfg then Some db else None)\<rparr>"

definition serverLookup :: "string \<Rightarrow> int \<Rightarrow> string \<Rightarrow> string \<Rightarrow> host_key_service \<Rightarrow> key_status \<times> string option" where
  "serverLookup host port algorithm presentedKey s =
     (case hsStore s of
        None \<Rightarrow> (KeyUnknown, None)
      | Some db \<Rightarrow> store_lookup host port algorithm (Some presentedKey) db)"

definition hs_close :: "host_key_service \<Rightarrow> host_key_service" where
  "hs_close s = s\<lparr>hsStore := None\<rparr>"

section \<open>The name of the algorithm\<close>

definition be32 :: "bytes \<Rightarrow> nat" where
  "be32 bs = foldl (\<lambda>n b. 256 * n + unat b) 0 (take 4 bs)"

definition ascii :: "bytes \<Rightarrow> string" where
  "ascii bs = map (\<lambda>b. char_of (unat b mod 128)) bs"

definition extractAlgorithm :: "bytes \<Rightarrow> string" where
  "extractAlgorithm keyBuffer =
     (if length keyBuffer < 4 then ''unknown''
      else let algLength = be32 keyBuffer
           in if length keyBuffer < 4 + algLength then ''unknown''
              else ascii (take algLength (drop 4 keyBuffer)))"

section \<open>The verifier\<close>

datatype key_source = FromServer | FromClient

record key_facts =
  kfHost :: string
  kfPort :: int
  kfAlgorithm :: string
  kfKey :: string
  kfFingerprint :: string

datatype hk_output =
    HkVerdict nat bool
  | HkVerified key_facts key_source
  | HkMismatch key_facts string
  | HkAlert key_facts
  | HkRejected key_facts
  | HkVerify key_facts

record verifier_state =
  hvPending :: "(nat \<times> key_facts) list"

definition awaitClientVerification :: "nat \<Rightarrow> key_facts \<Rightarrow> verifier_state \<Rightarrow> verifier_state \<times> hk_output list" where
  "awaitClientVerification n f v = (v\<lparr>hvPending := hvPending v @ [(n, f)]\<rparr>, [HkVerify f])"

text \<open>\<open>n\<close> numbers the calls of the callback; its verdict is \<open>HkVerdict n\<close>.\<close>

definition verify_host_key :: "(bytes \<Rightarrow> string) \<Rightarrow> (string \<Rightarrow> string) \<Rightarrow> host_key_service \<Rightarrow> nat \<Rightarrow> string \<Rightarrow> int \<Rightarrow>
    bytes \<Rightarrow> verifier_state \<Rightarrow> verifier_state \<times> hk_output list" where
  "verify_host_key base64 fingerprint_of s n host port key v =
     (if \<not> hkEnabled (hsConfig s) then (v, [HkVerdict n True])
      else
        let algorithm = extractAlgorithm key; base64Key = base64 key;
            f = \<lparr>kfHost = host, kfPort = port, kfAlgorithm = algorithm, kfKey = base64Key,
                 kfFingerprint = fingerprint_of base64Key\<rparr>;
            (status, stored) = (if hkServerStore (hsConfig s) then serverLookup host port algorithm base64Key s
                                else (KeyUnknown, None))
        in case status of
             KeyTrusted \<Rightarrow> (v, [HkVerified f FromServer, HkVerdict n True])
           | KeyMismatch \<Rightarrow>
               (v, [HkMismatch f (case stored of None \<Rightarrow> ''unknown'' | Some k \<Rightarrow> fingerprint_of k), HkVerdict n False])
           | KeyUnknown \<Rightarrow>
               if hkClientStore (hsConfig s) then awaitClientVerification n f v
               else (case hkUnknownAction (hsConfig s) of
                       AlertClient \<Rightarrow> (v, [HkAlert f, HkVerdict n True])
                     | RejectKey \<Rightarrow> (v, [HkRejected f, HkVerdict n False])
                     | AskClient \<Rightarrow> awaitClientVerification n f v))"

text \<open>The answer of the client, an untrusted value; an inherited \<open>action\<close> cannot occur in a parsed
  message.\<close>

definition accepts :: "jsval \<Rightarrow> bool" where
  "accepts response \<longleftrightarrow>
     is_object response \<and> response \<noteq> JNull
     \<and> (jget response ''action'' = JStr ''accept'' \<or> jget response ''action'' = JStr ''trusted'')"

definition answer_one :: "jsval \<Rightarrow> nat \<times> key_facts \<Rightarrow> hk_output list" where
  "answer_one response p =
     (if accepts response then [HkVerified (snd p) FromClient, HkVerdict (fst p) True]
      else [HkVerdict (fst p) False])"

text \<open>Every waiting verification listens for the same event of the socket.\<close>

definition verify_response :: "jsval \<Rightarrow> verifier_state \<Rightarrow> verifier_state \<times> hk_output list" where
  "verify_response response v = (v\<lparr>hvPending := []\<rparr>, concat (map (answer_one response) (hvPending v)))"

definition verify_disconnect :: "verifier_state \<Rightarrow> verifier_state \<times> hk_output list" where
  "verify_disconnect v = (v\<lparr>hvPending := []\<rparr>, map (\<lambda>p. HkVerdict (fst p) False) (hvPending v))"

definition verify_timeout :: "nat \<Rightarrow> verifier_state \<Rightarrow> verifier_state \<times> hk_output list" where
  "verify_timeout n v =
     (if n \<in> fst ` set (hvPending v)
      then (v\<lparr>hvPending := filter (\<lambda>p. fst p \<noteq> n) (hvPending v)\<rparr>, [HkVerdict n False])
      else (v, []))"

section \<open>Runs\<close>

datatype hk_event = KvPresent nat string int bytes | KvResponse jsval | KvDisconnect | KvTimeout nat

fun hk_step :: "(bytes \<Rightarrow> string) \<Rightarrow> (string \<Rightarrow> string) \<Rightarrow> host_key_service \<Rightarrow> hk_event \<Rightarrow> verifier_state \<Rightarrow>
    verifier_state \<times> hk_output list" where
  "hk_step b64 fp s (KvPresent n h p k) v = verify_host_key b64 fp s n h p k v"
| "hk_step b64 fp s (KvResponse r) v = verify_response r v"
| "hk_step b64 fp s KvDisconnect v = verify_disconnect v"
| "hk_step b64 fp s (KvTimeout n) v = verify_timeout n v"

fun hk_run :: "(bytes \<Rightarrow> string) \<Rightarrow> (string \<Rightarrow> string) \<Rightarrow> host_key_service \<Rightarrow> hk_event list \<Rightarrow> verifier_state \<Rightarrow>
    verifier_state \<times> hk_output list" where
  "hk_run b64 fp s [] v = (v, [])"
| "hk_run b64 fp s (e # es) v =
     (let (v1, o1) = hk_step b64 fp s e v; (v2, o2) = hk_run b64 fp s es v1 in (v2, o1 @ o2))"

definition presented :: "hk_event list \<Rightarrow> nat list" where
  "presented es = List.map_filter (\<lambda>e. case e of KvPresent n h p k \<Rightarrow> Some n | _ \<Rightarrow> None) es"

definition verdicts :: "hk_output list \<Rightarrow> nat list" where
  "verdicts out = List.map_filter (\<lambda>x. case x of HkVerdict n b \<Rightarrow> Some n | _ \<Rightarrow> None) out"

definition waiting :: "verifier_state \<Rightarrow> nat list" where
  "waiting v = map fst (hvPending v)"

lemma verdicts_simps [simp]: "verdicts [] = []" "verdicts (a @ b) = verdicts a @ verdicts b"
  by (simp_all add: verdicts_def List.map_filter_def)

lemma verdicts_Cons [simp]: "verdicts (x # out) = (case x of HkVerdict n b \<Rightarrow> [n] | _ \<Rightarrow> []) @ verdicts out"
  by (auto simp: verdicts_def List.map_filter_def split: hk_output.split)

lemma presented_Cons: "presented (e # es) = (case e of KvPresent n h p k \<Rightarrow> [n] | _ \<Rightarrow> []) @ presented es"
  by (auto simp: presented_def List.map_filter_def split: hk_event.split)

text \<open>The rule a key is accepted by.\<close>

definition server_verdict :: "(bytes \<Rightarrow> string) \<Rightarrow> host_key_service \<Rightarrow> string \<Rightarrow> int \<Rightarrow> bytes \<Rightarrow> key_status" where
  "server_verdict b64 s host port key =
     (if hkServerStore (hsConfig s) then fst (serverLookup host port (extractAlgorithm key) (b64 key) s) else KeyUnknown)"

lemma present_cases:
  assumes "verify_host_key b64 fp s n h p k v = (v', out)"
  shows "(v' = v \<and> (\<exists>b. verdicts out = [n] \<and> HkVerdict n b \<in> set out
            \<and> (b \<longrightarrow> \<not> hkEnabled (hsConfig s) \<or> server_verdict b64 s h p k = KeyTrusted
                 \<or> server_verdict b64 s h p k = KeyUnknown \<and> \<not> hkClientStore (hsConfig s)
                     \<and> hkUnknownAction (hsConfig s) = AlertClient)))
       \<or> (\<exists>f. hvPending v' = hvPending v @ [(n, f)] \<and> verdicts out = [] \<and> kfHost f = h \<and> kfPort f = p \<and> kfKey f = b64 k
            \<and> hkEnabled (hsConfig s) \<and> server_verdict b64 s h p k = KeyUnknown)"
  using assms
  by (auto simp: verify_host_key_def server_verdict_def awaitClientVerification_def Let_def
      split: if_splits prod.splits key_status.splits unknown_action.splits)

lemma waiting_filter: "distinct (waiting v) \<Longrightarrow> n \<in> fst ` set (hvPending v) \<Longrightarrow>
    mset (map fst (filter (\<lambda>p. fst p \<noteq> n) (hvPending v))) + {#n#} = mset (waiting v)"
proof -
  assume d: "distinct (waiting v)" and n: "n \<in> fst ` set (hvPending v)"
  have "map fst (filter (\<lambda>p. fst p \<noteq> n) (hvPending v)) = remove1 n (waiting v)"
    unfolding waiting_def distinct_remove1_removeAll [OF d [unfolded waiting_def]]
    by (simp add: filter_map o_def removeAll_filter_not_eq) (metis)
  then show ?thesis using n by (simp add: waiting_def)
qed

lemma hk_step_count:
  assumes "hk_step b64 fp s e v = (v', out)" and "distinct (waiting v)"
  shows "mset (verdicts out) + mset (waiting v') = mset (presented [e]) + mset (waiting v)"
proof (cases e)
  case (KvPresent n h p k)
  with present_cases [of b64 fp s n h p k v v' out] assms(1) show ?thesis
    by (auto simp: presented_Cons presented_def List.map_filter_def waiting_def)
next
  case (KvResponse r)
  have "verdicts (concat (map (answer_one r) ps)) = map fst ps" for ps
    by (induction ps) (auto simp: answer_one_def)
  with KvResponse assms show ?thesis by (auto simp: verify_response_def presented_Cons presented_def List.map_filter_def waiting_def)
next
  case KvDisconnect
  have "verdicts (map (\<lambda>p. HkVerdict (fst p) False) ps) = map fst ps" for ps :: "(nat \<times> key_facts) list"
    by (induction ps) auto
  with KvDisconnect assms show ?thesis by (auto simp: verify_disconnect_def presented_Cons presented_def List.map_filter_def waiting_def)
next
  case (KvTimeout n)
  with assms waiting_filter [of v n] show ?thesis
    by (auto simp: verify_timeout_def presented_Cons presented_def List.map_filter_def waiting_def split: if_splits)
qed

lemma count_le_1_distinct: "(\<And>a. count (mset xs) a \<le> 1) \<Longrightarrow> distinct xs"
proof (induction xs)
  case (Cons x xs)
  have "count (mset xs) a \<le> 1" for a
  proof -
    have "count (mset xs) a \<le> count (mset (x # xs)) a" by simp
    then show ?thesis using Cons.prems [of a] by (rule order_trans)
  qed
  moreover have "count (mset xs) x = 0" using Cons.prems [of x] by simp
  ultimately show ?case using Cons.IH by (simp add: count_eq_zero_iff)
qed simp

lemma distinct_count_le_1: "distinct xs \<Longrightarrow> count (mset xs) a \<le> 1"
  by (drule distinct_count_atmost_1 [THEN iffD1, rule_format, of _ a]) simp

lemma hk_run_count:
  assumes "hk_run b64 fp s es v = (v', out)" and "\<And>a. count (mset (presented es) + mset (waiting v)) a \<le> 1"
  shows "mset (verdicts out) + mset (waiting v') = mset (presented es) + mset (waiting v)"
  using assms
proof (induction es arbitrary: v v' out)
  case Nil
  then show ?case by (simp add: presented_def List.map_filter_def)
next
  case (Cons e es)
  obtain v1 o1 where st: "hk_step b64 fp s e v = (v1, o1)" by fastforce
  obtain v2 o2 where rn: "hk_run b64 fp s es v1 = (v2, o2)" by fastforce
  have pe: "mset (presented (e # es)) = mset (presented [e]) + mset (presented es)"
    by (simp add: presented_Cons) (simp add: presented_def List.map_filter_def)
  have le: "count (mset (presented [e])) a + count (mset (presented es)) a + count (mset (waiting v)) a \<le> 1" for a
    using Cons.prems(2) [of a] unfolding pe by simp
  have "distinct (waiting v)" by (rule count_le_1_distinct) (use le in \<open>meson add_leD2\<close>)
  note c = hk_step_count [OF st this]
  have "count (mset (verdicts o1)) a + count (mset (waiting v1)) a
      = count (mset (presented [e])) a + count (mset (waiting v)) a" for a
    using arg_cong [OF c, of "\<lambda>M. count M a"] by simp
  then have "count (mset (presented es) + mset (waiting v1)) a \<le> 1" for a
    using le [of a] by (metis add.assoc add.commute add_leD2 count_union)
  from Cons.IH [OF rn this] c Cons.prems(1) st rn show ?case unfolding pe
    by (auto simp: ac_simps)
qed

definition justified :: "(bytes \<Rightarrow> string) \<Rightarrow> host_key_service \<Rightarrow> hk_event set \<Rightarrow> nat \<Rightarrow> bool" where
  "justified b64 s E n \<longleftrightarrow> (\<exists>h p k. KvPresent n h p k \<in> E
     \<and> (\<not> hkEnabled (hsConfig s) \<or> server_verdict b64 s h p k = KeyTrusted
        \<or> server_verdict b64 s h p k = KeyUnknown
            \<and> (\<not> hkClientStore (hsConfig s) \<and> hkUnknownAction (hsConfig s) = AlertClient
               \<or> (\<exists>r. KvResponse r \<in> E \<and> accepts r))))"

definition pending_ok :: "(bytes \<Rightarrow> string) \<Rightarrow> host_key_service \<Rightarrow> hk_event set \<Rightarrow> verifier_state \<Rightarrow> bool" where
  "pending_ok b64 s E v \<longleftrightarrow> (\<forall>n\<in>fst ` set (hvPending v). \<exists>h p k. KvPresent n h p k \<in> E
     \<and> server_verdict b64 s h p k = KeyUnknown)"

lemma hk_step_justified:
  assumes st: "hk_step b64 fp s e v = (v', out)" and p: "pending_ok b64 s E v" and e: "e \<in> E"
  shows "pending_ok b64 s E v' \<and> (HkVerdict n True \<in> set out \<longrightarrow> justified b64 s E n)"
proof (cases e)
  case (KvPresent m h q k)
  have st': "verify_host_key b64 fp s m h q k v = (v', out)" using st KvPresent by simp
  have only: "HkVerdict n True \<in> set out \<Longrightarrow> n \<in> set (verdicts out)"
    by (auto simp: verdicts_def List.map_filter_def image_iff intro!: bexI [of _ "HkVerdict n True"])
  have uniq: "HkVerdict n a \<in> set out \<Longrightarrow> HkVerdict n b \<in> set out \<Longrightarrow> a = b" for a b
    using st' by (auto simp: verify_host_key_def awaitClientVerification_def Let_def
        split: if_splits prod.splits key_status.splits unknown_action.splits)
  from present_cases [OF st'] show ?thesis
  proof
    assume a: "v' = v \<and> (\<exists>b. verdicts out = [m] \<and> HkVerdict m b \<in> set out
            \<and> (b \<longrightarrow> \<not> hkEnabled (hsConfig s) \<or> server_verdict b64 s h q k = KeyTrusted
                 \<or> server_verdict b64 s h q k = KeyUnknown \<and> \<not> hkClientStore (hsConfig s)
                     \<and> hkUnknownAction (hsConfig s) = AlertClient))"
    then show ?thesis using p e only uniq KvPresent unfolding justified_def by auto metis+
  next
    assume a: "\<exists>f. hvPending v' = hvPending v @ [(m, f)] \<and> verdicts out = [] \<and> kfHost f = h \<and> kfPort f = q \<and> kfKey f = b64 k
            \<and> hkEnabled (hsConfig s) \<and> server_verdict b64 s h q k = KeyUnknown"
    then have w: "fst ` set (hvPending v') = insert m (fst ` set (hvPending v))" and vo: "verdicts out = []"
      and sv: "server_verdict b64 s h q k = KeyUnknown" by auto
    have "HkVerdict n True \<notin> set out" using only vo by auto
    then show ?thesis using p e sv unfolding pending_ok_def w KvPresent by blast
  qed
next
  case (KvResponse r)
  then show ?thesis using st p e
    by (auto simp: verify_response_def answer_one_def pending_ok_def justified_def split: if_splits) (metis fst_conv)+
next
  case KvDisconnect
  then show ?thesis using st p by (auto simp: verify_disconnect_def pending_ok_def)
next
  case (KvTimeout m)
  then show ?thesis using st p by (auto simp: verify_timeout_def pending_ok_def split: if_splits) (metis fst_conv)
qed

lemma hk_run_justified:
  "hk_run b64 fp s es v = (v', out) \<Longrightarrow> pending_ok b64 s E v \<Longrightarrow> set es \<subseteq> E \<Longrightarrow>
     HkVerdict n True \<in> set out \<Longrightarrow> justified b64 s E n"
proof (induction es arbitrary: v v' out)
  case (Cons e es)
  obtain v1 o1 where st: "hk_step b64 fp s e v = (v1, o1)" by fastforce
  obtain v2 o2 where rn: "hk_run b64 fp s es v1 = (v2, o2)" by fastforce
  have "e \<in> E" using Cons.prems(3) by simp
  note j = hk_step_justified [OF st Cons.prems(2) this, of n]
  from Cons.prems(1) st rn have "out = o1 @ o2" by simp
  with j Cons.IH [OF rn] Cons.prems(3,4) show ?case by auto
qed simp

definition no_verifications :: verifier_state where
  "no_verifications = \<lparr>hvPending = []\<rparr>"


definition demo_keys :: host_key_service where
  "demo_keys = new_host_key_service \<lparr>hkEnabled = True, hkServerStore = True, hkClientStore = True, hkUnknownAction = AskClient\<rparr>
     (Some [\<lparr>skHost = ''h'', skPort = 22, skAlgorithm = ''a'', skKey = ''k1'', skAddedAt = ''2026'', skComment = None\<rparr>])"

definition demo_key_events :: "hk_event list" where
  "demo_key_events = [KvPresent 0 ''h'' 22 [0, 0, 0, 1, 97], KvPresent 1 ''other'' 22 [0, 0, 0, 1, 97],
     KvResponse (JObj [(''action'', JStr ''accept'')])]"


section \<open>Corners\<close>

text \<open>Prompts of the same socket are not told apart: the answer to one accepts the keys of all hosts
  that wait.\<close>

lemma one_answer_accepts_all:
  assumes "accepts r"
  shows "\<forall>p\<in>set (hvPending v). HkVerdict (fst p) True \<in> set (snd (verify_response r v))"
  using assms by (auto simp: verify_response_def answer_one_def intro!: bexI)

text \<open>With the client store disabled and the unknown-key action \<open>alert\<close>, a key of a new algorithm of
  a known host is accepted: the look-up is by host, port and algorithm.\<close>

lemma other_algorithm_unknown:
  assumes "\<forall>r\<in>set rows. skHost r = h \<longrightarrow> skAlgorithm r \<noteq> alg"
  shows "store_lookup h p alg k (Some rows) = (KeyUnknown, None)"
proof -
  have "find_row h p alg rows = None" using assms by (auto simp: find_row_def find_None_iff)
  then show ?thesis by (simp add: store_lookup_def)
qed

text \<open>After the service is closed no stored key is known: a mismatch is no longer noticed.\<close>

lemma closed_store_forgets: "serverLookup h p alg k (hs_close s) = (KeyUnknown, None)"
  by (simp add: serverLookup_def hs_close_def)

end
