(* ===== verification/Subnet_Check.thy ===== *)
theory Subnet_Check
  imports JS_Strings "HOL-Library.Word"
begin

text \<open>
  The check of a host against the allowed subnets, \<open>app/ssh/hostname-resolver.ts\<close>, that every SSH
  and telnet connection passes.  The DNS look-up is a parameter; \<open>net.isIP\<close> is modelled by the
  regular expressions of Node.  The bit operations of JavaScript are those of 32-bit words; sums of
  parsed numbers are exact integers.
\<close>

unbundle bit_operations_syntax

section \<open>Numbers and addresses as text\<close>

definition is_hex :: "char \<Rightarrow> bool" where
  "is_hex c \<longleftrightarrow> is_digit c \<or> (65 \<le> code c \<and> code c \<le> 70) \<or> (97 \<le> code c \<and> code c \<le> 102)"

definition hex_digit :: "char \<Rightarrow> nat" where
  "hex_digit c = (if is_digit c then code c - 48 else if code c \<le> 70 then code c - 55 else code c - 87)"

definition hex_int :: "string \<Rightarrow> int" where
  "hex_int ds = foldl (\<lambda>n c. 16 * n + int (hex_digit c)) 0 ds"

text \<open>\<open>Number.parseInt(s, 16)\<close>, with the optional prefix \<open>0x\<close>.\<close>

definition parse_hex :: "string \<Rightarrow> int option" where
  "parse_hex s =
     (let t = trim_start s;
          neg = (t \<noteq> [] \<and> hd t = CHR ''-'');
          u = (if t \<noteq> [] \<and> (hd t = CHR ''-'' \<or> hd t = CHR ''+'') then tl t else t);
          v = (if starts_with u ''0x'' \<or> starts_with u ''0X'' then drop 2 u else u);
          ds = takeWhile is_hex v
      in if ds = [] then None else Some (if neg then - hex_int ds else hex_int ds))"

text \<open>\<open>ToInt32\<close>; \<open>NaN\<close> becomes 0.\<close>

definition to_int32 :: "int option \<Rightarrow> 32 word" where
  "to_int32 x = (case x of None \<Rightarrow> 0 | Some i \<Rightarrow> word_of_int i)"

definition shl32 :: "32 word \<Rightarrow> int \<Rightarrow> 32 word" where
  "shl32 w n = push_bit (nat (n mod 32)) w"

definition ipv4_octet :: "string \<Rightarrow> bool" where
  "ipv4_octet s \<longleftrightarrow> s \<noteq> [] \<and> list_all is_digit s \<and> (length s = 1 \<or> hd s \<noteq> CHR ''0'') \<and> dec_val s \<le> 255"

definition isIPv4 :: "string \<Rightarrow> bool" where
  "isIPv4 s \<longleftrightarrow> length (split_on CHR ''.'' s) = 4 \<and> list_all ipv4_octet (split_on CHR ''.'' s)"

definition ipv6_group :: "string \<Rightarrow> bool" where
  "ipv6_group s \<longleftrightarrow> 1 \<le> length s \<and> length s \<le> 4 \<and> list_all is_hex s"

text \<open>\<open>s.split(cc)\<close> for a separator of two equal characters.\<close>

fun split_pair :: "char \<Rightarrow> string \<Rightarrow> string list" where
  "split_pair c [] = [[]]"
| "split_pair c [x] = [[x]]"
| "split_pair c (x # y # s) =
     (if x = c \<and> y = c then [] # split_pair c s
      else case split_pair c (y # s) of [] \<Rightarrow> [[x]] | p # ps \<Rightarrow> (x # p) # ps)"

text \<open>How many groups a colon-separated list stands for; a trailing dotted quad counts as two.\<close>

definition ipv6_groups :: "string \<Rightarrow> nat option" where
  "ipv6_groups s =
     (if s = [] then Some 0
      else let gs = split_on CHR '':'' s
           in if list_all ipv6_group gs then Some (length gs)
              else if list_all ipv6_group (butlast gs) \<and> isIPv4 (last gs) then Some (Suc (length gs))
              else None)"

definition isIPv6 :: "string \<Rightarrow> bool" where
  "isIPv6 s =
     (let addr = takeWhile (\<lambda>c. c \<noteq> CHR ''%'') s;
          zone = dropWhile (\<lambda>c. c \<noteq> CHR ''%'') s
      in (zone = [] \<or> 2 \<le> length zone \<and> list_all (\<lambda>c. is_alpha c \<or> is_digit c \<or> c \<in> {CHR ''-'', CHR ''.'', CHR '':''}) (tl zone))
       \<and> (case split_pair CHR '':'' addr of
            [a] \<Rightarrow> ipv6_groups a = Some 8
          | [a, b] \<Rightarrow>
              (case (ipv6_groups a, ipv6_groups b) of (Some n, Some k) \<Rightarrow> n + k < 8 \<and> CHR ''.'' \<notin> set a | _ \<Rightarrow> False)
          | _ \<Rightarrow> False))"

section \<open>The code\<close>

definition IPV4_MAX_MASK_BITS :: int where "IPV4_MAX_MASK_BITS = 32"
definition IPV6_MAX_MASK_BITS :: int where "IPV6_MAX_MASK_BITS = 128"
definition IPV6_SEGMENT_COUNT :: nat where "IPV6_SEGMENT_COUNT = 8"
definition IPV6_SEGMENT_BITS :: int where "IPV6_SEGMENT_BITS = 16"
definition IPV6_SEGMENT_HEX_DIGITS :: nat where "IPV6_SEGMENT_HEX_DIGITS = 4"
definition IPV6_SEGMENT_MAX_VALUE :: "32 word" where "IPV6_SEGMENT_MAX_VALUE = 0xFFFF"
definition IPV4_FULL_MASK :: "32 word" where "IPV4_FULL_MASK = 0xFFFFFFFF"

definition resolveHostname :: "(string \<Rightarrow> string + string list) \<Rightarrow> string \<Rightarrow> string + string list" where
  "resolveHostname lookup hostname =
     (if isIPv4 hostname \<or> isIPv6 hostname then Inr [hostname]
      else case lookup hostname of
             Inl message \<Rightarrow> Inl (''DNS resolution failed for '' @ hostname @ '': '' @ message)
           | Inr entries \<Rightarrow>
               (case filter (\<lambda>a. a \<noteq> []) entries of
                  [] \<Rightarrow> Inl (''No DNS records found for '' @ hostname)
                | addresses \<Rightarrow> Inr addresses))"

text \<open>The sum the reduction computes; an octet that does not parse resets it to 0.\<close>

fun ip_reduce :: "nat \<Rightarrow> string list \<Rightarrow> int \<Rightarrow> int" where
  "ip_reduce i [] acc = acc"
| "ip_reduce i (part # parts) acc =
     ip_reduce (Suc i) parts
       (case parse_int part of
          None \<Rightarrow> 0
        | Some num \<Rightarrow> if num < 0 \<or> num > 255 then 0
                      else acc + sint (shl32 (word_of_int num) (8 * (3 - int i))))"

definition ipToInt :: "string \<Rightarrow> int" where
  "ipToInt addr = (let parts = split_on CHR ''.'' addr in if length parts \<noteq> 4 then 0 else ip_reduce 0 parts 0)"

definition parseCidr :: "int \<Rightarrow> string \<Rightarrow> (string \<times> int) option" where
  "parseCidr maxBits subnet =
     (case split_on CHR ''/'' subnet of
        subnetBase # maskStr # _ \<Rightarrow>
          (case parse_int maskStr of
             None \<Rightarrow> None
           | Some mbits \<Rightarrow> if mbits < 0 \<or> mbits > maxBits then None else Some (subnetBase, mbits))
      | _ \<Rightarrow> None)"

definition isIpv4InCidr :: "string \<Rightarrow> string \<Rightarrow> bool" where
  "isIpv4InCidr ip subnet =
     (case parseCidr IPV4_MAX_MASK_BITS subnet of
        None \<Rightarrow> False
      | Some (subnetBase, mbits) \<Rightarrow>
          let ipInt = word_of_int (ipToInt ip) :: 32 word;
              subnetInt = word_of_int (ipToInt subnetBase);
              maskBits = shl32 IPV4_FULL_MASK (IPV4_MAX_MASK_BITS - mbits)
          in ipInt AND maskBits = subnetInt AND maskBits)"

definition parseIpv6Cidr :: "string \<Rightarrow> (string \<times> int) option" where
  "parseIpv6Cidr subnet = parseCidr IPV6_MAX_MASK_BITS subnet"

definition padStart :: "nat \<Rightarrow> char \<Rightarrow> string \<Rightarrow> string" where
  "padStart n c s = replicate (n - length s) c @ s"

text \<open>The segments of the normalised address, which the code joins with colons and splits again.\<close>

definition normalizeIpv6Address :: "string \<Rightarrow> string" where
  "normalizeIpv6Address addr =
     (if str_includes addr ''::'' then
        let parts = split_pair CHR '':'' addr;
            left = filter (\<lambda>s. s \<noteq> []) (split_on CHR '':'' (parts ! 0));
            right = filter (\<lambda>s. s \<noteq> []) (split_on CHR '':'' (parts ! 1));
            missing = IPV6_SEGMENT_COUNT - length left - length right;
            expanded = left @ replicate missing ''0'' @ right
        in join_with '':'' (map (padStart IPV6_SEGMENT_HEX_DIGITS CHR ''0'') expanded)
      else join_with '':'' (map (padStart IPV6_SEGMENT_HEX_DIGITS CHR ''0'') (split_on CHR '':'' addr)))"

fun mask_loop :: "string list \<Rightarrow> string list \<Rightarrow> int \<Rightarrow> int \<Rightarrow> bool" where
  "mask_loop [] _ mbits bitsChecked = True"
| "mask_loop (ipSegment # ips) subs mbits bitsChecked =
     (if bitsChecked \<ge> mbits then True
      else let subnetSegment = (case subs of [] \<Rightarrow> ''0'' | s # _ \<Rightarrow> s);
               ipValue = to_int32 (parse_hex ipSegment);
               subnetValue = to_int32 (parse_hex subnetSegment);
               bitsToCheck = min IPV6_SEGMENT_BITS (mbits - bitsChecked);
               bitMask = shl32 IPV6_SEGMENT_MAX_VALUE (IPV6_SEGMENT_BITS - bitsToCheck) AND IPV6_SEGMENT_MAX_VALUE
           in if ipValue AND bitMask \<noteq> subnetValue AND bitMask then False
              else mask_loop ips (tl subs) mbits (bitsChecked + IPV6_SEGMENT_BITS))"

definition ipv6MatchesMask :: "string \<Rightarrow> string \<Rightarrow> int \<Rightarrow> bool" where
  "ipv6MatchesMask ip subnet mbits = mask_loop (split_on CHR '':'' ip) (split_on CHR '':'' subnet) mbits 0"

definition isIpv6InCidr :: "string \<Rightarrow> string \<Rightarrow> bool" where
  "isIpv6InCidr ip subnet =
     (case parseIpv6Cidr subnet of
        None \<Rightarrow> False
      | Some (base, mbits) \<Rightarrow>
          ipv6MatchesMask (normalizeIpv6Address (to_lower ip)) (normalizeIpv6Address (to_lower base)) mbits)"

definition matchesExactIp :: "string \<Rightarrow> string \<Rightarrow> bool" where
  "matchesExactIp ip subnet \<longleftrightarrow> subnet = ip"

definition matchesIpv4Wildcard :: "string \<Rightarrow> string \<Rightarrow> bool" where
  "matchesIpv4Wildcard ip subnet =
     (if \<not> str_includes subnet ''*'' then False
      else let ipOctets = split_on CHR ''.'' ip; subnetOctets = split_on CHR ''.'' subnet
           in if length ipOctets \<noteq> 4 \<or> length subnetOctets \<noteq> 4 then False
              else list_all2 (\<lambda>s i. s = ''*'' \<or> s = i) subnetOctets ipOctets)"

definition matchesCidrSubnet :: "string \<Rightarrow> string \<Rightarrow> bool \<Rightarrow> bool \<Rightarrow> bool" where
  "matchesCidrSubnet ip subnet isIpv4 isIpv6 =
     (if \<not> str_includes subnet ''/'' then False
      else if isIpv4 \<and> str_includes subnet ''.'' then isIpv4InCidr ip subnet
      else if isIpv6 \<and> str_includes subnet '':'' then isIpv6InCidr ip subnet
      else False)"

definition getIpVersion :: "string \<Rightarrow> bool \<times> bool" where
  "getIpVersion ip = (isIPv4 ip, \<not> isIPv4 ip \<and> isIPv6 ip)"

definition isIpInSubnets :: "string \<Rightarrow> string list \<Rightarrow> bool" where
  "isIpInSubnets ip allowedSubnets =
     (if allowedSubnets = [] then True
      else let (isIpv4, isIpv6) = getIpVersion ip
           in list_ex (\<lambda>subnet. matchesExactIp ip subnet \<or> matchesCidrSubnet ip subnet isIpv4 isIpv6
                        \<or> isIpv4 \<and> matchesIpv4Wildcard ip subnet) allowedSubnets)"

definition validateConnectionWithDns :: "(string \<Rightarrow> string + string list) \<Rightarrow> string \<Rightarrow> string list option \<Rightarrow> string + bool" where
  "validateConnectionWithDns lookup host allowedSubnets =
     (case allowedSubnets of
        None \<Rightarrow> Inr True
      | Some subnets \<Rightarrow>
          if subnets = [] then Inr True
          else case resolveHostname lookup host of
                 Inl e \<Rightarrow> Inl e
               | Inr addresses \<Rightarrow> Inr (list_ex (\<lambda>ip. isIpInSubnets ip subnets) addresses))"

section \<open>Addresses as numbers\<close>

text \<open>The number a list of groups to the base \<open>B\<close> stands for, most significant group first.\<close>

definition addr_val :: "nat \<Rightarrow> nat list \<Rightarrow> nat" where
  "addr_val B gs = foldl (\<lambda>n g. B * n + g) 0 gs"

definition hex_val :: "string \<Rightarrow> nat" where
  "hex_val ds = foldl (\<lambda>n c. 16 * n + hex_digit c) 0 ds"

lemma hex_int_val: "hex_int ds = int (hex_val ds)"
  by (induction ds rule: rev_induct) (simp_all add: hex_int_def hex_val_def)

definition dotted :: "nat list \<Rightarrow> string" where
  "dotted os = join_with ''.'' (map show_nat os)"

text \<open>An IPv6 text: eight groups, or groups before and after \<open>::\<close>.\<close>

type_synonym ipv6_text = "string list \<times> string list option"

fun text6 :: "ipv6_text \<Rightarrow> string" where
  "text6 (l, None) = join_with '':'' l"
| "text6 (l, Some r) = join_with '':'' l @ ''::'' @ join_with '':'' r"

fun wf6 :: "ipv6_text \<Rightarrow> bool" where
  "wf6 (l, None) \<longleftrightarrow> list_all ipv6_group l \<and> length l = 8"
| "wf6 (l, Some r) \<longleftrightarrow> list_all ipv6_group l \<and> list_all ipv6_group r \<and> length l + length r < 8"

fun groups6 :: "ipv6_text \<Rightarrow> nat list" where
  "groups6 (l, None) = map hex_val l"
| "groups6 (l, Some r) = map hex_val l @ replicate (8 - length l - length r) 0 @ map hex_val r"

definition addr6 :: "ipv6_text \<Rightarrow> nat" where
  "addr6 t = addr_val 65536 (groups6 t)"

definition cidr :: "string \<Rightarrow> nat \<Rightarrow> string" where
  "cidr base m = base @ CHR ''/'' # show_nat m"

section \<open>Masks and prefixes\<close>

lemma mask_prefix_iff:
  fixes u v :: "'a::len word"
  shows "u AND NOT (mask j) = v AND NOT (mask j) \<longleftrightarrow> drop_bit j u = drop_bit j v"
proof
  assume a: "u AND NOT (mask j) = v AND NOT (mask j)"
  show "drop_bit j u = drop_bit j v"
  proof (rule bit_word_eqI)
    fix n assume "n < LENGTH('a)"
    from a have "bit (u AND NOT (mask j)) (j + n) = bit (v AND NOT (mask j)) (j + n)" by simp
    then show "bit (drop_bit j u) n = bit (drop_bit j v) n"
      by (auto simp: bit_simps dest: bit_imp_le_length)
  qed
next
  assume a: "drop_bit j u = drop_bit j v"
  show "u AND NOT (mask j) = v AND NOT (mask j)"
  proof (rule bit_word_eqI)
    fix n assume "n < LENGTH('a)"
    show "bit (u AND NOT (mask j)) n = bit (v AND NOT (mask j)) n"
    proof (cases "j \<le> n")
      case True
      from a have "bit (drop_bit j u) (n - j) = bit (drop_bit j v) (n - j)" by simp
      with True show ?thesis by (simp add: bit_simps)
    qed (simp add: bit_simps)
  qed
qed

lemma drop_of_nat_iff:
  assumes "x < 2 ^ LENGTH('a)" "y < 2 ^ LENGTH('a)"
  shows "drop_bit j (of_nat x :: 'a::len word) = drop_bit j (of_nat y) \<longleftrightarrow> x div 2 ^ j = y div 2 ^ j"
proof -
  have "unat (drop_bit j w) = unat w div 2 ^ j" for w :: "'a word"
    by (simp add: unat_drop_bit_eq flip: drop_bit_eq_div)
  with assms show ?thesis by (simp add: word_unat_eq_iff unat_of_nat)
qed

section \<open>IPv4\<close>

lemma ip_reduce_octets:
  assumes "a < 256" "b < 256" "c < 256" "d < 256"
  shows "(word_of_int (ip_reduce 0 (map show_nat [a, b, c, d]) 0) :: 32 word) = of_nat (addr_val 256 [a, b, c, d])"
proof -
  have nn: "\<not> int n < 0 \<and> \<not> int n > 255" if "n < 256" for n :: nat using that by simp
  show ?thesis using assms nn
    by (simp add: parse_show_nat shl32_def addr_val_def push_bit_eq_mult)
qed

lemma dotted_split: "os \<noteq> [] \<Longrightarrow> split_on CHR ''.'' (dotted os) = map show_nat os"
proof -
  assume "os \<noteq> []"
  moreover have "CHR ''.'' \<notin> set (show_nat n)" for n
    using show_nat_digits [of n] by (auto simp: list_all_iff is_digit_def code_def)
  ultimately show ?thesis unfolding dotted_def by (intro split_on_join) auto
qed

lemma show_nat_plain: "c \<in> set (show_nat n) \<Longrightarrow> is_digit c"
  using show_nat_digits [of n] by (auto simp: list_all_iff)

lemma parseCidr_cidr:
  assumes "CHR ''/'' \<notin> set base" and "int m \<le> mx"
  shows "parseCidr mx (cidr base m) = Some (base, int m)"
proof -
  have "CHR ''/'' \<notin> set (show_nat m)" by (auto dest!: show_nat_plain simp: is_digit_def code_def)
  with assms have "split_on CHR ''/'' (cidr base m) = [base, show_nat m]"
    by (simp add: cidr_def split_on_append split_on_plain)
  with assms show ?thesis by (simp add: parseCidr_def parse_show_nat)
qed

lemma join_chars: "c \<in> set (join_with sep xs) \<Longrightarrow> c \<in> set sep \<or> (\<exists>x\<in>set xs. c \<in> set x)"
  by (induction sep xs rule: join_with.induct) auto

lemma dotted_chars: "c \<in> set (dotted os) \<Longrightarrow> c = CHR ''.'' \<or> is_digit c"
  by (auto simp: dotted_def dest!: join_chars show_nat_plain)

lemma addr_val_4: "a < 256 \<Longrightarrow> b < 256 \<Longrightarrow> c < 256 \<Longrightarrow> d < 256 \<Longrightarrow> addr_val 256 [a, b, c, d] < 2 ^ 32"
  by (simp add: addr_val_def)

lemma list4: "length xs = 4 \<Longrightarrow> \<exists>a b c d. xs = [a, b, c, d]"
  by (auto simp: numeral_eq_Suc length_Suc_conv)

lemma ipToInt_dotted:
  assumes "length os = 4" "\<forall>n\<in>set os. n < 256"
  shows "(word_of_int (ipToInt (dotted os)) :: 32 word) = of_nat (addr_val 256 os)" "addr_val 256 os < 2 ^ 32"
proof -
  from list4 [OF assms(1)] obtain a b c d where o: "os = [a, b, c, d]" by blast
  show "(word_of_int (ipToInt (dotted os)) :: 32 word) = of_nat (addr_val 256 os)"
    using assms ip_reduce_octets [of a b c d] dotted_split [of os]
    by (simp add: o ipToInt_def Let_def del: ip_reduce.simps)
  show "addr_val 256 os < 2 ^ 32" using assms addr_val_4 by (simp add: o)
qed

lemma ipv4_cidr_prefix:
  assumes "length xs = 4" "\<forall>n\<in>set xs. n < 256" "length ys = 4" "\<forall>n\<in>set ys. n < 256" "1 \<le> m" "m \<le> 32"
  shows "isIpv4InCidr (dotted xs) (cidr (dotted ys) m) \<longleftrightarrow>
    addr_val 256 xs div 2 ^ (32 - m) = addr_val 256 ys div 2 ^ (32 - m)"
proof -
  have "CHR ''/'' \<notin> set (dotted ys)" by (auto dest!: dotted_chars simp: is_digit_def code_def)
  then have p: "parseCidr IPV4_MAX_MASK_BITS (cidr (dotted ys) m) = Some (dotted ys, int m)"
    using assms by (intro parseCidr_cidr) (auto simp: IPV4_MAX_MASK_BITS_def)
  have "(32 - int m) mod 32 = 32 - int m" using assms by (intro mod_pos_pos_trivial) auto
  then have n: "nat ((32 - int m) mod 32) = 32 - m" by linarith
  have "IPV4_FULL_MASK = - 1" by (simp add: IPV4_FULL_MASK_def)
  then have s: "shl32 IPV4_FULL_MASK (IPV4_MAX_MASK_BITS - int m) = NOT (mask (32 - m))"
    unfolding shl32_def IPV4_MAX_MASK_BITS_def n by (metis push_bit_minus_one_eq_not_mask)
  show ?thesis unfolding isIpv4InCidr_def p
    using ipToInt_dotted [OF assms(1,2)] ipToInt_dotted [OF assms(3,4)]
    by (simp add: s mask_prefix_iff drop_of_nat_iff)
qed

lemma show_nat_hd: "length (show_nat n) = 1 \<or> hd (show_nat n) \<noteq> CHR ''0''"
proof (induction n rule: show_nat.induct)
  case (1 n)
  show ?case
  proof (cases "n < 10")
    case True
    then show ?thesis by (subst (1 2) show_nat.simps) simp
  next
    case False
    have "hd (show_nat k) \<noteq> CHR ''0''" if "1 \<le> k" "k < 10" for k
    proof
      assume "hd (show_nat k) = CHR ''0''"
      with that have "char_of (48 + k) = CHR ''0''" by (simp add: show_nat.simps)
      then have "(of_char (char_of (48 + k)) :: nat) = of_char CHR ''0''" by (rule arg_cong)
      with that show False by simp
    qed
    note small = this [of "n div 10"]
    have "length (show_nat k) \<noteq> 1" if "\<not> k < 10" for k
      using that show_nat_digits [of "k div 10"] by (subst show_nat.simps) (cases "show_nat (k div 10)", simp_all)
    with small False have "hd (show_nat (n div 10)) \<noteq> CHR ''0''"
      using 1 by (cases "n div 10 < 10") auto
    with False show_nat_digits [of "n div 10"] show ?thesis by (subst (1 2) show_nat.simps) simp
  qed
qed

lemma isIPv4_dotted:
  assumes "length os = 4" "\<forall>n\<in>set os. n < 256"
  shows "isIPv4 (dotted os)"
proof -
  have "ipv4_octet (show_nat n)" if "n < 256" for n
    using show_nat_digits [of n] that show_nat_hd [of n] by (auto simp: ipv4_octet_def)
  moreover have "os \<noteq> []" using assms by auto
  ultimately show ?thesis using assms by (auto simp: isIPv4_def dotted_split list_all_iff)
qed

section \<open>IPv6\<close>

lemma hex_val_bound: "list_all is_hex s \<Longrightarrow> hex_val s < 16 ^ length s"
proof (induction s rule: rev_induct)
  case (snoc c s)
  have "hex_digit c < 16" using snoc.prems by (auto simp: is_hex_def is_digit_def hex_digit_def)
  with snoc show ?case by (simp add: hex_val_def)
qed (simp add: hex_val_def)

lemma group_val_bound: "ipv6_group g \<Longrightarrow> hex_val g < 65536"
proof -
  assume g: "ipv6_group g"
  have "hex_val g < 16 ^ length g" using g by (simp add: ipv6_group_def hex_val_bound)
  also have "\<dots> \<le> 16 ^ 4" using g by (intro power_increasing) (auto simp: ipv6_group_def)
  finally show ?thesis by simp
qed

lemma hex_lower: "is_hex c \<Longrightarrow> is_hex (char_lower c) \<and> hex_digit (char_lower c) = hex_digit c"
  by (auto simp: is_hex_def is_digit_def hex_digit_def char_lower_def is_upper_def code_def)

lemma group_lower: "ipv6_group g \<Longrightarrow> ipv6_group (to_lower g) \<and> hex_val (to_lower g) = hex_val g"
proof -
  have "foldl (\<lambda>n c. 16 * n + hex_digit c) k (map char_lower g) = foldl (\<lambda>n c. 16 * n + hex_digit c) k g"
    if "list_all is_hex g" for k
    using that by (induction g arbitrary: k) (auto simp: hex_lower)
  then show "ipv6_group g \<Longrightarrow> ?thesis"
    by (auto simp: ipv6_group_def to_lower_def hex_val_def list_all_iff hex_lower)
qed

lemma hex_char: "is_hex c \<Longrightarrow> \<not> is_space c \<and> c \<notin> {CHR ''-'', CHR ''+'', CHR '':'', CHR ''.'', CHR ''/'', CHR ''%'', CHR ''*'', CHR ''x'', CHR ''X''}"
  by (auto simp: is_hex_def is_digit_def is_space_def code_def)

lemma hex_val_pad: "hex_val (padStart n CHR ''0'' g) = hex_val g"
proof -
  have "foldl (\<lambda>n c. 16 * n + hex_digit c) 0 (replicate k CHR ''0'') = 0" for k
    by (induction k) (simp_all add: hex_digit_def is_digit_def code_def)
  then show ?thesis by (simp add: hex_val_def padStart_def)
qed

lemma parse_hex_plain:
  assumes "list_all is_hex s" and "s \<noteq> []"
  shows "parse_hex s = Some (int (hex_val s))"
proof -
  obtain c cs where s: "s = c # cs" using assms by (cases s) auto
  have "\<not> starts_with s ''0x''" "\<not> starts_with s ''0X''"
    using assms hex_char by (cases cs; fastforce simp: s starts_with_def)+
  moreover have "takeWhile is_hex s = s" using assms by (simp add: list_all_iff takeWhile_eq_all_conv)
  moreover have "\<not> is_space c \<and> c \<noteq> CHR ''-'' \<and> c \<noteq> CHR ''+''" using assms s hex_char [of c] by auto
  ultimately show ?thesis by (simp add: parse_hex_def trim_start_def Let_def s hex_int_val)
qed

lemma pad_hex: "ipv6_group g \<Longrightarrow> list_all is_hex (padStart 4 CHR ''0'' g) \<and> padStart 4 CHR ''0'' g \<noteq> []"
  by (auto simp: padStart_def ipv6_group_def list_all_iff is_hex_def is_digit_def code_def)

lemma parse_group: "ipv6_group g \<Longrightarrow> to_int32 (parse_hex (padStart 4 CHR ''0'' g)) = of_nat (hex_val g)"
  using pad_hex parse_hex_plain [of "padStart 4 CHR ''0'' g"] by (simp add: to_int32_def hex_val_pad)

text \<open>The mask of a segment compares its upper bits.\<close>

lemma segment_mask:
  assumes "x < 65536" "y < 65536" "1 \<le> k" "k \<le> 16"
  defines "bm \<equiv> shl32 IPV6_SEGMENT_MAX_VALUE (IPV6_SEGMENT_BITS - int k) AND IPV6_SEGMENT_MAX_VALUE"
  shows "(of_nat x AND bm = of_nat y AND bm) \<longleftrightarrow> x div 2 ^ (16 - k) = y div 2 ^ (16 - k)"
proof -
  have "(16 - int k) mod 32 = 16 - int k" using assms by (intro mod_pos_pos_trivial) auto
  then have n: "nat ((16 - int k) mod 32) = 16 - k" by linarith
  have m: "IPV6_SEGMENT_MAX_VALUE = mask 16" by (simp add: IPV6_SEGMENT_MAX_VALUE_def mask_eq_exp_minus_1)
  have b: "bm = mask 16 AND NOT (mask (16 - k))"
    unfolding bm_def shl32_def m IPV6_SEGMENT_BITS_def n
    by (rule bit_word_eqI) (auto simp: bit_simps)
  have t: "of_nat z AND bm = of_nat z AND NOT (mask (16 - k))" if "z < 65536" for z
  proof -
    have "of_nat z AND (mask 16 :: 32 word) = of_nat (z mod 65536)"
      unfolding take_bit_eq_mask [symmetric] take_bit_of_nat by (simp add: take_bit_eq_mod)
    then show ?thesis unfolding b using that by (simp flip: and.assoc)
  qed
  have "x < 2 ^ LENGTH(32)" "y < 2 ^ LENGTH(32)" using assms by simp_all
  then show ?thesis unfolding t [OF assms(1)] t [OF assms(2)] mask_prefix_iff
    by (rule drop_of_nat_iff)
qed

lemma addr_val_Cons: "addr_val B (g # gs) = g * B ^ length gs + addr_val B gs"
proof -
  have "foldl (\<lambda>n g. B * n + g) k gs = k * B ^ length gs + foldl (\<lambda>n g. B * n + g) 0 gs" for k
  proof (induction gs arbitrary: k)
    case (Cons x gs)
    from Cons [of "B * k + x"] Cons [of x] show ?case by (simp add: algebra_simps)
  qed simp
  from this [of g] show ?thesis by (simp add: addr_val_def)
qed

lemma addr_val_bound: "\<forall>g\<in>set gs. g < B \<Longrightarrow> 0 < B \<Longrightarrow> addr_val B gs < B ^ length gs"
proof (induction gs)
  case (Cons g gs)
  then have "g * B ^ length gs + addr_val B gs < (g + 1) * B ^ length gs" by simp
  also have "\<dots> \<le> B * B ^ length gs" using Cons.prems by (intro mult_le_mono1) auto
  finally show ?case by (simp add: addr_val_Cons)
qed (simp add: addr_val_def)

lemma pow16: "(65536 :: nat) ^ n = 2 ^ (16 * n)"
  by (simp add: power_mult)

text \<open>The prefix of \<open>16 * n + k\<close> bits of a group list is its first group and the rest.\<close>

lemma prefix_Cons:
  assumes "x < 65536" "y < 65536" "length xs = n" "length ys = n"
    "\<forall>g\<in>set xs. g < 65536" "\<forall>g\<in>set ys. g < 65536" "m \<le> 16 * Suc n"
  shows "addr_val 65536 (x # xs) div 2 ^ (16 * Suc n - m) = addr_val 65536 (y # ys) div 2 ^ (16 * Suc n - m) \<longleftrightarrow>
    x div 2 ^ (16 - min 16 m) = y div 2 ^ (16 - min 16 m)
    \<and> (16 < m \<longrightarrow> addr_val 65536 xs div 2 ^ (16 * n - (m - 16)) = addr_val 65536 ys div 2 ^ (16 * n - (m - 16)))"
proof -
  have b: "addr_val 65536 xs < 2 ^ (16 * n)" "addr_val 65536 ys < 2 ^ (16 * n)"
    using addr_val_bound [of xs 65536] addr_val_bound [of ys 65536] assms by (simp_all add: pow16)
  show ?thesis
  proof (cases "16 < m")
    case False
    then have "16 + 16 * n - m = 16 * n + (16 - m)" by simp
    then have e: "(z * 2 ^ (16 * n) + v) div 2 ^ (16 + 16 * n - m) = z div 2 ^ (16 - m)" if "v < 2 ^ (16 * n)" for z v :: nat
      using that by (simp add: power_add div_mult2_eq)
    from False b show ?thesis by (simp add: addr_val_Cons assms pow16 e min_def)
  next
    case True
    define j where "j = 16 * n - (m - 16)"
    define q where "q = m - 16"
    have mj: "16 + 16 * n - m = j" "16 * n = q + j" using True assms(7) by (simp_all add: j_def q_def)
    have e: "(z * 2 ^ (16 * n) + v) div 2 ^ j = z * 2 ^ q + v div 2 ^ j" for z v :: nat
    proof -
      have p: "(2 :: nat) ^ (16 * n) = 2 ^ q * 2 ^ j" by (simp only: mj(2) power_add)
      show ?thesis unfolding p mult.assoc [symmetric] by simp
    qed
    have l: "v div 2 ^ j < 2 ^ q" if "v < 2 ^ (16 * n)" for v :: nat
      using that by (simp add: mj(2) power_add less_mult_imp_div_less)
    have i: "x * 2 ^ q + v = y * 2 ^ q + w \<longleftrightarrow> x = y \<and> v = w" if "v < 2 ^ q" "w < 2 ^ q" for v w :: nat
    proof
      assume a: "x * 2 ^ q + v = y * 2 ^ q + w"
      have "(x * 2 ^ q + v) div 2 ^ q = x" "(y * 2 ^ q + w) div 2 ^ q = y" using that by simp_all
      with a show "x = y \<and> v = w" by (metis add_left_cancel)
    qed simp
    from True show ?thesis
      by (simp add: addr_val_Cons assms pow16 e mj(1) i [OF l [OF b(1)] l [OF b(2)]] flip: j_def)
  qed
qed

lemma mask_loop_prefix:
  assumes "list_all ipv6_group gs" "list_all ipv6_group hs" "length gs = length hs" "m \<le> 16 * length gs" "0 < m"
  shows "mask_loop (map (padStart 4 CHR ''0'') gs) (map (padStart 4 CHR ''0'') hs) (int (k + m)) (int k) \<longleftrightarrow>
    addr_val 65536 (map hex_val gs) div 2 ^ (16 * length gs - m) = addr_val 65536 (map hex_val hs) div 2 ^ (16 * length gs - m)"
  using assms
proof (induction gs arbitrary: hs k m)
  case (Cons g gs)
  obtain h hs' where h: "hs = h # hs'" and len: "length hs' = length gs" using Cons.prems(3) by (cases hs) auto
  have gb: "hex_val g < 65536" "hex_val h < 65536" using Cons.prems h group_val_bound by auto
  have lb: "\<forall>v\<in>set (map hex_val gs). v < 65536" "\<forall>v\<in>set (map hex_val hs'). v < 65536"
    using Cons.prems h group_val_bound by (auto simp: list_all_iff)
  define j where "j = min 16 m"
  have j: "1 \<le> j" "j \<le> 16" "min 16 (int m) = int j"
    using Cons.prems(5) by (auto simp: j_def)
  have "mask_loop (map (padStart 4 CHR ''0'') (g # gs)) (map (padStart 4 CHR ''0'') hs) (int (k + m)) (int k) \<longleftrightarrow>
      hex_val g div 2 ^ (16 - j) = hex_val h div 2 ^ (16 - j)
      \<and> mask_loop (map (padStart 4 CHR ''0'') gs) (map (padStart 4 CHR ''0'') hs') (int (k + m)) (int k + 16)"
    using Cons.prems(1,2,5) segment_mask [OF gb j(1,2)]
    by (simp add: h j(3) parse_group Let_def IPV6_SEGMENT_BITS_def)
  also have "\<dots> \<longleftrightarrow> hex_val g div 2 ^ (16 - j) = hex_val h div 2 ^ (16 - j)
      \<and> (16 < m \<longrightarrow> addr_val 65536 (map hex_val gs) div 2 ^ (16 * length gs - (m - 16))
            = addr_val 65536 (map hex_val hs') div 2 ^ (16 * length gs - (m - 16)))"
  proof (cases "16 < m")
    case True
    then show ?thesis using Cons.IH [of hs' "m - 16" "k + 16"] Cons.prems h by simp
  next
    case False
    have "mask_loop ips subs (int (k + m)) (int k + 16)" for ips subs
      using False by (cases ips) auto
    with False show ?thesis by simp
  qed
  also have "\<dots> \<longleftrightarrow> addr_val 65536 (map hex_val (g # gs)) div 2 ^ (16 * length (g # gs) - m)
      = addr_val 65536 (map hex_val hs) div 2 ^ (16 * length (g # gs) - m)"
    using prefix_Cons [OF gb _ _ lb, of "length gs" m] len Cons.prems(4) by (simp add: h j_def)
  finally show ?case .
qed simp

text \<open>Texts.\<close>

fun no_pair :: "char \<Rightarrow> string \<Rightarrow> bool" where
  "no_pair c [] \<longleftrightarrow> True"
| "no_pair c [x] \<longleftrightarrow> True"
| "no_pair c (x # y # s) \<longleftrightarrow> \<not> (x = c \<and> y = c) \<and> no_pair c (y # s)"

lemma no_pair_append: "no_pair c a \<Longrightarrow> no_pair c b \<Longrightarrow> a = [] \<or> b = [] \<or> last a \<noteq> c \<or> hd b \<noteq> c \<Longrightarrow> no_pair c (a @ b)"
proof (induction c a rule: no_pair.induct)
  case (2 c x)
  then show ?case by (cases b) auto
qed auto

lemma no_pair_plain: "c \<notin> set s \<Longrightarrow> no_pair c s"
  by (induction c s rule: no_pair.induct) auto

lemma no_pair_join:
  assumes "\<forall>g\<in>set gs. g \<noteq> [] \<and> c \<notin> set g"
  shows "no_pair c (join_with [c] gs) \<and> (gs \<noteq> [] \<longrightarrow> join_with [c] gs \<noteq> [] \<and> hd (join_with [c] gs) \<noteq> c \<and> last (join_with [c] gs) \<noteq> c)"
  using assms
proof (induction "[c]" gs rule: join_with.induct)
  case (2 x)
  then show ?case using hd_in_set [of x] last_in_set [of x] by (auto simp: no_pair_plain)
next
  case (3 x y ys)
  let ?r = "join_with [c] (y # ys)"
  have r: "no_pair c ?r \<and> ?r \<noteq> [] \<and> hd ?r \<noteq> c \<and> last ?r \<noteq> c" using 3 by simp
  then have "no_pair c (c # ?r)" by (cases ?r) auto
  then have "no_pair c (x @ c # ?r)"
    using 3(2) last_in_set [of x] by (intro no_pair_append) (auto simp: no_pair_plain)
  then show ?case using r 3(2) hd_in_set [of x] by auto
qed simp

lemma no_pair_Cons: "no_pair c (x # s) \<Longrightarrow> no_pair c s"
  by (cases s) auto

lemma no_pair_includes: "no_pair c s \<Longrightarrow> \<not> str_includes s [c, c]"
proof -
  have "\<not> no_pair c (a @ [c, c] @ b)" for a b
    by (induction a) (auto dest: no_pair_Cons)
  then show "no_pair c s \<Longrightarrow> ?thesis" unfolding includes_iff by blast
qed

lemma split_pair_plain: "no_pair c s \<Longrightarrow> split_pair c s = [s]"
  by (induction c s rule: split_pair.induct) auto

lemma split_pair_at: "no_pair c s \<Longrightarrow> s = [] \<or> last s \<noteq> c \<Longrightarrow> split_pair c (s @ c # c # t) = s # split_pair c t"
  by (induction c s rule: split_pair.induct) auto

lemma not_hex: "\<not> is_hex CHR '':''" "\<not> is_hex CHR ''.''" "\<not> is_hex CHR ''/''" "\<not> is_hex CHR ''%''" "\<not> is_hex CHR ''*''"
  by code_simp+

lemma group_plain: "ipv6_group g \<Longrightarrow> g \<noteq> [] \<and> CHR '':'' \<notin> set g \<and> CHR ''.'' \<notin> set g \<and> CHR ''/'' \<notin> set g
    \<and> CHR ''%'' \<notin> set g \<and> CHR ''*'' \<notin> set g"
  using not_hex unfolding ipv6_group_def list_all_iff by fastforce

lemma groups_split:
  assumes "list_all ipv6_group gs"
  shows "filter (\<lambda>s. s \<noteq> []) (split_on CHR '':'' (join_with '':'' gs)) = gs"
proof (cases "gs = []")
  case False
  then have "split_on CHR '':'' (join_with '':'' gs) = gs"
    using assms group_plain by (intro split_on_join) (auto simp: list_all_iff)
  moreover have "filter (\<lambda>s. s \<noteq> []) gs = gs" using assms group_plain by (auto simp: list_all_iff intro!: filter_True)
  ultimately show ?thesis by simp
qed simp

lemma lower_join: "to_lower (join_with '':'' gs) = join_with '':'' (map to_lower gs)"
  by (induction "'':''" gs rule: join_with.induct) (auto simp: to_lower_def char_lower_def is_upper_def code_def)

fun full6 :: "ipv6_text \<Rightarrow> string list" where
  "full6 (l, None) = l"
| "full6 (l, Some r) = l @ replicate (8 - length l - length r) ''0'' @ r"

fun lower6 :: "ipv6_text \<Rightarrow> ipv6_text" where
  "lower6 (l, r) = (map to_lower l, map_option (map to_lower) r)"

lemma zero_group: "ipv6_group ''0''" and zero_val: "hex_val ''0'' = 0"
  by code_simp+

lemma full6_wf: "wf6 t \<Longrightarrow> list_all ipv6_group (full6 t) \<and> length (full6 t) = 8 \<and> groups6 t = map hex_val (full6 t)"
  by (cases t rule: groups6.cases) (auto simp: list_all_iff zero_group zero_val)

lemma lower6_wf: "wf6 t \<Longrightarrow> wf6 (lower6 t) \<and> groups6 (lower6 t) = groups6 t \<and> to_lower (text6 t) = text6 (lower6 t)"
proof (cases t rule: groups6.cases)
  case (2 l r)
  assume "wf6 t"
  have "to_lower (a @ ''::'' @ b) = to_lower a @ ''::'' @ to_lower b" for a b
    by (simp add: to_lower_def char_lower_def is_upper_def code_def)
  with \<open>wf6 t\<close> 2 show ?thesis by (auto simp: list_all_iff group_lower lower_join)
qed (auto simp: list_all_iff group_lower lower_join)

lemma groups_join:
  assumes "list_all ipv6_group gs"
  shows "no_pair CHR '':'' (join_with '':'' gs)" "gs \<noteq> [] \<Longrightarrow> last (join_with '':'' gs) \<noteq> CHR '':''"
    "join_with '':'' gs = [] \<longleftrightarrow> gs = []"
  using no_pair_join [of gs "CHR '':''"] assms group_plain by (auto simp: list_all_iff)

lemma split_text6:
  assumes "wf6 (l, Some r)"
  shows "split_pair CHR '':'' (text6 (l, Some r)) = [join_with '':'' l, join_with '':'' r]"
proof -
  have "split_pair CHR '':'' (join_with '':'' l @ CHR '':'' # CHR '':'' # join_with '':'' r)
      = join_with '':'' l # split_pair CHR '':'' (join_with '':'' r)"
    using assms groups_join [of l] by (intro split_pair_at) auto
  then show ?thesis using assms groups_join [of r] by (simp add: split_pair_plain)
qed

lemma normalize_text6:
  assumes "wf6 t"
  shows "normalizeIpv6Address (text6 t) = join_with '':'' (map (padStart 4 CHR ''0'') (full6 t))"
proof (cases t rule: groups6.cases)
  case (1 l)
  then have "split_on CHR '':'' (join_with '':'' l) = l"
    using assms group_plain by (intro split_on_join) (auto simp: list_all_iff)
  with 1 assms groups_join(1) [of l] no_pair_includes show ?thesis
    by (simp add: normalizeIpv6Address_def IPV6_SEGMENT_HEX_DIGITS_def)
next
  case (2 l r)
  then have "str_includes (text6 t) ''::''" by (auto simp: includes_iff)
  with 2 assms split_text6 [of l r] groups_split [of l] groups_split [of r] show ?thesis
    by (simp add: normalizeIpv6Address_def IPV6_SEGMENT_HEX_DIGITS_def IPV6_SEGMENT_COUNT_def Let_def)
qed

lemma text6_chars: "wf6 t \<Longrightarrow> c \<in> set (text6 t) \<Longrightarrow> c = CHR '':'' \<or> is_hex c"
proof (cases t rule: groups6.cases)
  case (1 l)
  then show "wf6 t \<Longrightarrow> c \<in> set (text6 t) \<Longrightarrow> ?thesis"
    by (auto simp: list_all_iff ipv6_group_def dest!: join_chars)
next
  case (2 l r)
  then show "wf6 t \<Longrightarrow> c \<in> set (text6 t) \<Longrightarrow> ?thesis"
    by (auto simp: list_all_iff ipv6_group_def dest!: join_chars)
qed

lemma parse_text6: "wf6 t \<Longrightarrow> m \<le> 128 \<Longrightarrow> parseIpv6Cidr (cidr (text6 t) m) = Some (text6 t, int m)"
  using text6_chars [of t "CHR ''/''"] not_hex
  unfolding parseIpv6Cidr_def by (intro parseCidr_cidr) (auto simp: IPV6_MAX_MASK_BITS_def)

lemma ipv6_cidr_prefix:
  assumes "wf6 s" "wf6 t" "m \<le> 128"
  shows "isIpv6InCidr (text6 s) (cidr (text6 t) m) \<longleftrightarrow> addr6 s div 2 ^ (128 - m) = addr6 t div 2 ^ (128 - m)"
proof (cases "m = 0")
  case True
  have "addr6 u < 2 ^ 128" if "wf6 u" for u
  proof -
    from full6_wf [OF that] have "\<forall>g\<in>set (groups6 u). g < 65536" "length (groups6 u) = 8"
      using group_val_bound by (auto simp: list_all_iff)
    from addr_val_bound [OF this(1)] this(2) show ?thesis by (simp add: addr6_def)
  qed
  then have "addr6 s div 2 ^ (128 - m) = addr6 t div 2 ^ (128 - m)" using assms True by simp
  moreover have "mask_loop ips subs 0 0" for ips subs by (cases ips) simp_all
  ultimately show ?thesis using True assms parse_text6 [OF assms(2,3)]
    by (simp add: isIpv6InCidr_def ipv6MatchesMask_def)
next
  case False
  note s = lower6_wf [OF assms(1)] and t = lower6_wf [OF assms(2)]
  note fs = full6_wf [OF conjunct1 [OF s]] and ft = full6_wf [OF conjunct1 [OF t]]
  have sp: "split_on CHR '':'' (join_with '':'' (map (padStart 4 CHR ''0'') gs)) = map (padStart 4 CHR ''0'') gs"
    if "list_all ipv6_group gs" "length gs = 8" for gs
  proof (rule split_on_join)
    show "\<forall>x\<in>set (map (padStart 4 CHR ''0'') gs). CHR '':'' \<notin> set x"
      using that(1) pad_hex not_hex(1) unfolding list_all_iff by fastforce
  qed (use that in auto)
  have "isIpv6InCidr (text6 s) (cidr (text6 t) m) \<longleftrightarrow>
      mask_loop (map (padStart 4 CHR ''0'') (full6 (lower6 s))) (map (padStart 4 CHR ''0'') (full6 (lower6 t))) (int (0 + m)) (int 0)"
    using parse_text6 [OF assms(2,3)] s t fs ft
    by (simp add: isIpv6InCidr_def ipv6MatchesMask_def normalize_text6 sp)
  also have "\<dots> \<longleftrightarrow> addr6 s div 2 ^ (128 - m) = addr6 t div 2 ^ (128 - m)"
    using fs ft s t assms(3) False mask_loop_prefix [of "full6 (lower6 s)" "full6 (lower6 t)" m 0] by (simp add: addr6_def)
  finally show ?thesis .
qed

section \<open>Hosts and networks\<close>

datatype ip_addr = V4 "nat list" | V6 ipv6_text

datatype network = Net ip_addr nat

fun ip_text :: "ip_addr \<Rightarrow> string" where
  "ip_text (V4 os) = dotted os"
| "ip_text (V6 t) = text6 t"

fun wf_ip :: "ip_addr \<Rightarrow> bool" where
  "wf_ip (V4 os) \<longleftrightarrow> length os = 4 \<and> list_all (\<lambda>n. n < 256) os"
| "wf_ip (V6 t) \<longleftrightarrow> wf6 t"

fun net_text :: "network \<Rightarrow> string" where
  "net_text (Net a m) = cidr (ip_text a) m"

fun wf_net :: "network \<Rightarrow> bool" where
  "wf_net (Net (V4 os) m) \<longleftrightarrow> wf_ip (V4 os) \<and> 1 \<le> m \<and> m \<le> 32"
| "wf_net (Net (V6 t) m) \<longleftrightarrow> wf_ip (V6 t) \<and> m \<le> 128"

text \<open>An address lies in a network when both have the same version and agree in the first \<open>m\<close> bits.\<close>

fun in_net :: "ip_addr \<Rightarrow> network \<Rightarrow> bool" where
  "in_net (V4 xs) (Net (V4 ys) m) \<longleftrightarrow> addr_val 256 xs div 2 ^ (32 - m) = addr_val 256 ys div 2 ^ (32 - m)"
| "in_net (V6 s) (Net (V6 t) m) \<longleftrightarrow> addr6 s div 2 ^ (128 - m) = addr6 t div 2 ^ (128 - m)"
| "in_net (V4 xs) (Net (V6 t) m) \<longleftrightarrow> False"
| "in_net (V6 s) (Net (V4 ys) m) \<longleftrightarrow> False"

lemma ip_groups:
  assumes "list_all ipv6_group gs"
  shows "ipv6_groups (join_with '':'' gs) = Some (length gs)"
proof (cases "gs = []")
  case False
  then have "split_on CHR '':'' (join_with '':'' gs) = gs"
    using assms group_plain by (intro split_on_join) (auto simp: list_all_iff)
  with assms False groups_join(3) [OF assms] show ?thesis by (simp add: ipv6_groups_def Let_def)
qed (simp add: ipv6_groups_def)

lemma text6_no_dot: "wf6 t \<Longrightarrow> CHR ''.'' \<notin> set (text6 t) \<and> CHR ''/'' \<notin> set (text6 t) \<and> CHR ''%'' \<notin> set (text6 t) \<and> CHR ''*'' \<notin> set (text6 t)"
  using text6_chars [of t] not_hex by fastforce

lemma isIPv6_text6:
  assumes "wf6 t"
  shows "isIPv6 (text6 t)" and "\<not> isIPv4 (text6 t)"
proof -
  show "\<not> isIPv4 (text6 t)" using text6_no_dot [OF assms] by (simp add: isIPv4_def split_on_plain)
  have z: "takeWhile (\<lambda>c. c \<noteq> CHR ''%'') (text6 t) = text6 t" "dropWhile (\<lambda>c. c \<noteq> CHR ''%'') (text6 t) = []"
    using text6_no_dot [OF assms] by (auto simp: takeWhile_eq_all_conv dropWhile_eq_Nil_conv)
  show "isIPv6 (text6 t)"
  proof (cases t rule: groups6.cases)
    case (1 l)
    with assms z groups_join(1) [of l] ip_groups [of l] show ?thesis
      unfolding isIPv6_def z Let_def by (simp add: split_pair_plain)
  next
    case (2 l r)
    have "CHR ''.'' \<notin> set (join_with '':'' l)" using 2 text6_no_dot [OF assms] by simp
    with 2 assms z split_text6 [of l r] ip_groups [of l] ip_groups [of r] show ?thesis
      unfolding isIPv6_def z Let_def by simp
  qed
qed

lemma digit_chars: "\<not> is_digit CHR '':''" "\<not> is_digit CHR ''.''" "\<not> is_digit CHR ''/''" "\<not> is_digit CHR ''*''"
  by code_simp+

lemma dotted_plain: "CHR '':'' \<notin> set (dotted os)" "CHR ''/'' \<notin> set (dotted os)" "CHR ''*'' \<notin> set (dotted os)"
  using dotted_chars [of _ os] digit_chars by fastforce+

lemma cidr_set: "set (cidr b m) = insert CHR ''/'' (set b \<union> set (show_nat m))"
  by (auto simp: cidr_def)

lemma dotted_has_dot: "length os = 4 \<Longrightarrow> CHR ''.'' \<in> set (dotted os)"
  using list4 [of os] by (auto simp: dotted_def)

lemma text6_has_colon: "wf6 t \<Longrightarrow> CHR '':'' \<in> set (text6 t)"
proof (cases t rule: groups6.cases)
  case (1 l)
  then show "wf6 t \<Longrightarrow> ?thesis" by (cases l; cases "tl l") auto
qed auto

lemma ip_text_not_net: "wf_ip ip \<Longrightarrow> CHR ''/'' \<notin> set (ip_text ip)"
  using dotted_plain text6_no_dot by (cases ip) auto

lemma net_plain: "wf_net net \<Longrightarrow> CHR ''*'' \<notin> set (net_text net) \<and> CHR ''/'' \<in> set (net_text net)"
proof -
  have "CHR ''*'' \<notin> set (show_nat m)" for m using show_nat_plain digit_chars by blast
  then show "wf_net net \<Longrightarrow> ?thesis"
    using dotted_plain(3) text6_no_dot by (cases net rule: wf_net.cases) (auto simp: cidr_set)
qed

lemma matches_net:
  assumes "wf_ip ip" "wf_net net"
  shows "matchesCidrSubnet (ip_text ip) (net_text net) (fst (getIpVersion (ip_text ip))) (snd (getIpVersion (ip_text ip))) \<longleftrightarrow> in_net ip net"
proof -
  have m: "c \<notin> set (show_nat m)" if "\<not> is_digit c" for c m using show_nat_plain that by blast
  have v4: "isIPv4 (dotted os)" if "wf_ip (V4 os)" for os using that by (intro isIPv4_dotted) (auto simp: list_all_iff)
  show ?thesis
  proof (cases "(ip, net)" rule: in_net.cases)
    case (1 xs ys m)
    then show ?thesis using assms v4 [of xs] dotted_has_dot [of ys] ipv4_cidr_prefix [of xs ys m]
      by (simp add: matchesCidrSubnet_def getIpVersion_def includes_char cidr_set list_all_iff)
  next
    case (2 s t m)
    then show ?thesis using assms isIPv6_text6 [of s] text6_no_dot [of t] text6_has_colon [of t] digit_chars m ipv6_cidr_prefix [of s t m]
      by (simp add: matchesCidrSubnet_def getIpVersion_def includes_char cidr_set)
  next
    case (3 xs t m)
    then show ?thesis using assms v4 [of xs] text6_no_dot [of t] digit_chars m
      by (simp add: matchesCidrSubnet_def getIpVersion_def includes_char cidr_set)
  next
    case (4 s ys m)
    then show ?thesis using assms isIPv6_text6 [of s] dotted_plain [of ys] digit_chars m
      by (simp add: matchesCidrSubnet_def getIpVersion_def includes_char cidr_set)
  qed
qed

lemma in_subnets_iff:
  assumes "wf_ip ip" "\<forall>net\<in>set nets. wf_net net" "nets \<noteq> []"
  shows "isIpInSubnets (ip_text ip) (map net_text nets) \<longleftrightarrow> (\<exists>net\<in>set nets. in_net ip net)"
proof -
  obtain v4 v6 where v: "getIpVersion (ip_text ip) = (v4, v6)" by fastforce
  have "matchesExactIp (ip_text ip) (net_text net) \<or> matchesCidrSubnet (ip_text ip) (net_text net) v4 v6
      \<or> v4 \<and> matchesIpv4Wildcard (ip_text ip) (net_text net) \<longleftrightarrow> in_net ip net" if "net \<in> set nets" for net
  proof -
    have "\<not> matchesExactIp (ip_text ip) (net_text net)"
      using ip_text_not_net [OF assms(1)] net_plain [of net] assms(2) that by (auto simp: matchesExactIp_def)
    moreover have "\<not> matchesIpv4Wildcard (ip_text ip) (net_text net)"
      using net_plain [of net] assms(2) that by (simp add: matchesIpv4Wildcard_def includes_char)
    ultimately show ?thesis using matches_net [OF assms(1), of net] assms(2) that v by simp
  qed
  then show ?thesis using assms(3) by (simp add: isIpInSubnets_def v list_ex_iff)
qed


definition demo_lookup :: "string \<Rightarrow> string + string list" where
  "demo_lookup host = (if host = ''db'' then Inr [''192.168.7.9'', ''fd::5''] else Inl ''ENOTFOUND'')"


section \<open>Corners\<close>

text \<open>The mask of \<open>/0\<close> is shifted by 32, which JavaScript takes modulo 32: the network of all addresses
  only contains its base.\<close>

lemma ipv4_zero_prefix: "isIpInSubnets ''0.0.0.0'' [''0.0.0.0/0'']" "\<not> isIpInSubnets ''10.0.0.1'' [''0.0.0.0/0'']"
  by code_simp+

text \<open>An octet that does not parse resets the sum: a mistyped network admits addresses of another one.\<close>

lemma mistyped_network: "isIpInSubnets ''0.0.0.7'' [''10.x.0.0/24'']"
  by code_simp

text \<open>A mapped IPv4 address is expanded to seven segments: the network of mapped addresses misses it.\<close>

lemma mapped_address_missed: "isIPv6 ''::ffff:10.0.0.1'' \<and> \<not> isIpInSubnets ''::ffff:10.0.0.1'' [''::ffff:0:0/96'']"
  by code_simp

text \<open>One admitted address is enough; the connection that follows resolves the name again.\<close>

lemma one_address_admits:
  assumes "resolveHostname lookup host = Inr (a # as)" "isIpInSubnets a nets"
  shows "validateConnectionWithDns lookup host (Some nets) = Inr True"
  using assms by (simp add: validateConnectionWithDns_def)


end
