(* ===== verification/Credentials.thy ===== *)
theory Credentials
  imports JS_Values
begin

text \<open>
  Credentials and the policy on authentication methods: the parser of the allowed methods
  (\<open>config/auth-method-parser.ts\<close>), the policy (\<open>auth/auth-method-policy.ts\<close>), the shape tests
  (\<open>validation/credentials.ts\<close>), the extraction of stored credentials
  (\<open>utils/credential-extractor.ts\<close>) and the classification of connection errors
  (\<open>connection/ssh-validator.ts\<close>).
\<close>

section \<open>Allowed methods\<close>

datatype auth_token = PasswordToken | PublickeyToken | KeyboardInteractiveToken

definition AUTH_METHOD_TOKENS :: "(string \<times> auth_token) list" where
  "AUTH_METHOD_TOKENS = [(''password'', PasswordToken), (''keyboard-interactive'', KeyboardInteractiveToken),
     (''publickey'', PublickeyToken)]"

definition DEFAULT_AUTH_METHODS :: "string list" where
  "DEFAULT_AUTH_METHODS = [''password'', ''keyboard-interactive'', ''publickey'']"

definition isKnownToken :: "string \<Rightarrow> bool" where
  "isKnownToken v \<longleftrightarrow> map_get AUTH_METHOD_TOKENS v \<noteq> None"

definition normalizeToken :: "string \<Rightarrow> string" where
  "normalizeToken v = to_lower (trim v)"

fun resolve_loop :: "string list \<Rightarrow> auth_token list \<Rightarrow> string list \<Rightarrow> auth_token list \<times> string list" where
  "resolve_loop [] resolved warned = (resolved, warned)"
| "resolve_loop (rawToken # raws) resolved warned =
     (let normalized = normalizeToken rawToken
      in case map_get AUTH_METHOD_TOKENS normalized of
           None \<Rightarrow> resolve_loop raws resolved
                     (if normalized \<notin> set warned \<and> normalized \<noteq> [] then warned @ [normalized] else warned)
         | Some t \<Rightarrow> resolve_loop raws (if t \<in> set resolved then resolved else resolved @ [t]) warned)"

definition candidates :: "string list option \<Rightarrow> string list option \<Rightarrow> string list" where
  "candidates rawValues defaultMethods =
     (case rawValues of Some r \<Rightarrow> r
      | None \<Rightarrow> (case defaultMethods of Some d \<Rightarrow> d | None \<Rightarrow> DEFAULT_AUTH_METHODS))"

definition resolveAllowedAuthMethods :: "string list option \<Rightarrow> string list option \<Rightarrow>
    (string, auth_token list \<times> string list) result" where
  "resolveAllowedAuthMethods rawValues defaultMethods =
     (let (resolved, warnings) = resolve_loop (candidates rawValues defaultMethods) [] []
      in if resolved = [] then err ''empty-allow-list'' else ok (resolved, warnings))"

section \<open>Policy\<close>

record policy_context =
  pcPassword :: jsval
  pcPrivateKey :: jsval
  pcRequestedKeyboardInteractive :: bool

definition hasCredential :: "jsval \<Rightarrow> bool" where
  "hasCredential v = (case v of JStr s \<Rightarrow> trim s \<noteq> [] | _ \<Rightarrow> False)"

definition dedupePreserveOrder :: "auth_token list \<Rightarrow> auth_token list" where
  "dedupePreserveOrder methods = fold (\<lambda>m result. if m \<in> set result then result else result @ [m]) methods []"

definition resolveRequestedAuthMethods :: "policy_context \<Rightarrow> auth_token list" where
  "resolveRequestedAuthMethods c = dedupePreserveOrder
     ((if hasCredential (pcPassword c) then [PasswordToken] else [])
      @ (if hasCredential (pcPrivateKey c) then [PublickeyToken] else [])
      @ (if pcRequestedKeyboardInteractive c then [KeyboardInteractiveToken] else []))"

definition evaluateAuthMethodPolicy :: "auth_token list \<Rightarrow> policy_context \<Rightarrow> (auth_token, auth_token list) result" where
  "evaluateAuthMethodPolicy allowed c =
     (let requested = resolveRequestedAuthMethods c
      in if requested = [] then ok requested
         else case List.find (\<lambda>m. m \<notin> set allowed) requested of
                Some m \<Rightarrow> err m
              | None \<Rightarrow> ok requested)"

definition isAuthMethodAllowed :: "auth_token list \<Rightarrow> auth_token \<Rightarrow> bool" where
  "isAuthMethodAllowed allowed m = list_ex (\<lambda>a. a = m) allowed"

section \<open>The shape of credentials\<close>

fun is_string :: "jsval \<Rightarrow> bool" where
  "is_string (JStr _) = True"
| "is_string _ = False"

fun is_number :: "jsval \<Rightarrow> bool" where
  "is_number (JNum _) = True"
| "is_number _ = False"

text \<open>\<open>key in o\<close> for an object of a parsed message; arrays have no such keys.\<close>

fun has_key :: "jsval \<Rightarrow> string \<Rightarrow> bool" where
  "has_key (JObj m) k = (map_get m k \<noteq> None)"
| "has_key _ k = False"

definition isValidCredentials :: "jsval \<Rightarrow> bool" where
  "isValidCredentials creds =
     (if nullish creds then False
      else if \<not> (is_string (jget creds ''username'') \<and> is_string (jget creds ''host'') \<and> is_number (jget creds ''port''))
      then False
      else (is_string (jget creds ''password'') \<or> is_string (jget creds ''privateKey''))
           \<and> (\<not> has_key creds ''passphrase'' \<or> is_string (jget creds ''passphrase'')))"

definition isCredentialRecord :: "jsval \<Rightarrow> bool" where
  "isCredentialRecord v \<longleftrightarrow> v \<noteq> JNull \<and> is_object v"

definition isNonEmptyString :: "jsval \<Rightarrow> bool" where
  "isNonEmptyString v \<longleftrightarrow> is_string v \<and> v \<noteq> JStr []"

definition validateUsername :: "jsval \<Rightarrow> string list" where
  "validateUsername r =
     (if \<not> is_string (jget r ''username'') then [''Username is required and must be a string'']
      else if jget r ''username'' = JStr [] then [''Username cannot be empty''] else [])"

definition validateHost :: "jsval \<Rightarrow> string list" where
  "validateHost r =
     (if \<not> is_string (jget r ''host'') then [''Host is required and must be a string'']
      else if jget r ''host'' = JStr [] then [''Host cannot be empty''] else [])"

text \<open>A port given as text is parsed; \<open>NaN\<close> fails every test of the range.\<close>

definition port_candidate :: "jsval \<Rightarrow> jsval" where
  "port_candidate v = (case v of JStr s \<Rightarrow> JNum (parse_number s) | _ \<Rightarrow> v)"

definition validatePort :: "jsval \<Rightarrow> string list" where
  "validatePort r =
     (if jget r ''port'' = JUndefined then []
      else case port_candidate (jget r ''port'') of
             JNum x \<Rightarrow> if x = NaN \<or> num_less x 1 \<or> num_greater x 65535
                         then [''Port must be a number between 1 and 65535''] else []
           | _ \<Rightarrow> [''Port must be a number between 1 and 65535''])"

definition validateAuthentication :: "jsval \<Rightarrow> string list" where
  "validateAuthentication r =
     (if \<not> isNonEmptyString (jget r ''password'') \<and> \<not> isNonEmptyString (jget r ''privateKey'')
      then [''Either password or privateKey is required''] else [])"

definition validatePassphrase :: "jsval \<Rightarrow> string list" where
  "validatePassphrase r =
     (if \<not> has_key r ''passphrase'' then []
      else if jget r ''passphrase'' \<noteq> JUndefined \<and> \<not> is_string (jget r ''passphrase'')
      then [''Passphrase must be a string if provided''] else [])"

definition validateCredentialFormat :: "jsval \<Rightarrow> bool \<times> string list" where
  "validateCredentialFormat creds =
     (if \<not> isCredentialRecord creds then (False, [''Credentials must be an object''])
      else let errors = validateUsername creds @ validateHost creds @ validatePort creds
                        @ validateAuthentication creds @ validatePassphrase creds
           in (errors = [], errors))"

section \<open>Stored credentials\<close>

datatype credential_error = CredentialError string "string option"

definition getNonEmptyString :: "jsval \<Rightarrow> string option" where
  "getNonEmptyString v = (case v of JStr s \<Rightarrow> (if s = [] then None else Some s) | _ \<Rightarrow> None)"

record auth_fields =
  afPassword :: "string option"
  afPrivateKey :: "string option"
  afPassphrase :: "string option"

definition buildAuthenticationFields :: "jsval \<Rightarrow> (credential_error, auth_fields) result" where
  "buildAuthenticationFields raw =
     (let password = getNonEmptyString (jget raw ''password'');
          privateKey = getNonEmptyString (jget raw ''privateKey'')
      in if password = None \<and> privateKey = None
         then err (CredentialError ''Either password or privateKey is required for authentication'' None)
         else ok \<lparr>afPassword = password, afPrivateKey = privateKey,
                  afPassphrase = (if privateKey = None then None else getNonEmptyString (jget raw ''passphrase''))\<rparr>)"

text \<open>A missing port is 22.\<close>

definition port_or_default :: "jsval \<Rightarrow> jsval" where
  "port_or_default v = port_candidate (if nullish v then JNum (Num 22) else v)"

definition num_le :: "jsnum \<Rightarrow> rat \<Rightarrow> bool" where
  "num_le x y \<longleftrightarrow> num_less x y \<or> x = Num y"

definition validateRequiredFields :: "jsval \<Rightarrow> (credential_error, string \<times> string \<times> jsnum) result" where
  "validateRequiredFields raw =
     (case getNonEmptyString (jget raw ''username'') of
        None \<Rightarrow> err (CredentialError ''Username is required and must be a non-empty string'' (Some ''username''))
      | Some username \<Rightarrow>
          (case getNonEmptyString (jget raw ''host'') of
             None \<Rightarrow> err (CredentialError ''Host is required and must be a non-empty string'' (Some ''host''))
           | Some host \<Rightarrow>
               (case port_or_default (jget raw ''port'') of
                  JNum x \<Rightarrow> if x = NaN \<or> num_le x 0 \<or> num_greater x 65535
                              then err (CredentialError ''Port must be a number between 1 and 65535'' (Some ''port''))
                              else ok (username, host, x)
                | _ \<Rightarrow> err (CredentialError ''Port must be a number between 1 and 65535'' (Some ''port'')))))"

definition field :: "string \<Rightarrow> jsval option \<Rightarrow> (string \<times> jsval) list" where
  "field k v = (case v of None \<Rightarrow> [] | Some x \<Rightarrow> [(k, x)])"

definition extractOptionalTerminalSettings :: "jsval \<Rightarrow> (string \<times> jsval) list" where
  "extractOptionalTerminalSettings raw =
     field ''term'' (if isNonEmptyString (jget raw ''term'') then Some (jget raw ''term'') else None)
     @ field ''cols'' (case jget raw ''cols'' of JNum x \<Rightarrow> if num_greater x 0 then Some (JNum x) else None | _ \<Rightarrow> None)
     @ field ''rows'' (case jget raw ''rows'' of JNum x \<Rightarrow> if num_greater x 0 then Some (JNum x) else None | _ \<Rightarrow> None)"

definition extractAuthCredentials :: "jsval \<Rightarrow> (credential_error, jsval) result" where
  "extractAuthCredentials raw =
     (case validateRequiredFields raw of
        Inl e \<Rightarrow> err e
      | Inr (username, host, port) \<Rightarrow>
          (case buildAuthenticationFields raw of
             Inl e \<Rightarrow> err e
           | Inr fs \<Rightarrow>
               ok (JObj ([(''username'', JStr username), (''host'', JStr host), (''port'', JNum port)]
                  @ field ''password'' (map_option JStr (afPassword fs))
                  @ field ''privateKey'' (map_option JStr (afPrivateKey fs))
                  @ field ''passphrase'' (map_option JStr (afPassphrase fs))
                  @ extractOptionalTerminalSettings raw))))"

definition convertToAuthCredentials :: "jsval \<Rightarrow> jsval option" where
  "convertToAuthCredentials raw = (case extractAuthCredentials raw of Inl _ \<Rightarrow> None | Inr c \<Rightarrow> Some c)"

datatype ssh_auth_method = BothMethods | PasswordOnly | PrivateKeyOnly | NoMethod

definition extractAuthMethod :: "jsval \<Rightarrow> ssh_auth_method" where
  "extractAuthMethod raw =
     (let p = isNonEmptyString (jget raw ''password''); k = isNonEmptyString (jget raw ''privateKey'')
      in if p \<and> k then BothMethods else if p then PasswordOnly else if k then PrivateKeyOnly else NoMethod)"

section \<open>Connection errors\<close>

datatype connection_problem = NetworkProblem | TimeoutProblem | AuthProblem | UnknownProblem

definition messageContains :: "string \<Rightarrow> string list \<Rightarrow> bool" where
  "messageContains message patterns = list_ex (str_includes message) patterns"

definition codeMatches :: "string option \<Rightarrow> string list \<Rightarrow> bool" where
  "codeMatches errorCode expected = (case errorCode of None \<Rightarrow> False | Some c \<Rightarrow> c \<in> set expected)"

definition isDnsResolutionIssue :: "string option \<Rightarrow> string \<Rightarrow> bool" where
  "isDnsResolutionIssue errorCode message \<longleftrightarrow>
     codeMatches errorCode [''ENOTFOUND''] \<or> messageContains message [''getaddrinfo'', ''enotfound'']"

definition isConnectionRefused :: "string option \<Rightarrow> string \<Rightarrow> bool" where
  "isConnectionRefused errorCode message \<longleftrightarrow>
     codeMatches errorCode [''ECONNREFUSED''] \<or> messageContains message [''connection refused'', ''econnrefused'']"

definition isTimeoutScenario :: "string option \<Rightarrow> string \<Rightarrow> bool" where
  "isTimeoutScenario errorCode message \<longleftrightarrow>
     codeMatches errorCode [''ETIMEDOUT'', ''ECONNRESET''] \<or> messageContains message [''timeout'', ''etimedout'', ''econnreset'']"

definition isNetworkUnreachable :: "string option \<Rightarrow> string \<Rightarrow> bool" where
  "isNetworkUnreachable errorCode message \<longleftrightarrow>
     codeMatches errorCode [''ENETUNREACH''] \<or> messageContains message [''network is unreachable'', ''enetunreach'']"

definition isAuthenticationFailure :: "string option \<Rightarrow> string \<Rightarrow> bool" where
  "isAuthenticationFailure level message \<longleftrightarrow>
     level = Some ''client-authentication''
     \<or> messageContains message [''authentication failed'', ''all configured authentication methods failed'',
         ''permission denied'', ''password'']"

definition analyzeConnectionError :: "string option \<Rightarrow> string option \<Rightarrow> string \<Rightarrow> connection_problem" where
  "analyzeConnectionError errorCode level message =
     (let m = to_lower message
      in if isDnsResolutionIssue errorCode m then NetworkProblem
         else if isConnectionRefused errorCode m then NetworkProblem
         else if isTimeoutScenario errorCode m then TimeoutProblem
         else if isNetworkUnreachable errorCode m then NetworkProblem
         else if isAuthenticationFailure level m then AuthProblem
         else UnknownProblem)"

text \<open>The required fields of complete credentials, as the SSH validator lists their errors.\<close>

definition validateSshCredentials :: "string option \<Rightarrow> rat option \<Rightarrow> string option \<Rightarrow> string option \<Rightarrow> string option \<Rightarrow>
    bool \<times> string list" where
  "validateSshCredentials host port username password privateKey =
     (let missing = (\<lambda>x. x = None \<or> x = Some []);
          errors = (if missing host then [''Host is required''] else [])
            @ (case port of None \<Rightarrow> [] | Some p \<Rightarrow> if p < 1 \<or> p > 65535 then [''Port must be between 1 and 65535''] else [])
            @ (if missing username then [''Username is required''] else [])
            @ (if missing password \<and> missing privateKey then [''Either password or private key is required''] else [])
      in (errors = [], errors))"

section \<open>Properties\<close>

lemma resolve_loop_set:
  "set (fst (resolve_loop raws resolved warned)) =
     set resolved \<union> {t. \<exists>raw\<in>set raws. map_get AUTH_METHOD_TOKENS (normalizeToken raw) = Some t}"
  by (induction raws arbitrary: resolved warned) (auto simp: Let_def split: option.split)

lemma resolve_loop_distinct: "distinct resolved \<Longrightarrow> distinct (fst (resolve_loop raws resolved warned))"
  by (induction raws arbitrary: resolved warned) (auto simp: Let_def split: option.split)

lemma resolve_loop_warned:
  "set (snd (resolve_loop raws resolved warned)) =
     set warned \<union> {w. w \<noteq> [] \<and> (\<exists>raw\<in>set raws. w = normalizeToken raw \<and> \<not> isKnownToken w)}"
  by (induction raws arbitrary: resolved warned) (auto simp: Let_def isKnownToken_def split: option.split)

text \<open>What a login uses: a password or a private key that is a text with a character other than white
  space, and an interactive prompt when it was asked for.\<close>

definition has_content :: "jsval \<Rightarrow> bool" where
  "has_content v \<longleftrightarrow> (\<exists>s. v = JStr s \<and> (\<exists>ch\<in>set s. \<not> is_space ch))"

lemma dropWhile_all: "(\<forall>x\<in>set (dropWhile P xs). P x) \<longleftrightarrow> (\<forall>x\<in>set xs. P x)"
  by (induction xs) auto

lemma trim_blank: "trim s = [] \<longleftrightarrow> (\<forall>ch\<in>set s. is_space ch)"
  by (simp add: trim_def dropWhile_eq_Nil_conv dropWhile_all)

lemma hasCredential_iff: "hasCredential v \<longleftrightarrow> has_content v"
  by (cases v) (auto simp: hasCredential_def has_content_def trim_blank)

fun wants :: "policy_context \<Rightarrow> auth_token \<Rightarrow> bool" where
  "wants c PasswordToken = has_content (pcPassword c)"
| "wants c PublickeyToken = has_content (pcPrivateKey c)"
| "wants c KeyboardInteractiveToken = pcRequestedKeyboardInteractive c"

lemma requested_iff: "m \<in> set (resolveRequestedAuthMethods c) \<longleftrightarrow> wants c m"
  by (cases m) (auto simp: resolveRequestedAuthMethods_def dedupePreserveOrder_def hasCredential_iff)

lemma find_None_Some:
  "(\<exists>x. List.find P xs = Some x) \<longleftrightarrow> (\<exists>x\<in>set xs. P x)" "List.find P xs = Some x \<Longrightarrow> x \<in> set xs \<and> P x"
  by (induction xs) (auto split: if_splits)

lemma evaluate_ok_iff: "(\<exists>r. evaluateAuthMethodPolicy allowed c = ok r) \<longleftrightarrow> (\<forall>m. wants c m \<longrightarrow> m \<in> set allowed)"
proof -
  have "List.find (\<lambda>m. m \<notin> set allowed) (resolveRequestedAuthMethods c) = None
      \<longleftrightarrow> (\<forall>m\<in>set (resolveRequestedAuthMethods c). m \<in> set allowed)"
    by (auto simp: find_None_iff)
  then show ?thesis
    by (auto simp: evaluateAuthMethodPolicy_def Let_def requested_iff split: option.splits) (metis requested_iff empty_iff list.set(1))
qed

lemma evaluate_err: "evaluateAuthMethodPolicy allowed c = err m \<Longrightarrow> wants c m \<and> m \<notin> set allowed"
  by (auto simp: evaluateAuthMethodPolicy_def Let_def requested_iff split: option.splits if_splits dest!: find_None_Some(2))

text \<open>C10: The policy on authentication methods follows the configuration.  When the configured tokens
  resolve, the resolved list has no duplicates, and a login is let through exactly when each method it
  uses is named by one of the configured tokens up to white space and letter case; otherwise the refusal
  names a method that is used and not configured.  A login uses the password or the private key when it is a
  text with a character other than white space (a blank one is not looked at), and the interactive prompt when
  it was asked for.\<close>

theorem policy_follows_configuration:
  assumes "resolveAllowedAuthMethods rawValues defaultMethods = ok (methods, warnings)"
  defines "configured \<equiv> \<lambda>m. \<exists>raw\<in>set (candidates rawValues defaultMethods).
      map_get AUTH_METHOD_TOKENS (to_lower (trim raw)) = Some m"
  shows "distinct methods
    \<and> ((\<exists>r. evaluateAuthMethodPolicy methods c = ok r) \<longleftrightarrow> (\<forall>m. wants c m \<longrightarrow> configured m))
    \<and> (evaluateAuthMethodPolicy methods c = err m \<longrightarrow> wants c m \<and> \<not> configured m)"
proof -
  let ?r = "resolve_loop (candidates rawValues defaultMethods) [] []"
  have m: "methods = fst ?r" using assms(1) by (auto simp: resolveAllowedAuthMethods_def Let_def split: prod.splits if_splits)
  have "m \<in> set methods \<longleftrightarrow> configured m" for m
    unfolding m configured_def resolve_loop_set by (simp add: normalizeToken_def)
  then show ?thesis using resolve_loop_distinct [of "[]"] evaluate_ok_iff evaluate_err unfolding m by simp metis
qed

theorem policy_follows_configuration_witness:
  "\<exists>r. evaluateAuthMethodPolicy [PublickeyToken]
     \<lparr>pcPassword = JUndefined, pcPrivateKey = JStr ''key'', pcRequestedKeyboardInteractive = False\<rparr> = ok r"
proof -
  have r: "resolveAllowedAuthMethods (Some ['' PublicKey '', ''gssapi'', ''publickey'']) None = ok ([PublickeyToken], [''gssapi''])"
    by code_simp
  have c: "map_get AUTH_METHOD_TOKENS (to_lower (trim '' PublicKey '')) = Some PublickeyToken" by code_simp
  have w: "wants \<lparr>pcPassword = JUndefined, pcPrivateKey = JStr ''key'', pcRequestedKeyboardInteractive = False\<rparr> m
      \<longrightarrow> m = PublickeyToken" for m
    by (cases m) (simp_all add: has_content_def)
  show ?thesis
    using policy_follows_configuration [OF r, of "\<lparr>pcPassword = JUndefined, pcPrivateKey = JStr ''key'', pcRequestedKeyboardInteractive = False\<rparr>"]
      c w by (auto simp: candidates_def)
qed

text \<open>Stored credentials that are converted pass the shape test of the pipeline.\<close>

lemma converted_valid:
  assumes "convertToAuthCredentials raw = Some c"
  shows "isValidCredentials c"
proof -
  obtain u h x fs where r: "validateRequiredFields raw = ok (u, h, x)" and f: "buildAuthenticationFields raw = ok fs"
    and c: "c = JObj ([(''username'', JStr u), (''host'', JStr h), (''port'', JNum x)]
                  @ field ''password'' (map_option JStr (afPassword fs))
                  @ field ''privateKey'' (map_option JStr (afPrivateKey fs))
                  @ field ''passphrase'' (map_option JStr (afPassphrase fs))
                  @ extractOptionalTerminalSettings raw)"
    using assms by (auto simp: convertToAuthCredentials_def extractAuthCredentials_def split: sum.splits prod.splits)
  have t: "map_of (extractOptionalTerminalSettings raw) k = None" if "k \<in> {''password'', ''privateKey'', ''passphrase''}" for k
    using that by (auto simp: extractOptionalTerminalSettings_def field_def split: option.split jsval.split)
  from f have "afPassword fs \<noteq> None \<or> afPrivateKey fs \<noteq> None"
    by (auto simp: buildAuthenticationFields_def Let_def split: if_splits)
  then show ?thesis using t unfolding c
    by (auto simp: isValidCredentials_def nullish_def field_def map_add_def split: option.splits)
qed

section \<open>Corners\<close>

text \<open>A password of blanks is no credential for the policy, although the login sends it.\<close>

lemma blank_password_escapes_policy:
  "evaluateAuthMethodPolicy [] \<lparr>pcPassword = JStr ''  '', pcPrivateKey = JUndefined, pcRequestedKeyboardInteractive = False\<rparr> = ok []"
  by code_simp

text \<open>The passphrase of a stored key is optional text, but a passphrase that is present and \<open>undefined\<close>
  is refused by one validator and accepted by the other.\<close>

lemma undefined_passphrase:
  "fst (validateCredentialFormat (JObj [(''username'', JStr ''u''), (''host'', JStr ''h''), (''password'', JStr ''p''), (''passphrase'', JUndefined)]))"
  "\<not> isValidCredentials (JObj [(''username'', JStr ''u''), (''host'', JStr ''h''), (''port'', JNum (Num 22)), (''password'', JStr ''p''), (''passphrase'', JUndefined)])"
  by code_simp+

end
