(* ===== verification/Auth_Service.thy ===== *)
theory Auth_Service
  imports Session_Store Credentials
begin

text \<open>
  The authentication service, \<open>services/auth/auth-service.ts\<close>, over the session store: it issues a
  session for well-formed credentials, remembers it under the user name until it expires, and
  validates and revokes sessions.  The random ids of a new session are arguments of
  \<open>authenticate\<close>; \<open>now\<close> is \<open>Date.now()\<close>.  Credentials are untyped values, because the code that
  calls the service only partly checked them.
\<close>

section \<open>State\<close>

record auth_entry =
  aeSessionId :: string
  aeUserId :: string
  aeUsername :: string
  aeMethod :: string
  aeCreatedAt :: int
  aeExpiresAt :: int

record auth_service =
  avCache :: "(string, auth_entry) jsmap"
  avTimeout :: int

record auth_result =
  arSessionId :: string
  arUserId :: string
  arUsername :: string
  arMethod :: string
  arExpiresAt :: int

definition SESSION_TIMEOUT_MS :: int where "SESSION_TIMEOUT_MS = 86400000"

definition new_auth_service :: "int option \<Rightarrow> auth_service" where
  "new_auth_service timeout =
     \<lparr>avCache = [], avTimeout = (case timeout of None \<Rightarrow> SESSION_TIMEOUT_MS | Some t \<Rightarrow> t)\<rparr>"

fun str_of :: "jsval \<Rightarrow> string" where
  "str_of (JStr s) = s"
| "str_of _ = []"

fun num_of :: "jsval \<Rightarrow> jsnum" where
  "num_of (JNum x) = x"
| "num_of _ = NaN"

section \<open>Operations\<close>

text \<open>A port that is \<open>NaN\<close> passes the range test.\<close>

definition validateAuthCredentials :: "jsval \<Rightarrow> string option" where
  "validateAuthCredentials c =
     (if \<not> isNonEmptyString (jget c ''username'') then Some ''Invalid credentials format''
      else if \<not> isNonEmptyString (jget c ''host'') then Some ''Invalid credentials format''
      else if \<not> is_number (jget c ''port'') \<or> num_le (num_of (jget c ''port'')) 0 \<or> num_greater (num_of (jget c ''port'')) 65535
      then Some ''Invalid credentials format''
      else if \<not> isNonEmptyString (jget c ''password'') \<and> \<not> isNonEmptyString (jget c ''privateKey'')
      then Some ''No authentication method provided''
      else None)"

definition entry_result :: "auth_entry \<Rightarrow> auth_result" where
  "entry_result e = \<lparr>arSessionId = aeSessionId e, arUserId = aeUserId e, arUsername = aeUsername e,
     arMethod = aeMethod e, arExpiresAt = aeExpiresAt e\<rparr>"

definition findCachedSession :: "int \<Rightarrow> jsval \<Rightarrow> auth_service \<Rightarrow> auth_result option" where
  "findCachedSession now c au =
     map_option entry_result
       (List.find (\<lambda>e. JStr (aeUsername e) = jget c ''username'' \<and> aeExpiresAt e > now) (map_values (avCache au)))"

definition issueNewSession :: "string \<Rightarrow> string \<Rightarrow> int \<Rightarrow> jsval \<Rightarrow> auth_service \<Rightarrow> 'l session_store \<Rightarrow>
    'l session_store \<times> auth_result" where
  "issueNewSession sid uid now c au st =
     (let username = str_of (jget c ''username'');
          st1 = fst (createSession sid now st);
          st2 = fst (dispatch sid (AUTH_SUCCESS username ''manual'' None) now st1);
          st3 = fst (dispatch sid (CONNECTION_START (str_of (jget c ''host'')) (num_of (jget c ''port''))) now st2)
      in (st3, \<lparr>arSessionId = sid, arUserId = uid, arUsername = username, arMethod = ''manual'',
                arExpiresAt = now + avTimeout au\<rparr>))"

definition cacheAuthentication :: "int \<Rightarrow> auth_result \<Rightarrow> auth_service \<Rightarrow> auth_service" where
  "cacheAuthentication now r au =
     au\<lparr>avCache := map_set (arSessionId r)
          \<lparr>aeSessionId = arSessionId r, aeUserId = arUserId r, aeUsername = arUsername r, aeMethod = arMethod r,
           aeCreatedAt = now, aeExpiresAt = arExpiresAt r\<rparr> (avCache au)\<rparr>"

definition authenticate :: "string \<Rightarrow> string \<Rightarrow> int \<Rightarrow> jsval \<Rightarrow> auth_service \<times> 'l session_store \<Rightarrow>
    (auth_service \<times> 'l session_store) \<times> (string, auth_result) result" where
  "authenticate sid uid now c s =
     (let (au, st) = s
      in case validateAuthCredentials c of
           Some e \<Rightarrow> (s, err e)
         | None \<Rightarrow>
             (case findCachedSession now c au of
                Some r \<Rightarrow> (s, ok r)
              | None \<Rightarrow>
                  let (st1, r) = issueNewSession sid uid now c au st
                  in ((cacheAuthentication now r au, st1), ok r)))"

definition drop_entry :: "string \<Rightarrow> auth_service \<Rightarrow> auth_service" where
  "drop_entry sid au = au\<lparr>avCache := map_delete sid (avCache au)\<rparr>"

definition validateSession :: "string \<Rightarrow> int \<Rightarrow> auth_service \<times> 'l session_store \<Rightarrow>
    (auth_service \<times> 'l session_store) \<times> bool" where
  "validateSession sid now s =
     (let (au, st) = s
      in case map_get (avCache au) sid of
           None \<Rightarrow> (s, False)
         | Some e \<Rightarrow>
             if aeExpiresAt e < now then ((drop_entry sid au, st), False)
             else (s, case getState st sid of None \<Rightarrow> False | Some x \<Rightarrow> auStatus (ssAuth x) = AuthAuthenticated))"

definition revokeSession :: "string \<Rightarrow> int \<Rightarrow> auth_service \<times> 'l session_store \<Rightarrow>
    (auth_service \<times> 'l session_store) \<times> (string, unit) result" where
  "revokeSession sid now s =
     (let (au, st) = s
      in case getState st sid of
           None \<Rightarrow> (s, err ''Session not found'')
         | Some _ \<Rightarrow>
             let st1 = fst (dispatch sid AUTH_LOGOUT now st); st2 = fst (removeSession sid now st1)
             in ((drop_entry sid au, st2), ok ()))"

definition getSessionInfo :: "string \<Rightarrow> int \<Rightarrow> auth_service \<times> 'l session_store \<Rightarrow>
    (auth_service \<times> 'l session_store) \<times> auth_result option" where
  "getSessionInfo sid now s =
     (let (au, st) = s
      in case map_get (avCache au) sid of
           None \<Rightarrow> (s, None)
         | Some e \<Rightarrow> if aeExpiresAt e < now then ((drop_entry sid au, st), None) else (s, Some (entry_result e)))"

definition drop_sessions :: "int \<Rightarrow> string list \<Rightarrow> auth_service \<times> 'l session_store \<Rightarrow> auth_service \<times> 'l session_store" where
  "drop_sessions now sids s = fold (\<lambda>sid (au, st). (drop_entry sid au, fst (removeSession sid now st))) sids s"

definition cleanupExpiredSessions :: "int \<Rightarrow> auth_service \<times> 'l session_store \<Rightarrow> auth_service \<times> 'l session_store" where
  "cleanupExpiredSessions now s =
     drop_sessions now (map fst (filter (\<lambda>(k, e). aeExpiresAt e < now) (avCache (fst s)))) s"

section \<open>Traces\<close>

text \<open>Operations of the service and, between them, any operation of the other users of the store.\<close>

datatype 'l auth_op = OpAuthenticate string string jsval | OpValidate string | OpRevoke string
  | OpInfo string | OpCleanup | OpStore "'l store_op"

datatype auth_out = OutAuth "(string, auth_result) result" | OutBool bool | OutRevoke "(string, unit) result"
  | OutInfo "auth_result option" | OutNone

fun auth_step :: "int \<times> 'l auth_op \<Rightarrow> auth_service \<times> 'l session_store \<Rightarrow> (auth_service \<times> 'l session_store) \<times> auth_out" where
  "auth_step (now, OpAuthenticate sid uid c) s = (let (s', r) = authenticate sid uid now c s in (s', OutAuth r))"
| "auth_step (now, OpValidate sid) s = (let (s', b) = validateSession sid now s in (s', OutBool b))"
| "auth_step (now, OpRevoke sid) s = (let (s', r) = revokeSession sid now s in (s', OutRevoke r))"
| "auth_step (now, OpInfo sid) s = (let (s', r) = getSessionInfo sid now s in (s', OutInfo r))"
| "auth_step (now, OpCleanup) s = (cleanupExpiredSessions now s, OutNone)"
| "auth_step (now, OpStore x) s = ((fst s, store_apply (now, x) (snd s)), OutNone)"

type_synonym 'l auth_trace = "((int \<times> 'l auth_op) \<times> auth_out) list"

text \<open>The state and the trace after the operations \<open>es\<close>.\<close>

fun auth_run :: "(int \<times> 'l auth_op) list \<Rightarrow> auth_service \<times> 'l session_store \<Rightarrow> 'l auth_trace \<Rightarrow>
    (auth_service \<times> 'l session_store) \<times> 'l auth_trace" where
  "auth_run [] s tr = (s, tr)"
| "auth_run (e # es) s tr = (let (s', out) = auth_step e s in auth_run es s' (tr @ [(e, out)]))"

text \<open>The session \<open>sid\<close> was issued to \<open>user\<close> and not revoked since; it expires at \<open>t\<close>.\<close>

definition issued :: "int \<Rightarrow> 'l auth_trace \<Rightarrow> string \<Rightarrow> string \<Rightarrow> int \<Rightarrow> bool" where
  "issued timeout tr sid user t \<longleftrightarrow>
     (\<exists>tr1 tr2 t0 uid c r. tr = tr1 @ ((t0, OpAuthenticate sid uid c), OutAuth (ok r)) # tr2
        \<and> arSessionId r = sid \<and> validateAuthCredentials c = None \<and> jget c ''username'' = JStr user
        \<and> t = t0 + timeout \<and> (\<forall>t1. ((t1, OpRevoke sid), OutRevoke (ok ())) \<notin> set tr2))"

definition cache_ok :: "'l auth_trace \<Rightarrow> auth_service \<Rightarrow> bool" where
  "cache_ok tr au \<longleftrightarrow> (\<forall>sid e. map_get (avCache au) sid = Some e \<longrightarrow>
     aeSessionId e = sid \<and> issued (avTimeout au) tr sid (aeUsername e) (aeExpiresAt e))"

lemma issued_snoc:
  "issued timeout tr sid user t \<Longrightarrow> (\<forall>t1. x \<noteq> ((t1, OpRevoke sid), OutRevoke (ok ()))) \<Longrightarrow> issued timeout (tr @ [x]) sid user t"
  unfolding issued_def by (elim exE conjE) (rule exI, rule_tac x = "tr2 @ [x]" in exI, auto)

lemma timeout_frame [simp]: "avTimeout (drop_entry sid au) = avTimeout au"
  "avTimeout (cacheAuthentication now r au) = avTimeout au"
  by (simp_all add: drop_entry_def cacheAuthentication_def)

lemma cache_drop: "map_get (avCache (drop_entry sid au)) k = (if k = sid then None else map_get (avCache au) k)"
  by (simp add: drop_entry_def map_get_delete)

lemma drop_sessions_frame [simp]:
  "map_get (avCache (fst (drop_sessions now sids s))) k = (if k \<in> set sids then None else map_get (avCache (fst s)) k)"
  "avTimeout (fst (drop_sessions now sids s)) = avTimeout (fst s)"
  "wf_map (avCache (fst s)) \<Longrightarrow> wf_map (avCache (fst (drop_sessions now sids s)))"
  unfolding drop_sessions_def
  by (induction sids arbitrary: s) (auto simp: drop_entry_def map_get_delete split: prod.split)

text \<open>Every step either keeps or drops the entry of a session, or issues it.\<close>

lemma auth_step_cases:
  assumes "auth_step e s = (s', out)" and "map_get (avCache (fst s')) k = Some en"
  shows "avTimeout (fst s') = avTimeout (fst s)
    \<and> ((map_get (avCache (fst s)) k = Some en \<and> (\<forall>t1. (e, out) \<noteq> ((t1, OpRevoke k), OutRevoke (ok ()))))
       \<or> (\<exists>t0 uid c r. e = (t0, OpAuthenticate k uid c) \<and> out = OutAuth (ok r) \<and> arSessionId r = k
            \<and> validateAuthCredentials c = None \<and> jget c ''username'' = JStr (aeUsername en)
            \<and> aeExpiresAt en = t0 + avTimeout (fst s) \<and> aeSessionId en = k))"
  using assms
proof (cases "(e, s)" rule: auth_step.cases)
  case (1 now sid uid c s0)
  have u: "jget c ''username'' = JStr (str_of (jget c ''username''))" if "validateAuthCredentials c = None"
    using that by (cases "jget c ''username''") (auto simp: validateAuthCredentials_def isNonEmptyString_def split: if_splits)
  show ?thesis using assms 1 u
    by (auto simp: authenticate_def issueNewSession_def cacheAuthentication_def Let_def map_get_set
        split: option.splits prod.splits if_splits)
next
  case (2 now sid s0)
  then show ?thesis using assms
    by (auto simp: validateSession_def Let_def cache_drop split: option.splits prod.splits if_splits)
next
  case (3 now sid s0)
  then show ?thesis using assms
    by (auto simp: revokeSession_def Let_def cache_drop split: option.splits prod.splits if_splits)
next
  case (4 now sid s0)
  then show ?thesis using assms
    by (auto simp: getSessionInfo_def Let_def cache_drop split: option.splits prod.splits if_splits)
next
  case (5 now s0)
  then show ?thesis using assms
    by (auto simp: cleanupExpiredSessions_def split: if_splits)
next
  case (6 now x s0)
  then show ?thesis using assms by auto
qed

lemma auth_step_cache_ok:
  assumes "auth_step e s = (s', out)" and "cache_ok tr (fst s)"
  shows "cache_ok (tr @ [(e, out)]) (fst s')"
proof -
  have "aeSessionId en = k \<and> issued (avTimeout (fst s')) (tr @ [(e, out)]) k (aeUsername en) (aeExpiresAt en)"
    if k: "map_get (avCache (fst s')) k = Some en" for k en
  proof -
    from auth_step_cases [OF assms(1) k] have t: "avTimeout (fst s') = avTimeout (fst s)" by blast
    from auth_step_cases [OF assms(1) k] show ?thesis
    proof (elim conjE disjE)
      assume "map_get (avCache (fst s)) k = Some en" "\<forall>t1. (e, out) \<noteq> ((t1, OpRevoke k), OutRevoke (ok ()))"
      then show ?thesis using assms(2) issued_snoc t unfolding cache_ok_def by metis
    next
      assume "\<exists>t0 uid c r. e = (t0, OpAuthenticate k uid c) \<and> out = OutAuth (ok r) \<and> arSessionId r = k
            \<and> validateAuthCredentials c = None \<and> jget c ''username'' = JStr (aeUsername en)
            \<and> aeExpiresAt en = t0 + avTimeout (fst s) \<and> aeSessionId en = k"
      then show ?thesis unfolding issued_def t by (metis append.right_neutral empty_iff empty_set)
    qed
  qed
  then show ?thesis unfolding cache_ok_def by blast
qed

lemma auth_run_cache_ok: "auth_run es s tr = (s', tr') \<Longrightarrow> cache_ok tr (fst s) \<Longrightarrow> cache_ok tr' (fst s')"
proof (induction es arbitrary: s tr)
  case (Cons e es)
  obtain s1 out where st: "auth_step e s = (s1, out)" by fastforce
  with Cons auth_step_cache_ok [OF st Cons.prems(2)] show ?case by simp
qed simp

lemma find_in: "List.find P xs = Some x \<Longrightarrow> x \<in> set xs \<and> P x"
  by (induction xs) (auto split: if_splits)

lemma find_entry:
  assumes "findCachedSession now c au = Some r"
  obtains k e where "(k, e) \<in> set (avCache au)" "r = entry_result e" "jget c ''username'' = JStr (aeUsername e)"
    "now < aeExpiresAt e"
  using assms by (auto simp: findCachedSession_def dest!: find_in)

lemma wf_step: "auth_step e s = (s', out) \<Longrightarrow> wf_map (avCache (fst s)) \<Longrightarrow> wf_map (avCache (fst s'))"
  by (cases "(e, s)" rule: auth_step.cases)
    (auto simp: authenticate_def validateSession_def revokeSession_def getSessionInfo_def issueNewSession_def
    cacheAuthentication_def drop_entry_def cleanupExpiredSessions_def Let_def split: option.splits prod.splits if_splits)

lemma auth_run_wf: "auth_run es s tr = (s', tr') \<Longrightarrow> wf_map (avCache (fst s)) \<Longrightarrow> wf_map (avCache (fst s'))"
  by (induction es arbitrary: s tr) (auto dest: wf_step split: prod.splits)

lemma auth_run_timeout: "auth_run es s tr = (s', tr') \<Longrightarrow> avTimeout (fst s') = avTimeout (fst s)"
proof (induction es arbitrary: s tr)
  case (Cons e es)
  obtain s1 out where st: "auth_step e s = (s1, out)" by fastforce
  have "avTimeout (fst s1) = avTimeout (fst s)"
    using st by (cases "(e, s)" rule: auth_step.cases)
      (auto simp: authenticate_def validateSession_def revokeSession_def getSessionInfo_def issueNewSession_def
        cleanupExpiredSessions_def Let_def split: option.splits prod.splits if_splits)
  with Cons st show ?case by simp
qed simp

section \<open>Properties\<close>

text \<open>C9: Only issued sessions are honoured.  After any history of the service and of the other
  users of the store, a session that validates was issued by \<open>authenticate\<close> to well-formed
  credentials, has not expired and not been revoked since; and a successful authentication yields
  either the new session or one that was issued to the same user name, is unexpired and unrevoked.\<close>

theorem issued_sessions_only:
  assumes run: "auth_run es (new_auth_service (Some T), new_session_store n) [] = (s, tr)"
  shows "(snd (validateSession sid now s) \<longrightarrow>
      (\<exists>user t. issued T tr sid user t \<and> now \<le> t \<and> (\<exists>x. getState (snd s) sid = Some x \<and> isAuthenticated x)))
    \<and> (snd (authenticate sid' uid now c s) = ok r \<longrightarrow> jget c ''username'' = JStr (arUsername r)
        \<and> (arSessionId r = sid' \<or> (\<exists>t. issued T tr (arSessionId r) (arUsername r) t \<and> now < t)))"
proof -
  have ok: "cache_ok tr (fst s)"
    using auth_run_cache_ok [OF run] by (simp add: cache_ok_def new_auth_service_def)
  have T: "avTimeout (fst s) = T" using auth_run_timeout [OF run] by (simp add: new_auth_service_def)
  have wf: "wf_map (avCache (fst s))" using auth_run_wf [OF run] by (simp add: new_auth_service_def)
  have "jget c ''username'' = JStr (arUsername r) \<and> (arSessionId r = sid' \<or> (\<exists>t. issued T tr (arSessionId r) (arUsername r) t \<and> now < t))"
    if a: "snd (authenticate sid' uid now c s) = ok r"
  proof (cases "findCachedSession now c (fst s)")
    case None
    have "jget c ''username'' = JStr (str_of (jget c ''username''))" if "validateAuthCredentials c = None"
      using that by (cases "jget c ''username''") (auto simp: validateAuthCredentials_def isNonEmptyString_def split: if_splits)
    with None a show ?thesis
      by (auto simp: authenticate_def issueNewSession_def Let_def split: option.splits prod.splits)
  next
    case (Some r')
    with a have r: "r' = r" by (auto simp: authenticate_def split: option.splits prod.splits)
    from find_entry [OF Some [unfolded r]] obtain k e where e: "(k, e) \<in> set (avCache (fst s))"
      "r = entry_result e" "jget c ''username'' = JStr (aeUsername e)" "now < aeExpiresAt e" by blast
    then have "map_get (avCache (fst s)) k = Some e" using wf by (simp add: wf_map_get_iff)
    with ok e T show ?thesis by (auto simp: cache_ok_def entry_result_def)
  qed
  moreover have "\<exists>user t. issued T tr sid user t \<and> now \<le> t \<and> (\<exists>x. getState (snd s) sid = Some x \<and> isAuthenticated x)"
    if "snd (validateSession sid now s)"
    using that ok T unfolding cache_ok_def isAuthenticated_def
    by (auto simp: validateSession_def not_less split: option.splits prod.splits if_splits)
  ultimately show ?thesis by blast
qed

definition demo_user :: "string \<Rightarrow> string \<Rightarrow> jsval" where
  "demo_user host password = JObj [(''username'', JStr ''root''), (''host'', JStr host), (''port'', JNum (Num 22)),
     (''password'', JStr password)]"

definition demo_auth :: "(auth_service \<times> nat session_store) \<times> nat auth_trace" where
  "demo_auth = auth_run [(0, OpAuthenticate ''s1'' ''u1'' (demo_user ''h'' ''pw''))]
     (new_auth_service (Some 100), new_session_store None) []"

theorem issued_sessions_only_witness:
  "snd (validateSession ''s1'' 50 (fst demo_auth)) \<and> (\<exists>user t. issued 100 (snd demo_auth) ''s1'' user t \<and> 50 \<le> t)"
proof -
  have r: "auth_run [(0, OpAuthenticate ''s1'' ''u1'' (demo_user ''h'' ''pw''))]
     (new_auth_service (Some 100), new_session_store None) [] = (fst demo_auth, snd demo_auth)"
    by (simp add: demo_auth_def)
  have v: "snd (validateSession ''s1'' 50 (fst demo_auth))" by code_simp
  from issued_sessions_only [OF r, of "''s1''" 50] v show ?thesis by blast
qed

section \<open>Corners\<close>

text \<open>The cache is searched by the user name alone: another password for another host gets the
  session, and with it the transfers and the state, of the first user of that name.\<close>

lemma same_name_same_session:
  "snd (authenticate ''s2'' ''u2'' 50 (demo_user ''other-host'' ''other-password'') (fst demo_auth))
     = ok \<lparr>arSessionId = ''s1'', arUserId = ''u1'', arUsername = ''root'', arMethod = ''manual'', arExpiresAt = 100\<rparr>"
  by code_simp

text \<open>A session that another component removed from the store cannot be revoked, stays in the cache
  and is handed out again, although the store no longer holds it.\<close>

lemma removed_session_handed_out:
  assumes "getState st sid = None" "map_get (avCache au) sid = Some e"
  shows "revokeSession sid now (au, st) = ((au, st), err ''Session not found'')"
    "avCache au = [(sid, e)] \<Longrightarrow> validateAuthCredentials c = None \<Longrightarrow> jget c ''username'' = JStr (aeUsername e) \<Longrightarrow>
       now < aeExpiresAt e \<Longrightarrow> authenticate sid' uid now c (au, st) = ((au, st), ok (entry_result e))"
  using assms by (simp_all add: revokeSession_def authenticate_def findCachedSession_def)

text \<open>\<open>NaN\<close> passes the range test of the port.\<close>

lemma nan_port_accepted:
  "validateAuthCredentials (JObj [(''username'', JStr ''u''), (''host'', JStr ''h''), (''port'', JNum NaN), (''password'', JStr ''p'')]) = None"
  by code_simp

end
