(* ===== verification/Ssh_Service.thy ===== *)
theory Ssh_Service
  imports Auth_Service Connection_Pools Subnet_Check Host_Keys
begin

text \<open>
  The SSH service, \<open>services/ssh/ssh-service.ts\<close>, with the listeners of a connection
  (\<open>connection-handlers.ts\<close>) and the execution of a command (\<open>exec-command.ts\<close>).  A connection attempt
  is a promise that the ready event, an error, the service timer or a thrown exception may settle; the
  events of the ssh2 client may come in any order and at any time.  The client of an attempt is named by
  its connection id; calls of the client and settled promises are outputs.  The DNS look-up, the
  algorithms (type \<open>'a\<close>) and what ssh2 does are parameters.
\<close>

section \<open>Configuration\<close>

text \<open>Credentials that were not given are \<open>undefined\<close>.\<close>

record 'a ssh_config =
  sfSessionId :: string
  sfHost :: string
  sfPort :: jsnum
  sfUsername :: string
  sfPassword :: jsval
  sfPrivateKey :: jsval
  sfPassphrase :: jsval
  sfReadyTimeout :: "int option"
  sfKeepaliveInterval :: "int option"
  sfKeepaliveCountMax :: "int option"
  sfAlgorithms :: "'a option"
  sfHasCallback :: bool
  sfForwardAllPrompts :: bool
  sfSocket :: "string option"

record 'a ssh_settings =
  svAllowedSubnets :: "string list option"
  svReadyTimeout :: int
  svKeepaliveInterval :: int
  svKeepaliveCountMax :: int
  svAllowedAuthMethods :: "auth_token list"
  svAlgorithms :: 'a
  svAlwaysSendPrompts :: bool
  svMaxExecOutputBytes :: "nat option"
  svHostKeys :: "host_key_service option"

record 'a connect_config =
  ccHost :: string
  ccPort :: jsnum
  ccUsername :: string
  ccReadyTimeout :: int
  ccKeepaliveInterval :: int
  ccKeepaliveCountMax :: int
  ccTryKeyboard :: bool
  ccPassword :: jsval
  ccPrivateKey :: jsval
  ccPassphrase :: jsval
  ccAlgorithms :: 'a
  ccHostVerifier :: bool

definition given :: "jsval \<Rightarrow> bool" where
  "given v \<longleftrightarrow> v \<noteq> JUndefined \<and> v \<noteq> JStr []"

definition or_value :: "'b option \<Rightarrow> 'b \<Rightarrow> 'b" where
  "or_value x d = (case x of None \<Rightarrow> d | Some y \<Rightarrow> y)"

definition wants_verifier :: "'a ssh_settings \<Rightarrow> 'a ssh_config \<Rightarrow> bool" where
  "wants_verifier sv cfg \<longleftrightarrow>
     (case svHostKeys sv of None \<Rightarrow> False | Some hk \<Rightarrow> hkEnabled (hsConfig hk)) \<and> sfSocket cfg \<noteq> None"

definition buildConnectConfig :: "'a ssh_settings \<Rightarrow> 'a ssh_config \<Rightarrow> 'a connect_config" where
  "buildConnectConfig sv cfg =
     (let base = \<lparr>ccHost = sfHost cfg, ccPort = sfPort cfg, ccUsername = sfUsername cfg,
            ccReadyTimeout = or_value (sfReadyTimeout cfg) (svReadyTimeout sv),
            ccKeepaliveInterval = or_value (sfKeepaliveInterval cfg) (svKeepaliveInterval sv),
            ccKeepaliveCountMax = or_value (sfKeepaliveCountMax cfg) (svKeepaliveCountMax sv),
            ccTryKeyboard = isAuthMethodAllowed (svAllowedAuthMethods sv) KeyboardInteractiveToken,
            ccPassword = JUndefined, ccPrivateKey = JUndefined, ccPassphrase = JUndefined,
            ccAlgorithms = or_value (sfAlgorithms cfg) (svAlgorithms sv),
            ccHostVerifier = wants_verifier sv cfg\<rparr>
      in if given (sfPassword cfg) then base\<lparr>ccPassword := sfPassword cfg\<rparr>
         else if given (sfPrivateKey cfg)
         then base\<lparr>ccPrivateKey := sfPrivateKey cfg,
                   ccPassphrase := (if given (sfPassphrase cfg) then sfPassphrase cfg else JUndefined)\<rparr>
         else base)"

section \<open>Keyboard-interactive rounds\<close>

record kbd_prompt =
  kpPrompt :: string
  kpEcho :: bool

datatype kbd_action = KbdFinish "jsval list" | KbdForward "kbd_prompt list"

definition asks_password :: "kbd_prompt \<Rightarrow> bool" where
  "asks_password p \<longleftrightarrow> str_includes (to_lower (kpPrompt p)) ''password''"

definition handleFallbackResponse :: "'a ssh_config \<Rightarrow> kbd_prompt list \<Rightarrow> kbd_action" where
  "handleFallbackResponse cfg prompts =
     (if given (sfPassword cfg) \<and> prompts \<noteq> []
      then KbdFinish (map (\<lambda>p. if asks_password p then sfPassword cfg else JStr []) prompts)
      else KbdFinish [])"

text \<open>The first argument says whether this is the first round; the result says it of the next.\<close>

definition keyboardInteractive :: "'a ssh_settings \<Rightarrow> 'a ssh_config \<Rightarrow> bool \<Rightarrow> (string \<times> bool option) list \<Rightarrow> bool \<times> kbd_action" where
  "keyboardInteractive sv cfg isFirstRound rawPrompts =
     (let forwardAll = sfForwardAllPrompts cfg \<or> svAlwaysSendPrompts sv;
          prompts = map (\<lambda>(t, e). \<lparr>kpPrompt = t, kpEcho = or_value e False\<rparr>) rawPrompts
      in if \<not> sfHasCallback cfg then (isFirstRound, handleFallbackResponse cfg prompts)
         else if isFirstRound \<and> \<not> forwardAll
         then let allPasswordPrompts = (prompts \<noteq> [] \<and> list_all asks_password prompts)
              in if allPasswordPrompts \<and> given (sfPassword cfg)
                 then (False, KbdFinish (map (\<lambda>_. sfPassword cfg) prompts))
                 else (False, KbdForward prompts)
         else (False, KbdForward prompts))"

section \<open>Connections\<close>

datatype conn_status = CsConnecting | CsConnected | CsError

record 'a ssh_attempt =
  saConfig :: "'a ssh_config"
  saStatus :: conn_status
  saSettled :: bool
  saTimer :: bool
  saFirstRound :: bool

datatype 'a ssh_out =
    SoConnect string "'a connect_config"
  | SoEnd string
  | SoSettle string "(string, string) result"

record ('a, 'l) ssh_service =
  shPool :: "unit pool"
  shStore :: "'l session_store"
  shAttempts :: "(string, 'a ssh_attempt) jsmap"

definition set_attempt :: "string \<Rightarrow> 'a ssh_attempt \<Rightarrow> ('a, 'l) ssh_service \<Rightarrow> ('a, 'l) ssh_service" where
  "set_attempt i a s = s\<lparr>shAttempts := map_set i a (shAttempts s)\<rparr>"

definition tell_store :: "string \<Rightarrow> session_action \<Rightarrow> int \<Rightarrow> ('a, 'l) ssh_service \<Rightarrow> ('a, 'l) ssh_service" where
  "tell_store sid act now s = s\<lparr>shStore := fst (dispatch sid act now (shStore s))\<rparr>"

definition drop_pooled :: "string \<Rightarrow> ('a, 'l) ssh_service \<Rightarrow> ('a, 'l) ssh_service" where
  "drop_pooled i s = s\<lparr>shPool := ssh_pool_remove i (shPool s)\<rparr>"

text \<open>The first settler wins and clears the timer.\<close>

definition settle :: "string \<Rightarrow> (string, string) result \<Rightarrow> ('a, 'l) ssh_service \<Rightarrow> ('a, 'l) ssh_service \<times> 'a ssh_out list" where
  "settle i r s =
     (case map_get (shAttempts s) i of
        None \<Rightarrow> (s, [])
      | Some a \<Rightarrow> if saSettled a then (s, [])
                  else (set_attempt i (a\<lparr>saSettled := True, saTimer := False\<rparr>) s, [SoSettle i r]))"

definition validateConnectionAgainstSubnets :: "(string \<Rightarrow> string + string list) \<Rightarrow> 'a ssh_settings \<Rightarrow> string \<Rightarrow> (string, unit) result" where
  "validateConnectionAgainstSubnets lookup sv host =
     (if svAllowedSubnets sv = None \<or> svAllowedSubnets sv = Some [] then ok ()
      else case validateConnectionWithDns lookup host (svAllowedSubnets sv) of
             Inl e \<Rightarrow> err e
           | Inr allowed \<Rightarrow> if allowed then ok () else err (''Connection to host '' @ host @ '' is not permitted''))"

definition new_attempt :: "'a ssh_config \<Rightarrow> 'a ssh_attempt" where
  "new_attempt cfg = \<lparr>saConfig = cfg, saStatus = CsConnecting, saSettled = False, saTimer = True, saFirstRound = True\<rparr>"

text \<open>\<open>i\<close> is the random id of the connection; \<open>thrown\<close> the message of an exception of \<open>client.connect\<close>.\<close>

definition ssh_connect :: "(string \<Rightarrow> string + string list) \<Rightarrow> 'a ssh_settings \<Rightarrow> string \<Rightarrow> 'a ssh_config \<Rightarrow> string option \<Rightarrow>
    ('a, 'l) ssh_service \<Rightarrow> ('a, 'l) ssh_service \<times> 'a ssh_out list" where
  "ssh_connect lookup sv i cfg thrown s =
     (case validateConnectionAgainstSubnets lookup sv (sfHost cfg) of
        Inl e \<Rightarrow> (s, [SoSettle i (err e)])
      | Inr _ \<Rightarrow>
          let s1 = set_attempt i (new_attempt cfg) s
          in case thrown of
               None \<Rightarrow> (s1, [SoConnect i (buildConnectConfig sv cfg)])
             | Some e \<Rightarrow> let (s2, out) = settle i (err e) s1 in (s2, SoConnect i (buildConnectConfig sv cfg) # out))"

definition timeoutHandler :: "string \<Rightarrow> ('a, 'l) ssh_service \<Rightarrow> ('a, 'l) ssh_service \<times> 'a ssh_out list" where
  "timeoutHandler i s =
     (case map_get (shAttempts s) i of
        None \<Rightarrow> (s, [])
      | Some a \<Rightarrow>
          if \<not> saTimer a \<or> saSettled a then (s, [])
          else let (s1, out) = settle i (err ''Connection timeout'') (drop_pooled i s)
               in (s1, SoEnd i # out))"

definition readyHandler :: "string \<Rightarrow> int \<Rightarrow> ('a, 'l) ssh_service \<Rightarrow> ('a, 'l) ssh_service \<times> 'a ssh_out list" where
  "readyHandler i now s =
     (case map_get (shAttempts s) i of
        None \<Rightarrow> (s, [])
      | Some a \<Rightarrow>
          if saSettled a then (s, [])
          else let sid = sfSessionId (saConfig a);
                   s1 = set_attempt i (a\<lparr>saStatus := CsConnected\<rparr>) s;
                   s2 = s1\<lparr>shPool := ssh_pool_add \<lparr>cid = i, csession = sid, chandle = ()\<rparr> (shPool s1)\<rparr>
               in settle i (ok i) (tell_store sid (CONNECTION_ESTABLISHED i) now s2))"

definition errorHandler :: "string \<Rightarrow> string \<Rightarrow> int \<Rightarrow> ('a, 'l) ssh_service \<Rightarrow> ('a, 'l) ssh_service \<times> 'a ssh_out list" where
  "errorHandler i message now s =
     (case map_get (shAttempts s) i of
        None \<Rightarrow> (s, [])
      | Some a \<Rightarrow>
          settle i (err message)
            (tell_store (sfSessionId (saConfig a)) (CONNECTION_ERROR message) now (set_attempt i (a\<lparr>saStatus := CsError\<rparr>) s)))"

definition closeHandler :: "string \<Rightarrow> int \<Rightarrow> ('a, 'l) ssh_service \<Rightarrow> ('a, 'l) ssh_service \<times> 'a ssh_out list" where
  "closeHandler i now s =
     (case map_get (shAttempts s) i of
        None \<Rightarrow> (s, [])
      | Some a \<Rightarrow> (tell_store (sfSessionId (saConfig a)) (CONNECTION_CLOSED None) now (drop_pooled i s), []))"

definition keyboardHandler :: "'a ssh_settings \<Rightarrow> string \<Rightarrow> (string \<times> bool option) list \<Rightarrow> ('a, 'l) ssh_service \<Rightarrow>
    ('a, 'l) ssh_service \<times> kbd_action option" where
  "keyboardHandler sv i prompts s =
     (case map_get (shAttempts s) i of
        None \<Rightarrow> (s, None)
      | Some a \<Rightarrow> let (first, act) = keyboardInteractive sv (saConfig a) (saFirstRound a) prompts
                  in (set_attempt i (a\<lparr>saFirstRound := first\<rparr>) s, Some act))"

definition ssh_disconnect :: "string \<Rightarrow> int \<Rightarrow> ('a, 'l) ssh_service \<Rightarrow> ('a, 'l) ssh_service \<times> 'a ssh_out list" where
  "ssh_disconnect i now s =
     (case ssh_pool_get (shPool s) i of
        None \<Rightarrow> (s, [])
      | Some c \<Rightarrow> (tell_store (csession c) (CONNECTION_CLOSED None) now (drop_pooled i s), [SoEnd i]))"

definition disconnectSession :: "string \<Rightarrow> int \<Rightarrow> ('a, 'l) ssh_service \<Rightarrow> ('a, 'l) ssh_service \<times> 'a ssh_out list" where
  "disconnectSession sid now s =
     fold (\<lambda>c (s, out). let (s', out') = ssh_disconnect (cid c) now s in (s', out @ out'))
       (ssh_pool_getBySession (shPool s) sid) (s, [])"

definition ssh_cleanup :: "('a, 'l) ssh_service \<Rightarrow> ('a, 'l) ssh_service \<times> 'a ssh_out list" where
  "ssh_cleanup s = (let (p, cs) = ssh_pool_clear (shPool s) in (s\<lparr>shPool := p\<rparr>, map (\<lambda>c. SoEnd (cid c)) cs))"

text \<open>A pooled connection with its status, which shell and exec require.\<close>

definition getReadyConnection :: "string \<Rightarrow> ('a, 'l) ssh_service \<Rightarrow> (string, string) result" where
  "getReadyConnection i s =
     (case ssh_pool_get (shPool s) i of
        None \<Rightarrow> err ''Connection not found''
      | Some c \<Rightarrow>
          (case map_get (shAttempts s) i of
             Some a \<Rightarrow> if saStatus a = CsConnected then ok i else err ''Connection not ready''
           | None \<Rightarrow> err ''Connection not ready''))"

record pty_options =
  ptTerm :: string
  ptCols :: int
  ptRows :: int

definition shell_request :: "string option \<Rightarrow> int option \<Rightarrow> int option \<Rightarrow> string \<Rightarrow> ('a, 'l) ssh_service \<Rightarrow> (string, pty_options) result" where
  "shell_request t c r i s =
     (case getReadyConnection i s of
        Inl e \<Rightarrow> err e
      | Inr _ \<Rightarrow> ok \<lparr>ptTerm = or_value t ''xterm-256color'', ptCols = or_value c 80, ptRows = or_value r 24\<rparr>)"

section \<open>Output of a command\<close>

definition MAX_EXEC_OUTPUT_BYTES :: nat where "MAX_EXEC_OUTPUT_BYTES = 10485760"

record exec_buffer =
  ebStdout :: string
  ebStderr :: string
  ebStdoutTruncated :: bool
  ebStderrTruncated :: bool

definition empty_exec_buffer :: exec_buffer where
  "empty_exec_buffer = \<lparr>ebStdout = [], ebStderr = [], ebStdoutTruncated = False, ebStderrTruncated = False\<rparr>"

definition STDOUT_MARKER :: string where
  "STDOUT_MARKER = CHR 0x0A # ''[OUTPUT TRUNCATED: Exceeded maximum output size]'' @ [CHR 0x0A]"

definition STDERR_MARKER :: string where
  "STDERR_MARKER = CHR 0x0A # ''[STDERR TRUNCATED: Exceeded maximum output size]'' @ [CHR 0x0A]"

definition append_bounded :: "nat \<Rightarrow> string \<Rightarrow> string \<Rightarrow> string \<times> bool \<Rightarrow> string \<times> bool" where
  "append_bounded maxBytes marker dataStr buf =
     (let (text, truncated) = buf
      in if length text + length dataStr > maxBytes
         then (if truncated then buf else (text @ marker, True))
         else (text @ dataStr, truncated))"

definition onStdout :: "nat \<Rightarrow> string \<Rightarrow> exec_buffer \<Rightarrow> exec_buffer" where
  "onStdout maxBytes d b =
     (let (t, tr) = append_bounded maxBytes STDOUT_MARKER d (ebStdout b, ebStdoutTruncated b)
      in b\<lparr>ebStdout := t, ebStdoutTruncated := tr\<rparr>)"

definition onStderr :: "nat \<Rightarrow> string \<Rightarrow> exec_buffer \<Rightarrow> exec_buffer" where
  "onStderr maxBytes d b =
     (let (t, tr) = append_bounded maxBytes STDERR_MARKER d (ebStderr b, ebStderrTruncated b)
      in b\<lparr>ebStderr := t, ebStderrTruncated := tr\<rparr>)"

definition handleStreamClose :: "int \<Rightarrow> exec_buffer \<Rightarrow> string \<times> string \<times> int" where
  "handleStreamClose exitCode b = (ebStdout b, ebStderr b, exitCode)"

section \<open>Runs\<close>

datatype 'a ssh_event =
    EvConnect string "'a ssh_config" "string option"
  | EvTimeout string
  | EvReady string
  | EvError string string
  | EvClose string
  | EvKeyboard string "(string \<times> bool option) list"
  | EvDisconnect string
  | EvDisconnectSession string
  | EvCleanup

fun ssh_step :: "(string \<Rightarrow> string + string list) \<Rightarrow> 'a ssh_settings \<Rightarrow> int \<times> 'a ssh_event \<Rightarrow> ('a, 'l) ssh_service \<Rightarrow>
    ('a, 'l) ssh_service \<times> 'a ssh_out list" where
  "ssh_step lookup sv (now, EvConnect i cfg thrown) s = ssh_connect lookup sv i cfg thrown s"
| "ssh_step lookup sv (now, EvTimeout i) s = timeoutHandler i s"
| "ssh_step lookup sv (now, EvReady i) s = readyHandler i now s"
| "ssh_step lookup sv (now, EvError i m) s = errorHandler i m now s"
| "ssh_step lookup sv (now, EvClose i) s = closeHandler i now s"
| "ssh_step lookup sv (now, EvKeyboard i ps) s = (fst (keyboardHandler sv i ps s), [])"
| "ssh_step lookup sv (now, EvDisconnect i) s = ssh_disconnect i now s"
| "ssh_step lookup sv (now, EvDisconnectSession sid) s = disconnectSession sid now s"
| "ssh_step lookup sv (now, EvCleanup) s = ssh_cleanup s"

fun ssh_run :: "(string \<Rightarrow> string + string list) \<Rightarrow> 'a ssh_settings \<Rightarrow> (int \<times> 'a ssh_event) list \<Rightarrow> ('a, 'l) ssh_service \<Rightarrow>
    'a ssh_out list \<Rightarrow> ('a, 'l) ssh_service \<times> 'a ssh_out list" where
  "ssh_run lookup sv [] s outs = (s, outs)"
| "ssh_run lookup sv (e # es) s outs = (let (s', out) = ssh_step lookup sv e s in ssh_run lookup sv es s' (outs @ out))"

definition started :: "(int \<times> 'a ssh_event) list \<Rightarrow> string list" where
  "started es = List.map_filter (\<lambda>e. case snd e of EvConnect i cfg t \<Rightarrow> Some i | _ \<Rightarrow> None) es"

text \<open>The results the promise of connection \<open>i\<close> was settled with.\<close>

definition settles :: "string \<Rightarrow> 'a ssh_out list \<Rightarrow> (string, string) result list" where
  "settles i outs = List.map_filter (\<lambda>x. case x of SoSettle k r \<Rightarrow> if k = i then Some r else None | _ \<Rightarrow> None) outs"

lemma settles_simps [simp]:
  "settles i [] = []" "settles i (a @ b) = settles i a @ settles i b"
  "settles i (SoEnd k # out) = settles i out" "settles i (SoConnect k cc # out) = settles i out"
  "settles i (SoSettle k r # out) = (if k = i then r # settles i out else settles i out)"
  by (simp_all add: settles_def List.map_filter_def)

lemma settles_ends: "settles i (map (\<lambda>c. SoEnd (cid c)) cs) = []"
  by (induction cs) simp_all

lemma started_simps [simp]: "started [] = []"
  "started (e # es) = (case snd e of EvConnect i cfg t \<Rightarrow> [i] | _ \<Rightarrow> []) @ started es"
  by (auto simp: started_def List.map_filter_def split: ssh_event.split)

lemma service_frame [simp]:
  "shPool (set_attempt i a s) = shPool s" "shPool (tell_store sid act now s) = shPool s"
  "shAttempts (tell_store sid act now s) = shAttempts s" "shAttempts (drop_pooled i s) = shAttempts s"
  "map_get (shAttempts (set_attempt i a s)) k = (if k = i then Some a else map_get (shAttempts s) k)"
  by (simp_all add: set_attempt_def tell_store_def drop_pooled_def map_get_set)

lemma pool_frame [simp]:
  "ssh_pool_get (ssh_pool_add c p) k = (if k = cid c then Some c else ssh_pool_get p k)"
  "ssh_pool_get (shPool (drop_pooled i s)) k = (if k = i then None else ssh_pool_get (shPool s) k)"
  by (auto simp: ssh_pool_get_def ssh_pool_add_maps drop_pooled_def ssh_pool_remove_maps map_get_set map_get_delete
      split: option.split)

text \<open>What is known of connection \<open>i\<close> after the outputs \<open>outs\<close>, when the ids in \<open>used\<close> were started.\<close>

definition conn_ok :: "string set \<Rightarrow> 'a ssh_out list \<Rightarrow> ('a, 'l) ssh_service \<Rightarrow> string \<Rightarrow> bool" where
  "conn_ok used outs s i \<longleftrightarrow>
     length (settles i outs) \<le> 1
     \<and> (i \<notin> used \<longrightarrow> map_get (shAttempts s) i = None \<and> settles i outs = [])
     \<and> (map_get (shAttempts s) i = None \<longrightarrow> ssh_pool_get (shPool s) i = None \<and> (i \<in> used \<longrightarrow> settles i outs \<noteq> []))
     \<and> (\<forall>a. map_get (shAttempts s) i = Some a \<longrightarrow> saSettled a = (settles i outs \<noteq> []) \<and> saTimer a = (\<not> saSettled a)
          \<and> (\<forall>c. ssh_pool_get (shPool s) i = Some c \<longrightarrow> c = \<lparr>cid = i, csession = sfSessionId (saConfig a), chandle = ()\<rparr>))
     \<and> (ssh_pool_get (shPool s) i \<noteq> None \<longrightarrow> settles i outs = [ok i])
     \<and> (SoEnd i \<in> set outs \<longrightarrow> settles i outs \<noteq> [] \<and> ssh_pool_get (shPool s) i = None)"

lemma conn_ok_other:
  assumes "conn_ok used outs s k" "map_get (shAttempts s') k = map_get (shAttempts s) k"
    "ssh_pool_get (shPool s') k = ssh_pool_get (shPool s) k" "settles k out = []" "SoEnd k \<notin> set out"
    "k \<in> used' \<longleftrightarrow> k \<in> used"
  shows "conn_ok used' (outs @ out) s' k"
  using assms by (auto simp: conn_ok_def)

text \<open>The steps that concern one connection.\<close>

fun single :: "'a ssh_event \<Rightarrow> string option" where
  "single (EvConnect i cfg t) = Some i"
| "single (EvTimeout i) = Some i"
| "single (EvReady i) = Some i"
| "single (EvError i m) = Some i"
| "single (EvClose i) = Some i"
| "single (EvKeyboard i ps) = Some i"
| "single (EvDisconnect i) = Some i"
| "single _ = None"

lemmas handler_defs = ssh_connect_def timeoutHandler_def readyHandler_def errorHandler_def closeHandler_def
  keyboardHandler_def ssh_disconnect_def settle_def

lemma single_frame:
  assumes "ssh_step lookup sv (now, e) s = (s', out)" "single e = Some i" "k \<noteq> i"
  shows "map_get (shAttempts s') k = map_get (shAttempts s) k" "ssh_pool_get (shPool s') k = ssh_pool_get (shPool s) k"
    "settles k out = []" "SoEnd k \<notin> set out"
  using assms
  by (cases e; auto simp: handler_defs Let_def split: option.splits sum.splits if_splits prod.splits)+

lemma step_connect:
  assumes "ssh_connect lookup sv i cfg t s = (s', out)" "conn_ok used outs s i" "i \<notin> used"
  shows "conn_ok (insert i used) (outs @ out) s' i"
  using assms by (auto simp: conn_ok_def ssh_connect_def settle_def new_attempt_def Let_def split: sum.splits option.splits prod.splits if_splits)

lemma step_timeout: "timeoutHandler i s = (s', out) \<Longrightarrow> conn_ok used outs s i \<Longrightarrow> conn_ok used (outs @ out) s' i"
  by (auto simp: conn_ok_def timeoutHandler_def settle_def Let_def split: option.splits if_splits)

lemma step_ready: "readyHandler i now s = (s', out) \<Longrightarrow> conn_ok used outs s i \<Longrightarrow> conn_ok used (outs @ out) s' i"
  by (auto simp: conn_ok_def readyHandler_def settle_def Let_def split: option.splits if_splits)

lemma step_error: "errorHandler i m now s = (s', out) \<Longrightarrow> conn_ok used outs s i \<Longrightarrow> conn_ok used (outs @ out) s' i"
  by (auto simp: conn_ok_def errorHandler_def settle_def Let_def split: option.splits if_splits)

lemma step_close: "closeHandler i now s = (s', out) \<Longrightarrow> conn_ok used outs s i \<Longrightarrow> conn_ok used (outs @ out) s' i"
  by (auto simp: conn_ok_def closeHandler_def split: option.splits)

lemma step_keyboard: "conn_ok used outs s i \<Longrightarrow> conn_ok used outs (fst (keyboardHandler sv i ps s)) i"
proof (cases "map_get (shAttempts s) i")
  case None
  then show "conn_ok used outs s i \<Longrightarrow> ?thesis" by (simp add: keyboardHandler_def)
next
  case (Some a)
  have "fst (keyboardHandler sv i ps s)
      = set_attempt i (a\<lparr>saFirstRound := fst (keyboardInteractive sv (saConfig a) (saFirstRound a) ps)\<rparr>) s"
    using Some by (simp add: keyboardHandler_def Let_def split: prod.split)
  then show "conn_ok used outs s i \<Longrightarrow> ?thesis" using Some by (simp add: conn_ok_def)
qed

lemma step_disconnect:
  assumes d: "ssh_disconnect i now s = (s', out)" and ok: "conn_ok used outs s i"
  shows "conn_ok used (outs @ out) s' i"
proof (cases "ssh_pool_get (shPool s) i")
  case None
  with d have "s' = s" "out = []" by (simp_all add: ssh_disconnect_def)
  with ok show ?thesis by simp
next
  case (Some c)
  with d have s': "s' = tell_store (csession c) (CONNECTION_CLOSED None) now (drop_pooled i s)" and o: "out = [SoEnd i]"
    by (simp_all add: ssh_disconnect_def)
  have "settles i outs = [ok i]" using ok Some by (simp add: conn_ok_def)
  with ok Some show ?thesis unfolding conn_ok_def s' o by (cases "map_get (shAttempts s) i") simp_all
qed

lemma disconnect_all:
  assumes "\<And>k. conn_ok used outs s k" and "ssh_disconnect i now s = (s', out)"
  shows "conn_ok used (outs @ out) s' k"
proof (cases "k = i")
  case True
  then show ?thesis using step_disconnect [OF assms(2)] assms(1) by simp
next
  case False
  have st: "ssh_step (\<lambda>_. Inr []) sv (now, EvDisconnect i) s = (s', out)" for sv using assms(2) by simp
  show ?thesis using conn_ok_other [OF assms(1) single_frame [OF st _ False]] by simp
qed

lemma wf_pool_frame:
  "wf_map (connections (shPool s)) \<Longrightarrow> wf_map (connections (shPool (drop_pooled i s)))"
  "wf_map (connections p) \<Longrightarrow> wf_map (connections (ssh_pool_add c p))"
  by (auto simp: drop_pooled_def ssh_pool_remove_maps ssh_pool_add_maps split: option.split)

lemma settle_pool [simp]: "shPool (fst (settle i r s)) = shPool s"
  by (simp add: settle_def split: option.split)

lemma wf_disconnects:
  "wf_map (connections (shPool (fst x))) \<Longrightarrow>
     wf_map (connections (shPool (fst (fold (\<lambda>c (s, out). let (s', out') = ssh_disconnect (cid c) now s in (s', out @ out')) cs x))))"
  by (induction cs arbitrary: x) (auto simp: ssh_disconnect_def Let_def wf_pool_frame split: prod.split option.split)

lemma step_wf:
  assumes "ssh_step lookup sv (now, e) s = (s', out)" "wf_map (connections (shPool s))"
  shows "wf_map (connections (shPool s'))"
proof -
  have "wf_map (connections (shPool (fst (ssh_step lookup sv (now, e) s))))"
    using assms(2) wf_disconnects [of "(s, [])" now]
    by (cases e) (auto simp: ssh_connect_def timeoutHandler_def readyHandler_def errorHandler_def closeHandler_def
        keyboardHandler_def ssh_disconnect_def disconnectSession_def ssh_cleanup_def ssh_pool_clear_def
        settle_def wf_pool_frame Let_def split: option.split sum.split prod.split)
  with assms(1) show ?thesis by simp
qed

lemma disconnect_fold:
  assumes "\<And>k. conn_ok used (outs @ acc) s k"
    and "fold (\<lambda>c (s, out). let (s', out') = ssh_disconnect (cid c) now s in (s', out @ out')) cs (s, acc) = (s', out)"
  shows "conn_ok used (outs @ out) s' k"
  using assms
proof (induction cs arbitrary: s acc k)
  case (Cons c cs)
  obtain s1 o1 where d: "ssh_disconnect (cid c) now s = (s1, o1)" by fastforce
  have "conn_ok used (outs @ acc @ o1) s1 k" for k
    using disconnect_all [OF Cons.prems(1) d] by simp
  with Cons.IH [of "acc @ o1" s1] Cons.prems(2) d show ?case by simp
qed simp

lemma step_conn_ok:
  assumes st: "ssh_step lookup sv (now, e) s = (s', out)" and ok: "\<And>k. conn_ok used outs s k"
    and wf: "wf_map (connections (shPool s))"
    and fresh: "\<And>i cfg t. e = EvConnect i cfg t \<Longrightarrow> i \<notin> used"
  shows "conn_ok (used \<union> set (started [(now, e)])) (outs @ out) s' k"
proof (cases "single e")
  case None
  then consider sid where "e = EvDisconnectSession sid" | "e = EvCleanup" by (cases e) auto
  then show ?thesis
  proof cases
    case 1
    then show ?thesis using disconnect_fold [of used outs "[]" s now "ssh_pool_getBySession (shPool s) sid"] st ok
      by (simp add: disconnectSession_def)
  next
    case 2
    have "settles k outs \<noteq> []" if c: "c \<in> set (map_values (connections (shPool s)))" "cid c = k" for c
    proof -
      from c obtain j where "(j, c) \<in> set (connections (shPool s))" by force
      then have j: "ssh_pool_get (shPool s) j = Some c" using wf by (simp add: ssh_pool_get_def wf_map_get_iff)
      then have "cid c = j" using ok [of j] by (cases "map_get (shAttempts s) j") (auto simp: conn_ok_def)
      with c(2) j ok [of k] show ?thesis by (simp add: conn_ok_def)
    qed
    moreover have out: "out = map (\<lambda>c. SoEnd (cid c)) (map_values (connections (shPool s)))"
      and s': "shAttempts s' = shAttempts s" "ssh_pool_get (shPool s') k = None"
      using st 2 by (auto simp: ssh_cleanup_def ssh_pool_clear_def ssh_pool_get_def)
    ultimately have e: "SoEnd k \<in> set out \<Longrightarrow> settles k outs \<noteq> []" by auto
    have "settles k (outs @ out) = settles k outs" unfolding out settles_simps settles_ends by (simp only: append_Nil2)
    note e this
    then show ?thesis using ok [of k] s' 2
      unfolding conn_ok_def by (cases "map_get (shAttempts s) k") auto
  qed
next
  case (Some i)
  show ?thesis
  proof (cases "k = i")
    case False
    then have "k \<in> used \<union> set (started [(now, e)]) \<longleftrightarrow> k \<in> used" using Some by (cases e) auto
    with conn_ok_other [OF ok [of k] single_frame [OF st Some False]] show ?thesis .
  next
    case True
    note ok = ok [of k, unfolded True]
    show ?thesis unfolding True
    proof (cases e)
      case (EvConnect j cfg t)
      then show "conn_ok (used \<union> set (started [(now, e)])) (outs @ out) s' i"
        using step_connect [of lookup sv i cfg t s s' out used outs] st ok fresh Some by simp
    next
      case (EvTimeout j)
      then show "conn_ok (used \<union> set (started [(now, e)])) (outs @ out) s' i" using step_timeout st ok Some by simp
    next
      case (EvReady j)
      then show "conn_ok (used \<union> set (started [(now, e)])) (outs @ out) s' i" using step_ready st ok Some by simp
    next
      case (EvError j m)
      then show "conn_ok (used \<union> set (started [(now, e)])) (outs @ out) s' i" using step_error st ok Some by simp
    next
      case (EvClose j)
      then show "conn_ok (used \<union> set (started [(now, e)])) (outs @ out) s' i" using step_close st ok Some by simp
    next
      case (EvKeyboard j ps)
      then show "conn_ok (used \<union> set (started [(now, e)])) (outs @ out) s' i"
        using step_keyboard [OF ok, of sv ps] st Some unfolding EvKeyboard by simp
    next
      case (EvDisconnect j)
      then show "conn_ok (used \<union> set (started [(now, e)])) (outs @ out) s' i" using step_disconnect st ok Some by simp
    qed (use Some in simp_all)
  qed
qed

lemma run_conn_ok:
  assumes "ssh_run lookup sv es s outs = (s', outs')" "\<And>k. conn_ok used outs s k" "wf_map (connections (shPool s))"
    "distinct (started es)" "set (started es) \<inter> used = {}"
  shows "conn_ok (used \<union> set (started es)) outs' s' k"
  using assms
proof (induction es arbitrary: s outs used)
  case (Cons e es)
  obtain now ev where e: "e = (now, ev)" by (cases e)
  obtain s1 out where st: "ssh_step lookup sv (now, ev) s = (s1, out)" by fastforce
  have r: "ssh_run lookup sv es s1 (outs @ out) = (s', outs')" using Cons.prems(1) st e by simp
  have "\<And>i cfg t. ev = EvConnect i cfg t \<Longrightarrow> i \<notin> used" using Cons.prems(5) e by auto
  note c = step_conn_ok [OF st Cons.prems(2,3) this]
  have d: "distinct (started es)" "set (started es) \<inter> (used \<union> set (started [(now, ev)])) = {}"
    using Cons.prems(4,5) e by (auto split: ssh_event.splits)
  have "set (started (e # es)) = set (started [(now, ev)]) \<union> set (started es)" by (simp add: e split: ssh_event.split)
  with Cons.IH [OF r c step_wf [OF st Cons.prems(3)] d] show ?case by (simp add: Un_assoc)
qed simp

text \<open>Connections are only opened to hosts that pass the subnets.\<close>

lemma disconnects_no_connect:
  "SoConnect i cc \<notin> set acc \<Longrightarrow>
     SoConnect i cc \<notin> set (snd (fold (\<lambda>c (s, out). let (s', out') = ssh_disconnect (cid c) now s in (s', out @ out')) cs (s, acc)))"
  by (induction cs arbitrary: s acc) (auto simp: ssh_disconnect_def Let_def split: prod.split option.split)

lemma step_connects:
  "SoConnect i cc \<in> set (snd (ssh_step lookup sv (now, e) s)) \<Longrightarrow>
     \<exists>cfg t. e = EvConnect i cfg t \<and> cc = buildConnectConfig sv cfg \<and> validateConnectionAgainstSubnets lookup sv (sfHost cfg) = ok ()"
  using disconnects_no_connect [of i cc "[]"]
  by (cases e) (auto simp: handler_defs disconnectSession_def ssh_cleanup_def ssh_pool_clear_def Let_def
      split: option.splits sum.splits if_splits prod.splits)

lemma run_connects:
  "ssh_run lookup sv es s outs = (s', outs') \<Longrightarrow> SoConnect i cc \<in> set outs' \<Longrightarrow> SoConnect i cc \<notin> set outs \<Longrightarrow>
     \<exists>cfg t now. (now, EvConnect i cfg t) \<in> set es \<and> cc = buildConnectConfig sv cfg
       \<and> validateConnectionAgainstSubnets lookup sv (sfHost cfg) = ok ()"
proof (induction es arbitrary: s outs)
  case (Cons e es)
  obtain now ev where e: "e = (now, ev)" by (cases e)
  obtain s1 out where st: "ssh_step lookup sv (now, ev) s = (s1, out)" by fastforce
  show ?case
  proof (cases "SoConnect i cc \<in> set out")
    case True
    then show ?thesis using step_connects [of i cc lookup sv now ev s] st e by auto
  next
    case False
    with Cons.prems st e Cons.IH [of s1 "outs @ out"] show ?thesis by auto
  qed
qed simp

section \<open>Properties\<close>

definition new_ssh_service :: "'l session_store \<Rightarrow> ('a, 'l) ssh_service" where
  "new_ssh_service st = \<lparr>shPool = empty_pool, shStore = st, shAttempts = []\<rparr>"

text \<open>C12: A connection attempt has one outcome, and no abandoned connection is pooled.  In any order of
  connects with fresh ids, ready, error and close events of the clients, timer expiries, keyboard rounds and
  disconnects: the promise of a connection is settled at most once; as long as it is not, its timer is armed;
  a pooled connection is one whose promise was settled with success and whose client was never ended; and a
  client only connects to a host that passed the check of the allowed subnets.\<close>

theorem ssh_attempt_one_outcome:
  assumes run: "ssh_run lookup sv es (new_ssh_service st) [] = (s, outs)" and fresh: "distinct (started es)"
  shows "length (settles i outs) \<le> 1
    \<and> (i \<in> set (started es) \<longrightarrow> settles i outs \<noteq> [] \<or> (\<exists>a. map_get (shAttempts s) i = Some a \<and> saTimer a))
    \<and> (ssh_pool_get (shPool s) i \<noteq> None \<longrightarrow> settles i outs = [ok i] \<and> SoEnd i \<notin> set outs)
    \<and> (SoConnect i cc \<in> set outs \<longrightarrow> validateConnectionAgainstSubnets lookup sv (ccHost cc) = ok ())"
proof -
  have "conn_ok {} [] (new_ssh_service st) k" for k
    by (simp add: conn_ok_def new_ssh_service_def ssh_pool_get_def empty_pool_def)
  from run_conn_ok [OF run this _ fresh] have c: "conn_ok (set (started es)) outs s i"
    by (simp add: new_ssh_service_def empty_pool_def)
  have h: "ccHost (buildConnectConfig sv cfg) = sfHost cfg" for cfg
    by (simp add: buildConnectConfig_def Let_def)
  have "SoConnect i cc \<in> set outs \<longrightarrow> validateConnectionAgainstSubnets lookup sv (ccHost cc) = ok ()"
    using run_connects [OF run, of i cc] h by fastforce
  moreover have "i \<in> set (started es) \<longrightarrow> settles i outs \<noteq> [] \<or> (\<exists>a. map_get (shAttempts s) i = Some a \<and> saTimer a)"
    using c by (cases "map_get (shAttempts s) i") (auto simp: conn_ok_def)
  moreover have "length (settles i outs) \<le> 1" using c by (simp add: conn_ok_def)
  moreover have "ssh_pool_get (shPool s) i \<noteq> None \<longrightarrow> settles i outs = [ok i]" using c by (simp add: conn_ok_def)
  moreover have "SoEnd i \<in> set outs \<longrightarrow> ssh_pool_get (shPool s) i = None" using c by (simp add: conn_ok_def)
  ultimately show ?thesis by (intro conjI impI) auto
qed

definition demo_ssh :: "nat ssh_settings" where
  "demo_ssh = \<lparr>svAllowedSubnets = Some [''10.0.0.0/8''], svReadyTimeout = 20000, svKeepaliveInterval = 120000,
     svKeepaliveCountMax = 10, svAllowedAuthMethods = [PasswordToken], svAlgorithms = 0, svAlwaysSendPrompts = False,
     svMaxExecOutputBytes = None, svHostKeys = None\<rparr>"

definition demo_target :: "string \<Rightarrow> nat ssh_config" where
  "demo_target host = \<lparr>sfSessionId = ''s1'', sfHost = host, sfPort = Num 22, sfUsername = ''u'', sfPassword = JStr ''p'',
     sfPrivateKey = JUndefined, sfPassphrase = JUndefined, sfReadyTimeout = None, sfKeepaliveInterval = None,
     sfKeepaliveCountMax = None, sfAlgorithms = None, sfHasCallback = True, sfForwardAllPrompts = False, sfSocket = None\<rparr>"

definition demo_ssh_run :: "(int \<times> nat ssh_event) list \<Rightarrow> (nat, nat) ssh_service \<times> nat ssh_out list" where
  "demo_ssh_run es = ssh_run (\<lambda>_. Inl ''ENOTFOUND'') demo_ssh es
     (new_ssh_service (fst (createSession ''s1'' 0 (new_session_store None)))) []"

definition demo_late_ready :: "(int \<times> nat ssh_event) list" where
  "demo_late_ready = [(1, EvConnect ''c1'' (demo_target ''10.1.1.1'') None), (2, EvConnect ''c2'' (demo_target ''11.1.1.1'') None),
     (3, EvTimeout ''c1''), (4, EvReady ''c1'')]"

theorem ssh_attempt_one_outcome_witness:
  "settles ''c1'' (snd (demo_ssh_run demo_late_ready)) = [err ''Connection timeout'']
   \<and> ssh_pool_get (shPool (fst (demo_ssh_run demo_late_ready))) ''c1'' = None
   \<and> length (settles ''c2'' (snd (demo_ssh_run demo_late_ready))) \<le> 1"
proof -
  let ?r = "demo_ssh_run demo_late_ready"
  have run: "ssh_run (\<lambda>_. Inl ''ENOTFOUND'') demo_ssh demo_late_ready
      (new_ssh_service (fst (createSession ''s1'' 0 (new_session_store None)))) [] = (fst ?r, snd ?r)"
    by (simp add: demo_ssh_run_def)
  have fresh: "distinct (started demo_late_ready)" by code_simp
  have s: "settles ''c1'' (snd ?r) = [err ''Connection timeout'']" by code_simp
  from ssh_attempt_one_outcome [OF run fresh, of "''c1''"] ssh_attempt_one_outcome [OF run fresh, of "''c2''"] s
  show ?thesis by auto
qed

text \<open>The output of a command stays bounded, and is complete unless it was truncated.\<close>

lemma append_bounded_length:
  assumes "length t \<le> maxBytes + (if tr then length marker else 0)" and "append_bounded maxBytes marker d (t, tr) = (t', tr')"
  shows "length t' \<le> maxBytes + (if tr' then length marker else 0)"
  using assms by (auto simp: append_bounded_def Let_def split: if_splits)

lemma stdout_bounded:
  assumes "b = fold (onStdout maxBytes) ds empty_exec_buffer"
  shows "length (ebStdout b) \<le> maxBytes + (if ebStdoutTruncated b then length STDOUT_MARKER else 0)
    \<and> (\<not> ebStdoutTruncated b \<longrightarrow> ebStdout b = concat ds)"
proof -
  have "length (ebStdout b) \<le> maxBytes + (if ebStdoutTruncated b then length STDOUT_MARKER else 0) \<Longrightarrow>
      (\<not> ebStdoutTruncated b \<longrightarrow> ebStdout b = pre) \<Longrightarrow> b' = fold (onStdout maxBytes) ds b \<Longrightarrow>
      length (ebStdout b') \<le> maxBytes + (if ebStdoutTruncated b' then length STDOUT_MARKER else 0)
      \<and> (\<not> ebStdoutTruncated b' \<longrightarrow> ebStdout b' = pre @ concat ds)" for b b' pre
  proof (induction ds arbitrary: b pre)
    case (Cons d ds)
    have "length (ebStdout (onStdout maxBytes d b)) \<le> maxBytes + (if ebStdoutTruncated (onStdout maxBytes d b) then length STDOUT_MARKER else 0)"
      using append_bounded_length [of "ebStdout b" maxBytes "ebStdoutTruncated b" STDOUT_MARKER d] Cons.prems(1)
      by (auto simp: onStdout_def split: prod.split)
    moreover have "\<not> ebStdoutTruncated (onStdout maxBytes d b) \<longrightarrow> ebStdout (onStdout maxBytes d b) = pre @ d"
      using Cons.prems(2) by (auto simp: onStdout_def append_bounded_def Let_def split: if_splits)
    ultimately show ?case using Cons.IH [of "onStdout maxBytes d b" "pre @ d"] Cons.prems(3) by simp
  qed simp
  from this [of empty_exec_buffer "[]" b] assms show ?thesis by (simp add: empty_exec_buffer_def)
qed

section \<open>Corners\<close>

text \<open>The close event of an attempt that timed out marks the session closed although a later attempt of
  the same session is connected and pooled.\<close>

lemma late_close_closes_session:
  "let es = [(1, EvConnect ''c1'' (demo_target ''10.1.1.1'') None), (2, EvTimeout ''c1''),
             (3, EvConnect ''c2'' (demo_target ''10.1.1.1'') None), (4, EvReady ''c2''), (5, EvClose ''c1'')];
       s = fst (demo_ssh_run es)
   in ssh_pool_get (shPool s) ''c2'' \<noteq> None
      \<and> map_option (\<lambda>x. cnStatus (ssConnection x)) (getState (shStore s) ''s1'') = Some Closed"
  by code_simp

text \<open>Truncation drops one chunk and goes on: a later, smaller chunk is appended after the marker.\<close>

lemma truncated_output_continues:
  "ebStdout (fold (onStdout 60) [''abcdef'', replicate 60 CHR ''x'', ''z''] empty_exec_buffer) = ''abcdef'' @ STDOUT_MARKER @ ''z''"
  by code_simp

text \<open>A connection that carries both a password and a key offers only the password.\<close>

lemma key_ignored_with_password:
  "given (sfPassword cfg) \<Longrightarrow> ccPrivateKey (buildConnectConfig sv cfg) = JUndefined"
  by (simp add: buildConnectConfig_def Let_def)

end
