(* ===== verification/Session_Services.thy ===== *)
theory Session_Services
  imports Session_Store
begin

text \<open>
  The services over the session store: \<open>services/session/session-service.ts\<close>, which creates, reads,
  updates and deletes sessions by dispatching actions, and \<open>services/terminal/terminal-service.ts\<close>, which
  keeps one terminal per session and reports its size and environment to the store.  Listener calls of
  the dispatches are those of \<open>Session_Store\<close>.  In a partial update an absent field is \<open>None\<close>.
\<close>

section \<open>Sessions\<close>

record session_info =
  siId :: string
  siState :: session_state
  siCreatedAt :: int
  siUpdatedAt :: int

record session_params =
  spId :: "string option"
  spUserId :: "string option"
  spClientIp :: "string option"
  spUserAgent :: "string option"

definition session_of :: "string \<Rightarrow> session_state \<Rightarrow> session_info" where
  "session_of sid s = \<lparr>siId = sid, siState = s, siCreatedAt = mdCreatedAt (ssMetadata s), siUpdatedAt = mdUpdatedAt (ssMetadata s)\<rparr>"

abbreviation send :: "string \<Rightarrow> session_action \<Rightarrow> int \<Rightarrow> 'l session_store \<Rightarrow> 'l session_store" where
  "send sid a now st \<equiv> fst (dispatch sid a now st)"

definition session_create :: "string \<Rightarrow> int \<Rightarrow> session_params \<Rightarrow> 'l session_store \<Rightarrow>
    'l session_store \<times> (string, session_info) result" where
  "session_create uuid now params st =
     (let sid = (case spId params of None \<Rightarrow> uuid | Some i \<Rightarrow> i)
      in case getState st sid of
           Some s \<Rightarrow> (st, ok (session_of sid s))
         | None \<Rightarrow>
             let (st1, s1) = createSession sid now st
             in if spUserId params \<noteq> None \<or> spClientIp params \<noteq> None \<or> spUserAgent params \<noteq> None
                then let st2 = send sid (METADATA_UPDATE (Some (spUserId params)) (Some (spClientIp params))
                                 (Some (spUserAgent params)) (Some now)) now st1
                     in (case getState st2 sid of
                           None \<Rightarrow> (st2, err ''Session state missing after metadata update'')
                         | Some s2 \<Rightarrow> (st2, ok (session_of sid s2)))
                else (st1, ok (session_of sid s1)))"

definition session_get :: "string \<Rightarrow> 'l session_store \<Rightarrow> session_info option" where
  "session_get sid st = map_option (session_of sid) (getState st sid)"

record auth_updates =
  uaStatus :: "auth_status option"
  uaUsername :: "string option"
  uaMethod :: "string option"
  uaErrorMessage :: "string option"

record connection_updates =
  ucStatus :: "connection_status option"
  ucHost :: "string option"
  ucPort :: "jsnum option"
  ucConnectionId :: "string option"
  ucErrorMessage :: "string option"

record terminal_updates =
  utRows :: "int option"
  utCols :: "int option"
  utEnvironment :: "(string, string) jsmap option"

record metadata_updates =
  umUserId :: "string option option"
  umClientIp :: "string option option"
  umUserAgent :: "string option option"

record session_updates =
  upAuth :: "auth_updates option"
  upConnection :: "connection_updates option"
  upTerminal :: "terminal_updates option"
  upMetadata :: "metadata_updates option"

definition or_else :: "'a option \<Rightarrow> 'a \<Rightarrow> 'a" where
  "or_else x d = (case x of None \<Rightarrow> d | Some y \<Rightarrow> y)"

definition applyAuthUpdates :: "string \<Rightarrow> session_state \<Rightarrow> auth_updates \<Rightarrow> int \<Rightarrow> 'l session_store \<Rightarrow> 'l session_store" where
  "applyAuthUpdates sid state u now st =
     (let method = or_else (nullish_or (uaMethod u) (auMethod (ssAuth state))) ''manual''
      in case uaStatus u of
           Some AuthAuthenticated \<Rightarrow>
             send sid (AUTH_SUCCESS (or_else (nullish_or (uaUsername u) (auUsername (ssAuth state))) []) method None) now st
         | Some AuthFailed \<Rightarrow> send sid (AUTH_FAILURE (or_else (uaErrorMessage u) ''Authentication failed'') method) now st
         | _ \<Rightarrow> st)"

definition dispatchConnectionStart :: "string \<Rightarrow> session_state \<Rightarrow> connection_updates \<Rightarrow> int \<Rightarrow> 'l session_store \<Rightarrow> 'l session_store" where
  "dispatchConnectionStart sid state u now st =
     send sid (CONNECTION_START (or_else (nullish_or (ucHost u) (cnHost (ssConnection state))) [])
        (or_else (nullish_or (ucPort u) (cnPort (ssConnection state))) (Num 22))) now st"

definition dispatchConnectionEstablished :: "string \<Rightarrow> connection_updates \<Rightarrow> int \<Rightarrow> 'l session_store \<Rightarrow> 'l session_store" where
  "dispatchConnectionEstablished sid u now st =
     (case ucConnectionId u of None \<Rightarrow> st | Some c \<Rightarrow> send sid (CONNECTION_ESTABLISHED c) now st)"

definition dispatchConnectionError :: "string \<Rightarrow> connection_updates \<Rightarrow> int \<Rightarrow> 'l session_store \<Rightarrow> 'l session_store" where
  "dispatchConnectionError sid u now st = send sid (CONNECTION_ERROR (or_else (ucErrorMessage u) ''Connection failed'')) now st"

definition dispatchConnectionClosed :: "string \<Rightarrow> int \<Rightarrow> 'l session_store \<Rightarrow> 'l session_store" where
  "dispatchConnectionClosed sid now st = send sid (CONNECTION_CLOSED None) now st"

definition applyConnectionUpdates :: "string \<Rightarrow> session_state \<Rightarrow> connection_updates \<Rightarrow> int \<Rightarrow> 'l session_store \<Rightarrow> 'l session_store" where
  "applyConnectionUpdates sid state u now st =
     (case ucStatus u of
        None \<Rightarrow> st
      | Some Connecting \<Rightarrow> dispatchConnectionStart sid state u now st
      | Some Connected \<Rightarrow> dispatchConnectionEstablished sid u now st
      | Some ConnError \<Rightarrow> dispatchConnectionError sid u now st
      | Some Closed \<Rightarrow> dispatchConnectionClosed sid now st
      | Some Disconnected \<Rightarrow> st)"

definition applyTerminalUpdates :: "string \<Rightarrow> terminal_updates \<Rightarrow> int \<Rightarrow> 'l session_store \<Rightarrow> 'l session_store" where
  "applyTerminalUpdates sid u now st =
     (let st1 = (case (utRows u, utCols u) of (Some r, Some c) \<Rightarrow> send sid (TERMINAL_RESIZE r c) now st | _ \<Rightarrow> st)
      in case utEnvironment u of None \<Rightarrow> st1 | Some e \<Rightarrow> send sid (TERMINAL_SET_ENV e) now st1)"

definition applyMetadataUpdates :: "string \<Rightarrow> metadata_updates \<Rightarrow> int \<Rightarrow> 'l session_store \<Rightarrow> 'l session_store" where
  "applyMetadataUpdates sid u now st =
     send sid (METADATA_UPDATE (umUserId u) (umClientIp u) (umUserAgent u) (Some now)) now st"

definition when_given :: "'u option \<Rightarrow> ('u \<Rightarrow> 's \<Rightarrow> 's) \<Rightarrow> 's \<Rightarrow> 's" where
  "when_given x f s = (case x of None \<Rightarrow> s | Some u \<Rightarrow> f u s)"

definition session_update :: "string \<Rightarrow> session_updates \<Rightarrow> int \<Rightarrow> 'l session_store \<Rightarrow>
    'l session_store \<times> (string, session_info) result" where
  "session_update sid ups now st =
     (case getState st sid of
        None \<Rightarrow> (st, err ''Session not found'')
      | Some state \<Rightarrow>
          let st1 = when_given (upAuth ups) (\<lambda>u. applyAuthUpdates sid state u now) st;
              st2 = when_given (upConnection ups) (\<lambda>u. applyConnectionUpdates sid state u now) st1;
              st3 = when_given (upTerminal ups) (\<lambda>u. applyTerminalUpdates sid u now) st2;
              st4 = when_given (upMetadata ups) (\<lambda>u. applyMetadataUpdates sid u now) st3
          in case getState st4 sid of
               None \<Rightarrow> (st4, err ''Failed to update session'')
             | Some s \<Rightarrow> (st4, ok (session_of sid s)))"

definition session_delete :: "string \<Rightarrow> int \<Rightarrow> 'l session_store \<Rightarrow> 'l session_store" where
  "session_delete sid now st = fst (removeSession sid now st)"

definition session_list :: "'l session_store \<Rightarrow> session_info list" where
  "session_list st = List.map_filter (\<lambda>sid. session_get sid st) (getSessionIds st)"

definition session_stats :: "'l session_store \<Rightarrow> nat \<times> nat" where
  "session_stats st =
     (let sessions = session_list st
      in (length sessions, length (filter (\<lambda>s. isAuthenticated (siState s) \<and> isConnected (siState s)) sessions)))"

definition session_cleanup :: "'l session_store \<Rightarrow> 'l session_store" where
  "session_cleanup st = store_clear st"

section \<open>Terminals\<close>

record terminal =
  tmId :: string
  tmSessionId :: string
  tmTerm :: string
  tmRows :: int
  tmCols :: int
  tmEnv :: "(string, string) jsmap"

record terminal_options =
  toSessionId :: string
  toTerm :: "string option"
  toRows :: "int option"
  toCols :: "int option"
  toEnv :: "(string, string) jsmap option"
  toCwd :: "string option"

record terminal_service =
  tsTerminals :: "(string, terminal) jsmap"
  tsDefaultRows :: int
  tsDefaultCols :: int
  tsDefaultTerm :: string

definition new_terminal_service :: "int option \<Rightarrow> int option \<Rightarrow> string option \<Rightarrow> terminal_service" where
  "new_terminal_service rows columns term_name =
     \<lparr>tsTerminals = [], tsDefaultRows = or_else rows 24, tsDefaultCols = or_else columns 80,
      tsDefaultTerm = or_else term_name ''xterm-256color''\<rparr>"

definition terminal_create :: "terminal_options \<Rightarrow> int \<Rightarrow> terminal_service \<times> 'l session_store \<Rightarrow>
    (terminal_service \<times> 'l session_store) \<times> terminal" where
  "terminal_create opts now s =
     (let (ts, st) = s
      in case map_get (tsTerminals ts) (toSessionId opts) of
           Some existing \<Rightarrow> (s, existing)
         | None \<Rightarrow>
             let t = \<lparr>tmId = ''term-'' @ toSessionId opts, tmSessionId = toSessionId opts,
                      tmTerm = or_else (toTerm opts) (tsDefaultTerm ts), tmRows = or_else (toRows opts) (tsDefaultRows ts),
                      tmCols = or_else (toCols opts) (tsDefaultCols ts), tmEnv = or_else (toEnv opts) []\<rparr>
             in ((ts\<lparr>tsTerminals := map_set (toSessionId opts) t (tsTerminals ts)\<rparr>,
                  send (toSessionId opts) (TERMINAL_INIT (tmTerm t) (tmRows t) (tmCols t) (tmEnv t) (toCwd opts)) now st), t))"

definition terminal_resize :: "string \<Rightarrow> int \<Rightarrow> int \<Rightarrow> int \<Rightarrow> terminal_service \<times> 'l session_store \<Rightarrow>
    (terminal_service \<times> 'l session_store) \<times> (string, unit) result" where
  "terminal_resize sid rows columns now s =
     (let (ts, st) = s
      in case map_get (tsTerminals ts) sid of
           None \<Rightarrow> (s, err ''Terminal not found'')
         | Some t \<Rightarrow>
             if rows \<le> 0 \<or> columns \<le> 0 then (s, err ''Invalid terminal dimensions'')
             else if rows > 1000 \<or> columns > 1000 then (s, err ''Terminal dimensions too large'')
             else ((ts\<lparr>tsTerminals := map_set sid (t\<lparr>tmRows := rows, tmCols := columns\<rparr>) (tsTerminals ts)\<rparr>,
                    send sid (TERMINAL_RESIZE rows columns) now st), ok ()))"

definition terminal_write :: "string \<Rightarrow> int \<Rightarrow> terminal_service \<times> 'l session_store \<Rightarrow>
    (terminal_service \<times> 'l session_store) \<times> (string, unit) result" where
  "terminal_write sid now s =
     (let (ts, st) = s
      in case map_get (tsTerminals ts) sid of
           None \<Rightarrow> (s, err ''Terminal not found'')
         | Some t \<Rightarrow> ((ts, if getState st sid = None then st
                            else send sid (METADATA_UPDATE None None None (Some now)) now st), ok ()))"

definition terminal_destroy :: "string \<Rightarrow> int \<Rightarrow> terminal_service \<times> 'l session_store \<Rightarrow>
    (terminal_service \<times> 'l session_store) \<times> (string, unit) result" where
  "terminal_destroy sid now s =
     (let (ts, st) = s
      in case map_get (tsTerminals ts) sid of
           None \<Rightarrow> (s, err ''Terminal not found'')
         | Some t \<Rightarrow> ((ts\<lparr>tsTerminals := map_delete sid (tsTerminals ts)\<rparr>,
                        if getState st sid = None then st else send sid TERMINAL_DESTROY now st), ok ()))"

definition getTerminal :: "string \<Rightarrow> terminal_service \<Rightarrow> terminal option" where
  "getTerminal sid ts = map_get (tsTerminals ts) sid"

definition updateEnvironment :: "string \<Rightarrow> (string, string) jsmap \<Rightarrow> int \<Rightarrow> terminal_service \<times> 'l session_store \<Rightarrow>
    (terminal_service \<times> 'l session_store) \<times> (string, unit) result" where
  "updateEnvironment sid env now s =
     (let (ts, st) = s
      in case map_get (tsTerminals ts) sid of
           None \<Rightarrow> (s, err ''Terminal not found'')
         | Some t \<Rightarrow>
             let e = spread (tmEnv t) env
             in ((ts\<lparr>tsTerminals := map_set sid (t\<lparr>tmEnv := e\<rparr>) (tsTerminals ts)\<rparr>,
                  send sid (TERMINAL_UPDATE_ENV e) now st), ok ()))"

definition getAllTerminals :: "terminal_service \<Rightarrow> terminal list" where
  "getAllTerminals ts = map_values (tsTerminals ts)"

definition terminals_cleanup :: "int \<Rightarrow> terminal_service \<times> 'l session_store \<Rightarrow> terminal_service \<times> 'l session_store" where
  "terminals_cleanup now s =
     (let (ts, st) = fold (\<lambda>t s. fst (terminal_destroy (tmSessionId t) now s)) (getAllTerminals (fst s)) s
      in (ts\<lparr>tsTerminals := []\<rparr>, st))"

section \<open>Properties\<close>

text \<open>Updates and terminal operations of a session leave every other session as it was.\<close>

lemma send_other: "k \<noteq> sid \<Longrightarrow> store_view (send sid a now st) k = store_view st k"
  using view_dispatch [of sid a now st k] by simp

lemma auth_updates_other: "k \<noteq> sid \<Longrightarrow> store_view (applyAuthUpdates sid state u now st) k = store_view st k"
  by (cases "uaStatus u"; simp add: applyAuthUpdates_def send_other Let_def split: auth_status.split)

lemma connection_updates_other: "k \<noteq> sid \<Longrightarrow> store_view (applyConnectionUpdates sid state u now st) k = store_view st k"
  by (cases "ucStatus u"; simp add: applyConnectionUpdates_def dispatchConnectionStart_def dispatchConnectionEstablished_def
      dispatchConnectionError_def dispatchConnectionClosed_def send_other split: connection_status.split option.split)

lemma terminal_updates_other: "k \<noteq> sid \<Longrightarrow> store_view (applyTerminalUpdates sid u now st) k = store_view st k"
  by (cases "utRows u"; cases "utCols u"; cases "utEnvironment u"; simp add: applyTerminalUpdates_def send_other)

lemma metadata_updates_other: "k \<noteq> sid \<Longrightarrow> store_view (applyMetadataUpdates sid u now st) k = store_view st k"
  by (simp add: applyMetadataUpdates_def send_other)

lemma when_given_other: "(\<And>u. store_view (f u st) k = store_view st k) \<Longrightarrow> store_view (when_given x f st) k = store_view st k"
  by (cases x) (simp_all add: when_given_def)

lemma update_other: "k \<noteq> sid \<Longrightarrow> store_view (fst (session_update sid ups now st)) k = store_view st k"
  by (cases "getState st sid") (simp_all add: session_update_def Let_def when_given_other auth_updates_other
      connection_updates_other terminal_updates_other metadata_updates_other split: option.split)

subsection \<open>The terminals and the store\<close>

lemma getState_send:
  "getState (send sid a now st) k = (if k = sid then map_option (reduce (now, a)) (getState st sid) else getState st k)"
  using view_dispatch [of sid a now st k]
  by (cases "getState st sid") (auto simp: spec_dispatch_def reduce_def or_same_def split: option.splits dest!: arg_cong [where f = vState])

lemma ssTerminal_reduce:
  "a \<noteq> SESSION_RESET \<Longrightarrow> ssTerminal (reduce (now, a) s) = or_same (ssTerminal s) (terminalReducer (ssTerminal s) a)"
  by (cases a) (simp_all add: reducer_simps applySessionEnd_def)

lemma map_get_fold_set:
  "map_get (fold (\<lambda>(k, v). map_set k v) b a) k = (case map_get (rev b) k of None \<Rightarrow> map_get a k | Some v \<Rightarrow> Some v)"
  by (induction b arbitrary: a rule: rev_induct) (auto simp: map_get_set split: option.splits)

text \<open>What the operations of the terminal service do, in a run that also holds the other parts' actions.\<close>

datatype terminal_op =
    TCreate terminal_options
  | TResize string int int
  | TWrite string
  | TDestroy string
  | TEnv string "(string, string) jsmap"
  | TOther string session_action

fun terminal_apply :: "int \<times> terminal_op \<Rightarrow> terminal_service \<times> 'l session_store \<Rightarrow> terminal_service \<times> 'l session_store" where
  "terminal_apply (now, TCreate opts) s = fst (terminal_create opts now s)"
| "terminal_apply (now, TResize sid r c) s = fst (terminal_resize sid r c now s)"
| "terminal_apply (now, TWrite sid) s = fst (terminal_write sid now s)"
| "terminal_apply (now, TDestroy sid) s = fst (terminal_destroy sid now s)"
| "terminal_apply (now, TEnv sid e) s = fst (updateEnvironment sid e now s)"
| "terminal_apply (now, TOther sid a) s = (fst s, send sid a now (snd s))"

fun leaves_terminal :: "int \<times> terminal_op \<Rightarrow> bool" where
  "leaves_terminal (now, TOther sid a) = (a \<noteq> SESSION_RESET \<and> terminalReducer default_terminal a = None)"
| "leaves_terminal x = True"

fun sets_env :: "terminal_op \<Rightarrow> (string, string) jsmap" where
  "sets_env (TCreate opts) = or_else (toEnv opts) []"
| "sets_env (TEnv sid e) = e"
| "sets_env x = []"

definition terminal_agrees :: "terminal \<Rightarrow> terminal_info \<Rightarrow> bool" where
  "terminal_agrees t i \<longleftrightarrow> trTerm i = tmTerm t \<and> trRows i = tmRows t \<and> trCols i = tmCols t \<and>
     (\<forall>k. map_get (trEnvironment i) k = map_get (tmEnv t) k)"

definition terminals_agree :: "terminal_service \<times> 'l session_store \<Rightarrow> bool" where
  "terminals_agree s \<longleftrightarrow> (\<forall>sid t st. getTerminal sid (fst s) = Some t \<longrightarrow> wf_map (tmEnv t) \<and> tmSessionId t = sid \<and>
      (getState (snd s) sid = Some st \<longrightarrow> terminal_agrees t (ssTerminal st)))"

lemma map_of_rev_wf: "wf_map b \<Longrightarrow> map_get (rev b) k = map_get b k"
  by (induction b) (auto simp: wf_map_def map_add_def dom_map_of_conv_image_fst split: option.splits
      dest: map_of_SomeD intro: rev_image_eqI)

lemma spread_get: "wf_map b \<Longrightarrow>
    map_get (spread a b) k = (case map_get b k of None \<Rightarrow> map_get a k | Some v \<Rightarrow> Some v)"
  by (simp add: spread_def map_get_fold_set map_of_rev_wf)

lemma wf_spread [simp, intro]: "wf_map a \<Longrightarrow> wf_map (spread a b)"
  unfolding spread_def by (induction b arbitrary: a) (auto split: prod.splits)

lemma agrees_reduce: "terminal_agrees t (ssTerminal st) \<Longrightarrow> a \<noteq> SESSION_RESET \<Longrightarrow>
    terminalReducer default_terminal a = None \<Longrightarrow> terminal_agrees t (ssTerminal (reduce (now, a) st))"
  by (cases a) (simp_all add: ssTerminal_reduce or_same_def)

lemma agree_set:
  assumes "terminals_agree (ts, st)" "wf_map (tmEnv t)" "tmSessionId t = sid"
    and "\<And>s. getState st sid = Some s \<Longrightarrow> terminal_agrees t (ssTerminal (reduce (now, a) s))"
  shows "terminals_agree (ts\<lparr>tsTerminals := map_set sid t (tsTerminals ts)\<rparr>, send sid a now st)"
  using assms by (auto simp: terminals_agree_def getTerminal_def getState_send map_get_set)

lemma agree_delete:
  assumes "terminals_agree (ts, st)"
  shows "terminals_agree (ts\<lparr>tsTerminals := map_delete sid (tsTerminals ts)\<rparr>, send sid a now st)"
    and "terminals_agree (ts\<lparr>tsTerminals := map_delete sid (tsTerminals ts)\<rparr>, st)"
  using assms by (auto simp: terminals_agree_def getTerminal_def getState_send map_get_delete)

lemma agree_send:
  assumes "terminals_agree (ts, st)" "a \<noteq> SESSION_RESET" "terminalReducer default_terminal a = None"
  shows "terminals_agree (ts, send sid a now st)"
  using assms by (auto simp: terminals_agree_def getState_send agrees_reduce)

lemma agreeD:
  assumes "terminals_agree (ts, st)" "map_get (tsTerminals ts) sid = Some t"
  shows "wf_map (tmEnv t)" "tmSessionId t = sid"
    and "getState st sid = Some s \<Longrightarrow> terminal_agrees t (ssTerminal s)"
  using assms by (auto simp: terminals_agree_def getTerminal_def)

lemma agrees_init: "terminal_agrees t (ssTerminal (reduce (now, TERMINAL_INIT (tmTerm t) (tmRows t) (tmCols t) (tmEnv t) d) s))"
  by (simp add: terminal_agrees_def ssTerminal_reduce or_same_def)

lemma agrees_resize: "terminal_agrees t (ssTerminal s) \<Longrightarrow>
    terminal_agrees (t\<lparr>tmRows := r, tmCols := c\<rparr>) (ssTerminal (reduce (now, TERMINAL_RESIZE r c) s))"
  by (simp add: terminal_agrees_def ssTerminal_reduce or_same_def)

lemma agrees_env: "terminal_agrees t (ssTerminal s) \<Longrightarrow> wf_map (tmEnv t) \<Longrightarrow> wf_map e \<Longrightarrow>
    terminal_agrees (t\<lparr>tmEnv := spread (tmEnv t) e\<rparr>) (ssTerminal (reduce (now, TERMINAL_UPDATE_ENV (spread (tmEnv t) e)) s))"
  by (auto simp: terminal_agrees_def ssTerminal_reduce or_same_def spread_get split: option.splits)

lemma create_agrees:
  assumes "terminals_agree (ts, st)" "wf_map (sets_env (TCreate opts))"
  shows "terminals_agree (fst (terminal_create opts now (ts, st)))"
proof (cases "map_get (tsTerminals ts) (toSessionId opts)")
  case None
  then show ?thesis
    unfolding terminal_create_def Let_def
    using assms by (simp del: append.simps) (rule agree_set, simp_all add: terminal_agrees_def ssTerminal_reduce or_same_def)
qed (simp add: terminal_create_def assms)

lemma resize_agrees: "terminals_agree (ts, st) \<Longrightarrow> terminals_agree (fst (terminal_resize sid r c now (ts, st)))"
  by (cases "map_get (tsTerminals ts) sid")
    (simp_all add: terminal_resize_def agree_set agrees_resize agreeD)

lemma write_agrees: "terminals_agree (ts, st) \<Longrightarrow> terminals_agree (fst (terminal_write sid now (ts, st)))"
  by (cases "map_get (tsTerminals ts) sid") (simp_all add: terminal_write_def agree_send)

lemma destroy_agrees: "terminals_agree (ts, st) \<Longrightarrow> terminals_agree (fst (terminal_destroy sid now (ts, st)))"
  by (cases "map_get (tsTerminals ts) sid") (simp_all add: terminal_destroy_def agree_delete)

lemma env_agrees: "terminals_agree (ts, st) \<Longrightarrow> wf_map e \<Longrightarrow> terminals_agree (fst (updateEnvironment sid e now (ts, st)))"
  by (cases "map_get (tsTerminals ts) sid") (simp_all add: updateEnvironment_def Let_def agree_set agrees_env agreeD)

lemma terminals_agree_step: "terminals_agree s \<Longrightarrow> leaves_terminal x \<Longrightarrow> wf_map (sets_env (snd x)) \<Longrightarrow>
    terminals_agree (terminal_apply x s)"
  by (cases s; cases x; cases "snd x")
    (simp_all add: create_agrees resize_agrees write_agrees destroy_agrees env_agrees agree_send)

text \<open>A run of the terminal service's operations (create, resize, write, environment, destroy) mixed with
  actions of the other parts keeps, for every session of the store that has a terminal, the terminal's type,
  size and environment equal to the ones the store holds.\<close>

theorem terminals_mirror_store:
  assumes "\<forall>x\<in>set xs. leaves_terminal x \<and> wf_map (sets_env (snd x))"
    and "getTerminal sid (fst (fold terminal_apply xs (new_terminal_service r c tn, st))) = Some t"
    and "getState (snd (fold terminal_apply xs (new_terminal_service r c tn, st))) sid = Some state"
  shows "terminal_agrees t (ssTerminal state)"
proof -
  have "terminals_agree (new_terminal_service r c tn, st)"
    by (simp add: terminals_agree_def getTerminal_def new_terminal_service_def)
  with assms(1) have "terminals_agree (fold terminal_apply xs (new_terminal_service r c tn, st))"
    by (induction xs rule: rev_induct) (simp_all add: terminals_agree_step)
  with assms(2,3) show ?thesis
    by (simp add: terminals_agree_def)
qed

definition example_run :: "(int \<times> terminal_op) list" where
  "example_run = [(1, TCreate \<lparr>toSessionId = ''s'', toTerm = None, toRows = Some 0, toCols = None,
      toEnv = Some [(''A'', ''1'')], toCwd = None\<rparr>), (2, TResize ''s'' 30 100), (3, TEnv ''s'' [(''B'', ''2'')]),
      (4, TOther ''s'' CONNECTION_ACTIVITY), (5, TResize ''s'' 0 9)]"

definition example_terminals :: "terminal_service \<times> unit session_store" where
  "example_terminals = fold terminal_apply example_run
     (new_terminal_service None None None, fst (createSession ''s'' 0 (new_session_store None)))"

theorem terminals_mirror_store_witness:
  "terminal_agrees (the (getTerminal ''s'' (fst example_terminals))) (ssTerminal (the (getState (snd example_terminals) ''s''))) \<and>
   map_option tmRows (getTerminal ''s'' (fst example_terminals)) = Some 30"
proof
  show rows: "map_option tmRows (getTerminal ''s'' (fst example_terminals)) = Some 30"
    by code_simp
  have "map_option tmTerm (getTerminal ''s'' (fst example_terminals)) = Some ''xterm-256color''"
    "map_option ssId (getState (snd example_terminals) ''s'') = Some ''s''"
    by code_simp+
  moreover have "\<forall>x\<in>set example_run. leaves_terminal x \<and> wf_map (sets_env (snd x))"
    by (simp add: example_run_def or_else_def wf_map_def)
  ultimately show "terminal_agrees (the (getTerminal ''s'' (fst example_terminals))) (ssTerminal (the (getState (snd example_terminals) ''s'')))"
    unfolding example_terminals_def
    by (auto intro!: terminals_mirror_store)
qed

text \<open>The size check of resize does not apply when a terminal is created, and an update of the session through
  the session service does not reach the terminal.\<close>

lemma resize_in_range: "map_get (tsTerminals ts) sid = Some t \<Longrightarrow>
    snd (terminal_resize sid r c now (ts, st)) = ok () \<longleftrightarrow> 1 \<le> r \<and> r \<le> 1000 \<and> 1 \<le> c \<and> c \<le> 1000"
  by (auto simp: terminal_resize_def)

lemma create_any_size:
  "tmRows (snd (terminal_create \<lparr>toSessionId = ''s'', toTerm = None, toRows = Some (-5), toCols = None, toEnv = None,
     toCwd = None\<rparr> 0 (new_terminal_service None None None, new_session_store None))) = -5"
  by (simp add: terminal_create_def new_terminal_service_def or_else_def Let_def)

end
