(* ===== verification/Auth_Pipeline.thy ===== *)
theory Auth_Pipeline
  imports Ssh_Service
begin

text \<open>
  Where the credentials of a socket come from and how they become the configuration of a connection:
  the pipeline \<open>auth/auth-pipeline.ts\<close> with its providers, \<open>socket/adapters/ssh-config.ts\<close> and the
  text and kind of a connection error (\<open>services/ssh/error-normalizer.ts\<close>, \<open>determineErrorType\<close> of
  \<open>service-socket-authentication.ts\<close>).  The HTTP session of the request is shared with the routes;
  the pipeline reads it at every call.
\<close>

section \<open>Providers\<close>

record http_session =
  htUsedBasicAuth :: bool
  htAuthMethod :: "string option"
  htCredentials :: jsval
  htAuthFailed :: "bool option"
  htEnvVars :: "(string, string) jsmap option"

datatype auth_method = Manual | BasicAuth | Post

text \<open>A basic or POST provider keeps the request, a manual one what it was given.\<close>

datatype auth_provider = ManualAuthProvider "jsval option" | BasicAuthProvider | PostAuthProvider

definition basic_ready :: "http_session option \<Rightarrow> bool" where
  "basic_ready ses = (case ses of None \<Rightarrow> False | Some h \<Rightarrow> htUsedBasicAuth h \<and> \<not> nullish (htCredentials h))"

definition post_ready :: "http_session option \<Rightarrow> bool" where
  "post_ready ses = (case ses of None \<Rightarrow> False | Some h \<Rightarrow> htAuthMethod h = Some ''POST'' \<and> \<not> nullish (htCredentials h))"

definition stored_credentials :: "http_session option \<Rightarrow> jsval option" where
  "stored_credentials ses = (case ses of None \<Rightarrow> None | Some h \<Rightarrow> convertToAuthCredentials (htCredentials h))"

fun provider_credentials :: "http_session option \<Rightarrow> auth_provider \<Rightarrow> jsval option" where
  "provider_credentials ses (ManualAuthProvider c) = c"
| "provider_credentials ses BasicAuthProvider = (if basic_ready ses then stored_credentials ses else None)"
| "provider_credentials ses PostAuthProvider = (if post_ready ses then stored_credentials ses else None)"

fun provider_method :: "auth_provider \<Rightarrow> auth_method" where
  "provider_method (ManualAuthProvider c) = Manual"
| "provider_method BasicAuthProvider = BasicAuth"
| "provider_method PostAuthProvider = Post"

fun provider_authenticated :: "http_session option \<Rightarrow> auth_provider \<Rightarrow> bool" where
  "provider_authenticated ses (ManualAuthProvider c) = (case c of None \<Rightarrow> False | Some v \<Rightarrow> isValidCredentials v)"
| "provider_authenticated ses BasicAuthProvider = basic_ready ses"
| "provider_authenticated ses PostAuthProvider = post_ready ses"

section \<open>The pipeline\<close>

definition detectAuthProvider :: "http_session option \<Rightarrow> auth_provider" where
  "detectAuthProvider ses =
     (if (case ses of None \<Rightarrow> False | Some h \<Rightarrow> htAuthFailed h = Some True) then ManualAuthProvider None
      else if basic_ready ses then BasicAuthProvider
      else if post_ready ses then PostAuthProvider
      else ManualAuthProvider None)"

definition setManualCredentials :: "jsval \<Rightarrow> auth_provider \<Rightarrow> auth_provider \<times> bool" where
  "setManualCredentials creds p = (if isValidCredentials creds then (ManualAuthProvider (Some creds), True) else (p, False))"

definition requiresAuthRequest :: "http_session option \<Rightarrow> auth_provider \<Rightarrow> bool" where
  "requiresAuthRequest ses p \<longleftrightarrow> (case p of ManualAuthProvider _ \<Rightarrow> \<not> provider_authenticated ses p | _ \<Rightarrow> False)"

text \<open>The factory of \<open>auth-factory.ts\<close> and the manual provider of \<open>manual-auth.provider.ts\<close>.\<close>

definition createAuthProvider :: "http_session option \<Rightarrow> auth_provider" where
  "createAuthProvider ses =
     (case ses of None \<Rightarrow> ManualAuthProvider None
      | Some h \<Rightarrow> if htUsedBasicAuth h then BasicAuthProvider
                  else if htAuthMethod h = Some ''POST'' then PostAuthProvider else ManualAuthProvider None)"

definition getAuthMethod :: "http_session option \<Rightarrow> auth_method" where
  "getAuthMethod ses = provider_method (createAuthProvider ses)"

section \<open>The configuration of a connection\<close>

text \<open>Credentials after the pipeline; a missing one is \<open>undefined\<close>.\<close>

record auth_credentials =
  acUsername :: jsval
  acHost :: jsval
  acPort :: jsval
  acPassword :: jsval
  acPrivateKey :: jsval
  acPassphrase :: jsval
  acForwardAll :: jsval

definition given_or_undefined :: "jsval \<Rightarrow> jsval" where
  "given_or_undefined v = (if given v then v else JUndefined)"

text \<open>The timings and algorithms come from the configuration of the server.\<close>

definition buildSSHConfig :: "auth_credentials \<Rightarrow> string \<Rightarrow> 'a ssh_settings \<Rightarrow> bool \<Rightarrow> bool \<Rightarrow> 'a ssh_config" where
  "buildSSHConfig c sid sv hasHandler forwardAllOption =
     \<lparr>sfSessionId = sid, sfHost = str_of (acHost c), sfPort = num_of (acPort c), sfUsername = str_of (acUsername c),
      sfPassword = given_or_undefined (acPassword c), sfPrivateKey = given_or_undefined (acPrivateKey c),
      sfPassphrase = given_or_undefined (acPassphrase c), sfReadyTimeout = Some (svReadyTimeout sv),
      sfKeepaliveInterval = Some (svKeepaliveInterval sv), sfKeepaliveCountMax = None,
      sfAlgorithms = Some (svAlgorithms sv), sfHasCallback = hasHandler,
      sfForwardAllPrompts = (acForwardAll c = JBool True \<or> forwardAllOption), sfSocket = None\<rparr>"

section \<open>Connection errors\<close>

record ssh_error =
  seIsError :: bool
  seMessage :: string
  seCode :: "string option"
  seStack :: "string option"
  seName :: string

definition is_word_char :: "char \<Rightarrow> bool" where
  "is_word_char c \<longleftrightarrow> (97 \<le> code c \<and> code c \<le> 122) \<or> (65 \<le> code c \<and> code c \<le> 90) \<or>
     (48 \<le> code c \<and> code c \<le> 57) \<or> code c = 95"

text \<open>The word at the start of a text, and the bracketed word after it and one white space.\<close>

definition leading_word :: "string \<Rightarrow> string option" where
  "leading_word s = (let w = takeWhile is_word_char s in if w = [] then None else Some w)"

definition bracketed_word :: "string \<Rightarrow> string option" where
  "bracketed_word s =
     (if leading_word s = None then None
      else case dropWhile is_word_char s of
             b # CHR ''['' # r \<Rightarrow>
               (if is_space b \<and> takeWhile is_word_char r \<noteq> [] \<and> starts_with (dropWhile is_word_char r) '']''
                then Some (takeWhile is_word_char r) else None)
           | _ \<Rightarrow> None)"

definition stack_text :: "string \<Rightarrow> string option" where
  "stack_text s = (case bracketed_word s of Some c \<Rightarrow> Some c
     | None \<Rightarrow> (case leading_word s of Some t \<Rightarrow> if t \<noteq> ''Error'' then Some t else None | None \<Rightarrow> None))"

definition normalizeSSHErrorMessage :: "ssh_error \<Rightarrow> string" where
  "normalizeSSHErrorMessage e =
     (if \<not> seIsError e then ''Unknown SSH error''
      else if seMessage e \<noteq> [] then seMessage e
      else case seCode e of
        Some (c # cs) \<Rightarrow> c # cs
      | _ \<Rightarrow> (case (case seStack e of None \<Rightarrow> None | Some s \<Rightarrow> stack_text s) of
               Some t \<Rightarrow> t
             | None \<Rightarrow> if seName e \<noteq> [] \<and> seName e \<noteq> ''Error'' then seName e else ''Connection failed''))"

datatype error_type = ErrAuth | ErrAlgorithm | ErrTimeout | ErrNetwork | ErrUnknown

definition determineErrorType :: "string \<Rightarrow> error_type" where
  "determineErrorType message =
     (let m = to_lower message; has = (\<lambda>ws. list_ex (str_includes m) ws)
      in if has [''authentication'', ''auth'', ''password'', ''permission denied''] then ErrAuth
         else if has [''algorithm'', ''handshake'', ''no matching''] then ErrAlgorithm
         else if has [''timeout'', ''timed out''] then ErrTimeout
         else if has [''econnrefused'', ''enotfound'', ''connect'', ''network'', ''unreachable''] then ErrNetwork
         else ErrUnknown)"

fun getErrorTitle :: "error_type \<Rightarrow> string" where
  "getErrorTitle ErrAuth = ''Authentication Failed''"
| "getErrorTitle ErrAlgorithm = ''Algorithm Mismatch''"
| "getErrorTitle ErrTimeout = ''Connection Timeout''"
| "getErrorTitle ErrNetwork = ''Connection Failed''"
| "getErrorTitle ErrUnknown = ''SSH Connection Error''"

text \<open>\<open>clearSessionCredentials\<close>: the next attempt prompts for new credentials.\<close>

definition clearSessionCredentials :: "http_session option \<Rightarrow> http_session option" where
  "clearSessionCredentials = map_option (\<lambda>h. h\<lparr>htCredentials := JUndefined, htUsedBasicAuth := False, htAuthFailed := Some True\<rparr>)"

section \<open>Lemmas\<close>

text \<open>Credentials a pipeline hands out are well shaped.\<close>

definition provider_ok :: "auth_provider \<Rightarrow> bool" where
  "provider_ok p \<longleftrightarrow> (case p of ManualAuthProvider (Some c) \<Rightarrow> isValidCredentials c | _ \<Rightarrow> True)"

lemma provider_ok_detect [simp]: "provider_ok (detectAuthProvider ses)"
  by (auto simp: detectAuthProvider_def provider_ok_def split: option.split)

lemma provider_ok_set [simp]: "provider_ok p \<Longrightarrow> provider_ok (fst (setManualCredentials creds p))"
  by (simp add: setManualCredentials_def provider_ok_def)

text \<open>A normalised message is never empty.\<close>

lemma stack_text_nonempty: "stack_text s = Some t \<Longrightarrow> t \<noteq> []"
  by (auto simp: stack_text_def bracketed_word_def leading_word_def Let_def split: option.splits if_splits list.splits char.splits bool.splits)

lemma message_nonempty: "normalizeSSHErrorMessage e \<noteq> []"
  by (auto simp: normalizeSSHErrorMessage_def dest: stack_text_nonempty split: option.split list.split)

text \<open>After an authentication failure nothing stored is used again, whatever the routes stored.\<close>

lemma cleared_prompts: "ses \<noteq> None \<Longrightarrow>
    detectAuthProvider (clearSessionCredentials ses) = ManualAuthProvider None"
  by (auto simp: clearSessionCredentials_def detectAuthProvider_def)

text \<open>The factory does not look at the failure flag nor at the credentials, unlike the pipeline.\<close>

lemma factory_ignores_failure:
  "createAuthProvider (Some \<lparr>htUsedBasicAuth = True, htAuthMethod = None, htCredentials = JUndefined,
      htAuthFailed = Some True, htEnvVars = None\<rparr>) = BasicAuthProvider"
  "detectAuthProvider (Some \<lparr>htUsedBasicAuth = True, htAuthMethod = None, htCredentials = JUndefined,
      htAuthFailed = Some True, htEnvVars = None\<rparr>) = ManualAuthProvider None"
  by (simp_all add: createAuthProvider_def detectAuthProvider_def)

text \<open>A refused connection whose message mentions the host ``authproxy'' counts as an authentication failure.\<close>

lemma host_name_decides_type: "determineErrorType ''connect ECONNREFUSED authproxy:22'' = ErrAuth"
  by code_simp

end
