(* ===== verification/Socket_Auth.thy ===== *)
theory Socket_Auth
  imports Auth_Pipeline Session_Services
begin

text \<open>
  The authentication of one socket: \<open>socket/adapters/service-socket-authentication.ts\<close>, the disconnection
  and control messages of \<open>service-socket-control.ts\<close> and the shared state of \<open>service-socket-shared.ts\<close>.
  An attempt prepares the credentials, asks the authentication service for a session and then waits for the
  connection service; the answer of the connection service is an event of its own, so that other messages,
  a second attempt or the disconnection can come in between.  Emitted messages and calls of the connection
  services are outputs.  Attempts are numbered.  A payload that is no object makes the handler throw.
\<close>

section \<open>Configuration and state\<close>

datatype protocol = SshProtocol | TelnetProtocol

record telnet_settings =
  tcTimeout :: int
  tcTerm :: string
  tcExpectTimeout :: int
  tcLoginPrompt :: string
  tcPasswordPrompt :: string
  tcFailurePattern :: string

record sftp_limits =
  slEnabled :: bool
  slMaxFileSize :: int
  slChunkSize :: int
  slMaxConcurrentTransfers :: int
  slAllowedPaths :: "string list option"
  slBlockedExtensions :: "string list"

record sftp_status =
  ssMaxFileSize :: int
  ssChunkSize :: int
  ssMaxConcurrentTransfers :: int
  ssHasPathRestrictions :: bool
  ssBlockedExtensions :: "string list"

text \<open>What the client is told of the host key verification: enabled, client store enabled, action.\<close>

type_synonym host_key_info = "bool \<times> bool \<times> string"

record 'a socket_config =
  scProtocol :: protocol
  scSocketId :: string
  scSsh :: "'a ssh_settings"
  scHost :: "string option"
  scPort :: jsnum
  scAllowReplay :: bool
  scReplayCRLF :: bool
  scAllowReauth :: bool
  scAllowReconnect :: bool
  scAutoLog :: bool
  scTelnetService :: bool
  scTelnet :: "telnet_settings option"
  scSftp :: "sftp_limits option"
  scHostKeyInfo :: host_key_info

record adapter_state =
  asSessionId :: "string option"
  asConnectionId :: "string option"
  asHasShell :: bool
  asStoredPassword :: "string option"
  asOriginalMethod :: "auth_method option"
  asTerm :: jsval
  asRows :: jsval
  asCols :: jsval
  asTargetHost :: jsval
  asTargetPort :: jsval
  asUsername :: jsval
  asRequestedKeyboardInteractive :: bool

definition createAdapterSharedState :: adapter_state where
  "createAdapterSharedState = \<lparr>asSessionId = None, asConnectionId = None, asHasShell = False, asStoredPassword = None,
     asOriginalMethod = None, asTerm = JUndefined, asRows = JUndefined, asCols = JUndefined, asTargetHost = JNull,
     asTargetPort = JNull, asUsername = JNull, asRequestedKeyboardInteractive = False\<rparr>"

text \<open>A pending attempt keeps its credentials and the session it was given.\<close>

record 'l socket_auth =
  skHttp :: "http_session option"
  skProvider :: auth_provider
  skState :: adapter_state
  skAuth :: auth_service
  skStore :: "'l session_store"
  skTerminals :: terminal_service
  skPending :: "(nat, auth_credentials \<times> string) jsmap"
  skNext :: nat

record telnet_config =
  tnSessionId :: string
  tnHost :: string
  tnPort :: jsnum
  tnUsername :: string
  tnPassword :: jsval
  tnTimeout :: int
  tnTerm :: string
  tnExpectTimeout :: int
  tnLoginPrompt :: "string option"
  tnPasswordPrompt :: "string option"
  tnFailurePattern :: "string option"

datatype 'a auth_event_out =
    RequestAuth
  | AuthFailureMessage string
  | AuthSuccessMessage nat
  | ReauthRequest
  | MethodDisabled auth_token
  | ConnectionErrorMessage nat error_type string string jsval jsval bool bool
  | Permissions bool bool bool bool "host_key_info option"
  | SftpStatus "sftp_status option"
  | GetTerminal
  | FooterText string jsval jsval
  | StatusConnected
  | SshErrorMessage string
  | CredentialPrompt
  | ShellWrite string
  | ConnectSsh nat "'a ssh_config"
  | ConnectTelnet nat telnet_config
  | DisconnectConnection protocol string
  | Rejection

text \<open>The steps below take the state and return it with the outputs.\<close>

abbreviation on_state :: "(adapter_state \<Rightarrow> adapter_state) \<Rightarrow> 'l socket_auth \<Rightarrow> 'l socket_auth" where
  "on_state f k \<equiv> k\<lparr>skState := f (skState k)\<rparr>"

section \<open>Preparing the credentials\<close>

text \<open>\<open>Object.keys(v).length\<close> of an object or array.\<close>

fun own_keys :: "jsval \<Rightarrow> nat" where
  "own_keys (JObj m) = length m"
| "own_keys (JArr xs) = length xs"
| "own_keys _ = 0"

text \<open>\<open>k: v\<close> unless \<open>v\<close> is undefined.\<close>

definition present :: "string \<Rightarrow> jsval \<Rightarrow> (string \<times> jsval) list" where
  "present k v = (if v = JUndefined then [] else [(k, v)])"

definition pipelineCredentials :: "jsval \<Rightarrow> jsval" where
  "pipelineCredentials c = JObj ([(''username'', jget c ''username''), (''host'', jget c ''host''), (''port'', jget c ''port'')]
     @ present ''password'' (jget c ''password'') @ present ''privateKey'' (jget c ''privateKey'')
     @ present ''passphrase'' (jget c ''passphrase''))"

definition updateAuthPipeline :: "jsval \<Rightarrow> 'l socket_auth \<Rightarrow> 'l socket_auth \<times> bool" where
  "updateAuthPipeline c k =
     (if own_keys c = 0 then (k, True)
      else let (p, done) = setManualCredentials (pipelineCredentials c) (skProvider k)
           in (k\<lparr>skProvider := p\<rparr>, done))"

definition policy_of :: "jsval \<Rightarrow> 'l socket_auth \<Rightarrow> policy_context" where
  "policy_of v k = \<lparr>pcPassword = jget v ''password'', pcPrivateKey = jget v ''privateKey'',
     pcRequestedKeyboardInteractive = asRequestedKeyboardInteractive (skState k)\<rparr>"

definition storeTerminalSettings :: "jsval \<Rightarrow> adapter_state \<Rightarrow> adapter_state" where
  "storeTerminalSettings c s =
     s\<lparr>asTerm := (if jget c ''term'' \<noteq> JUndefined then jget c ''term'' else asTerm s),
       asRows := (if jget c ''rows'' \<noteq> JUndefined then jget c ''rows'' else asRows s),
       asCols := (if jget c ''cols'' \<noteq> JUndefined then jget c ''cols'' else asCols s)\<rparr>"

definition storePasswordIfEnabled :: "'a socket_config \<Rightarrow> jsval \<Rightarrow> adapter_state \<Rightarrow> adapter_state" where
  "storePasswordIfEnabled cf v s =
     (case jget v ''password'' of
        JStr p \<Rightarrow> if scAllowReplay cf \<and> p \<noteq> [] then s\<lparr>asStoredPassword := Some p\<rparr> else s
      | _ \<Rightarrow> s)"

definition or_nullish :: "jsval \<Rightarrow> jsval \<Rightarrow> jsval" where
  "or_nullish x d = (if nullish x then d else x)"

definition buildAuthCredentials :: "jsval \<Rightarrow> jsval \<Rightarrow> auth_credentials" where
  "buildAuthCredentials v c =
     \<lparr>acUsername = or_nullish (jget v ''username'') (jget c ''username''), acHost = or_nullish (jget v ''host'') (jget c ''host''),
      acPort = or_nullish (jget v ''port'') (jget c ''port''), acPassword = jget v ''password'',
      acPrivateKey = jget v ''privateKey'', acPassphrase = jget v ''passphrase'', acForwardAll = JUndefined\<rparr>"

definition set_target :: "auth_credentials \<Rightarrow> adapter_state \<Rightarrow> adapter_state" where
  "set_target a s = s\<lparr>asTargetHost := acHost a, asTargetPort := acPort a, asUsername := acUsername a\<rparr>"

definition initializeAuthAttempt :: "jsval \<Rightarrow> 'l socket_auth \<Rightarrow> 'l socket_auth" where
  "initializeAuthAttempt c k =
     on_state (\<lambda>s. s\<lparr>asUsername := jget c ''username'',
        asOriginalMethod := nullish_or (asOriginalMethod s) (Some (provider_method (skProvider k)))\<rparr>) k"

text \<open>\<open>prepareAuthCredentials\<close>: the credentials of the attempt, or the messages of its refusal.\<close>

definition prepareAuthCredentials :: "'a socket_config \<Rightarrow> jsval \<Rightarrow> 'l socket_auth \<Rightarrow>
    'l socket_auth \<times> ('a auth_event_out list, auth_credentials) result" where
  "prepareAuthCredentials cf c k =
     (let (k1, done) = updateAuthPipeline c k
      in if \<not> done then (k1, err [AuthFailureMessage ''Invalid credentials''])
         else case provider_credentials (skHttp k1) (skProvider k1) of
           None \<Rightarrow> (k1, err [AuthFailureMessage ''No credentials available''])
         | Some v \<Rightarrow>
             (case (if scProtocol cf = SshProtocol
                    then evaluateAuthMethodPolicy (svAllowedAuthMethods (scSsh cf)) (policy_of v k1) else ok []) of
                Inl m \<Rightarrow> (on_state (\<lambda>s. s\<lparr>asRequestedKeyboardInteractive := False\<rparr>) k1,
                          err [MethodDisabled m, AuthFailureMessage ''Authentication method disabled by server policy''])
              | Inr _ \<Rightarrow>
                  let a = buildAuthCredentials v c
                  in (on_state (\<lambda>s. set_target a (storePasswordIfEnabled cf v (storeTerminalSettings c s))) k1, ok a)))"

section \<open>Attempts\<close>

definition normalizeAuthError :: "string \<Rightarrow> string" where
  "normalizeAuthError m =
     (if str_includes m ''Invalid credentials format'' \<or> str_includes m ''Username is required''
         \<or> str_includes m ''No authentication method provided''
      then ''Invalid credentials'' else m)"

text \<open>The object the authentication service receives.\<close>

definition credentials_value :: "auth_credentials \<Rightarrow> jsval" where
  "credentials_value a = JObj ([(''username'', acUsername a), (''host'', acHost a), (''port'', acPort a)]
     @ present ''password'' (acPassword a) @ present ''privateKey'' (acPrivateKey a) @ present ''passphrase'' (acPassphrase a))"

text \<open>\<open>valid_regex\<close> says which patterns the \<open>RegExp\<close> constructor accepts.\<close>

definition buildOptionalRegex :: "(string \<Rightarrow> bool) \<Rightarrow> string option \<Rightarrow> string option" where
  "buildOptionalRegex valid_regex p =
     (case p of None \<Rightarrow> None | Some r \<Rightarrow> if r = [] \<or> \<not> valid_regex r then None else Some r)"

definition telnet_config_of :: "(string \<Rightarrow> bool) \<Rightarrow> 'a socket_config \<Rightarrow> auth_credentials \<Rightarrow> string \<Rightarrow> telnet_config" where
  "telnet_config_of valid_regex cf a sid =
     (let t = scTelnet cf
      in \<lparr>tnSessionId = sid, tnHost = str_of (acHost a), tnPort = num_of (acPort a), tnUsername = str_of (acUsername a),
          tnPassword = given_or_undefined (acPassword a),
          tnTimeout = or_else (map_option tcTimeout t) 30000, tnTerm = or_else (map_option tcTerm t) ''vt100'',
          tnExpectTimeout = or_else (map_option tcExpectTimeout t) 10000,
          tnLoginPrompt = buildOptionalRegex valid_regex (map_option tcLoginPrompt t),
          tnPasswordPrompt = buildOptionalRegex valid_regex (map_option tcPasswordPrompt t),
          tnFailurePattern = buildOptionalRegex valid_regex (map_option tcFailurePattern t)\<rparr>)"

definition connectSSH :: "'a socket_config \<Rightarrow> nat \<Rightarrow> auth_credentials \<Rightarrow> string \<Rightarrow> 'a auth_event_out" where
  "connectSSH cf n a sid = ConnectSsh n ((buildSSHConfig a sid (scSsh cf) True (acForwardAll a = JBool True))\<lparr>sfSocket := Some (scSocketId cf)\<rparr>)"

text \<open>Up to the call of the connection service nothing else of the socket runs.  The ids of a new session
  are arguments.\<close>

definition handleAuthentication :: "(string \<Rightarrow> bool) \<Rightarrow> 'a socket_config \<Rightarrow> string \<Rightarrow> string \<Rightarrow> int \<Rightarrow> jsval \<Rightarrow> 'l socket_auth \<Rightarrow>
    'l socket_auth \<times> 'a auth_event_out list" where
  "handleAuthentication valid_regex cf sid uid now c k =
     (let (k1, prepared) = prepareAuthCredentials cf c (initializeAuthAttempt c k)
      in case prepared of
           Inl outs \<Rightarrow> (k1, outs)
         | Inr a \<Rightarrow>
             let (s, r) = authenticate sid uid now (credentials_value a) (skAuth k1, skStore k1);
                 k2 = k1\<lparr>skAuth := fst s, skStore := snd s\<rparr>
             in (case r of
                   Inl m \<Rightarrow> (k2, [AuthFailureMessage (normalizeAuthError m)])
                 | Inr v \<Rightarrow>
                     if scProtocol cf = TelnetProtocol \<and> \<not> scTelnetService cf
                     then (k2, [AuthFailureMessage ''Telnet is not enabled on this server''])
                     else (k2\<lparr>skPending := map_set (skNext k2) (a, arSessionId v) (skPending k2), skNext := Suc (skNext k2)\<rparr>,
                           [if scProtocol cf = TelnetProtocol
                            then ConnectTelnet (skNext k2) (telnet_config_of valid_regex cf a (arSessionId v))
                            else connectSSH cf (skNext k2) a (arSessionId v)])))"

text \<open>\<open>SftpStatus None\<close> is \<open>{enabled: false}\<close>.\<close>

definition emitSftpStatus :: "'a socket_config \<Rightarrow> 'a auth_event_out" where
  "emitSftpStatus cf =
     (case scSftp cf of
        None \<Rightarrow> SftpStatus None
      | Some l \<Rightarrow>
          if \<not> slEnabled l then SftpStatus None
          else SftpStatus (Some \<lparr>ssMaxFileSize = slMaxFileSize l, ssChunkSize = slChunkSize l,
                 ssMaxConcurrentTransfers = slMaxConcurrentTransfers l,
                 ssHasPathRestrictions = (slAllowedPaths l \<noteq> None \<and> slAllowedPaths l \<noteq> Some []),
                 ssBlockedExtensions = slBlockedExtensions l\<rparr>))"

definition emitAuthSuccess :: "'a socket_config \<Rightarrow> nat \<Rightarrow> auth_credentials \<Rightarrow> 'a auth_event_out list" where
  "emitAuthSuccess cf n a =
     AuthSuccessMessage n #
     (if scProtocol cf = TelnetProtocol
      then [Permissions (scAutoLog cf) (scAllowReplay cf) (scAllowReconnect cf) (scAllowReauth cf) None]
      else [Permissions (scAutoLog cf) (scAllowReplay cf) (scAllowReconnect cf) (scAllowReauth cf) (Some (scHostKeyInfo cf)),
            emitSftpStatus cf])
     @ [GetTerminal, FooterText (if scProtocol cf = TelnetProtocol then ''telnet'' else ''ssh'') (acHost a) (acPort a), StatusConnected]"

definition finalizeAuthentication :: "'a socket_config \<Rightarrow> nat \<Rightarrow> auth_credentials \<Rightarrow> string \<Rightarrow> string \<Rightarrow> 'l socket_auth \<Rightarrow>
    'l socket_auth \<times> 'a auth_event_out list" where
  "finalizeAuthentication cf n a sid connId k =
     (on_state (\<lambda>s. s\<lparr>asConnectionId := Some connId, asSessionId := Some sid, asUsername := acUsername a,
                     asRequestedKeyboardInteractive := False\<rparr>)
        (k\<lparr>skHttp := map_option (\<lambda>h. h\<lparr>htAuthFailed := None\<rparr>) (skHttp k)\<rparr>),
      emitAuthSuccess cf n a)"

definition canRetry :: "error_type \<Rightarrow> bool" where
  "canRetry t \<longleftrightarrow> t = ErrAuth \<or> t = ErrTimeout"

text \<open>The last flag says that the algorithms of both sides come with the message.\<close>

definition emitConnectionError :: "nat \<Rightarrow> ssh_error \<Rightarrow> bool \<Rightarrow> auth_credentials \<Rightarrow> 'l socket_auth \<Rightarrow>
    'l socket_auth \<times> 'a auth_event_out list" where
  "emitConnectionError n e captured a k =
     (let m = normalizeSSHErrorMessage e; t = determineErrorType m
      in (if t = ErrAuth then k\<lparr>skHttp := clearSessionCredentials (skHttp k)\<rparr> else k,
          [ConnectionErrorMessage n t (getErrorTitle t) m (acHost a) (acPort a) (canRetry t) (t = ErrAlgorithm \<and> captured)]))"

datatype connection_answer = Connection string | NoConnection ssh_error bool

definition connectionAnswered :: "'a socket_config \<Rightarrow> nat \<Rightarrow> connection_answer \<Rightarrow> 'l socket_auth \<Rightarrow>
    'l socket_auth \<times> 'a auth_event_out list" where
  "connectionAnswered cf n r k =
     (case map_get (skPending k) n of
        None \<Rightarrow> (k, [])
      | Some (a, sid) \<Rightarrow>
          let k1 = k\<lparr>skPending := map_delete n (skPending k)\<rparr>
          in (case r of
                Connection connId \<Rightarrow> finalizeAuthentication cf n a sid connId k1
              | NoConnection e captured \<Rightarrow>
                  if scProtocol cf = TelnetProtocol then (k1, [AuthFailureMessage (seMessage e)])
                  else emitConnectionError n e captured a k1))"

section \<open>Requests for credentials\<close>

definition requestAuthentication :: "'l socket_auth \<Rightarrow> 'l socket_auth \<times> 'a auth_event_out list" where
  "requestAuthentication k = (on_state (\<lambda>s. s\<lparr>asRequestedKeyboardInteractive := False\<rparr>) k, [RequestAuth])"

definition requestKeyboardInteractiveAuth :: "'a socket_config \<Rightarrow> 'l socket_auth \<Rightarrow> 'l socket_auth \<times> 'a auth_event_out list" where
  "requestKeyboardInteractiveAuth cf k =
     (if \<not> isAuthMethodAllowed (svAllowedAuthMethods (scSsh cf)) KeyboardInteractiveToken then requestAuthentication k
      else (on_state (\<lambda>s. s\<lparr>asRequestedKeyboardInteractive := True\<rparr>) k, [CredentialPrompt]))"

definition checkInitialAuth :: "(string \<Rightarrow> bool) \<Rightarrow> 'a socket_config \<Rightarrow> string \<Rightarrow> string \<Rightarrow> int \<Rightarrow> 'l socket_auth \<Rightarrow>
    'l socket_auth \<times> 'a auth_event_out list" where
  "checkInitialAuth valid_regex cf sid uid now k0 =
     (let k = on_state (\<lambda>s. s\<lparr>asRequestedKeyboardInteractive := False\<rparr>) k0
      in if provider_authenticated (skHttp k) (skProvider k)
         then (case provider_credentials (skHttp k) (skProvider k) of
                 None \<Rightarrow> (k, [])
               | Some c \<Rightarrow> handleAuthentication valid_regex cf sid uid now c
                             (on_state (\<lambda>s. s\<lparr>asOriginalMethod := Some (provider_method (skProvider k))\<rparr>) k))
         else if requiresAuthRequest (skHttp k) (skProvider k)
              then (if scProtocol cf = SshProtocol \<and> svAlwaysSendPrompts (scSsh cf)
                    then requestKeyboardInteractiveAuth cf k else requestAuthentication k)
              else requestAuthentication k)"

text \<open>Responses to keyboard-interactive prompts, an array of any values.\<close>

definition handleKeyboardInteractiveResponse :: "(string \<Rightarrow> bool) \<Rightarrow> 'a socket_config \<Rightarrow> string \<Rightarrow> string \<Rightarrow> int \<Rightarrow>
    jsval list \<Rightarrow> 'l socket_auth \<Rightarrow> 'l socket_auth \<times> 'a auth_event_out list" where
  "handleKeyboardInteractiveResponse valid_regex cf sid uid now responses k =
     (case responses of
        u # p # _ \<Rightarrow>
          (if u = JUndefined \<or> p = JUndefined then (k, [AuthFailureMessage ''Invalid authentication response''])
           else case scHost cf of
             None \<Rightarrow> (k, [AuthFailureMessage ''No SSH host configured''])
           | Some h \<Rightarrow>
               handleAuthentication valid_regex cf sid uid now
                 (JObj [(''username'', u), (''password'', p), (''host'', JStr h), (''port'', JNum (scPort cf))])
                 (on_state (\<lambda>s. s\<lparr>asRequestedKeyboardInteractive := True\<rparr>) k))
      | _ \<Rightarrow> (k, [AuthFailureMessage ''Invalid authentication response'']))"

definition is_refusal :: "string \<Rightarrow> bool" where
  "is_refusal a \<longleftrightarrow> a = ''cancel'' \<or> a = ''dismissed'' \<or> a = ''timeout''"

definition credentialPromptAnswered :: "(string \<Rightarrow> bool) \<Rightarrow> 'a socket_config \<Rightarrow> string \<Rightarrow> string \<Rightarrow> int \<Rightarrow>
    string \<Rightarrow> (string, string) jsmap option \<Rightarrow> 'l socket_auth \<Rightarrow> 'l socket_auth \<times> 'a auth_event_out list" where
  "credentialPromptAnswered valid_regex cf sid uid now act inputs k =
     (if is_refusal act then (k, [AuthFailureMessage ''Authentication cancelled''])
      else case (Option.bind inputs (\<lambda>m. map_get m ''username''), Option.bind inputs (\<lambda>m. map_get m ''password'')) of
        (Some u, Some p) \<Rightarrow> handleKeyboardInteractiveResponse valid_regex cf sid uid now [JStr u, JStr p] k
      | _ \<Rightarrow> (k, [AuthFailureMessage ''Invalid authentication response'']))"

text \<open>The answers \<open>handleSSHKeyboardInteractive\<close> gives the SSH client for \<open>n\<close> forwarded prompts.\<close>

definition keyboardAnswers :: "nat \<Rightarrow> string \<Rightarrow> (string, string) jsmap option \<Rightarrow> string list" where
  "keyboardAnswers n act inputs =
     (if is_refusal act then []
      else map (\<lambda>i. or_else (Option.bind inputs (\<lambda>m. map_get m (''prompt_'' @ show_nat i))) []) [0..<n])"

section \<open>Disconnection and control messages\<close>

definition handleDisconnect :: "'a socket_config \<Rightarrow> int \<Rightarrow> 'l socket_auth \<Rightarrow> 'l socket_auth \<times> 'a auth_event_out list" where
  "handleDisconnect cf now k =
     (let s = skState k;
          outs = (case asConnectionId s of None \<Rightarrow> []
                  | Some c \<Rightarrow> [DisconnectConnection (if scProtocol cf = TelnetProtocol \<and> scTelnetService cf then TelnetProtocol else SshProtocol) c]);
          k1 = (case asSessionId s of None \<Rightarrow> k
                | Some sid \<Rightarrow>
                    let (ts, st) = fst (terminal_destroy sid now (skTerminals k, skStore k))
                    in k\<lparr>skTerminals := ts, skStore := session_delete sid now st\<rparr>)
      in (on_state (\<lambda>s. s\<lparr>asStoredPassword := None, asHasShell := False, asConnectionId := None, asSessionId := None,
            asTargetHost := JNull, asTargetPort := JNull, asUsername := JNull\<rparr>) k1, outs))"

text \<open>The last argument says whether writing to the shell throws.\<close>

definition handleReplayCredentials :: "'a socket_config \<Rightarrow> bool \<Rightarrow> 'l socket_auth \<Rightarrow> 'a auth_event_out list" where
  "handleReplayCredentials cf throws k =
     (if \<not> scAllowReplay cf then [SshErrorMessage ''Credential replay not permitted'']
      else case asStoredPassword (skState k) of
             None \<Rightarrow> [SshErrorMessage ''No stored password available'']
           | Some p \<Rightarrow>
               if \<not> asHasShell (skState k) then [SshErrorMessage ''No active shell'']
               else if throws then [SshErrorMessage ''Failed to replay credentials'']
               else [ShellWrite (p @ (if scReplayCRLF cf then [CHR 0x0D, CHR 0x0A] else [CHR 0x0A]))])"

definition handleReauth :: "'a socket_config \<Rightarrow> 'a auth_event_out list" where
  "handleReauth cf = (if scAllowReauth cf then [ReauthRequest] else [SshErrorMessage ''Re-authentication not permitted''])"

definition handleControl :: "'a socket_config \<Rightarrow> bool \<Rightarrow> jsval \<Rightarrow> 'l socket_auth \<Rightarrow> 'a auth_event_out list" where
  "handleControl cf throws message k =
     (if message = JStr ''replayCredentials'' then handleReplayCredentials cf throws k
      else if message = JStr ''reauth'' then handleReauth cf
      else [])"

section \<open>The events of a socket\<close>

text \<open>What \<open>responses.length\<close> and the two indices read of a value in place of the array; a \<open>length\<close>
  that is neither a number nor missing counts as too small.\<close>

fun responses_of :: "jsval \<Rightarrow> jsval list" where
  "responses_of (JArr xs) = xs"
| "responses_of (JStr s) = map (\<lambda>c. JStr [c]) s"
| "responses_of (JObj m) = (case jget (JObj m) ''length'' of
     JUndefined \<Rightarrow> [jget (JObj m) ''0'', jget (JObj m) ''1'']
   | JNum x \<Rightarrow> if num_less x 2 then [] else [jget (JObj m) ''0'', jget (JObj m) ''1'']
   | _ \<Rightarrow> [])"
| "responses_of _ = []"

text \<open>An authentication message: the logging listener reads a property of the payload first, then the
  handler tests for the key \<open>responses\<close>, which throws for a primitive.\<close>

definition authMessage :: "(string \<Rightarrow> bool) \<Rightarrow> 'a socket_config \<Rightarrow> string \<Rightarrow> string \<Rightarrow> int \<Rightarrow> jsval \<Rightarrow> 'l socket_auth \<Rightarrow>
    'l socket_auth \<times> 'a auth_event_out list" where
  "authMessage valid_regex cf sid uid now c k =
     (if \<not> is_object c \<or> nullish c then (k, [Rejection])
      else if has_key c ''responses''
      then (if scProtocol cf \<noteq> SshProtocol then (k, [])
            else if nullish (jget c ''responses'') then (k, [Rejection])
            else handleKeyboardInteractiveResponse valid_regex cf sid uid now (responses_of (jget c ''responses'')) k)
      else handleAuthentication valid_regex cf sid uid now c k)"

datatype socket_event =
    EvInitial string string
  | EvAuth string string jsval
  | EvCredentials string string string "(string, string) jsmap option"
  | EvAnswer nat connection_answer
  | EvControl jsval bool
  | EvDisconnect
  | EvShell bool
  | EvHttp "http_session option"

text \<open>The terminal part of the socket sets the shell, and the routes change the HTTP session.\<close>

fun socket_step :: "(string \<Rightarrow> bool) \<Rightarrow> 'a socket_config \<Rightarrow> int \<times> socket_event \<Rightarrow> 'l socket_auth \<Rightarrow>
    'l socket_auth \<times> 'a auth_event_out list" where
  "socket_step rx cf (now, EvInitial sid uid) k = checkInitialAuth rx cf sid uid now k"
| "socket_step rx cf (now, EvAuth sid uid c) k = authMessage rx cf sid uid now c k"
| "socket_step rx cf (now, EvCredentials sid uid act inputs) k = credentialPromptAnswered rx cf sid uid now act inputs k"
| "socket_step rx cf (now, EvAnswer n r) k = connectionAnswered cf n r k"
| "socket_step rx cf (now, EvControl message throws) k = (k, handleControl cf throws message k)"
| "socket_step rx cf (now, EvDisconnect) k = handleDisconnect cf now k"
| "socket_step rx cf (now, EvShell b) k = (on_state (\<lambda>s. s\<lparr>asHasShell := b\<rparr>) k, [])"
| "socket_step rx cf (now, EvHttp h) k = (k\<lparr>skHttp := h\<rparr>, [])"

fun socket_run :: "(string \<Rightarrow> bool) \<Rightarrow> 'a socket_config \<Rightarrow> (int \<times> socket_event) list \<Rightarrow>
    'l socket_auth \<times> 'a auth_event_out list \<Rightarrow> 'l socket_auth \<times> 'a auth_event_out list" where
  "socket_run rx cf [] s = s"
| "socket_run rx cf (e # es) s = (let (k', out) = socket_step rx cf e (fst s) in socket_run rx cf es (k', snd s @ out))"

definition new_socket :: "http_session option \<Rightarrow> auth_service \<Rightarrow> 'l session_store \<Rightarrow> terminal_service \<Rightarrow> 'l socket_auth" where
  "new_socket ses au st ts = \<lparr>skHttp = ses, skProvider = detectAuthProvider ses, skState = createAdapterSharedState,
     skAuth = au, skStore = st, skTerminals = ts, skPending = [], skNext = 0\<rparr>"

section \<open>What an attempt needs\<close>

text \<open>A configuration the connection services may get: names and port, for SSH at least one credential and
  every credential that is not blank by a method the server allows, for Telnet a server that offers it.\<close>

definition connect_allowed :: "'a socket_config \<Rightarrow> 'a ssh_config \<Rightarrow> bool" where
  "connect_allowed cf g \<longleftrightarrow> scProtocol cf = SshProtocol \<and> sfUsername g \<noteq> [] \<and> sfHost g \<noteq> []
     \<and> \<not> num_le (sfPort g) 0 \<and> \<not> num_greater (sfPort g) 65535
     \<and> (isNonEmptyString (sfPassword g) \<or> isNonEmptyString (sfPrivateKey g))
     \<and> (has_content (sfPassword g) \<longrightarrow> PasswordToken \<in> set (svAllowedAuthMethods (scSsh cf)))
     \<and> (has_content (sfPrivateKey g) \<longrightarrow> PublickeyToken \<in> set (svAllowedAuthMethods (scSsh cf)))"

definition telnet_allowed :: "'a socket_config \<Rightarrow> telnet_config \<Rightarrow> bool" where
  "telnet_allowed cf g \<longleftrightarrow> scProtocol cf = TelnetProtocol \<and> scTelnetService cf \<and> tnUsername g \<noteq> [] \<and> tnHost g \<noteq> []
     \<and> \<not> num_le (tnPort g) 0 \<and> \<not> num_greater (tnPort g) 65535"

fun ssh_connects :: "'a auth_event_out list \<Rightarrow> 'a ssh_config list" where
  "ssh_connects [] = []"
| "ssh_connects (x # xs) = (case x of ConnectSsh n g \<Rightarrow> [g] | _ \<Rightarrow> []) @ ssh_connects xs"

fun telnet_connects :: "'a auth_event_out list \<Rightarrow> telnet_config list" where
  "telnet_connects [] = []"
| "telnet_connects (x # xs) = (case x of ConnectTelnet n g \<Rightarrow> [g] | _ \<Rightarrow> []) @ telnet_connects xs"

fun connect_ids :: "'a auth_event_out list \<Rightarrow> nat list" where
  "connect_ids [] = []"
| "connect_ids (x # xs) = (case x of ConnectSsh n g \<Rightarrow> [n] | ConnectTelnet n g \<Rightarrow> [n] | _ \<Rightarrow> []) @ connect_ids xs"

text \<open>The verdicts the client is told: the message of success, a connection error, and every failed
  \<open>auth_result\<close> that is sent while the answer of the connection service is handled.\<close>

fun verdict_of :: "int \<times> socket_event \<Rightarrow> 'a auth_event_out \<Rightarrow> (nat \<times> bool) list" where
  "verdict_of e (AuthSuccessMessage n) = [(n, True)]"
| "verdict_of e (ConnectionErrorMessage n t a b c d f g) = [(n, False)]"
| "verdict_of e (AuthFailureMessage m) = (case snd e of EvAnswer n r \<Rightarrow> [(n, False)] | _ \<Rightarrow> [])"
| "verdict_of e _ = []"

definition attempt_verdicts :: "int \<times> socket_event \<Rightarrow> 'a auth_event_out list \<Rightarrow> (nat \<times> bool) list" where
  "attempt_verdicts e out = concat (map (verdict_of e) out)"

fun run_verdicts :: "(string \<Rightarrow> bool) \<Rightarrow> 'a socket_config \<Rightarrow> (int \<times> socket_event) list \<Rightarrow> 'l socket_auth \<Rightarrow> (nat \<times> bool) list" where
  "run_verdicts rx cf [] k = []"
| "run_verdicts rx cf (e # es) k =
     (let (k', out) = socket_step rx cf e k in attempt_verdicts e out @ run_verdicts rx cf es k')"

fun silent_output :: "'a auth_event_out \<Rightarrow> bool" where
  "silent_output (AuthSuccessMessage n) = False"
| "silent_output (ConnectionErrorMessage n t a b c d f g) = False"
| "silent_output (ConnectSsh n g) = False"
| "silent_output (ConnectTelnet n g) = False"
| "silent_output _ = True"

definition silent :: "'a auth_event_out list \<Rightarrow> bool" where
  "silent out \<longleftrightarrow> list_all silent_output out"

lemma outs_append [simp]: "ssh_connects (xs @ ys) = ssh_connects xs @ ssh_connects ys"
  "telnet_connects (xs @ ys) = telnet_connects xs @ telnet_connects ys"
  "connect_ids (xs @ ys) = connect_ids xs @ connect_ids ys"
  by (induction xs) simp_all

lemma silent_nothing:
  "silent out \<Longrightarrow> ssh_connects out = [] \<and> telnet_connects out = [] \<and> connect_ids out = []"
  by (induction out) (auto simp: silent_def split: auth_event_out.split)

lemma silent_no_verdict:
  "silent out \<Longrightarrow> (\<And>n r. snd e \<noteq> EvAnswer n r) \<Longrightarrow> attempt_verdicts e out = []"
proof (induction out)
  case (Cons x out)
  then have "verdict_of e x = []" by (cases x) (auto simp: silent_def split: socket_event.split)
  with Cons show ?case by (simp add: silent_def attempt_verdicts_def)
qed (simp add: attempt_verdicts_def)

lemma credentials_value_get:
  "jget (credentials_value a) ''username'' = acUsername a" "jget (credentials_value a) ''host'' = acHost a"
  "jget (credentials_value a) ''port'' = acPort a" "jget (credentials_value a) ''password'' = acPassword a"
  "jget (credentials_value a) ''privateKey'' = acPrivateKey a"
  by (simp_all add: credentials_value_def present_def)

lemma authenticate_valid: "authenticate sid uid now c s = (s', ok r) \<Longrightarrow> validateAuthCredentials c = None"
  by (auto simp: authenticate_def split: option.splits prod.splits)

lemma valid_attempt:
  assumes "validateAuthCredentials (credentials_value a) = None"
    and "has_content (acPassword a) \<Longrightarrow> PasswordToken \<in> set (svAllowedAuthMethods (scSsh cf))"
    and "has_content (acPrivateKey a) \<Longrightarrow> PublickeyToken \<in> set (svAllowedAuthMethods (scSsh cf))"
    and "connectSSH cf n a sid = ConnectSsh n g" and "scProtocol cf = SshProtocol"
  shows "connect_allowed cf g"
proof -
  have str: "isNonEmptyString v \<Longrightarrow> str_of v \<noteq> [] \<and> given v" for v
    by (cases v) (auto simp: isNonEmptyString_def given_def)
  have kept: "has_content (given_or_undefined v) \<longleftrightarrow> has_content v" for v
    by (auto simp: given_or_undefined_def given_def has_content_def)
  have none: "\<not> has_content JUndefined"
    by (simp add: has_content_def)
  show ?thesis
    using assms str none
    by (auto simp: connect_allowed_def connectSSH_def buildSSHConfig_def validateAuthCredentials_def credentials_value_get
        kept given_or_undefined_def split: if_splits)
qed

lemma valid_telnet:
  assumes "validateAuthCredentials (credentials_value a) = None" and "scProtocol cf = TelnetProtocol" and "scTelnetService cf"
  shows "telnet_allowed cf (telnet_config_of rx cf a sid)"
proof -
  have str: "isNonEmptyString v \<Longrightarrow> str_of v \<noteq> []" for v
    by (cases v) (auto simp: isNonEmptyString_def)
  show ?thesis
    using assms str
    by (auto simp: telnet_allowed_def telnet_config_of_def validateAuthCredentials_def credentials_value_get Let_def
        split: if_splits)
qed

lemma prepare_cases:
  assumes "prepareAuthCredentials cf c k = (k1, r)"
  shows "skPending k1 = skPending k" "skNext k1 = skNext k"
    and "r = err outs \<Longrightarrow> silent outs"
    and "r = ok a \<Longrightarrow> scProtocol cf = SshProtocol \<Longrightarrow> has_content (acPassword a) \<Longrightarrow>
           PasswordToken \<in> set (svAllowedAuthMethods (scSsh cf))"
    and "r = ok a \<Longrightarrow> scProtocol cf = SshProtocol \<Longrightarrow> has_content (acPrivateKey a) \<Longrightarrow>
           PublickeyToken \<in> set (svAllowedAuthMethods (scSsh cf))"
proof -
  obtain k2 accepted where u: "updateAuthPipeline c k = (k2, accepted)" by fastforce
  have f: "skPending k2 = skPending k" "skNext k2 = skNext k"
    using u by (auto simp: updateAuthPipeline_def Let_def split: if_splits prod.splits)
  note d = assms[unfolded prepareAuthCredentials_def u Let_def prod.case]
  show "skPending k1 = skPending k" "skNext k1 = skNext k"
    using d f by (auto split: if_splits option.splits sum.splits)
  show "r = err outs \<Longrightarrow> silent outs"
    using d by (auto simp: silent_def split: if_splits option.splits sum.splits)
  { assume "r = ok a" "scProtocol cf = SshProtocol"
    with d obtain v x where "a = buildAuthCredentials v c"
      and "evaluateAuthMethodPolicy (svAllowedAuthMethods (scSsh cf)) (policy_of v k2) = ok x"
      by (auto split: if_splits option.splits sum.splits)
    then have "wants (policy_of v k2) m \<Longrightarrow> m \<in> set (svAllowedAuthMethods (scSsh cf))" for m
      using evaluate_ok_iff by blast
    from this [of PasswordToken] this [of PublickeyToken] \<open>a = _\<close>
    have "(has_content (acPassword a) \<longrightarrow> PasswordToken \<in> set (svAllowedAuthMethods (scSsh cf))) \<and>
          (has_content (acPrivateKey a) \<longrightarrow> PublickeyToken \<in> set (svAllowedAuthMethods (scSsh cf)))"
      by (simp add: policy_of_def buildAuthCredentials_def) }
  then show "r = ok a \<Longrightarrow> scProtocol cf = SshProtocol \<Longrightarrow> has_content (acPassword a) \<Longrightarrow>
           PasswordToken \<in> set (svAllowedAuthMethods (scSsh cf))"
    and "r = ok a \<Longrightarrow> scProtocol cf = SshProtocol \<Longrightarrow> has_content (acPrivateKey a) \<Longrightarrow>
           PublickeyToken \<in> set (svAllowedAuthMethods (scSsh cf))"
    by blast+
qed

text \<open>A step leaves the pending attempts alone, starts the next one, or settles one.\<close>

definition starts :: "'a socket_config \<Rightarrow> 'l socket_auth \<Rightarrow> 'l socket_auth \<Rightarrow> 'a auth_event_out list \<Rightarrow> bool" where
  "starts cf k k' out \<longleftrightarrow> set (map_keys (skPending k')) = insert (skNext k) (set (map_keys (skPending k))) \<and> skNext k' = Suc (skNext k)
     \<and> (\<exists>x. out = [x] \<and> connect_ids out = [skNext k] \<and> (\<forall>g\<in>set (ssh_connects out). connect_allowed cf g)
          \<and> (\<forall>g\<in>set (telnet_connects out). telnet_allowed cf g))"

definition stays :: "'l socket_auth \<Rightarrow> 'l socket_auth \<Rightarrow> 'a auth_event_out list \<Rightarrow> bool" where
  "stays k k' out \<longleftrightarrow> skPending k' = skPending k \<and> skNext k' = skNext k \<and> silent out"

lemma stays_refl [simp]: "stays k k out \<longleftrightarrow> silent out" "stays k k' [] \<longleftrightarrow> skPending k' = skPending k \<and> skNext k' = skNext k"
  by (auto simp: stays_def silent_def)

lemma init_frame [simp]: "skPending (initializeAuthAttempt c k) = skPending k" "skNext (initializeAuthAttempt c k) = skNext k"
  by (simp_all add: initializeAuthAttempt_def)

lemma keys_update: "set (map_keys (map_set n v m)) = insert n (set (map_keys m))"
  by (induction m) auto

lemma keys_delete: "set (map_keys (map_delete n m)) = set (map_keys m) - {n}"
  by (auto simp: map_delete_filter)

lemma handleAuthentication_cases:
  assumes "handleAuthentication rx cf sid uid now c k = (k', out)"
  shows "stays k k' out \<or> starts cf k k' out"
proof -
  obtain k1 r where p: "prepareAuthCredentials cf c (initializeAuthAttempt c k) = (k1, r)" by fastforce
  note pc = prepare_cases [OF p]
  show ?thesis
  proof (cases r)
    case (Inl outs)
    then show ?thesis using assms p pc by (auto simp: handleAuthentication_def stays_def)
  next
    case (Inr a)
    obtain s' q where au: "authenticate sid uid now (credentials_value a) (skAuth k1, skStore k1) = (s', q)" by fastforce
    show ?thesis
    proof (cases q)
      case (Inl m)
      then show ?thesis using assms p pc Inr au by (auto simp: handleAuthentication_def stays_def silent_def)
    next
      case q: (Inr v)
      have ok: "scProtocol cf = SshProtocol \<Longrightarrow> connectSSH cf n a s = ConnectSsh n g \<Longrightarrow> connect_allowed cf g" for n s g
        using valid_attempt [OF authenticate_valid [OF au[unfolded q]] pc(4) [OF Inr] pc(5) [OF Inr]] by blast
      have tel: "scProtocol cf = TelnetProtocol \<Longrightarrow> scTelnetService cf \<Longrightarrow> telnet_allowed cf (telnet_config_of rx cf a s)" for s
        using valid_telnet [OF authenticate_valid [OF au[unfolded q]]] by blast
      have eq: "(if scProtocol cf = TelnetProtocol \<and> \<not> scTelnetService cf
          then (k1\<lparr>skAuth := fst s', skStore := snd s'\<rparr>, [AuthFailureMessage ''Telnet is not enabled on this server''])
          else (k1\<lparr>skAuth := fst s', skStore := snd s', skPending := map_set (skNext k) (a, arSessionId v) (skPending k),
                   skNext := Suc (skNext k)\<rparr>,
                [if scProtocol cf = TelnetProtocol then ConnectTelnet (skNext k) (telnet_config_of rx cf a (arSessionId v))
                 else connectSSH cf (skNext k) a (arSessionId v)])) = (k', out)"
        using assms pc(1,2) by (simp add: handleAuthentication_def p Inr au q Let_def cong: if_cong)
      show ?thesis
      proof (cases "scProtocol cf = TelnetProtocol \<and> \<not> scTelnetService cf")
        case True
        with eq pc(1,2) show ?thesis by (auto simp: stays_def silent_def)
      next
        case False
        with eq ok tel have "starts cf k k' out"
          by (cases "scProtocol cf") (auto simp: starts_def connectSSH_def keys_update simp del: set_map)
        then show ?thesis ..
      qed
    qed
  qed
qed

lemma silent_simps [simp]: "silent []" "silent (RequestAuth # out) = silent out" "silent (AuthFailureMessage m # out) = silent out"
  "silent (Rejection # out) = silent out" "silent (CredentialPrompt # out) = silent out" "silent (SshErrorMessage m # out) = silent out"
  "silent (ReauthRequest # out) = silent out" "silent (ShellWrite w # out) = silent out"
  "silent (DisconnectConnection pr i # out) = silent out"
  by (simp_all add: silent_def)

lemma state_frame [simp]: "stays (k\<lparr>skState := x\<rparr>) k' out = stays k k' out" "stays k (k'\<lparr>skState := x\<rparr>) out = stays k k' out"
  "starts cf (k\<lparr>skState := x\<rparr>) k' out = starts cf k k' out"
  by (simp_all add: stays_def starts_def)

lemma keyboardResponse_cases:
  "handleKeyboardInteractiveResponse rx cf sid uid now rs k = (k', out) \<Longrightarrow> stays k k' out \<or> starts cf k k' out"
  by (auto simp: handleKeyboardInteractiveResponse_def split: list.splits option.splits if_splits
      dest!: handleAuthentication_cases)

lemma checkInitial_cases: "checkInitialAuth rx cf sid uid now k = (k', out) \<Longrightarrow> stays k k' out \<or> starts cf k k' out"
  by (auto simp: checkInitialAuth_def Let_def requestKeyboardInteractiveAuth_def requestAuthentication_def
      split: option.splits if_splits dest!: handleAuthentication_cases)

lemma authMessage_cases: "authMessage rx cf sid uid now c k = (k', out) \<Longrightarrow> stays k k' out \<or> starts cf k k' out"
  by (auto simp: authMessage_def split: if_splits dest: handleAuthentication_cases keyboardResponse_cases)

lemma credentials_cases:
  "credentialPromptAnswered rx cf sid uid now act inputs k = (k', out) \<Longrightarrow> stays k k' out \<or> starts cf k k' out"
  by (auto simp: credentialPromptAnswered_def split: if_splits option.splits dest: keyboardResponse_cases)

lemma disconnect_stays: "handleDisconnect cf now k = (k', out) \<Longrightarrow> stays k k' out"
  by (auto simp: handleDisconnect_def Let_def stays_def split: option.splits prod.splits)

lemma control_silent: "silent (handleControl cf b m k)"
  by (auto simp: handleControl_def handleReplayCredentials_def handleReauth_def split: option.split)

text \<open>The answer to a pending attempt removes it and gives one verdict, about this attempt.\<close>

definition settles_attempt :: "nat \<Rightarrow> bool \<Rightarrow> 'l socket_auth \<Rightarrow> 'l socket_auth \<Rightarrow> 'a auth_event_out list \<Rightarrow> bool" where
  "settles_attempt n good k k' out \<longleftrightarrow> map_get (skPending k) n \<noteq> None \<and> set (map_keys (skPending k')) = set (map_keys (skPending k)) - {n}
     \<and> skNext k' = skNext k \<and> ssh_connects out = [] \<and> telnet_connects out = [] \<and> connect_ids out = []
     \<and> (\<forall>now r. attempt_verdicts (now, EvAnswer n r) out = [(n, good)])"

lemma answer_cases:
  assumes "connectionAnswered cf n r k = (k', out)"
  shows "stays k k' out \<and> out = [] \<or> settles_attempt n (case r of Connection c \<Rightarrow> True | _ \<Rightarrow> False) k k' out"
proof (cases "map_get (skPending k) n")
  case None
  with assms show ?thesis by (simp add: connectionAnswered_def stays_def)
next
  case (Some v)
  obtain a sid where v: "v = (a, sid)" by (cases v)
  have "settles_attempt n (case r of Connection c \<Rightarrow> True | _ \<Rightarrow> False) k k' out"
  proof (cases r)
    case (Connection c)
    with assms Some v show ?thesis
      by (auto simp: connectionAnswered_def settles_attempt_def keys_delete finalizeAuthentication_def emitAuthSuccess_def
          attempt_verdicts_def emitSftpStatus_def split: option.split
          simp del: set_map)
  next
    case (NoConnection e captured)
    with assms Some v show ?thesis
      by (auto simp: connectionAnswered_def settles_attempt_def keys_delete emitConnectionError_def Let_def
          attempt_verdicts_def simp del: set_map split: if_splits)
  qed
  then show ?thesis ..
qed

lemma starts_no_verdict: "starts cf k k' out \<Longrightarrow> attempt_verdicts e out = []"
  by (auto simp: starts_def attempt_verdicts_def split: auth_event_out.splits)

lemma socket_step_cases:
  assumes "socket_step rx cf e k = (k', out)"
  shows "stays k k' out \<and> attempt_verdicts e out = [] \<or> starts cf k k' out
    \<or> (\<exists>n r. snd e = EvAnswer n r \<and> settles_attempt n (case r of Connection c \<Rightarrow> True | _ \<Rightarrow> False) k k' out)"
proof (cases "\<exists>n r. snd e = EvAnswer n r")
  case True
  then obtain n r where e: "snd e = EvAnswer n r" by blast
  then have "connectionAnswered cf n r k = (k', out)" using assms by (cases e) simp
  from answer_cases [OF this] e show ?thesis by (auto simp: attempt_verdicts_def)
next
  case False
  have "stays k k' out \<or> starts cf k k' out"
    using assms False
    by (cases e; cases "snd e")
      (auto dest: checkInitial_cases authMessage_cases credentials_cases disconnect_stays simp: control_silent stays_def)
  with False silent_no_verdict [of out e] show ?thesis by (auto simp: stays_def)
qed

section \<open>Property\<close>

definition answered_in :: "(int \<times> socket_event) list \<Rightarrow> nat \<Rightarrow> bool \<Rightarrow> bool" where
  "answered_in es n good \<longleftrightarrow> (\<exists>now r. (now, EvAnswer n r) \<in> set es \<and> good = (case r of Connection c \<Rightarrow> True | _ \<Rightarrow> False))"

lemma answered_in_snoc: "answered_in es n b \<Longrightarrow> answered_in (es @ [e]) n b"
  "answered_in (es @ [(now, EvAnswer n r)]) n (case r of Connection c \<Rightarrow> True | _ \<Rightarrow> False)"
  by (auto simp: answered_in_def)

text \<open>The attempts that were asked for are those that wait and those with a verdict.\<close>

definition ids_ok :: "nat \<Rightarrow> nat set \<Rightarrow> nat list \<Rightarrow> nat list \<Rightarrow> bool" where
  "ids_ok n open_ids ids judged \<longleftrightarrow> distinct ids \<and> distinct judged \<and> (\<forall>i\<in>set ids. i < n)
     \<and> set ids = open_ids \<union> set judged \<and> open_ids \<inter> set judged = {}"

lemma ids_ok_start: "ids_ok n P ids js \<Longrightarrow> ids_ok (Suc n) (insert n P) (ids @ [n]) js"
  unfolding ids_ok_def by (auto simp: less_Suc_eq)

lemma ids_ok_settle: "ids_ok n P ids js \<Longrightarrow> i \<in> P \<Longrightarrow> ids_ok n (P - {i}) ids (js @ [i])"
  unfolding ids_ok_def by auto

definition attempts_ok :: "'a socket_config \<Rightarrow> (int \<times> socket_event) list \<Rightarrow> (nat \<times> bool) list \<Rightarrow>
    'l socket_auth \<times> 'a auth_event_out list \<Rightarrow> bool" where
  "attempts_ok cf es vs ko \<longleftrightarrow> (case ko of (k, outs) \<Rightarrow>
     (\<forall>g\<in>set (ssh_connects outs). connect_allowed cf g) \<and> (\<forall>g\<in>set (telnet_connects outs). telnet_allowed cf g)
     \<and> ids_ok (skNext k) (set (map_keys (skPending k))) (connect_ids outs) (map fst vs)
     \<and> (\<forall>(n, b)\<in>set vs. answered_in es n b))"

lemma answered_more: "\<forall>(n, b)\<in>set vs. answered_in es n b \<Longrightarrow> \<forall>(n, b)\<in>set vs. answered_in (es @ [e]) n b"
  using answered_in_snoc(1) by blast

lemma attempts_ok_step:
  assumes ok: "attempts_ok cf es vs (k, outs)" and step: "socket_step rx cf e k = (k', out)"
  shows "attempts_ok cf (es @ [e]) (vs @ attempt_verdicts e out) (k', outs @ out)"
proof -
  note parts = ok [unfolded attempts_ok_def prod.case]
  consider (stays) "stays k k' out" "attempt_verdicts e out = []" | (starts) "starts cf k k' out"
    | (settles) n r where "snd e = EvAnswer n r" "settles_attempt n (case r of Connection c \<Rightarrow> True | _ \<Rightarrow> False) k k' out"
    using socket_step_cases [OF step] by blast
  then show ?thesis
  proof cases
    case stays
    then have "skPending k' = skPending k" "skNext k' = skNext k" "silent out" by (simp_all add: stays_def)
    with stays(2) parts silent_nothing [of out] answered_more [of vs es e] show ?thesis
      unfolding attempts_ok_def prod.case by simp
  next
    case starts
    then obtain x where x: "set (map_keys (skPending k')) = insert (skNext k) (set (map_keys (skPending k)))"
      "skNext k' = Suc (skNext k)" "connect_ids out = [skNext k]"
      "\<forall>g\<in>set (ssh_connects out). connect_allowed cf g" "\<forall>g\<in>set (telnet_connects out). telnet_allowed cf g"
      by (auto simp: starts_def simp del: set_map)
    with starts_no_verdict [OF starts, of e] parts answered_more [of vs es e] ids_ok_start show ?thesis
      unfolding attempts_ok_def prod.case x(1,2) by (simp add: ball_Un x(3) del: set_map)
  next
    case settles
    define b where "b = (case r of Connection c \<Rightarrow> True | _ \<Rightarrow> False)"
    obtain now where e: "e = (now, EvAnswer n r)" using settles(1) by (cases e) simp
    have s: "set (map_keys (skPending k')) = set (map_keys (skPending k)) - {n}" "skNext k' = skNext k"
      "ssh_connects out = []" "telnet_connects out = []" "connect_ids out = []" "attempt_verdicts e out = [(n, b)]"
      using settles(2) unfolding settles_attempt_def b_def e by blast+
    have "n \<in> set (map_keys (skPending k))"
      using settles(2) by (auto simp: settles_attempt_def map_get_None_iff)
    then have "ids_ok (skNext k') (set (map_keys (skPending k'))) (connect_ids (outs @ out)) (map fst (vs @ [(n, b)]))"
      unfolding s using ids_ok_settle parts by (simp add: s del: set_map)
    moreover have "answered_in (es @ [e]) n b" using answered_in_snoc(2) [of es now n r] by (simp add: b_def e)
    ultimately show ?thesis
      using parts answered_more [of vs es e] unfolding attempts_ok_def prod.case s by (simp add: s ball_Un)
  qed
qed

lemma attempts_ok_run:
  "attempts_ok cf es vs (k, outs) \<Longrightarrow>
     attempts_ok cf (es @ fs) (vs @ run_verdicts rx cf fs k) (socket_run rx cf fs (k, outs))"
proof (induction fs arbitrary: es vs k outs)
  case (Cons e fs)
  obtain k' out where step: "socket_step rx cf e k = (k', out)" by fastforce
  from Cons.IH [OF attempts_ok_step [OF Cons.prems step]] show ?case by (simp add: step)
qed simp

lemma attempts_ok_new: "attempts_ok cf [] [] (new_socket ses au st ts, [])"
  by (simp add: attempts_ok_def ids_ok_def new_socket_def)

text \<open>C13: Over any sequence of messages, answers, disconnections and changes of the HTTP session, a socket only
  asks the SSH service for connections with a name, a host, a port that is in range or \<open>NaN\<close>, and a password or key,
  where every password or key with a character other than white space belongs to a method the configuration allows, and
  only a Telnet socket of a server with Telnet asks the Telnet service, with a name, a host and such a port; each attempt is
  asked for once; and each attempt is either still waiting for its answer or the client was told exactly one verdict
  about it, success when its connection was opened and failure when it was not, where a failed \<open>auth_result\<close> sent
  with the answer counts like the messages that name the attempt.\<close>

theorem authentication_gated:
  assumes "socket_run rx cf es (new_socket ses au st ts, []) = (k, outs)"
  shows "let told = run_verdicts rx cf es (new_socket ses au st ts)
    in (\<forall>g\<in>set (ssh_connects outs). connect_allowed cf g) \<and> (\<forall>g\<in>set (telnet_connects outs). telnet_allowed cf g)
    \<and> distinct (connect_ids outs) \<and> distinct (map fst told)
    \<and> set (connect_ids outs) = set (map_keys (skPending k)) \<union> set (map fst told)
    \<and> set (map_keys (skPending k)) \<inter> set (map fst told) = {}
    \<and> (\<forall>(n, good)\<in>set told. answered_in es n good)"
  using attempts_ok_run [OF attempts_ok_new [of cf ses au st ts], where fs = es and rx = rx] assms
  by (simp add: attempts_ok_def ids_ok_def Let_def del: set_map)

definition demo_socket_config :: "auth_token list \<Rightarrow> nat socket_config" where
  "demo_socket_config allowed = \<lparr>scProtocol = SshProtocol, scSocketId = ''k1'', scSsh = demo_ssh\<lparr>svAllowedAuthMethods := allowed\<rparr>,
     scHost = Some ''h'', scPort = Num 22, scAllowReplay = True, scReplayCRLF = False, scAllowReauth = True, scAllowReconnect = True,
     scAutoLog = False, scTelnetService = False, scTelnet = None, scSftp = None,
     scHostKeyInfo = (False, False, ''prompt'')\<rparr>"

definition demo_socket_run :: "auth_token list \<Rightarrow> (int \<times> socket_event) list \<Rightarrow> nat socket_auth \<times> nat auth_event_out list" where
  "demo_socket_run allowed es = socket_run (\<lambda>_. True) (demo_socket_config allowed) es
     (new_socket None (new_auth_service None) (new_session_store None) (new_terminal_service None None None), [])"

definition demo_login :: "(int \<times> socket_event) list" where
  "demo_login = [(0, EvInitial ''s1'' ''u1''), (1, EvAuth ''s1'' ''u1'' (demo_user ''h'' ''pw'')), (2, EvAnswer 0 (Connection ''c1''))]"

definition demo_told :: "(nat \<times> bool) list" where
  "demo_told = run_verdicts (\<lambda>_. True) (demo_socket_config [PasswordToken]) demo_login
     (new_socket None (new_auth_service None) (new_session_store None :: nat session_store) (new_terminal_service None None None))"

theorem authentication_gated_witness:
  "demo_told = [(0, True)] \<and> distinct (map fst demo_told) \<and>
   list_all (connect_allowed (demo_socket_config [PasswordToken])) (ssh_connects (snd (demo_socket_run [PasswordToken] demo_login)))"
proof (intro conjI)
  note use = authentication_gated [OF surjective_pairing, of "\<lambda>_. True" "demo_socket_config [PasswordToken]" demo_login
      None "new_auth_service None" "new_session_store None :: nat session_store" "new_terminal_service None None None", unfolded Let_def]
  show "demo_told = [(0, True)]"
    by code_simp
  show "distinct (map fst demo_told)"
    unfolding demo_told_def using use by blast
  show "list_all (connect_allowed (demo_socket_config [PasswordToken])) (ssh_connects (snd (demo_socket_run [PasswordToken] demo_login)))"
    unfolding demo_socket_run_def list_all_iff using use by blast
qed

section \<open>Corners\<close>

text \<open>A client that leaves while the connection is being opened leaves the connection open: it is noted
  after the disconnection, and nothing closes it.\<close>

lemma late_connection_leaks:
  "(let (k, outs) = demo_socket_run [PasswordToken] [(1, EvAuth ''s1'' ''u1'' (demo_user ''h'' ''pw'')), (2, EvDisconnect),
        (3, EvAnswer 0 (Connection ''c1''))]
    in asConnectionId (skState k) = Some ''c1'' \<and> (\<forall>x\<in>set outs. case x of DisconnectConnection p c \<Rightarrow> False | _ \<Rightarrow> True))"
  by code_simp

text \<open>A second login of the socket replaces the first connection without closing it.\<close>

definition twice :: "(int \<times> socket_event) list" where
  "twice = [(1, EvAuth ''s1'' ''u1'' (demo_user ''h'' ''pw'')), (2, EvAnswer 0 (Connection ''c1'')),
     (3, EvAuth ''s2'' ''u2'' (demo_user ''h'' ''pw'')), (4, EvAnswer 1 (Connection ''c2'')), (5, EvDisconnect)]"

lemma second_login_drops_connection:
  "filter (\<lambda>x. case x of DisconnectConnection p c \<Rightarrow> True | _ \<Rightarrow> False) (snd (demo_socket_run [PasswordToken] twice))
     = [DisconnectConnection SshProtocol ''c2'']"
  by code_simp

text \<open>The answers to an interactive prompt are judged as a password: where only interactive
  authentication is allowed, every answer with a password that is not blank is refused.\<close>

lemma interactive_answers_refused:
  assumes "scProtocol cf = SshProtocol" "scHost cf = Some h" "svAllowedAuthMethods (scSsh cf) = [KeyboardInteractiveToken]"
    and "trim p \<noteq> []"
  shows "snd (handleKeyboardInteractiveResponse rx cf sid uid now [JStr u, JStr p] k) =
     [MethodDisabled PasswordToken, AuthFailureMessage ''Authentication method disabled by server policy'']"
  using assms
  by (simp add: handleKeyboardInteractiveResponse_def handleAuthentication_def prepareAuthCredentials_def updateAuthPipeline_def
      pipelineCredentials_def present_def setManualCredentials_def isValidCredentials_def nullish_def policy_of_def
      evaluateAuthMethodPolicy_def resolveRequestedAuthMethods_def dedupePreserveOrder_def hasCredential_def Let_def)

text \<open>The session of a socket is deleted when the socket leaves, also when another socket with the same
  user name was given the same session: the store no longer knows the session of that other socket.\<close>

lemma leaving_deletes_shared_session:
  "getState (skStore (fst (demo_socket_run [PasswordToken] (demo_login @ [(3, EvDisconnect)])))) ''s1'' = None \<and>
   findCachedSession 4 (demo_user ''other'' ''x'') (skAuth (fst (demo_socket_run [PasswordToken] (demo_login @ [(3, EvDisconnect)])))) \<noteq> None"
  by code_simp

text \<open>The client's wish to see every keyboard-interactive prompt is lost on the way to the connection.\<close>

lemma forward_all_lost: "connectSSH cf n (buildAuthCredentials v c) sid = ConnectSsh n g \<Longrightarrow> \<not> sfForwardAllPrompts g"
  by (auto simp: connectSSH_def buildSSHConfig_def buildAuthCredentials_def)

end
