(* ===== verification/Terminal_Flow.thy ===== *)
theory Terminal_Flow
  imports Socket_Auth Backpressure
begin

text \<open>
  The terminal of a socket, \<open>socket/adapters/service-socket-terminal.ts\<close>: the messages that open, resize and
  feed a shell or run a command, and the flow of the shell's output to the client with its optional rate limit
  and the back-pressure of the WebSocket buffer.  Calls of the services are outputs and their results arguments
  or events.  A reading of the buffer and the time are arguments of the events; a timer fires only while it is set.
\<close>

section \<open>Requests\<close>

record shell_settings =
  tgSessionId :: string
  tgTerm :: jsval
  tgRows :: jsval
  tgCols :: jsval
  tgEnv :: "(string, string) jsmap"

datatype terminal_out =
    CreateTerminal shell_settings
  | OpenShell protocol string shell_settings
  | ResizeTerminal string jsval
  | SetWindow jsval jsval
  | ResizeTelnet string jsval jsval
  | WriteShell jsval
  | ExecCommand string string
  | ShellData string
  | TerminalError string

text \<open>\<open>settings?.term\<close> reads nothing from missing settings.\<close>

definition buildTerminalDefaults :: "jsval \<Rightarrow> 'l socket_auth \<Rightarrow> jsval \<times> jsval \<times> jsval \<times> (string, string) jsmap" where
  "buildTerminalDefaults settings k =
     (let s = skState k
      in (or_nullish (jget settings ''term'') (or_nullish (asTerm s) (JStr ''xterm-256color'')),
          or_nullish (jget settings ''rows'') (or_nullish (asRows s) (JNum (Num 24))),
          or_nullish (jget settings ''cols'') (or_nullish (asCols s) (JNum (Num 80))),
          or_else (Option.bind (skHttp k) htEnvVars) []))"

definition buildTerminalConfig :: "jsval \<Rightarrow> string \<Rightarrow> 'l socket_auth \<Rightarrow> shell_settings" where
  "buildTerminalConfig settings sid k =
     (let (t, r, c, e) = buildTerminalDefaults settings k
      in \<lparr>tgSessionId = sid, tgTerm = t, tgRows = r, tgCols = c, tgEnv = e\<rparr>)"

definition handleTerminal :: "'a socket_config \<Rightarrow> jsval \<Rightarrow> (string, unit) result \<Rightarrow> 'l socket_auth \<Rightarrow> terminal_out list" where
  "handleTerminal cf settings created k =
     (case (asSessionId (skState k), asConnectionId (skState k)) of
        (Some sid, Some connId) \<Rightarrow>
          (let cfg = buildTerminalConfig settings sid k
           in CreateTerminal cfg #
              (case created of
                 Inl m \<Rightarrow> [TerminalError m]
               | Inr _ \<Rightarrow> if scProtocol cf = TelnetProtocol \<and> \<not> scTelnetService cf then [TerminalError ''Telnet service not available'']
                          else [OpenShell (scProtocol cf) connId cfg]))
      | _ \<Rightarrow> [])"

definition shellOpened :: "(string, unit) result \<Rightarrow> 'l socket_auth \<Rightarrow> 'l socket_auth \<times> terminal_out list" where
  "shellOpened r k = (case r of Inl m \<Rightarrow> (k, [TerminalError m]) | Inr _ \<Rightarrow> (on_state (\<lambda>s. s\<lparr>asHasShell := True\<rparr>) k, []))"

text \<open>\<open>hasTerminal\<close> is the answer of the terminal service for the session, \<open>canResize\<close> whether the shell
  has \<open>setWindow\<close>.  A failed resize of the terminal is logged, and the shell is resized all the same.\<close>

definition handleResize :: "'a socket_config \<Rightarrow> jsval \<Rightarrow> bool \<Rightarrow> bool \<Rightarrow> 'l socket_auth \<Rightarrow> 'l socket_auth \<times> terminal_out list" where
  "handleResize cf dims hasTerminal canResize k =
     (case asSessionId (skState k) of
        None \<Rightarrow> (k, [])
      | Some sid \<Rightarrow>
          if hasTerminal
          then (k, ResizeTerminal sid dims #
                 (if scProtocol cf = TelnetProtocol
                  then (case asConnectionId (skState k) of
                          Some connId \<Rightarrow> if scTelnetService cf then [ResizeTelnet connId (jget dims ''rows'') (jget dims ''cols'')] else []
                        | None \<Rightarrow> [])
                  else if asHasShell (skState k) \<and> canResize then [SetWindow (jget dims ''rows'') (jget dims ''cols'')]
                  else []))
          else (on_state (\<lambda>s. s\<lparr>asRows := jget dims ''rows'', asCols := jget dims ''cols''\<rparr>) k, []))"

definition handleData :: "jsval \<Rightarrow> 'l socket_auth \<Rightarrow> terminal_out list" where
  "handleData d k = (if asHasShell (skState k) then [WriteShell d] else [])"

text \<open>\<open>String(v)\<close>; the text of a number is a parameter.\<close>

fun js_string :: "(jsnum \<Rightarrow> string) \<Rightarrow> jsval \<Rightarrow> string" where
  "js_string num_text JUndefined = ''undefined''"
| "js_string num_text JNull = ''null''"
| "js_string num_text (JBool b) = (if b then ''true'' else ''false'')"
| "js_string num_text (JNum x) = num_text x"
| "js_string num_text (JStr s) = s"
| "js_string num_text (JArr xs) = join_with '','' (map (\<lambda>x. if nullish x then [] else js_string num_text x) xs)"
| "js_string num_text (JObj m) = ''[object Object]''"

definition handleExec :: "(jsnum \<Rightarrow> string) \<Rightarrow> jsval \<Rightarrow> 'l socket_auth \<Rightarrow> terminal_out list" where
  "handleExec num_text request k =
     (case asConnectionId (skState k) of
        None \<Rightarrow> [TerminalError ''No SSH connection'']
      | Some connId \<Rightarrow> [ExecCommand connId
          (if has_key request ''command'' then js_string num_text (jget request ''command'') else [])])"

text \<open>The result of a command: its standard output and error, or the message of a failure.\<close>

definition execAnswered :: "(string, string \<times> string) result \<Rightarrow> terminal_out list" where
  "execAnswered r = (case r of
      Inl m \<Rightarrow> [TerminalError m]
    | Inr (out, errs) \<Rightarrow> ShellData out # (if errs \<noteq> [] then [ShellData errs] else []))"

section \<open>Output of the shell\<close>

record rate_window =
  rwBytes :: int
  rwStart :: int
  rwPaused :: bool

text \<open>\<open>flTimer\<close> and \<open>flDrain\<close>: the check timer and the listener for the drain event are set.  \<open>flRateTimers\<close>
  counts the timers of the rate limit.\<close>

record shell_flow =
  flLimit :: int
  flHighWaterMark :: int
  flRate :: "rate_window option"
  flPaused :: bool
  flTimer :: bool
  flDrain :: bool
  flRateTimers :: nat

datatype 'c flow_out = EmitData 'c | PauseStream | ResumeStream | RateTimer int | ClosedMessage

definition setupShellDataFlow :: "int option \<Rightarrow> int option \<Rightarrow> int \<Rightarrow> shell_flow" where
  "setupShellDataFlow limit mark now =
     (let l = or_else limit 0
      in \<lparr>flLimit = l, flHighWaterMark = or_else mark 16384,
          flRate = (if l > 0 then Some \<lparr>rwBytes = 0, rwStart = now, rwPaused = False\<rparr> else None),
          flPaused = False, flTimer = False, flDrain = False, flRateTimers = 0\<rparr>)"

definition clearResumeSchedule :: "shell_flow \<Rightarrow> shell_flow" where
  "clearResumeSchedule f = f\<lparr>flTimer := False, flDrain := False\<rparr>"

definition scheduleResumeCheck :: "shell_flow \<Rightarrow> shell_flow" where
  "scheduleResumeCheck f = (clearResumeSchedule f)\<lparr>flDrain := True, flTimer := True\<rparr>"

definition checkResume :: "jsnum option \<Rightarrow> shell_flow \<Rightarrow> shell_flow \<times> 'c flow_out list" where
  "checkResume buffered f =
     (if computeBackpressureAction buffered (flHighWaterMark f) (flPaused f) = BpResume
      then (clearResumeSchedule (f\<lparr>flPaused := False\<rparr>), [ResumeStream])
      else if flPaused f then (scheduleResumeCheck f, [])
      else (f, []))"

definition checkBackpressure :: "jsnum option \<Rightarrow> shell_flow \<Rightarrow> shell_flow \<times> 'c flow_out list" where
  "checkBackpressure buffered f =
     (if computeBackpressureAction buffered (flHighWaterMark f) (flPaused f) = BpPause
      then (scheduleResumeCheck (f\<lparr>flPaused := True\<rparr>), [PauseStream])
      else (f, []))"

text \<open>A chunk that exceeds the limit of the window is not emitted; it pauses the stream and sets a timer.\<close>

definition emit_chunk :: "'c \<Rightarrow> jsnum option \<Rightarrow> shell_flow \<Rightarrow> shell_flow \<times> 'c flow_out list" where
  "emit_chunk c buffered f =
     (let (f1, out) = (if flPaused f then (f, []) else checkBackpressure buffered f) in (f1, EmitData c # out))"

definition onData :: "('c \<Rightarrow> int) \<Rightarrow> 'c \<Rightarrow> int \<Rightarrow> jsnum option \<Rightarrow> shell_flow \<Rightarrow> shell_flow \<times> 'c flow_out list" where
  "onData len c now buffered f =
     (case flRate f of
        None \<Rightarrow> emit_chunk c buffered f
      | Some r \<Rightarrow>
          let elapsed = now - rwStart r;
              r1 = (if elapsed \<ge> 1000 then r\<lparr>rwBytes := 0, rwStart := now\<rparr> else r)
          in if rwBytes r1 + len c > flLimit f
             then (f\<lparr>flRate := Some (r1\<lparr>rwPaused := True\<rparr>), flRateTimers := Suc (flRateTimers f)\<rparr>,
                   (if rwPaused r1 then [] else [PauseStream]) @ [RateTimer (1000 - elapsed)])
             else emit_chunk c buffered (f\<lparr>flRate := Some (r1\<lparr>rwBytes := rwBytes r1 + len c\<rparr>)\<rparr>))"

definition rateTimer :: "int \<Rightarrow> shell_flow \<Rightarrow> shell_flow \<times> 'c flow_out list" where
  "rateTimer now f =
     (if flRateTimers f = 0 then (f, [])
      else let f1 = f\<lparr>flRateTimers := flRateTimers f - 1\<rparr>
           in case flRate f1 of
                None \<Rightarrow> (f1, [])
              | Some r \<Rightarrow> (f1\<lparr>flRate := Some \<lparr>rwBytes = 0, rwStart = now, rwPaused = False\<rparr>\<rparr>,
                           if flPaused f1 then [] else [ResumeStream]))"

definition onClose :: "shell_flow \<Rightarrow> shell_flow \<times> 'c flow_out list" where
  "onClose f = ((clearResumeSchedule f)\<lparr>flRate := None\<rparr>, [ClosedMessage])"

datatype 'c flow_event = FData 'c int "jsnum option" | FDrain "jsnum option" | FCheck "jsnum option" | FRate int | FClose

fun flow_step :: "('c \<Rightarrow> int) \<Rightarrow> 'c flow_event \<Rightarrow> shell_flow \<Rightarrow> shell_flow \<times> 'c flow_out list" where
  "flow_step len (FData c now b) f = onData len c now b f"
| "flow_step len (FDrain b) f = (if flDrain f then checkResume b (f\<lparr>flDrain := False\<rparr>) else (f, []))"
| "flow_step len (FCheck b) f = (if flTimer f then checkResume b (f\<lparr>flTimer := False\<rparr>) else (f, []))"
| "flow_step len (FRate now) f = rateTimer now f"
| "flow_step len FClose f = onClose f"

fun flow_run :: "('c \<Rightarrow> int) \<Rightarrow> 'c flow_event list \<Rightarrow> shell_flow \<Rightarrow> shell_flow \<times> 'c flow_out list" where
  "flow_run len [] f = (f, [])"
| "flow_run len (e # es) f =
     (let (f1, out1) = flow_step len e f; (f2, out2) = flow_run len es f1 in (f2, out1 @ out2))"

section \<open>Properties\<close>

fun emitted :: "'c flow_out list \<Rightarrow> 'c list" where
  "emitted [] = []"
| "emitted (x # xs) = (case x of EmitData c \<Rightarrow> [c] | _ \<Rightarrow> []) @ emitted xs"

fun received :: "'c flow_event list \<Rightarrow> 'c list" where
  "received [] = []"
| "received (x # xs) = (case x of FData c now b \<Rightarrow> [c] | _ \<Rightarrow> []) @ received xs"

text \<open>Whether the stream flows after the calls in \<open>outs\<close>.\<close>

fun flowing :: "bool \<Rightarrow> 'c flow_out list \<Rightarrow> bool" where
  "flowing b [] = b"
| "flowing b (x # xs) = flowing (case x of PauseStream \<Rightarrow> False | ResumeStream \<Rightarrow> True | _ \<Rightarrow> b) xs"

lemma flow_append [simp]: "emitted (xs @ ys) = emitted xs @ emitted ys" "flowing b (xs @ ys) = flowing (flowing b xs) ys"
  by (induction xs arbitrary: b) simp_all

definition flow_ok :: "bool \<Rightarrow> shell_flow \<Rightarrow> bool" where
  "flow_ok b f \<longleftrightarrow> flRate f = None \<and> b = (\<not> flPaused f) \<and> (flPaused f \<longrightarrow> flTimer f \<and> flDrain f)"

lemmas flow_defs = onData_def emit_chunk_def checkBackpressure_def checkResume_def scheduleResumeCheck_def
  clearResumeSchedule_def rateTimer_def computeBackpressureAction_def Let_def

lemma flow_step_ok:
  assumes "flow_ok b f" "flow_step len e f = (f', out)" "e \<noteq> FClose"
  shows "flow_ok (flowing b out) f' \<and> flHighWaterMark f' = flHighWaterMark f \<and> emitted out = received [e]"
proof (cases e)
  case (FData c now r)
  with assms show ?thesis by (cases r) (auto simp: flow_ok_def flow_defs split: if_splits)
next
  case (FDrain r)
  with assms show ?thesis by (cases r) (auto simp: flow_ok_def flow_defs split: if_splits)
next
  case (FCheck r)
  with assms show ?thesis by (cases r) (auto simp: flow_ok_def flow_defs split: if_splits)
next
  case (FRate now)
  with assms show ?thesis by (auto simp: flow_ok_def flow_defs split: if_splits)
next
  case FClose
  with assms show ?thesis by simp
qed

lemma received_Cons: "received (e # es) = received [e] @ received es"
  by simp

lemma flow_run_ok:
  "flow_ok b f \<Longrightarrow> flow_run len es f = (f', out) \<Longrightarrow> FClose \<notin> set es \<Longrightarrow>
     flow_ok (flowing b out) f' \<and> flHighWaterMark f' = flHighWaterMark f \<and> emitted out = received es"
proof (induction es arbitrary: b f out)
  case (Cons e es)
  obtain f1 out1 where s: "flow_step len e f = (f1, out1)" by fastforce
  obtain out2 where r: "flow_run len es f1 = (f', out2)" "out = out1 @ out2"
    using Cons.prems(2) s by (auto split: prod.splits)
  from flow_step_ok [OF Cons.prems(1) s] Cons.prems(3)
  have 1: "flow_ok (flowing b out1) f1" "flHighWaterMark f1 = flHighWaterMark f" "emitted out1 = received [e]" by auto
  from Cons.IH [OF 1(1) r(1)] Cons.prems(3) 1 r(2) show ?case
    by (simp add: received_Cons [of e es] del: received.simps(2))
qed auto

lemma resume_below_mark: "flow_ok b f \<Longrightarrow> flPaused f \<Longrightarrow> num_less n (of_int (flHighWaterMark f div 4)) \<Longrightarrow>
    ResumeStream \<in> set (snd (flow_step len (FCheck (Some n)) f)) \<and> ResumeStream \<in> set (snd (flow_step len (FDrain (Some n)) f))"
  by (auto simp: flow_ok_def checkResume_def computeBackpressureAction_def)

text \<open>C23: Without a rate limit the output of an open shell reaches the client completely and in order.  The shell
  is paused exactly while the buffer of the client is taken to be too full; then a check is scheduled, both by the
  timer and by the drain event, and the next check that reads less than a quarter of the mark resumes the shell.\<close>

theorem shell_output_flows:
  assumes "or_else limit 0 \<le> 0" and "FClose \<notin> set es"
    and "flow_run len es (setupShellDataFlow limit mark now) = (f, out)"
  shows "emitted out = received es \<and> (flowing True out \<longleftrightarrow> \<not> flPaused f)
    \<and> (flPaused f \<longrightarrow> flTimer f \<and> flDrain f
        \<and> (\<forall>n. num_less n (of_int (or_else mark 16384 div 4)) \<longrightarrow>
             ResumeStream \<in> set (snd (flow_step len (FCheck (Some n)) f)) \<and> ResumeStream \<in> set (snd (flow_step len (FDrain (Some n)) f))))"
proof -
  have ini: "flow_ok True (setupShellDataFlow limit mark now)"
    using assms(1) by (auto simp: flow_ok_def setupShellDataFlow_def Let_def)
  note r = flow_run_ok [OF ini assms(3,2)]
  have mark: "flHighWaterMark f = or_else mark 16384"
    using r by (simp add: setupShellDataFlow_def Let_def)
  have "flow_ok (flowing True out) f" "emitted out = received es"
    using r by simp_all
  then show ?thesis
    using resume_below_mark [of "flowing True out" f, unfolded mark] by (auto simp only: flow_ok_def)
qed

definition demo_shell :: "string flow_event list" where
  "demo_shell = [FData ''a'' 0 (Some (Num 10)), FData ''b'' 1 (Some (Num 20000)), FCheck (Some (Num 9000)), FData ''c'' 2 (Some (Num 9000))]"

definition demo_flow :: "shell_flow \<times> string flow_out list" where
  "demo_flow = flow_run (\<lambda>s. int (length s)) demo_shell (setupShellDataFlow None None 0)"

theorem shell_output_flows_witness:
  "emitted (snd demo_flow) = [''a'', ''b'', ''c''] \<and> flPaused (fst demo_flow) \<and> flTimer (fst demo_flow) \<and> flDrain (fst demo_flow)"
proof -
  have r: "flow_run (\<lambda>s. int (length s)) demo_shell (setupShellDataFlow None None 0) = (fst demo_flow, snd demo_flow)"
    by (simp add: demo_flow_def)
  have p: "flPaused (fst demo_flow)" by code_simp
  have "emitted (snd demo_flow) = received demo_shell \<and> flTimer (fst demo_flow) \<and> flDrain (fst demo_flow)"
    using shell_output_flows [OF _ _ r] p by (simp add: or_else_def demo_shell_def)
  with p show ?thesis by (simp add: demo_shell_def)
qed

text \<open>With a rate limit no window carries more than the limit.\<close>

lemma window_within_limit:
  assumes "\<And>c. 0 \<le> len c" and "\<And>r. flRate f = Some r \<Longrightarrow> rwBytes r \<le> flLimit f" and "0 \<le> flLimit f"
    and "flow_step len e f = (f', out)" "flRate f' = Some r'"
  shows "rwBytes r' \<le> flLimit f'"
  using assms(2-)
  by (cases e; cases "flRate f") (auto simp: flow_defs onClose_def split: if_splits option.splits)

section \<open>Corners\<close>

text \<open>A chunk over the limit of the window is lost, the timer only resumes the stream.\<close>

lemma limited_chunk_lost:
  "emitted (snd (flow_run (\<lambda>s. int (length s)) [FData ''abc'' 0 None, FData ''defg'' 10 None, FRate 1000, FData ''hi'' 1001 None]
     (setupShellDataFlow (Some 5) None 0))) = [''abc'', ''hi'']"
  by code_simp

text \<open>When the window had already expired, a chunk larger than the limit sets a timer in the past.\<close>

lemma stale_delay:
  "RateTimer (-4000) \<in> set (snd (onData (\<lambda>s. int (length s)) ''abcdef'' 5000 None (setupShellDataFlow (Some 5) None 0)))"
  by code_simp

text \<open>A shell that is paused for the buffer while the connection changes to another transport is never resumed:
  without a reading neither check decides.\<close>

lemma unreadable_buffer_stalls:
  "flow_ok b f \<Longrightarrow> flPaused f \<Longrightarrow> flPaused (fst (flow_step len (FCheck None) f)) \<and> flPaused (fst (flow_step len (FDrain None) f))"
  by (auto simp: flow_ok_def flow_defs)

text \<open>The relief of the buffer resumes a stream that the rate limit paused.\<close>

lemma relief_ignores_limit:
  "flowing True (snd (flow_run (\<lambda>s. int (length s)) [FData ''abc'' 0 (Some (Num 20000)), FData ''def'' 1 None, FCheck (Some (Num 0))]
     (setupShellDataFlow (Some 5) None 0)))"
  by code_simp

end
