(* ===== verification/Telnet_Service.thy ===== *)
theory Telnet_Service
  imports Telnet_Negotiation Telnet_Auth Connection_Pools Subnet_Check
begin

text \<open>
  The telnet service, \<open>services/telnet/telnet-service.ts\<close>: it opens TCP connections to hosts of the allowed
  subnets, keeps them in the pool, and puts shells on them, each with its own option negotiator, optional login
  automation and stream to the client.  The events of a socket may come in any order; a connection is named by
  its id, a shell by its position among the shells of the connection.  The answer of \<open>push\<close> on a stream,
  the DNS look-up and the random id are arguments.  Status, time stamps and logging are left out.
\<close>

section \<open>State\<close>

record telnet_target =
  tlSession :: string
  tlHost :: string
  tlPort :: int
  tlAuthOptions :: auth_options

record shell_side =
  tlNegotiator :: negotiator
  tlAuth :: "authenticator option"
  tlAttached :: bool
  tlDestroyed :: bool
  tlNeedsDrain :: bool

record telnet_conn =
  tlTarget :: telnet_target
  tlSettled :: bool
  tlShells :: "shell_side list"

record telnet_service =
  tlPool :: "unit pool"
  tlMeta :: "(string, telnet_target) jsmap"
  tlConns :: "(string, telnet_conn) jsmap"

definition new_telnet_service :: telnet_service where
  "new_telnet_service = \<lparr>tlPool = empty_pool, tlMeta = [], tlConns = []\<rparr>"

datatype telnet_out =
    OpenSocket string string int
  | DestroySocket string
  | SocketWrite string bytes
  | PauseSocket string
  | ResumeSocket string
  | PushData string nat bytes
  | DestroyShell string nat
  | ConnectSettled string "(string, string) result"
  | CallResult "(string, unit) result"

definition set_conn :: "string \<Rightarrow> telnet_conn \<Rightarrow> telnet_service \<Rightarrow> telnet_service" where
  "set_conn i c s = s\<lparr>tlConns := map_set i c (tlConns s)\<rparr>"

section \<open>Connecting\<close>

definition validateSubnets :: "(string \<Rightarrow> string + string list) \<Rightarrow> string list option \<Rightarrow> string \<Rightarrow> (string, unit) result" where
  "validateSubnets lookup allowed host =
     (if allowed = None \<or> allowed = Some [] then ok ()
      else case validateConnectionWithDns lookup host allowed of
             Inl e \<Rightarrow> err (''Host validation failed: '' @ e)
           | Inr permitted \<Rightarrow> if permitted then ok ()
               else err (''Telnet connection to host '' @ host @ '' is not permitted by subnet policy''))"

text \<open>The id names the attempt and, when it succeeds, the connection.\<close>

definition telnet_connect :: "(string \<Rightarrow> string + string list) \<Rightarrow> string list option \<Rightarrow> string \<Rightarrow> telnet_target \<Rightarrow>
    telnet_service \<Rightarrow> telnet_service \<times> telnet_out list" where
  "telnet_connect lookup allowed i t s =
     (case validateSubnets lookup allowed (tlHost t) of
        Inl e \<Rightarrow> (s, [ConnectSettled i (err e)])
      | Inr _ \<Rightarrow> (set_conn i \<lparr>tlTarget = t, tlSettled = False, tlShells = []\<rparr> s, [OpenSocket i (tlHost t) (tlPort t)]))"

definition settle_connect :: "string \<Rightarrow> (string, string) result \<Rightarrow> telnet_conn \<Rightarrow> telnet_conn \<times> telnet_out list" where
  "settle_connect i r c = (if tlSettled c then (c, []) else (c\<lparr>tlSettled := True\<rparr>, [ConnectSettled i r]))"

text \<open>The timer is cleared when the attempt is settled.\<close>

definition connectTimeout :: "string \<Rightarrow> telnet_service \<Rightarrow> telnet_service \<times> telnet_out list" where
  "connectTimeout i s =
     (case map_get (tlConns s) i of
        None \<Rightarrow> (s, [])
      | Some c \<Rightarrow> if tlSettled c then (s, [])
                  else let (c', out) = settle_connect i (err ''Connection timed out'') c
                       in (set_conn i c' s, DestroySocket i # out))"

definition socketConnected :: "string \<Rightarrow> telnet_service \<Rightarrow> telnet_service \<times> telnet_out list" where
  "socketConnected i s =
     (case map_get (tlConns s) i of
        None \<Rightarrow> (s, [])
      | Some c \<Rightarrow>
          if tlSettled c then (s, [])
          else let (c', out) = settle_connect i (ok i) c
               in (set_conn i c' (s\<lparr>tlPool := telnet_pool_add \<lparr>cid = i, csession = tlSession (tlTarget c), chandle = ()\<rparr> (tlPool s),
                                   tlMeta := map_set i (tlTarget c) (tlMeta s)\<rparr>),
                   PauseSocket i # out))"

section \<open>Shells\<close>

definition buildAuthenticator :: "string \<Rightarrow> telnet_service \<Rightarrow> authenticator option" where
  "buildAuthenticator i s =
     (case map_get (tlMeta s) i of
        None \<Rightarrow> None
      | Some t \<Rightarrow>
          if loginPrompt (tlAuthOptions t) = None \<or> aoUsername (tlAuthOptions t) = None then None
          else Some (new_authenticator (tlAuthOptions t)))"

definition open_shell :: "string option \<Rightarrow> 32 word option \<Rightarrow> 32 word option \<Rightarrow> authenticator option \<Rightarrow> shell_side \<times> bytes list" where
  "open_shell term rows columns auth =
     (let n = setWindowSize (case columns of None \<Rightarrow> 80 | Some c \<Rightarrow> c) (case rows of None \<Rightarrow> 24 | Some r \<Rightarrow> r)
                (new_negotiator (case term of None \<Rightarrow> ''xterm-256color'' | Some t \<Rightarrow> t));
          (n', offers) = buildProactiveOffers n
      in (\<lparr>tlNegotiator = n', tlAuth = map_option startTimeout auth, tlAttached = True, tlDestroyed = False,
           tlNeedsDrain = False\<rparr>, offers))"

definition telnet_shell :: "string \<Rightarrow> string option \<Rightarrow> 32 word option \<Rightarrow> 32 word option \<Rightarrow> telnet_service \<Rightarrow>
    telnet_service \<times> telnet_out list" where
  "telnet_shell i term rows columns s =
     (case (telnet_pool_get (tlPool s) i, map_get (tlConns s) i) of
        (Some _, Some c) \<Rightarrow>
          (let (sh, offers) = open_shell term rows columns (buildAuthenticator i s)
           in (set_conn i (c\<lparr>tlShells := tlShells c @ [sh]\<rparr>) s, map (SocketWrite i) offers @ [ResumeSocket i, CallResult (ok ())]))
      | _ \<Rightarrow> (s, [CallResult (err ''Connection not found'')]))"

definition isAuthComplete :: "authenticator \<Rightarrow> bool" where
  "isAuthComplete a \<longleftrightarrow> currentState a = Authenticated \<or> currentState a = PassThrough \<or> currentState a = Failed"

text \<open>\<open>canPush\<close> is what \<open>push\<close> returns.\<close>

definition pushData :: "string \<Rightarrow> nat \<Rightarrow> bool \<Rightarrow> bytes \<Rightarrow> shell_side \<Rightarrow> shell_side \<times> telnet_out list" where
  "pushData i k canPush chunk sh =
     (if \<not> canPush \<and> \<not> tlNeedsDrain sh then (sh\<lparr>tlNeedsDrain := True\<rparr>, [PushData i k chunk, PauseSocket i])
      else (sh, [PushData i k chunk]))"

definition push_if_any :: "string \<Rightarrow> nat \<Rightarrow> bool \<Rightarrow> bytes option \<Rightarrow> shell_side \<Rightarrow> shell_side \<times> telnet_out list" where
  "push_if_any i k canPush chunk sh =
     (case chunk of Some (b # bs) \<Rightarrow> pushData i k canPush (b # bs) sh | _ \<Rightarrow> (sh, []))"

definition handleSocketData :: "string \<Rightarrow> bytes \<Rightarrow> bool \<Rightarrow> nat \<Rightarrow> shell_side \<Rightarrow> shell_side \<times> telnet_out list" where
  "handleSocketData i data canPush k sh =
     (let (n, clean, responses) = processInbound data (tlNegotiator sh);
          sh1 = sh\<lparr>tlNegotiator := n\<rparr>;
          out = map (SocketWrite i) responses
      in if clean = [] then (sh1, out)
         else case tlAuth sh of
           Some a \<Rightarrow>
             (if isAuthComplete a then let (sh2, out2) = pushData i k canPush clean sh1 in (sh2, out @ out2)
              else let (a', r) = processData clean a;
                       (sh2, out2) = push_if_any i k canPush (forwardToClient r) (sh1\<lparr>tlAuth := Some a'\<rparr>)
                   in (sh2, out @ map (SocketWrite i) (opt_list (writeToSocket r)) @ out2))
         | None \<Rightarrow> let (sh2, out2) = pushData i k canPush clean sh1 in (sh2, out @ out2))"

text \<open>Every attached listener of the socket gets the data, in the order of the shells.\<close>

fun to_shells :: "(nat \<Rightarrow> shell_side \<Rightarrow> shell_side \<times> telnet_out list) \<Rightarrow> nat \<Rightarrow> shell_side list \<Rightarrow>
    shell_side list \<times> telnet_out list" where
  "to_shells f k [] = ([], [])"
| "to_shells f k (sh # shs) =
     (let (sh', out) = f k sh; (shs', outs) = to_shells f (Suc k) shs in (sh' # shs', out @ outs))"

definition in_shells :: "string \<Rightarrow> (nat \<Rightarrow> shell_side \<Rightarrow> shell_side \<times> telnet_out list) \<Rightarrow> telnet_service \<Rightarrow>
    telnet_service \<times> telnet_out list" where
  "in_shells i f s =
     (case map_get (tlConns s) i of
        None \<Rightarrow> (s, [])
      | Some c \<Rightarrow> let (shs, outs) = to_shells f 0 (tlShells c) in (set_conn i (c\<lparr>tlShells := shs\<rparr>) s, outs))"

definition if_attached :: "(nat \<Rightarrow> shell_side \<Rightarrow> shell_side \<times> telnet_out list) \<Rightarrow> nat \<Rightarrow> shell_side \<Rightarrow>
    shell_side \<times> telnet_out list" where
  "if_attached f k sh = (if tlAttached sh then f k sh else (sh, []))"

definition at_shell :: "nat \<Rightarrow> (nat \<Rightarrow> shell_side \<Rightarrow> shell_side \<times> telnet_out list) \<Rightarrow> nat \<Rightarrow> shell_side \<Rightarrow>
    shell_side \<times> telnet_out list" where
  "at_shell k f k' sh = (if k' = k then f k sh else (sh, []))"

definition shellCleanup :: "shell_side \<Rightarrow> shell_side" where
  "shellCleanup sh = sh\<lparr>tlAttached := False, tlAuth := map_option auth_destroy (tlAuth sh)\<rparr>"

definition socket_closed :: "string \<Rightarrow> nat \<Rightarrow> shell_side \<Rightarrow> shell_side \<times> telnet_out list" where
  "socket_closed i k sh =
     (let sh1 = shellCleanup sh
      in if tlDestroyed sh then (sh1, []) else (sh1\<lparr>tlDestroyed := True\<rparr>, [DestroyShell i k]))"

text \<open>The timers of the authenticator hand the buffered bytes to the stream.\<close>

definition auth_timer :: "string \<Rightarrow> (authenticator \<Rightarrow> bool) \<Rightarrow> (authenticator \<Rightarrow> authenticator \<times> bytes option) \<Rightarrow> bool \<Rightarrow>
    nat \<Rightarrow> shell_side \<Rightarrow> shell_side \<times> telnet_out list" where
  "auth_timer i armed fires canPush k sh =
     (case tlAuth sh of
        Some a \<Rightarrow> if armed a then let (a', f) = fires a in push_if_any i k canPush f (sh\<lparr>tlAuth := Some a'\<rparr>) else (sh, [])
      | None \<Rightarrow> (sh, []))"

definition shell_read :: "string \<Rightarrow> nat \<Rightarrow> shell_side \<Rightarrow> shell_side \<times> telnet_out list" where
  "shell_read i k sh = (if tlNeedsDrain sh then (sh\<lparr>tlNeedsDrain := False\<rparr>, [ResumeSocket i]) else (sh, []))"

section \<open>Connections with a shell\<close>

text \<open>The listener of \<open>connect\<close> destroys the socket, the listeners of the shells clean up.\<close>

definition socketError :: "string \<Rightarrow> string \<Rightarrow> telnet_service \<Rightarrow> telnet_service \<times> telnet_out list" where
  "socketError i m s =
     (case map_get (tlConns s) i of
        None \<Rightarrow> (s, [])
      | Some c \<Rightarrow>
          let (c', out) = settle_connect i (err m) c; (s', outs) = in_shells i (socket_closed i) (set_conn i c' s)
          in (s', DestroySocket i # out @ outs))"

text \<open>The negotiator of a connection is the one of its last shell.\<close>

definition set_window :: "32 word \<Rightarrow> 32 word \<Rightarrow> shell_side \<Rightarrow> shell_side" where
  "set_window columns rows sh = sh\<lparr>tlNegotiator := setWindowSize columns rows (tlNegotiator sh)\<rparr>"

definition telnet_resize :: "string \<Rightarrow> 32 word \<Rightarrow> 32 word \<Rightarrow> telnet_service \<Rightarrow> telnet_service \<times> telnet_out list" where
  "telnet_resize i rows columns s =
     (case (telnet_pool_get (tlPool s) i, map_get (tlConns s) i) of
        (Some _, Some c) \<Rightarrow>
          (if tlShells c = [] then (s, [CallResult (err ''Negotiator not initialized (shell not opened)'')])
           else (set_conn i (c\<lparr>tlShells := butlast (tlShells c) @ [set_window columns rows (last (tlShells c))]\<rparr>) s,
                 [SocketWrite i (encodeNaws columns rows), CallResult (ok ())]))
      | _ \<Rightarrow> (s, [CallResult (err ''Connection not found'')]))"

text \<open>The authenticator of a connection is the one of its last shell that has one; all shells of a connection
  have one or none.\<close>

definition destroy_last_auth :: "shell_side list \<Rightarrow> shell_side list" where
  "destroy_last_auth shs = (if shs = [] then []
     else butlast shs @ [(last shs)\<lparr>tlAuth := map_option auth_destroy (tlAuth (last shs))\<rparr>])"

definition telnet_disconnect :: "string \<Rightarrow> telnet_service \<Rightarrow> telnet_service \<times> telnet_out list" where
  "telnet_disconnect i s =
     (case (telnet_pool_get (tlPool s) i, map_get (tlConns s) i) of
        (Some _, Some c) \<Rightarrow>
          (set_conn i (c\<lparr>tlShells := destroy_last_auth (tlShells c)\<rparr>)
             (s\<lparr>tlPool := fst (telnet_pool_remove i (tlPool s)), tlMeta := map_delete i (tlMeta s)\<rparr>),
           [DestroySocket i, CallResult (ok ())])
      | _ \<Rightarrow> (s, [CallResult (ok ())]))"

definition telnet_status :: "string \<Rightarrow> telnet_service \<Rightarrow> unit pooled_connection option" where
  "telnet_status i s = telnet_pool_get (tlPool s) i"

section \<open>Events\<close>

datatype telnet_event =
    TeConnect string telnet_target
  | TeTimeout string
  | TeConnected string
  | TeShell string "string option" "32 word option" "32 word option"
  | TeData string bytes bool
  | TeWrite string nat bytes
  | TeRead string nat
  | TeAuthTimeout string nat bool
  | TeAuthSettle string nat bool
  | TeShellClosed string nat
  | TeClosed string
  | TeError string string
  | TeResize string "32 word" "32 word"
  | TeDisconnect string

fun telnet_step :: "(string \<Rightarrow> string + string list) \<Rightarrow> string list option \<Rightarrow> telnet_event \<Rightarrow> telnet_service \<Rightarrow>
    telnet_service \<times> telnet_out list" where
  "telnet_step lookup allowed (TeConnect i t) s = telnet_connect lookup allowed i t s"
| "telnet_step lookup allowed (TeTimeout i) s = connectTimeout i s"
| "telnet_step lookup allowed (TeConnected i) s = socketConnected i s"
| "telnet_step lookup allowed (TeShell i term rows columns) s = telnet_shell i term rows columns s"
| "telnet_step lookup allowed (TeData i bs canPush) s = in_shells i (if_attached (handleSocketData i bs canPush)) s"
| "telnet_step lookup allowed (TeWrite i k bs) s = (s, [SocketWrite i bs])"
| "telnet_step lookup allowed (TeRead i k) s = in_shells i (at_shell k (shell_read i)) s"
| "telnet_step lookup allowed (TeAuthTimeout i k canPush) s = in_shells i (at_shell k (auth_timer i timeoutArmed timeoutFires canPush)) s"
| "telnet_step lookup allowed (TeAuthSettle i k canPush) s = in_shells i (at_shell k (auth_timer i settleArmed settleAuthResult canPush)) s"
| "telnet_step lookup allowed (TeShellClosed i k) s = in_shells i (at_shell k (\<lambda>k sh. ((shellCleanup sh)\<lparr>tlDestroyed := True\<rparr>, []))) s"
| "telnet_step lookup allowed (TeClosed i) s = in_shells i (socket_closed i) s"
| "telnet_step lookup allowed (TeError i m) s = socketError i m s"
| "telnet_step lookup allowed (TeResize i rows columns) s = telnet_resize i rows columns s"
| "telnet_step lookup allowed (TeDisconnect i) s = telnet_disconnect i s"

fun telnet_run :: "(string \<Rightarrow> string + string list) \<Rightarrow> string list option \<Rightarrow> telnet_event list \<Rightarrow> telnet_service \<Rightarrow>
    telnet_service \<times> telnet_out list" where
  "telnet_run lookup allowed [] s = (s, [])"
| "telnet_run lookup allowed (e # es) s =
     (let (s1, out1) = telnet_step lookup allowed e s; (s2, out2) = telnet_run lookup allowed es s1 in (s2, out1 @ out2))"

section \<open>What a shell shows of a connection\<close>

definition shell_of :: "telnet_service \<Rightarrow> string \<Rightarrow> nat \<Rightarrow> shell_side option" where
  "shell_of s i k = (case map_get (tlConns s) i of None \<Rightarrow> None
     | Some c \<Rightarrow> if k < length (tlShells c) then Some (tlShells c ! k) else None)"

fun pushed :: "string \<Rightarrow> nat \<Rightarrow> telnet_out list \<Rightarrow> bytes" where
  "pushed i k [] = []"
| "pushed i k (x # xs) = (case x of PushData i' k' bs \<Rightarrow> if i' = i \<and> k' = k then bs else [] | _ \<Rightarrow> []) @ pushed i k xs"

fun arrived :: "string \<Rightarrow> telnet_event list \<Rightarrow> bytes" where
  "arrived i [] = []"
| "arrived i (x # xs) = (case x of TeData i' bs b \<Rightarrow> if i' = i then bs else [] | _ \<Rightarrow> []) @ arrived i xs"

lemma pushed_append [simp]: "pushed i k (xs @ ys) = pushed i k xs @ pushed i k ys"
  by (induction xs) simp_all

lemma pushed_writes [simp]: "pushed i k (map (SocketWrite j) rs) = []"
  by (induction rs) simp_all

text \<open>A step of one shell that only pushes to this shell.\<close>

definition own_output :: "string \<Rightarrow> (nat \<Rightarrow> shell_side \<Rightarrow> shell_side \<times> telnet_out list) \<Rightarrow> bool" where
  "own_output i f \<longleftrightarrow> (\<forall>k sh i' k'. (i', k') \<noteq> (i, k) \<longrightarrow> pushed i' k' (snd (f k sh)) = [])"

lemma to_shells_Cons [simp]:
  "fst (to_shells f k0 (sh # shs)) = fst (f k0 sh) # fst (to_shells f (Suc k0) shs)"
  "snd (to_shells f k0 (sh # shs)) = snd (f k0 sh) @ snd (to_shells f (Suc k0) shs)"
  by (simp_all split: prod.split)

declare to_shells.simps(2) [simp del]

lemma to_shells_length [simp]: "length (fst (to_shells f k0 shs)) = length shs"
  by (induction shs arbitrary: k0) simp_all

lemma to_shells_nth: "j < length shs \<Longrightarrow> fst (to_shells f k0 shs) ! j = fst (f (k0 + j) (shs ! j))"
  by (induction shs arbitrary: k0 j) (auto simp: nth_Cons split: nat.split)

lemma to_shells_none:
  "own_output i f \<Longrightarrow> i' \<noteq> i \<or> k < k0 \<or> k0 + length shs \<le> k \<Longrightarrow> pushed i' k (snd (to_shells f k0 shs)) = []"
  by (induction shs arbitrary: k0) (auto simp: own_output_def)

lemma to_shells_pushed:
  "own_output i f \<Longrightarrow> j < length shs \<Longrightarrow> pushed i (k0 + j) (snd (to_shells f k0 shs)) = pushed i (k0 + j) (snd (f (k0 + j) (shs ! j)))"
proof (induction shs arbitrary: k0 j)
  case (Cons sh shs)
  show ?case
  proof (cases j)
    case 0
    then show ?thesis using to_shells_none [OF Cons.prems(1), of i k0 "Suc k0" shs] by simp
  next
    case (Suc j')
    have "pushed i (k0 + j) (snd (f k0 sh)) = []"
      using Cons.prems(1) Suc by (auto simp: own_output_def)
    then show ?thesis
      using Suc Cons.IH [of j' "Suc k0"] Cons.prems by simp
  qed
qed simp

lemma in_shells_shell:
  "shell_of (fst (in_shells i f s)) i' k = (if i' = i then map_option (\<lambda>sh. fst (f k sh)) (shell_of s i k) else shell_of s i' k)"
  using to_shells_nth [where f = f and ?k0.0 = 0 and j = k]
  by (auto simp: in_shells_def shell_of_def set_conn_def map_get_set case_prod_beta Let_def split: option.split)

lemma in_shells_pushed:
  assumes "own_output i f"
  shows "pushed i' k (snd (in_shells i f s)) =
    (if i' = i then (case shell_of s i k of None \<Rightarrow> [] | Some sh \<Rightarrow> pushed i k (snd (f k sh))) else [])"
  using to_shells_pushed [OF assms, where ?k0.0 = 0 and j = k] to_shells_none [OF assms, where ?k0.0 = 0 and k = k]
  by (auto simp: in_shells_def shell_of_def case_prod_beta Let_def split: option.split)

subsection \<open>What the parser takes out depends on its state alone\<close>

fun parse_next :: "byte \<Rightarrow> parser_state \<Rightarrow> parser_state" where
  "parse_next b PData = (if b = IAC then GotIAC else PData)"
| "parse_next b GotIAC = (if b = IAC then PData else if b = SB then InSubnegotiation
     else if b = DO \<or> b = DONT \<or> b = WILL \<or> b = WONT then GotCommand else PData)"
| "parse_next b GotCommand = PData"
| "parse_next b InSubnegotiation = (if b = IAC then SubnegotiationGotIAC else InSubnegotiation)"
| "parse_next b SubnegotiationGotIAC = (if b = SE then PData else if b = IAC then InSubnegotiation else PData)"

fun parse_out :: "byte \<Rightarrow> parser_state \<Rightarrow> bytes" where
  "parse_out b PData = (if b = IAC then [] else [b])"
| "parse_out b GotIAC = (if b = IAC then [0xFF] else [])"
| "parse_out b st = []"

lemma pstate_handleDo [simp]: "pstate (fst (handleDo opt n)) = pstate n"
  by (simp add: handleDo_def Let_def)

lemma one_byte_parse:
  "pstate (fst (processOneByte b n)) = parse_next b (pstate n) \<and> fst (snd (processOneByte b n)) = parse_out b (pstate n)"
  by (cases "pstate n") (simp_all add: Telnet_Negotiation.handler_defs case_prod_beta Let_def split: list.split)

definition clean_of :: "bytes \<Rightarrow> negotiator \<Rightarrow> bytes" where
  "clean_of bs n = fst (snd (processInbound bs n))"

lemma inbound_Cons:
  "fst (processInbound (b # bs) n) = fst (processInbound bs (fst (processOneByte b n)))"
  "clean_of (b # bs) n = fst (snd (processOneByte b n)) @ clean_of bs (fst (processOneByte b n))"
  by (simp_all add: clean_of_def run_simps case_prod_beta Let_def)

lemma inbound_parse: "pstate m = pstate n \<Longrightarrow>
    pstate (fst (processInbound bs m)) = pstate (fst (processInbound bs n)) \<and> clean_of bs m = clean_of bs n"
proof (induction bs arbitrary: m n)
  case (Cons b bs)
  from Cons.IH [of "fst (processOneByte b m)" "fst (processOneByte b n)"] Cons.prems show ?case by (simp add: inbound_Cons one_byte_parse)
qed (simp add: run_simps clean_of_def)

lemma inbound_append: "fst (processInbound (xs @ ys) n) = fst (processInbound ys (fst (processInbound xs n)))"
  "clean_of (xs @ ys) n = clean_of xs n @ clean_of ys (fst (processInbound xs n))"
  by (induction xs arbitrary: n) (simp_all add: inbound_Cons, simp_all add: run_simps clean_of_def)

subsection \<open>The stream of a shell\<close>

lemma own_push: "pushed i' k' (snd (pushData i k b bs sh)) = (if i' = i \<and> k' = k then bs else [])"
  by (simp add: pushData_def)

lemma own_push_any: "(i', k') \<noteq> (i, k) \<Longrightarrow> pushed i' k' (snd (push_if_any i k b c sh)) = []"
  by (auto simp: push_if_any_def own_push split: option.split list.split)

lemma own_data: "own_output i (if_attached (handleSocketData i bs b))"
  by (auto simp: own_output_def if_attached_def handleSocketData_def Let_def case_prod_beta own_push own_push_any split: option.split)

lemma own_at: "own_output i f \<Longrightarrow> own_output i (at_shell k f)"
  by (auto simp: own_output_def at_shell_def)

lemma own_timer: "own_output i (auth_timer i armed fires b)"
  by (auto simp: own_output_def auth_timer_def case_prod_beta own_push_any split: option.split)

lemma own_read: "own_output i (shell_read i)" "own_output i (\<lambda>k sh. (f sh, []))" "own_output i (socket_closed i)"
  by (auto simp: own_output_def shell_read_def socket_closed_def Let_def)

lemmas own_simps = own_data own_at own_timer own_read

lemma data_stream: "tlAttached sh \<Longrightarrow> tlAuth sh = None \<Longrightarrow>
    pushed i k (snd (if_attached (handleSocketData i bs b) k sh)) = clean_of bs (tlNegotiator sh)
    \<and> tlNegotiator (fst (if_attached (handleSocketData i bs b) k sh)) = fst (processInbound bs (tlNegotiator sh))
    \<and> tlAttached (fst (if_attached (handleSocketData i bs b) k sh)) \<and> tlAuth (fst (if_attached (handleSocketData i bs b) k sh)) = None"
  by (auto simp: if_attached_def handleSocketData_def Let_def case_prod_beta clean_of_def pushData_def)

definition same_parse :: "negotiator \<Rightarrow> negotiator \<Rightarrow> bool" where
  "same_parse n m \<longleftrightarrow> pstate m = pstate n"

lemma same_parse_refl [simp]: "same_parse n n"
  by (simp add: same_parse_def)

lemma same_parse_clean: "same_parse n m \<Longrightarrow> clean_of bs m = clean_of bs n"
  unfolding same_parse_def using inbound_parse [of m n bs] by blast

text \<open>The events that end a shell or replace its connection.\<close>

fun ends_shell :: "string \<Rightarrow> nat \<Rightarrow> telnet_event \<Rightarrow> bool" where
  "ends_shell i k (TeConnect i' t) = (i' = i)"
| "ends_shell i k (TeShellClosed i' k') = (i' = i \<and> k' = k)"
| "ends_shell i k (TeClosed i') = (i' = i)"
| "ends_shell i k (TeError i' m) = (i' = i)"
| "ends_shell i k e = False"

definition plain_shell :: "telnet_service \<Rightarrow> string \<Rightarrow> nat \<Rightarrow> negotiator \<Rightarrow> bool" where
  "plain_shell s i k n \<longleftrightarrow> (\<exists>sh. shell_of s i k = Some sh \<and> tlAttached sh \<and> tlAuth sh = None \<and> tlNegotiator sh = n)"

lemma shell_of_set_conn: "shell_of (set_conn j c s) i k =
    (if i = j then (if k < length (tlShells c) then Some (tlShells c ! k) else None) else shell_of s i k)"
  by (simp add: shell_of_def set_conn_def map_get_set)

lemma shell_of_other_fields [simp]: "shell_of (s\<lparr>tlPool := p\<rparr>) i k = shell_of s i k" "shell_of (s\<lparr>tlMeta := m\<rparr>) i k = shell_of s i k"
  by (simp_all add: shell_of_def)

lemma last_shell_nth: "k < length shs \<Longrightarrow> (butlast shs @ [f (last shs)]) ! k = (if Suc k = length shs then f (shs ! k) else shs ! k)"
  by (cases shs rule: rev_cases) (auto simp: nth_append less_Suc_eq)

lemma shell_ofD: "shell_of s i k = Some sh \<Longrightarrow> \<exists>c. map_get (tlConns s) i = Some c \<and> k < length (tlShells c) \<and> tlShells c ! k = sh"
  by (auto simp: shell_of_def split: option.splits if_splits)

lemma plain_same: "plain_shell s i k n \<Longrightarrow> shell_of s' i k = shell_of s i k \<Longrightarrow> plain_shell s' i k n"
  by (simp add: plain_shell_def)

lemma settle_connect_frame: "settle_connect i r c = (c', out) \<Longrightarrow> tlShells c' = tlShells c \<and> pushed j k out = []"
  by (auto simp: settle_connect_def split: if_splits)

lemma connect_events_frame:
  "shell_of (fst (connectTimeout j s)) i k = shell_of s i k \<and> pushed i k (snd (connectTimeout j s)) = []"
  "shell_of (fst (socketConnected j s)) i k = shell_of s i k \<and> pushed i k (snd (socketConnected j s)) = []"
  "i \<noteq> j \<Longrightarrow> shell_of (fst (telnet_connect lookup allowed j t s)) i k = shell_of s i k"
  "pushed i k (snd (telnet_connect lookup allowed j t s)) = []"
  by (auto simp: connectTimeout_def socketConnected_def telnet_connect_def shell_of_set_conn case_prod_beta Let_def
      shell_of_def [of s] settle_connect_def split: option.split sum.split)

lemma telnet_shell_frame:
  "shell_of s i k = Some sh \<Longrightarrow> shell_of (fst (telnet_shell j t r c s)) i k = Some sh"
  "pushed i k (snd (telnet_shell j t r c s)) = []"
  by (auto simp: telnet_shell_def shell_of_set_conn case_prod_beta Let_def nth_append dest!: shell_ofD split: option.split)

lemma resize_frame:
  "plain_shell s i k n \<Longrightarrow> (\<exists>n'. plain_shell (fst (telnet_resize j r c s)) i k n' \<and> same_parse n n')"
  "pushed i k (snd (telnet_resize j r c s)) = []"
proof -
  assume p: "plain_shell s i k n"
  then obtain sh where sh: "shell_of s i k = Some sh" "tlAttached sh" "tlAuth sh = None" "tlNegotiator sh = n"
    by (auto simp: plain_shell_def)
  from shell_ofD [OF sh(1)] obtain conn where conn: "map_get (tlConns s) i = Some conn" "k < length (tlShells conn)" "tlShells conn ! k = sh"
    by blast
  show "\<exists>n'. plain_shell (fst (telnet_resize j r c s)) i k n' \<and> same_parse n n'"
  proof (cases "shell_of (fst (telnet_resize j r c s)) i k = Some sh")
    case True
    with sh show ?thesis by (auto simp: plain_shell_def)
  next
    case False
    then have "shell_of (fst (telnet_resize j r c s)) i k = Some (set_window c r sh)"
      using sh conn by (auto simp: telnet_resize_def shell_of_set_conn last_shell_nth split: option.splits if_splits)
    with sh show ?thesis by (auto simp: plain_shell_def set_window_def same_parse_def setWindowSize_def)
  qed
next
  show "pushed i k (snd (telnet_resize j r c s)) = []"
    by (auto simp: telnet_resize_def split: option.split)
qed

lemma disconnect_frame:
  assumes "shell_of s i k = Some sh" "tlAuth sh = None"
  shows "shell_of (fst (telnet_disconnect j s)) i k = Some sh"
proof -
  have same: "sh\<lparr>tlAuth := None\<rparr> = sh" using assms(2) by (cases sh) simp
  from shell_ofD [OF assms(1)] obtain c where "map_get (tlConns s) i = Some c" "k < length (tlShells c)" "tlShells c ! k = sh" by blast
  with assms same show ?thesis
    by (auto simp: telnet_disconnect_def shell_of_set_conn destroy_last_auth_def
        last_shell_nth [where f = "\<lambda>sh. sh\<lparr>tlAuth := map_option auth_destroy (tlAuth sh)\<rparr>"] split: option.split)
qed

lemma pushed_disconnect: "pushed i k (snd (telnet_disconnect j s)) = []"
  by (auto simp: telnet_disconnect_def split: option.split)

lemma in_shells_plain:
  assumes "plain_shell s i k n" and "\<And>sh. tlAttached sh \<Longrightarrow> tlAuth sh = None \<Longrightarrow> tlNegotiator sh = n \<Longrightarrow>
      tlAttached (fst (f k sh)) \<and> tlAuth (fst (f k sh)) = None \<and> tlNegotiator (fst (f k sh)) = n"
  shows "plain_shell (fst (in_shells j f s)) i k n"
  using assms by (auto simp: plain_shell_def in_shells_shell)

lemma plain_step:
  assumes "plain_shell s i k n" "\<not> ends_shell i k e" "telnet_step lookup allowed e s = (s', out)"
  shows "(\<exists>n'. plain_shell s' i k n' \<and> same_parse (fst (processInbound (arrived i [e]) n)) n')
    \<and> pushed i k out = clean_of (arrived i [e]) n"
proof -
  have eq: "s' = fst (telnet_step lookup allowed e s)" "out = snd (telnet_step lookup allowed e s)" using assms(3) by simp_all
  obtain sh where sh: "shell_of s i k = Some sh" "tlAttached sh" "tlAuth sh = None" "tlNegotiator sh = n"
    using assms(1) by (auto simp: plain_shell_def)
  have none: "plain_shell s' i k n \<and> pushed i k out = [] \<Longrightarrow> arrived i [e] = [] \<Longrightarrow> ?thesis"
    by (auto simp: clean_of_def run_simps)
  show ?thesis
  proof (cases e)
    case (TeData j bs b)
    show ?thesis
    proof (cases "j = i")
      case True
      have "plain_shell s' i k (fst (processInbound bs n)) \<and> pushed i k out = clean_of bs n"
        using sh data_stream [of sh i k bs b] True
        by (auto simp: eq TeData plain_shell_def in_shells_shell in_shells_pushed own_data)
      then show ?thesis using TeData True by auto
    next
      case False
      with sh show ?thesis
        by (intro none) (auto simp: eq TeData plain_shell_def in_shells_shell in_shells_pushed own_data)
    qed
  next
    case (TeResize j r c)
    from resize_frame(1) [OF assms(1), of j r c] resize_frame(2) [of i k j r c s] show ?thesis
      by (auto simp: eq TeResize clean_of_def run_simps)
  next
    case (TeDisconnect j)
    with sh disconnect_frame [OF sh(1,3), of j] show ?thesis
      by (intro none) (auto simp: eq plain_shell_def pushed_disconnect)
  next
    case (TeShell j t r c)
    with sh telnet_shell_frame(1) [OF sh(1), of j t r c] show ?thesis
      by (intro none) (auto simp: eq plain_shell_def telnet_shell_frame(2))
  next
    case (TeError j m)
    then have j: "i \<noteq> j" using assms(2) by simp
    show ?thesis
      using sh j by (intro none) (auto simp: eq TeError plain_shell_def socketError_def case_prod_beta Let_def in_shells_shell
          in_shells_pushed own_simps shell_of_set_conn settle_connect_def split: option.split)
  next
    case (TeConnect j t)
    with assms(2) sh connect_events_frame(3) [of i j lookup allowed t s k] show ?thesis
      by (intro none) (auto simp: eq plain_shell_def connect_events_frame(4))
  next
    case (TeRead j k')
    show ?thesis
      by (rule none) (auto simp: eq TeRead at_shell_def shell_read_def in_shells_pushed own_simps
          intro!: in_shells_plain [OF assms(1)] split: option.split)
  next
    case (TeAuthTimeout j k' b)
    have "plain_shell s' i k n"
      unfolding eq TeAuthTimeout telnet_step.simps by (rule in_shells_plain [OF assms(1)]) (simp add: at_shell_def auth_timer_def)
    with sh show ?thesis
      by (intro none) (auto simp: eq TeAuthTimeout at_shell_def auth_timer_def in_shells_pushed own_simps)
  next
    case (TeAuthSettle j k' b)
    have "plain_shell s' i k n"
      unfolding eq TeAuthSettle telnet_step.simps by (rule in_shells_plain [OF assms(1)]) (simp add: at_shell_def auth_timer_def)
    with sh show ?thesis
      by (intro none) (auto simp: eq TeAuthSettle at_shell_def auth_timer_def in_shells_pushed own_simps)
  next
    case (TeShellClosed j k')
    with assms(2) sh show ?thesis
      by (intro none) (auto simp: eq plain_shell_def at_shell_def in_shells_shell in_shells_pushed own_simps)
  next
    case (TeClosed j)
    with assms(2) sh show ?thesis
      by (intro none) (auto simp: eq plain_shell_def in_shells_shell in_shells_pushed own_simps)
  next
    case (TeTimeout j)
    with sh show ?thesis by (intro none) (auto simp: eq plain_shell_def connect_events_frame)
  next
    case (TeConnected j)
    with sh show ?thesis by (intro none) (auto simp: eq plain_shell_def connect_events_frame)
  next
    case (TeWrite j k' bs)
    with assms(1) show ?thesis by (intro none) (auto simp: eq)
  qed
qed

lemma arrived_Cons: "arrived i (e # es) = arrived i [e] @ arrived i es"
  by simp

lemma plain_run:
  "plain_shell s i k n \<Longrightarrow> \<forall>e\<in>set es. \<not> ends_shell i k e \<Longrightarrow>
     pushed i k (snd (telnet_run lookup allowed es s)) = clean_of (arrived i es) n"
proof (induction es arbitrary: s n)
  case Nil
  then show ?case by (simp add: clean_of_def run_simps)
next
  case (Cons e es)
  obtain s1 out1 where st: "telnet_step lookup allowed e s = (s1, out1)" by fastforce
  from plain_step [OF Cons.prems(1) _ st] Cons.prems(2)
  obtain n' where n': "plain_shell s1 i k n'" "same_parse (fst (processInbound (arrived i [e]) n)) n'"
    and out1: "pushed i k out1 = clean_of (arrived i [e]) n" by auto
  have "pushed i k (snd (telnet_run lookup allowed es s1)) = clean_of (arrived i es) n'"
    using Cons.IH [OF n'(1)] Cons.prems(2) by simp
  also have "\<dots> = clean_of (arrived i es) (fst (processInbound (arrived i [e]) n))"
    using same_parse_clean n'(2) by blast
  finally show ?case
    using st out1 by (simp add: case_prod_beta Let_def arrived_Cons [of i e es] inbound_append del: arrived.simps(2))
qed

section \<open>Property\<close>

text \<open>C24: A shell without login automation shows its client exactly the bytes of the server with the telnet
  commands taken out, as if they had arrived in one piece: neither the boundaries of the packets, nor window sizes,
  reads, writes, refused pushes, other shells of the connection and other connections make a difference, until the
  stream or the socket is closed.\<close>

theorem telnet_stream_independent:
  assumes "telnet_pool_get (tlPool s) i \<noteq> None" and "map_get (tlConns s) i = Some c" and "buildAuthenticator i s = None"
    and "\<forall>e\<in>set es. \<not> ends_shell i (length (tlShells c)) e"
  shows "pushed i (length (tlShells c)) (snd (telnet_run lookup allowed (TeShell i term rows columns # es) s))
    = fst (snd (processInbound (arrived i es) (new_negotiator (case term of None \<Rightarrow> ''xterm-256color'' | Some t \<Rightarrow> t))))"
proof -
  let ?k = "length (tlShells c)" and ?n0 = "new_negotiator (case term of None \<Rightarrow> ''xterm-256color'' | Some t \<Rightarrow> t)"
  let ?s1 = "fst (telnet_shell i term rows columns s)"
  let ?w = "setWindowSize (case columns of None \<Rightarrow> 80 | Some c \<Rightarrow> c) (case rows of None \<Rightarrow> 24 | Some r \<Rightarrow> r) ?n0"
  have ini: "plain_shell ?s1 i ?k (fst (buildProactiveOffers ?w))"
    using assms(1-3) by (auto simp: plain_shell_def telnet_shell_def shell_of_set_conn open_shell_def case_prod_beta Let_def)
  have "pushed i ?k (snd (telnet_run lookup allowed es ?s1)) = clean_of (arrived i es) (fst (buildProactiveOffers ?w))"
    by (rule plain_run [OF ini assms(4)])
  also have "\<dots> = clean_of (arrived i es) ?n0"
    using inbound_parse [of "fst (buildProactiveOffers ?w)" ?n0]
    by (simp add: buildProactiveOffers_def setWindowSize_def Let_def)
  finally show ?thesis
    by (simp add: case_prod_beta Let_def telnet_shell_frame(2) clean_of_def)
qed

definition demo_telnet :: "telnet_service" where
  "demo_telnet = fst (telnet_run (\<lambda>_. Inl ''ENOTFOUND'') None
     [TeConnect ''t1'' \<lparr>tlSession = ''s1'', tlHost = ''h'', tlPort = 23, tlAuthOptions = \<lparr>aoUsername = None, aoPassword = None,
         loginPrompt = None, passwordPrompt = None, failurePattern = None\<rparr>\<rparr>, TeConnected ''t1''] new_telnet_service)"

definition demo_packets :: "telnet_event list" where
  "demo_packets = [TeData ''t1'' [104, 255] False, TeResize ''t1'' 30 90, TeRead ''t1'' 0, TeData ''t1'' [253, 1, 105] True]"

theorem telnet_stream_independent_witness:
  "pushed ''t1'' 0 (snd (telnet_run (\<lambda>_. Inl ''ENOTFOUND'') None (TeShell ''t1'' None None None # demo_packets) demo_telnet)) = [104, 105]"
proof -
  have c: "map_get (tlConns demo_telnet) ''t1'' = Some \<lparr>tlTarget = \<lparr>tlSession = ''s1'', tlHost = ''h'', tlPort = 23,
      tlAuthOptions = \<lparr>aoUsername = None, aoPassword = None, loginPrompt = None, passwordPrompt = None, failurePattern = None\<rparr>\<rparr>,
      tlSettled = True, tlShells = []\<rparr>"
    and p: "telnet_pool_get (tlPool demo_telnet) ''t1'' \<noteq> None" and a: "buildAuthenticator ''t1'' demo_telnet = None"
    by (simp_all add: demo_telnet_def telnet_connect_def validateSubnets_def socketConnected_def settle_connect_def set_conn_def
        new_telnet_service_def telnet_pool_get_def telnet_pool_add_def buildAuthenticator_def empty_pool_def Let_def)
  have "fst (snd (processInbound (arrived ''t1'' demo_packets) (new_negotiator ''xterm-256color''))) = [104, 105]"
    by (simp add: demo_packets_def run_simps Telnet_Negotiation.handler_defs new_negotiator_def telnet_codes handleDo_def SUPPORTED_OPTIONS_def
        getOptionState_def setOptionState_def Let_def)
  with telnet_stream_independent [OF p c a, of demo_packets "\<lambda>_. Inl ''ENOTFOUND''" None None None None]
  show ?thesis by (simp add: demo_packets_def)
qed

section \<open>Corners\<close>

text \<open>A second shell of a connection does not replace the first: the data reaches both streams.\<close>

lemma second_shell_doubles:
  "let out = snd (telnet_run (\<lambda>_. Inl ''ENOTFOUND'') None
       [TeShell ''t1'' None None None, TeShell ''t1'' None None None, TeData ''t1'' [104] True] demo_telnet)
   in pushed ''t1'' 0 out = [104] \<and> pushed ''t1'' 1 out = [104]"
  by (simp add: demo_telnet_def telnet_connect_def validateSubnets_def socketConnected_def settle_connect_def set_conn_def
      new_telnet_service_def telnet_pool_get_def telnet_pool_add_def buildAuthenticator_def empty_pool_def Let_def telnet_shell_def
      open_shell_def buildProactiveOffers_def in_shells_def if_attached_def handleSocketData_def pushData_def
      run_simps Telnet_Negotiation.handler_defs new_negotiator_def setWindowSize_def telnet_codes getOptionState_def setOptionState_def case_prod_beta)

text \<open>A connection whose socket was closed or failed stays in the pool: only \<open>disconnect\<close> takes it out.\<close>

lemma closed_stays_pooled: "tlPool (fst (telnet_step lookup allowed (TeClosed i) s)) = tlPool s"
  "tlPool (fst (telnet_step lookup allowed (TeError i m) s)) = tlPool s"
  by (auto simp: in_shells_def socketError_def set_conn_def case_prod_beta Let_def split: option.split)

end
