(* ===== verification/Token_Buckets.thy ===== *)
theory Token_Buckets
  imports JS_Strings
begin

text \<open>
  The two token buckets of the server: the limiter of unauthenticated requests, \<open>security/rate-limiter.ts\<close>,
  and the sampling and limits of log events, \<open>services/logging/controls.ts\<close> with \<open>logging/levels.ts\<close>.
  Times are milliseconds.  Numbers of the limiter are rationals (the code computes them as doubles); those of
  a log rule are whole, with a positive interval, as the schema of the configuration demands.
  What a bucket promises is the contract \<open>token_bucket\<close>, which both fulfil.
\<close>

section \<open>The contract of a bucket\<close>

text \<open>Requests at the times \<open>ts\<close>, starting without a bucket or with \<open>b\<close>; the answers in order.\<close>

fun bucket_run :: "(int \<Rightarrow> 'b option \<Rightarrow> 'b \<times> bool) \<Rightarrow> int list \<Rightarrow> 'b option \<Rightarrow> bool list" where
  "bucket_run f [] b = []"
| "bucket_run f (t # ts) b = (let (b', granted) = f t b in granted # bucket_run f ts (Some b'))"

definition grants :: "bool list \<Rightarrow> nat" where
  "grants gs = length (filter (\<lambda>g. g) gs)"

lemma grants_simps [simp]: "grants [] = 0" "grants (g # gs) = (if g then Suc (grants gs) else grants gs)"
  by (simp_all add: grants_def)

locale token_bucket =
  fixes take_token :: "int \<Rightarrow> 'b option \<Rightarrow> 'b \<times> bool"
    and level :: "'b \<Rightarrow> rat" and stamp :: "'b \<Rightarrow> int" and capacity :: rat and rate :: rat
  assumes rate_nonneg: "0 \<le> rate"
    and level_nonneg: "0 \<le> level b"
    and fresh_bucket: "take_token now None = (b, granted) \<Longrightarrow> level b + of_bool granted \<le> capacity \<and> stamp b = now"
    and kept_bucket: "take_token now (Some b) = (b', granted) \<Longrightarrow> stamp b \<le> now \<Longrightarrow>
      level b' + of_bool granted \<le> level b + rate * of_int (stamp b' - stamp b) \<and> stamp b' \<le> now"
begin

lemma granted_from:
  "sorted ts \<Longrightarrow> \<forall>t\<in>set ts. stamp b \<le> t \<and> t \<le> last_time \<Longrightarrow> stamp b \<le> last_time \<Longrightarrow>
     of_nat (grants (bucket_run take_token ts (Some b))) \<le> level b + rate * of_int (last_time - stamp b)"
proof (induction ts arbitrary: b)
  case Nil
  then show ?case using rate_nonneg level_nonneg [of b] by simp
next
  case (Cons t ts)
  obtain b' g where step: "take_token t (Some b) = (b', g)" by fastforce
  have k: "level b' + of_bool g \<le> level b + rate * of_int (stamp b' - stamp b)" "stamp b' \<le> t"
    using kept_bucket [OF step] Cons.prems(2) by auto
  have "of_nat (grants (bucket_run take_token ts (Some b'))) \<le> level b' + rate * of_int (last_time - stamp b')"
    using Cons.prems k(2) by (intro Cons.IH) fastforce+
  moreover have "rate * of_int (last_time - stamp b') + rate * of_int (stamp b' - stamp b) = rate * of_int (last_time - stamp b)"
    by (simp add: algebra_simps)
  ultimately show ?case using step k(1) by (cases g) auto
qed

lemma granted_bounded:
  assumes "sorted (t # ts)"
  shows "of_nat (grants (bucket_run take_token (t # ts) None)) \<le> capacity + rate * of_int (last (t # ts) - t)"
proof -
  obtain b g where step: "take_token t None = (b, g)" by fastforce
  from fresh_bucket [OF step] have b: "level b + of_bool g \<le> capacity" "stamp b = t" by auto
  have le: "\<forall>x\<in>set ts. t \<le> x \<and> x \<le> last (t # ts)"
    using assms by (cases ts rule: rev_cases) (auto simp: sorted_append)
  then have "t \<le> last (t # ts)"
    by (cases ts) auto
  with le b assms have "of_nat (grants (bucket_run take_token ts (Some b))) \<le> level b + rate * of_int (last (t # ts) - t)"
    using granted_from [of ts b "last (t # ts)"] by auto
  with b(1) step show ?thesis by (cases g) auto
qed

end

section \<open>The limiter of requests\<close>

record limiter_options =
  loCapacity :: rat
  loRefillPerSec :: rat
  loMaxKeys :: nat

record bucket =
  bkTokens :: rat
  bkLast :: int

type_synonym limiter = "(string, bucket) jsmap"

definition refreshed :: "limiter_options \<Rightarrow> int \<Rightarrow> bucket option \<Rightarrow> bucket" where
  "refreshed opts now existing =
     (case existing of
        None \<Rightarrow> \<lparr>bkTokens = loCapacity opts, bkLast = now\<rparr>
      | Some b \<Rightarrow> \<lparr>bkTokens = min (loCapacity opts) (bkTokens b + of_int (now - bkLast b) / 1000 * loRefillPerSec opts), bkLast = now\<rparr>)"

definition touch :: "string \<Rightarrow> bucket \<Rightarrow> limiter \<Rightarrow> limiter" where
  "touch key b m = map_set key b (map_delete key m)"

text \<open>The oldest keys are the first ones.\<close>

definition evictIfNeeded :: "limiter_options \<Rightarrow> limiter \<Rightarrow> limiter" where
  "evictIfNeeded opts m = drop (length m - loMaxKeys opts) m"

text \<open>The token is taken from the bucket itself, which may have been evicted already.\<close>

definition allow_request :: "limiter_options \<Rightarrow> string \<Rightarrow> int \<Rightarrow> limiter \<Rightarrow> limiter \<times> bool" where
  "allow_request opts key now m =
     (let b = refreshed opts now (map_get m key);
          m1 = evictIfNeeded opts (touch key b m)
      in if bkTokens b \<ge> 1
         then (if map_get m1 key = None then m1 else map_set key (b\<lparr>bkTokens := bkTokens b - 1\<rparr>) m1, True)
         else (m1, False))"

definition limiter_size :: "limiter \<Rightarrow> nat" where
  "limiter_size m = length m"

fun limiter_run :: "limiter_options \<Rightarrow> (string \<times> int) list \<Rightarrow> limiter \<Rightarrow> (string \<times> bool) list" where
  "limiter_run opts [] m = []"
| "limiter_run opts ((k, t) # rs) m = (let (m', granted) = allow_request opts k t m in (k, granted) # limiter_run opts rs m')"

text \<open>One key alone.\<close>

definition take_one :: "limiter_options \<Rightarrow> int \<Rightarrow> bucket option \<Rightarrow> bucket \<times> bool" where
  "take_one opts now existing =
     (let b = refreshed opts now existing
      in if bkTokens b \<ge> 1 then (b\<lparr>bkTokens := bkTokens b - 1\<rparr>, True) else (b, False))"

lemma nonneg_step: "(0::rat) \<le> d \<Longrightarrow> x + d / 1000 * r \<le> max 0 x + max 0 r / 1000 * d"
proof -
  assume "0 \<le> d"
  then have "d * r \<le> d * max 0 r" by (intro mult_left_mono) auto
  then have "d / 1000 * r \<le> max 0 r / 1000 * d" by (simp add: divide_right_mono mult.commute)
  then show ?thesis by linarith
qed

interpretation limiter: token_bucket "take_one opts" "\<lambda>b. max 0 (bkTokens b)" bkLast "max 0 (loCapacity opts)" "max 0 (loRefillPerSec opts) / 1000"
  for opts
proof
  show "0 \<le> max 0 (loRefillPerSec opts) / 1000" by simp
  show "0 \<le> max 0 (bkTokens b)" for b :: bucket by simp
  fix now b granted
  assume "take_one opts now None = (b, granted)"
  then show "max 0 (bkTokens b) + of_bool granted \<le> max 0 (loCapacity opts) \<and> bkLast b = now"
    by (auto simp: take_one_def refreshed_def Let_def split: if_splits)
next
  fix now b b' granted
  assume s: "take_one opts now (Some b) = (b', granted)" and "bkLast b \<le> now"
  then have "bkTokens b + rat_of_int (now - bkLast b) / 1000 * loRefillPerSec opts
      \<le> max 0 (bkTokens b) + max 0 (loRefillPerSec opts) / 1000 * rat_of_int (now - bkLast b)"
    by (intro nonneg_step) simp
  moreover have "0 \<le> max 0 (loRefillPerSec opts) / 1000 * rat_of_int (now - bkLast b)"
    using \<open>bkLast b \<le> now\<close> by simp
  ultimately show "max 0 (bkTokens b') + of_bool granted
      \<le> max 0 (bkTokens b) + max 0 (loRefillPerSec opts) / 1000 * of_int (bkLast b' - bkLast b) \<and> bkLast b' \<le> now"
    using s by (auto simp: take_one_def refreshed_def Let_def split: if_splits)
qed

definition answers_for :: "string \<Rightarrow> (string \<times> bool) list \<Rightarrow> bool list" where
  "answers_for k as = map snd (filter (\<lambda>a. fst a = k) as)"

definition times_of :: "string \<Rightarrow> (string \<times> int) list \<Rightarrow> int list" where
  "times_of k rs = map snd (filter (\<lambda>r. fst r = k) rs)"

lemma map_keys_set: "set (map_keys (map_set k v m)) = insert k (set (map_keys m))"
  by (induction m) auto

lemma map_keys_delete: "set (map_keys (map_delete k m)) = set (map_keys m) - {k}"
  by (auto simp: map_delete_filter)

lemma keys_touch: "set (map_keys (touch k b m)) = insert k (set (map_keys m))" "wf_map m \<Longrightarrow> wf_map (touch k b m)"
  unfolding touch_def by (auto simp: map_keys_set map_keys_delete simp del: set_map)

lemma touch_get: "map_get (touch k b m) k' = (if k' = k then Some b else map_get m k')"
  by (simp add: touch_def map_get_set map_get_delete)

lemma no_eviction:
  assumes "wf_map m" "set (map_keys m) \<subseteq> K" "finite K" "card K \<le> n"
  shows "length m \<le> n"
proof -
  have "length m = card (set (map_keys m))"
    using assms(1) distinct_card [of "map_keys m"] by (simp add: wf_map_def)
  also have "\<dots> \<le> card K" by (rule card_mono [OF assms(3,2)])
  finally show ?thesis using assms(4) by simp
qed

lemma allow_without_eviction:
  assumes "wf_map m" "set (map_keys m) \<subseteq> K" "finite K" "card K \<le> loMaxKeys opts" "k \<in> K"
    and "allow_request opts k t m = (m', granted)"
  shows "map_get m' k' = (if k' = k then Some (fst (take_one opts t (map_get m k))) else map_get m k')"
    and "granted = snd (take_one opts t (map_get m k))"
    and "wf_map m'" "set (map_keys m') \<subseteq> K"
proof -
  define b where "b = refreshed opts t (map_get m k)"
  define m1 where "m1 = touch k b m"
  have m1: "set (map_keys m1) \<subseteq> K" "wf_map m1" "map_get m1 k = Some b"
    using assms(1,2,5) keys_touch unfolding m1_def by (auto simp: touch_get simp del: set_map)
  have ev: "evictIfNeeded opts m1 = m1"
    using no_eviction [OF m1(2,1) assms(3,4)] by (simp add: evictIfNeeded_def)
  have eq: "(if bkTokens b \<ge> 1 then (map_set k (b\<lparr>bkTokens := bkTokens b - 1\<rparr>) m1, True) else (m1, False)) = (m', granted)"
    using assms(6) m1(3) ev unfolding allow_request_def m1_def b_def Let_def by (simp cong: if_cong)
  have get1: "map_get m1 k' = (if k' = k then Some b else map_get m k')" for k'
    by (simp add: m1_def touch_get)
  have one: "take_one opts t (map_get m k) = (if bkTokens b \<ge> 1 then (b\<lparr>bkTokens := bkTokens b - 1\<rparr>, True) else (b, False))"
    by (simp add: take_one_def b_def Let_def)
  show "map_get m' k' = (if k' = k then Some (fst (take_one opts t (map_get m k))) else map_get m k')"
    and "granted = snd (take_one opts t (map_get m k))"
    using eq get1 by (auto simp: one map_get_set split: if_splits)
  show "wf_map m'" "set (map_keys m') \<subseteq> K"
    using eq m1 assms(5) by (auto simp: map_keys_set simp del: set_map split: if_splits)
qed

lemma limiter_run_alone:
  assumes "wf_map m" "set (map_keys m) \<subseteq> K" "finite K" "card K \<le> loMaxKeys opts" "fst ` set rs \<subseteq> K"
  shows "answers_for k (limiter_run opts rs m) = bucket_run (take_one opts) (times_of k rs) (map_get m k)"
  using assms
proof (induction rs arbitrary: m)
  case Nil
  then show ?case by (simp add: answers_for_def times_of_def)
next
  case (Cons r rs)
  obtain k0 t where r: "r = (k0, t)" by (cases r)
  obtain m' g where step: "allow_request opts k0 t m = (m', g)" by fastforce
  from Cons.prems r have "k0 \<in> K" by simp
  note a = allow_without_eviction [OF Cons.prems(1-4) this step]
  have "answers_for k (limiter_run opts rs m') = bucket_run (take_one opts) (times_of k rs) (map_get m' k)"
    using Cons.prems a(3,4) by (intro Cons.IH) auto
  then show ?case
    by (simp add: r step answers_for_def times_of_def a(1,2) case_prod_beta)
qed

lemma sorted_times: "sorted (map snd rs) \<Longrightarrow> sorted (times_of k rs)"
  by (simp add: times_of_def sorted_filter)

text \<open>While the number of keys stays within the limit of the table, the limiter of requests treats every key as
  if it were alone, and no key is granted more than the capacity plus the refill rate times the time between its
  first and its last request.\<close>

theorem requests_limited:
  assumes "card (fst ` set rs) \<le> loMaxKeys opts" and "sorted (map snd rs)" and "times_of k rs = t # ts"
  shows "answers_for k (limiter_run opts rs []) = bucket_run (take_one opts) (t # ts) None
    \<and> of_nat (grants (answers_for k (limiter_run opts rs [])))
        \<le> max 0 (loCapacity opts) + max 0 (loRefillPerSec opts) / 1000 * of_int (last (t # ts) - t)"
proof -
  have alone: "answers_for k (limiter_run opts rs []) = bucket_run (take_one opts) (t # ts) None"
    using limiter_run_alone [of "[]" "fst ` set rs" opts rs k] assms(1,3) by simp
  moreover have "sorted (t # ts)"
    using sorted_times [OF assms(2), of k] assms(3) by simp
  ultimately show ?thesis using limiter.granted_bounded by metis
qed

definition demo_limits :: limiter_options where
  "demo_limits = \<lparr>loCapacity = 2, loRefillPerSec = 1 / 6, loMaxKeys = 2\<rparr>"

definition demo_requests :: "(string \<times> int) list" where
  "demo_requests = [(''a'', 0), (''a'', 1), (''b'', 2), (''a'', 3), (''a'', 6003)]"

theorem requests_limited_witness:
  "of_nat (grants (answers_for ''a'' (limiter_run demo_limits demo_requests []))) \<le> (3001 / 1000 :: rat)
   \<and> answers_for ''a'' (limiter_run demo_limits demo_requests []) = [True, True, False, True]"
proof -
  have t: "times_of ''a'' demo_requests = [0, 1, 3, 6003]"
    by (simp add: times_of_def demo_requests_def)
  have c: "card (fst ` set demo_requests) \<le> loMaxKeys demo_limits" "sorted (map snd demo_requests)"
    by (simp_all add: demo_requests_def demo_limits_def insert_commute card_insert_if)
  have "answers_for ''a'' (limiter_run demo_limits demo_requests []) = bucket_run (take_one demo_limits) [0, 1, 3, 6003] None"
    using requests_limited [OF c t] by simp
  moreover have "bucket_run (take_one demo_limits) [0, 1, 3, 6003] None = [True, True, False, True]"
    by (simp add: take_one_def refreshed_def demo_limits_def min_def Let_def)
  moreover have "of_nat (grants (answers_for ''a'' (limiter_run demo_limits demo_requests [])))
      \<le> max 0 (loCapacity demo_limits) + max 0 (loRefillPerSec demo_limits) / 1000 * of_int (last [0, 1, 3, 6003] - 0)"
    using requests_limited [OF c t] by blast
  ultimately show ?thesis by (simp add: demo_limits_def)
qed

text \<open>With more keys than the table holds, a key that was evicted starts with a full bucket: with one place, two
  clients that alternate are never refused.\<close>

lemma eviction_refills:
  "limiter_run \<lparr>loCapacity = 1, loRefillPerSec = 0, loMaxKeys = 1\<rparr> [(''a'', 0), (''b'', 1), (''a'', 2), (''b'', 3)] []
     = [(''a'', True), (''b'', True), (''a'', True), (''b'', True)]"
  by (simp add: allow_request_def refreshed_def evictIfNeeded_def touch_def Let_def)

section \<open>Log levels\<close>

datatype log_level = Debug | Info | Warn | Error

fun getLevelPriority :: "log_level \<Rightarrow> nat" where
  "getLevelPriority Debug = 10"
| "getLevelPriority Info = 20"
| "getLevelPriority Warn = 30"
| "getLevelPriority Error = 40"

definition shouldLog :: "log_level \<Rightarrow> log_level \<Rightarrow> bool" where
  "shouldLog l minimum \<longleftrightarrow> getLevelPriority l \<ge> getLevelPriority minimum"

definition isLogLevel :: "string \<Rightarrow> log_level option" where
  "isLogLevel v = (if v = ''debug'' then Some Debug else if v = ''info'' then Some Info
     else if v = ''warn'' then Some Warn else if v = ''error'' then Some Error else None)"

definition parseLogLevel :: "string option \<Rightarrow> log_level \<Rightarrow> log_level" where
  "parseLogLevel v fallback =
     (case v of None \<Rightarrow> fallback
      | Some s \<Rightarrow> (case isLogLevel (to_lower s) of None \<Rightarrow> fallback | Some l \<Rightarrow> l))"

section \<open>Sampling and limits of log events\<close>

record sampling_rule =
  srTarget :: string
  srRate :: rat

record sampling_config =
  saRules :: "sampling_rule list option"
  saDefaultRate :: "rat option"

record limit_rule =
  lrTarget :: string
  lrLimit :: nat
  lrIntervalMs :: nat
  lrBurst :: "nat option"

record controls_config =
  ctSampling :: "sampling_config option"
  ctLimits :: "limit_rule list option"

record log_bucket =
  lbTokens :: int
  lbLastRefill :: int

record control_metrics =
  cmPublished :: nat
  cmDroppedBySampling :: nat
  cmDroppedByRateLimit :: nat

record control_state =
  csBuckets :: "(string, log_bucket) jsmap"
  csMetrics :: control_metrics

definition createLoggingControlState :: control_state where
  "createLoggingControlState = \<lparr>csBuckets = [], csMetrics = \<lparr>cmPublished = 0, cmDroppedBySampling = 0, cmDroppedByRateLimit = 0\<rparr>\<rparr>"

text \<open>The first rule for the event, else the first for all events.\<close>

definition select_rule :: "('r \<Rightarrow> string) \<Rightarrow> 'r list \<Rightarrow> string \<Rightarrow> 'r option" where
  "select_rule target rules event =
     (case List.find (\<lambda>r. target r = event) rules of
        Some r \<Rightarrow> Some r
      | None \<Rightarrow> List.find (\<lambda>r. target r = ''*'') rules)"

text \<open>The answer with the rate that was applied; \<open>draw\<close> is the random number.\<close>

definition evaluateSampling :: "string \<Rightarrow> sampling_config option \<Rightarrow> rat \<Rightarrow> bool \<times> rat" where
  "evaluateSampling event config draw =
     (case config of None \<Rightarrow> (True, 1)
      | Some c \<Rightarrow>
          let rule = (case saRules c of None \<Rightarrow> None | Some rs \<Rightarrow> select_rule srTarget rs event);
              rate = (case rule of Some r \<Rightarrow> srRate r | None \<Rightarrow> (case saDefaultRate c of Some d \<Rightarrow> d | None \<Rightarrow> 1))
          in if rate \<ge> 1 then (True, 1) else if rate \<le> 0 then (False, 0) else (draw < rate, rate))"

definition rule_capacity :: "limit_rule \<Rightarrow> nat" where
  "rule_capacity r = lrLimit r + (case lrBurst r of None \<Rightarrow> 0 | Some b \<Rightarrow> b)"

definition refillBucket :: "limit_rule \<Rightarrow> int \<Rightarrow> log_bucket option \<Rightarrow> log_bucket" where
  "refillBucket r now previous =
     (case previous of
        None \<Rightarrow> \<lparr>lbTokens = int (rule_capacity r), lbLastRefill = now\<rparr>
      | Some b \<Rightarrow>
          if now \<le> lbLastRefill b then b
          else let intervals = (now - lbLastRefill b) div int (lrIntervalMs r)
               in if intervals \<le> 0 then b
                  else \<lparr>lbTokens = min (lbTokens b + intervals * int (lrLimit r)) (int (rule_capacity r)),
                        lbLastRefill = lbLastRefill b + intervals * int (lrIntervalMs r)\<rparr>)"

definition take_log_token :: "limit_rule \<Rightarrow> int \<Rightarrow> log_bucket option \<Rightarrow> log_bucket \<times> bool" where
  "take_log_token r now previous =
     (if rule_capacity r \<le> 0 then (\<lparr>lbTokens = 0, lbLastRefill = now\<rparr>, False)
      else let b = refillBucket r now previous
           in if lbTokens b \<le> 0 then (b, False) else (b\<lparr>lbTokens := lbTokens b - 1\<rparr>, True))"

text \<open>The answer, the new buckets, and the rule that was applied with the tokens that are left.\<close>

definition evaluateRateLimit :: "string \<Rightarrow> int \<Rightarrow> limit_rule list option \<Rightarrow> (string, log_bucket) jsmap \<Rightarrow>
    bool \<times> (string, log_bucket) jsmap \<times> (string \<times> int) option" where
  "evaluateRateLimit event now rules buckets =
     (case rules of
        None \<Rightarrow> (True, buckets, None)
      | Some rs \<Rightarrow>
          (case select_rule lrTarget rs event of
             None \<Rightarrow> (True, buckets, None)
           | Some r \<Rightarrow>
               let key = (if lrTarget r = ''*'' then ''*'' else event);
                   (b, granted) = take_log_token r now (map_get buckets key)
               in (granted, map_set key b buckets, Some (lrTarget r, lbTokens b))))"

datatype log_decision =
    Allowed "rat option" "(string \<times> int) option"
  | DroppedBySampling rat
  | DroppedByRateLimit "(string \<times> int) option"

definition evaluateLoggingControls :: "controls_config option \<Rightarrow> string \<Rightarrow> int \<Rightarrow> rat \<Rightarrow> control_state \<Rightarrow>
    control_state \<times> log_decision" where
  "evaluateLoggingControls config event now draw s =
     (let m = csMetrics s; published = s\<lparr>csMetrics := m\<lparr>cmPublished := cmPublished m + 1\<rparr>\<rparr>
      in case config of
           None \<Rightarrow> (published, Allowed None None)
         | Some c \<Rightarrow>
             let (sampled, rate) = evaluateSampling event (ctSampling c) draw
             in if \<not> sampled
                then (s\<lparr>csMetrics := m\<lparr>cmDroppedBySampling := cmDroppedBySampling m + 1\<rparr>\<rparr>, DroppedBySampling rate)
                else let (granted, buckets, applied) = evaluateRateLimit event now (ctLimits c) (csBuckets s)
                     in if \<not> granted
                        then (s\<lparr>csBuckets := buckets, csMetrics := m\<lparr>cmDroppedByRateLimit := cmDroppedByRateLimit m + 1\<rparr>\<rparr>,
                              DroppedByRateLimit applied)
                        else (published\<lparr>csBuckets := buckets\<rparr>, Allowed (if 0 < rate \<and> rate < 1 then Some rate else None) applied))"

text \<open>The buckets of the log events fulfil the same contract.\<close>

lemma refill_step:
  assumes "lbLastRefill b \<le> now"
  shows "rat_of_int (max 0 (lbTokens (refillBucket r now (Some b))))
      \<le> of_int (max 0 (lbTokens b)) + of_nat (lrLimit r) / of_nat (lrIntervalMs r) * of_int (lbLastRefill (refillBucket r now (Some b)) - lbLastRefill b)
    \<and> lbLastRefill (refillBucket r now (Some b)) \<le> now"
proof (cases "now \<le> lbLastRefill b \<or> (now - lbLastRefill b) div int (lrIntervalMs r) \<le> 0")
  case True
  then show ?thesis using assms by (auto simp: refillBucket_def Let_def)
next
  case False
  define n where "n = (now - lbLastRefill b) div int (lrIntervalMs r)"
  have n: "0 < n" "lrIntervalMs r \<noteq> 0" using False by (auto simp: n_def intro: ccontr)
  have eq: "refillBucket r now (Some b) = \<lparr>lbTokens = min (lbTokens b + n * int (lrLimit r)) (int (rule_capacity r)),
      lbLastRefill = lbLastRefill b + n * int (lrIntervalMs r)\<rparr>"
    using False by (simp add: refillBucket_def n_def Let_def)
  have "max 0 (min (lbTokens b + n * int (lrLimit r)) (int (rule_capacity r))) \<le> max 0 (lbTokens b) + n * int (lrLimit r)"
    using n(1) by (simp add: min_def max_def)
  then have "rat_of_int (max 0 (min (lbTokens b + n * int (lrLimit r)) (int (rule_capacity r)))) \<le> rat_of_int (max 0 (lbTokens b) + n * int (lrLimit r))"
    by (simp only: of_int_le_iff)
  moreover have "n * int (lrIntervalMs r) \<le> now - lbLastRefill b"
    using n(2) pos_mod_sign [of "int (lrIntervalMs r)" "now - lbLastRefill b"]
      div_mult_mod_eq [of "now - lbLastRefill b" "int (lrIntervalMs r)"] unfolding n_def by linarith
  ultimately show ?thesis using n(2) by (simp add: eq mult.commute)
qed


interpretation log_limit: token_bucket "take_log_token r" "\<lambda>b. of_int (max 0 (lbTokens b))" lbLastRefill "of_nat (rule_capacity r)"
  "of_nat (lrLimit r) / of_nat (lrIntervalMs r)"
  for r
proof
  show "0 \<le> of_nat (lrLimit r) / (of_nat (lrIntervalMs r) :: rat)" by simp
  show "0 \<le> rat_of_int (max 0 (lbTokens b))" for b by simp
  fix now b granted
  assume "take_log_token r now None = (b, granted)"
  then show "rat_of_int (max 0 (lbTokens b)) + of_bool granted \<le> of_nat (rule_capacity r) \<and> lbLastRefill b = now"
    by (auto simp: take_log_token_def refillBucket_def Let_def split: if_splits)
next
  fix now b b' granted
  assume s: "take_log_token r now (Some b) = (b', granted)" and t: "lbLastRefill b \<le> now"
  have grow: "0 \<le> rat_of_nat (lrLimit r) / rat_of_nat (lrIntervalMs r) * rat_of_int (now - lbLastRefill b)"
    using t by (intro mult_nonneg_nonneg) auto
  show "rat_of_int (max 0 (lbTokens b')) + of_bool granted
      \<le> of_int (max 0 (lbTokens b)) + of_nat (lrLimit r) / of_nat (lrIntervalMs r) * of_int (lbLastRefill b' - lbLastRefill b)
    \<and> lbLastRefill b' \<le> now"
  proof (cases "rule_capacity r \<le> 0 \<or> lbTokens (refillBucket r now (Some b)) \<le> 0")
    case True
    then show ?thesis
      using s refill_step [OF t, of r] grow by (auto simp: take_log_token_def Let_def split: if_splits)
  next
    case False
    define q where "q = refillBucket r now (Some b)"
    have b': "b' = q\<lparr>lbTokens := lbTokens q - 1\<rparr>" "granted" and pos: "0 < lbTokens q"
      using s False by (auto simp: take_log_token_def q_def Let_def split: if_splits)
    have "rat_of_int (max 0 (lbTokens q - 1)) + 1 = rat_of_int (max 0 (lbTokens q))"
      using pos by (simp add: max_def)
    then show ?thesis using refill_step [OF t, of r, folded q_def] b' by simp
  qed
qed

lemma log_events_limited:
  "sorted (t # ts) \<Longrightarrow> of_nat (grants (bucket_run (take_log_token r) (t # ts) None))
     \<le> of_nat (rule_capacity r) + of_nat (lrLimit r) / of_nat (lrIntervalMs r) * (of_int (last (t # ts) - t) :: rat)"
  by (rule log_limit.granted_bounded)

text \<open>The evaluation counts every event once, and touches at most the bucket of its rule.\<close>

definition counted :: "control_state \<Rightarrow> nat" where
  "counted s = cmPublished (csMetrics s) + cmDroppedBySampling (csMetrics s) + cmDroppedByRateLimit (csMetrics s)"

lemma events_counted: "counted (fst (evaluateLoggingControls config event now draw s)) = Suc (counted s)"
  by (auto simp: evaluateLoggingControls_def counted_def Let_def case_prod_beta split: option.split)

lemma other_buckets_kept: "k \<noteq> event \<Longrightarrow> k \<noteq> ''*'' \<Longrightarrow>
    map_get (csBuckets (fst (evaluateLoggingControls config event now draw s))) k = map_get (csBuckets s) k"
  by (auto simp: evaluateLoggingControls_def evaluateRateLimit_def Let_def case_prod_beta split: option.split)

end
