(* ===== verification/Shell_Service.thy ===== *)
theory Shell_Service
  imports Upload_Assembly Download_Stream
begin

text \<open>
  The file service for devices without the SFTP subsystem, \<open>app/services/sftp/shell-file-service.ts\<close>:
  every operation is a shell command over SSH.  As in \<open>File_Service\<close> an operation takes the answers of the
  commands it awaits and runs at the moment the last of them arrives; the start of an upload and the writes of
  its chunks stay pending until their callback or timer runs, and the events of a running download are the
  data, end and error of its stream.  Data of a command's output arrives decoded; the activity time of a
  session and the byte count of an upload stream, written and never read, are left out, as is logging.
  The chunk size is positive, as the schema of the configuration demands.
\<close>

section \<open>Running a command\<close>

datatype exec_event = XOut string | XErrOut string | XClose "int option" | XFail string

text \<open>What happens to a command before its timer runs; nothing more means that the timer runs.\<close>

datatype exec_answer = ExecRefused string | ExecEvents "exec_event list"

definition mapExecError :: "string \<Rightarrow> service_error" where
  "mapExecError errorMessage =
     (let message = to_lower errorMessage
      in if str_includes message ''permission denied'' \<or> str_includes message ''access denied''
         then service_err SFTP_PERMISSION_DENIED ''Permission denied'' None None
         else service_err SFTP_SESSION_ERROR errorMessage None None)"

definition mapCommandError :: "string \<Rightarrow> service_error" where
  "mapCommandError stderr =
     (let lower = to_lower stderr
      in if str_includes lower ''no such file'' \<or> str_includes lower ''not found'' \<or> str_includes lower ''cannot access''
         then service_err SFTP_NOT_FOUND ''File or directory not found'' None None
         else if str_includes lower ''permission denied'' \<or> str_includes lower ''access denied''
         then service_err SFTP_PERMISSION_DENIED ''Permission denied'' None None
         else service_err SFTP_SESSION_ERROR (if trim stderr = [] then ''Command failed'' else trim stderr) None None)"

fun collect_output :: "exec_event list \<Rightarrow> string \<Rightarrow> string \<Rightarrow> (service_error, string \<times> string) result" where
  "collect_output [] stdout stderr = err (service_err SFTP_TIMEOUT ''Command execution timeout'' None None)"
| "collect_output (XOut data # es) stdout stderr = collect_output es (stdout @ data) stderr"
| "collect_output (XErrOut data # es) stdout stderr = collect_output es stdout (stderr @ data)"
| "collect_output (XClose status # es) stdout stderr =
     (if status \<noteq> Some 0 then err (mapCommandError stderr) else ok (stdout, stderr))"
| "collect_output (XFail message # es) stdout stderr = err (mapExecError message)"

definition executeCommand :: "exec_answer \<Rightarrow> (service_error, string \<times> string) result" where
  "executeCommand a =
     (case a of ExecRefused message \<Rightarrow> err (mapExecError message) | ExecEvents es \<Rightarrow> collect_output es [] [])"

section \<open>State\<close>

record shell_session =
  shSessionId :: string
  shHomeDir :: "string option"

record shell_download =
  sdTransferId :: string
  sdPath :: string
  sdCancelled :: bool
  sdChunkIndex :: nat
  sdBuffer :: bytes
  sdLastProgress :: int

text \<open>\<open>svcUploads\<close> gives the stream of an upload; \<open>svcStates\<close> gives the download of a transfer by its
  position in \<open>svcDownloads\<close>, which keeps every download ever streamed, as its callbacks keep their state.\<close>

record shell_service =
  svcConfig :: sftp_config
  svcSessions :: "(string, shell_session) jsmap"
  svcTransfers :: transfer_manager
  svcUploads :: "(string, nat) jsmap"
  svcStates :: "(string, nat) jsmap"
  svcDownloads :: "shell_download list"
  svcOpening :: "(upload_start \<times> string \<times> bool) list"
  svcWriting :: "(upload_chunk \<times> nat \<times> int) list"

definition new_shell_service :: "sftp_config \<Rightarrow> shell_service" where
  "new_shell_service cfg =
     \<lparr>svcConfig = cfg, svcSessions = [],
      svcTransfers = new_transfer_manager (scMaxConcurrent cfg) (Some (scRateLimit cfg)),
      svcUploads = [], svcStates = [], svcDownloads = [], svcOpening = [], svcWriting = []\<rparr>"

datatype shell_call = ShExec string | ShWrite nat bytes | ShEnd nat | ShDestroy nat

text \<open>Answers: whether the connection has an SSH client, the command for the home directory, and the command
  of the operation.\<close>

record shell_answers =
  saClient :: bool
  saHome :: exec_answer
  saCommand :: exec_answer

section \<open>Preparing an operation\<close>

definition shell_ensureSession :: "string \<Rightarrow> string \<Rightarrow> shell_service \<Rightarrow> shell_service" where
  "shell_ensureSession cid sid s =
     (if map_get (svcSessions s) cid = None
      then s\<lparr>svcSessions := map_set cid \<lparr>shSessionId = sid, shHomeDir = None\<rparr> (svcSessions s)\<rparr>
      else s)"

definition shell_resolveTilde :: "string \<Rightarrow> string \<Rightarrow> exec_answer \<Rightarrow> shell_service \<Rightarrow>
    shell_service \<times> shell_call list \<times> (service_error, string) result" where
  "shell_resolveTilde cid path home s =
     (if \<not> is_tilde path then (s, [], ok path)
      else case map_get (svcSessions s) cid of
          None \<Rightarrow> (s, [], err (service_err SFTP_NO_CONNECTION ''Session not found'' None None))
        | Some session \<Rightarrow>
            (case shHomeDir session of
               Some homeDir \<Rightarrow> (s, [], ok (expand_home path homeDir))
             | None \<Rightarrow>
                 (case executeCommand home of
                    Inl e \<Rightarrow> (s, [ShExec buildHomeCommand], err e)
                  | Inr (stdout, _) \<Rightarrow>
                      let homeDir = resolveHomePath stdout
                      in if homeDir = [] \<or> \<not> starts_with homeDir ''/''
                         then (s, [ShExec buildHomeCommand],
                               err (service_err SFTP_SESSION_ERROR ''Failed to resolve home directory'' None None))
                         else (s\<lparr>svcSessions := map_set cid (session\<lparr>shHomeDir := Some homeDir\<rparr>) (svcSessions s)\<rparr>,
                               [ShExec buildHomeCommand], ok (expand_home path homeDir)))))"

definition shell_setup :: "string \<Rightarrow> string \<Rightarrow> string \<Rightarrow> bool \<Rightarrow> string option \<Rightarrow> shell_answers \<Rightarrow> shell_service \<Rightarrow>
    shell_service \<times> shell_call list \<times> (service_error, string) result" where
  "shell_setup cid sid path ck tid a s =
     (case validateOperationPreconditions (svcConfig s) path ck tid of
        Inl e \<Rightarrow> (s, [], err e)
      | Inr normalized \<Rightarrow>
          if \<not> saClient a then (s, [], err (service_err SFTP_NO_CONNECTION ''No active SSH connection'' None tid))
          else (case shell_resolveTilde cid normalized (saHome a) (shell_ensureSession cid sid s) of
                  (s1, calls, Inl e) \<Rightarrow> (s1, calls, err (e\<lparr>seTransferId := tid\<rparr>))
                | (s1, calls, Inr p) \<Rightarrow> (s1, calls, ok p)))"

section \<open>Operations\<close>

definition shell_list :: "(string \<Rightarrow> string \<Rightarrow> string \<Rightarrow> string) \<Rightarrow> string \<Rightarrow> string \<Rightarrow> string \<Rightarrow> bool \<Rightarrow> shell_answers \<Rightarrow>
    shell_service \<Rightarrow> shell_service \<times> shell_call list \<times> (service_error, service_reply) result" where
  "shell_list lsDate cid sid path showHidden a s =
     (case shell_setup cid sid path False None a s of
        (s1, calls, Inl e) \<Rightarrow> (s1, calls, err e)
      | (s1, calls, Inr p) \<Rightarrow>
          (s1, calls @ [ShExec (buildListCommand p showHidden)],
           case executeCommand (saCommand a) of
             Inl e \<Rightarrow> err e
           | Inr (stdout, _) \<Rightarrow> ok (RpDirectory p (parseDirectoryListing lsDate stdout p))))"

definition shell_stat :: "(string \<Rightarrow> string \<Rightarrow> string \<Rightarrow> string) \<Rightarrow> (string \<Rightarrow> string) \<Rightarrow> string \<Rightarrow> string \<Rightarrow> string \<Rightarrow> shell_answers \<Rightarrow>
    shell_service \<Rightarrow> shell_service \<times> shell_call list \<times> (service_error, service_reply) result" where
  "shell_stat lsDate dirname cid sid path a s =
     (case shell_setup cid sid path False None a s of
        (s1, calls, Inl e) \<Rightarrow> (s1, calls, err e)
      | (s1, calls, Inr p) \<Rightarrow>
          (s1, calls @ [ShExec (buildStatCommand p)],
           case executeCommand (saCommand a) of
             Inl e \<Rightarrow> err e
           | Inr (stdout, _) \<Rightarrow>
               (case parseStatEntry lsDate dirname stdout p of
                  None \<Rightarrow> err (service_err SFTP_NOT_FOUND ''Could not parse file information'' (Some p) None)
                | Some entry \<Rightarrow> ok (RpStat p entry))))"

definition shell_mkdir :: "shell_service \<Rightarrow> shell_service \<times> shell_call list \<times> (service_error, service_reply) result" where
  "shell_mkdir s = (s, [], err (service_err SFTP_INVALID_REQUEST ''mkdir is not supported with the shell backend'' None None))"

definition shell_delete :: "shell_service \<Rightarrow> shell_service \<times> shell_call list \<times> (service_error, service_reply) result" where
  "shell_delete s = (s, [], err (service_err SFTP_INVALID_REQUEST ''delete is not supported with the shell backend'' None None))"

definition shell_startDownload :: "(string \<Rightarrow> string \<Rightarrow> string \<Rightarrow> string) \<Rightarrow> (string \<Rightarrow> string) \<Rightarrow> download_start \<Rightarrow> shell_answers \<Rightarrow>
    int \<Rightarrow> shell_service \<Rightarrow> shell_service \<times> shell_call list \<times> (service_error, service_reply) result" where
  "shell_startDownload lsDate dirname request a now s =
     (let tid = dsTransferId request
      in case shell_setup (dsConnectionId request) (dsSessionId request) (dsRemotePath request) True (Some tid) a s of
           (s1, calls, Inl e) \<Rightarrow> (s1, calls, err e)
         | (s1, calls, Inr p) \<Rightarrow>
             let calls1 = calls @ [ShExec (buildStatCommand p)]
             in (case executeCommand (saCommand a) of
                   Inl e \<Rightarrow> (s1, calls1, err (e\<lparr>seTransferId := Some tid\<rparr>))
                 | Inr (stdout, _) \<Rightarrow>
                     (case parseStatEntry lsDate dirname stdout p of
                        None \<Rightarrow> (s1, calls1, err (service_err SFTP_NOT_FOUND ''File not found'' (Some p) (Some tid)))
                      | Some fileInfo \<Rightarrow>
                          let (m, r) = validateAndStartDownload (svcConfig s1) request p fileInfo now (svcTransfers s1)
                          in (s1\<lparr>svcTransfers := m\<rparr>, calls1,
                              case r of Inl e \<Rightarrow> err e | Inr ready \<Rightarrow> ok (RpDownloadReady ready)))))"

section \<open>Uploads\<close>

definition catTo :: "string \<Rightarrow> string" where
  "catTo path = ''cat > '' @ escapeShellPath path"

definition cleanupUpload :: "string \<Rightarrow> shell_service \<Rightarrow> shell_service \<times> shell_call list" where
  "cleanupUpload tid s =
     (case map_get (svcUploads s) tid of
        None \<Rightarrow> (s, [])
      | Some stream \<Rightarrow> (s\<lparr>svcUploads := map_delete tid (svcUploads s)\<rparr>, [ShDestroy stream]))"

text \<open>Whatever goes wrong with the look-up of the file counts as its absence.\<close>

definition shell_startUpload :: "upload_start \<Rightarrow> shell_answers \<Rightarrow> int \<Rightarrow> shell_service \<Rightarrow>
    shell_service \<times> shell_call list \<times> (service_error, service_reply option) result" where
  "shell_startUpload request a now s =
     (let tid = usTransferId request
      in case validateUploadPreFlight request (scMaxFileSize (svcConfig s)) of
           Inl e \<Rightarrow> (s, [], err e)
         | Inr _ \<Rightarrow>
             (case shell_setup (usConnectionId request) (usSessionId request) (usRemotePath request) True (Some tid) a s of
                (s1, calls, Inl e) \<Rightarrow> (s1, calls, err e)
              | (s1, calls, Inr p) \<Rightarrow>
                  let overwrite = (usOverwrite request = Some True);
                      calls1 = (if overwrite then calls else calls @ [ShExec (buildStatCommand p)])
                  in if \<not> overwrite \<and> \<not> isl (executeCommand (saCommand a))
                     then (s1, calls1, err (service_err SFTP_ALREADY_EXISTS ''File already exists'' (Some p) (Some tid)))
                     else (case startUploadTransfer request p (scRateLimit (svcConfig s1)) now (svcTransfers s1) of
                             (m, Inl e) \<Rightarrow> (s1\<lparr>svcTransfers := m\<rparr>, calls1, err e)
                           | (m, Inr _) \<Rightarrow>
                               (s1\<lparr>svcTransfers := m, svcOpening := svcOpening s1 @ [(request, p, False)]\<rparr>,
                                calls1 @ [ShExec (catTo p)], ok None))))"

definition shell_upload_timeout :: "nat \<Rightarrow> shell_service \<Rightarrow> shell_service \<times> (service_error, service_reply) result option" where
  "shell_upload_timeout k s =
     (case svcOpening s ! k of (request, p, settled) \<Rightarrow>
        (s\<lparr>svcTransfers := fst (cancelTransfer (usTransferId request) (svcTransfers s)),
           svcOpening := (svcOpening s)[k := (request, p, True)]\<rparr>,
         if settled then None
         else Some (err (service_err SFTP_TIMEOUT ''Upload start timeout'' None (Some (usTransferId request))))))"

definition shell_upload_opened :: "nat \<Rightarrow> (string, nat) result \<Rightarrow> int \<Rightarrow> shell_service \<Rightarrow>
    shell_service \<times> (service_error, service_reply) result option" where
  "shell_upload_opened k r now s =
     (case svcOpening s ! k of (request, p, settled) \<Rightarrow>
        let tid = usTransferId request; s1 = s\<lparr>svcOpening := remove_nth k (svcOpening s)\<rparr>
        in case r of
             Inl m \<Rightarrow>
               (s1\<lparr>svcTransfers := fst (cancelTransfer tid (svcTransfers s1))\<rparr>,
                if settled then None else Some (err (service_err SFTP_PERMISSION_DENIED m (Some p) (Some tid))))
           | Inr stream \<Rightarrow>
               (s1\<lparr>svcUploads := map_set tid stream (svcUploads s1),
                   svcTransfers := fst (activateTransfer tid now (svcTransfers s1))\<rparr>,
                if settled then None else Some (ok (RpUploadReady tid (scChunkSize (svcConfig s1))))))"

definition shell_uploadChunk :: "upload_chunk \<Rightarrow> int \<Rightarrow> shell_service \<Rightarrow>
    shell_service \<times> shell_call list \<times> (service_error, service_reply option) result" where
  "shell_uploadChunk request now s =
     (let tid = ucTransferId request
      in case map_get (svcUploads s) tid of
           None \<Rightarrow> (s, [], err (service_err SFTP_INVALID_REQUEST ''Transfer not found or already completed'' None (Some tid)))
         | Some stream \<Rightarrow>
             (case updateProgress tid (ucIndex request) (int (length (ucData request))) now (svcTransfers s) of
                (m, Inl e) \<Rightarrow> (s\<lparr>svcTransfers := m\<rparr>, [], err (mapChunkUpdateError e tid))
              | (m, Inr t) \<Rightarrow>
                  (s\<lparr>svcTransfers := m, svcWriting := svcWriting s @ [(request, stream, tBytesTransferred t)]\<rparr>,
                   [ShWrite stream (ucData request)], ok None)))"

definition shell_chunk_written :: "nat \<Rightarrow> string option \<Rightarrow> shell_service \<Rightarrow>
    shell_service \<times> shell_call list \<times> (service_error, service_reply) result" where
  "shell_chunk_written k writeErr s =
     (case svcWriting s ! k of (request, stream, n) \<Rightarrow>
        let tid = ucTransferId request; s1 = s\<lparr>svcWriting := remove_nth k (svcWriting s)\<rparr>
        in case writeErr of
             Some m \<Rightarrow>
               (let (s2, calls) = cleanupUpload tid s1
                in (s2, calls, err (service_err SFTP_CHUNK_ERROR m None (Some tid))))
           | None \<Rightarrow>
               (if ucIsLast request then s1\<lparr>svcUploads := map_delete tid (svcUploads s1)\<rparr> else s1,
                if ucIsLast request then [ShEnd stream] else [],
                ok (RpUploadAck tid (ucIndex request) n)))"

definition shell_completeUpload :: "string \<Rightarrow> int \<Rightarrow> shell_service \<Rightarrow>
    shell_service \<times> shell_call list \<times> (service_error, service_reply) result" where
  "shell_completeUpload tid now s =
     (case completeTransfer tid now (svcTransfers s) of
        (m, Inl e) \<Rightarrow> (s\<lparr>svcTransfers := m\<rparr>, [], err (service_err SFTP_INVALID_REQUEST (teMessage e) None (Some tid)))
      | (m, Inr c) \<Rightarrow>
          (let (s1, calls) = cleanupUpload tid (s\<lparr>svcTransfers := m\<rparr>)
           in (s1, calls, ok (RpComplete (c\<lparr>tcTransferId := tid, tcDirection := Upload\<rparr>)))))"

definition shell_cancelUpload :: "string \<Rightarrow> shell_service \<Rightarrow> shell_service \<times> shell_call list" where
  "shell_cancelUpload tid s =
     (let (s1, calls) = cleanupUpload tid s
      in (s1\<lparr>svcTransfers := fst (cancelTransfer tid (svcTransfers s1))\<rparr>, calls))"

definition shell_verifyOwnership :: "string \<Rightarrow> string \<Rightarrow> shell_service \<Rightarrow> (transfer_error, transfer) result" where
  "shell_verifyOwnership tid sid s = verifyOwnership tid sid (svcTransfers s)"

section \<open>The stream of a download\<close>

datatype shell_output =
    SoExec string
  | SoChunk nat bytes bool
  | SoProgress transfer_progress
  | SoComplete transfer_completion
  | SoError service_error
  | SoDestroy
  | SoResolve

definition catFrom :: "string \<Rightarrow> string" where
  "catFrom path = ''cat '' @ escapeShellPath path"

definition shell_streamDownload :: "string \<Rightarrow> string \<Rightarrow> string \<Rightarrow> bool \<Rightarrow> int \<Rightarrow> shell_service \<Rightarrow>
    shell_service \<times> shell_output list" where
  "shell_streamDownload cid tid path client now s =
     (if map_get (svcSessions s) cid = None
      then (s, [SoError (service_err SFTP_NO_CONNECTION ''Shell session not found'' None (Some tid)), SoResolve])
      else if \<not> client
      then (s, [SoError (service_err SFTP_NO_CONNECTION ''SSH client not found'' None (Some tid)), SoResolve])
      else (s\<lparr>svcStates := map_set tid (length (svcDownloads s)) (svcStates s),
              svcDownloads := svcDownloads s @
                [\<lparr>sdTransferId = tid, sdPath = path, sdCancelled = False, sdChunkIndex = 0, sdBuffer = [], sdLastProgress = now\<rparr>]\<rparr>,
            [SoExec (catFrom path)]))"

text \<open>The promises of \<open>onChunk\<close> are not awaited, and a refused update of the progress is ignored.\<close>

definition emitChunk :: "int \<Rightarrow> bytes \<Rightarrow> bool \<Rightarrow> shell_download \<Rightarrow> transfer_manager \<Rightarrow>
    shell_download \<times> transfer_manager \<times> shell_output list" where
  "emitChunk now data isLast d m =
     (let tid = sdTransferId d;
          m1 = fst (updateProgress tid (int (sdChunkIndex d)) (int (length data)) now m);
          due = (now - sdLastProgress d \<ge> PROGRESS_INTERVAL_MS);
          report = (if due then (case getProgress tid now m1 of Inr p \<Rightarrow> [SoProgress p] | Inl _ \<Rightarrow> []) else [])
      in (d\<lparr>sdChunkIndex := sdChunkIndex d + 1, sdLastProgress := (if due then now else sdLastProgress d)\<rparr>,
          m1, SoChunk (sdChunkIndex d) data isLast # report))"

lemma emitChunk_buffer: "sdBuffer (fst (emitChunk now data isLast d m)) = sdBuffer d"
  by (simp add: emitChunk_def Let_def)

function emit_full :: "int \<Rightarrow> nat \<Rightarrow> shell_download \<Rightarrow> transfer_manager \<Rightarrow>
    shell_download \<times> transfer_manager \<times> shell_output list" where
  "emit_full now n d m =
     (if n = 0 \<or> length (sdBuffer d) < n then (d, m, [])
      else let (d1, m1, out1) = emitChunk now (take n (sdBuffer d)) False (d\<lparr>sdBuffer := drop n (sdBuffer d)\<rparr>) m;
               (d2, m2, out2) = emit_full now n d1 m1
           in (d2, m2, out1 @ out2))"
  by pat_completeness auto
termination
proof (relation "measure (\<lambda>(now, n, d, m). length (sdBuffer d))")
  fix now n d m x d1 y m1 out1
  assume "\<not> (n = 0 \<or> length (sdBuffer d) < n)"
    and "x = emitChunk now (take n (sdBuffer d)) False (d\<lparr>sdBuffer := drop n (sdBuffer d)\<rparr>) m"
    and "(d1, y) = x" "(m1, out1) = y"
  moreover from this have "d1 = fst (emitChunk now (take n (sdBuffer d)) False (d\<lparr>sdBuffer := drop n (sdBuffer d)\<rparr>) m)"
    by (metis fst_conv)
  then have "sdBuffer d1 = drop n (sdBuffer d)"
    by (simp add: emitChunk_buffer)
  ultimately show "((now, n, d1, m1), now, n, d, m) \<in> measure (\<lambda>(now, n, d, m). length (sdBuffer d))"
    by auto
qed simp

declare emit_full.simps [simp del]

definition put_download :: "nat \<Rightarrow> shell_download \<Rightarrow> shell_service \<Rightarrow> shell_service" where
  "put_download k d s = s\<lparr>svcDownloads := (svcDownloads s)[k := d]\<rparr>"

definition sd_refused :: "nat \<Rightarrow> string \<Rightarrow> shell_service \<Rightarrow> shell_service \<times> shell_output list" where
  "sd_refused k message s =
     (let tid = sdTransferId (svcDownloads s ! k); path = sdPath (svcDownloads s ! k)
      in (s\<lparr>svcStates := map_delete tid (svcStates s), svcTransfers := fst (cancelTransfer tid (svcTransfers s))\<rparr>,
          [SoError (service_err SFTP_PERMISSION_DENIED message (Some path) (Some tid)), SoResolve]))"

definition sd_started :: "nat \<Rightarrow> int \<Rightarrow> shell_service \<Rightarrow> shell_service" where
  "sd_started k now s = put_download k ((svcDownloads s ! k)\<lparr>sdLastProgress := now\<rparr>) s"

definition sd_data :: "nat \<Rightarrow> bytes \<Rightarrow> int \<Rightarrow> shell_service \<Rightarrow> shell_service \<times> shell_output list" where
  "sd_data k data now s =
     (let d = svcDownloads s ! k
      in if sdCancelled d then (s, [SoDestroy])
         else let (d1, m, out) = emit_full now (nat (scChunkSize (svcConfig s))) (d\<lparr>sdBuffer := sdBuffer d @ data\<rparr>) (svcTransfers s)
              in (put_download k d1 (s\<lparr>svcTransfers := m\<rparr>), out))"

definition sd_end :: "nat \<Rightarrow> int \<Rightarrow> shell_service \<Rightarrow> shell_service \<times> shell_output list" where
  "sd_end k now s =
     (let d = svcDownloads s ! k; tid = sdTransferId d
      in if sdCancelled d then (s, [])
         else let (d1, m, out) = emitChunk now (sdBuffer d) True d (svcTransfers s);
                  (m1, r) = completeTransfer tid now m;
                  s1 = put_download k d1 s
              in (s1\<lparr>svcStates := map_delete tid (svcStates s1), svcTransfers := m1\<rparr>,
                  out @ (case r of Inr c \<Rightarrow> [SoComplete (c\<lparr>tcTransferId := tid, tcDirection := Download\<rparr>)] | Inl _ \<Rightarrow> []) @ [SoResolve]))"

definition sd_error :: "nat \<Rightarrow> string \<Rightarrow> shell_service \<Rightarrow> shell_service \<times> shell_output list" where
  "sd_error k message s =
     (let d = svcDownloads s ! k; tid = sdTransferId d
      in if sdCancelled d then (s, [SoResolve])
         else (s\<lparr>svcStates := map_delete tid (svcStates s), svcTransfers := fst (cancelTransfer tid (svcTransfers s))\<rparr>,
               [SoError (service_err SFTP_CHUNK_ERROR message (Some (sdPath d)) (Some tid)), SoResolve]))"

definition shell_cancelDownload :: "string \<Rightarrow> shell_service \<Rightarrow> shell_service" where
  "shell_cancelDownload tid s =
     (let s1 = (case map_get (svcStates s) tid of
                  None \<Rightarrow> s
                | Some k \<Rightarrow> (put_download k ((svcDownloads s ! k)\<lparr>sdCancelled := True\<rparr>) s)\<lparr>svcStates := map_delete tid (svcStates s)\<rparr>)
      in s1\<lparr>svcTransfers := fst (cancelTransfer tid (svcTransfers s1))\<rparr>)"

definition shell_closeSession :: "string \<Rightarrow> shell_service \<Rightarrow> shell_service" where
  "shell_closeSession cid s = s\<lparr>svcSessions := map_delete cid (svcSessions s)\<rparr>"

definition shell_cancelSessionTransfers :: "string \<Rightarrow> shell_service \<Rightarrow> shell_service" where
  "shell_cancelSessionTransfers sid s = s\<lparr>svcTransfers := cancelSessionTransfers sid (svcTransfers s)\<rparr>"

end
