(* ===== verification/File_Backends.thy ===== *)
theory File_Backends
  imports Shell_Service
begin

text \<open>
  The interface \<open>FileService\<close> (\<open>app/services/sftp/file-service.ts\<close>) that the socket adapter uses: what both
  backends, the SFTP subsystem and the shell, promise about the calls they make on the remote side.
\<close>

section \<open>The contract\<close>

text \<open>A validated path as it reaches the remote side: \<open>~\<close> is replaced by some home directory.\<close>

definition placed :: "string \<Rightarrow> string \<Rightarrow> bool" where
  "placed v p \<longleftrightarrow> (if is_tilde v then \<exists>h. p = expand_home v h else p = v)"

text \<open>A sequence of operations, each with its connection and session, the answers it awaits and its time; the
  trace gives the calls and the result of each.\<close>

fun backend_run :: "(string \<Rightarrow> string \<Rightarrow> service_op \<Rightarrow> 'a \<Rightarrow> int \<Rightarrow> 's \<Rightarrow> 's \<times> 'c list \<times> 'r) \<Rightarrow>
    (string \<times> string \<times> service_op \<times> 'a \<times> int) list \<Rightarrow> 's \<Rightarrow> 's \<times> (service_op \<times> 'c list \<times> 'r) list" where
  "backend_run run [] s = (s, [])"
| "backend_run run ((cid, sid, op, a, now) # rs) s =
     (let (s1, calls, r) = run cid sid op a now s; (s2, trace) = backend_run run rs s1
      in (s2, (op, calls, r) # trace))"

locale file_backend =
  fixes run :: "string \<Rightarrow> string \<Rightarrow> service_op \<Rightarrow> 'a \<Rightarrow> int \<Rightarrow> 's \<Rightarrow>
      's \<times> 'c list \<times> (service_error, service_reply option) result"
    and config_of :: "'s \<Rightarrow> sftp_config"
    and no_path :: "'c \<Rightarrow> bool" and path_named :: "'c \<Rightarrow> string option"
  assumes config_kept: "run cid sid op a now s = (s1, calls, r) \<Longrightarrow> config_of s1 = config_of s"
    and calls_placed: "run cid sid op a now s = (s1, calls, r) \<Longrightarrow> c \<in> set calls \<Longrightarrow> no_path c \<or>
      (\<exists>v p. accepted (config_of s) (op_path op) (op_checks_extension op) v \<and> path_named c = Some p
             \<and> (placed v p \<or> op_streams op \<and> p = op_path op))"
    and refused_silent: "run cid sid op a now s = (s1, calls, r) \<Longrightarrow>
      \<nexists>v. accepted (config_of s) (op_path op) (op_checks_extension op) v \<Longrightarrow> s1 = s \<and> calls = [] \<and> isl r"
begin

lemma run_validated:
  "backend_run run rs s = (s', trace) \<Longrightarrow> config_of s' = config_of s \<and>
     (\<forall>(op, calls, r)\<in>set trace.
        (\<forall>c\<in>set calls. no_path c \<or>
           (\<exists>v p. accepted (config_of s) (op_path op) (op_checks_extension op) v \<and> path_named c = Some p
             \<and> (placed v p \<or> op_streams op \<and> p = op_path op)))
        \<and> ((\<nexists>v. accepted (config_of s) (op_path op) (op_checks_extension op) v) \<longrightarrow> calls = [] \<and> isl r))"
proof (induction rs arbitrary: s s' trace)
  case Nil
  then show ?case by simp
next
  case (Cons q rs)
  obtain cid sid op a now where q: "q = (cid, sid, op, a, now)" by (metis prod_cases5)
  obtain s1 calls r where step: "run cid sid op a now s = (s1, calls, r)" by (metis prod_cases3)
  obtain s2 rest where more: "backend_run run rs s1 = (s2, rest)" by fastforce
  have "s' = s2" "trace = (op, calls, r) # rest"
    using Cons.prems by (simp_all add: q step more)
  with Cons.IH [OF more] config_kept [OF step] calls_placed [OF step] refused_silent [OF step]
  show ?case by simp
qed

lemma disabled_silent:
  assumes "backend_run run rs s = (s', trace)" and "\<not> scEnabled (config_of s)"
  shows "\<forall>(op, calls, r)\<in>set trace. calls = [] \<and> isl r"
proof -
  have "\<nexists>v. accepted (config_of s) p ck v" for p ck using assms(2) by (simp add: accepted_def)
  with run_validated [OF assms(1)] show ?thesis by fastforce
qed

end

section \<open>The SFTP backend\<close>

lemma reaches_placed: "reaches a v p \<Longrightarrow> placed v p"
  by (auto simp: reaches_def placed_def split: if_splits)

lemma service_method_config:
  "service_method isoDate cid sid op a now s = (s1, calls, r) \<Longrightarrow> svConfig s1 = svConfig s"
  by (cases op; auto simp: sv_listDirectory_def sv_stat_def sv_mkdir_def sv_delete_def sv_startUpload_def
      sv_startDownload_def Let_def split: prod.splits sum.splits if_splits
      dest!: setupOperation_spec(4))

lemma run_op_config:
  assumes "run_op isoDate cid sid op a now s = (s1, calls, r)" shows "svConfig s1 = svConfig s"
proof -
  obtain s2 cs r2 where m: "service_method isoDate cid sid op a now s = (s2, cs, r2)" by (metis prod_cases3)
  then have "s1 = s2" using assms by (cases op; cases r2) auto
  with service_method_config [OF m] show ?thesis by simp
qed

interpretation sftp: file_backend "run_op isoDate" svConfig "\<lambda>c. c \<in> {RcOpenSession, RcRealpath ''.''}" call_path
  for isoDate
proof
  fix cid sid op a now s s1 calls r c
  assume s: "run_op isoDate cid sid op a now s = (s1, calls, r)"
  from s show "svConfig s1 = svConfig s" by (rule run_op_config)
  from run_op_calls [OF s]
  show "c \<in> set calls \<Longrightarrow> c \<in> {RcOpenSession, RcRealpath ''.''} \<or>
      (\<exists>v p. accepted (svConfig s) (op_path op) (op_checks_extension op) v \<and> call_path c = Some p
             \<and> (placed v p \<or> op_streams op \<and> p = op_path op))"
    using reaches_placed by fastforce
  from run_op_calls [OF s]
  show "\<nexists>v. accepted (svConfig s) (op_path op) (op_checks_extension op) v \<Longrightarrow> s1 = s \<and> calls = [] \<and> isl r"
    by blast
qed

section \<open>The shell backend\<close>

text \<open>One method of the service, with its arguments.\<close>

fun shell_method :: "(string \<Rightarrow> string \<Rightarrow> string \<Rightarrow> string) \<Rightarrow> (string \<Rightarrow> string) \<Rightarrow> string \<Rightarrow> string \<Rightarrow> service_op \<Rightarrow>
    shell_answers \<Rightarrow> int \<Rightarrow> shell_service \<Rightarrow> shell_service \<times> shell_call list \<times> (service_error, service_reply option) result" where
  "shell_method lsDate dirname cid sid (OpList p h) a now s =
     (case shell_list lsDate cid sid p h a s of (s1, cs, r) \<Rightarrow> (s1, cs, map_sum id Some r))"
| "shell_method lsDate dirname cid sid (OpStat p) a now s =
     (case shell_stat lsDate dirname cid sid p a s of (s1, cs, r) \<Rightarrow> (s1, cs, map_sum id Some r))"
| "shell_method lsDate dirname cid sid (OpMkdir p m) a now s =
     (case shell_mkdir s of (s1, cs, r) \<Rightarrow> (s1, cs, map_sum id Some r))"
| "shell_method lsDate dirname cid sid (OpDelete p rc) a now s =
     (case shell_delete s of (s1, cs, r) \<Rightarrow> (s1, cs, map_sum id Some r))"
| "shell_method lsDate dirname cid sid (OpUpload u) a now s = shell_startUpload u a now s"
| "shell_method lsDate dirname cid sid (OpDownload d) a now s =
     (case shell_startDownload lsDate dirname d a now s of (s1, cs, r) \<Rightarrow> (s1, cs, map_sum id Some r))"

text \<open>What the socket adapter does with the service for one request: the method of the request and, when a
  download was started, its streaming with the path of the request.  The commands are what it runs at once;
  the callbacks of a running stream are events of their own.\<close>

definition stream_calls :: "shell_output list \<Rightarrow> shell_call list" where
  "stream_calls outs = List.map_filter (\<lambda>x. case x of SoExec command \<Rightarrow> Some (ShExec command) | _ \<Rightarrow> None) outs"

fun shell_op :: "(string \<Rightarrow> string \<Rightarrow> string \<Rightarrow> string) \<Rightarrow> (string \<Rightarrow> string) \<Rightarrow> string \<Rightarrow> string \<Rightarrow> service_op \<Rightarrow>
    shell_answers \<Rightarrow> int \<Rightarrow> shell_service \<Rightarrow> shell_service \<times> shell_call list \<times> (service_error, service_reply option) result" where
  "shell_op lsDate dirname cid sid (OpDownload d) a now s =
     (case shell_method lsDate dirname cid sid (OpDownload d) a now s of
        (s1, cs, Inl e) \<Rightarrow> (s1, cs, Inl e)
      | (s1, cs, Inr r) \<Rightarrow>
          (case shell_streamDownload (dsConnectionId d) (dsTransferId d) (dsRemotePath d) (saClient a) now s1 of
             (s2, outs) \<Rightarrow> (s2, cs @ stream_calls outs, Inr r)))"
| "shell_op lsDate dirname cid sid op a now s = shell_method lsDate dirname cid sid op a now s"

text \<open>How the shell reads a command: its words and the file its output is redirected to.\<close>

definition sh_command :: "string \<Rightarrow> (string list \<times> string option) option" where
  "sh_command s =
     (case sh_words s of
        Some ws \<Rightarrow> Some (ws, None)
      | None \<Rightarrow>
          let before = takeWhile (\<lambda>c. c \<noteq> CHR ''>'') s
          in (case (sh_words before, sh_words (drop (Suc (length before)) s)) of
                (Some ws, Some [p]) \<Rightarrow> Some (ws, Some p)
              | _ \<Rightarrow> None))"

text \<open>The commands that name a path, and the path.\<close>

definition command_path :: "string list \<times> string option \<Rightarrow> string option" where
  "command_path r =
     (case r of
        (ws, Some p) \<Rightarrow> if ws = [''cat''] then Some p else None
      | (ws, None) \<Rightarrow>
          if butlast ws \<in> {[''cat''], [''ls'', ''-la''], [''ls'', ''-laA''], [''ls'', ''-lad'']} then Some (last ws) else None)"

fun exec_path :: "shell_call \<Rightarrow> string option" where
  "exec_path (ShExec c) = (case sh_command c of None \<Rightarrow> None | Some r \<Rightarrow> command_path r)"
| "exec_path _ = None"

lemma sh_words_escaped: "sh_words (escapeShellPath p) = Some [p]"
  using sh_lex_escaped [of p "[]"] by (simp add: sh_words_def)

lemma sh_word_then:
  assumes "w \<noteq> []" "list_all sh_plain w"
  shows "sh_words (w @ CHR '' '' # s) = map_option ((#) w) (sh_words s)"
proof -
  obtain c u where w: "w = c # u" using assms(1) by (cases w) auto
  then have p: "sh_plain c" "list_all sh_plain u" using assms(2) by auto
  have "c \<noteq> CHR '' ''" "c \<noteq> quote" "c \<noteq> backslash"
    using p(1) by (auto simp: sh_plain_def is_word_def is_alpha_def is_upper_def is_lower_def is_digit_def code_def)
  then have "sh_words (w @ CHR '' '' # s) = sh_lex (u @ CHR '' '' # s) (Some [c])"
    by (simp add: w sh_words_def Let_def p(1))
  also have "\<dots> = sh_lex (CHR '' '' # s) (Some w)"
    using sh_lex_plain [OF p(2), of "CHR '' '' # s" "[c]"] by (simp add: w)
  finally show ?thesis by (simp add: sh_lex_blank sh_words_def)
qed

lemma plain_chars: "sh_plain CHR ''l''" "sh_plain CHR ''s''" "sh_plain CHR ''-''" "sh_plain CHR ''a''" "sh_plain CHR ''A''"
  "sh_plain CHR ''d''" "sh_plain CHR ''c''" "sh_plain CHR ''t''"
  by code_simp+

lemma command_words:
  "sh_words (buildListCommand p h) = Some [''ls'', if h then ''-laA'' else ''-la'', p]"
  "sh_words (buildStatCommand p) = Some [''ls'', ''-lad'', p]"
  "sh_words (catFrom p) = Some [''cat'', p]"
  using sh_word_then [of "''ls''"] sh_word_then [of "''-la''"] sh_word_then [of "''-laA''"] sh_word_then [of "''-lad''"]
    sh_word_then [of "''cat''"]
  by (simp_all add: buildListCommand_def buildStatCommand_def catFrom_def plain_chars sh_words_escaped Let_def)

lemma catTo_command: "sh_command (catTo p) = Some ([''cat''], Some p)"
proof -
  have "sh_words (catTo p) = None"
    by (simp add: sh_words_def catTo_def Let_def sh_plain_def is_word_def is_alpha_def is_upper_def is_lower_def is_digit_def code_def)
  moreover have "sh_words ''cat '' = Some [''cat'']" by code_simp
  moreover have "sh_words (CHR '' '' # escapeShellPath p) = Some [p]"
    using sh_words_escaped [of p] by (simp add: sh_words_def)
  ultimately show ?thesis by (simp add: sh_command_def catTo_def Let_def)
qed

lemma command_reads:
  "sh_command (buildListCommand p h) = Some ([''ls'', if h then ''-laA'' else ''-la'', p], None)"
  "sh_command (buildStatCommand p) = Some ([''ls'', ''-lad'', p], None)"
  "sh_command (catFrom p) = Some ([''cat'', p], None)"
  by (simp_all add: sh_command_def command_words)

lemma exec_paths [simp]:
  "exec_path (ShExec (buildListCommand p h)) = Some p" "exec_path (ShExec (buildStatCommand p)) = Some p"
  "exec_path (ShExec (catTo p)) = Some p" "exec_path (ShExec (catFrom p)) = Some p"
  by (simp_all add: command_reads catTo_command command_path_def)

lemma shell_setup_spec:
  assumes s: "shell_setup cid sid path ck tid a s = (s1, calls, r)"
  shows "set calls \<subseteq> {ShExec buildHomeCommand}"
    and "r = ok p \<Longrightarrow> \<exists>v. accepted (svcConfig s) path ck v \<and> placed v p"
    and "\<nexists>v. accepted (svcConfig s) path ck v \<Longrightarrow> s1 = s \<and> calls = [] \<and> isl r"
    and "svcConfig s1 = svcConfig s \<and> svcTransfers s1 = svcTransfers s \<and> svcUploads s1 = svcUploads s
       \<and> svcOpening s1 = svcOpening s \<and> svcWriting s1 = svcWriting s \<and> svcStates s1 = svcStates s
       \<and> svcDownloads s1 = svcDownloads s"
proof -
  show "set calls \<subseteq> {ShExec buildHomeCommand}"
    using s unfolding shell_setup_def shell_resolveTilde_def Let_def
    by (auto split: sum.splits prod.splits if_splits option.splits)
  show "r = ok p \<Longrightarrow> \<exists>v. accepted (svcConfig s) path ck v \<and> placed v p"
    using s unfolding shell_setup_def shell_resolveTilde_def placed_def Let_def
    by (auto simp: preconditions_ok split: sum.splits prod.splits if_splits option.splits)
  show "svcConfig s1 = svcConfig s \<and> svcTransfers s1 = svcTransfers s \<and> svcUploads s1 = svcUploads s
       \<and> svcOpening s1 = svcOpening s \<and> svcWriting s1 = svcWriting s \<and> svcStates s1 = svcStates s
       \<and> svcDownloads s1 = svcDownloads s"
    using s unfolding shell_setup_def shell_resolveTilde_def shell_ensureSession_def Let_def
    by (auto split: sum.splits prod.splits if_splits option.splits)
  assume none: "\<nexists>v. accepted (svcConfig s) path ck v"
  obtain e where "validateOperationPreconditions (svcConfig s) path ck tid = err e"
    using none preconditions_ok [of "svcConfig s" path ck tid]
    by (cases "validateOperationPreconditions (svcConfig s) path ck tid") auto
  then have "(s1, calls, r) = (s, [], err e)" using s by (simp add: shell_setup_def)
  then show "s1 = s \<and> calls = [] \<and> isl r" by simp
qed

text \<open>An operation with its answers and state is prepared once, so every operation is a case of its own.\<close>

lemma shell_method_config:
  "shell_method lsDate dirname cid sid op a now s = (s1, calls, r) \<Longrightarrow> svcConfig s1 = svcConfig s"
  by (cases op; auto simp: shell_list_def shell_stat_def shell_mkdir_def shell_delete_def shell_startUpload_def
      shell_startDownload_def Let_def split: prod.splits sum.splits if_splits option.splits
      dest!: shell_setup_spec(4))

lemma shell_method_calls:
  assumes "shell_method lsDate dirname cid sid op a now s = (s1, calls, r)"
  shows "(\<forall>c\<in>set calls. c = ShExec buildHomeCommand \<or>
      (\<exists>v p. accepted (svcConfig s) (op_path op) (op_checks_extension op) v \<and> placed v p \<and> exec_path c = Some p))
    \<and> ((\<nexists>v. accepted (svcConfig s) (op_path op) (op_checks_extension op) v) \<longrightarrow> s1 = s \<and> calls = [] \<and> isl r)"
proof (cases op)
  case (OpList p h)
  with assms show ?thesis
    using shell_setup_spec(1-3) [of cid sid p False None a s]
    by (fastforce simp: shell_list_def simp del: exec_path.simps split: prod.splits sum.splits)
next
  case (OpStat p)
  with assms show ?thesis
    using shell_setup_spec(1-3) [of cid sid p False None a s]
    by (fastforce simp: shell_stat_def simp del: exec_path.simps split: prod.splits sum.splits)
next
  case (OpMkdir p m)
  with assms show ?thesis by (auto simp: shell_mkdir_def)
next
  case (OpDelete p rc)
  with assms show ?thesis by (auto simp: shell_delete_def)
next
  case (OpUpload u)
  with assms show ?thesis
    using shell_setup_spec(1-3) [of "usConnectionId u" "usSessionId u" "usRemotePath u" True "Some (usTransferId u)" a s]
    by (fastforce simp: shell_startUpload_def Let_def simp del: exec_path.simps split: prod.splits sum.splits if_splits)
next
  case (OpDownload d)
  with assms show ?thesis
    using shell_setup_spec(1-3) [of "dsConnectionId d" "dsSessionId d" "dsRemotePath d" True "Some (dsTransferId d)" a s]
    by (fastforce simp: shell_startDownload_def Let_def simp del: exec_path.simps split: prod.splits sum.splits option.splits)
qed

lemma shell_op_split:
  assumes o: "shell_op lsDate dirname cid sid op a now s = (s1, calls, r)"
    and m: "shell_method lsDate dirname cid sid op a now s = (s2, cs, r2)"
  shows "r = r2 \<and> svcConfig s1 = svcConfig s2 \<and> (calls = cs \<and> s1 = s2
      \<or> op_streams op \<and> \<not> isl r2 \<and> (calls = cs \<or> calls = cs @ [ShExec (catFrom (op_path op))]))"
proof (cases op)
  case (OpDownload d)
  obtain s3 outs where st: "shell_streamDownload (dsConnectionId d) (dsTransferId d) (dsRemotePath d) (saClient a) now s2 = (s3, outs)"
    by fastforce
  then have "svcConfig s3 = svcConfig s2 \<and> (stream_calls outs = [] \<or> stream_calls outs = [ShExec (catFrom (dsRemotePath d))])"
    by (auto simp: shell_streamDownload_def stream_calls_def List.map_filter_def split: if_splits)
  with o m st OpDownload show ?thesis by (cases r2) auto
qed (use o m in simp_all)

lemma shell_op_config:
  assumes "shell_op lsDate dirname cid sid op a now s = (s1, calls, r)" shows "svcConfig s1 = svcConfig s"
proof -
  obtain s2 cs r2 where m: "shell_method lsDate dirname cid sid op a now s = (s2, cs, r2)" by (metis prod_cases3)
  from shell_op_split [OF assms m] shell_method_config [OF m] show ?thesis by simp
qed

lemma shell_op_calls:
  assumes "shell_op lsDate dirname cid sid op a now s = (s1, calls, r)"
  shows "(\<forall>c\<in>set calls. c = ShExec buildHomeCommand \<or>
      (\<exists>v p. accepted (svcConfig s) (op_path op) (op_checks_extension op) v \<and> exec_path c = Some p
             \<and> (placed v p \<or> op_streams op \<and> p = op_path op)))
    \<and> ((\<nexists>v. accepted (svcConfig s) (op_path op) (op_checks_extension op) v) \<longrightarrow> s1 = s \<and> calls = [] \<and> isl r)"
proof -
  obtain s2 cs r2 where m: "shell_method lsDate dirname cid sid op a now s = (s2, cs, r2)" by (metis prod_cases3)
  note spec = shell_method_calls [OF m] and split = shell_op_split [OF assms m]
  have v: "\<exists>v. accepted (svcConfig s) (op_path op) (op_checks_extension op) v" if "\<not> isl r2"
    using spec that by blast
  have cat: "exec_path (ShExec (catFrom (op_path op))) = Some (op_path op)" by (rule exec_paths)
  have "c = ShExec buildHomeCommand \<or>
      (\<exists>v p. accepted (svcConfig s) (op_path op) (op_checks_extension op) v \<and> exec_path c = Some p
             \<and> (placed v p \<or> op_streams op \<and> p = op_path op))" if c: "c \<in> set calls" for c
  proof (cases "c \<in> set cs")
    case True
    with spec show ?thesis by blast
  next
    case False
    then have "op_streams op" "\<not> isl r2" "c = ShExec (catFrom (op_path op))" using split c by auto
    with v cat show ?thesis by blast
  qed
  moreover have "s1 = s \<and> calls = [] \<and> isl r"
    if none: "\<nexists>v. accepted (svcConfig s) (op_path op) (op_checks_extension op) v"
  proof -
    from spec none have "s2 = s \<and> cs = [] \<and> isl r2" by blast
    with split show ?thesis by auto
  qed
  ultimately show ?thesis by blast
qed

interpretation shell: file_backend "shell_op lsDate dirname" svcConfig "\<lambda>c. c = ShExec buildHomeCommand" exec_path
  for lsDate dirname
proof
  fix cid sid op a now s s1 calls r c
  assume s: "shell_op lsDate dirname cid sid op a now s = (s1, calls, r)"
  from s show "svcConfig s1 = svcConfig s" by (rule shell_op_config)
  from shell_op_calls [OF s]
  show "c \<in> set calls \<Longrightarrow> c = ShExec buildHomeCommand \<or>
      (\<exists>v p. accepted (svcConfig s) (op_path op) (op_checks_extension op) v \<and> exec_path c = Some p
             \<and> (placed v p \<or> op_streams op \<and> p = op_path op))"
    by blast
  from shell_op_calls [OF s]
  show "\<nexists>v. accepted (svcConfig s) (op_path op) (op_checks_extension op) v \<Longrightarrow> s1 = s \<and> calls = [] \<and> isl r"
    by blast
qed


definition demo_shell_answers :: shell_answers where
  "demo_shell_answers = \<lparr>saClient = True, saHome = ExecEvents [XOut ''/home/u'', XClose (Some 0)],
     saCommand = ExecEvents [XErrOut ''No such file'', XClose (Some 2)]\<rparr>"

definition demo_shell_run :: "string \<Rightarrow> shell_service \<times> (service_op \<times> shell_call list \<times> (service_error, service_reply option) result) list" where
  "demo_shell_run path = backend_run (shell_op (\<lambda>_ _ _. []) (\<lambda>p. p)) [(''c'', ''s'', OpStat path, demo_shell_answers, 0)]
     (new_shell_service demo_config)"


end
