(* ===== verification/Shell_Streams.thy ===== *)
theory Shell_Streams
  imports File_Backends
begin

text \<open>
  The shell backend as a whole: every call of its methods, callback and timer is an event, in any order.  A
  running download is named by its position among all downloads ever streamed; events of callbacks that do not
  exist change nothing.
\<close>

section \<open>Events\<close>

datatype svc_event =
    EvOp string string service_op shell_answers
  | EvUploadTimeout nat
  | EvUploadOpened nat "(string, nat) result"
  | EvChunk upload_chunk
  | EvWritten nat "string option"
  | EvComplete string
  | EvCancelUpload string
  | EvStream string string string bool
  | EvStarted nat
  | EvRefused nat string
  | EvData nat bytes
  | EvEnd nat
  | EvError nat string
  | EvCancelDownload string
  | EvCloseSession string
  | EvCancelSession string

definition tagged :: "nat \<Rightarrow> shell_output list \<Rightarrow> (nat \<times> shell_output) list" where
  "tagged k outs = map (Pair k) outs"

definition of_download :: "nat \<Rightarrow> shell_service \<Rightarrow> shell_service \<times> shell_output list \<Rightarrow> shell_service \<times> (nat \<times> shell_output) list" where
  "of_download k s r = (if k < length (svcDownloads s) then (fst r, tagged k (snd r)) else (s, []))"

fun svc_step :: "(string \<Rightarrow> string \<Rightarrow> string \<Rightarrow> string) \<Rightarrow> (string \<Rightarrow> string) \<Rightarrow> int \<times> svc_event \<Rightarrow> shell_service \<Rightarrow>
    shell_service \<times> (nat \<times> shell_output) list" where
  "svc_step lsDate dirname (now, EvOp cid sid op a) s = (fst (shell_method lsDate dirname cid sid op a now s), [])"
| "svc_step lsDate dirname (now, EvUploadTimeout j) s =
     (if j < length (svcOpening s) then fst (shell_upload_timeout j s) else s, [])"
| "svc_step lsDate dirname (now, EvUploadOpened j r) s =
     (if j < length (svcOpening s) then fst (shell_upload_opened j r now s) else s, [])"
| "svc_step lsDate dirname (now, EvChunk c) s = (fst (shell_uploadChunk c now s), [])"
| "svc_step lsDate dirname (now, EvWritten j e) s =
     (if j < length (svcWriting s) then fst (shell_chunk_written j e s) else s, [])"
| "svc_step lsDate dirname (now, EvComplete tid) s = (fst (shell_completeUpload tid now s), [])"
| "svc_step lsDate dirname (now, EvCancelUpload tid) s = (fst (shell_cancelUpload tid s), [])"
| "svc_step lsDate dirname (now, EvStream cid tid path client) s =
     (case shell_streamDownload cid tid path client now s of (s1, outs) \<Rightarrow> (s1, tagged (length (svcDownloads s)) outs))"
| "svc_step lsDate dirname (now, EvStarted k) s = of_download k s (sd_started k now s, [])"
| "svc_step lsDate dirname (now, EvRefused k message) s = of_download k s (sd_refused k message s)"
| "svc_step lsDate dirname (now, EvData k data) s = of_download k s (sd_data k data now s)"
| "svc_step lsDate dirname (now, EvEnd k) s = of_download k s (sd_end k now s)"
| "svc_step lsDate dirname (now, EvError k message) s = of_download k s (sd_error k message s)"
| "svc_step lsDate dirname (now, EvCancelDownload tid) s = (shell_cancelDownload tid s, [])"
| "svc_step lsDate dirname (now, EvCloseSession cid) s = (shell_closeSession cid s, [])"
| "svc_step lsDate dirname (now, EvCancelSession sid) s = (shell_cancelSessionTransfers sid s, [])"

fun svc_run :: "(string \<Rightarrow> string \<Rightarrow> string \<Rightarrow> string) \<Rightarrow> (string \<Rightarrow> string) \<Rightarrow> (int \<times> svc_event) list \<Rightarrow> shell_service \<Rightarrow>
    shell_service \<times> (nat \<times> shell_output) list" where
  "svc_run lsDate dirname [] s = (s, [])"
| "svc_run lsDate dirname (e # es) s =
     (let (s1, o1) = svc_step lsDate dirname e s; (s2, o2) = svc_run lsDate dirname es s1 in (s2, o1 @ o2))"

section \<open>Chunks of a download\<close>

definition chunk_of :: "shell_output \<Rightarrow> (nat \<times> bytes \<times> bool) option" where
  "chunk_of out = (case out of SoChunk i data isLast \<Rightarrow> Some (i, data, isLast) | _ \<Rightarrow> None)"

definition chunks :: "shell_output list \<Rightarrow> (nat \<times> bytes \<times> bool) list" where
  "chunks outs = List.map_filter chunk_of outs"

definition chunks_of :: "nat \<Rightarrow> (nat \<times> shell_output) list \<Rightarrow> (nat \<times> bytes \<times> bool) list" where
  "chunks_of k outs = chunks (map snd (filter (\<lambda>x. fst x = k) outs))"

abbreviation chunk_data :: "nat \<times> bytes \<times> bool \<Rightarrow> bytes" where "chunk_data c \<equiv> fst (snd c)"
abbreviation chunk_last :: "nat \<times> bytes \<times> bool \<Rightarrow> bool" where "chunk_last c \<equiv> snd (snd c)"

definition data_for :: "nat \<Rightarrow> int \<times> svc_event \<Rightarrow> bytes" where
  "data_for k e = (case snd e of EvData j data \<Rightarrow> if j = k then data else [] | _ \<Rightarrow> [])"

definition received_by :: "nat \<Rightarrow> (int \<times> svc_event) list \<Rightarrow> bytes" where
  "received_by k es = concat (map (data_for k) es)"

lemma out_chunks_simps [simp]:
  "chunks [] = []" "chunks (out # outs) = (case chunk_of out of None \<Rightarrow> chunks outs | Some c \<Rightarrow> c # chunks outs)"
  "chunks (a @ b) = chunks a @ chunks b"
  by (simp_all add: chunks_def List.map_filter_def split: option.split)

lemma chunks_of_simps [simp]: "chunks_of k [] = []" "chunks_of k (a @ b) = chunks_of k a @ chunks_of k b"
  "chunks_of k (tagged j outs) = (if j = k then chunks outs else [])"
  by (auto simp: chunks_of_def tagged_def filter_map o_def)

lemma chunk_of_simps [simp]: "chunk_of (SoChunk i data l) = Some (i, data, l)" "chunk_of (SoExec cmd) = None"
  "chunk_of (SoProgress p) = None" "chunk_of (SoComplete c) = None" "chunk_of (SoError e) = None"
  "chunk_of SoDestroy = None" "chunk_of SoResolve = None"
  by (simp_all add: chunk_of_def)

lemma emitChunk_spec:
  assumes "emitChunk now data isLast d m = (d1, m1, outs)"
  shows "chunks outs = [(sdChunkIndex d, data, isLast)]" "sdChunkIndex d1 = Suc (sdChunkIndex d)"
    "sdBuffer d1 = sdBuffer d" "sdCancelled d1 = sdCancelled d"
  using assms by (auto simp: emitChunk_def Let_def split: sum.splits if_splits)

lemma emit_full_spec:
  "0 < n \<Longrightarrow> emit_full now n d m = (d1, m1, outs) \<Longrightarrow>
     map fst (chunks outs) = [sdChunkIndex d..<sdChunkIndex d1] \<and> sdChunkIndex d \<le> sdChunkIndex d1
     \<and> list_all (\<lambda>c. length (chunk_data c) = n \<and> \<not> chunk_last c) (chunks outs)
     \<and> concat (map chunk_data (chunks outs)) @ sdBuffer d1 = sdBuffer d
     \<and> length (sdBuffer d1) < n \<and> sdCancelled d1 = sdCancelled d"
proof (induction now n d m arbitrary: d1 m1 outs rule: emit_full.induct)
  case (1 now n d m)
  show ?case
  proof (cases "length (sdBuffer d) < n")
    case True
    then show ?thesis using "1.prems"(2) by (auto simp: emit_full.simps)
  next
    case False
    obtain d' m' o1 where e: "emitChunk now (take n (sdBuffer d)) False (d\<lparr>sdBuffer := drop n (sdBuffer d)\<rparr>) m = (d', m', o1)"
      by (metis prod_cases3)
    obtain d2 m2 o2 where f: "emit_full now n d' m' = (d2, m2, o2)" by (metis prod_cases3)
    have eq: "d1 = d2" "outs = o1 @ o2"
      using "1.prems" False by (simp_all add: emit_full.simps [of now n d m] e f)
    note spec = emitChunk_spec [OF e]
    have "map fst (chunks o2) = [sdChunkIndex d'..<sdChunkIndex d2] \<and> sdChunkIndex d' \<le> sdChunkIndex d2
     \<and> list_all (\<lambda>c. length (chunk_data c) = n \<and> \<not> chunk_last c) (chunks o2)
     \<and> concat (map chunk_data (chunks o2)) @ sdBuffer d2 = sdBuffer d'
     \<and> length (sdBuffer d2) < n \<and> sdCancelled d2 = sdCancelled d'"
      using "1.IH" [OF _ e [symmetric] refl refl] "1.prems"(1) False f by simp
    then show ?thesis using spec False by (auto simp: eq upt_conv_Cons)
  qed
qed

section \<open>What other events leave alone\<close>

definition keeps_downloads :: "shell_service \<Rightarrow> shell_service \<Rightarrow> bool" where
  "keeps_downloads s s1 \<longleftrightarrow> svcDownloads s1 = svcDownloads s \<and> svcConfig s1 = svcConfig s"

lemma keeps_downloads_simps [simp]: "keeps_downloads s s"
  "keeps_downloads s (s1\<lparr>svcTransfers := m\<rparr>) = keeps_downloads s s1"
  "keeps_downloads s (s1\<lparr>svcUploads := u\<rparr>) = keeps_downloads s s1"
  "keeps_downloads s (s1\<lparr>svcOpening := p\<rparr>) = keeps_downloads s s1"
  "keeps_downloads s (s1\<lparr>svcWriting := w\<rparr>) = keeps_downloads s s1"
  "keeps_downloads s (s1\<lparr>svcStates := x\<rparr>) = keeps_downloads s s1"
  "keeps_downloads s (s1\<lparr>svcSessions := y\<rparr>) = keeps_downloads s s1"
  by (simp_all add: keeps_downloads_def)

lemma setup_keeps: "shell_setup cid sid path ck tid a s = (s1, calls, r) \<Longrightarrow> keeps_downloads s s1"
  using shell_setup_spec(4) by (simp add: keeps_downloads_def)

lemma op_keeps: "keeps_downloads s (fst (shell_method lsDate dirname cid sid op a now s))"
proof (cases op)
  case (OpUpload u)
  then show ?thesis
    by (auto simp: shell_startUpload_def Let_def split: prod.splits sum.splits if_splits dest!: setup_keeps)
next
  case (OpDownload d)
  then show ?thesis
    by (auto simp: shell_startDownload_def Let_def split: prod.splits sum.splits option.splits dest!: setup_keeps)
qed (auto simp: shell_list_def shell_stat_def shell_mkdir_def shell_delete_def Let_def
      split: prod.splits sum.splits option.splits dest!: setup_keeps)

lemma cleanup_keeps [simp]: "keeps_downloads s (fst (cleanupUpload tid s1)) = keeps_downloads s s1"
  by (simp add: cleanupUpload_def split: option.split)

lemma upload_keeps:
  "keeps_downloads s (fst (shell_upload_timeout j s))" "keeps_downloads s (fst (shell_upload_opened j r now s))"
  "keeps_downloads s (fst (shell_uploadChunk c now s))" "keeps_downloads s (fst (shell_chunk_written j e s))"
  "keeps_downloads s (fst (shell_completeUpload tid now s))" "keeps_downloads s (fst (shell_cancelUpload tid s))"
  by (auto simp: shell_upload_timeout_def shell_upload_opened_def shell_uploadChunk_def shell_chunk_written_def
      shell_completeUpload_def shell_cancelUpload_def Let_def case_prod_beta split: sum.split option.split prod.split)

lemma other_keeps:
  "keeps_downloads s (fst (sd_refused j message s))" "keeps_downloads s (fst (sd_error j message s))"
  "keeps_downloads s (shell_closeSession cid s)" "keeps_downloads s (shell_cancelSessionTransfers sid s)"
  by (simp_all add: sd_refused_def sd_error_def shell_closeSession_def shell_cancelSessionTransfers_def Let_def)

lemma no_chunks:
  "chunks (snd (sd_refused j message s)) = []" "chunks (snd (sd_error j message s)) = []"
  by (simp_all add: sd_refused_def sd_error_def Let_def)

text \<open>The state of download \<open>k\<close> that has emitted \<open>cs\<close> of the data \<open>bs\<close>.\<close>

definition stream_ok :: "nat \<Rightarrow> (nat \<times> bytes \<times> bool) list \<Rightarrow> bytes \<Rightarrow> nat \<Rightarrow> shell_service \<Rightarrow> bool" where
  "stream_ok n cs bs k s \<longleftrightarrow>
     k < length (svcDownloads s) \<and> nat (scChunkSize (svcConfig s)) = n \<and>
     (let d = svcDownloads s ! k
      in sdCancelled d \<or>
         map fst cs = [0..<sdChunkIndex d] \<and> list_all (\<lambda>c. length (chunk_data c) = n \<and> \<not> chunk_last c) cs
         \<and> concat (map chunk_data cs) @ sdBuffer d = bs \<and> length (sdBuffer d) < n)"

lemma stream_ok_keep: "stream_ok n cs bs k s \<Longrightarrow> keeps_downloads s s1 \<Longrightarrow> stream_ok n cs bs k s1"
  by (simp add: stream_ok_def keeps_downloads_def)

lemma upt_join: "a \<le> b \<Longrightarrow> [0..<a] @ [a..<b] = [0..<b]"
  by (metis le_add_diff_inverse upt_add_eq_append zero_le)

lemma stream_ok_data:
  assumes "0 < n" and ok: "stream_ok n cs bs k s" and "sd_data k data now s = (s1, outs)"
  shows "stream_ok n (cs @ chunks outs) (bs @ data) k s1"
proof (cases "sdCancelled (svcDownloads s ! k)")
  case True
  then show ?thesis using assms by (auto simp: sd_data_def stream_ok_def Let_def)
next
  case False
  define d where "d = svcDownloads s ! k"
  obtain d1 m o1 where e: "emit_full now n (d\<lparr>sdBuffer := sdBuffer d @ data\<rparr>) (svcTransfers s) = (d1, m, o1)"
    by (metis prod_cases3)
  have n: "nat (scChunkSize (svcConfig s)) = n" "k < length (svcDownloads s)" using ok by (simp_all add: stream_ok_def)
  have s1: "s1 = put_download k d1 (s\<lparr>svcTransfers := m\<rparr>)" "outs = o1"
    using assms(3) False e n by (simp_all add: sd_data_def Let_def d_def)
  have "map fst cs = [0..<sdChunkIndex d]" "list_all (\<lambda>c. length (chunk_data c) = n \<and> \<not> chunk_last c) cs"
    "concat (map chunk_data cs) @ sdBuffer d = bs"
    using ok False by (simp_all add: stream_ok_def d_def Let_def)
  moreover note emit_full_spec [OF assms(1) e]
  moreover from this have "[0..<sdChunkIndex d] @ [sdChunkIndex d..<sdChunkIndex d1] = [0..<sdChunkIndex d1]"
    using upt_join by simp
  ultimately show ?thesis
    using n by (auto simp: stream_ok_def s1 put_download_def Let_def)
qed

lemma stream_ok_put:
  "j \<noteq> k \<Longrightarrow> stream_ok n cs bs k (put_download j d s) = stream_ok n cs bs k s"
  by (simp add: stream_ok_def put_download_def)

lemma stream_ok_frame [simp]:
  "stream_ok n cs bs k (s\<lparr>svcTransfers := m\<rparr>) = stream_ok n cs bs k s"
  "stream_ok n cs bs k (s\<lparr>svcStates := x\<rparr>) = stream_ok n cs bs k s"
  by (simp_all add: stream_ok_def)

lemma nth_updated: "k < length xs \<Longrightarrow> xs[j := x] ! k = (if j = k then x else xs ! k)"
  by simp

lemma stream_ok_others:
  assumes "stream_ok n cs bs k s"
  shows "j \<noteq> k \<Longrightarrow> stream_ok n cs bs k (fst (sd_data j data now s))"
    and "j \<noteq> k \<Longrightarrow> stream_ok n cs bs k (fst (sd_end j now s))"
    and "stream_ok n cs bs k (sd_started j now s)"
    and "stream_ok n cs bs k (shell_cancelDownload tid s)"
    and "stream_ok n cs bs k (fst (shell_streamDownload cid tid path client now s))"
  using assms
  by (auto simp: sd_data_def sd_end_def stream_ok_put Let_def case_prod_beta)
    (auto simp: sd_started_def shell_cancelDownload_def shell_streamDownload_def stream_ok_def put_download_def Let_def
        nth_updated nth_append split: option.splits if_splits)

lemma stream_chunks_other: "k < length (svcDownloads s) \<Longrightarrow>
    shell_streamDownload cid tid path client now s = (s1, outs) \<Longrightarrow> chunks_of k (tagged (length (svcDownloads s)) outs) = []"
  by simp

lemma svc_step_stream:
  assumes n: "0 < n" and ok: "stream_ok n cs bs k s" and step: "svc_step lsDate dirname (now, e) s = (s1, outs)"
    and e: "e \<noteq> EvEnd k"
  shows "stream_ok n (cs @ chunks_of k outs) (bs @ data_for k (now, e)) k s1"
proof (cases e)
  case (EvOp cid sid op a)
  then show ?thesis using step stream_ok_keep [OF ok op_keeps] by (auto simp: data_for_def)
next
  case (EvUploadTimeout j)
  then show ?thesis using step ok stream_ok_keep [OF ok upload_keeps(1)] by (auto simp: data_for_def)
next
  case (EvUploadOpened j r)
  then show ?thesis using step ok stream_ok_keep [OF ok upload_keeps(2)] by (auto simp: data_for_def)
next
  case (EvChunk c)
  then show ?thesis using step stream_ok_keep [OF ok upload_keeps(3)] by (auto simp: data_for_def)
next
  case (EvWritten j r)
  then show ?thesis using step ok stream_ok_keep [OF ok upload_keeps(4)] by (auto simp: data_for_def)
next
  case (EvComplete tid)
  then show ?thesis using step stream_ok_keep [OF ok upload_keeps(5)] by (auto simp: data_for_def)
next
  case (EvCancelUpload tid)
  then show ?thesis using step stream_ok_keep [OF ok upload_keeps(6)] by (auto simp: data_for_def)
next
  case (EvStream cid tid path client)
  moreover have "k < length (svcDownloads s)" using ok by (simp add: stream_ok_def)
  ultimately show ?thesis
    using step stream_ok_others(5) [OF ok, of cid tid path client now] by (auto simp: data_for_def split: prod.splits)
next
  case (EvStarted j)
  then show ?thesis using step ok stream_ok_others(3) [OF ok] by (auto simp: data_for_def of_download_def split: if_splits)
next
  case (EvRefused j message)
  then show ?thesis using step ok stream_ok_keep [OF ok other_keeps(1)] no_chunks
    by (auto simp: data_for_def of_download_def split: if_splits)
next
  case (EvData j data)
  have k: "k < length (svcDownloads s)" using ok by (simp add: stream_ok_def)
  show ?thesis
  proof (cases "j = k")
    case True
    then show ?thesis using EvData step k stream_ok_data [OF n ok, of data now] by (auto simp: data_for_def of_download_def)
  next
    case False
    then show ?thesis using EvData step ok stream_ok_others(1) [OF ok False] by (auto simp: data_for_def of_download_def split: if_splits)
  qed
next
  case (EvEnd j)
  then show ?thesis using step e ok stream_ok_others(2) [OF ok] by (auto simp: data_for_def of_download_def split: if_splits)
next
  case (EvError j message)
  then show ?thesis using step ok stream_ok_keep [OF ok other_keeps(2)] no_chunks
    by (auto simp: data_for_def of_download_def split: if_splits)
next
  case (EvCancelDownload tid)
  then show ?thesis using step stream_ok_others(4) [OF ok] by (auto simp: data_for_def)
next
  case (EvCloseSession cid)
  then show ?thesis using step stream_ok_keep [OF ok other_keeps(3)] by (auto simp: data_for_def)
next
  case (EvCancelSession sid)
  then show ?thesis using step stream_ok_keep [OF ok other_keeps(4)] by (auto simp: data_for_def)
qed

lemma svc_run_stream:
  "0 < n \<Longrightarrow> stream_ok n cs bs k s \<Longrightarrow> svc_run lsDate dirname es s = (s', outs) \<Longrightarrow> EvEnd k \<notin> snd ` set es \<Longrightarrow>
     stream_ok n (cs @ chunks_of k outs) (bs @ received_by k es) k s'"
proof (induction es arbitrary: s cs bs outs)
  case Nil
  then show ?case by (simp add: received_by_def)
next
  case (Cons x es)
  obtain now e where x: "x = (now, e)" by (cases x)
  obtain s1 o1 where a: "svc_step lsDate dirname x s = (s1, o1)" by fastforce
  obtain o2 where b: "svc_run lsDate dirname es s1 = (s', o2)" and outs: "outs = o1 @ o2"
    using Cons.prems(3) a by (auto simp: Let_def split: prod.splits)
  have "stream_ok n (cs @ chunks_of k o1) (bs @ data_for k x) k s1"
    using svc_step_stream [OF Cons.prems(1,2) a [unfolded x]] Cons.prems(4) x by force
  from Cons.IH [OF Cons.prems(1) this b] Cons.prems(4) show ?case
    by (simp add: outs received_by_def)
qed

section \<open>Delivery\<close>

text \<open>C5: A download through the shell that is not cancelled hands over exactly the bytes of the command's output:
  when the output ends, after any other events of the service, its chunks are numbered from 0 on, all but the
  last have the configured size, the last is shorter and the only one marked as last, and their concatenation is
  the data that arrived.\<close>

theorem shell_download_delivers:
  assumes "map_get (svcSessions s0) cid \<noteq> None" and "0 < scChunkSize (svcConfig s0)"
    and "k = length (svcDownloads s0)"
    and "svc_run lsDate dirname ((t0, EvStream cid tid path True) # es) s0 = (s, outs)"
    and "EvEnd k \<notin> snd ` set es" and "\<not> sdCancelled (svcDownloads s ! k)"
    and "cs = chunks_of k (outs @ tagged k (snd (sd_end k t s)))"
  shows "concat (map chunk_data cs) = received_by k es \<and> map fst cs = [0..<length cs]
    \<and> list_all (\<lambda>c. int (length (chunk_data c)) = scChunkSize (svcConfig s0) \<and> \<not> chunk_last c) (butlast cs)
    \<and> cs \<noteq> [] \<and> int (length (chunk_data (last cs))) < scChunkSize (svcConfig s0) \<and> chunk_last (last cs)"
proof -
  define n where "n = nat (scChunkSize (svcConfig s0))"
  have n: "0 < n" "int n = scChunkSize (svcConfig s0)" using assms(2) by (simp_all add: n_def)
  obtain s1 o1 o2 where st: "svc_step lsDate dirname (t0, EvStream cid tid path True) s0 = (s1, o1)"
      and run: "svc_run lsDate dirname es s1 = (s, o2)" and outs: "outs = o1 @ o2"
    using assms(4) by (auto simp: Let_def split: prod.splits)
  have start: "stream_ok n [] [] k s1" "chunks_of k o1 = []"
    using st assms(1,3) n(1) by (auto simp: shell_streamDownload_def stream_ok_def n_def nth_append split: if_splits)
  have ok: "stream_ok n (chunks_of k o2) (received_by k es) k s"
    using svc_run_stream [OF n(1) start(1) run assms(5)] by simp
  define d where "d = svcDownloads s ! k"
  obtain d1 m o3 where e: "emitChunk t (sdBuffer d) True d (svcTransfers s) = (d1, m, o3)" by (metis prod_cases3)
  have "chunks (snd (sd_end k t s)) = chunks o3"
    using assms(6) e by (auto simp: sd_end_def d_def [symmetric] Let_def case_prod_beta split: sum.splits)
  then have cs: "cs = chunks_of k o2 @ [(sdChunkIndex d, sdBuffer d, True)]"
    using emitChunk_spec(1) [OF e] start(2) by (simp add: assms(7) outs)
  have inv: "map fst (chunks_of k o2) = [0..<sdChunkIndex d]"
    "list_all (\<lambda>c. length (chunk_data c) = n \<and> \<not> chunk_last c) (chunks_of k o2)"
    "concat (map chunk_data (chunks_of k o2)) @ sdBuffer d = received_by k es" "length (sdBuffer d) < n"
    using ok assms(6) by (simp_all add: stream_ok_def d_def Let_def)
  from arg_cong [OF inv(1), of length] have "length (chunks_of k o2) = sdChunkIndex d" by simp
  with inv n show ?thesis by (auto simp: cs list_all_iff)
qed

definition demo_shell_service :: shell_service where
  "demo_shell_service = shell_ensureSession ''c'' ''s'' (new_shell_service (demo_config\<lparr>scChunkSize := 2\<rparr>))"

definition demo_stream :: "shell_service \<times> (nat \<times> shell_output) list" where
  "demo_stream = svc_run (\<lambda>_ _ _. []) (\<lambda>p. p)
     [(0, EvStream ''c'' ''t'' ''/srv/f'' True), (1, EvData 0 [7]), (2, EvCloseSession ''c''), (3, EvData 0 [8, 9])] demo_shell_service"

definition demo_chunks :: "(nat \<times> bytes \<times> bool) list" where
  "demo_chunks = chunks_of 0 (snd demo_stream @ tagged 0 (snd (sd_end 0 4 (fst demo_stream))))"

theorem shell_download_delivers_witness:
  "concat (map chunk_data demo_chunks) = [7, 8, 9] \<and> demo_chunks = [(0, [7, 8], False), (1, [9], True)]"
proof
  have r: "svc_run (\<lambda>_ _ _. []) (\<lambda>p. p) ((0, EvStream ''c'' ''t'' ''/srv/f'' True) #
      [(1, EvData 0 [7]), (2, EvCloseSession ''c''), (3, EvData 0 [8, 9])]) demo_shell_service = (fst demo_stream, snd demo_stream)"
    by (simp add: demo_stream_def)
  have "map_get (svcSessions demo_shell_service) ''c'' \<noteq> None" "0 < scChunkSize (svcConfig demo_shell_service)"
    "0 = length (svcDownloads demo_shell_service)"
    by (simp_all add: demo_shell_service_def shell_ensureSession_def new_shell_service_def)
  moreover have "\<not> sdCancelled (svcDownloads (fst demo_stream) ! 0)" by code_simp
  moreover have "received_by 0 [(1, EvData 0 [7]), (2, EvCloseSession ''c''), (3, EvData 0 [8, 9])] = [7, 8, 9]"
    by (simp add: received_by_def data_for_def)
  ultimately show "concat (map chunk_data demo_chunks) = [7, 8, 9]"
    using shell_download_delivers [OF _ _ _ r _ _ demo_chunks_def] by simp
  show "demo_chunks = [(0, [7, 8], False), (1, [9], True)]" by code_simp
qed

section \<open>Corners\<close>

text \<open>A command that fails prints to the standard error only, and its output just ends: the client is handed an
  empty file and told that the download is complete.\<close>

lemma failed_cat_completes:
  "chunks (snd (sd_end 0 1 (fst (shell_streamDownload ''c'' ''t'' ''/srv/f'' True 0 demo_shell_service)))) = [(0, [], True)]"
  by code_simp

text \<open>The path of a download is that of the message: a leading \<open>~\<close> is quoted and not expanded.\<close>

lemma tilde_download_quoted:
  "map_get (svcSessions s) cid \<noteq> None \<Longrightarrow>
     snd (shell_streamDownload cid tid ''~/f'' True now s) = [SoExec (catFrom ''~/f'')] \<and> sh_words (catFrom ''~/f'') = Some [''cat'', ''~/f'']"
  by (simp add: shell_streamDownload_def command_words)

text \<open>The promise of a cancelled download is never resolved when its output ends.\<close>

lemma cancelled_never_resolves:
  "sdCancelled (svcDownloads s ! k) \<Longrightarrow> sd_end k now s = (s, [])"
  by (simp add: sd_end_def Let_def)

text \<open>A cancelled download hands over nothing more.\<close>

lemma cancelled_silent:
  "sdCancelled (svcDownloads s ! k) \<Longrightarrow>
     snd (sd_data k data now s) = [SoDestroy] \<and> snd (sd_error k message s) = [SoResolve]"
  by (simp add: sd_data_def sd_error_def Let_def)

text \<open>Cancelling the transfers of a session does not stop its downloads.\<close>

lemma session_cancel_keeps_streaming:
  "chunks (snd (sd_data 0 [1, 2] 1 (shell_cancelSessionTransfers ''s''
     (fst (shell_streamDownload ''c'' ''t'' ''/srv/f'' True 0 demo_shell_service))))) = [(0, [1, 2], False)]"
  by code_simp

text \<open>A look-up that times out counts as the absence of the file, which is then overwritten although the client
  did not ask for it.\<close>

lemma timeout_overwrites:
  "fst (snd (shell_startUpload \<lparr>usTransferId = ''t'', usSessionId = ''s'', usConnectionId = ''c'', usRemotePath = ''/srv/f'',
       usFileName = ''f'', usFileSize = 1, usOverwrite = None\<rparr> (demo_shell_answers\<lparr>saCommand := ExecEvents []\<rparr>) 0 demo_shell_service))
     = [ShExec (buildStatCommand ''/srv/f''), ShExec (catTo ''/srv/f'')]"
  by code_simp

end
