(* ===== verification/Theming.thy ===== *)
theory Theming
  imports Credentials
begin

text \<open>
  Terminal themes of the operator: names (\<open>services/theming/theme-name.ts\<close>), the validation of a theme
  (\<open>theme-validator.ts\<close>, \<open>theme-color-keys.ts\<close>) and the loading of a list of them (\<open>theme-loader.ts\<close>).  The
  normal form NFKC of a string, the parsing of a URL (its protocol and its normal text) and the text of a value in
  JSON are parameters.
\<close>

record theme_lib =
  tlNfkc :: "string \<Rightarrow> string"
  tlUrl :: "string \<Rightarrow> (string \<times> string) option"
  tlJson :: "jsval \<Rightarrow> string"

section \<open>Names\<close>

definition theme_name_ok :: "string \<Rightarrow> bool" where
  "theme_name_ok s \<longleftrightarrow> 1 \<le> length s \<and> length s \<le> 64
     \<and> list_all (\<lambda>c. is_word c \<or> c \<in> {CHR '' '', CHR ''.'', CHR ''-'', CHR ''('', CHR '')''}) s"

text \<open>Every run of white space becomes one space.\<close>

fun collapse_spaces :: "bool \<Rightarrow> string \<Rightarrow> string" where
  "collapse_spaces after_space [] = []"
| "collapse_spaces after_space (c # s) =
     (if is_space c then (if after_space then collapse_spaces True s else CHR '' '' # collapse_spaces True s)
      else c # collapse_spaces False s)"

definition canonical_form :: "theme_lib \<Rightarrow> string \<Rightarrow> string" where
  "canonical_form lib name = collapse_spaces False (trim (tlNfkc lib name))"

definition canonicalizeThemeName :: "theme_lib \<Rightarrow> string \<Rightarrow> string" where
  "canonicalizeThemeName lib name = to_lower (canonical_form lib name)"

definition RESERVED_NAMES :: "string list" where
  "RESERVED_NAMES = [''default'', ''custom'']"

definition isReservedThemeName :: "theme_lib \<Rightarrow> string \<Rightarrow> bool" where
  "isReservedThemeName lib name \<longleftrightarrow> canonicalizeThemeName lib name \<in> set RESERVED_NAMES"

section \<open>Themes\<close>

definition THEME_COLOR_KEYS :: "string list" where
  "THEME_COLOR_KEYS =
     [''background'', ''foreground'', ''cursor'', ''cursorAccent'', ''selectionBackground'', ''selectionForeground'',
      ''selectionInactiveBackground'', ''black'', ''red'', ''green'', ''yellow'', ''blue'', ''magenta'', ''cyan'', ''white'',
      ''brightBlack'', ''brightRed'', ''brightGreen'', ''brightYellow'', ''brightBlue'', ''brightMagenta'', ''brightCyan'',
      ''brightWhite'']"

definition is_hex :: "char \<Rightarrow> bool" where
  "is_hex c \<longleftrightarrow> is_digit c \<or> (97 \<le> code c \<and> code c \<le> 102) \<or> (65 \<le> code c \<and> code c \<le> 70)"

definition hex_color :: "string \<Rightarrow> bool" where
  "hex_color s \<longleftrightarrow> s \<noteq> [] \<and> hd s = CHR ''#'' \<and> length (tl s) \<in> {3, 6, 8} \<and> list_all is_hex (tl s)"

definition license_chars :: "string \<Rightarrow> bool" where
  "license_chars s \<longleftrightarrow> length s \<le> 256
     \<and> list_all (\<lambda>c. is_word c \<or> c \<in> {CHR '' '', CHR ''.'', CHR '','', CHR ''-'', CHR ''('', CHR '')'', CHR ''@'', CHR ''/'',
                                CHR ''+'', CHR '':''}) s"

definition MAX_THEME_BYTES :: nat where "MAX_THEME_BYTES = 4 * 1024"
definition MAX_SOURCE_LENGTH :: nat where "MAX_SOURCE_LENGTH = 256"

definition FORBIDDEN_PROTOTYPE_KEYS :: "string list" where
  "FORBIDDEN_PROTOTYPE_KEYS = [''__proto__'', ''constructor'', ''prototype'']"

definition script_bait :: "string \<Rightarrow> bool" where
  "script_bait s \<longleftrightarrow> str_includes (to_lower s) ''<script'' \<or> str_includes (to_lower s) ''</script''
     \<or> str_includes s ''<!--''"

datatype theme_context = BuiltinTheme | AdditionalTheme | CustomTheme

record theme_fault =
  teField :: string
  teReason :: string

definition theme_error :: "string \<Rightarrow> string \<Rightarrow> theme_fault" where
  "theme_error place reason = \<lparr>teField = place, teReason = reason\<rparr>"

record theme =
  thName :: string
  thColors :: "(string, string) jsmap"
  thLicense :: "string option"
  thSource :: "string option"

definition collectForbiddenEntryKeyErrors :: "jsval \<Rightarrow> theme_fault list" where
  "collectForbiddenEntryKeyErrors input =
     map (\<lambda>key. theme_error key ''forbidden prototype-pollution key on entry'')
       (filter (has_key input) FORBIDDEN_PROTOTYPE_KEYS)"

definition collectColorKeyErrors :: "jsval \<Rightarrow> string \<Rightarrow> theme_fault list" where
  "collectColorKeyErrors input pre =
     List.map_filter (\<lambda>key.
       if key \<in> set FORBIDDEN_PROTOTYPE_KEYS then Some (theme_error (pre @ ''.'' @ key) ''forbidden prototype-pollution key'')
       else if key \<notin> set THEME_COLOR_KEYS then Some (theme_error (pre @ ''.'' @ key) ''unknown color key'')
       else None) (map_keys (entries_of input))"

definition color_at :: "jsval \<Rightarrow> string \<Rightarrow> string option" where
  "color_at input key = (case jget input key of JStr s \<Rightarrow> if hex_color s then Some s else None | _ \<Rightarrow> None)"

definition rebuildColors :: "jsval \<Rightarrow> string \<Rightarrow> (string, string) jsmap \<times> theme_fault list" where
  "rebuildColors input pre =
     (if \<not> isRecord input then ([], [theme_error pre ''colors must be an object''])
      else let own = filter (has_key input) THEME_COLOR_KEYS
           in (List.map_filter (\<lambda>key. map_option (Pair key) (color_at input key)) own,
               collectColorKeyErrors input pre
               @ map (\<lambda>key. theme_error (pre @ ''.'' @ key) ''must be #rgb, #rrggbb, or #rrggbbaa hex string'')
                   (filter (\<lambda>key. color_at input key = None) own)))"

definition collidesWithBuiltin :: "theme_lib \<Rightarrow> string \<Rightarrow> string list \<Rightarrow> bool" where
  "collidesWithBuiltin lib name builtinNames \<longleftrightarrow>
     list_ex (\<lambda>b. canonicalizeThemeName lib b = canonicalizeThemeName lib name) builtinNames"

definition collectAdditionalNameErrors :: "theme_lib \<Rightarrow> string \<Rightarrow> string list \<Rightarrow> theme_fault list" where
  "collectAdditionalNameErrors lib name builtinNames =
     (if isReservedThemeName lib name then [theme_error ''name'' ''name is reserved'']
      else if collidesWithBuiltin lib name builtinNames
      then [theme_error ''name'' ''name collides with built-in (case-insensitive)'']
      else [])"

definition validateName :: "theme_lib \<Rightarrow> jsval \<Rightarrow> theme_context \<Rightarrow> string list \<Rightarrow> string \<times> theme_fault list" where
  "validateName lib rawName ctxt builtinNames =
     (case rawName of
        JStr s \<Rightarrow>
          let name = canonical_form lib s
          in if \<not> theme_name_ok name then (name, [theme_error ''name'' ''name fails name regex''])
             else if ctxt \<noteq> AdditionalTheme then (name, [])
             else (name, collectAdditionalNameErrors lib name builtinNames)
      | _ \<Rightarrow> ([], [theme_error ''name'' ''name must be a string'']))"

definition validateLicense :: "jsval \<Rightarrow> string option \<times> theme_fault list" where
  "validateLicense input =
     (if \<not> has_key input ''license'' then (None, [])
      else case jget input ''license'' of
        JStr s \<Rightarrow>
          if \<not> license_chars s then (None, [theme_error ''license'' ''license contains disallowed characters''])
          else if script_bait s then (None, [theme_error ''license'' ''license contains script bait''])
          else (Some s, [])
      | _ \<Rightarrow> (None, [theme_error ''license'' ''license must be a string'']))"

definition validateSourceUrl :: "theme_lib \<Rightarrow> string \<Rightarrow> string option \<times> theme_fault list" where
  "validateSourceUrl lib source =
     (case tlUrl lib source of
        None \<Rightarrow> (None, [theme_error ''source'' ''source must be a valid URL''])
      | Some (protocol, href) \<Rightarrow>
          if protocol = ''https:'' then (Some href, [])
          else (None, [theme_error ''source'' ''source must be https'']))"

definition validateSource :: "theme_lib \<Rightarrow> jsval \<Rightarrow> string option \<times> theme_fault list" where
  "validateSource lib input =
     (if \<not> has_key input ''source'' then (None, [])
      else case jget input ''source'' of
        JStr s \<Rightarrow>
          if length s > MAX_SOURCE_LENGTH then (None, [theme_error ''source'' ''source exceeds 256 chars''])
          else if script_bait s then (None, [theme_error ''source'' ''source contains script bait''])
          else validateSourceUrl lib s
      | _ \<Rightarrow> (None, [theme_error ''source'' ''source must be a string'']))"

definition theme_value :: "theme \<Rightarrow> jsval" where
  "theme_value t =
     JObj ([(''name'', JStr (thName t)), (''colors'', JObj (map (\<lambda>(k, c). (k, JStr c)) (thColors t)))]
       @ (case thLicense t of None \<Rightarrow> [] | Some l \<Rightarrow> [(''license'', JStr l)])
       @ (case thSource t of None \<Rightarrow> [] | Some s \<Rightarrow> [(''source'', JStr s)]))"

definition validateTheme :: "theme_lib \<Rightarrow> jsval \<Rightarrow> theme_context \<Rightarrow> string list \<Rightarrow> (theme_fault list, theme) result" where
  "validateTheme lib input ctxt builtinNames =
     (if \<not> isRecord input then err [theme_error [] ''must be an object'']
      else let name = validateName lib (jget input ''name'') ctxt builtinNames;
               colors = rebuildColors (jget input ''colors'') ''colors'';
               license = validateLicense input;
               source = validateSource lib input;
               errors = collectForbiddenEntryKeyErrors input @ snd name @ snd colors @ snd license @ snd source;
               safe = \<lparr>thName = fst name, thColors = fst colors, thLicense = fst license, thSource = fst source\<rparr>
           in if errors \<noteq> [] then err errors
              else if length (tlJson lib (theme_value safe)) > MAX_THEME_BYTES
              then err [theme_error [] ''serialized theme exceeds 4 KiB'']
              else ok safe)"

section \<open>Additional themes\<close>

record theme_warning =
  twOrigin :: string
  twField :: string
  twReason :: string

definition entry_place :: "nat \<Rightarrow> string \<Rightarrow> string" where
  "entry_place index place = ''['' @ show_nat index @ '']'' @ (if place = [] then [] else ''.'' @ place)"

fun load_entries :: "theme_lib \<Rightarrow> string \<Rightarrow> string list \<Rightarrow> nat \<Rightarrow> jsval list \<Rightarrow> theme list \<Rightarrow> theme_warning list \<Rightarrow>
    theme list \<times> theme_warning list" where
  "load_entries lib origin builtinNames index [] valid warnings = (valid, warnings)"
| "load_entries lib origin builtinNames index (entry # entries) valid warnings =
     (case validateTheme lib entry AdditionalTheme builtinNames of
        Inr t \<Rightarrow>
          if list_ex (\<lambda>v. to_lower (thName v) = to_lower (thName t)) valid
          then load_entries lib origin builtinNames (index + 1) entries valid
                 (warnings @ [\<lparr>twOrigin = origin, twField = entry_place index ''name'',
                               twReason = ''duplicate name within additionalThemes''\<rparr>])
          else load_entries lib origin builtinNames (index + 1) entries (valid @ [t]) warnings
      | Inl errors \<Rightarrow>
          load_entries lib origin builtinNames (index + 1) entries valid
            (warnings @ map (\<lambda>e. \<lparr>twOrigin = origin, twField = entry_place index (teField e), twReason = teReason e\<rparr>) errors))"

definition loadAdditionalThemes :: "theme_lib \<Rightarrow> jsval list \<Rightarrow> string \<Rightarrow> string list \<Rightarrow> theme list \<times> theme_warning list" where
  "loadAdditionalThemes lib raw origin builtinNames = load_entries lib origin builtinNames 0 raw [] []"

section \<open>Properties\<close>

text \<open>What an additional theme that was accepted looks like.\<close>

definition theme_safe :: "theme_lib \<Rightarrow> string list \<Rightarrow> theme \<Rightarrow> bool" where
  "theme_safe lib builtinNames t \<longleftrightarrow>
     theme_name_ok (thName t) \<and> \<not> isReservedThemeName lib (thName t) \<and> \<not> collidesWithBuiltin lib (thName t) builtinNames
     \<and> list_all (\<lambda>(k, c). k \<in> set THEME_COLOR_KEYS \<and> hex_color c) (thColors t)
     \<and> (case thLicense t of None \<Rightarrow> True | Some l \<Rightarrow> license_chars l \<and> \<not> script_bait l)
     \<and> length (tlJson lib (theme_value t)) \<le> MAX_THEME_BYTES"

lemma rebuilt_colors_ok: "list_all (\<lambda>(k, c). k \<in> set THEME_COLOR_KEYS \<and> hex_color c) (fst (rebuildColors input pre))"
  by (auto simp: rebuildColors_def Let_def list_all_iff set_map_filter color_at_def split: jsval.splits if_splits)

lemma validated_license_ok:
  "case fst (validateLicense input) of None \<Rightarrow> True | Some l \<Rightarrow> license_chars l \<and> \<not> script_bait l"
  by (auto simp: validateLicense_def split: jsval.split)

lemma validated_name_ok:
  assumes "validateName lib v AdditionalTheme builtinNames = (name, [])"
  shows "theme_name_ok name \<and> \<not> isReservedThemeName lib name \<and> \<not> collidesWithBuiltin lib name builtinNames"
  using assms
  by (cases v) (auto simp: validateName_def collectAdditionalNameErrors_def Let_def split: if_splits)

lemma validated_theme_safe:
  assumes "validateTheme lib input AdditionalTheme builtinNames = ok t"
  shows "theme_safe lib builtinNames t"
proof -
  let ?name = "validateName lib (jget input ''name'') AdditionalTheme builtinNames"
  have "?name = (thName t, [])" and t: "thColors t = fst (rebuildColors (jget input ''colors'') ''colors'')"
    "thLicense t = fst (validateLicense input)" "length (tlJson lib (theme_value t)) \<le> MAX_THEME_BYTES"
    using assms by (auto simp: validateTheme_def Let_def prod_eq_iff split: if_splits)
  from validated_name_ok [OF this(1)] show ?thesis
    using rebuilt_colors_ok validated_license_ok by (simp add: theme_safe_def t del: list_all_iff)
qed

lemma load_entries_safe:
  assumes "list_all (theme_safe lib builtinNames) valid" "distinct (map (\<lambda>t. to_lower (thName t)) valid)"
  shows "list_all (theme_safe lib builtinNames) (fst (load_entries lib origin builtinNames i entries valid ws))
     \<and> distinct (map (\<lambda>t. to_lower (thName t)) (fst (load_entries lib origin builtinNames i entries valid ws)))"
  using assms
proof (induction entries arbitrary: i valid ws)
  case (Cons e es)
  show ?case
  proof (cases "validateTheme lib e AdditionalTheme builtinNames")
    case (Inr t)
    show ?thesis
    proof (cases "list_ex (\<lambda>v. to_lower (thName v) = to_lower (thName t)) valid")
      case False
      moreover have "list_all (theme_safe lib builtinNames) (valid @ [t])"
        using Cons.prems(1) validated_theme_safe [OF Inr] by simp
      moreover have "distinct (map (\<lambda>t. to_lower (thName t)) (valid @ [t]))"
        using Cons.prems(2) False by (auto simp: list_ex_iff)
      ultimately show ?thesis using Cons.IH [of "valid @ [t]"] Inr by simp
    qed (use Cons.IH [OF Cons.prems] Inr in simp)
  qed (use Cons.IH [OF Cons.prems] in simp)
qed simp

text \<open>C37: Whatever list the operator gives, every additional theme that is loaded has a short name of allowed
  characters, neither reserved nor that of a built-in theme, only known colour names with hexadecimal values, a licence
  without markup and at most 4 KiB of JSON, and no two of them have the same name up to case.\<close>

theorem additional_themes_safe:
  "list_all (theme_safe lib builtinNames) (fst (loadAdditionalThemes lib raw origin builtinNames))
   \<and> distinct (map (\<lambda>t. to_lower (thName t)) (fst (loadAdditionalThemes lib raw origin builtinNames)))"
  using load_entries_safe [of lib builtinNames "[]"] by (simp add: loadAdditionalThemes_def)

text \<open>A theme that is rejected says why, and each entry is loaded or reported.\<close>

lemma rejected_theme_explained: "validateTheme lib input ctxt builtinNames = err errors \<Longrightarrow> errors \<noteq> []"
  by (auto simp: validateTheme_def Let_def split: if_splits)

lemma load_entries_account:
  "length (fst (load_entries lib origin builtinNames i entries valid ws)) + length (snd (load_entries lib origin builtinNames i entries valid ws))
     \<ge> length entries + length valid + length ws"
proof (induction entries arbitrary: i valid ws)
  case (Cons e es)
  show ?case
  proof (cases "validateTheme lib e AdditionalTheme builtinNames")
    case (Inl errors)
    then have "errors \<noteq> []" by (rule rejected_theme_explained)
    then have "length errors \<ge> 1" by (cases errors) auto
    moreover let ?ws = "ws @ map (\<lambda>e. \<lparr>twOrigin = origin, twField = entry_place i (teField e), twReason = teReason e\<rparr>) errors"
    have "length es + length valid + length ?ws \<le>
        length (fst (load_entries lib origin builtinNames (i + 1) es valid ?ws))
        + length (snd (load_entries lib origin builtinNames (i + 1) es valid ?ws))"
      by (rule Cons.IH)
    ultimately show ?thesis using Inl by simp
  next
    case (Inr t)
    show ?thesis
      using Cons.IH [where valid = valid and i = "i + 1" and ws = "ws @ [\<lparr>twOrigin = origin, twField = entry_place i ''name'',
                               twReason = ''duplicate name within additionalThemes''\<rparr>]"]
        Cons.IH [where valid = "valid @ [t]" and i = "i + 1" and ws = ws] Inr
      by simp
  qed
qed simp

end
