(* ===== verification/Web_Routes.thy ===== *)
theory Web_Routes
  imports Request_Parameters
begin

text \<open>
  The pages and their sessions: the routes of \<open>routes/routes-v2.ts\<close> and \<open>routes/telnet-routes.ts\<close> with the
  handlers of \<open>routes/handlers/\<close>, behind the middleware of \<open>middleware/\<close> for basic authentication, single sign-on
  and request forgery, and the configuration that \<open>connectionHandler.ts\<close> puts into the page.  A request names
  its route (the matching of paths is Express's); the package \<open>basic-auth\<close> gives the credentials of its header.  A
  reply is a status, headers and a body; the page is represented by the configuration injected into it, and
  reading its template is left out.  The web session is explicit state.
\<close>

section \<open>Configuration, requests and replies\<close>

record web_config =
  wcUserName :: "string option"
  wcUserPassword :: "string option"
  wcUserPrivateKey :: "string option"
  wcUserPassphrase :: "string option"
  wcSshHost :: "string option"
  wcSshPort :: jsnum
  wcAllowed :: "auth_token list"
  wcHeaderText :: "string option"
  wcHeaderBackground :: "string option"
  wcTransports :: "string list"
  wcShiftEnter :: bool
  wcSsoEnabled :: bool
  wcCsrfProtection :: bool
  wcTrustedProxies :: "string list"
  wcTelnetPort :: "jsnum option"
  wcTelnetTerm :: "string option"
  wcHostKeyEnabled :: bool
  wcClientStore :: bool
  wcUnknownKeyAction :: string

datatype web_route = GetRoot | GetConfig | GetHostDefault | GetHost string | PostRoot | PostHost string
  | GetClearCredentials | GetForceReconnect | GetReauth
  | TelnetRoot | TelnetConfig | TelnetHost string | TelnetPostRoot | TelnetPostHost string

record web_request =
  wrRoute :: web_route
  wrPath :: string
  wrProtocol :: string
  wrHostName :: string
  wrQuery :: jsval
  wrBody :: jsval
  wrHeaders :: jsval
  wrBasicAuth :: "(string \<times> string) option"
  wrIp :: "string option"
  wrRemoteAddress :: "string option"

datatype reply_body = PageBody "(string, jsval) jsmap" "string option" | JsonBody jsval | TextBody string
  | RedirectBody string | EmptyBody

record http_reply =
  hrStatus :: nat
  hrHeaders :: "(string, string) jsmap"
  hrBody :: reply_body

definition HTTP_OK :: nat where "HTTP_OK = 200"
definition HTTP_UNAUTHORIZED :: nat where "HTTP_UNAUTHORIZED = 401"
definition HTTP_FORBIDDEN :: nat where "HTTP_FORBIDDEN = 403"
definition HTTP_INTERNAL_SERVER_ERROR :: nat where "HTTP_INTERNAL_SERVER_ERROR = 500"
definition HTTP_BAD_GATEWAY :: nat where "HTTP_BAD_GATEWAY = 502"
definition AUTHENTICATE :: string where "AUTHENTICATE = ''WWW-Authenticate''"
definition REALM :: string where "REALM = ''Basic realm=\"WebSSH2\"''"

definition method_text :: "auth_token \<Rightarrow> string" where
  "method_text t = (case t of PasswordToken \<Rightarrow> ''password'' | PublickeyToken \<Rightarrow> ''publickey''
     | KeyboardInteractiveToken \<Rightarrow> ''keyboard-interactive'')"

text \<open>\<open>Object.assign\<close> and the spread of several objects into a new one.\<close>

definition object_assign :: "(string, jsval) jsmap \<Rightarrow> (string, jsval) jsmap \<Rightarrow> (string, jsval) jsmap" where
  "object_assign updates m = fold (\<lambda>(k, v). map_set k v) updates m"

definition opt_text :: "string option \<Rightarrow> jsval" where
  "opt_text o' = (case o' of None \<Rightarrow> JNull | Some s \<Rightarrow> JStr s)"

definition filled :: "string option \<Rightarrow> bool" where
  "filled o' \<longleftrightarrow> o' \<noteq> None \<and> o' \<noteq> Some []"

section \<open>Basic authentication\<close>

record basic_credentials =
  bcUsername :: string
  bcPassword :: "string option"
  bcPrivateKey :: "string option"
  bcPassphrase :: "string option"

datatype credential_source = FromConfig | FromBasicAuth

definition hasConfigCredentials :: "web_config \<Rightarrow> bool" where
  "hasConfigCredentials config \<longleftrightarrow> filled (wcUserName config)
     \<and> (filled (wcUserPassword config) \<or> filled (wcUserPrivateKey config))"

definition keep_filled :: "string option \<Rightarrow> string option" where
  "keep_filled o' = (if filled o' then o' else None)"

definition extractConfigCredentials :: "web_config \<Rightarrow> basic_credentials option" where
  "extractConfigCredentials config =
     (if \<not> hasConfigCredentials config then None
      else Some \<lparr>bcUsername = (case wcUserName config of Some n \<Rightarrow> n | None \<Rightarrow> []),
                 bcPassword = keep_filled (wcUserPassword config),
                 bcPrivateKey = keep_filled (wcUserPrivateKey config),
                 bcPassphrase = keep_filled (wcUserPassphrase config)\<rparr>)"

definition processBasicAuthCredentials :: "validator_lib \<Rightarrow> string \<times> string \<Rightarrow> basic_credentials" where
  "processBasicAuthCredentials lib credentials =
     \<lparr>bcUsername = vdEscape lib (fst credentials), bcPassword = Some (snd credentials), bcPrivateKey = None,
      bcPassphrase = None\<rparr>"

definition processAuthentication :: "validator_lib \<Rightarrow> web_config \<Rightarrow> (string \<times> string) option \<Rightarrow>
    (nat \<times> string, basic_credentials \<times> credential_source) result" where
  "processAuthentication lib config basicAuth =
     (case basicAuth of
        Some c \<Rightarrow> ok (processBasicAuthCredentials lib c, FromBasicAuth)
      | None \<Rightarrow>
          (case extractConfigCredentials config of
             Some c \<Rightarrow> ok (c, FromConfig)
           | None \<Rightarrow> err (401, ''Authentication required'')))"

definition createSessionData :: "basic_credentials \<Rightarrow> web_config \<Rightarrow> (string, jsval) jsmap" where
  "createSessionData c config =
     [(''sshCredentials'',
       JObj ([(''username'', JStr (bcUsername c)), (''host'', opt_text (wcSshHost config)), (''port'', JNum (wcSshPort config))]
         @ (if filled (bcPassword c) then [(''password'', opt_text (bcPassword c))] else [])
         @ (if filled (bcPrivateKey c) then [(''privateKey'', opt_text (bcPrivateKey c))] else [])
         @ (if filled (bcPassphrase c) then [(''passphrase'', opt_text (bcPassphrase c))] else []))),
      (''usedBasicAuth'', JBool True)]"

text \<open>\<open>Inl\<close> is the reply that ends the request, \<open>Inr\<close> the session with which it goes on.\<close>

definition auth_middleware :: "validator_lib \<Rightarrow> web_config \<Rightarrow> web_request \<Rightarrow> web_session \<Rightarrow> (http_reply, web_session) result" where
  "auth_middleware lib config req session =
     (case processAuthentication lib config (wrBasicAuth req) of
        Inl (status, message) \<Rightarrow>
          err \<lparr>hrStatus = status, hrHeaders = [(AUTHENTICATE, REALM)], hrBody = TextBody message\<rparr>
      | Inr (c, source) \<Rightarrow>
          if web_get session ''authFailed'' = JBool True
          then ok (map_set ''sshCredentials'' JUndefined
                     (map_set ''usedBasicAuth'' (JBool False) (map_set ''authFailed'' JUndefined session)))
          else ok (object_assign (createSessionData c config) session))"

section \<open>Single sign-on and request forgery\<close>

definition is_post :: "web_request \<Rightarrow> bool" where
  "is_post req = (case wrRoute req of PostRoot \<Rightarrow> True | PostHost _ \<Rightarrow> True | TelnetPostRoot \<Rightarrow> True
     | TelnetPostHost _ \<Rightarrow> True | _ \<Rightarrow> False)"

definition containsSsoHeaders :: "web_request \<Rightarrow> bool" where
  "containsSsoHeaders req \<longleftrightarrow> \<not> nullish (jget (wrHeaders req) ''x-apm-username'') \<and> \<not> nullish (jget (wrHeaders req) ''x-apm-password'')"

definition hasCredentialsInBody :: "web_request \<Rightarrow> bool" where
  "hasCredentialsInBody req \<longleftrightarrow> isNonEmptyString (jget (wrBody req) ''username'') \<and> isNonEmptyString (jget (wrBody req) ''password'')"

definition shouldApplyDefaults :: "web_config \<Rightarrow> bool" where
  "shouldApplyDefaults config \<longleftrightarrow> wcSsoEnabled config \<and> filled (wcUserName config) \<and> filled (wcUserPassword config)"

text \<open>A body that is no record is replaced by a new one.\<close>

definition applyDefaultCredentials :: "web_request \<Rightarrow> web_config \<Rightarrow> web_request" where
  "applyDefaultCredentials req config =
     (let body = (if isRecord (wrBody req) then entries_of (wrBody req) else []);
          named = (if isNonEmptyString (jget (JObj body) ''username'') then body
                   else map_set ''username'' (opt_text (wcUserName config)) body);
          complete = (if isNonEmptyString (jget (JObj body) ''password'') then named
                      else map_set ''password'' (opt_text (wcUserPassword config)) named)
      in req\<lparr>wrBody := JObj complete\<rparr>)"

definition sso_middleware :: "web_config \<Rightarrow> web_request \<Rightarrow> web_request" where
  "sso_middleware config req =
     (if \<not> is_post req then req
      else if containsSsoHeaders req \<or> hasCredentialsInBody req then req
      else if shouldApplyDefaults config then applyDefaultCredentials req config
      else req)"

definition getClientIp :: "web_request \<Rightarrow> string option" where
  "getClientIp req = (if filled (wrIp req) then wrIp req else wrRemoteAddress req)"

definition isTrustedProxy :: "web_request \<Rightarrow> string list \<Rightarrow> bool" where
  "isTrustedProxy req trustedProxies =
     (if trustedProxies = [] then False
      else case getClientIp req of None \<Rightarrow> False | Some ip \<Rightarrow> ip \<in> set trustedProxies)"

definition hasSsoHeaders :: "web_request \<Rightarrow> bool" where
  "hasSsoHeaders req \<longleftrightarrow> \<not> nullish (jget (wrHeaders req) ''x-apm-username'') \<or> \<not> nullish (jget (wrHeaders req) ''x-apm-session'')"

definition extractRequestToken :: "web_request \<Rightarrow> jsval" where
  "extractRequestToken req =
     (let bodyToken = (if isRecord (wrBody req) then jget (wrBody req) ''_csrf'' else JUndefined)
      in if isNonEmptyString bodyToken then bodyToken
         else case jget (wrHeaders req) ''x-csrf-token'' of
                JStr s \<Rightarrow> JStr s
              | JArr (x # xs) \<Rightarrow> x
              | _ \<Rightarrow> JUndefined)"

definition isValidCsrfToken :: "web_request \<Rightarrow> web_session \<Rightarrow> bool" where
  "isValidCsrfToken req session =
     (let sessionToken = web_get session ''csrfToken''
      in if sessionToken = JUndefined then False else extractRequestToken req = sessionToken)"

definition csrf_refuses :: "web_config \<Rightarrow> web_request \<Rightarrow> web_session \<Rightarrow> bool" where
  "csrf_refuses config req session =
     (if \<not> wcCsrfProtection config then False
      else if isTrustedProxy req (wcTrustedProxies config) then False
      else if hasSsoHeaders req then False
      else is_post req \<and> \<not> isValidCsrfToken req session)"

definition csrf_reply :: http_reply where
  "csrf_reply = \<lparr>hrStatus = HTTP_FORBIDDEN, hrHeaders = [], hrBody = TextBody ''CSRF token validation failed''\<rparr>"

section \<open>Handlers\<close>

record ssh_credentials =
  scUsername :: string
  scPassword :: jsval
  scPrivateKey :: jsval
  scPassphrase :: jsval

record connection_params =
  cpHost :: string
  cpPort :: jsnum
  cpTerm :: "string option"

definition validateSshRouteCredentials :: "jsval \<Rightarrow> (string, ssh_credentials) result" where
  "validateSshRouteCredentials credentials =
     (if nullish credentials \<or> \<not> is_object credentials then err ''Missing SSH credentials in session''
      else case jget credentials ''username'' of
        JStr u \<Rightarrow>
          if u = [] then err ''Invalid or missing username''
          else if \<not> isNonEmptyString (jget credentials ''password'') \<and> \<not> isNonEmptyString (jget credentials ''privateKey'')
          then err ''Either password or private key required''
          else ok \<lparr>scUsername = u, scPassword = jget credentials ''password'',
                   scPrivateKey = jget credentials ''privateKey'', scPassphrase = jget credentials ''passphrase''\<rparr>
      | _ \<Rightarrow> err ''Invalid or missing username'')"

text \<open>The port is a value: a number, a string or absent.\<close>

definition validateConnectionParameters :: "string option \<Rightarrow> jsval \<Rightarrow> string option \<Rightarrow> web_config \<Rightarrow>
    (string, connection_params) result" where
  "validateConnectionParameters hostParam portParam termParam config =
     (let host = (case hostParam of Some h \<Rightarrow> Some h | None \<Rightarrow> wcSshHost config)
      in if \<not> filled host then err ''Missing required field: host''
         else case portParam of
           JNum p \<Rightarrow> ok \<lparr>cpHost = the host, cpPort = p, cpTerm = termParam\<rparr>
         | JStr s \<Rightarrow>
             let port = parse_number s
             in if port = NaN \<or> \<not> num_greater port 0 \<or> num_greater port 65535 then err (''Invalid port: '' @ s)
                else ok \<lparr>cpHost = the host, cpPort = port, cpTerm = termParam\<rparr>
         | _ \<Rightarrow> ok \<lparr>cpHost = the host, cpPort = wcSshPort config, cpTerm = termParam\<rparr>)"

definition toFilledString :: "jsval \<Rightarrow> string option" where
  "toFilledString v = (case v of JStr s \<Rightarrow> if s = [] then None else Some s | _ \<Rightarrow> None)"

fun firstDefinedString :: "jsval list \<Rightarrow> string option" where
  "firstDefinedString [] = None"
| "firstDefinedString (c # cs) = (case toFilledString c of Some s \<Rightarrow> Some s | None \<Rightarrow> firstDefinedString cs)"

fun firstDefinedPortCandidate :: "jsval list \<Rightarrow> jsval" where
  "firstDefinedPortCandidate [] = JUndefined"
| "firstDefinedPortCandidate (c # cs) =
     (if nullish c then firstDefinedPortCandidate cs
      else case c of
             JNum n \<Rightarrow> JNum n
           | JStr s \<Rightarrow> if s \<noteq> [] then JStr s else firstDefinedPortCandidate cs
           | _ \<Rightarrow> firstDefinedPortCandidate cs)"

definition buildPostConnection :: "jsval \<Rightarrow> jsval \<Rightarrow> web_config \<Rightarrow> (string, connection_params) result" where
  "buildPostConnection body query config =
     validateConnectionParameters
       (firstDefinedString [jget body ''host'', jget query ''host'', jget query ''hostname''])
       (firstDefinedPortCandidate [jget body ''port'', jget query ''port''])
       (firstDefinedString [jget body ''sshterm'', jget query ''sshterm'']) config"

definition extractPostLogin :: "jsval \<Rightarrow> (string, ssh_credentials) result" where
  "extractPostLogin body =
     (case (toFilledString (jget body ''username''), toFilledString (jget body ''password'')) of
        (Some u, Some p) \<Rightarrow> ok \<lparr>scUsername = u, scPassword = JStr p, scPrivateKey = JUndefined, scPassphrase = JUndefined\<rparr>
      | _ \<Rightarrow> err ''Missing required fields: username and password'')"

definition processPostAuthRequest :: "jsval \<Rightarrow> jsval \<Rightarrow> web_config \<Rightarrow> (string, ssh_credentials \<times> connection_params) result" where
  "processPostAuthRequest body query config =
     (case extractPostLogin body of
        Inl e \<Rightarrow> err e
      | Inr credentials \<Rightarrow>
          (case buildPostConnection body query config of
             Inl e \<Rightarrow> err e
           | Inr connection \<Rightarrow> ok (credentials, connection)))"

text \<open>The credentials of a posted form have no other members than the user name and the password.\<close>

definition createAuthSessionUpdates :: "ssh_credentials \<Rightarrow> connection_params \<Rightarrow> (string, jsval) jsmap" where
  "createAuthSessionUpdates credentials connection =
     [(''sshCredentials'',
       JObj ([(''username'', JStr (scUsername credentials)), (''password'', scPassword credentials)]
         @ (if scPrivateKey credentials = JUndefined then [] else [(''privateKey'', scPrivateKey credentials)])
         @ (if scPassphrase credentials = JUndefined then [] else [(''passphrase'', scPassphrase credentials)])
         @ [(''host'', JStr (cpHost connection)), (''port'', JNum (cpPort connection)), (''term'', opt_text (cpTerm connection))])),
      (''sshHost'', JStr (cpHost connection)), (''sshPort'', JNum (cpPort connection)),
      (''sshterm'', case cpTerm connection of None \<Rightarrow> JUndefined | Some t \<Rightarrow> JStr t), (''authMethod'', JStr ''POST'')]"

definition reauth_keys :: "web_session \<Rightarrow> string list" where
  "reauth_keys session =
     fold set_add ([''sshCredentials'', ''privateKey'', ''passphrase'', ''username'', ''userpassword'', ''sshhost'', ''sshport'', ''sshterm'']
       @ filter (\<lambda>k. str_includes (to_lower k) ''auth'' \<or> str_includes (to_lower k) ''ssh'') (map_keys session)) []"

definition processReauthRequest :: "web_session \<Rightarrow> string list \<times> string" where
  "processReauthRequest session = (reauth_keys session, ''/ssh'')"

definition sanitizeCredentialsForLogging :: "ssh_credentials \<Rightarrow> connection_params \<Rightarrow> (string, jsval) jsmap" where
  "sanitizeCredentialsForLogging credentials connection =
     [(''username'', JStr (scUsername credentials)), (''host'', JStr (cpHost connection)), (''port'', JNum (cpPort connection)),
      (''hasPassword'', JBool (scPassword credentials \<noteq> JStr [])),
      (''hasPrivateKey'', JBool (\<not> nullish (scPrivateKey credentials) \<and> scPrivateKey credentials \<noteq> JStr [])),
      (''term'', opt_text (cpTerm connection))]"

section \<open>The configuration in the page\<close>

record connection_options =
  coHost :: "string option"
  coMode :: "string option"
  coLockedHost :: "string option"
  coLockedPort :: "jsnum option"
  coTelnet :: bool

definition no_options :: connection_options where
  "no_options = \<lparr>coHost = None, coMode = None, coLockedHost = None, coLockedPort = None, coTelnet = False\<rparr>"

definition hasSessionCredentials :: "web_session \<Rightarrow> bool" where
  "hasSessionCredentials session \<longleftrightarrow> \<not> nullish (web_get session ''sshCredentials'')
     \<and> (web_get session ''usedBasicAuth'' = JBool True \<or> web_get session ''authMethod'' = JStr ''POST'')"

definition buildSocketConfig :: "web_request \<Rightarrow> bool \<Rightarrow> web_config \<Rightarrow> (string, jsval) jsmap" where
  "buildSocketConfig req isTelnet config =
     [(''socket'', JObj ([(''url'', JStr (wrProtocol req @ ''://'' @ wrHostName req)),
                        (''path'', JStr (if isTelnet then ''/telnet/socket.io'' else ''/ssh/socket.io''))]
                       @ (if wcTransports config \<noteq> [] then [(''transports'', JArr (map JStr (wcTransports config)))] else []))),
      (''autoConnect'', JBool (starts_with (wrPath req) ''/host/''))]
     @ (if isTelnet then [(''protocol'', JStr ''telnet'')] else [])"

definition buildConnectionMode :: "connection_options \<Rightarrow> (string, jsval) jsmap" where
  "buildConnectionMode opts =
     (case coMode opts of
        None \<Rightarrow> []
      | Some mode \<Rightarrow>
          [(''connectionMode'', JStr mode)]
          @ (case coLockedHost opts of None \<Rightarrow> [] | Some h \<Rightarrow> [(''lockedHost'', JStr h)])
          @ (case coLockedPort opts of None \<Rightarrow> [] | Some p \<Rightarrow> [(''lockedPort'', JNum p)]))"

definition buildSshCredentials :: "web_session \<Rightarrow> (string, jsval) jsmap" where
  "buildSshCredentials session =
     (if \<not> hasSessionCredentials session then []
      else let creds = web_get session ''sshCredentials''; term = jget creds ''term''
           in [(''ssh'', JObj ([(''host'', jget creds ''host''), (''port'', jget creds ''port'')]
                              @ (if \<not> nullish term \<and> term \<noteq> JStr [] then [(''sshterm'', term)] else []))),
               (''autoConnect'', JBool True)])"

definition buildHeaderConfig :: "web_config \<Rightarrow> web_session \<Rightarrow> (string, jsval) jsmap" where
  "buildHeaderConfig config session =
     (let overrideText = jget (web_get session ''headerOverride'') ''text'';
          overrideBackground = jget (web_get session ''headerOverride'') ''background'';
          text = (if nullish overrideText then opt_text (wcHeaderText config) else overrideText);
          background = (if nullish overrideBackground then opt_text (wcHeaderBackground config) else overrideBackground)
      in if nullish text \<and> nullish background then []
         else [(''header'', JObj ((if nullish text then [] else [(''text'', text)])
                                @ (if nullish background then [] else [(''background'', background)])))])"

definition buildPageTerminal :: "web_config \<Rightarrow> (string, jsval) jsmap" where
  "buildPageTerminal config =
     (if \<not> wcShiftEnter config then [] else [(''terminal'', JObj [(''shiftEnterNewline'', JBool True)])])"

definition buildTempConfig :: "web_request \<Rightarrow> web_session \<Rightarrow> web_config \<Rightarrow> connection_options \<Rightarrow> (string, jsval) jsmap" where
  "buildTempConfig req session config opts =
     object_assign (buildPageTerminal config)
       (object_assign (buildHeaderConfig config session)
         (object_assign (buildSshCredentials session)
           (object_assign (buildConnectionMode opts)
             (buildSocketConfig req (coTelnet opts) config))))"

definition handleConnection :: "web_request \<Rightarrow> web_session \<Rightarrow> web_config \<Rightarrow> connection_options \<Rightarrow> http_reply" where
  "handleConnection req session config opts =
     \<lparr>hrStatus = HTTP_OK, hrHeaders = [(''Cache-Control'', ''no-store'')],
      hrBody = PageBody (buildTempConfig req session config opts) (if coTelnet opts then Some ''/telnet/assets/'' else None)\<rparr>"

section \<open>Routes\<close>

record route_response =
  rrStatus :: nat
  rrHeaders :: "(string, string) jsmap"
  rrData :: jsval
  rrRedirect :: "string option"

definition applyRouteResponse :: "route_response \<Rightarrow> http_reply" where
  "applyRouteResponse response =
     (case rrRedirect response of
        Some url \<Rightarrow>
          if url \<noteq> [] then \<lparr>hrStatus = 302, hrHeaders = rrHeaders response, hrBody = RedirectBody url\<rparr>
          else \<lparr>hrStatus = rrStatus response, hrHeaders = rrHeaders response,
                hrBody = (if rrStatus response = HTTP_BAD_GATEWAY then TextBody ''Bad Gateway''
                          else if nullish (rrData response) then EmptyBody else JsonBody (rrData response))\<rparr>
      | None \<Rightarrow>
          \<lparr>hrStatus = rrStatus response, hrHeaders = rrHeaders response,
           hrBody = (if rrStatus response = HTTP_BAD_GATEWAY then TextBody ''Bad Gateway''
                     else if nullish (rrData response) then EmptyBody else JsonBody (rrData response))\<rparr>)"

definition json_response :: "nat \<Rightarrow> (string, string) jsmap \<Rightarrow> jsval \<Rightarrow> http_reply" where
  "json_response status headers data =
     applyRouteResponse \<lparr>rrStatus = status, rrHeaders = headers, rrData = data, rrRedirect = None\<rparr>"

definition error_data :: "string \<Rightarrow> jsval" where
  "error_data message = JObj [(''error'', JStr message)]"

definition policy_data :: "auth_token \<Rightarrow> jsval" where
  "policy_data m = JObj [(''error'', JStr ''auth_method_disabled''), (''method'', JStr (method_text m))]"

definition credentials_context :: "ssh_credentials \<Rightarrow> policy_context" where
  "credentials_context c =
     \<lparr>pcPassword = scPassword c, pcPrivateKey = scPrivateKey c, pcRequestedKeyboardInteractive = False\<rparr>"

definition filled_string :: "jsval \<Rightarrow> jsval" where
  "filled_string v = (if isNonEmptyString v then v else JUndefined)"

definition buildGetConnection :: "jsval \<Rightarrow> string option \<Rightarrow> string option \<times> jsval \<times> string option" where
  "buildGetConnection query hostOverride =
     (keep_filled hostOverride, filled_string (safeGet query ''port''), toFilledString (safeGet query ''sshterm''))"

definition updateSessionCredentials :: "web_session \<Rightarrow> connection_params \<Rightarrow> web_session" where
  "updateSessionCredentials session connection =
     (let existing = web_get session ''sshCredentials''
      in if nullish existing then session
         else map_set ''sshCredentials''
                (JObj (object_assign
                   ([(''host'', JStr (cpHost connection)), (''port'', JNum (cpPort connection))]
                    @ (case cpTerm connection of None \<Rightarrow> [] | Some t \<Rightarrow> [(''term'', JStr t)]))
                   (entries_of existing))) session)"

definition handleSshGetRoute :: "(string \<Rightarrow> jsval option) \<Rightarrow> web_config \<Rightarrow> web_request \<Rightarrow> string option \<Rightarrow> web_session \<Rightarrow>
    http_reply \<times> web_session" where
  "handleSshGetRoute js_date config req hostOverride session =
     (case validateSshRouteCredentials (web_get session ''sshCredentials'') of
        Inl message \<Rightarrow> (json_response HTTP_UNAUTHORIZED [(AUTHENTICATE, REALM)] (error_data message), session)
      | Inr credentials \<Rightarrow>
          (case evaluateAuthMethodPolicy (wcAllowed config) (credentials_context credentials) of
             Inl m \<Rightarrow> (json_response HTTP_FORBIDDEN [] (policy_data m), session)
           | Inr _ \<Rightarrow>
               (case buildGetConnection (wrQuery req) hostOverride of (host, port, term) \<Rightarrow>
                  case validateConnectionParameters host port term config of
                    Inl message \<Rightarrow> (json_response 400 [] (error_data message), session)
                  | Inr connection \<Rightarrow>
                      let session1 = processAuthParameters js_date (wrQuery req) (updateSessionCredentials session connection);
                          opts = (if filled hostOverride
                                  then \<lparr>coHost = Some (cpHost connection), coMode = Some ''host-locked'',
                                        coLockedHost = Some (cpHost connection), coLockedPort = Some (cpPort connection),
                                        coTelnet = False\<rparr>
                                  else no_options\<lparr>coHost := Some (cpHost connection), coMode := Some ''full''\<rparr>)
                      in (handleConnection req session1 config opts, session1))))"

definition handlePostAuthRoute :: "(string \<Rightarrow> jsval option) \<Rightarrow> web_config \<Rightarrow> web_request \<Rightarrow> string option \<Rightarrow> web_session \<Rightarrow>
    http_reply \<times> web_session" where
  "handlePostAuthRoute js_date config req hostOverride session =
     (let baseBody = (if nullish (wrBody req) then JObj [] else wrBody req);
          bodyWithHost = (case hostOverride of
                            Some h \<Rightarrow> if nullish (jget (wrBody req) ''host'')
                                      then JObj (map_set ''host'' (JStr h) (entries_of baseBody)) else baseBody
                          | None \<Rightarrow> baseBody)
      in case processPostAuthRequest bodyWithHost (wrQuery req) config of
           Inl message \<Rightarrow> (json_response 400 [] (error_data message), session)
         | Inr (credentials, connection) \<Rightarrow>
             (case evaluateAuthMethodPolicy (wcAllowed config) (credentials_context credentials) of
                Inl m \<Rightarrow> (json_response HTTP_FORBIDDEN [] (policy_data m), session)
              | Inr _ \<Rightarrow>
                  let session1 = object_assign (createAuthSessionUpdates credentials connection) session;
                      source = JObj (object_assign (entries_of bodyWithHost) (entries_of (wrQuery req)));
                      session2 = processAuthParameters js_date source session1
                  in (handleConnection req session2 config (no_options\<lparr>coHost := Some (cpHost connection)\<rparr>), session2)))"

definition createSshConfigResponse :: "web_config \<Rightarrow> route_response" where
  "createSshConfigResponse config =
     \<lparr>rrStatus = HTTP_OK, rrHeaders = [(''Cache-Control'', ''no-store'')],
      rrData = JObj [(''allowedAuthMethods'', JArr (map (\<lambda>m. JStr (method_text m)) (wcAllowed config))),
                     (''hostKeyVerification'',
                      JObj [(''enabled'', JBool (wcHostKeyEnabled config)), (''clientStoreEnabled'', JBool (wcClientStore config)),
                            (''unknownKeyAction'', JStr (wcUnknownKeyAction config))])],
      rrRedirect = None\<rparr>"

definition ssh_route :: "validator_lib \<Rightarrow> (string \<Rightarrow> jsval option) \<Rightarrow> web_config \<Rightarrow> web_request \<Rightarrow> web_session \<Rightarrow> http_reply \<times> web_session" where
  "ssh_route lib js_date config req session =
     (case wrRoute req of
        GetRoot \<Rightarrow>
          let session1 = processAuthParameters js_date (wrQuery req) session
          in (handleConnection req session1 config no_options, session1)
      | GetConfig \<Rightarrow> (applyRouteResponse (createSshConfigResponse config), session)
      | GetHostDefault \<Rightarrow>
          (case auth_middleware lib config req session of
             Inl reply \<Rightarrow> (reply, session)
           | Inr session1 \<Rightarrow> handleSshGetRoute js_date config req None session1)
      | GetHost h \<Rightarrow>
          (case auth_middleware lib config req session of
             Inl reply \<Rightarrow> (reply, session)
           | Inr session1 \<Rightarrow> handleSshGetRoute js_date config req (Some h) session1)
      | PostRoot \<Rightarrow> handlePostAuthRoute js_date config req None session
      | PostHost h \<Rightarrow> handlePostAuthRoute js_date config req (Some h) session
      | GetClearCredentials \<Rightarrow> (json_response HTTP_OK [] (JObj [(''message'', JStr ''Credentials cleared.'')]), session)
      | GetForceReconnect \<Rightarrow>
          (\<lparr>hrStatus = HTTP_UNAUTHORIZED, hrHeaders = [], hrBody = TextBody ''Authentication required.''\<rparr>,
           map_delete ''sshCredentials'' session)
      | GetReauth \<Rightarrow>
          (case processReauthRequest session of (ks, url) \<Rightarrow>
             (\<lparr>hrStatus = 302, hrHeaders = [], hrBody = RedirectBody url\<rparr>, fold map_delete ks session))
      | _ \<Rightarrow> (\<lparr>hrStatus = 404, hrHeaders = [], hrBody = EmptyBody\<rparr>, session))"

text \<open>\<open>Number(s)\<close> of the query is a parameter.\<close>

definition telnet_host_options :: "string \<Rightarrow> jsnum option \<Rightarrow> connection_options" where
  "telnet_host_options h port =
     \<lparr>coHost = Some h, coMode = Some ''host-locked'', coLockedHost = Some h, coLockedPort = port, coTelnet = True\<rparr>"

definition telnet_route :: "(string \<Rightarrow> jsnum) \<Rightarrow> (string \<Rightarrow> jsval option) \<Rightarrow> web_config \<Rightarrow> web_request \<Rightarrow> web_session \<Rightarrow>
    http_reply \<times> web_session" where
  "telnet_route js_number js_date config req session =
     (let session1 = processAuthParameters js_date (wrQuery req) session
      in case wrRoute req of
        TelnetRoot \<Rightarrow> (handleConnection req session1 config (no_options\<lparr>coMode := Some ''full'', coTelnet := True\<rparr>), session1)
      | TelnetConfig \<Rightarrow>
          (\<lparr>hrStatus = HTTP_OK, hrHeaders = [(''Cache-Control'', ''no-store'')],
            hrBody = JsonBody (JObj [(''protocol'', JStr ''telnet''),
                                     (''defaultPort'', JNum (case wcTelnetPort config of Some p \<Rightarrow> p | None \<Rightarrow> Num 23)),
                                     (''term'', JStr (case wcTelnetTerm config of Some t \<Rightarrow> t | None \<Rightarrow> ''vt100''))])\<rparr>, session)
      | TelnetHost h \<Rightarrow>
          let parsedPort = (case jget (wrQuery req) ''port'' of JStr s \<Rightarrow> if s \<noteq> [] then js_number s else NaN | _ \<Rightarrow> NaN);
              lockedPort = (case parsedPort of Num p \<Rightarrow> Num p | _ \<Rightarrow> Num 23)
          in (handleConnection req session1 config (telnet_host_options h (Some lockedPort)), session1)
      | TelnetPostRoot \<Rightarrow>
          let host = (case jget (wrBody req) ''host'' of JStr h \<Rightarrow> Some h | _ \<Rightarrow> None)
          in (handleConnection req session1 config (no_options\<lparr>coHost := host, coMode := Some ''full'', coTelnet := True\<rparr>), session1)
      | TelnetPostHost h \<Rightarrow> (handleConnection req session1 config (telnet_host_options h None), session1)
      | _ \<Rightarrow> (\<lparr>hrStatus = 404, hrHeaders = [], hrBody = EmptyBody\<rparr>, session))"

definition is_telnet_route :: "web_route \<Rightarrow> bool" where
  "is_telnet_route r = (case r of TelnetRoot \<Rightarrow> True | TelnetConfig \<Rightarrow> True | TelnetHost _ \<Rightarrow> True | TelnetPostRoot \<Rightarrow> True
     | TelnetPostHost _ \<Rightarrow> True | _ \<Rightarrow> False)"

text \<open>A request passes the middleware of \<open>applyMiddleware\<close> and reaches its route.\<close>

definition http_step :: "validator_lib \<Rightarrow> (string \<Rightarrow> jsnum) \<Rightarrow> (string \<Rightarrow> jsval option) \<Rightarrow> web_config \<Rightarrow> web_request \<Rightarrow> web_session \<Rightarrow>
    http_reply \<times> web_session" where
  "http_step lib js_number js_date config req session =
     (if wcSsoEnabled config \<and> csrf_refuses config req session then (csrf_reply, session)
      else let req1 = (if wcSsoEnabled config then sso_middleware config req else req)
           in if is_telnet_route (wrRoute req1) then telnet_route js_number js_date config req1 session
              else ssh_route lib js_date config req1 session)"

definition http_run :: "validator_lib \<Rightarrow> (string \<Rightarrow> jsnum) \<Rightarrow> (string \<Rightarrow> jsval option) \<Rightarrow> web_config \<Rightarrow> web_request list \<Rightarrow> web_session \<Rightarrow>
    web_session" where
  "http_run lib js_number js_date config reqs session =
     fold (\<lambda>req s. snd (http_step lib js_number js_date config req s)) reqs session"

definition status_of_error :: "string \<Rightarrow> nat" where
  "status_of_error name =
     (if name = ''ValidationError'' then 400
      else if name = ''AuthenticationError'' then HTTP_UNAUTHORIZED
      else if name = ''ConfigError'' then HTTP_INTERNAL_SERVER_ERROR
      else HTTP_INTERNAL_SERVER_ERROR)"

text \<open>A reply is made only when none has been sent.\<close>

definition routeErrorHandler :: "string \<Rightarrow> string \<Rightarrow> bool \<Rightarrow> http_reply option" where
  "routeErrorHandler name message headersSent =
     (if headersSent then None
      else Some \<lparr>hrStatus = status_of_error name, hrHeaders = [],
                 hrBody = JsonBody (JObj [(''error'', JStr message), (''type'', JStr name)])\<rparr>)"

end
