(* ===== verification/Web_Sessions.thy ===== *)
theory Web_Sessions
  imports Web_Routes
begin

text \<open>
  Properties of the web sessions that the routes of \<^theory_text>\<open>Web_Routes\<close> leave behind: what a request can put
  into a session, who gets the page of a host and what the page shows, which posts are refused, and what a
  re-authentication forgets.
\<close>

section \<open>Members of a session\<close>

lemma web_get_set: "web_get (map_set k v s) k' = (if k' = k then v else web_get s k')"
  by (simp add: web_get_def map_get_set)

lemma web_get_delete: "web_get (map_delete k s) k' = (if k' = k then JUndefined else web_get s k')"
  by (simp add: web_get_def map_get_delete)

lemma web_get_assign: "k \<notin> set (map fst u) \<Longrightarrow> web_get (object_assign u s) k = web_get s k"
  unfolding object_assign_def by (induction u arbitrary: s) (auto simp: web_get_set)

lemma web_get_assign_defined: "k \<notin> set (map fst u) \<Longrightarrow> web_get (assign_defined u s) k = web_get s k"
  unfolding assign_defined_def by (induction u arbitrary: s) (auto simp: web_get_set)

lemma keys_of_fields:
  "set (map fst (List.map_filter (\<lambda>(name, param, parse). map_option (Pair name) (parse (f param))) given)) \<subseteq> set (map fst given)"
  by (induction given) (auto simp: List.map_filter_simps split: option.splits)

lemma recorded_keys:
  "set (map fst (extractRecordingParams js_date v)) \<subseteq>
     {''allowReplay'', ''mrhSession'', ''replayDateStart'', ''replayDateEnd'', ''replayExitCode'', ''replayExitSignal'',
      ''sessionId'', ''sessionUsername'', ''userHash''}"
  using keys_of_fields [of "jget v" "recording_fields js_date"]
  by (simp add: extractRecordingParams_def recording_fields_def del: set_map)

text \<open>The processing of the parameters leaves the members alone that decide on access.\<close>

lemma web_get_recording:
  assumes "k \<in> {''sshCredentials'', ''usedBasicAuth'', ''authMethod'', ''csrfToken'', ''authFailed''}"
  shows "web_get (processSessionRecordingParams js_date v s) k = web_get s k"
proof -
  have "k \<notin> set (map fst (extractRecordingParams js_date v))"
    using recorded_keys [of js_date v] assms by fastforce
  with assms show ?thesis
    by (auto simp: processSessionRecordingParams_def Let_def web_get_set web_get_assign_defined simp del: set_map split: option.split)
qed

lemma web_get_parameters:
  assumes "k \<in> {''sshCredentials'', ''usedBasicAuth'', ''authMethod'', ''csrfToken'', ''authFailed''}"
  shows "web_get (processAuthParameters js_date v s) k = web_get s k"
  unfolding processAuthParameters_def web_get_recording [OF assms]
  using assms by (auto simp: processEnvironmentVariables_def processHeaderParameters_def web_get_set web_get_delete split: option.split)

section \<open>What a request can put into a session\<close>

fun str_all :: "(string \<Rightarrow> bool) \<Rightarrow> jsval \<Rightarrow> bool" where
  "str_all P (JStr s) = P s"
| "str_all P _ = False"

definition clean_value :: "string \<Rightarrow> jsval \<Rightarrow> bool" where
  "clean_value k v \<longleftrightarrow> v = JUndefined \<or>
     (if k = ''headerOverride'' then isRecord v \<and> list_all (\<lambda>(_, t). str_all header_text_ok t) (entries_of v)
      else if k = ''envVars''
      then isRecord v \<and> length (entries_of v) \<le> MAX_PAIRS \<and> list_all (\<lambda>(n, t). str_all (env_ok n) t) (entries_of v)
      else if k = ''readyTimeout'' then (case v of JNum n \<Rightarrow> num_greater n 0 \<and> \<not> num_greater n 300000 | _ \<Rightarrow> False)
      else True)"

definition session_clean :: "web_session \<Rightarrow> bool" where
  "session_clean s \<longleftrightarrow> list_all (\<lambda>k. clean_value k (web_get s k)) [''headerOverride'', ''envVars'', ''readyTimeout'']"

lemma session_clean_iff: "session_clean s \<longleftrightarrow> (\<forall>k. clean_value k (web_get s k))"
proof
  assume s: "session_clean s"
  show "\<forall>k. clean_value k (web_get s k)"
  proof
    fix k
    show "clean_value k (web_get s k)"
    proof (cases "k \<in> {''headerOverride'', ''envVars'', ''readyTimeout''}")
      case True
      with s show ?thesis unfolding session_clean_def by (elim insertE) (simp_all only: list.pred_inject empty_iff)
    qed (simp add: clean_value_def)
  qed
qed (simp add: session_clean_def)

lemma clean_set [inv_intros]: "session_clean s \<Longrightarrow> clean_value k v \<Longrightarrow> session_clean (map_set k v s)"
  by (simp add: session_clean_iff web_get_set)

lemma clean_delete [inv_intros]: "session_clean s \<Longrightarrow> session_clean (map_delete k s)"
  by (simp add: session_clean_iff web_get_delete) (simp add: clean_value_def)

lemma clean_deletes [inv_intros]: "session_clean s \<Longrightarrow> session_clean (fold map_delete ks s)"
  by (induction ks arbitrary: s) (auto intro: clean_delete)

lemma clean_assign:
  "session_clean s \<Longrightarrow> list_all (\<lambda>(k, v). clean_value k v) u \<Longrightarrow> session_clean (object_assign u s)"
  unfolding object_assign_def by (induction u arbitrary: s) (auto intro: clean_set)

lemma clean_other: "k \<notin> {''headerOverride'', ''envVars'', ''readyTimeout''} \<Longrightarrow> clean_value k v"
  by (simp add: clean_value_def)

lemma clean_header [inv_intros]: "session_clean s \<Longrightarrow> session_clean (processHeaderParameters v s)"
proof -
  assume s: "session_clean s"
  show ?thesis
  proof (cases "processHeaderParams v")
    case (Some o')
    from header_override_ok [OF this] have "clean_value ''headerOverride'' o'"
      by (force simp: clean_value_def isRecord_def list_all_iff)
    with s Some show ?thesis by (simp add: processHeaderParameters_def clean_set)
  qed (use s in \<open>auto simp: processHeaderParameters_def intro: clean_delete\<close>)
qed

lemma clean_env [inv_intros]: "session_clean s \<Longrightarrow> session_clean (processEnvironmentVariables v s)"
proof -
  assume s: "session_clean s"
  show ?thesis
  proof (cases "extractEnvironmentVars v")
    case (Some env)
    then obtain t where "parseEnvVars t = Some env"
      by (auto simp: extractEnvironmentVars_def Let_def split: option.splits if_splits)
    from parsed_env_ok [OF this] have "clean_value ''envVars'' (JObj (map (\<lambda>(k, v). (k, JStr v)) env))"
      by (auto simp: clean_value_def isRecord_def list_all_iff)
    with s Some show ?thesis by (simp add: processEnvironmentVariables_def clean_set)
  qed (use s in \<open>simp add: processEnvironmentVariables_def\<close>)
qed

lemma timeout_bounds: "extractReadyTimeout v = Some n \<Longrightarrow> num_greater n 0 \<and> \<not> num_greater n 300000"
proof -
  have "num_greater (num_min m 300000) 0 \<and> \<not> num_greater (num_min m 300000) 300000" if "num_greater m 0" for m
    using that by (cases m) (auto simp: num_min_def)
  then show "extractReadyTimeout v = Some n \<Longrightarrow> ?thesis"
    by (auto simp: extractReadyTimeout_def split: jsval.splits if_splits)
qed

lemma clean_recording [inv_intros]: "session_clean s \<Longrightarrow> session_clean (processSessionRecordingParams js_date v s)"
proof -
  assume s: "session_clean s"
  have "session_clean (assign_defined (extractRecordingParams js_date v) s)"
  proof -
    have "k \<notin> set (map fst (extractRecordingParams js_date v))" if "k \<in> {''headerOverride'', ''envVars'', ''readyTimeout''}" for k
      using recorded_keys [of js_date v] that by fastforce
    with s show ?thesis by (simp add: session_clean_def web_get_assign_defined del: set_map)
  qed
  moreover have "clean_value ''readyTimeout'' (JNum n)" if "extractReadyTimeout v = Some n" for n
    using timeout_bounds [OF that] by (simp add: clean_value_def)
  ultimately show ?thesis
    by (auto simp: processSessionRecordingParams_def Let_def split: option.split intro: clean_set)
qed

lemma clean_parameters [inv_intros]: "session_clean s \<Longrightarrow> session_clean (processAuthParameters js_date v s)"
  by (simp add: processAuthParameters_def clean_header clean_env clean_recording)

lemma clean_auth: "session_clean s \<Longrightarrow> auth_middleware lib config req s = ok s' \<Longrightarrow> session_clean s'"
  by (auto simp: auth_middleware_def createSessionData_def split: sum.splits prod.splits if_splits
      intro!: clean_set clean_assign clean_other)

lemma clean_get: "session_clean s \<Longrightarrow> session_clean (snd (handleSshGetRoute js_date config req h s))"
  by (auto simp: handleSshGetRoute_def updateSessionCredentials_def Let_def split: sum.split prod.split
      intro!: clean_parameters clean_set clean_other)

lemma clean_post: "session_clean s \<Longrightarrow> session_clean (snd (handlePostAuthRoute js_date config req h s))"
  by (auto simp: handlePostAuthRoute_def createAuthSessionUpdates_def Let_def split: sum.split prod.split
      intro!: clean_parameters clean_assign clean_other)

lemma clean_step: "session_clean s \<Longrightarrow> session_clean (snd (http_step lib js_number js_date config req s))"
proof -
  assume s: "session_clean s"
  have ssh: "session_clean (snd (ssh_route lib js_date config r s))" for r
    using s by (auto simp: ssh_route_def processReauthRequest_def Let_def split: web_route.split sum.split
        intro: clean_parameters clean_auth clean_get clean_post clean_delete clean_deletes)
  have telnet: "session_clean (snd (telnet_route js_number js_date config r s))" for r
    using s by (auto simp: telnet_route_def Let_def split: web_route.split intro: clean_parameters)
  show ?thesis using s ssh telnet by (simp add: http_step_def Let_def)
qed

text \<open>C15: Whatever requests a session has seen, each text of its header override has at most 100 characters and no
  control character, its environment has at most 50 variables with safe names and values of bounded length, and its
  timeout is positive and at most 300 seconds.\<close>

theorem web_session_clean:
  "session_clean (http_run lib js_number js_date config reqs [])"
proof -
  have "session_clean s \<Longrightarrow> session_clean (http_run lib js_number js_date config reqs s)" for s
    unfolding http_run_def by (induction reqs arbitrary: s) (auto intro: clean_step)
  moreover have "session_clean []" by (simp add: session_clean_def clean_value_def web_get_def)
  ultimately show ?thesis by blast
qed

section \<open>Who gets the page of a host\<close>

text \<open>The members of a session that the page may show.\<close>

definition public_credentials :: "jsval \<Rightarrow> jsval" where
  "public_credentials v =
     (if nullish v then JUndefined
      else JObj [(''host'', jget v ''host''), (''port'', jget v ''port''), (''term'', jget v ''term'')])"

definition public_session :: "web_session \<Rightarrow> web_session" where
  "public_session s =
     [(''sshCredentials'', public_credentials (web_get s ''sshCredentials'')), (''usedBasicAuth'', web_get s ''usedBasicAuth''),
      (''authMethod'', web_get s ''authMethod''), (''headerOverride'', web_get s ''headerOverride'')]"

lemma web_get_public:
  "web_get (public_session s) ''sshCredentials'' = public_credentials (web_get s ''sshCredentials'')"
  "web_get (public_session s) ''usedBasicAuth'' = web_get s ''usedBasicAuth''"
  "web_get (public_session s) ''authMethod'' = web_get s ''authMethod''"
  "web_get (public_session s) ''headerOverride'' = web_get s ''headerOverride''"
  by (simp_all add: public_session_def web_get_def)

lemma page_of_public: "buildTempConfig req (public_session s) config opts = buildTempConfig req s config opts"
proof -
  have "nullish (public_credentials v) = nullish v" "jget (public_credentials v) ''host'' = (if nullish v then JUndefined else jget v ''host'')"
    "jget (public_credentials v) ''port'' = (if nullish v then JUndefined else jget v ''port'')"
    "jget (public_credentials v) ''term'' = (if nullish v then JUndefined else jget v ''term'')" for v
    by (auto simp: public_credentials_def nullish_def)
  then have "buildSshCredentials (public_session s) = buildSshCredentials s"
    by (simp add: buildSshCredentials_def hasSessionCredentials_def web_get_public Let_def)
  then show ?thesis by (simp add: buildTempConfig_def buildHeaderConfig_def web_get_public)
qed

text \<open>Credentials with which a page may be served.\<close>

definition credentials_allowed :: "web_config \<Rightarrow> jsval \<Rightarrow> bool" where
  "credentials_allowed config creds \<longleftrightarrow> isValidCredentialFormat creds
     \<and> (case evaluateAuthMethodPolicy (wcAllowed config)
               \<lparr>pcPassword = jget creds ''password'', pcPrivateKey = jget creds ''privateKey'',
                pcRequestedKeyboardInteractive = False\<rparr> of
          Inl _ \<Rightarrow> False | Inr _ \<Rightarrow> True)"

lemma jget_assign: "jget (JObj (object_assign u m)) k = (if k \<in> set (map fst u) then jget (JObj (object_assign u [])) k else jget (JObj m) k)"
proof -
  have "map_of (object_assign u m) k = (case map_of (rev u) k of None \<Rightarrow> map_of m k | Some v \<Rightarrow> Some v)" for m
    unfolding object_assign_def
    by (induction u arbitrary: m) (auto simp: map_get_set map_add_def split: option.split)
  moreover have "map_of (rev u) k = None \<longleftrightarrow> k \<notin> set (map fst u)" by (simp add: map_of_eq_None_iff)
  ultimately show ?thesis by (cases "map_of (rev u) k") simp_all
qed

lemma route_credentials_iff:
  "validateSshRouteCredentials v = ok c \<longleftrightarrow>
     isValidCredentialFormat v \<and> isRecord v \<and> c = \<lparr>scUsername = (case jget v ''username'' of JStr u \<Rightarrow> u | _ \<Rightarrow> []),
        scPassword = jget v ''password'', scPrivateKey = jget v ''privateKey'', scPassphrase = jget v ''passphrase''\<rparr>"
  by (cases v; cases "jget v ''username''")
    (auto simp: validateSshRouteCredentials_def isValidCredentialFormat_def isNonEmptyString_def isRecord_def nullish_def)

lemma updated_value:
  "web_get s ''sshCredentials'' = JObj m \<Longrightarrow> web_get (updateSessionCredentials s c) ''sshCredentials'' =
     JObj (object_assign ([(''host'', JStr (cpHost c)), (''port'', JNum (cpPort c))]
       @ (case cpTerm c of None \<Rightarrow> [] | Some t \<Rightarrow> [(''term'', JStr t)])) m)"
  by (simp add: updateSessionCredentials_def web_get_set nullish_def Let_def)

lemma updated_credentials:
  assumes "web_get s ''sshCredentials'' = JObj m"
  shows "isRecord (web_get (updateSessionCredentials s c) ''sshCredentials'')"
    "jget (web_get (updateSessionCredentials s c) ''sshCredentials'') ''host'' = JStr (cpHost c)"
    "jget (web_get (updateSessionCredentials s c) ''sshCredentials'') ''port'' = JNum (cpPort c)"
    "k \<in> {''username'', ''password'', ''privateKey''} \<Longrightarrow>
       jget (web_get (updateSessionCredentials s c) ''sshCredentials'') k = jget (JObj m) k"
  unfolding updated_value [OF assms]
  subgoal by (simp add: isRecord_def)
  subgoal by (cases "cpTerm c") (simp_all add: object_assign_def map_get_set)
  subgoal by (cases "cpTerm c") (simp_all add: object_assign_def map_get_set)
  subgoal by (subst jget_assign, cases "cpTerm c") auto
  done

lemma page_of_json [simp]: "hrBody (json_response status headers data) \<noteq> PageBody c b"
  by (simp add: json_response_def applyRouteResponse_def)

lemma get_page:
  assumes "handleSshGetRoute js_date config req (Some h) s = (reply, s')" "hrBody reply = PageBody page base" "h \<noteq> []"
  obtains c where "isValidCredentialFormat (web_get s ''sshCredentials'')" "isRecord (web_get s ''sshCredentials'')"
    "credentials_allowed config (web_get s ''sshCredentials'')" "cpHost c = h"
    "s' = processAuthParameters js_date (wrQuery req) (updateSessionCredentials s c)"
    "page = buildTempConfig req s' config \<lparr>coHost = Some h, coMode = Some ''host-locked'', coLockedHost = Some h,
       coLockedPort = Some (cpPort c), coTelnet = False\<rparr>"
proof -
  obtain creds where creds: "validateSshRouteCredentials (web_get s ''sshCredentials'') = ok creds"
    using assms by (cases "validateSshRouteCredentials (web_get s ''sshCredentials'')") (auto simp: handleSshGetRoute_def)
  note valid = creds [unfolded route_credentials_iff]
  obtain ms where ms: "evaluateAuthMethodPolicy (wcAllowed config) (credentials_context creds) = ok ms"
    using assms creds
    by (cases "evaluateAuthMethodPolicy (wcAllowed config) (credentials_context creds)") (auto simp: handleSshGetRoute_def)
  define port where "port = filled_string (safeGet (wrQuery req) ''port'')"
  define trm where "trm = toFilledString (safeGet (wrQuery req) ''sshterm'')"
  have args: "buildGetConnection (wrQuery req) (Some h) = (Some h, port, trm)"
    using assms(3) by (simp add: buildGetConnection_def keep_filled_def filled_def port_def trm_def)
  obtain c where c: "validateConnectionParameters (Some h) port trm config = ok c"
    using assms creds ms args
    by (cases "validateConnectionParameters (Some h) port trm config") (auto simp: handleSshGetRoute_def)
  have host: "cpHost c = h"
    using c by (auto simp: validateConnectionParameters_def Let_def split: jsval.splits if_splits)
  have "filled (Some h)" using assms(3) by (simp add: filled_def)
  then have "s' = processAuthParameters js_date (wrQuery req) (updateSessionCredentials s c)"
    "page = buildTempConfig req s' config \<lparr>coHost = Some h, coMode = Some ''host-locked'', coLockedHost = Some h,
       coLockedPort = Some (cpPort c), coTelnet = False\<rparr>"
    using assms creds ms args c host by (auto simp: handleSshGetRoute_def handleConnection_def Let_def)
  moreover have "credentials_allowed config (web_get s ''sshCredentials'')"
    using valid ms by (simp add: credentials_allowed_def credentials_context_def)
  ultimately show thesis using valid host that by blast
qed

lemma page_members:
  fixes h :: string and p :: jsnum
  assumes "web_get s ''sshCredentials'' = JObj m" "web_get s ''usedBasicAuth'' = JBool True"
  defines "opts \<equiv> \<lparr>coHost = Some h, coMode = Some ''host-locked'', coLockedHost = Some h, coLockedPort = Some p, coTelnet = False\<rparr>"
  shows "jget (JObj (buildTempConfig req s config opts)) ''lockedHost'' = JStr h"
    "jget (JObj (buildTempConfig req s config opts)) ''lockedPort'' = JNum p"
    "jget (jget (JObj (buildTempConfig req s config opts)) ''ssh'') ''host'' = jget (JObj m) ''host''"
proof -
  have other: "jget (JObj (object_assign u m)) k = jget (JObj m) k" if "k \<notin> set (map fst u)" for u m k
    using that by (subst jget_assign) simp
  have terminal: "k \<notin> set (map fst (buildPageTerminal config))" if "k \<noteq> ''terminal''" for k
    using that by (simp add: buildPageTerminal_def)
  have header: "k \<notin> set (map fst (buildHeaderConfig config s))" if "k \<noteq> ''header''" for k
    using that by (simp add: buildHeaderConfig_def Let_def)
  have ssh: "buildSshCredentials s = [(''ssh'', JObj ([(''host'', jget (JObj m) ''host''), (''port'', jget (JObj m) ''port'')]
      @ (if \<not> nullish (jget (JObj m) ''term'') \<and> jget (JObj m) ''term'' \<noteq> JStr [] then [(''sshterm'', jget (JObj m) ''term'')] else []))),
      (''autoConnect'', JBool True)]"
    using assms(1,2) by (simp add: buildSshCredentials_def hasSessionCredentials_def nullish_def Let_def)
  have mode: "buildConnectionMode opts = [(''connectionMode'', JStr ''host-locked''), (''lockedHost'', JStr h), (''lockedPort'', JNum p)]"
    by (simp add: buildConnectionMode_def opts_def)
  have "jget (JObj (buildTempConfig req s config opts)) k =
      jget (JObj (object_assign (buildSshCredentials s) (object_assign (buildConnectionMode opts) (buildSocketConfig req (coTelnet opts) config)))) k"
    if "k \<noteq> ''terminal''" "k \<noteq> ''header''" for k
    unfolding buildTempConfig_def using that by (simp only: other terminal header not_False_eq_True)
  note k = this
  show "jget (JObj (buildTempConfig req s config opts)) ''lockedHost'' = JStr h"
    "jget (JObj (buildTempConfig req s config opts)) ''lockedPort'' = JNum p"
    by (subst k; simp add: ssh mode object_assign_def map_get_set)+
  show "jget (jget (JObj (buildTempConfig req s config opts)) ''ssh'') ''host'' = jget (JObj m) ''host''"
    by (subst k; simp add: ssh mode object_assign_def map_get_set)
qed

lemma sso_keeps [simp]:
  "wrRoute (sso_middleware config req) = wrRoute req" "wrQuery (sso_middleware config req) = wrQuery req"
  "wrBasicAuth (sso_middleware config req) = wrBasicAuth req" "wrPath (sso_middleware config req) = wrPath req"
  "wrProtocol (sso_middleware config req) = wrProtocol req" "wrHostName (sso_middleware config req) = wrHostName req"
  by (simp_all add: sso_middleware_def applyDefaultCredentials_def Let_def)

lemma auth_marks:
  assumes "auth_middleware lib config req s = ok s1"
  shows "nullish (web_get s1 ''sshCredentials'') \<or> web_get s1 ''usedBasicAuth'' = JBool True"
  using assms
  by (auto simp: auth_middleware_def createSessionData_def object_assign_def web_get_set nullish_def
      split: sum.splits prod.splits if_splits)

lemma allowed_update:
  assumes "web_get s ''sshCredentials'' = JObj m" "credentials_allowed config (JObj m)"
  shows "credentials_allowed config (web_get (updateSessionCredentials s c) ''sshCredentials'')"
proof -
  let ?v = "web_get (updateSessionCredentials s c) ''sshCredentials''"
  have same: "jget ?v k = jget (JObj m) k" if "k \<in> {''username'', ''password'', ''privateKey''}" for k
    using updated_credentials(4) [OF assms(1) that] .
  have "isRecord ?v" by (rule updated_credentials(1) [OF assms(1)])
  then have "is_object ?v" "\<not> nullish ?v" by (auto simp: isRecord_iff nullish_def)
  then show ?thesis
    using assms(2) by (simp add: credentials_allowed_def isValidCredentialFormat_def nullish_def same)
qed

lemma host_page:
  assumes "wrRoute req = GetHost h" "h \<noteq> []" "http_step lib js_number js_date config req s = (reply, s')"
    "hrBody reply = PageBody page base"
  shows "credentials_allowed config (web_get s' ''sshCredentials'') \<and> jget (web_get s' ''sshCredentials'') ''host'' = JStr h
     \<and> jget (JObj page) ''lockedHost'' = JStr h \<and> jget (jget (JObj page) ''ssh'') ''host'' = JStr h
     \<and> (\<exists>r opts. page = buildTempConfig r (public_session s') config opts)"
proof -
  define r where "r = (if wcSsoEnabled config then sso_middleware config req else req)"
  have r: "wrRoute r = GetHost h" using assms(1) by (simp add: r_def)
  have "\<not> (wcSsoEnabled config \<and> csrf_refuses config req s)"
    using assms(3,4) by (auto simp: http_step_def csrf_reply_def)
  then have route: "ssh_route lib js_date config r s = (reply, s')"
    using assms(3) r by (simp add: http_step_def Let_def is_telnet_route_def r_def split: if_splits)
  obtain s1 where s1: "auth_middleware lib config r s = ok s1"
    using route r assms(4)
    by (cases "auth_middleware lib config r s")
      (auto simp: ssh_route_def auth_middleware_def split: sum.splits prod.splits if_splits)
  have "handleSshGetRoute js_date config r (Some h) s1 = (reply, s')"
    using route by (simp add: ssh_route_def r s1)
  from get_page [OF this assms(4,2)] obtain c where
    creds: "isRecord (web_get s1 ''sshCredentials'')" "credentials_allowed config (web_get s1 ''sshCredentials'')" and
    host: "cpHost c = h" and s': "s' = processAuthParameters js_date (wrQuery r) (updateSessionCredentials s1 c)" and
    page: "page = buildTempConfig r s' config \<lparr>coHost = Some h, coMode = Some ''host-locked'', coLockedHost = Some h,
       coLockedPort = Some (cpPort c), coTelnet = False\<rparr>" .
  obtain m where m: "web_get s1 ''sshCredentials'' = JObj m" using creds(1) by (auto simp: isRecord_iff)
  have kept: "web_get s' ''sshCredentials'' = web_get (updateSessionCredentials s1 c) ''sshCredentials''"
    "web_get s' ''usedBasicAuth'' = web_get (updateSessionCredentials s1 c) ''usedBasicAuth''"
    unfolding s' by (rule web_get_parameters; simp)+
  have "web_get s1 ''usedBasicAuth'' = JBool True" using auth_marks [OF s1] m by (simp add: nullish_def)
  then have basic: "web_get s' ''usedBasicAuth'' = JBool True"
    unfolding kept by (simp add: updateSessionCredentials_def web_get_set Let_def)
  obtain m' where m': "web_get s' ''sshCredentials'' = JObj m'"
    using updated_credentials(1) [OF m, of c] unfolding kept by (auto simp: isRecord_iff)
  have h: "jget (web_get s' ''sshCredentials'') ''host'' = JStr h"
    unfolding kept using updated_credentials(2) [OF m, of c] host by simp
  have allowed: "credentials_allowed config (web_get s' ''sshCredentials'')"
    unfolding kept using allowed_update [OF m] creds(2) m by simp
  have public: "\<exists>r opts. page = buildTempConfig r (public_session s') config opts"
    unfolding page_of_public page by blast
  show ?thesis
    using allowed h public page_members [OF m' basic, of r config h "cpPort c"] by (simp add: page m')
qed

text \<open>C14: When the route of a host answers with the page, the session then holds well-formed credentials that the
  policy on authentication methods allows, for that host, the page is locked to the host, and what it shows depends
  only on the public part of the session: host, port, terminal and header, never a password or a key.\<close>

theorem host_page_authorised:
  assumes "wrRoute req = GetHost h" "h \<noteq> []" "http_step lib js_number js_date config req s = (reply, s')"
    "hrBody reply = PageBody page base"
  shows "credentials_allowed config (web_get s' ''sshCredentials'') \<and> jget (web_get s' ''sshCredentials'') ''host'' = JStr h
     \<and> jget (JObj page) ''lockedHost'' = JStr h \<and> jget (jget (JObj page) ''ssh'') ''host'' = JStr h
     \<and> (\<exists>r opts. page = buildTempConfig r (public_session s') config opts)"
  using assms by (rule host_page)

definition example_lib :: validator_lib where
  "example_lib = \<lparr>vdIsIP = (\<lambda>_. False), vdEscape = (\<lambda>s. s), vdIsLength = (\<lambda>s a b. a \<le> length s \<and> length s \<le> b),
     vdMatches = (\<lambda>s p. p s)\<rparr>"

definition example_config :: web_config where
  "example_config = \<lparr>wcUserName = None, wcUserPassword = None, wcUserPrivateKey = None, wcUserPassphrase = None,
     wcSshHost = None, wcSshPort = Num 22, wcAllowed = [PasswordToken], wcHeaderText = None, wcHeaderBackground = None,
     wcTransports = [], wcShiftEnter = False, wcSsoEnabled = False, wcCsrfProtection = True, wcTrustedProxies = [],
     wcTelnetPort = None, wcTelnetTerm = None, wcHostKeyEnabled = False, wcClientStore = True, wcUnknownKeyAction = ''prompt''\<rparr>"

definition example_request :: "web_route \<Rightarrow> (string \<times> string) option \<Rightarrow> jsval \<Rightarrow> web_request" where
  "example_request route login body = \<lparr>wrRoute = route, wrPath = ''/host/db'', wrProtocol = ''https'', wrHostName = ''gw'',
     wrQuery = JObj [(''port'', JStr ''2022'')], wrBody = body, wrHeaders = JObj [], wrBasicAuth = login, wrIp = None,
     wrRemoteAddress = Some ''10.0.0.9''\<rparr>"

definition example_step :: "http_reply \<times> web_session" where
  "example_step = http_step example_lib (\<lambda>_. NaN) (\<lambda>_. None) example_config
     (example_request (GetHost ''db'') (Some (''ann'', ''pw'')) JUndefined) []"

lemma host_page_authorised_witness:
  "case hrBody (fst example_step) of
     PageBody page base \<Rightarrow> jget (JObj page) ''lockedHost'' = JStr ''db''
       \<and> credentials_allowed example_config (web_get (snd example_step) ''sshCredentials'')
   | _ \<Rightarrow> False"
proof -
  obtain page base where page: "hrBody (fst example_step) = PageBody page base"
  proof -
    have "case hrBody (fst example_step) of PageBody page base \<Rightarrow> True | _ \<Rightarrow> False" by code_simp
    then show thesis using that by (cases "hrBody (fst example_step)") auto
  qed
  from host_page_authorised [OF _ _ _ page, where h = "''db''" and s' = "snd example_step",
      unfolded example_step_def prod.collapse, OF _ _ refl] page show ?thesis
    by (simp add: example_request_def example_step_def)
qed

section \<open>Posts from elsewhere\<close>

lemma token_assign:
  "''csrfToken'' \<notin> set (map fst u) \<Longrightarrow> web_get (object_assign u s) ''csrfToken'' = web_get s ''csrfToken''"
  by (rule web_get_assign)

lemma no_token_step:
  assumes "web_get s ''csrfToken'' = JUndefined"
  shows "web_get (snd (http_step lib js_number js_date config req s)) ''csrfToken'' = JUndefined"
proof -
  have params: "web_get (processAuthParameters js_date v t) ''csrfToken'' = web_get t ''csrfToken''" for v t
    by (rule web_get_parameters) simp
  have auth: "web_get t ''csrfToken'' = JUndefined" if "auth_middleware lib config r s = ok t" for r t
    using that assms
    by (auto simp: auth_middleware_def createSessionData_def web_get_set token_assign split: sum.splits prod.splits if_splits)
  have get: "web_get (snd (handleSshGetRoute js_date config r h t)) ''csrfToken'' = web_get t ''csrfToken''" for r h t
    by (simp add: handleSshGetRoute_def updateSessionCredentials_def Let_def params web_get_set split: sum.split prod.split)
  have post: "web_get (snd (handlePostAuthRoute js_date config r h t)) ''csrfToken'' = web_get t ''csrfToken''" for r h t
    by (simp add: handlePostAuthRoute_def createAuthSessionUpdates_def Let_def params token_assign split: sum.split prod.split)
  have del: "web_get (fold map_delete ks t) ''csrfToken'' = JUndefined" if "web_get t ''csrfToken'' = JUndefined" for ks t
    using that by (induction ks arbitrary: t) (simp_all add: web_get_delete)
  have ssh: "web_get (snd (ssh_route lib js_date config r s)) ''csrfToken'' = JUndefined" for r
    using assms auth [of r]
    by (auto simp: ssh_route_def processReauthRequest_def params get post del web_get_delete Let_def split: web_route.split sum.split)
  have telnet: "web_get (snd (telnet_route js_number js_date config r s)) ''csrfToken'' = JUndefined" for r
    using assms by (auto simp: telnet_route_def params Let_def split: web_route.split)
  show ?thesis using assms ssh telnet by (simp add: http_step_def Let_def)
qed

lemma no_token_run: "web_get (http_run lib js_number js_date config reqs []) ''csrfToken'' = JUndefined"
proof -
  have "web_get s ''csrfToken'' = JUndefined \<Longrightarrow> web_get (http_run lib js_number js_date config reqs s) ''csrfToken'' = JUndefined" for s
    unfolding http_run_def by (induction reqs arbitrary: s) (auto intro: no_token_step)
  then show ?thesis by (simp add: web_get_def)
qed

text \<open>A request that passes is routed.  A request is vouched for when its address is one of the trusted proxies, or when it has
  one of the two headers of the identity provider, which any client may send; it carries the token of the session when
  the session has one and the field \<open>_csrf\<close> of the body, or without it the header \<open>x-csrf-token\<close>, is this
  token.\<close>

definition routed :: "validator_lib \<Rightarrow> (string \<Rightarrow> jsnum) \<Rightarrow> (string \<Rightarrow> jsval option) \<Rightarrow> web_config \<Rightarrow> web_request \<Rightarrow> web_session \<Rightarrow>
    http_reply \<times> web_session" where
  "routed lib js_number js_date config req session =
     (let req1 = (if wcSsoEnabled config then sso_middleware config req else req)
      in if is_telnet_route (wrRoute req1) then telnet_route js_number js_date config req1 session
         else ssh_route lib js_date config req1 session)"

definition vouched :: "web_config \<Rightarrow> web_request \<Rightarrow> bool" where
  "vouched config req \<longleftrightarrow>
     (\<exists>ip. (if filled (wrIp req) then wrIp req else wrRemoteAddress req) = Some ip \<and> ip \<in> set (wcTrustedProxies config))
     \<or> jget (wrHeaders req) ''x-apm-username'' \<notin> {JUndefined, JNull}
     \<or> jget (wrHeaders req) ''x-apm-session'' \<notin> {JUndefined, JNull}"

definition carries_token :: "web_request \<Rightarrow> web_session \<Rightarrow> bool" where
  "carries_token req session \<longleftrightarrow> (\<exists>tok. tok \<noteq> JUndefined \<and> web_get session ''csrfToken'' = tok \<and>
     (if \<exists>m t. wrBody req = JObj m \<and> jget (wrBody req) ''_csrf'' = JStr t \<and> t \<noteq> []
      then jget (wrBody req) ''_csrf'' = tok
      else case jget (wrHeaders req) ''x-csrf-token'' of JStr t \<Rightarrow> tok = JStr t | JArr (x # xs) \<Rightarrow> tok = x | _ \<Rightarrow> False))"

lemma vouched_iff: "vouched config req \<longleftrightarrow> isTrustedProxy req (wcTrustedProxies config) \<or> hasSsoHeaders req"
  by (auto simp: vouched_def isTrustedProxy_def getClientIp_def hasSsoHeaders_def nullish_def split: option.splits)

lemma body_token: "isNonEmptyString (if isRecord b then jget b ''_csrf'' else JUndefined)
    \<longleftrightarrow> (\<exists>m t. b = JObj m \<and> jget b ''_csrf'' = JStr t \<and> t \<noteq> [])"
  by (cases b; cases "jget b ''_csrf''") (auto simp: isRecord_def isNonEmptyString_def)

lemma carries_token_iff: "carries_token req session \<longleftrightarrow> isValidCsrfToken req session"
proof (cases "\<exists>m t. wrBody req = JObj m \<and> jget (wrBody req) ''_csrf'' = JStr t \<and> t \<noteq> []")
  case True
  then have "isRecord (wrBody req)" by (auto simp: isRecord_def)
  with True show ?thesis
    by (auto simp: carries_token_def isValidCsrfToken_def extractRequestToken_def Let_def isNonEmptyString_def)
next
  case False
  then have "\<not> isNonEmptyString (if isRecord (wrBody req) then jget (wrBody req) ''_csrf'' else JUndefined)"
    using body_token [of "wrBody req"] by blast
  then have "extractRequestToken req = (case jget (wrHeaders req) ''x-csrf-token'' of
      JStr s \<Rightarrow> JStr s | JArr (x # xs) \<Rightarrow> x | _ \<Rightarrow> JUndefined)"
    by (simp only: extractRequestToken_def Let_def if_False)
  with False show ?thesis
    by (auto simp: carries_token_def isValidCsrfToken_def Let_def split: jsval.splits list.splits)
qed



section \<open>Re-authentication\<close>

lemma keys_deletes: "set (map fst (fold map_delete ks s)) = set (map fst s) - set ks"
proof (induction ks arbitrary: s)
  case (Cons k ks)
  have "set (map fst (map_delete k s)) = set (map fst s) - {k}" by (auto simp: map_delete_filter)
  then show ?case by (auto simp: Cons simp del: set_map)
qed simp

text \<open>After it, no member of the session has a name with \<open>auth\<close> or \<open>ssh\<close> in it, nor one of the fixed list.\<close>

lemma reauth_forgets:
  assumes "wrRoute req = GetReauth" "k \<in> set (map fst (snd (ssh_route lib js_date config req s)))"
  shows "\<not> str_includes (to_lower k) ''auth'' \<and> \<not> str_includes (to_lower k) ''ssh''
     \<and> k \<notin> {''privateKey'', ''passphrase'', ''username'', ''userpassword''}"
proof -
  have adds: "set (fold set_add xs ys) = set xs \<union> set ys" for xs ys :: "string list"
    by (induction xs arbitrary: ys) auto
  have "k \<in> set (map fst s) - set (reauth_keys s)"
    using assms by (simp add: ssh_route_def processReauthRequest_def keys_deletes del: set_map)
  then show ?thesis by (simp add: reauth_keys_def adds)
qed

text \<open>The route that answers \<open>Credentials cleared.\<close> clears nothing.\<close>

lemma clear_credentials_keeps:
  assumes "wrRoute req = GetClearCredentials"
  shows "ssh_route lib js_date config req s =
     (json_response 200 [] (JObj [(''message'', JStr ''Credentials cleared.'')]), s)"
  using assms by (simp add: ssh_route_def HTTP_OK_def)

text \<open>A port that is a number is not checked, unlike one that is a text.\<close>

lemma number_port_unchecked:
  "validateConnectionParameters (Some h) (JNum p) t config = (if h = [] then err ''Missing required field: host''
     else ok \<lparr>cpHost = h, cpPort = p, cpTerm = t\<rparr>)"
  by (simp add: validateConnectionParameters_def filled_def Let_def)

text \<open>A password of blanks is a credential for the route and none for the policy: no method is requested, so even an empty
  list of methods allows it.\<close>

lemma blank_password_gets_page:
  "credentials_allowed (example_config\<lparr>wcAllowed := []\<rparr>) (JObj [(''username'', JStr ''ann''), (''password'', JStr '' '')])"
  by code_simp

end
