(* ===== verification/Config_Env.thy ===== *)
theory Config_Env
  imports Theming
begin

text \<open>
  The configuration that the environment gives: reading the variables (\<open>config/env-parser.ts\<close>), the list of
  transports (\<open>config/transport-parser.ts\<close>), the presets of algorithms (\<open>config/algorithm-presets.ts\<close>) and the
  table that maps each variable to its place in the configuration (\<open>config/env-mapper.ts\<close>), written there by the
  nested assignment of \<open>utils/safe-property-access.ts\<close>.  JSON, decimal fractions, base64 and UTF-8 are parameters.
\<close>

record config_lib =
  clJson :: "string \<Rightarrow> (string, jsval) result"
  clFloat :: "string \<Rightarrow> jsnum"
  clFromBase64 :: "string \<Rightarrow> bytes"
  clToBase64 :: "bytes \<Rightarrow> string"
  clFromUtf8 :: "bytes \<Rightarrow> string"
  clToUtf8 :: "string \<Rightarrow> bytes"
  clThemes :: theme_lib

definition strs :: "string list \<Rightarrow> jsval" where
  "strs xs = JArr (map JStr xs)"

section \<open>Values\<close>

datatype env_type = EnvString | EnvNumber | EnvBoolean | EnvArray | EnvPreset | EnvJson

definition comma_separated :: "string \<Rightarrow> string list" where
  "comma_separated v = filter (\<lambda>i. i \<noteq> []) (map trim (split_on (CHR '','') v))"

definition parseArrayValue :: "config_lib \<Rightarrow> string \<Rightarrow> jsval" where
  "parseArrayValue lib v =
     (if v = [] then JArr []
      else if starts_with (trim v) ''['' \<and> ends_with (trim v) '']''
      then (case clJson lib v of
              Inr (JArr xs) \<Rightarrow> JArr xs
            | Inr _ \<Rightarrow> JArr []
            | Inl _ \<Rightarrow> strs (comma_separated v))
      else strs (comma_separated v))"

definition parseJsonValue :: "config_lib \<Rightarrow> string \<Rightarrow> jsval" where
  "parseJsonValue lib v =
     (case clJson lib v of
        Inl _ \<Rightarrow> JNull
      | Inr p \<Rightarrow> if is_object p then p else JNull)"

definition parseEnvValue :: "config_lib \<Rightarrow> string \<Rightarrow> env_type \<Rightarrow> jsval" where
  "parseEnvValue lib v ty =
     (if v = ''null'' then JNull
      else if v = [] then (if ty = EnvArray then JArr [] else JNull)
      else case ty of
             EnvBoolean \<Rightarrow> JBool (v = ''true'' \<or> v = ''1'')
           | EnvNumber \<Rightarrow> JNum (clFloat lib v)
           | EnvArray \<Rightarrow> parseArrayValue lib v
           | EnvString \<Rightarrow> JStr v
           | EnvPreset \<Rightarrow> JStr v
           | EnvJson \<Rightarrow> parseJsonValue lib v)"

definition parseBooleanEnv :: "string option \<Rightarrow> bool \<Rightarrow> bool" where
  "parseBooleanEnv v defaultValue = (case v of None \<Rightarrow> defaultValue | Some s \<Rightarrow> s = ''true'' \<or> s = ''1'')"

definition parseNumberEnv :: "string option \<Rightarrow> int \<Rightarrow> int option \<Rightarrow> int option \<Rightarrow> int" where
  "parseNumberEnv v defaultValue lo hi =
     (case v of
        None \<Rightarrow> defaultValue
      | Some s \<Rightarrow>
          if s = [] then defaultValue
          else case parse_int s of
                 None \<Rightarrow> defaultValue
               | Some parsed \<Rightarrow>
                   let r1 = (case lo of Some m \<Rightarrow> if parsed < m then m else parsed | None \<Rightarrow> parsed)
                   in case hi of Some m \<Rightarrow> if r1 > m then m else r1 | None \<Rightarrow> r1)"

definition RAW_BASE64_CAP :: nat where "RAW_BASE64_CAP = 64 * 1024 * 4 div 3 + 8"
definition DECODED_CAP :: nat where "DECODED_CAP = 64 * 1024"

datatype base64_failure = RawOversize | BadBase64 | Oversize | BadJson string | NotArray

definition parseBase64JsonArrayEnv :: "config_lib \<Rightarrow> string \<Rightarrow> (base64_failure, jsval list) result" where
  "parseBase64JsonArrayEnv lib raw =
     (if length raw > RAW_BASE64_CAP then err RawOversize
      else let buf = clFromBase64 lib raw
           in if length buf > DECODED_CAP then err Oversize
              else let decoded = clFromUtf8 lib buf;
                       roundTripped = filter (\<lambda>c. c \<noteq> CHR ''='') (clToBase64 lib (clToUtf8 lib decoded))
                   in if roundTripped \<noteq> filter (\<lambda>c. c \<noteq> CHR ''='') raw then err BadBase64
                      else case clJson lib decoded of
                             Inl message \<Rightarrow> err (BadJson message)
                           | Inr (JArr xs) \<Rightarrow> ok xs
                           | Inr _ \<Rightarrow> err NotArray)"

definition failure_reason :: "base64_failure \<Rightarrow> string" where
  "failure_reason f =
     (case f of RawOversize \<Rightarrow> ''rawOversize'' | BadBase64 \<Rightarrow> ''base64'' | Oversize \<Rightarrow> ''oversize''
      | BadJson message \<Rightarrow> ''json: '' @ message | NotArray \<Rightarrow> ''notArray'')"

section \<open>Transports and presets\<close>

definition VALID_TRANSPORTS :: "string list" where
  "VALID_TRANSPORTS = [''websocket'', ''polling'']"

definition normalize_transports :: "jsval list \<Rightarrow> string list" where
  "normalize_transports entries =
     (let strings = List.map_filter (\<lambda>e. case e of JStr s \<Rightarrow> Some s | _ \<Rightarrow> None) entries;
          cleaned = filter (\<lambda>e. e \<in> set VALID_TRANSPORTS) (map (\<lambda>e. to_lower (trim e)) strings)
      in fold set_add cleaned [])"

definition type_name :: "jsval \<Rightarrow> string" where
  "type_name v =
     (case v of JUndefined \<Rightarrow> ''undefined'' | JNull \<Rightarrow> ''object'' | JBool _ \<Rightarrow> ''boolean'' | JNum _ \<Rightarrow> ''number''
      | JStr _ \<Rightarrow> ''string'' | JArr _ \<Rightarrow> ''object'' | JObj _ \<Rightarrow> ''object'')"

definition transports_of :: "jsval list \<Rightarrow> string list option \<times> string option" where
  "transports_of entries =
     (let transports = normalize_transports entries
      in if transports = []
         then (None, Some ''options.transport: no valid transports after filtering (allowed: websocket, polling); using client default'')
         else (Some transports, None))"

definition parseTransports :: "jsval \<Rightarrow> string list option \<times> string option" where
  "parseTransports raw =
     (if nullish raw then (None, None)
      else case raw of
             JStr s \<Rightarrow> transports_of (map JStr (split_on (CHR '','') s))
           | JArr xs \<Rightarrow> transports_of xs
           | _ \<Rightarrow> (None, Some (''options.transport: expected string or array, got '' @ type_name raw @ ''; ignoring'')))"

definition ALGORITHM_PRESETS :: "(string \<times> jsval) list" where
  "ALGORITHM_PRESETS =
     [(''modern'', JObj
        [(''cipher'', strs [''aes256-gcm@openssh.com'', ''aes128-gcm@openssh.com'', ''aes256-ctr'', ''aes128-ctr'']),
         (''kex'', strs [''ecdh-sha2-nistp256'', ''ecdh-sha2-nistp384'', ''ecdh-sha2-nistp521'']),
         (''hmac'', strs [''hmac-sha2-256'', ''hmac-sha2-512'']),
         (''compress'', strs [''none'', ''zlib@openssh.com'']),
         (''serverHostKey'', strs [''ecdsa-sha2-nistp256'', ''ecdsa-sha2-nistp384'', ''ecdsa-sha2-nistp521'', ''ssh-rsa''])]),
      (''legacy'', JObj
        [(''cipher'', strs [''aes256-cbc'', ''aes192-cbc'', ''aes128-cbc'', ''3des-cbc'']),
         (''kex'', strs [''diffie-hellman-group14-sha1'', ''diffie-hellman-group1-sha1'']),
         (''hmac'', strs [''hmac-sha1'', ''hmac-md5'']),
         (''compress'', strs [''none'', ''zlib'']),
         (''serverHostKey'', strs [''ssh-rsa'', ''ssh-dss''])]),
      (''strict'', JObj
        [(''cipher'', strs [''aes256-gcm@openssh.com'']), (''kex'', strs [''ecdh-sha2-nistp256'']),
         (''hmac'', strs [''hmac-sha2-256'']), (''compress'', strs [''none'']), (''serverHostKey'', strs [''ecdsa-sha2-nistp256''])])]"

definition getAlgorithmPreset :: "string \<Rightarrow> jsval option" where
  "getAlgorithmPreset presetName = map_get ALGORITHM_PRESETS (to_lower presetName)"

section \<open>Nested assignment\<close>

fun safeSetNested :: "(string, jsval) jsmap \<Rightarrow> string list \<Rightarrow> jsval \<Rightarrow> (string, jsval) jsmap" where
  "safeSetNested m [] v = m"
| "safeSetNested m [k] v = map_set k v m"
| "safeSetNested m (k # ks) v =
     map_set k (JObj (safeSetNested (case map_get m k of Some (JObj n) \<Rightarrow> n | _ \<Rightarrow> []) ks v)) m"

fun safeGetNested :: "jsval \<Rightarrow> string list \<Rightarrow> jsval" where
  "safeGetNested v [] = v"
| "safeGetNested v (k # ks) = (if nullish v \<or> \<not> is_object v then JUndefined else safeGetNested (jget v k) ks)"

definition safePathToKeys :: "string \<Rightarrow> string list" where
  "safePathToKeys place = split_on (CHR ''.'') place"

definition setNestedProperty :: "(string, jsval) jsmap \<Rightarrow> string \<Rightarrow> jsval \<Rightarrow> (string, jsval) jsmap" where
  "setNestedProperty m place v = safeSetNested m (safePathToKeys place) v"

text \<open>The recursion of \<open>setNestedPropertyImmutable\<close> joins and splits the rest of the path again; here it runs over
  the parts.\<close>

fun set_immutable :: "(string, jsval) jsmap \<Rightarrow> string list \<Rightarrow> jsval \<Rightarrow> (string, jsval) jsmap" where
  "set_immutable m [] v = m"
| "set_immutable m (k # ks) v =
     (if k = [] then m
      else if ks = [] then map_set k v m
      else let current = jget (JObj m) k; nested = (if isRecord current then entries_of current else [])
           in map_set k (JObj (set_immutable nested ks v)) m)"

definition setNestedPropertyImmutable :: "(string, jsval) jsmap \<Rightarrow> string \<Rightarrow> jsval \<Rightarrow> (string, jsval) jsmap" where
  "setNestedPropertyImmutable m place v = set_immutable m (split_on (CHR ''.'') place) v"

section \<open>The table of variables\<close>

definition ENV_VAR_MAPPING :: "(string \<times> string \<times> env_type) list" where
  "ENV_VAR_MAPPING =
     [(''PORT'', ''listen.port'', EnvNumber), (''WEBSSH2_LISTEN_IP'', ''listen.ip'', EnvString),
      (''WEBSSH2_LISTEN_PORT'', ''listen.port'', EnvNumber), (''WEBSSH2_HTTP_ORIGINS'', ''http.origins'', EnvArray),
      (''WEBSSH2_USER_NAME'', ''user.name'', EnvString), (''WEBSSH2_USER_PASSWORD'', ''user.password'', EnvString),
      (''WEBSSH2_USER_PRIVATE_KEY'', ''user.privateKey'', EnvString),
      (''WEBSSH2_USER_PASSPHRASE'', ''user.passphrase'', EnvString), (''WEBSSH2_SSH_HOST'', ''ssh.host'', EnvString),
      (''WEBSSH2_SSH_PORT'', ''ssh.port'', EnvNumber), (''WEBSSH2_SSH_LOCAL_ADDRESS'', ''ssh.localAddress'', EnvString),
      (''WEBSSH2_SSH_LOCAL_PORT'', ''ssh.localPort'', EnvNumber), (''WEBSSH2_SSH_TERM'', ''ssh.term'', EnvString),
      (''WEBSSH2_SSH_ENV_ALLOWLIST'', ''ssh.envAllowlist'', EnvArray),
      (''WEBSSH2_AUTH_ALLOWED'', ''ssh.allowedAuthMethods'', EnvArray),
      (''WEBSSH2_SSH_READY_TIMEOUT'', ''ssh.readyTimeout'', EnvNumber),
      (''WEBSSH2_SSH_KEEPALIVE_INTERVAL'', ''ssh.keepaliveInterval'', EnvNumber),
      (''WEBSSH2_SSH_KEEPALIVE_COUNT_MAX'', ''ssh.keepaliveCountMax'', EnvNumber),
      (''WEBSSH2_SSH_ALLOWED_SUBNETS'', ''ssh.allowedSubnets'', EnvArray),
      (''WEBSSH2_SSH_ALWAYS_SEND_KEYBOARD_INTERACTIVE'', ''ssh.alwaysSendKeyboardInteractivePrompts'', EnvBoolean),
      (''WEBSSH2_SSH_DISABLE_INTERACTIVE_AUTH'', ''ssh.disableInteractiveAuth'', EnvBoolean),
      (''WEBSSH2_SSH_ALGORITHMS_CIPHER'', ''ssh.algorithms.cipher'', EnvArray),
      (''WEBSSH2_SSH_ALGORITHMS_KEX'', ''ssh.algorithms.kex'', EnvArray),
      (''WEBSSH2_SSH_ALGORITHMS_HMAC'', ''ssh.algorithms.hmac'', EnvArray),
      (''WEBSSH2_SSH_ALGORITHMS_COMPRESS'', ''ssh.algorithms.compress'', EnvArray),
      (''WEBSSH2_SSH_ALGORITHMS_SERVER_HOST_KEY'', ''ssh.algorithms.serverHostKey'', EnvArray),
      (''WEBSSH2_SSH_ALGORITHMS_PRESET'', ''ssh.algorithms'', EnvPreset),
      (''WEBSSH2_SSH_MAX_EXEC_OUTPUT_BYTES'', ''ssh.maxExecOutputBytes'', EnvNumber),
      (''WEBSSH2_SSH_OUTPUT_RATE_LIMIT_BYTES_PER_SEC'', ''ssh.outputRateLimitBytesPerSec'', EnvNumber),
      (''WEBSSH2_SSH_SOCKET_HIGH_WATER_MARK'', ''ssh.socketHighWaterMark'', EnvNumber),
      (''WEBSSH2_HEADER_TEXT'', ''header.text'', EnvString),
      (''WEBSSH2_HEADER_BACKGROUND'', ''header.background'', EnvString),
      (''WEBSSH2_OPTIONS_CHALLENGE_BUTTON'', ''options.challengeButton'', EnvBoolean),
      (''WEBSSH2_OPTIONS_AUTO_LOG'', ''options.autoLog'', EnvBoolean),
      (''WEBSSH2_OPTIONS_ALLOW_REAUTH'', ''options.allowReauth'', EnvBoolean),
      (''WEBSSH2_OPTIONS_ALLOW_RECONNECT'', ''options.allowReconnect'', EnvBoolean),
      (''WEBSSH2_OPTIONS_ALLOW_REPLAY'', ''options.allowReplay'', EnvBoolean),
      (''WEBSSH2_OPTIONS_REPLAY_CRLF'', ''options.replayCRLF'', EnvBoolean),
      (''WEBSSH2_TERMINAL_SHIFT_ENTER_NEWLINE'', ''options.terminal.shiftEnterNewline'', EnvBoolean),
      (''WEBSSH2_SESSION_SECRET'', ''session.secret'', EnvString), (''WEBSSH2_SESSION_NAME'', ''session.name'', EnvString),
      (''WEBSSH2_SSO_ENABLED'', ''sso.enabled'', EnvBoolean),
      (''WEBSSH2_SSO_CSRF_PROTECTION'', ''sso.csrfProtection'', EnvBoolean),
      (''WEBSSH2_SSO_TRUSTED_PROXIES'', ''sso.trustedProxies'', EnvArray),
      (''WEBSSH2_SSO_HEADER_USERNAME'', ''sso.headerMapping.username'', EnvString),
      (''WEBSSH2_SSO_HEADER_PASSWORD'', ''sso.headerMapping.password'', EnvString),
      (''WEBSSH2_SSO_HEADER_SESSION'', ''sso.headerMapping.session'', EnvString),
      (''WEBSSH2_LOGGING_LEVEL'', ''logging.minimumLevel'', EnvString),
      (''WEBSSH2_LOGGING_STDOUT_ENABLED'', ''logging.stdout.enabled'', EnvBoolean),
      (''WEBSSH2_LOGGING_STDOUT_MIN_LEVEL'', ''logging.stdout.minimumLevel'', EnvString),
      (''WEBSSH2_LOGGING_SAMPLING_DEFAULT_RATE'', ''logging.controls.sampling.defaultSampleRate'', EnvNumber),
      (''WEBSSH2_LOGGING_SAMPLING_RULES'', ''logging.controls.sampling.rules'', EnvJson),
      (''WEBSSH2_LOGGING_RATE_LIMIT_RULES'', ''logging.controls.rateLimit.rules'', EnvJson),
      (''WEBSSH2_LOGGING_SYSLOG_ENABLED'', ''logging.syslog.enabled'', EnvBoolean),
      (''WEBSSH2_LOGGING_SYSLOG_HOST'', ''logging.syslog.host'', EnvString),
      (''WEBSSH2_LOGGING_SYSLOG_PORT'', ''logging.syslog.port'', EnvNumber),
      (''WEBSSH2_LOGGING_SYSLOG_APP_NAME'', ''logging.syslog.appName'', EnvString),
      (''WEBSSH2_LOGGING_SYSLOG_ENTERPRISE_ID'', ''logging.syslog.enterpriseId'', EnvNumber),
      (''WEBSSH2_LOGGING_SYSLOG_BUFFER_SIZE'', ''logging.syslog.bufferSize'', EnvNumber),
      (''WEBSSH2_LOGGING_SYSLOG_FLUSH_INTERVAL_MS'', ''logging.syslog.flushIntervalMs'', EnvNumber),
      (''WEBSSH2_LOGGING_SYSLOG_INCLUDE_JSON'', ''logging.syslog.includeJson'', EnvBoolean),
      (''WEBSSH2_LOGGING_SYSLOG_TLS_ENABLED'', ''logging.syslog.tls.enabled'', EnvBoolean),
      (''WEBSSH2_LOGGING_SYSLOG_TLS_CA_FILE'', ''logging.syslog.tls.caFile'', EnvString),
      (''WEBSSH2_LOGGING_SYSLOG_TLS_CERT_FILE'', ''logging.syslog.tls.certFile'', EnvString),
      (''WEBSSH2_LOGGING_SYSLOG_TLS_KEY_FILE'', ''logging.syslog.tls.keyFile'', EnvString),
      (''WEBSSH2_LOGGING_SYSLOG_TLS_REJECT_UNAUTHORIZED'', ''logging.syslog.tls.rejectUnauthorized'', EnvBoolean),
      (''WEBSSH2_SSH_HOSTKEY_ENABLED'', ''ssh.hostKeyVerification.enabled'', EnvBoolean),
      (''WEBSSH2_SSH_HOSTKEY_MODE'', ''ssh.hostKeyVerification.mode'', EnvString),
      (''WEBSSH2_SSH_HOSTKEY_UNKNOWN_ACTION'', ''ssh.hostKeyVerification.unknownKeyAction'', EnvString),
      (''WEBSSH2_SSH_HOSTKEY_DB_PATH'', ''ssh.hostKeyVerification.serverStore.dbPath'', EnvString),
      (''WEBSSH2_SSH_HOSTKEY_SERVER_ENABLED'', ''ssh.hostKeyVerification.serverStore.enabled'', EnvBoolean),
      (''WEBSSH2_SSH_HOSTKEY_CLIENT_ENABLED'', ''ssh.hostKeyVerification.clientStore.enabled'', EnvBoolean),
      (''WEBSSH2_SSH_SFTP_BACKEND'', ''ssh.sftp.backend'', EnvString),
      (''WEBSSH2_SSH_SFTP_ENABLED'', ''ssh.sftp.enabled'', EnvBoolean),
      (''WEBSSH2_SSH_SFTP_MAX_FILE_SIZE'', ''ssh.sftp.maxFileSize'', EnvNumber),
      (''WEBSSH2_SSH_SFTP_TRANSFER_RATE_LIMIT_BYTES_PER_SEC'', ''ssh.sftp.transferRateLimitBytesPerSec'', EnvNumber),
      (''WEBSSH2_SSH_SFTP_CHUNK_SIZE'', ''ssh.sftp.chunkSize'', EnvNumber),
      (''WEBSSH2_SSH_SFTP_MAX_CONCURRENT_TRANSFERS'', ''ssh.sftp.maxConcurrentTransfers'', EnvNumber),
      (''WEBSSH2_SSH_SFTP_ALLOWED_PATHS'', ''ssh.sftp.allowedPaths'', EnvArray),
      (''WEBSSH2_SSH_SFTP_BLOCKED_EXTENSIONS'', ''ssh.sftp.blockedExtensions'', EnvArray),
      (''WEBSSH2_SSH_SFTP_TIMEOUT'', ''ssh.sftp.timeout'', EnvNumber),
      (''WEBSSH2_TELNET_ENABLED'', ''telnet.enabled'', EnvBoolean),
      (''WEBSSH2_TELNET_DEFAULT_PORT'', ''telnet.defaultPort'', EnvNumber),
      (''WEBSSH2_TELNET_TIMEOUT'', ''telnet.timeout'', EnvNumber), (''WEBSSH2_TELNET_TERM'', ''telnet.term'', EnvString),
      (''WEBSSH2_TELNET_AUTH_LOGIN_PROMPT'', ''telnet.auth.loginPrompt'', EnvString),
      (''WEBSSH2_TELNET_AUTH_PASSWORD_PROMPT'', ''telnet.auth.passwordPrompt'', EnvString),
      (''WEBSSH2_TELNET_AUTH_FAILURE_PATTERN'', ''telnet.auth.failurePattern'', EnvString),
      (''WEBSSH2_TELNET_AUTH_EXPECT_TIMEOUT'', ''telnet.auth.expectTimeout'', EnvNumber),
      (''WEBSSH2_TELNET_ALLOWED_SUBNETS'', ''telnet.allowedSubnets'', EnvArray),
      (''WEBSSH2_THEMING_ENABLED'', ''options.theming.enabled'', EnvBoolean),
      (''WEBSSH2_THEMING_ALLOW_CUSTOM'', ''options.theming.allowCustom'', EnvBoolean),
      (''WEBSSH2_CSP_MODE'', ''csp.mode'', EnvString), (''WEBSSH2_CSP_REPORT_URI'', ''csp.reportUri'', EnvString),
      (''WEBSSH2_CSP_CONNECT_SRC'', ''csp.connectSrc'', EnvArray),
      (''WEBSSH2_CSP_FRAME_ANCESTORS'', ''csp.frameAncestors'', EnvArray)]"

type_synonym environment = "(string, string) jsmap"
type_synonym config_entry = "string \<times> jsval"

definition BUILTIN_THEME_NAMES :: "string list" where
  "BUILTIN_THEME_NAMES =
     [''Default'', ''Dracula'', ''Nord'', ''Solarized Dark'', ''One Dark'', ''Monokai'', ''Gruvbox Dark'', ''Tokyo Night'',
      ''Catppuccin Mocha'']"

definition VALID_HEADER_BACKGROUND :: "string list" where
  "VALID_HEADER_BACKGROUND = [''independent'', ''followTerminal'', ''locked'']"

definition readEnvString :: "environment \<Rightarrow> string \<Rightarrow> string option" where
  "readEnvString env name = map_get env name"

definition PRESET_VAR :: string where "PRESET_VAR = ''WEBSSH2_SSH_ALGORITHMS_PRESET''"

definition collectPresetEntries :: "environment \<Rightarrow> config_entry list" where
  "collectPresetEntries env =
     (case readEnvString env PRESET_VAR of
        None \<Rightarrow> []
      | Some name \<Rightarrow>
          (case getAlgorithmPreset name of
             None \<Rightarrow> []
           | Some preset \<Rightarrow> (case map_get ENV_VAR_MAPPING PRESET_VAR of None \<Rightarrow> [] | Some (place, _) \<Rightarrow> [(place, preset)])))"

definition collectMappedEntries :: "config_lib \<Rightarrow> environment \<Rightarrow> config_entry list" where
  "collectMappedEntries lib env =
     List.map_filter (\<lambda>(envVar, place, ty).
       if ty = EnvPreset then None else map_option (\<lambda>v. (place, parseEnvValue lib v ty)) (readEnvString env envVar)) ENV_VAR_MAPPING"

definition collectThemeNamesEntries :: "environment \<Rightarrow> config_entry list" where
  "collectThemeNamesEntries env =
     (case readEnvString env ''WEBSSH2_THEMING_THEMES'' of
        None \<Rightarrow> []
      | Some raw \<Rightarrow> [(''options.theming.themes'', strs (filter theme_name_ok (map trim (split_on (CHR '','') raw))))])"

definition collectDefaultThemeEntries :: "environment \<Rightarrow> config_entry list" where
  "collectDefaultThemeEntries env =
     (case readEnvString env ''WEBSSH2_THEMING_DEFAULT_THEME'' of
        None \<Rightarrow> []
      | Some raw \<Rightarrow> [(''options.theming.defaultTheme'', JStr (if theme_name_ok (trim raw) then trim raw else ''Default''))])"

definition collectHeaderBackgroundEntries :: "environment \<Rightarrow> config_entry list" where
  "collectHeaderBackgroundEntries env =
     (case readEnvString env ''WEBSSH2_THEMING_HEADER_BACKGROUND'' of
        None \<Rightarrow> []
      | Some raw \<Rightarrow> if raw \<notin> set VALID_HEADER_BACKGROUND then [] else [(''options.theming.headerBackground'', JStr raw)])"

definition ADDITIONAL_THEMES_ENV :: string where "ADDITIONAL_THEMES_ENV = ''WEBSSH2_THEMING_ADDITIONAL_THEMES''"
definition ADDITIONAL_THEMES_PATH :: string where "ADDITIONAL_THEMES_PATH = ''options.theming.additionalThemes''"

definition resolveAdditionalThemes :: "config_lib \<Rightarrow> environment \<Rightarrow> config_entry list \<times> theme_warning list" where
  "resolveAdditionalThemes lib env =
     (case readEnvString env ADDITIONAL_THEMES_ENV of
        None \<Rightarrow> ([], [])
      | Some raw \<Rightarrow>
          (case parseBase64JsonArrayEnv lib raw of
             Inr items \<Rightarrow>
               let (valid, warnings) = loadAdditionalThemes (clThemes lib) items ADDITIONAL_THEMES_ENV BUILTIN_THEME_NAMES
               in ([(ADDITIONAL_THEMES_PATH, JArr (map theme_value valid))], warnings)
           | Inl f \<Rightarrow>
               ([(ADDITIONAL_THEMES_PATH, JArr [])],
                [\<lparr>twOrigin = ADDITIONAL_THEMES_ENV, twField = [], twReason = failure_reason f\<rparr>])))"

definition resolveThemingEnv :: "config_lib \<Rightarrow> environment \<Rightarrow> config_entry list \<times> theme_warning list" where
  "resolveThemingEnv lib env =
     (collectThemeNamesEntries env @ collectDefaultThemeEntries env @ collectHeaderBackgroundEntries env
      @ fst (resolveAdditionalThemes lib env), snd (resolveAdditionalThemes lib env))"

definition resolveTransportEnv :: "environment \<Rightarrow> config_entry list \<times> string option" where
  "resolveTransportEnv env =
     (case readEnvString env ''WEBSSH2_OPTIONS_TRANSPORT'' of
        None \<Rightarrow> ([], None)
      | Some raw \<Rightarrow>
          (case parseTransports (JStr raw) of
             (None, warning) \<Rightarrow> ([], warning)
           | (Some transports, _) \<Rightarrow> ([(''options.transport'', strs transports)], None)))"

definition env_entries :: "config_lib \<Rightarrow> environment \<Rightarrow> config_entry list" where
  "env_entries lib env =
     collectPresetEntries env @ collectMappedEntries lib env @ fst (resolveThemingEnv lib env) @ fst (resolveTransportEnv env)"

definition write_entries :: "config_entry list \<Rightarrow> (string, jsval) jsmap \<Rightarrow> (string, jsval) jsmap" where
  "write_entries entries config = fold (\<lambda>(place, v) m. setNestedProperty m place v) entries config"

definition mapEnvironmentVariables :: "config_lib \<Rightarrow> environment \<Rightarrow>
    (string, jsval) jsmap \<times> theme_warning list \<times> string option" where
  "mapEnvironmentVariables lib env =
     (write_entries (env_entries lib env) [], snd (resolveThemingEnv lib env), snd (resolveTransportEnv env))"

section \<open>Nested assignment and look-up\<close>

lemma jget_not_record: "\<not> isRecord v \<Longrightarrow> jget v k = JUndefined"
  by (cases v) (auto simp: isRecord_def)

lemma safeGetNested_Cons: "safeGetNested v (k # ks) = (if isRecord v \<or> ks = [] then safeGetNested (jget v k) ks else JUndefined)"
  by (cases v; cases ks) (auto simp: isRecord_def nullish_def)

declare safeGetNested.simps(2) [simp del]

lemma get_undefined [simp]: "safeGetNested JUndefined (k # ks) = JUndefined"
  by (simp add: safeGetNested.simps(2) nullish_def)

lemma get_object [simp]: "safeGetNested (JObj m) (k # ks) = safeGetNested (case map_get m k of None \<Rightarrow> JUndefined | Some v \<Rightarrow> v) ks"
  by (simp add: safeGetNested.simps(2) nullish_def)

text \<open>Two paths neither of which begins with the other.\<close>

fun apart :: "string list \<Rightarrow> string list \<Rightarrow> bool" where
  "apart (a # as) (b # bs) = (if a = b then apart as bs else True)"
| "apart _ _ = False"

lemma set_nested_get: "ks \<noteq> [] \<Longrightarrow> safeGetNested (JObj (safeSetNested m ks v)) ks = v"
  by (induction m ks v rule: safeSetNested.induct) (auto simp: map_get_set)

lemma get_nothing: "ks \<noteq> [] \<Longrightarrow> safeGetNested (JObj []) ks = JUndefined"
  by (cases ks; cases "tl ks") auto

lemma get_not_record: "\<not> isRecord v \<Longrightarrow> ks \<noteq> [] \<Longrightarrow> safeGetNested v ks = JUndefined"
  by (cases ks; cases "tl ks") (auto simp: safeGetNested_Cons jget_not_record)

lemma set_nested_other: "apart ks ls \<Longrightarrow> safeGetNested (JObj (safeSetNested m ks v)) ls = safeGetNested (JObj m) ls"
proof (induction m ks v arbitrary: ls rule: safeSetNested.induct)
  case (3 m k k' ks v)
  obtain l ls' where ls: "ls = l # ls'" using "3.prems" by (cases ls) auto
  show ?case
  proof (cases "l = k")
    case True
    let ?n = "case map_get m k of Some (JObj n) \<Rightarrow> n | _ \<Rightarrow> []"
    have "apart (k' # ks) ls'" using "3.prems" True ls by simp
    then have "ls' \<noteq> []" and ih: "safeGetNested (JObj (safeSetNested ?n (k' # ks) v)) ls' = safeGetNested (JObj ?n) ls'"
      using "3.IH" by auto
    moreover have "safeGetNested (JObj ?n) ls' = safeGetNested (case map_get m k of None \<Rightarrow> JUndefined | Some v \<Rightarrow> v) ls'"
      using \<open>ls' \<noteq> []\<close> get_nothing get_not_record
      by (auto simp: isRecord_def split: option.split jsval.split)
    ultimately show ?thesis by (simp add: ls True)
  qed (simp add: ls map_get_set)
qed (auto simp: map_get_set split: if_splits elim!: apart.elims)

lemma write_entries_other:
  "list_all (\<lambda>(p, _). apart (safePathToKeys p) ls) es \<Longrightarrow>
     safeGetNested (JObj (write_entries es m)) ls = safeGetNested (JObj m) ls"
  unfolding write_entries_def
  by (induction es arbitrary: m) (auto simp: setNestedProperty_def set_nested_other)

lemma write_entries_last:
  assumes "list_all (\<lambda>(p, _). apart (safePathToKeys p) (safePathToKeys place)) later"
  shows "safeGetNested (JObj (write_entries (earlier @ (place, v) # later) m)) (safePathToKeys place) = v"
proof -
  have "write_entries (earlier @ (place, v) # later) m
      = write_entries later (setNestedProperty (write_entries earlier m) place v)"
    by (simp add: write_entries_def)
  moreover have "safePathToKeys place \<noteq> []" by (simp add: safePathToKeys_def split_on_not_Nil)
  ultimately show ?thesis
    using write_entries_other [OF assms] by (simp add: setNestedProperty_def set_nested_get)
qed

text \<open>The two nested assignments agree on paths without empty parts.\<close>

lemma set_immutable_agrees: "list_all (\<lambda>k. k \<noteq> []) ks \<Longrightarrow> set_immutable m ks v = safeSetNested m ks v"
proof (induction m ks v rule: safeSetNested.induct)
  case (3 m k k' ks v)
  let ?n = "case map_get m k of Some (JObj n) \<Rightarrow> n | _ \<Rightarrow> []"
  have n: "(if isRecord (jget (JObj m) k) then entries_of (jget (JObj m) k) else []) = ?n"
    by (auto simp: isRecord_def split: option.split jsval.split)
  have "set_immutable m (k # k' # ks) v = map_set k (JObj (set_immutable ?n (k' # ks) v)) m"
    using "3.prems" by (simp only: set_immutable.simps(2) [of m k] Let_def n) simp
  then show ?case using "3.IH" "3.prems" by simp
qed auto

section \<open>Variables reach the configuration\<close>

text \<open>The paths that are written after the entries of the table.\<close>

definition LATE_PATHS :: "string list" where
  "LATE_PATHS = [''options.theming.themes'', ''options.theming.defaultTheme'', ''options.theming.headerBackground'',
     ADDITIONAL_THEMES_PATH, ''options.transport'']"

lemma late_paths:
  "set (map fst (fst (resolveThemingEnv lib env) @ fst (resolveTransportEnv env))) \<subseteq> set LATE_PATHS"
  by (auto simp: resolveThemingEnv_def resolveTransportEnv_def resolveAdditionalThemes_def collectThemeNamesEntries_def
      collectDefaultThemeEntries_def collectHeaderBackgroundEntries_def LATE_PATHS_def
      split: option.splits sum.splits prod.splits if_splits)

fun all_apart :: "string list list \<Rightarrow> bool" where
  "all_apart [] = True"
| "all_apart (k # ks) = (list_all (\<lambda>l. apart l k) ks \<and> all_apart ks)"

definition table_keys :: "string list list" where
  "table_keys = map (\<lambda>(_, p, _). safePathToKeys p) (filter (\<lambda>(_, _, ty). ty \<noteq> EnvPreset) (tl ENV_VAR_MAPPING)) @ map safePathToKeys LATE_PATHS"

lemma table_apart: "all_apart table_keys"
  by code_simp

lemma all_apart_later: "all_apart (xs @ k # ys) \<Longrightarrow> list_all (\<lambda>l. apart l k) ys"
  by (induction xs) auto

lemma mapping_head: "ENV_VAR_MAPPING = (''PORT'', ''listen.port'', EnvNumber) # tl ENV_VAR_MAPPING"
  by (simp add: ENV_VAR_MAPPING_def)

lemma env_value:
  assumes name: "map_get ENV_VAR_MAPPING name = Some (place, ty)" "name \<noteq> ''PORT''" "ty \<noteq> EnvPreset" and
    given: "map_get env name = Some s"
  shows "safeGetNested (JObj (fst (mapEnvironmentVariables lib env))) (safePathToKeys place) = parseEnvValue lib s ty"
proof -
  let ?f = "\<lambda>(envVar, place, ty). if ty = EnvPreset then None
      else map_option (\<lambda>v. (place, parseEnvValue lib v ty)) (readEnvString env envVar)"
  have "map_get (tl ENV_VAR_MAPPING) name = Some (place, ty)"
    using name(1,2) by (subst (asm) mapping_head) simp
  then obtain T1 T2 where T: "tl ENV_VAR_MAPPING = T1 @ (name, place, ty) # T2"
    using map_of_SomeD split_list by metis
  have "collectMappedEntries lib env = List.map_filter ?f ((''PORT'', ''listen.port'', EnvNumber) # T1) @ List.map_filter ?f ((name, place, ty) # T2)"
    unfolding collectMappedEntries_def by (subst mapping_head) (simp add: T List.map_filter_def)
  moreover have "List.map_filter ?f ((name, place, ty) # T2) = (place, parseEnvValue lib s ty) # List.map_filter ?f T2"
    using given name(3) by (simp add: List.map_filter_simps readEnvString_def)
  ultimately obtain earlier where
    "env_entries lib env = earlier @ (place, parseEnvValue lib s ty) # List.map_filter ?f T2
       @ fst (resolveThemingEnv lib env) @ fst (resolveTransportEnv env)"
    by (simp add: env_entries_def)
  note entries = this
  let ?keys = "map (\<lambda>(_, p, _). safePathToKeys p) (filter (\<lambda>(_, _, ty). ty \<noteq> EnvPreset) T2) @ map safePathToKeys LATE_PATHS"
  have later: "list_all (\<lambda>l. apart l (safePathToKeys place)) ?keys"
  proof -
    have "table_keys = map (\<lambda>(_, p, _). safePathToKeys p) (filter (\<lambda>(_, _, ty). ty \<noteq> EnvPreset) T1) @ safePathToKeys place # ?keys"
      using name(3) by (simp add: table_keys_def T)
    with table_apart show ?thesis by (metis all_apart_later)
  qed
  define tail where "tail = fst (resolveThemingEnv lib env) @ fst (resolveTransportEnv env)"
  have mapped: "safePathToKeys (fst e) \<in> set ?keys" if "e \<in> set (List.map_filter ?f T2)" for e
    using that by (force simp: set_map_filter split: if_splits)
  have late: "safePathToKeys (fst e) \<in> set ?keys" if "e \<in> set tail" for e
  proof -
    have "fst e \<in> set LATE_PATHS"
      by (rule subsetD [OF late_paths [of lib env]]) (unfold set_map tail_def [symmetric], rule imageI [OF that])
    then show ?thesis by auto
  qed
  have "list_all (\<lambda>(p, _). apart (safePathToKeys p) (safePathToKeys place)) (List.map_filter ?f T2 @ tail)"
    unfolding list_all_iff
  proof
    fix e assume "e \<in> set (List.map_filter ?f T2 @ tail)"
    then have "safePathToKeys (fst e) \<in> set ?keys" using mapped late unfolding set_append by blast
    with later have "apart (safePathToKeys (fst e)) (safePathToKeys place)" unfolding list_all_iff by blast
    then show "case e of (p, _) \<Rightarrow> apart (safePathToKeys p) (safePathToKeys place)" by (cases e) simp
  qed
  from write_entries_last [OF this] show ?thesis by (simp add: mapEnvironmentVariables_def entries tail_def)
qed

lemma parsed_number_bounds:
  assumes "lo \<le> hi" "lo \<le> d" "d \<le> hi"
  shows "lo \<le> parseNumberEnv v d (Some lo) (Some hi) \<and> parseNumberEnv v d (Some lo) (Some hi) \<le> hi"
  using assms by (auto simp: parseNumberEnv_def Let_def split: option.split)

lemma parsed_transports_ok:
  "parseTransports raw = (Some ts, w) \<Longrightarrow> ts \<noteq> [] \<and> distinct ts \<and> set ts \<subseteq> set VALID_TRANSPORTS \<and> w = None"
proof -
  have "distinct (fold set_add xs ys)" if "distinct ys" for xs ys :: "string list"
    using that by (induction xs arbitrary: ys) auto
  moreover have "set (fold set_add xs ys) = set xs \<union> set ys" for xs ys :: "string list"
    by (induction xs arbitrary: ys) auto
  ultimately show "parseTransports raw = (Some ts, w) \<Longrightarrow> ?thesis"
    by (auto simp: parseTransports_def transports_of_def normalize_transports_def Let_def split: if_splits jsval.splits)
qed

text \<open>An array of a variable may hold any JSON: its members are not checked to be texts.\<close>

lemma array_members_unchecked:
  "clJson lib ''[1]'' = ok (JArr [JNum (Num 1)]) \<Longrightarrow> parseEnvValue lib ''[1]'' EnvArray = JArr [JNum (Num 1)]"
  by (simp add: parseEnvValue_def parseArrayValue_def trim_def is_space_def code_def starts_with_def ends_with_def)

end
