(* ===== verification/Config_Load.thy ===== *)
theory Config_Load
  imports Config_Env
begin

text \<open>
  The configuration of the server: its defaults (\<open>config/default-config.ts\<close>), the merging of defaults, file and
  environment (\<open>utils/object-merger.ts\<close>, \<open>config/config-processor.ts\<close>), the rules it has to satisfy
  (\<open>utils/domain-validator.ts\<close>, \<open>validation/config.ts\<close>), its loading (\<open>config.ts\<close>) and its copy for the
  log (\<open>config/safe-logging.ts\<close>).  A configuration is a value; the Zod schema it is parsed by, the text of a
  value in a message and the random secret are parameters.
\<close>

definition at_path :: "jsval \<Rightarrow> string list \<Rightarrow> jsval" where
  "at_path v ks = safeGetNested v ks"

definition num :: "rat \<Rightarrow> jsval" where
  "num q = JNum (Num q)"

section \<open>Defaults\<close>

definition DEFAULT_SFTP_CONFIG :: jsval where
  "DEFAULT_SFTP_CONFIG = JObj
     [(''backend'', JStr ''sftp''), (''enabled'', JBool False), (''maxFileSize'', num 104857600),
      (''transferRateLimitBytesPerSec'', num 0), (''chunkSize'', num 32768), (''maxConcurrentTransfers'', num 2),
      (''allowedPaths'', JNull), (''blockedExtensions'', JArr []), (''timeout'', num 30000)]"

definition DEFAULT_SSH_ALGORITHMS :: jsval where
  "DEFAULT_SSH_ALGORITHMS = JObj
     [(''cipher'', strs [''chacha20-poly1305@openssh.com'', ''aes128-gcm'', ''aes128-gcm@openssh.com'', ''aes256-gcm'',
        ''aes256-gcm@openssh.com'', ''aes128-ctr'', ''aes192-ctr'', ''aes256-ctr'', ''aes256-cbc'']),
      (''compress'', strs [''none'', ''zlib@openssh.com'', ''zlib'']),
      (''hmac'', strs [''hmac-sha2-256-etm@openssh.com'', ''hmac-sha2-512-etm@openssh.com'', ''hmac-sha1-etm@openssh.com'',
        ''hmac-sha2-256'', ''hmac-sha2-512'', ''hmac-sha1'']),
      (''kex'', strs [''curve25519-sha256'', ''curve25519-sha256@libssh.org'', ''ecdh-sha2-nistp256'', ''ecdh-sha2-nistp384'',
        ''ecdh-sha2-nistp521'', ''diffie-hellman-group14-sha256'', ''diffie-hellman-group-exchange-sha256'',
        ''diffie-hellman-group14-sha1'']),
      (''serverHostKey'', strs [''ssh-ed25519'', ''rsa-sha2-512'', ''rsa-sha2-256'', ''ecdsa-sha2-nistp256'',
        ''ecdsa-sha2-nistp384'', ''ecdsa-sha2-nistp521'', ''ssh-rsa''])]"

definition DEFAULT_THEMING_CONFIG :: jsval where
  "DEFAULT_THEMING_CONFIG = JObj
     [(''enabled'', JBool False), (''allowCustom'', JBool True), (''themes'', JNull), (''additionalThemes'', JArr []),
      (''defaultTheme'', JStr ''Default''), (''headerBackground'', JStr ''independent'')]"

definition DEFAULT_SSH_CONFIG :: jsval where
  "DEFAULT_SSH_CONFIG = JObj
     [(''host'', JNull), (''port'', num 22), (''term'', JStr ''xterm-256color''), (''readyTimeout'', num 20000),
      (''keepaliveInterval'', num 120000), (''keepaliveCountMax'', num 10), (''allowedSubnets'', JArr []),
      (''alwaysSendKeyboardInteractivePrompts'', JBool False), (''disableInteractiveAuth'', JBool False),
      (''algorithms'', DEFAULT_SSH_ALGORITHMS), (''allowedAuthMethods'', strs DEFAULT_AUTH_METHODS),
      (''maxExecOutputBytes'', num (10 * 1024 * 1024)), (''outputRateLimitBytesPerSec'', num 0),
      (''socketHighWaterMark'', num (16 * 1024)), (''sftp'', DEFAULT_SFTP_CONFIG),
      (''hostKeyVerification'', JObj
         [(''enabled'', JBool False), (''mode'', JStr ''hybrid''), (''unknownKeyAction'', JStr ''prompt''),
          (''serverStore'', JObj [(''enabled'', JBool True), (''dbPath'', JStr ''/data/hostkeys.db'')]),
          (''clientStore'', JObj [(''enabled'', JBool True)])])]"

definition DEFAULT_CONFIG_BASE :: "(string, jsval) jsmap" where
  "DEFAULT_CONFIG_BASE =
     [(''listen'', JObj [(''ip'', JStr ''0.0.0.0''), (''port'', num 2222)]),
      (''http'', JObj [(''origins'', strs [''*:*''])]),
      (''user'', JObj [(''name'', JNull), (''password'', JNull), (''privateKey'', JNull), (''passphrase'', JNull)]),
      (''ssh'', DEFAULT_SSH_CONFIG),
      (''header'', JObj [(''text'', JNull), (''background'', JNull)]),
      (''options'', JObj
         [(''challengeButton'', JBool True), (''autoLog'', JBool False), (''allowReauth'', JBool True),
          (''allowReconnect'', JBool True), (''allowReplay'', JBool True), (''replayCRLF'', JBool False),
          (''terminal'', JObj [(''shiftEnterNewline'', JBool False)]), (''theming'', DEFAULT_THEMING_CONFIG)]),
      (''session'', JObj [(''name'', JStr ''webssh2.sid'')]),
      (''sso'', JObj
         [(''enabled'', JBool False), (''csrfProtection'', JBool False), (''trustedProxies'', JArr []),
          (''headerMapping'', JObj [(''username'', JStr ''x-apm-username''), (''password'', JStr ''x-apm-password''),
                                  (''session'', JStr ''x-apm-session'')])]),
      (''csp'', JObj
         [(''mode'', JStr ''report-only''), (''reportUri'', JStr ''/ssh/csp-report''), (''connectSrc'', JArr []),
          (''frameAncestors'', strs [''none''])]),
      (''logging'', JObj
         [(''namespace'', JStr ''webssh2:app''), (''minimumLevel'', JStr ''info''), (''stdout'', JObj [(''enabled'', JBool True)]),
          (''controls'', JObj [(''rateLimit'', JObj [(''rules'', JArr
             [JObj [(''target'', JStr ''csp_violation''), (''limit'', num 60), (''intervalMs'', num 60000)]])])])]),
      (''telnet'', JObj
         [(''enabled'', JBool False), (''defaultPort'', num 23), (''timeout'', num 30000), (''term'', JStr ''vt100''),
          (''auth'', JObj
             [(''loginPrompt'', JStr (''login:'' @ CHR 0x5C # ''s*$'')), (''passwordPrompt'', JStr (''[Pp]assword:'' @ CHR 0x5C # ''s*$'')),
              (''failurePattern'', JStr ''Login incorrect|Access denied|Login failed''), (''expectTimeout'', num 10000)]),
          (''allowedSubnets'', JArr [])])]"

text \<open>Values are immutable here, so a clone copies the named members and drops the others.\<close>

definition copy :: "string list \<Rightarrow> jsval \<Rightarrow> (string, jsval) jsmap" where
  "copy ks v = map (\<lambda>k. (k, jget v k)) ks"

definition copy_defined :: "string list \<Rightarrow> jsval \<Rightarrow> (string, jsval) jsmap" where
  "copy_defined ks v = filter (\<lambda>(_, x). x \<noteq> JUndefined) (copy ks v)"

definition cloneTelnetConfig :: "jsval \<Rightarrow> jsval" where
  "cloneTelnetConfig telnet = JObj
     (copy [''enabled'', ''defaultPort'', ''timeout'', ''term''] telnet
      @ [(''auth'', JObj (copy [''loginPrompt'', ''passwordPrompt'', ''failurePattern'', ''expectTimeout''] (jget telnet ''auth''))),
         (''allowedSubnets'', jget telnet ''allowedSubnets'')])"

definition cloneSftpConfig :: "jsval \<Rightarrow> jsval" where
  "cloneSftpConfig sftp = JObj
     (copy [''backend'', ''enabled'', ''maxFileSize'', ''transferRateLimitBytesPerSec'', ''chunkSize'', ''maxConcurrentTransfers'',
        ''allowedPaths'', ''blockedExtensions'', ''timeout''] sftp)"

definition cloneHostKeyVerificationConfig :: "jsval \<Rightarrow> jsval" where
  "cloneHostKeyVerificationConfig config = JObj
     (copy [''enabled'', ''mode'', ''unknownKeyAction''] config
      @ [(''serverStore'', JObj (copy [''enabled'', ''dbPath''] (jget config ''serverStore''))),
         (''clientStore'', JObj (copy [''enabled''] (jget config ''clientStore'')))])"

definition cloneLoggingSyslogTls :: "jsval \<Rightarrow> jsval" where
  "cloneLoggingSyslogTls tls =
     (if tls = JUndefined then JUndefined
      else JObj (copy [''enabled''] tls @ copy_defined [''caFile'', ''certFile'', ''keyFile'', ''rejectUnauthorized''] tls))"

definition member :: "string \<Rightarrow> jsval \<Rightarrow> (string, jsval) jsmap" where
  "member k v = (if v = JUndefined then [] else [(k, v)])"

definition cloneLoggingSyslog :: "jsval \<Rightarrow> jsval" where
  "cloneLoggingSyslog syslog =
     (if syslog = JUndefined then JUndefined
      else JObj (copy [''enabled''] syslog
             @ copy_defined [''host'', ''port'', ''appName'', ''enterpriseId'', ''bufferSize'', ''flushIntervalMs'', ''includeJson''] syslog
             @ member ''tls'' (cloneLoggingSyslogTls (jget syslog ''tls''))))"

definition cloneLoggingStdout :: "jsval \<Rightarrow> jsval" where
  "cloneLoggingStdout stdout =
     (if stdout = JUndefined then JUndefined else JObj (copy [''enabled''] stdout @ copy_defined [''minimumLevel''] stdout))"

definition cloneLoggingRateLimit :: "jsval \<Rightarrow> jsval" where
  "cloneLoggingRateLimit rateLimit = (if rateLimit = JUndefined then JUndefined else JObj (copy_defined [''rules''] rateLimit))"

definition cloneLoggingSampling :: "jsval \<Rightarrow> jsval" where
  "cloneLoggingSampling sampling =
     (if sampling = JUndefined then JUndefined else JObj (copy_defined [''defaultSampleRate'', ''rules''] sampling))"

definition cloneLoggingControls :: "jsval \<Rightarrow> jsval" where
  "cloneLoggingControls controls =
     (if controls = JUndefined then JUndefined
      else JObj (member ''sampling'' (cloneLoggingSampling (jget controls ''sampling''))
                 @ member ''rateLimit'' (cloneLoggingRateLimit (jget controls ''rateLimit''))))"

definition cloneLoggingConfig :: "jsval \<Rightarrow> jsval" where
  "cloneLoggingConfig config =
     (if config = JUndefined then JUndefined
      else JObj (copy_defined [''namespace'', ''minimumLevel''] config
                 @ member ''controls'' (cloneLoggingControls (jget config ''controls''))
                 @ member ''stdout'' (cloneLoggingStdout (jget config ''stdout''))
                 @ member ''syslog'' (cloneLoggingSyslog (jget config ''syslog''))))"

definition buildSshConfig :: jsval where
  "buildSshConfig =
     (let base = jget (JObj DEFAULT_CONFIG_BASE) ''ssh''
      in JObj (copy [''host'', ''port'', ''term'', ''readyTimeout'', ''keepaliveInterval'', ''keepaliveCountMax'',
                  ''alwaysSendKeyboardInteractivePrompts'', ''disableInteractiveAuth''] base
               @ [(''algorithms'', JObj (copy [''cipher'', ''compress'', ''hmac'', ''kex'', ''serverHostKey''] (jget base ''algorithms''))),
                  (''allowedSubnets'', if nullish (jget base ''allowedSubnets'') then JArr [] else jget base ''allowedSubnets''),
                  (''allowedAuthMethods'', jget base ''allowedAuthMethods''),
                  (''hostKeyVerification'', cloneHostKeyVerificationConfig (jget base ''hostKeyVerification''))]
               @ copy_defined [''maxExecOutputBytes'', ''outputRateLimitBytesPerSec'', ''socketHighWaterMark''] base
               @ (if jget base ''sftp'' = JUndefined then [] else [(''sftp'', cloneSftpConfig (jget base ''sftp''))])))"

text \<open>The argument \<open>random\<close> is the secret that is generated when none is given.\<close>

definition createCompleteDefaultConfig :: "string \<Rightarrow> string option \<Rightarrow> jsval" where
  "createCompleteDefaultConfig random sessionSecret =
     (let base = JObj DEFAULT_CONFIG_BASE; secret = (case sessionSecret of Some s \<Rightarrow> s | None \<Rightarrow> random);
          loggingConfig = cloneLoggingConfig (jget base ''logging'');
          telnetConfig = (if jget base ''telnet'' = JUndefined then JUndefined else cloneTelnetConfig (jget base ''telnet''))
      in JObj (copy [''listen'', ''http'', ''user''] base @ [(''ssh'', buildSshConfig)] @ copy [''header'', ''options''] base
               @ [(''session'', JObj (entries_of (jget base ''session'') @ [(''secret'', JStr secret)]))]
               @ copy [''sso'', ''csp''] base @ member ''logging'' loggingConfig @ member ''telnet'' telnetConfig))"

section \<open>Merging\<close>

lemma size_member: "(k, v) \<in> set m \<Longrightarrow> size v \<le> size_list (size_prod (\<lambda>_. 0) size) m"
  by (induction m) auto

text \<open>The loop over the entries of the source.\<close>

function (sequential) deep_merge :: "(string, jsval) jsmap \<Rightarrow> (string, jsval) jsmap \<Rightarrow> (string, jsval) jsmap" where
  "deep_merge out [] = out"
| "deep_merge out ((k, JObj sm) # rest) =
     deep_merge (map_set k (JObj (case map_get out k of Some (JObj tm) \<Rightarrow> deep_merge tm sm | _ \<Rightarrow> sm)) out) rest"
| "deep_merge out ((k, v) # rest) = deep_merge (map_set k v out) rest"
  by pat_completeness auto

termination deep_merge
  by (relation "measure (\<lambda>(_, s). size_list (size_prod (\<lambda>_. 0) size) s)") auto

definition deepMergePure :: "jsval \<Rightarrow> jsval \<Rightarrow> jsval" where
  "deepMergePure target source =
     (if \<not> isRecord source then JObj (entries_of target) else JObj (deep_merge (entries_of target) (entries_of source)))"

definition mergeConfigs :: "jsval \<Rightarrow> jsval option \<Rightarrow> jsval option \<Rightarrow> jsval" where
  "mergeConfigs defaultConfig fileConfig envConfig =
     (let m1 = (case fileConfig of None \<Rightarrow> defaultConfig | Some f \<Rightarrow> deepMergePure defaultConfig f)
      in case envConfig of None \<Rightarrow> m1 | Some e \<Rightarrow> deepMergePure m1 e)"

text \<open>A validation error is its place and its message.\<close>

type_synonym config_fault = "string \<times> string"

definition processConfig :: "(jsval \<Rightarrow> (config_fault list, jsval) result) \<Rightarrow> jsval \<Rightarrow> jsval option \<Rightarrow> jsval option \<Rightarrow>
    (string, jsval) result" where
  "processConfig schema defaultConfig fileConfig envConfig =
     (case schema (mergeConfigs defaultConfig fileConfig envConfig) of
        Inr c \<Rightarrow> ok c
      | Inl faults \<Rightarrow> err (join_with ''; '' (map (\<lambda>(place, m). place @ '': '' @ m) faults)))"

definition parseConfigJson :: "config_lib \<Rightarrow> string \<Rightarrow> (string, jsval) result" where
  "parseConfigJson lib jsonString = clJson lib jsonString"

definition createCorsConfig :: "jsval \<Rightarrow> jsval" where
  "createCorsConfig config =
     JObj [(''origin'', at_path config [''http'', ''origins'']), (''methods'', strs [''GET'', ''POST'']), (''credentials'', JBool True)]"

record hostkey_settings =
  hsEnabled :: bool
  hsMode :: string
  hsUnknownKeyAction :: string
  hsServerEnabled :: bool
  hsDbPath :: string
  hsClientEnabled :: bool

definition resolveHostKeyMode :: "hostkey_settings \<Rightarrow> bool \<Rightarrow> bool \<Rightarrow> (string, hostkey_settings) result" where
  "resolveHostKeyMode config serverStoreExplicit clientStoreExplicit =
     (let resolved = (\<lambda>server client. ok (config\<lparr>hsServerEnabled := if serverStoreExplicit then hsServerEnabled config else server,
                        hsClientEnabled := if clientStoreExplicit then hsClientEnabled config else client\<rparr>))
      in if hsMode config = ''server'' then resolved True False
         else if hsMode config = ''client'' then resolved False True
         else if hsMode config = ''hybrid'' then resolved True True
         else err (''Unknown host key verification mode: '' @ hsMode config))"

section \<open>Rules\<close>

definition validateSshHost :: "jsval \<Rightarrow> (string, string option) result" where
  "validateSshHost host =
     (case host of
        JStr h \<Rightarrow> if h = [] then ok None
                  else if CHR '' '' \<in> set h then err (''Invalid SSH host: '' @ h @ '' (contains spaces)'') else ok (Some h)
      | _ \<Rightarrow> ok None)"

definition is_integer :: "jsnum \<Rightarrow> bool" where
  "is_integer n = (case n of Num q \<Rightarrow> snd (quotient_of q) = 1 | _ \<Rightarrow> False)"

definition validateSshPort :: "(jsval \<Rightarrow> string) \<Rightarrow> jsval \<Rightarrow> (string, jsnum) result" where
  "validateSshPort text_of portParam =
     (let port = (if portParam = JUndefined then num 22 else portParam)
      in case port of
           JNum n \<Rightarrow> if \<not> is_integer n \<or> num_less n 1 \<or> num_greater n 65535
                     then err (''Invalid SSH port: '' @ text_of port) else ok n
         | _ \<Rightarrow> err (''Invalid SSH port: '' @ text_of port))"

definition css_chars :: "string \<Rightarrow> bool" where
  "css_chars s \<longleftrightarrow> s \<noteq> [] \<and> list_all (\<lambda>c. is_alpha c \<or> is_digit c \<or> is_space c
     \<or> c \<in> {CHR ''#'', CHR ''('', CHR '')'', CHR '','', CHR ''.'', CHR ''-''}) s"

definition validateCssColor :: "jsval \<Rightarrow> string option" where
  "validateCssColor color =
     (case color of JStr s \<Rightarrow> if s = [] \<or> \<not> css_chars s then None else Some s | _ \<Rightarrow> None)"

text \<open>The message of the exception, if the validator throws one.\<close>

definition validateField :: "(string, 'a) result \<Rightarrow> string \<Rightarrow> config_fault list" where
  "validateField outcome place = (case outcome of Inl message \<Rightarrow> [(place, message)] | Inr _ \<Rightarrow> [])"

definition checkAuthConfiguration :: "jsval \<Rightarrow> config_fault list" where
  "checkAuthConfiguration config =
     (let given = (\<lambda>ks. \<not> nullish (at_path config ks) \<and> at_path config ks \<noteq> JStr [])
      in if given [''ssh'', ''host''] \<and> given [''user'', ''name'']
            \<and> \<not> (given [''user'', ''password''] \<or> given [''user'', ''privateKey''])
         then [(''user'', ''SSH host is configured but no authentication method (password or private key) is provided'')]
         else [])"

text \<open>\<open>secret.length < 32\<close>: reading the length of \<open>undefined\<close> or \<open>null\<close> throws, and a length that is no number
  is not less.\<close>

definition secret_too_short :: "jsval \<Rightarrow> (string, bool) result" where
  "secret_too_short secret =
     (case secret of
        JUndefined \<Rightarrow> err ''Cannot read properties of undefined''
      | JNull \<Rightarrow> err ''Cannot read properties of null''
      | JStr s \<Rightarrow> ok (length s < 32)
      | JArr xs \<Rightarrow> ok (length xs < 32)
      | JObj m \<Rightarrow> ok (case map_get m ''length'' of Some (JNum n) \<Rightarrow> num_less n 32 | _ \<Rightarrow> False)
      | _ \<Rightarrow> ok False)"

text \<open>A load is refused with a list of faults, or an exception escapes.\<close>

datatype load_error = Faults "config_fault list" | Thrown string

definition validateBusinessRules :: "(jsval \<Rightarrow> string) \<Rightarrow> jsval \<Rightarrow> (load_error, jsval) result" where
  "validateBusinessRules text_of config =
     (let host = at_path config [''ssh'', ''host'']; background = at_path config [''header'', ''background''];
          localPort = at_path config [''ssh'', ''localPort''];
          faults =
            (if nullish host then [] else validateField (validateSshHost host) ''ssh.host'')
            @ validateField (validateSshPort text_of (at_path config [''ssh'', ''port''])) ''ssh.port''
            @ (if background \<noteq> JNull \<and> background \<noteq> JStr [] then validateField (ok (validateCssColor background)) ''header.background'' else [])
            @ (if localPort \<noteq> JUndefined then validateField (validateSshPort text_of localPort) ''ssh.localPort'' else [])
            @ validateField (validateSshPort text_of (at_path config [''listen'', ''port''])) ''listen.port''
            @ checkAuthConfiguration config
      in case secret_too_short (at_path config [''session'', ''secret'']) of
           Inl message \<Rightarrow> err (Thrown message)
         | Inr short \<Rightarrow>
             let all_faults = faults @ (if short
                   then [(''session.secret'', ''Session secret should be at least 32 characters for security'')] else [])
             in if all_faults \<noteq> [] then err (Faults all_faults) else ok config)"

section \<open>Loading\<close>

definition normalizeFileConfigTransport :: "(string, jsval) jsmap \<Rightarrow> (string, jsval) jsmap \<times> string option" where
  "normalizeFileConfigTransport fileConfig =
     (let rawOptions = jget (JObj fileConfig) ''options''
      in if rawOptions = JUndefined \<or> \<not> has_key rawOptions ''transport'' then (fileConfig, None)
         else case parseTransports (jget rawOptions ''transport'') of
                (None, warning) \<Rightarrow> (map_set ''options'' (JObj (map_delete ''transport'' (entries_of rawOptions))) fileConfig, warning)
              | (Some ts, warning) \<Rightarrow> (map_set ''options'' (JObj (map_set ''transport'' (strs ts) (entries_of rawOptions))) fileConfig, warning))"

text \<open>What reading the file gives: its text, that it is missing, or another error.\<close>

datatype file_reading = FileText string | FileMissing | FileFailed string

text \<open>A file whose JSON is \<open>null\<close>, or whose options are, makes the code throw; here it has no effect.\<close>

definition loadFileConfig :: "config_lib \<Rightarrow> bool \<Rightarrow> file_reading \<Rightarrow> (config_fault list, jsval option) result" where
  "loadFileConfig lib exists reading =
     (if \<not> exists then ok None
      else case reading of
        FileMissing \<Rightarrow> ok None
      | FileFailed message \<Rightarrow> err [(''config.json'', ''Failed to read config file: '' @ message)]
      | FileText t \<Rightarrow>
          (case parseConfigJson lib t of
             Inl message \<Rightarrow> err [(''config.json'', ''Failed to parse config JSON: '' @ message)]
           | Inr v \<Rightarrow> ok (Some (if isRecord v then JObj (fst (normalizeFileConfigTransport (entries_of v))) else v))))"

definition normalizeSessionSecret :: "string option \<Rightarrow> string option" where
  "normalizeSessionSecret v = (if v = Some [] then None else v)"

definition withoutNullSessionSecret :: "(string, jsval) jsmap \<Rightarrow> (string, jsval) jsmap" where
  "withoutNullSessionSecret envConfig =
     (case jget (JObj envConfig) ''session'' of
        JObj s \<Rightarrow>
          if jget (JObj s) ''secret'' \<noteq> JNull then envConfig
          else let rest = filter (\<lambda>(k, _). k \<noteq> ''secret'') s
               in if rest = [] then map_delete ''session'' envConfig else map_set ''session'' (JObj rest) envConfig
      | _ \<Rightarrow> envConfig)"

definition isSessionSecretGenerated :: "string option \<Rightarrow> environment \<Rightarrow> jsval option \<Rightarrow> bool" where
  "isSessionSecretGenerated sessionSecret env fileConfig \<longleftrightarrow>
     sessionSecret = None \<and> normalizeSessionSecret (map_get env ''WEBSSH2_SESSION_SECRET'') = None
     \<and> (case fileConfig of None \<Rightarrow> True | Some f \<Rightarrow> at_path f [''session'', ''secret''] = JUndefined)"

definition auth_raw_values :: "jsval \<Rightarrow> string list option" where
  "auth_raw_values v = (case v of JArr xs \<Rightarrow> Some (List.map_filter (\<lambda>x. case x of JStr s \<Rightarrow> Some s | _ \<Rightarrow> None) xs) | _ \<Rightarrow> None)"

definition with_auth_methods :: "jsval \<Rightarrow> auth_token list \<Rightarrow> jsval" where
  "with_auth_methods config methods =
     JObj (map_set ''ssh'' (JObj (map_set ''allowedAuthMethods''
       (strs (map (\<lambda>m. case m of PasswordToken \<Rightarrow> ''password'' | PublickeyToken \<Rightarrow> ''publickey''
                           | KeyboardInteractiveToken \<Rightarrow> ''keyboard-interactive'') methods))
       (entries_of (jget config ''ssh'')))) (entries_of config))"

record config_world =
  cwLib :: config_lib
  cwSchema :: "jsval \<Rightarrow> (config_fault list, jsval) result"
  cwText :: "jsval \<Rightarrow> string"
  cwRandom :: string

definition loadEnhancedConfig :: "config_world \<Rightarrow> bool \<Rightarrow> file_reading \<Rightarrow> string option \<Rightarrow> environment \<Rightarrow>
    (load_error, jsval) result" where
  "loadEnhancedConfig w exists reading sessionSecret env =
     (let defaultConfig = createCompleteDefaultConfig (cwRandom w) (normalizeSessionSecret sessionSecret)
      in case loadFileConfig (cwLib w) exists reading of
           Inl faults \<Rightarrow> err (Faults faults)
         | Inr fileConfig \<Rightarrow>
             let envConfig = JObj (withoutNullSessionSecret (fst (mapEnvironmentVariables (cwLib w) env)))
             in case processConfig (cwSchema w) defaultConfig fileConfig (Some envConfig) of
                  Inl message \<Rightarrow> err (Faults [([], message)])
                | Inr config \<Rightarrow>
                    (case resolveAllowedAuthMethods (auth_raw_values (at_path config [''ssh'', ''allowedAuthMethods''])) None of
                       Inl _ \<Rightarrow> err (Faults [(''ssh.allowedAuthMethods'',
                                    ''Allowed authentication methods list cannot be empty after validation'')])
                     | Inr (methods, _) \<Rightarrow> validateBusinessRules (cwText w) (with_auth_methods config methods)))"

text \<open>The second component says that the deprecated name is warned about.\<close>

definition resolveSessionSecretFromEnv :: "environment \<Rightarrow> string option \<times> bool" where
  "resolveSessionSecretFromEnv env =
     (let canonical = normalizeSessionSecret (map_get env ''WEBSSH2_SESSION_SECRET'');
          legacy = normalizeSessionSecret (map_get env ''WEBSSH_SESSION_SECRET'')
      in (case canonical of Some s \<Rightarrow> Some s | None \<Rightarrow> legacy, canonical = None \<and> legacy \<noteq> None))"

definition load_failure :: "config_fault list \<Rightarrow> string" where
  "load_failure faults =
     (if list_ex (\<lambda>(place, m). \<not> str_includes place ''config.json'' \<or> \<not> str_includes m ''ENOENT'') faults
      then ''Configuration validation failed: '' @ join_with '', '' (map snd faults)
      else ''Configuration loading failed unexpectedly'')"

definition loadConfigAsync :: "config_world \<Rightarrow> bool \<Rightarrow> file_reading \<Rightarrow> environment \<Rightarrow> (string, jsval) result" where
  "loadConfigAsync w exists reading env =
     (case loadEnhancedConfig w exists reading (fst (resolveSessionSecretFromEnv env)) env of
        Inl (Faults faults) \<Rightarrow> err (load_failure faults)
      | Inl (Thrown message) \<Rightarrow> err message
      | Inr config \<Rightarrow> ok config)"

text \<open>The instance of the module and the promise it was loaded by.\<close>

record config_module =
  cmInstance :: "jsval option"
  cmPromise :: "(string, jsval) result option option"

definition fresh_module :: config_module where
  "fresh_module = \<lparr>cmInstance = None, cmPromise = None\<rparr>"

datatype config_answer = Ready jsval | Pending | Rejected string

text \<open>The second component says whether a load was started.\<close>

definition getConfig_call :: "config_module \<Rightarrow> config_module \<times> config_answer \<times> bool" where
  "getConfig_call m =
     (case cmInstance m of
        Some c \<Rightarrow> (m, Ready c, False)
      | None \<Rightarrow>
          (case cmPromise m of
             None \<Rightarrow> (m\<lparr>cmPromise := Some None\<rparr>, Pending, True)
           | Some None \<Rightarrow> (m, Pending, False)
           | Some (Some (Inl e)) \<Rightarrow> (m, Rejected e, False)
           | Some (Some (Inr c)) \<Rightarrow> (m, Ready c, False)))"

definition config_loaded :: "(string, jsval) result \<Rightarrow> config_module \<Rightarrow> config_module" where
  "config_loaded r m =
     (if cmPromise m \<noteq> Some None then m
      else m\<lparr>cmPromise := Some (Some r), cmInstance := (case r of Inr c \<Rightarrow> Some c | Inl _ \<Rightarrow> cmInstance m)\<rparr>)"

definition getCorsConfig :: "config_module \<Rightarrow> (string, jsval) result" where
  "getCorsConfig m =
     (case cmInstance m of
        None \<Rightarrow> err ''Configuration not loaded. Call getConfig() first.''
      | Some c \<Rightarrow> ok (createCorsConfig c))"

section \<open>The copy for the log\<close>

definition maskWhenFilled :: "jsval \<Rightarrow> jsval" where
  "maskWhenFilled v = (if nullish v \<or> v = JStr [] then JNull else JStr ''***'')"

definition maskSessionSecret :: "jsval \<Rightarrow> jsval" where
  "maskSessionSecret secret = (if secret = JStr [] then JStr ''not set'' else JStr ''***'')"

definition js_length :: "jsval \<Rightarrow> jsval" where
  "js_length v = (case v of JArr xs \<Rightarrow> num (of_nat (length xs)) | _ \<Rightarrow> num 0)"

definition maskSensitiveConfig :: "jsval \<Rightarrow> jsval" where
  "maskSensitiveConfig config =
     (let theming = at_path config [''options'', ''theming'']; options = jget config ''options''; ssh = jget config ''ssh'';
          session = jget config ''session''; sso = jget config ''sso'';
          maskedTheming = (if theming = JUndefined then []
            else [(''theming'', JObj (copy [''enabled'', ''allowCustom'', ''defaultTheme'', ''headerBackground''] theming
                    @ [(''themesCount'', js_length (jget theming ''themes'')),
                       (''additionalThemesCount'', js_length (jget theming ''additionalThemes''))]))]);
          optionsWithoutTheming = copy [''challengeButton'', ''autoLog'', ''allowReauth'', ''allowReconnect'', ''allowReplay''] options
            @ copy_defined [''replayCRLF''] options;
          sshMasked = (if ssh = JUndefined then []
            else copy [''host'', ''port'', ''localAddress'', ''localPort'', ''term'', ''readyTimeout'', ''keepaliveInterval'',
                   ''keepaliveCountMax''] ssh
                 @ [(''allowedSubnets'', js_length (jget ssh ''allowedSubnets'')),
                    (''algorithms'', JObj (copy [''cipher'', ''kex'', ''hmac'', ''compress'', ''serverHostKey''] (jget ssh ''algorithms'')))]);
          sessionMasked = (if session = JUndefined then [(''name'', JStr []), (''secret'', JStr ''not set'')]
            else [(''name'', jget session ''name''), (''secret'', maskSessionSecret (jget session ''secret''))]);
          ssoMasked = (if sso = JUndefined then [(''enabled'', JBool False), (''csrfProtection'', JBool False), (''trustedProxies'', num 0)]
            else copy [''enabled'', ''csrfProtection''] sso @ [(''trustedProxies'', js_length (jget sso ''trustedProxies''))]);
          userMasked = map (\<lambda>k. (k, maskWhenFilled (at_path config [''user'', k]))) [''name'', ''password'', ''privateKey'', ''passphrase'']
      in JObj ([(''listen'', jget config ''listen''),
                (''http'', JObj [(''origins'', if jget config ''http'' = JUndefined then JArr [] else at_path config [''http'', ''origins''])]),
                (''user'', JObj userMasked), (''ssh'', JObj sshMasked), (''header'', jget config ''header''),
                (''options'', JObj optionsWithoutTheming), (''session'', JObj sessionMasked), (''sso'', JObj ssoMasked)]
               @ maskedTheming))"

section \<open>Properties\<close>

text \<open>Objects all of whose members have distinct names, as every JavaScript object has.\<close>

inductive wf_value :: "jsval \<Rightarrow> bool" where
  "\<not> isRecord v \<Longrightarrow> wf_value v"
| "distinct (map fst m) \<Longrightarrow> (\<And>k v. (k, v) \<in> set m \<Longrightarrow> wf_value v) \<Longrightarrow> wf_value (JObj m)"

lemma wf_object: "wf_value (JObj m) \<longleftrightarrow> wf_map m \<and> (\<forall>(k, v)\<in>set m. wf_value v)"
  unfolding wf_map_def by (subst wf_value.simps) (auto simp: isRecord_def)

lemma wf_simple [simp]: "\<not> isRecord v \<Longrightarrow> wf_value v"
  by (rule wf_value.intros)

lemma wf_set:
  assumes "wf_value (JObj m)" "wf_value v"
  shows "wf_value (JObj (map_set k v m))"
proof -
  have "x = (k, v) \<or> x \<in> set m" if "x \<in> set (map_set k v m)" for x
    using that by (induction m) (auto split: if_splits)
  with assms show ?thesis by (fastforce simp: wf_object)
qed

lemma wf_member: "wf_value (JObj m) \<Longrightarrow> map_get m k = Some v \<Longrightarrow> wf_value v"
  by (auto simp: wf_object dest: map_of_SomeD)

lemma wf_set_nested: "wf_value (JObj m) \<Longrightarrow> wf_value v \<Longrightarrow> wf_value (JObj (safeSetNested m ks v))"
proof (induction m ks v rule: safeSetNested.induct)
  case (3 m k k' ks v)
  have "wf_value (JObj (case map_get m k of Some (JObj n) \<Rightarrow> n | _ \<Rightarrow> []))"
    using wf_member [OF "3.prems"(1), of k] by (auto simp: wf_object split: option.split jsval.split)
  then show ?case using "3.IH" "3.prems" by (simp add: wf_set)
qed (auto intro: wf_set)

lemma wf_write_entries:
  "wf_value (JObj m) \<Longrightarrow> (\<And>p v. (p, v) \<in> set es \<Longrightarrow> wf_value v) \<Longrightarrow> wf_value (JObj (write_entries es m))"
  unfolding write_entries_def
  by (induction es arbitrary: m) (auto simp: setNestedProperty_def intro!: wf_set_nested)

lemma not_record [simp]: "\<not> isRecord (JStr a)" "\<not> isRecord (JArr xs)" "\<not> isRecord JNull" "\<not> isRecord (JBool b)"
  "\<not> isRecord (JNum n)" "\<not> isRecord (strs ss)" "\<not> isRecord JUndefined" "isRecord (JObj m)"
  by (simp_all add: isRecord_def strs_def)

lemma parsed_simple: "ty \<noteq> EnvJson \<Longrightarrow> \<not> isRecord (parseEnvValue lib s ty)"
  by (cases ty) (auto simp: parseEnvValue_def parseArrayValue_def split: sum.split jsval.split)

lemma parsed_defined: "parseEnvValue lib s ty \<noteq> JUndefined"
  by (cases ty) (auto simp: parseEnvValue_def parseArrayValue_def parseJsonValue_def strs_def split: sum.split jsval.split)

lemma wf_parsed:
  assumes json: "\<And>t v. clJson lib t = ok v \<Longrightarrow> wf_value v"
  shows "wf_value (parseEnvValue lib s ty)"
proof (cases "ty = EnvJson")
  case True
  then show ?thesis using json by (auto simp: parseEnvValue_def parseJsonValue_def split: sum.split)
qed (simp add: parsed_simple)

lemma wf_presets: "getAlgorithmPreset name = Some v \<Longrightarrow> wf_value v"
  by (auto simp: getAlgorithmPreset_def ALGORITHM_PRESETS_def wf_object wf_map_def split: if_splits)

lemma wf_environment:
  assumes json: "\<And>t v. clJson lib t = ok v \<Longrightarrow> wf_value v"
  shows "wf_value (JObj (fst (mapEnvironmentVariables lib env)))"
proof -
  have "wf_value (snd e)" if "e \<in> set (collectMappedEntries lib env)" for e
  proof -
    let ?f = "\<lambda>(envVar, place, ty). if ty = EnvPreset then None
      else map_option (\<lambda>v. (place, parseEnvValue lib v ty)) (readEnvString env envVar)"
    have "\<exists>x\<in>set ENV_VAR_MAPPING. ?f x = Some e"
      using that by (simp only: collectMappedEntries_def set_map_filter)
    then obtain x where x: "?f x = Some e" by blast
    obtain name place ty where "x = (name, place, ty)" by (cases x)
    with x have "(if ty = EnvPreset then None
        else map_option (\<lambda>v. (place, parseEnvValue lib v ty)) (readEnvString env name)) = Some e" by simp
    then obtain t where "snd e = parseEnvValue lib t ty" by (auto split: if_splits)
    then show ?thesis using wf_parsed [OF json] by simp
  qed
  moreover have "wf_value (snd e)" if "e \<in> set (collectPresetEntries env)" for e
    using that by (auto simp: collectPresetEntries_def dest!: wf_presets [OF sym] split: option.splits prod.splits)
  moreover have "wf_value (snd e)" if "e \<in> set (fst (resolveThemingEnv lib env))" for e
    using that
    by (auto simp: resolveThemingEnv_def resolveAdditionalThemes_def collectThemeNamesEntries_def collectDefaultThemeEntries_def
        collectHeaderBackgroundEntries_def split: option.splits sum.splits prod.splits if_splits)
  moreover have "wf_value (snd e)" if "e \<in> set (fst (resolveTransportEnv env))" for e
    using that by (auto simp: resolveTransportEnv_def split: option.splits prod.splits)
  ultimately have "wf_value v" if "(p, v) \<in> set (env_entries lib env)" for p v
    using that unfolding env_entries_def set_append by fastforce
  then show ?thesis by (simp add: mapEnvironmentVariables_def) (rule wf_write_entries; simp add: wf_object)
qed

text \<open>A member of the source that is no object wins over the target.\<close>

lemma deep_merge_absent: "k \<notin> set (map fst s) \<Longrightarrow> map_get (deep_merge t s) k = map_get t k"
  by (induction t s rule: deep_merge.induct) (auto simp: map_get_set split: option.split jsval.split)

lemma merge_leaf:
  assumes IH: "\<And>ks. wf_value (JObj rest) \<Longrightarrow> safeGetNested (JObj rest) ks = v \<Longrightarrow> v \<noteq> JUndefined \<Longrightarrow> \<not> isRecord v \<Longrightarrow>
      safeGetNested (JObj (deep_merge (map_set k y out) rest)) ks = v" and
    wf: "wf_value (JObj ((k, y) # rest))" and v: "safeGetNested (JObj ((k, y) # rest)) ks = v" "v \<noteq> JUndefined" "\<not> isRecord v"
  shows "safeGetNested (JObj (deep_merge (map_set k y out) rest)) ks = v"
proof -
  have rest: "wf_value (JObj rest)" "k \<notin> set (map fst rest)"
    using wf by (auto simp: wf_object wf_map_def)
  obtain l ls where ks: "ks = l # ls" using v by (cases ks) auto
  show ?thesis
  proof (cases "l = k")
    case True
    with v(1) show ?thesis using deep_merge_absent [OF rest(2), of "map_set k y out"] by (simp add: ks)
  next
    case False
    with v(1) have "safeGetNested (JObj rest) ks = v" by (simp add: ks)
    then show ?thesis using IH rest(1) v(2,3) by blast
  qed
qed

lemma deep_merge_get:
  assumes "wf_value (JObj s)" "safeGetNested (JObj s) ks = v" "v \<noteq> JUndefined" "\<not> isRecord v"
  shows "safeGetNested (JObj (deep_merge t s)) ks = v"
  using assms
proof (induction t s arbitrary: ks rule: deep_merge.induct)
  case (1 out)
  have "safeGetNested JUndefined ls = JUndefined" for ls by (cases ls) auto
  with 1 show ?case by (cases ks) auto
next
  case (2 out k sm rest)
  note IH = "2.IH"
  obtain l ls where ks: "ks = l # ls" using "2.prems" by (cases ks) auto
  have rest: "wf_value (JObj rest)" "k \<notin> set (map fst rest)" and sm: "wf_value (JObj sm)"
    using "2.prems"(1) by (auto simp: wf_object wf_map_def)
  define x where "x = (case map_get out k of Some (JObj tm) \<Rightarrow> deep_merge tm sm | _ \<Rightarrow> sm)"
  have step: "deep_merge out ((k, JObj sm) # rest) = deep_merge (map_set k (JObj x) out) rest"
    by (simp add: x_def)
  show ?case
  proof (cases "l = k")
    case True
    have v: "safeGetNested (JObj sm) ls = v" using "2.prems"(2) by (simp add: ks True)
    have "safeGetNested (JObj x) ls = v"
    proof (cases "\<exists>tm. map_get out k = Some (JObj tm)")
      case True
      then obtain tm where tm: "map_get out k = Some (JObj tm)" ..
      from IH(1) [OF tm refl sm v "2.prems"(3,4)] show ?thesis by (simp add: x_def tm)
    next
      case False
      then have "x = sm" by (auto simp: x_def split: option.split jsval.split)
      with v show ?thesis by simp
    qed
    then show ?thesis
      unfolding step ks using deep_merge_absent [OF rest(2), of "map_set k (JObj x) out"] by (simp add: True)
  next
    case False
    then have v: "safeGetNested (JObj rest) ks = v" using "2.prems"(2) by (simp add: ks)
    from IH(2) [OF rest(1) v "2.prems"(3,4)] show ?thesis unfolding step x_def .
  qed
qed (simp (no_asm) only: deep_merge.simps, rule merge_leaf, assumption+)+

lemma wf_filter: "wf_value (JObj m) \<Longrightarrow> wf_value (JObj (filter P m))"
  by (auto simp: wf_object wf_map_def intro: distinct_map_filter)

lemma wf_without_null: "wf_value (JObj m) \<Longrightarrow> wf_value (JObj (withoutNullSessionSecret m))"
proof -
  assume m: "wf_value (JObj m)"
  have "wf_value (jget (JObj m) k)" for k using wf_member [OF m, of k] by (simp split: option.split)
  then have "wf_value (jget (JObj m) ''session'')" .
  then show ?thesis
    using m unfolding withoutNullSessionSecret_def map_delete_filter
    by (auto simp: Let_def split: jsval.split intro!: wf_set wf_filter simp del: jget.simps)
qed

lemma map_get_filter: "k \<noteq> x \<Longrightarrow> map_get (filter (\<lambda>(k, _). k \<noteq> x) m) k = map_get m k"
  by (induction m) auto

text \<open>Dropping the empty secret leaves every other value alone.\<close>

lemma without_null_get:
  assumes v: "safeGetNested (JObj m) ks = v" "v \<noteq> JUndefined" "\<not> isRecord v" and ks: "ks \<noteq> [''session'', ''secret'']"
  shows "safeGetNested (JObj (withoutNullSessionSecret m)) ks = v"
proof (cases "\<exists>s. map_get m ''session'' = Some (JObj s) \<and> jget (JObj s) ''secret'' = JNull")
  case True
  then obtain s where s: "map_get m ''session'' = Some (JObj s)" "jget (JObj s) ''secret'' = JNull" by blast
  let ?rest = "filter (\<lambda>(k, _). k \<noteq> ''secret'') s"
  have w: "withoutNullSessionSecret m = (if ?rest = [] then map_delete ''session'' m else map_set ''session'' (JObj ?rest) m)"
    using s by (simp add: withoutNullSessionSecret_def Let_def)
  obtain l ls where l: "ks = l # ls" using v by (cases ks) auto
  show ?thesis
  proof (cases "l = ''session''")
    case False
    with v(1) show ?thesis by (simp add: w l map_get_set map_get_delete)
  next
    case session: True
    obtain k ks' where k: "ls = k # ks'" using v s by (cases ls) (auto simp: l session)
    have "k \<noteq> ''secret''"
    proof
      assume "k = ''secret''"
      with v(1) s have "safeGetNested JNull ks' = v" by (simp add: l session k split: option.splits)
      moreover have "ks' \<noteq> []" using ks \<open>k = ''secret''\<close> by (auto simp: l session k)
      ultimately show False using v(2) by (cases ks') (auto simp: safeGetNested.simps(2) nullish_def)
    qed
    then have get: "map_get ?rest k = map_get s k" by (rule map_get_filter)
    have val: "safeGetNested (case map_get s k of None \<Rightarrow> JUndefined | Some v \<Rightarrow> v) ks' = v"
      using v(1) s(1) by (simp add: l session k)
    have "?rest \<noteq> []"
    proof
      assume "?rest = []"
      then have "map_get s k = None" using get by simp
      with val v(2) show False by (cases ks') auto
    qed
    then show ?thesis using val get by (simp add: w l session k)
  qed
next
  case False
  then have "withoutNullSessionSecret m = m"
    by (auto simp: withoutNullSessionSecret_def split: option.split jsval.split option.splits)
  with v show ?thesis by simp
qed

lemma env_wins:
  assumes json: "\<And>t v. clJson lib t = ok v \<Longrightarrow> wf_value v" and
    name: "map_get ENV_VAR_MAPPING name = Some (place, ty)" "name \<noteq> ''PORT''" "ty \<notin> {EnvPreset, EnvJson}" and
    place: "safePathToKeys place \<noteq> [''session'', ''secret'']" and given: "map_get env name = Some s"
  shows "at_path (mergeConfigs defaultConfig fileConfig (Some (JObj (withoutNullSessionSecret (fst (mapEnvironmentVariables lib env))))))
      (safePathToKeys place) = parseEnvValue lib s ty"
proof -
  let ?env = "fst (mapEnvironmentVariables lib env)"
  have "safeGetNested (JObj ?env) (safePathToKeys place) = parseEnvValue lib s ty"
    using env_value [OF name(1,2) _ given] name(3) by simp
  then have "safeGetNested (JObj (withoutNullSessionSecret ?env)) (safePathToKeys place) = parseEnvValue lib s ty"
    using without_null_get [OF _ parsed_defined parsed_simple place] name(3) by simp
  moreover have "wf_value (JObj (withoutNullSessionSecret ?env))"
    by (rule wf_without_null [OF wf_environment [OF json]])
  ultimately show ?thesis
    using deep_merge_get [of "withoutNullSessionSecret ?env" "safePathToKeys place" "parseEnvValue lib s ty"] parsed_defined parsed_simple name(3)
    by (simp add: at_path_def mergeConfigs_def deepMergePure_def Let_def split: option.split)
qed

text \<open>C17: A variable of the environment decides its place in the configuration, whatever the defaults, the file and the
  other variables say: the merged configuration has there the parsed value of the variable.  Excepted are
  \<open>PORT\<close>, which a second variable overrides, presets and JSON objects, which are merged, and the session
  secret, of which an empty one is ignored.  The hypothesis on \<open>JSON.parse\<close> says that the members of an object
  have distinct names.\<close>

theorem env_variable_wins:
  assumes "\<And>t v. clJson lib t = ok v \<Longrightarrow> wf_value v" and
    "map_get ENV_VAR_MAPPING name = Some (place, ty)" "name \<noteq> ''PORT''" "ty \<notin> {EnvPreset, EnvJson}" and
    "safePathToKeys place \<noteq> [''session'', ''secret'']" and "map_get env name = Some s"
  shows "at_path (mergeConfigs defaultConfig fileConfig (Some (JObj (withoutNullSessionSecret (fst (mapEnvironmentVariables lib env))))))
      (safePathToKeys place) = parseEnvValue lib s ty"
  using assms by (rule env_wins)

definition example_config_lib :: config_lib where
  "example_config_lib = \<lparr>clJson = (\<lambda>_. err ''no JSON''), clFloat = parse_number, clFromBase64 = (\<lambda>_. []), clToBase64 = (\<lambda>_. []),
     clFromUtf8 = (\<lambda>_. []), clToUtf8 = (\<lambda>_. []),
     clThemes = \<lparr>tlNfkc = (\<lambda>s. s), tlUrl = (\<lambda>_. None), tlJson = (\<lambda>_. [])\<rparr>\<rparr>"

lemma env_variable_wins_witness:
  "at_path (mergeConfigs (JObj DEFAULT_CONFIG_BASE) None (Some (JObj (withoutNullSessionSecret (fst (mapEnvironmentVariables
      example_config_lib [(''WEBSSH2_SSH_HOST'', ''db'')])))))) [''ssh'', ''host''] = JStr ''db''"
proof -
  have keys: "safePathToKeys ''ssh.host'' = [''ssh'', ''host'']" by code_simp
  have "map_get ENV_VAR_MAPPING ''WEBSSH2_SSH_HOST'' = Some (''ssh.host'', EnvString)" by code_simp
  from env_variable_wins [OF _ this, of example_config_lib "[(''WEBSSH2_SSH_HOST'', ''db'')]" "''db''" "JObj DEFAULT_CONFIG_BASE" None]
  show ?thesis by (simp add: keys example_config_lib_def parseEnvValue_def)
qed

text \<open>What is loaded obeys the rules.\<close>

definition port_ok :: "jsval \<Rightarrow> bool" where
  "port_ok v = (case v of JNum n \<Rightarrow> is_integer n \<and> \<not> num_less n 1 \<and> \<not> num_greater n 65535 | _ \<Rightarrow> False)"

definition secret_ok :: "jsval \<Rightarrow> bool" where
  "secret_ok v = (case v of JStr s \<Rightarrow> 32 \<le> length s | _ \<Rightarrow> False)"

definition config_sound :: "jsval \<Rightarrow> bool" where
  "config_sound c \<longleftrightarrow>
     port_ok (at_path c [''listen'', ''port'']) \<and> port_ok (at_path c [''ssh'', ''port''])
     \<and> (at_path c [''ssh'', ''localPort''] = JUndefined \<or> port_ok (at_path c [''ssh'', ''localPort'']))
     \<and> secret_ok (at_path c [''session'', ''secret''])
     \<and> (case at_path c [''ssh'', ''host''] of JStr h \<Rightarrow> CHR '' '' \<notin> set h | _ \<Rightarrow> True)
     \<and> (case auth_raw_values (at_path c [''ssh'', ''allowedAuthMethods'']) of
          Some ms \<Rightarrow> ms \<noteq> [] \<and> list_all isKnownToken ms | None \<Rightarrow> False)"

text \<open>What the load needs of the library behind \<open>ConfigSchema\<close>: a configuration it lets through has the two ports
  and the secret, with the types the schema states for them.\<close>

definition is_number :: "jsval \<Rightarrow> bool" where
  "is_number v = (case v of JNum n \<Rightarrow> True | _ \<Rightarrow> False)"

definition typed :: "jsval \<Rightarrow> bool" where
  "typed c \<longleftrightarrow> is_number (at_path c [''listen'', ''port'']) \<and> is_number (at_path c [''ssh'', ''port''])
     \<and> (case at_path c [''session'', ''secret''] of JStr s \<Rightarrow> True | _ \<Rightarrow> False)"

definition schema_typed :: "(jsval \<Rightarrow> (config_fault list, jsval) result) \<Rightarrow> bool" where
  "schema_typed schema \<longleftrightarrow> (\<forall>v c. schema v = ok c \<longrightarrow> typed c)"

lemma port_valid: "validateSshPort text_of v = ok n \<Longrightarrow> v = JUndefined \<or> port_ok v"
  by (auto simp: validateSshPort_def port_ok_def num_def Let_def split: jsval.splits if_splits)

lemma no_faults: "validateField r place = [] \<longleftrightarrow> (\<exists>x. r = ok x)"
  by (cases r) (auto simp: validateField_def)

lemma rules_hold:
  assumes "validateBusinessRules text_of c = ok c'"
  shows "c' = c" "at_path c [''listen'', ''port''] = JUndefined \<or> port_ok (at_path c [''listen'', ''port''])"
    "at_path c [''ssh'', ''port''] = JUndefined \<or> port_ok (at_path c [''ssh'', ''port''])"
    "at_path c [''ssh'', ''localPort''] = JUndefined \<or> port_ok (at_path c [''ssh'', ''localPort''])"
    "secret_too_short (at_path c [''session'', ''secret'']) = ok False"
    "case at_path c [''ssh'', ''host''] of JStr h \<Rightarrow> CHR '' '' \<notin> set h | _ \<Rightarrow> True"
proof -
  have c: "c' = c \<and> (nullish (at_path c [''ssh'', ''host'']) \<or> (\<exists>x. validateSshHost (at_path c [''ssh'', ''host'']) = ok x))
      \<and> (\<exists>x. validateSshPort text_of (at_path c [''ssh'', ''port'']) = ok x)
      \<and> (\<exists>x. validateSshPort text_of (at_path c [''listen'', ''port'']) = ok x)
      \<and> (at_path c [''ssh'', ''localPort''] = JUndefined \<or> (\<exists>x. validateSshPort text_of (at_path c [''ssh'', ''localPort'']) = ok x))
      \<and> secret_too_short (at_path c [''session'', ''secret'']) = ok False"
    using assms unfolding validateBusinessRules_def Let_def
    by (cases "secret_too_short (at_path c [''session'', ''secret''])")
      (simp_all only: append_is_Nil_conv no_faults sum.case split: if_splits, simp_all)
  show "c' = c" "secret_too_short (at_path c [''session'', ''secret'']) = ok False" using c by blast+
  show "at_path c [''listen'', ''port''] = JUndefined \<or> port_ok (at_path c [''listen'', ''port''])"
    "at_path c [''ssh'', ''port''] = JUndefined \<or> port_ok (at_path c [''ssh'', ''port''])"
    "at_path c [''ssh'', ''localPort''] = JUndefined \<or> port_ok (at_path c [''ssh'', ''localPort''])"
    using c port_valid by blast+
  show "case at_path c [''ssh'', ''host''] of JStr h \<Rightarrow> CHR '' '' \<notin> set h | _ \<Rightarrow> True"
    using c by (cases "at_path c [''ssh'', ''host'']") (auto simp: validateSshHost_def nullish_def split: if_splits)
qed

text \<open>The list of authentication methods is all that is written into the checked configuration.\<close>

lemma with_auth_methods_at:
  "k \<noteq> ''ssh'' \<Longrightarrow> at_path (with_auth_methods config ms) [k, l] = at_path config [k, l]"
  "l \<noteq> ''allowedAuthMethods'' \<Longrightarrow> at_path (with_auth_methods config ms) [''ssh'', l] = at_path config [''ssh'', l]"
proof -
  have get: "jget (JObj (map_set a v (entries_of o1))) b = (if b = a then v else jget o1 b)" for a b v o1
    by (cases o1) (auto simp: map_get_set)
  have step: "safeGetNested v [a, b] = jget (jget v a) b" for v a b
    by (cases v; cases "jget v a") (auto simp: nullish_def safeGetNested.simps)
  show "k \<noteq> ''ssh'' \<Longrightarrow> at_path (with_auth_methods config ms) [k, l] = at_path config [k, l]"
    unfolding at_path_def step with_auth_methods_def get by simp
  show "l \<noteq> ''allowedAuthMethods'' \<Longrightarrow> at_path (with_auth_methods config ms) [''ssh'', l] = at_path config [''ssh'', l]"
    unfolding at_path_def step with_auth_methods_def get by (simp add: get del: jget.simps)
qed

lemma auth_methods_at:
  "auth_raw_values (at_path (with_auth_methods config ms) [''ssh'', ''allowedAuthMethods'']) =
     Some (map (\<lambda>m. case m of PasswordToken \<Rightarrow> ''password'' | PublickeyToken \<Rightarrow> ''publickey''
                           | KeyboardInteractiveToken \<Rightarrow> ''keyboard-interactive'') ms)"
proof -
  have strings: "List.map_filter (\<lambda>x. case x of JStr s \<Rightarrow> Some s | _ \<Rightarrow> None) (map JStr ss) = ss" for ss
    by (induction ss) (simp_all add: List.map_filter_simps)
  show ?thesis by (simp add: with_auth_methods_def at_path_def strs_def auth_raw_values_def strings del: map_map)
qed

lemma loaded_sound:
  assumes "loadEnhancedConfig w exists reading secret env = ok c" and typed: "schema_typed (cwSchema w)"
  shows "config_sound c"
proof -
  obtain v config ms ws where schema: "cwSchema w v = ok config"
    and ms: "resolveAllowedAuthMethods (auth_raw_values (at_path config [''ssh'', ''allowedAuthMethods''])) None = ok (ms, ws)"
    and rules: "validateBusinessRules (cwText w) (with_auth_methods config ms) = ok c"
    using assms(1) by (auto simp: loadEnhancedConfig_def processConfig_def Let_def split: sum.splits)
  have c: "c = with_auth_methods config ms" by (rule rules_hold(1) [OF rules])
  have t: "typed config" using typed schema by (simp add: schema_typed_def)
  have ports: "at_path c [''listen'', ''port''] \<noteq> JUndefined" "at_path c [''ssh'', ''port''] \<noteq> JUndefined"
    and secret: "secret_ok (at_path c [''session'', ''secret''])"
    using t rules_hold(5) [OF rules] unfolding c
    by (auto simp: typed_def is_number_def with_auth_methods_at secret_too_short_def secret_ok_def split: jsval.splits)
  have "ms \<noteq> []" using ms by (auto simp: resolveAllowedAuthMethods_def split: prod.splits if_splits)
  moreover have "isKnownToken (case m of PasswordToken \<Rightarrow> ''password'' | PublickeyToken \<Rightarrow> ''publickey''
      | KeyboardInteractiveToken \<Rightarrow> ''keyboard-interactive'')" for m
    by (cases m) (simp_all add: isKnownToken_def AUTH_METHOD_TOKENS_def)
  ultimately have methods: "case auth_raw_values (at_path c [''ssh'', ''allowedAuthMethods'']) of
      Some ms \<Rightarrow> ms \<noteq> [] \<and> list_all isKnownToken ms | None \<Rightarrow> False"
    unfolding c auth_methods_at by (simp only: option.case list_all_iff) simp
  show ?thesis
    using rules_hold(2-4,6) [OF rules] ports secret methods unfolding config_sound_def c by blast
qed

lemma default_secret:
  "at_path (createCompleteDefaultConfig random secret) [''session'', ''secret''] =
     JStr (case secret of Some s \<Rightarrow> s | None \<Rightarrow> random)"
proof -
  have "at_path (createCompleteDefaultConfig random secret) [''session'', ''secret''] =
      safeGetNested (JObj (entries_of (jget (JObj DEFAULT_CONFIG_BASE) ''session'')
        @ [(''secret'', JStr (case secret of Some s \<Rightarrow> s | None \<Rightarrow> random))])) [''secret'']"
    by (simp add: createCompleteDefaultConfig_def copy_def at_path_def Let_def del: jget.simps)
  moreover have "jget (JObj DEFAULT_CONFIG_BASE) ''session'' = JObj [(''name'', JStr ''webssh2.sid'')]" by code_simp
  ultimately show ?thesis by simp
qed

text \<open>C18: A configuration that loads is sound, whatever the file and the environment say: the ports of the server and of
  SSH are there and are whole numbers from 1 to 65535, as is the local port when one is given, the session secret is a
  text of at least 32 characters, the host has no blank, and the list of authentication methods is a non-empty list of known
  ones.  The library behind the schema is only trusted with the presence and the types of the two ports and the secret.
  The defaults the load starts from always have a secret, the one it is given or else the generated one.\<close>

theorem loaded_config_sound:
  assumes "loadConfigAsync w exists reading env = ok c" and "schema_typed (cwSchema w)"
  shows "config_sound c \<and> at_path (createCompleteDefaultConfig (cwRandom w) secret) [''session'', ''secret''] =
     JStr (case secret of Some s \<Rightarrow> s | None \<Rightarrow> cwRandom w)"
  using assms loaded_sound default_secret by (auto simp: loadConfigAsync_def split: sum.splits load_error.splits)

definition example_schema :: "jsval \<Rightarrow> (config_fault list, jsval) result" where
  "example_schema v = (if typed v then ok v else err [([], ''Invalid input'')])"

definition example_world :: config_world where
  "example_world = \<lparr>cwLib = example_config_lib, cwSchema = example_schema, cwText = (\<lambda>_. []), cwRandom = replicate 64 (CHR ''a'')\<rparr>"

definition example_load :: "(string, jsval) result" where
  "example_load = loadConfigAsync example_world False FileMissing [(''WEBSSH2_LISTEN_PORT'', ''8080'')]"

lemma loaded_config_sound_witness:
  "case example_load of Inr c \<Rightarrow> at_path c [''listen'', ''port''] = num 8080 \<and> config_sound c | Inl _ \<Rightarrow> False"
proof -
  have "case example_load of Inr c \<Rightarrow> at_path c [''listen'', ''port''] = num 8080 | Inl _ \<Rightarrow> False" by code_simp
  then have "\<exists>c. example_load = ok c \<and> at_path c [''listen'', ''port''] = num 8080"
    by (auto split: sum.splits)
  then obtain c where c: "example_load = ok c" "at_path c [''listen'', ''port''] = num 8080" by blast
  have "schema_typed (cwSchema example_world)"
    by (auto simp: schema_typed_def example_world_def example_schema_def split: if_splits)
  from loaded_config_sound [OF c(1) [unfolded example_load_def] this] c(2) show ?thesis unfolding c(1) sum.case by blast
qed

text \<open>A background that is no colour is not reported: the validator returns nothing where a thrown error is expected.\<close>

lemma bad_color_accepted:
  "validateField (ok (validateCssColor (JStr '';}''))) ''header.background'' = [] \<and> validateCssColor (JStr '';}'') = None"
  by code_simp

text \<open>A load that failed is never tried again.\<close>

lemma failed_load_sticks:
  assumes "cmInstance m = None" "cmPromise m = Some (Some (Inl e))"
  shows "getConfig_call m = (m, Rejected e, False)" "config_loaded r m = m"
  using assms by (simp_all add: getConfig_call_def config_loaded_def)

text \<open>At most one load is ever started.\<close>

lemma load_started_once:
  assumes "getConfig_call m = (m', a, True)"
  shows "fst (getConfig_call (config_loaded r m')) = config_loaded r m' \<and> snd (snd (getConfig_call (config_loaded r m'))) = False"
  using assms by (cases r) (auto simp: getConfig_call_def config_loaded_def split: option.splits sum.splits)

text \<open>The defaults obey the rules for every long enough secret.\<close>

lemma default_rules:
  assumes "32 \<le> length secret"
  shows "validateBusinessRules text_of (createCompleteDefaultConfig random (Some secret)) = ok (createCompleteDefaultConfig random (Some secret))"
proof -
  let ?c = "createCompleteDefaultConfig random (Some secret)"
  have top: "at_path ?c [''listen'', k] = safeGetNested (jget (JObj DEFAULT_CONFIG_BASE) ''listen'') [k]"
    "at_path ?c [''user'', k] = safeGetNested (jget (JObj DEFAULT_CONFIG_BASE) ''user'') [k]"
    "at_path ?c [''header'', k] = safeGetNested (jget (JObj DEFAULT_CONFIG_BASE) ''header'') [k]"
    "at_path ?c [''ssh'', k] = safeGetNested buildSshConfig [k]"
    "at_path ?c [''session'', k] = safeGetNested (JObj (entries_of (jget (JObj DEFAULT_CONFIG_BASE) ''session'') @ [(''secret'', JStr secret)])) [k]" for k
    by (simp_all add: createCompleteDefaultConfig_def copy_def at_path_def Let_def del: jget.simps)
  have "safeGetNested (jget (JObj DEFAULT_CONFIG_BASE) ''listen'') [''port''] = num 2222"
    "safeGetNested (jget (JObj DEFAULT_CONFIG_BASE) ''user'') [''name''] = JNull"
    "safeGetNested (jget (JObj DEFAULT_CONFIG_BASE) ''header'') [''background''] = JNull"
    "safeGetNested buildSshConfig [''host''] = JNull" "safeGetNested buildSshConfig [''port''] = num 22"
    "safeGetNested buildSshConfig [''localPort''] = JUndefined"
    "jget (JObj DEFAULT_CONFIG_BASE) ''session'' = JObj [(''name'', JStr ''webssh2.sid'')]"
    by code_simp+
  then have "at_path ?c [''ssh'', ''host''] = JNull" "at_path ?c [''ssh'', ''port''] = num 22" "at_path ?c [''header'', ''background''] = JNull"
    "at_path ?c [''ssh'', ''localPort''] = JUndefined" "at_path ?c [''listen'', ''port''] = num 2222"
    "at_path ?c [''user'', ''name''] = JNull" "at_path ?c [''session'', ''secret''] = JStr secret"
    by (simp_all add: top del: jget.simps)
  moreover have "is_integer (Num 22)" "is_integer (Num 2222)" by code_simp+
  ultimately show ?thesis
    using assms by (simp add: validateBusinessRules_def secret_too_short_def validateSshPort_def validateField_def checkAuthConfiguration_def num_def nullish_def)
qed

text \<open>Clones of the defaults are the defaults.\<close>

lemma clones_same:
  "cloneSftpConfig DEFAULT_SFTP_CONFIG = DEFAULT_SFTP_CONFIG"
  "cloneHostKeyVerificationConfig (jget DEFAULT_SSH_CONFIG ''hostKeyVerification'') = jget DEFAULT_SSH_CONFIG ''hostKeyVerification''"
  "cloneTelnetConfig (jget (JObj DEFAULT_CONFIG_BASE) ''telnet'') = jget (JObj DEFAULT_CONFIG_BASE) ''telnet''"
  by (simp_all add: cloneSftpConfig_def DEFAULT_SFTP_CONFIG_def copy_def cloneHostKeyVerificationConfig_def DEFAULT_SSH_CONFIG_def
      cloneTelnetConfig_def DEFAULT_CONFIG_BASE_def)

text \<open>The mode alone decides on the stores where the server asks without naming the explicit flags.\<close>

lemma mode_overrides_stores:
  "resolveHostKeyMode c False False = ok c' \<Longrightarrow> hsMode c = ''server'' \<Longrightarrow> \<not> hsClientEnabled c'"
  by (auto simp: resolveHostKeyMode_def Let_def)

text \<open>The copy for the log does not depend on secrets.\<close>

lemma mask_hides_user:
  assumes "k \<in> {''name'', ''password'', ''privateKey'', ''passphrase''}" "a \<noteq> []" "b \<noteq> []"
  shows "maskSensitiveConfig (JObj (safeSetNested c [''user'', k] (JStr a))) = maskSensitiveConfig (JObj (safeSetNested c [''user'', k] (JStr b)))"
proof -
  let ?n = "case map_get c ''user'' of Some (JObj n) \<Rightarrow> n | _ \<Rightarrow> []"
  have get: "jget (JObj (safeSetNested c [''user'', k] (JStr x))) l = (if l = ''user'' then JObj (map_set k (JStr x) ?n) else jget (JObj c) l)" for x l
    by (simp add: map_get_set)
  have other: "at_path (JObj (safeSetNested c [''user'', k] (JStr x))) (l # ls) = at_path (JObj c) (l # ls)" if "l \<noteq> ''user''" for x l ls
    using that by (simp add: at_path_def map_get_set)
  have user: "maskWhenFilled (at_path (JObj (safeSetNested c [''user'', k] (JStr x))) [''user'', l]) =
      (if l = k then JStr ''***'' else maskWhenFilled (jget (JObj ?n) l))" if "x \<noteq> []" for x l
    using that by (simp add: at_path_def map_get_set maskWhenFilled_def nullish_def)
  show ?thesis
    unfolding maskSensitiveConfig_def Let_def get
    by (simp add: other user assms(2,3) del: safeSetNested.simps jget.simps cong: if_cong)
qed

end
