(* ===== verification/Log_Format.thy ===== *)
theory Log_Format
  imports Token_Buckets Credentials
begin

text \<open>
  The texts of the log: the record of an event (\<open>logging/formatter.ts\<close>, \<open>logging/event-catalog.ts\<close>), the
  syslog message of a record (\<open>logging/syslog-formatter.ts\<close>) and the frame of a message
  (\<open>logging/syslog-transport.ts\<close>).  A record is a value; \<open>JSON\<close>, the text of a number and the clock are
  parameters.
\<close>

definition LOG_EVENT_NAMES :: "string list" where
  "LOG_EVENT_NAMES =
     [''auth_attempt'', ''auth_success'', ''auth_failure'', ''connection_failure'', ''session_init'', ''session_start'',
      ''session_end'', ''ssh_command'', ''pty_resize'', ''idle_timeout'', ''policy_block'', ''csp_violation'', ''error'',
      ''credential_replay'', ''sftp_list'', ''sftp_stat'', ''sftp_mkdir'', ''sftp_delete'', ''sftp_upload_start'',
      ''sftp_upload_chunk'', ''sftp_upload_complete'', ''sftp_upload_cancel'', ''sftp_download_start'', ''sftp_download_chunk'',
      ''sftp_download_complete'', ''sftp_download_cancel'', ''prompt_sent'', ''prompt_response'', ''prompt_timeout'', ''prompt_error'',
      ''theming_config_invalid'', ''transport_config_invalid'', ''security_posture'', ''env_var_deprecated'',
      ''session_secret_generated'']"

definition isLogEventName :: "string \<Rightarrow> bool" where
  "isLogEventName candidate \<longleftrightarrow> candidate \<in> set LOG_EVENT_NAMES"

section \<open>Validation of the context\<close>

definition CONTEXT_FIELD_MAP :: "(string \<times> string) list" where
  "CONTEXT_FIELD_MAP =
     [(''sessionId'', ''session_id''), (''requestId'', ''request_id''), (''username'', ''username''), (''authMethod'', ''auth_method''),
      (''mfaUsed'', ''mfa_used''), (''clientIp'', ''client_ip''), (''clientPort'', ''client_port''),
      (''clientSourcePort'', ''client_source_port''), (''userAgent'', ''user_agent''), (''targetHost'', ''target_host''),
      (''targetPort'', ''target_port''), (''protocol'', ''protocol''), (''subsystem'', ''subsystem''), (''status'', ''status''),
      (''reason'', ''reason''), (''errorCode'', ''error_code''), (''durationMs'', ''duration_ms''), (''bytesIn'', ''bytes_in''),
      (''bytesOut'', ''bytes_out''), (''auditId'', ''audit_id''), (''retentionTag'', ''retention_tag''),
      (''connectionId'', ''connection_id'')]"

definition MAX_REASON_LENGTH :: nat where "MAX_REASON_LENGTH = 512"

definition whole :: "rat \<Rightarrow> bool" where
  "whole q \<longleftrightarrow> snd (quotient_of q) = 1"

definition isValidPort :: "jsval \<Rightarrow> bool" where
  "isValidPort v = (case v of JNum (Num q) \<Rightarrow> whole q \<and> 0 \<le> q \<and> q \<le> 65535 | _ \<Rightarrow> False)"

definition isNonNegativeNumber :: "jsval \<Rightarrow> bool" where
  "isNonNegativeNumber v = (case v of JNum (Num q) \<Rightarrow> 0 \<le> q | _ \<Rightarrow> False)"

definition isValidErrorCode :: "jsval \<Rightarrow> bool" where
  "isValidErrorCode v = (case v of JStr s \<Rightarrow> s \<noteq> [] | JNum _ \<Rightarrow> True | _ \<Rightarrow> False)"

definition isValidReason :: "jsval \<Rightarrow> bool" where
  "isValidReason v = (case v of JStr s \<Rightarrow> 0 < length s \<and> length s \<le> MAX_REASON_LENGTH | _ \<Rightarrow> False)"

definition one_of :: "string list \<Rightarrow> jsval \<Rightarrow> bool" where
  "one_of names v = (case v of JStr s \<Rightarrow> s \<in> set names | _ \<Rightarrow> False)"

definition CONTEXT_VALIDATORS :: "(string \<times> (jsval \<Rightarrow> bool)) list" where
  "CONTEXT_VALIDATORS =
     map (\<lambda>k. (k, isNonEmptyString)) [''sessionId'', ''requestId'', ''username'', ''userAgent'', ''clientIp'', ''targetHost'',
        ''auditId'', ''retentionTag'', ''connectionId'']
     @ [(''clientPort'', isValidPort), (''clientSourcePort'', isValidPort), (''targetPort'', isValidPort),
        (''durationMs'', isNonNegativeNumber), (''bytesIn'', isNonNegativeNumber), (''bytesOut'', isNonNegativeNumber),
        (''mfaUsed'', \<lambda>v. case v of JBool _ \<Rightarrow> True | _ \<Rightarrow> False), (''errorCode'', isValidErrorCode),
        (''authMethod'', one_of [''publickey'', ''password'', ''keyboard-interactive'', ''agent'', ''gssapi'']),
        (''protocol'', one_of [''ssh'', ''sftp'', ''scp'']),
        (''subsystem'', one_of [''shell'', ''sftp'', ''scp'', ''exec'', ''prompt'', ''security'']),
        (''status'', one_of [''success'', ''failure'']), (''reason'', isValidReason)]"

definition validateContextValue :: "string \<Rightarrow> jsval \<Rightarrow> bool" where
  "validateContextValue key v = (case map_get CONTEXT_VALIDATORS key of None \<Rightarrow> False | Some valid \<Rightarrow> valid v)"

section \<open>Records\<close>

record log_input =
  liLevel :: log_level
  liEvent :: string
  liMessage :: "string option"
  liContext :: "(string, jsval) jsmap option"
  liData :: "(string, jsval) jsmap option"
  liError :: "(string \<times> string \<times> string option) option"
  liExtra :: "(string, jsval) jsmap option"

definition level_text :: "log_level \<Rightarrow> string" where
  "level_text l = (case l of Debug \<Rightarrow> ''debug'' | Info \<Rightarrow> ''info'' | Warn \<Rightarrow> ''warn'' | Error \<Rightarrow> ''error'')"

text \<open>A number keeps its value under \<open>Number.parseFloat(String(value))\<close>.\<close>

definition assignContextValue :: "(string, jsval) jsmap \<Rightarrow> string \<Rightarrow> jsval \<Rightarrow> (string, jsval) jsmap" where
  "assignContextValue r slot v = map_set slot v r"

fun applyContext :: "(string, jsval) jsmap \<Rightarrow> (string, jsval) jsmap \<Rightarrow> (string, (string, jsval) jsmap) result" where
  "applyContext [] r = ok r"
| "applyContext ((key, v) # es) r =
     (if v = JUndefined then applyContext es r
      else case map_get CONTEXT_FIELD_MAP key of
             None \<Rightarrow> applyContext es r
           | Some slot \<Rightarrow>
               if \<not> validateContextValue key v then err (''Invalid value provided for context field '' @ key)
               else applyContext es (assignContextValue r slot v))"

text \<open>The time is \<open>None\<close> when the clock gives no valid date.\<close>

definition createRecordSkeleton :: "log_input \<Rightarrow> string option \<Rightarrow> (string, (string, jsval) jsmap) result" where
  "createRecordSkeleton input now =
     (case now of
        None \<Rightarrow> err ''Clock produced invalid date''
      | Some ts \<Rightarrow>
          ok ([(''ts'', JStr ts), (''level'', JStr (level_text (liLevel input))), (''event'', JStr (liEvent input))]
              @ (case liMessage input of None \<Rightarrow> [] | Some m \<Rightarrow> [(''message'', JStr m)])))"

definition addExtraSection :: "(string, jsval) jsmap \<Rightarrow> log_input \<Rightarrow> string option \<Rightarrow> (string, jsval) jsmap" where
  "addExtraSection r input namespace =
     (let extra0 = (case namespace of None \<Rightarrow> [] | Some n \<Rightarrow> [(''logger_namespace'', JStr n)]);
          extra = (case liExtra input of None \<Rightarrow> extra0 | Some e \<Rightarrow> fold (\<lambda>(k, v). map_set k v) e extra0)
      in if extra \<noteq> [] then map_set ''extra'' (JObj extra) r else r)"

definition addDetailsSection :: "(string, jsval) jsmap \<Rightarrow> log_input \<Rightarrow> (string, jsval) jsmap" where
  "addDetailsSection r input =
     (case liData input of None \<Rightarrow> r | Some d \<Rightarrow> if d = [] then r else map_set ''details'' (JObj d) r)"

definition serialiseError :: "string \<times> string \<times> string option \<Rightarrow> jsval" where
  "serialiseError e =
     (case e of (message, name, stack) \<Rightarrow>
        JObj ([(''message'', JStr message), (''name'', JStr name)]
              @ (case stack of None \<Rightarrow> [] | Some s \<Rightarrow> [(''stack'', JArr (map (\<lambda>l. JStr (trim l)) (split_on (CHR 0x0A) s)))])))"

definition addErrorSection :: "(string, jsval) jsmap \<Rightarrow> log_input \<Rightarrow> (string, jsval) jsmap" where
  "addErrorSection r input =
     (case liError input of None \<Rightarrow> r | Some e \<Rightarrow> map_set ''error_details'' (serialiseError e) r)"

definition buildStructuredRecord :: "log_input \<Rightarrow> string option \<Rightarrow> string option \<Rightarrow> (string, (string, jsval) jsmap) result" where
  "buildStructuredRecord input now namespace =
     (case createRecordSkeleton input now of
        Inl e \<Rightarrow> err e
      | Inr r0 \<Rightarrow>
          let r = addErrorSection (addDetailsSection (addExtraSection r0 input namespace) input) input
          in case liContext input of None \<Rightarrow> ok r | Some context \<Rightarrow> applyContext context r)"

text \<open>\<open>to_json\<close> is \<open>JSON.stringify\<close> with its exception.\<close>

definition formatStructuredLog :: "(jsval \<Rightarrow> (string, string) result) \<Rightarrow> log_input \<Rightarrow> string option \<Rightarrow> string option \<Rightarrow>
    (string, string) result" where
  "formatStructuredLog to_json input now namespace =
     (if \<not> isLogEventName (liEvent input) then err (''Unknown log event: '' @ liEvent input)
      else case buildStructuredRecord input now namespace of
             Inl e \<Rightarrow> err e
           | Inr r \<Rightarrow> to_json (JObj r))"

section \<open>Syslog messages\<close>

record syslog_format =
  sfFacility :: "nat option"
  sfHostname :: "string option"
  sfAppName :: "string option"
  sfProcId :: "string option"
  sfEnterpriseId :: "nat option"
  sfIncludeJson :: bool

definition STRUCTURED_FIELDS :: "string list" where
  "STRUCTURED_FIELDS =
     [''event'', ''session_id'', ''request_id'', ''username'', ''client_ip'', ''target_host'', ''status'', ''connection_id'']"

definition SEVERITY_MAP :: "log_level \<Rightarrow> nat" where
  "SEVERITY_MAP l = (case l of Debug \<Rightarrow> 7 | Info \<Rightarrow> 6 | Warn \<Rightarrow> 4 | Error \<Rightarrow> 3)"

text \<open>\<open>replaceAll\<close> with a target that is not empty.\<close>

function replace_all :: "string \<Rightarrow> string \<Rightarrow> string \<Rightarrow> string" where
  "replace_all target replacement s =
     (if s = [] \<or> target = [] then s
      else if starts_with s target then replacement @ replace_all target replacement (drop (length target) s)
      else hd s # replace_all target replacement (tl s))"
  by pat_completeness auto

termination replace_all
  by (relation "measure (\<lambda>(_, _, s). length s)") auto

declare replace_all.simps [simp del]

abbreviation backslash :: char where "backslash \<equiv> CHR 0x5C"
abbreviation dquote :: char where "dquote \<equiv> CHR 0x22"

text \<open>The first target is a pair of backslashes.\<close>

definition STRUCTURED_VALUE_ESCAPES :: "(string \<times> string) list" where
  "STRUCTURED_VALUE_ESCAPES =
     [([backslash, backslash], [backslash, backslash, backslash, backslash]), ('']'', [backslash, CHR '']'']),
      ([dquote], [backslash, dquote])]"

definition escapeStructuredValue :: "string \<Rightarrow> string" where
  "escapeStructuredValue v = fold (\<lambda>(target, replacement) s. replace_all target replacement s) STRUCTURED_VALUE_ESCAPES v"

definition scalar_text :: "(jsnum \<Rightarrow> string) \<Rightarrow> jsval \<Rightarrow> string option" where
  "scalar_text num_text v =
     (case v of JStr s \<Rightarrow> Some s | JNum n \<Rightarrow> Some (num_text n)
      | JBool b \<Rightarrow> Some (if b then ''true'' else ''false'') | _ \<Rightarrow> None)"

definition structured_param :: "(jsnum \<Rightarrow> string) \<Rightarrow> jsval \<Rightarrow> string \<Rightarrow> string option" where
  "structured_param num_text r slot =
     map_option (\<lambda>s. slot @ CHR ''='' # dquote # escapeStructuredValue s @ [dquote]) (scalar_text num_text (jget r slot))"

definition buildStructuredData :: "(jsnum \<Rightarrow> string) \<Rightarrow> jsval \<Rightarrow> nat \<Rightarrow> string" where
  "buildStructuredData num_text r enterpriseId =
     (let params = List.map_filter (structured_param num_text r) STRUCTURED_FIELDS; sdId = ''webssh2@'' @ show_nat enterpriseId
      in if params = [] then ''['' @ sdId @ '']'' else ''['' @ sdId @ '' '' @ join_with '' '' params @ '']'')"

definition buildMessageBody :: "string \<Rightarrow> jsval \<Rightarrow> bool \<Rightarrow> string" where
  "buildMessageBody payload r includeJson =
     (if includeJson then payload
      else case jget r ''message'' of JStr m \<Rightarrow> if trim m \<noteq> [] then m else ''-'' | _ \<Rightarrow> ''-'')"

definition normaliseTimestamp :: "string \<Rightarrow> jsval \<Rightarrow> string" where
  "normaliseTimestamp now timestamp = (case timestamp of JStr s \<Rightarrow> if s \<noteq> [] then s else now | _ \<Rightarrow> now)"

text \<open>The host, the process and the clock of the machine.\<close>

record machine =
  mcHost :: string
  mcPid :: string
  mcNow :: string

definition given_or :: "'a option \<Rightarrow> 'a \<Rightarrow> 'a" where
  "given_or v d = (case v of Some x \<Rightarrow> x | None \<Rightarrow> d)"

definition js_text :: "jsval \<Rightarrow> string" where
  "js_text v = (case v of JStr s \<Rightarrow> s | _ \<Rightarrow> ''undefined'')"

definition formatSyslogMessage :: "(string \<Rightarrow> (string, jsval) result) \<Rightarrow> (jsnum \<Rightarrow> string) \<Rightarrow> machine \<Rightarrow> syslog_format \<Rightarrow> string \<Rightarrow>
    (string, string) result" where
  "formatSyslogMessage parse_json num_text mc options payload =
     (case parse_json payload of
        Inl e \<Rightarrow> err e
      | Inr r \<Rightarrow>
          let facility = given_or (sfFacility options) 16; enterpriseId = given_or (sfEnterpriseId options) 32473;
              priority = (case isLogLevel (js_text (jget r ''level'')) of
                            Some l \<Rightarrow> show_nat (facility * 8 + SEVERITY_MAP l) | None \<Rightarrow> ''NaN'');
              header = ''<'' @ priority @ ''>1 '' @ normaliseTimestamp (mcNow mc) (jget r ''ts'') @ '' ''
                @ given_or (sfHostname options) (mcHost mc) @ '' '' @ given_or (sfAppName options) ''webssh2'' @ '' ''
                @ given_or (sfProcId options) (mcPid mc) @ '' '' @ js_text (jget r ''event'') @ '' ''
                @ buildStructuredData num_text r enterpriseId
          in ok (header @ '' '' @ buildMessageBody payload r (sfIncludeJson options)))"

section \<open>Frames\<close>

text \<open>The UTF-8 bytes of a string of code units below 256.\<close>

definition utf8_char :: "char \<Rightarrow> nat list" where
  "utf8_char c = (if code c < 128 then [code c] else [192 + code c div 64, 128 + code c mod 64])"

definition utf8 :: "string \<Rightarrow> nat list" where
  "utf8 s = concat (map utf8_char s)"

definition frameMessage :: "string \<Rightarrow> string" where
  "frameMessage message = show_nat (length (utf8 message)) @ '' '' @ message"

section \<open>Properties\<close>

definition context_ok :: "(string, jsval) jsmap \<Rightarrow> bool" where
  "context_ok es \<longleftrightarrow>
     list_all (\<lambda>(k, v). v = JUndefined \<or> map_get CONTEXT_FIELD_MAP k = None \<or> validateContextValue k v) es"

definition RECORD_MEMBERS :: "string set" where
  "RECORD_MEMBERS =
     {''error_details'', ''details'', ''extra'', ''ts'', ''level'', ''event'', ''message''} \<union> set (map snd CONTEXT_FIELD_MAP)"

lemma context_ok_simps [simp]:
  "context_ok []"
  "context_ok ((k, v) # es) \<longleftrightarrow> (v = JUndefined \<or> map_get CONTEXT_FIELD_MAP k = None \<or> validateContextValue k v) \<and> context_ok es"
  by (simp_all add: context_ok_def)

lemma keys_of_set: "set (map fst (map_set k x m)) = insert k (set (map fst m))"
  by (simp add: dom_update)

lemma section_keys:
  "set (map fst (addExtraSection r input n)) \<subseteq> insert ''extra'' (set (map fst r))"
  "set (map fst (addDetailsSection r input)) \<subseteq> insert ''details'' (set (map fst r))"
  "set (map fst (addErrorSection r input)) \<subseteq> insert ''error_details'' (set (map fst r))"
  unfolding addExtraSection_def addDetailsSection_def addErrorSection_def Let_def
  by (simp_all add: keys_of_set subset_insertI del: set_map split: option.split)

lemma skeleton_keys:
  assumes "createRecordSkeleton input now = ok r"
  shows "set (map fst r) \<subseteq> {''ts'', ''level'', ''event'', ''message''}"
proof -
  obtain t where now: "now = Some t" using assms by (cases now) (simp_all add: createRecordSkeleton_def)
  show ?thesis
    using assms unfolding now createRecordSkeleton_def by (cases "liMessage input") auto
qed

lemma context_applied:
  assumes "applyContext es r = ok r'"
  shows "context_ok es
    \<and> set (map fst r') \<subseteq> set (map fst r) \<union> set (map snd CONTEXT_FIELD_MAP)"
  using assms
proof (induction es r rule: applyContext.induct)
  case (2 key v es r)
  have slot: "slot \<in> set (map snd CONTEXT_FIELD_MAP)" if "map_get CONTEXT_FIELD_MAP key = Some slot" for slot
    using that by (force dest: map_of_SomeD)
  show ?case
  proof (cases "v = JUndefined \<or> map_get CONTEXT_FIELD_MAP key = None")
    case True
    then have "applyContext es r = ok r'"
      using "2.prems" by (cases "v = JUndefined") simp_all
    then have "context_ok es
        \<and> set (map fst r') \<subseteq> set (map fst r) \<union> set (map snd CONTEXT_FIELD_MAP)"
      using "2.IH"(1,2) True by (cases "v = JUndefined") simp_all
    then show ?thesis using True by auto
  next
    case False
    then obtain s where s: "map_get CONTEXT_FIELD_MAP key = Some s" "v \<noteq> JUndefined" by auto
    have valid: "validateContextValue key v" and rest: "applyContext es (assignContextValue r s v) = ok r'"
      using "2.prems" s by (auto split: if_splits)
    from "2.IH"(3) [OF s(2,1)] valid rest show ?thesis
      using slot [OF s(1)] by (auto simp: assignContextValue_def keys_of_set simp del: set_map)
  qed
qed simp

lemma record_built:
  assumes "buildStructuredRecord input now namespace = ok r"
  shows "set (map fst r) \<subseteq> RECORD_MEMBERS \<and> (case liContext input of None \<Rightarrow> True | Some es \<Rightarrow> context_ok es)"
proof -
  obtain r0 where r0: "createRecordSkeleton input now = ok r0"
    using assms unfolding buildStructuredRecord_def by (cases "createRecordSkeleton input now") simp_all
  define r1 where "r1 = addErrorSection (addDetailsSection (addExtraSection r0 input namespace) input) input"
  have r1: "set (map fst r1) \<subseteq> {''error_details'', ''details'', ''extra'', ''ts'', ''level'', ''event'', ''message''}"
    unfolding r1_def
    by (rule order_trans [OF section_keys(3) insert_mono], rule order_trans [OF section_keys(2) insert_mono],
        rule order_trans [OF section_keys(1) insert_mono], rule skeleton_keys [OF r0])
  have r: "(case liContext input of None \<Rightarrow> ok r1 | Some context \<Rightarrow> applyContext context r1) = ok r"
    using assms unfolding buildStructuredRecord_def r0 r1_def by (simp add: Let_def)
  have members: "set (map fst r) \<subseteq> RECORD_MEMBERS" if "set (map fst r) \<subseteq> set (map fst r1) \<union> set (map snd CONTEXT_FIELD_MAP)"
    unfolding RECORD_MEMBERS_def by (rule order_trans [OF that Un_mono [OF r1 subset_refl]])
  show ?thesis
  proof (cases "liContext input")
    case None
    with r have "r = r1" by simp
    then have "set (map fst r) \<subseteq> RECORD_MEMBERS" by (intro members) simp
    then show ?thesis unfolding None option.case by (rule conjI [OF _ TrueI])
  next
    case (Some es)
    with r have "applyContext es r1 = ok r" by simp
    from context_applied [OF this] show ?thesis
      unfolding Some option.case by (intro conjI members) (erule conjunct2, erule conjunct1)
  qed
qed

text \<open>A record that is written is one of a known event, and each member of its context that is known has passed its
  validator; only the fixed members and those of the table of context fields occur in it.\<close>

theorem log_record_validated:
  assumes "formatStructuredLog to_json input now namespace = ok json"
  shows "isLogEventName (liEvent input) \<and> (\<exists>r. to_json (JObj r) = ok json \<and> set (map fst r) \<subseteq> RECORD_MEMBERS)
    \<and> (case liContext input of None \<Rightarrow> True | Some es \<Rightarrow> context_ok es)"
proof -
  obtain r where event: "isLogEventName (liEvent input)" and r: "buildStructuredRecord input now namespace = ok r" and
    json: "to_json (JObj r) = ok json"
    using assms unfolding formatStructuredLog_def
    by (cases "isLogEventName (liEvent input)"; cases "buildStructuredRecord input now namespace") simp_all
  have "set (map fst r) \<subseteq> RECORD_MEMBERS \<and> (case liContext input of None \<Rightarrow> True | Some es \<Rightarrow> context_ok es)"
    by (rule record_built [OF r])
  with event json show ?thesis by blast
qed

definition example_input :: log_input where
  "example_input = \<lparr>liLevel = Warn, liEvent = ''csp_violation'', liMessage = None, liContext = Some [(''clientIp'', JStr ''10.0.0.9'')],
     liData = None, liError = None, liExtra = None\<rparr>"

lemma log_record_validated_witness:
  "formatStructuredLog (\<lambda>_. ok ''{}'') example_input (Some ''now'') None = ok ''{}'' \<and> validateContextValue ''clientIp'' (JStr ''10.0.0.9'')"
proof -
  have f: "formatStructuredLog (\<lambda>_. ok ''{}'') example_input (Some ''now'') None = ok ''{}''" by code_simp
  have "map_get CONTEXT_FIELD_MAP ''clientIp'' \<noteq> None" by code_simp
  with log_record_validated [OF f] f show ?thesis by (simp add: example_input_def)
qed

section \<open>Values of structured data\<close>

lemma replace_all_Nil [simp]: "replace_all t r [] = []"
  by (simp add: replace_all.simps)

lemma replace_all_char: "replace_all [c] r s = concat (map (\<lambda>x. if x = c then r else [x]) s)"
proof (induction s)
  case (Cons x s)
  show ?case by (subst replace_all.simps) (simp add: starts_with_def Cons)
qed simp

lemma replace_all_absent: "c \<notin> set s \<Longrightarrow> replace_all (c # t) r s = s"
proof (induction s)
  case (Cons x s)
  then show ?case by (subst replace_all.simps) (auto simp: starts_with_def)
qed simp

text \<open>A reader of the value: a backslash escapes a backslash, a quote or a bracket, the first bare quote ends it.\<close>

fun read_value :: "string \<Rightarrow> (string \<times> string) option" where
  "read_value [] = None"
| "read_value [c] = (if c = dquote then Some ([], []) else None)"
| "read_value (c # d # s) =
     (if c = dquote then Some ([], d # s)
      else if c = backslash \<and> d \<in> {backslash, dquote, CHR '']''}
      then map_option (\<lambda>(v, rest). (d # v, rest)) (read_value s)
      else map_option (\<lambda>(v, rest). (c # v, rest)) (read_value (d # s)))"

lemma escape_plain:
  assumes "backslash \<notin> set v"
  shows "escapeStructuredValue v = concat (map (\<lambda>x. if x = CHR '']'' \<or> x = dquote then [backslash, x] else [x]) v)"
proof -
  have "concat (map (\<lambda>x. if x = dquote then [backslash, dquote] else [x]) (concat (map (\<lambda>x. if x = CHR '']'' then [backslash, CHR '']''] else [x]) v)))
      = concat (map (\<lambda>x. if x = CHR '']'' \<or> x = dquote then [backslash, x] else [x]) v)"
    by (induction v) auto
  then show ?thesis
    using assms by (simp add: escapeStructuredValue_def STRUCTURED_VALUE_ESCAPES_def replace_all_absent replace_all_char)
qed

lemma read_escaped:
  assumes "backslash \<notin> set v"
  shows "read_value (concat (map (\<lambda>x. if x = CHR '']'' \<or> x = dquote then [backslash, x] else [x]) v) @ dquote # rest) = Some (v, rest)"
  using assms
proof (induction v)
  case Nil
  then show ?case by (cases rest) auto
next
  case (Cons x v)
  let ?w = "concat (map (\<lambda>x. if x = CHR '']'' \<or> x = dquote then [backslash, x] else [x]) v) @ dquote # rest"
  obtain d s where w: "?w = d # s" by (cases ?w) auto
  have ih: "read_value ?w = Some (v, rest)" using Cons by simp
  show ?case
  proof (cases "x = CHR '']'' \<or> x = dquote")
    case True
    then show ?thesis using ih by auto
  next
    case False
    have "x \<noteq> backslash" using Cons.prems by auto
    then have "read_value (x # d # s) = Some (x # v, rest)"
      using ih False unfolding w by simp
    then show ?thesis using False w by simp
  qed
qed

text \<open>A value without backslashes is read back from the structured data of a syslog message exactly, whatever quotes and
  brackets it has and whatever follows it.\<close>

theorem syslog_value_roundtrip:
  assumes "backslash \<notin> set v"
  shows "read_value (escapeStructuredValue v @ dquote # rest) = Some (v, rest)"
  using read_escaped [OF assms] escape_plain [OF assms] by simp

lemma syslog_value_roundtrip_witness:
  "read_value (escapeStructuredValue (''a'' @ [dquote] @ '']b'') @ dquote # '' x'') = Some (''a'' @ [dquote] @ '']b'', '' x'')"
  by (rule syslog_value_roundtrip) simp

text \<open>A single backslash is not escaped: at the end of a value it hides the closing quote, and the next field becomes part
  of the value.\<close>

lemma backslash_swallows_quote:
  "escapeStructuredValue [CHR ''a'', backslash] = [CHR ''a'', backslash]"
  "read_value ([CHR ''a'', backslash] @ dquote # '' s='' @ [dquote]) = Some (CHR ''a'' # dquote # '' s='', [])"
  by (simp_all add: escapeStructuredValue_def STRUCTURED_VALUE_ESCAPES_def replace_all.simps starts_with_def)

section \<open>Frames\<close>

fun bytes_value :: "nat list \<Rightarrow> nat" where
  "bytes_value bs = foldl (\<lambda>n b. 10 * n + (b - 48)) 0 bs"

text \<open>A reader of octet-counted frames.\<close>

function read_frames :: "nat list \<Rightarrow> nat list list option" where
  "read_frames bs =
     (if bs = [] then Some []
      else let ds = takeWhile (\<lambda>b. 48 \<le> b \<and> b \<le> 57) bs; rest = dropWhile (\<lambda>b. 48 \<le> b \<and> b \<le> 57) bs
           in if ds = [] \<or> rest = [] \<or> hd rest \<noteq> 32 \<or> length (tl rest) < bytes_value ds then None
              else map_option ((#) (take (bytes_value ds) (tl rest))) (read_frames (drop (bytes_value ds) (tl rest))))"
  by pat_completeness auto

termination read_frames
proof (relation "measure length")
  fix bs ds rest :: "nat list"
  assume rest: "rest = dropWhile (\<lambda>b. 48 \<le> b \<and> b \<le> 57) bs" and ok: "\<not> (ds = [] \<or> rest = [] \<or> hd rest \<noteq> 32 \<or> length (tl rest) < bytes_value ds)"
  have "length rest \<le> length bs" unfolding rest by (rule length_dropWhile_le)
  moreover have "rest \<noteq> []" using ok by blast
  then have "length (tl rest) < length rest" by simp
  ultimately show "(drop (bytes_value ds) (tl rest), bs) \<in> measure length" by simp
qed simp

declare read_frames.simps [simp del]

lemma utf8_append: "utf8 (a @ b) = utf8 a @ utf8 b"
  by (simp add: utf8_def)

lemma utf8_digits: "list_all is_digit ds \<Longrightarrow> utf8 ds = map code ds"
  by (induction ds) (auto simp: utf8_def utf8_char_def is_digit_def)

lemma bytes_value_digits: "bytes_value (map code ds) = dec_val ds"
  by (simp add: dec_val_def digit_val_def foldl_map)

lemma read_frame:
  "read_frames (utf8 (frameMessage m) @ bs) = map_option ((#) (utf8 m)) (read_frames bs)"
proof -
  define ds where "ds = show_nat (length (utf8 m))"
  have digits: "list_all is_digit ds" "ds \<noteq> []" "dec_val ds = length (utf8 m)"
    using show_nat_digits [of "length (utf8 m)"] by (simp_all add: ds_def)
  define n where "n = map code ds"
  have n: "\<forall>b\<in>set n. 48 \<le> b \<and> b \<le> 57" "n \<noteq> []" "bytes_value n = length (utf8 m)"
    using digits by (auto simp: n_def list_all_iff is_digit_def bytes_value_digits simp del: bytes_value.simps)
  have "utf8 (frameMessage m) = utf8 ds @ utf8 '' '' @ utf8 m"
    unfolding frameMessage_def utf8_append [symmetric] ds_def by simp
  also have "utf8 '' '' = [32]" by code_simp
  finally have all: "utf8 (frameMessage m) @ bs = n @ 32 # utf8 m @ bs"
    using utf8_digits [OF digits(1)] by (simp add: n_def)
  have split: "takeWhile (\<lambda>b. 48 \<le> b \<and> b \<le> 57) (n @ 32 # utf8 m @ bs) = n"
    "dropWhile (\<lambda>b. 48 \<le> b \<and> b \<le> 57) (n @ 32 # utf8 m @ bs) = 32 # utf8 m @ bs"
    using n(1) by (simp_all add: takeWhile_append2 dropWhile_append2)
  show ?thesis
    unfolding all by (subst read_frames.simps) (simp add: split n Let_def del: bytes_value.simps)
qed

text \<open>C21: A collector that reads octet-counted frames recovers from the concatenated frames exactly the bytes of each message,
  in order, whatever the messages contain.\<close>

theorem syslog_frames_roundtrip:
  "read_frames (concat (map (\<lambda>m. utf8 (frameMessage m)) ms)) = Some (map utf8 ms)"
proof (induction ms)
  case Nil
  then show ?case by (simp add: read_frames.simps)
qed (simp add: read_frame)

end
