(* ===== verification/Log_Transports.thy ===== *)
theory Log_Transports
  imports Log_Format
begin

text \<open>
  The ways of a log line: the queue in front of the standard output (\<open>logging/stdout-transport.ts\<close>), the connection
  to a syslog collector (\<open>logging/syslog-transport.ts\<close>), filters and combinations
  (\<open>logging/transport-filters.ts\<close>, \<open>logging/composite-transport.ts\<close>) and the logger in front of them
  (\<open>logging/structured-logger.ts\<close>).  What a stream answers to each write is a list given in advance; a stream
  keeps what was written even when it answers that it is full.
\<close>

datatype log_error = BackpressureError | OtherError string

datatype write_outcome = Written | Full | Throws string

section \<open>Standard output\<close>

record stdout_transport =
  soQueue :: "string list"
  soWaiting :: bool
  soListener :: bool
  soStream :: "string list"
  soOutcomes :: "write_outcome list"

definition createStdoutTransport :: "write_outcome list \<Rightarrow> stdout_transport" where
  "createStdoutTransport outcomes =
     \<lparr>soQueue = [], soWaiting = False, soListener = False, soStream = [], soOutcomes = outcomes\<rparr>"

definition writePayloadToStream :: "string \<Rightarrow> string \<Rightarrow> stdout_transport \<Rightarrow> stdout_transport \<times> write_outcome" where
  "writePayloadToStream sep payload t =
     (case soOutcomes t of
        [] \<Rightarrow> (t\<lparr>soStream := soStream t @ [payload @ sep]\<rparr>, Written)
      | Throws m # os \<Rightarrow> (t\<lparr>soOutcomes := os\<rparr>, Throws m)
      | out # os \<Rightarrow> (t\<lparr>soStream := soStream t @ [payload @ sep], soOutcomes := os\<rparr>, out))"

definition attachDrainListener :: "stdout_transport \<Rightarrow> stdout_transport" where
  "attachDrainListener t = t\<lparr>soListener := True\<rparr>"

definition stdout_publish :: "nat \<Rightarrow> string \<Rightarrow> stdout_transport \<Rightarrow> string \<Rightarrow> stdout_transport \<times> (log_error, unit) result" where
  "stdout_publish maxQueueSize sep t payload =
     (if soWaiting t then
        if length (soQueue t) \<ge> maxQueueSize then (t, err BackpressureError)
        else (t\<lparr>soQueue := soQueue t @ [payload]\<rparr>, ok ())
      else case writePayloadToStream sep payload t of
             (t1, Throws m) \<Rightarrow> (t1, err (OtherError m))
           | (t1, Full) \<Rightarrow> (attachDrainListener (t1\<lparr>soWaiting := True\<rparr>), ok ())
           | (t1, Written) \<Rightarrow> (t1, ok ()))"

text \<open>The loop of \<open>flush\<close>; a payload leaves the queue after a write that does not fill the stream.\<close>

fun flush_loop :: "string \<Rightarrow> string list \<Rightarrow> stdout_transport \<Rightarrow> stdout_transport \<times> (log_error, unit) result" where
  "flush_loop sep [] t = (t\<lparr>soQueue := [], soWaiting := False\<rparr>, ok ())"
| "flush_loop sep (p # ps) t =
     (case writePayloadToStream sep p t of
        (t1, Throws m) \<Rightarrow> (t1\<lparr>soQueue := p # ps\<rparr>, err (OtherError m))
      | (t1, Full) \<Rightarrow> (attachDrainListener (t1\<lparr>soQueue := p # ps, soWaiting := True\<rparr>), ok ())
      | (t1, Written) \<Rightarrow> flush_loop sep ps t1)"

definition stdout_flush :: "string \<Rightarrow> stdout_transport \<Rightarrow> stdout_transport \<times> (log_error, unit) result" where
  "stdout_flush sep t = flush_loop sep (soQueue t) t"

definition handleDrain :: "string \<Rightarrow> stdout_transport \<Rightarrow> stdout_transport" where
  "handleDrain sep t =
     (if \<not> soListener t then t
      else case stdout_flush sep (t\<lparr>soListener := False\<rparr>) of
             (t1, Inl _) \<Rightarrow> t1\<lparr>soWaiting := False\<rparr>
           | (t1, Inr _) \<Rightarrow> t1)"

datatype stdout_event = LogPublish string | LogFlush | LogDrain

text \<open>The payloads that were accepted are collected beside the state.\<close>

definition stdout_step :: "nat \<Rightarrow> string \<Rightarrow> stdout_event \<Rightarrow> stdout_transport \<times> string list \<Rightarrow> stdout_transport \<times> string list" where
  "stdout_step maxQueueSize sep ev st =
     (case st of (t, accepted) \<Rightarrow>
        case ev of
          LogPublish p \<Rightarrow>
            (case stdout_publish maxQueueSize sep t p of
               (t1, Inr _) \<Rightarrow> (t1, accepted @ [p])
             | (t1, Inl _) \<Rightarrow> (t1, accepted))
        | LogFlush \<Rightarrow> (fst (stdout_flush sep t), accepted)
        | LogDrain \<Rightarrow> (handleDrain sep t, accepted))"

definition stdout_run :: "nat \<Rightarrow> string \<Rightarrow> write_outcome list \<Rightarrow> stdout_event list \<Rightarrow> stdout_transport \<times> string list" where
  "stdout_run maxQueueSize sep outcomes evs = fold (stdout_step maxQueueSize sep) evs (createStdoutTransport outcomes, [])"

section \<open>Combinations\<close>

fun publishToAll :: "('s \<Rightarrow> string \<Rightarrow> 's \<times> (log_error, unit) result) \<Rightarrow> string \<Rightarrow> 's list \<Rightarrow> 's list \<times> (log_error, unit) result" where
  "publishToAll pub payload [] = ([], ok ())"
| "publishToAll pub payload (t # ts) =
     (case pub t payload of
        (t1, r) \<Rightarrow> (case publishToAll pub payload ts of
                      (ts1, rs) \<Rightarrow> (t1 # ts1, case r of Inl e \<Rightarrow> err e | Inr _ \<Rightarrow> rs)))"

fun flushAll :: "('s \<Rightarrow> 's \<times> (log_error, unit) result) \<Rightarrow> 's list \<Rightarrow> 's list \<times> (log_error, unit) result" where
  "flushAll fl [] = ([], ok ())"
| "flushAll fl (t # ts) =
     (case fl t of
        (t1, r) \<Rightarrow> (case flushAll fl ts of (ts1, rs) \<Rightarrow> (t1 # ts1, case r of Inl e \<Rightarrow> err e | Inr _ \<Rightarrow> rs)))"

text \<open>A level that is not known has the priority of an error.\<close>

definition parsePayloadLevel :: "(string \<Rightarrow> (string, jsval) result) \<Rightarrow> string \<Rightarrow> (string, log_level) result" where
  "parsePayloadLevel parse_json payload =
     (case parse_json payload of
        Inl e \<Rightarrow> err e
      | Inr v \<Rightarrow>
          (case jget v ''level'' of
             JStr l \<Rightarrow> ok (given_or (isLogLevel l) Error)
           | _ \<Rightarrow> err ''Structured log payload missing level''))"

definition filtered_publish :: "(string \<Rightarrow> (string, jsval) result) \<Rightarrow> log_level \<Rightarrow>
    ('s \<Rightarrow> string \<Rightarrow> 's \<times> (log_error, unit) result) \<Rightarrow> 's \<Rightarrow> string \<Rightarrow> 's \<times> (log_error, unit) result" where
  "filtered_publish parse_json minimumLevel pub t payload =
     (case parsePayloadLevel parse_json payload of
        Inl e \<Rightarrow> (t, err (OtherError e))
      | Inr level \<Rightarrow> if \<not> shouldLog level minimumLevel then (t, ok ()) else pub t payload)"

text \<open>Without a transport nothing is written.\<close>

definition composite_publish :: "('s \<Rightarrow> string \<Rightarrow> 's \<times> (log_error, unit) result) \<Rightarrow> 's option list \<Rightarrow> string \<Rightarrow>
    's list \<times> (log_error, unit) result" where
  "composite_publish pub ts payload = publishToAll pub payload (List.map_filter id ts)"

section \<open>Syslog\<close>

record syslog_options =
  syBufferSize :: nat
  syFactory :: bool

record syslog_transport =
  syQueue :: "string list"
  sySocket :: "nat option"
  syConnecting :: bool
  syFlushTimer :: bool
  syReconnectTimer :: bool
  syDelay :: nat
  syNext :: nat
  syWritten :: "(nat \<times> string) list"
  syOutcomes :: "bool list"
  syFactoryThrows :: "bool list"

definition DEFAULT_RECONNECT_DELAY_MS :: nat where "DEFAULT_RECONNECT_DELAY_MS = 1000"
definition MAX_RECONNECT_DELAY_MS :: nat where "MAX_RECONNECT_DELAY_MS = 30000"

definition validateSyslogOptions :: "string option \<Rightarrow> jsnum option \<Rightarrow> (string, string \<times> jsnum) result" where
  "validateSyslogOptions host port =
     (case host of
        None \<Rightarrow> err ''Syslog host is required when syslog transport is enabled''
      | Some h \<Rightarrow>
          if trim h = [] then err ''Syslog host is required when syslog transport is enabled''
          else case port of
                 None \<Rightarrow> err ''Syslog port is required when syslog transport is enabled''
               | Some p \<Rightarrow> if p = NaN then err ''Syslog port is required when syslog transport is enabled'' else ok (h, p))"

record tls_options =
  toEnabled :: bool
  toCaFile :: "string option"
  toCertFile :: "string option"
  toKeyFile :: "string option"
  toRejectUnauthorized :: "bool option"

record tls_credentials =
  tcCa :: "string option"
  tcCert :: "string option"
  tcKey :: "string option"
  tcRejectUnauthorized :: bool

text \<open>The file system: the absolute path of a path and the content of a file.\<close>

record file_reader =
  frResolve :: "string \<Rightarrow> string"
  frRead :: "string \<Rightarrow> (string, string) result"

definition readOptionalFile :: "file_reader \<Rightarrow> string option \<Rightarrow> (string, string option) result" where
  "readOptionalFile fr filePath =
     (case filePath of
        None \<Rightarrow> ok None
      | Some p \<Rightarrow>
          let resolved = frResolve fr p
          in if \<not> starts_with resolved ''/'' \<or> str_includes resolved ''..''
             then err ''Syslog TLS credential paths must be absolute without traversal''
             else case frRead fr resolved of Inl e \<Rightarrow> err e | Inr d \<Rightarrow> ok (Some d))"

definition createTlsCredentials :: "file_reader \<Rightarrow> tls_options option \<Rightarrow> (string, tls_credentials option) result" where
  "createTlsCredentials fr options =
     (case options of
        None \<Rightarrow> ok None
      | Some o' \<Rightarrow>
          if \<not> toEnabled o' then ok None
          else case readOptionalFile fr (toCaFile o') of
                 Inl e \<Rightarrow> err e
               | Inr ca \<Rightarrow>
                   (case readOptionalFile fr (toCertFile o') of
                      Inl e \<Rightarrow> err e
                    | Inr cert \<Rightarrow>
                        (case readOptionalFile fr (toKeyFile o') of
                           Inl e \<Rightarrow> err e
                         | Inr key \<Rightarrow>
                             ok (Some \<lparr>tcCa = ca, tcCert = cert, tcKey = key,
                                        tcRejectUnauthorized = given_or (toRejectUnauthorized o') True\<rparr>))))"

text \<open>One write to the bound socket; the answer says whether there is room for more.\<close>

definition syslog_write :: "nat \<Rightarrow> string \<Rightarrow> syslog_transport \<Rightarrow> syslog_transport \<times> bool" where
  "syslog_write sid frame t =
     (let t1 = t\<lparr>syWritten := syWritten t @ [(sid, frame)]\<rparr>
      in case syOutcomes t of [] \<Rightarrow> (t1, True) | room # os \<Rightarrow> (t1\<lparr>syOutcomes := os\<rparr>, room))"

fun write_loop :: "nat \<Rightarrow> string list \<Rightarrow> syslog_transport \<Rightarrow> syslog_transport" where
  "write_loop sid [] t = t\<lparr>syQueue := []\<rparr>"
| "write_loop sid (p # ps) t =
     (case syslog_write sid p t of
        (t1, room) \<Rightarrow> if \<not> room then t1\<lparr>syQueue := p # ps\<rparr> else write_loop sid ps t1)"

definition write_queue :: "syslog_transport \<Rightarrow> syslog_transport" where
  "write_queue t = (case sySocket t of None \<Rightarrow> t | Some sid \<Rightarrow> write_loop sid (syQueue t) t)"

definition bindSocket :: "syslog_transport \<Rightarrow> syslog_transport" where
  "bindSocket t = t\<lparr>sySocket := Some (syNext t), syNext := Suc (syNext t)\<rparr>"

definition connectUsingFactory :: "syslog_transport \<Rightarrow> syslog_transport" where
  "connectUsingFactory t =
     (case syFactoryThrows t of
        True # fs \<Rightarrow> t\<lparr>syConnecting := False, syFactoryThrows := fs\<rparr>
      | fs \<Rightarrow> write_queue (bindSocket (t\<lparr>syConnecting := False, syDelay := DEFAULT_RECONNECT_DELAY_MS, syFactoryThrows := tl fs\<rparr>)))"

definition ensureConnection :: "syslog_options \<Rightarrow> syslog_transport \<Rightarrow> syslog_transport" where
  "ensureConnection opts t =
     (if sySocket t \<noteq> None \<or> syConnecting t then t
      else if syFactory opts then connectUsingFactory (t\<lparr>syConnecting := True\<rparr>)
      else bindSocket (t\<lparr>syConnecting := True\<rparr>))"

definition flushQueue :: "syslog_options \<Rightarrow> syslog_transport \<Rightarrow> syslog_transport" where
  "flushQueue opts t = (if sySocket t = None then ensureConnection opts t else write_queue t)"

definition new_syslog_transport :: "syslog_options \<Rightarrow> bool list \<Rightarrow> bool list \<Rightarrow> syslog_transport" where
  "new_syslog_transport opts outcomes factory_throws =
     ensureConnection opts
       \<lparr>syQueue = [], sySocket = None, syConnecting = False, syFlushTimer = False, syReconnectTimer = False,
        syDelay = DEFAULT_RECONNECT_DELAY_MS, syNext = 0, syWritten = [], syOutcomes = outcomes, syFactoryThrows = factory_throws\<rparr>"

record syslog_settings =
  ssHost :: "string option"
  ssPort :: "jsnum option"
  ssAppName :: "string option"
  ssHostname :: "string option"
  ssFacility :: "nat option"
  ssEnterpriseId :: "nat option"
  ssIncludeJson :: "bool option"
  ssBufferSize :: "nat option"
  ssTls :: "tls_options option"
  ssFactory :: bool

definition createFormatterOptions :: "syslog_settings \<Rightarrow> syslog_format" where
  "createFormatterOptions s =
     \<lparr>sfFacility = ssFacility s, sfHostname = ssHostname s, sfAppName = ssAppName s, sfProcId = None,
      sfEnterpriseId = ssEnterpriseId s, sfIncludeJson = given_or (ssIncludeJson s) False\<rparr>"

text \<open>The transport with the options and the formatter it was made with.\<close>

definition createSyslogTransport :: "file_reader \<Rightarrow> syslog_settings \<Rightarrow> bool list \<Rightarrow> bool list \<Rightarrow>
    (string, syslog_transport \<times> syslog_options \<times> syslog_format \<times> tls_credentials option) result" where
  "createSyslogTransport fr s outcomes factory_throws =
     (case validateSyslogOptions (ssHost s) (ssPort s) of
        Inl e \<Rightarrow> err e
      | Inr _ \<Rightarrow>
          (case createTlsCredentials fr (ssTls s) of
             Inl e \<Rightarrow> err e
           | Inr creds \<Rightarrow>
               let opts = \<lparr>syBufferSize = given_or (ssBufferSize s) 1000, syFactory = ssFactory s\<rparr>
               in ok (new_syslog_transport opts outcomes factory_throws, opts, createFormatterOptions s, creds)))"

definition scheduleFlush :: "syslog_transport \<Rightarrow> syslog_transport" where
  "scheduleFlush t = t\<lparr>syFlushTimer := True\<rparr>"

definition scheduleReconnect :: "syslog_transport \<Rightarrow> syslog_transport" where
  "scheduleReconnect t = t\<lparr>syReconnectTimer := True\<rparr>"

definition syslog_publish :: "(string \<Rightarrow> (string, string) result) \<Rightarrow> syslog_options \<Rightarrow> syslog_transport \<Rightarrow> string \<Rightarrow>
    syslog_transport \<times> (log_error, unit) result" where
  "syslog_publish fmt opts t payload =
     (case fmt payload of
        Inl e \<Rightarrow> (t, err (OtherError e))
      | Inr message \<Rightarrow>
          if length (syQueue t) \<ge> syBufferSize opts then (t, err BackpressureError)
          else let t1 = flushQueue opts (ensureConnection opts (t\<lparr>syQueue := syQueue t @ [frameMessage message]\<rparr>))
               in (if syQueue t1 \<noteq> [] then scheduleFlush t1 else t1, ok ()))"

definition handleConnected :: "syslog_options \<Rightarrow> nat \<Rightarrow> syslog_transport \<Rightarrow> syslog_transport" where
  "handleConnected opts sid t =
     (if sySocket t \<noteq> Some sid then t
      else flushQueue opts (t\<lparr>syConnecting := False, syDelay := DEFAULT_RECONNECT_DELAY_MS\<rparr>))"

text \<open>The listeners of every socket, also of one that was replaced, reset the socket of the transport.\<close>

definition handleSocketClose :: "syslog_options \<Rightarrow> syslog_transport \<Rightarrow> syslog_transport" where
  "handleSocketClose opts t =
     (let t1 = t\<lparr>syConnecting := False, sySocket := None\<rparr> in if \<not> syFactory opts then scheduleReconnect t1 else t1)"

definition handleSocketError :: "syslog_options \<Rightarrow> syslog_transport \<Rightarrow> syslog_transport" where
  "handleSocketError opts t = handleSocketClose opts t"

definition reconnectFires :: "syslog_options \<Rightarrow> syslog_transport \<Rightarrow> syslog_transport" where
  "reconnectFires opts t =
     (if \<not> syReconnectTimer t then t
      else let t1 = ensureConnection opts (t\<lparr>syReconnectTimer := False\<rparr>)
           in t1\<lparr>syDelay := min (syDelay t1 * 2) MAX_RECONNECT_DELAY_MS\<rparr>)"

definition flushFires :: "syslog_options \<Rightarrow> syslog_transport \<Rightarrow> syslog_transport" where
  "flushFires opts t =
     (if \<not> syFlushTimer t then t
      else if syQueue t = [] then t\<lparr>syFlushTimer := False\<rparr>
      else flushQueue opts t)"

datatype syslog_event = SyPublish string | SyFlush | SyConnected nat | SyError | SyClose | SyDrain | SyReconnect | SyInterval

text \<open>The frames of the accepted payloads are collected beside the state.\<close>

definition syslog_step :: "(string \<Rightarrow> (string, string) result) \<Rightarrow> syslog_options \<Rightarrow> syslog_event \<Rightarrow>
    syslog_transport \<times> string list \<Rightarrow> syslog_transport \<times> string list" where
  "syslog_step fmt opts ev st =
     (case st of (t, accepted) \<Rightarrow>
        case ev of
          SyPublish p \<Rightarrow>
            (case fmt p of
               Inl _ \<Rightarrow> (fst (syslog_publish fmt opts t p), accepted)
             | Inr m \<Rightarrow>
                 (case syslog_publish fmt opts t p of
                    (t1, Inr _) \<Rightarrow> (t1, accepted @ [frameMessage m])
                  | (t1, Inl _) \<Rightarrow> (t1, accepted)))
        | SyFlush \<Rightarrow> (flushQueue opts t, accepted)
        | SyConnected sid \<Rightarrow> (handleConnected opts sid t, accepted)
        | SyError \<Rightarrow> (handleSocketError opts t, accepted)
        | SyClose \<Rightarrow> (handleSocketClose opts t, accepted)
        | SyDrain \<Rightarrow> (flushQueue opts t, accepted)
        | SyReconnect \<Rightarrow> (reconnectFires opts t, accepted)
        | SyInterval \<Rightarrow> (flushFires opts t, accepted))"

definition syslog_run :: "(string \<Rightarrow> (string, string) result) \<Rightarrow> syslog_options \<Rightarrow> bool list \<Rightarrow> bool list \<Rightarrow> syslog_event list \<Rightarrow>
    syslog_transport \<times> string list" where
  "syslog_run fmt opts outcomes factory_throws evs =
     fold (syslog_step fmt opts) evs (new_syslog_transport opts outcomes factory_throws, [])"

section \<open>The logger\<close>

record logger =
  lgMinimum :: log_level
  lgNamespace :: "string option"
  lgControls :: "controls_config option"
  lgState :: control_state
  lgQueueDrops :: nat
  lgLastError :: "log_error option"

definition createStructuredLogger :: "log_level option \<Rightarrow> string option \<Rightarrow> controls_config option \<Rightarrow> logger" where
  "createStructuredLogger minimum namespace controls =
     \<lparr>lgMinimum = given_or minimum Info, lgNamespace = namespace, lgControls = controls, lgState = createLoggingControlState,
      lgQueueDrops = 0, lgLastError = None\<rparr>"

definition rollbackPublished :: "control_state \<Rightarrow> control_state" where
  "rollbackPublished s =
     (let m = csMetrics s in s\<lparr>csMetrics := m\<lparr>cmPublished := if cmPublished m > 0 then cmPublished m - 1 else 0\<rparr>\<rparr>)"

text \<open>What one call reads besides the entry: the time in milliseconds and as text, and the random number.\<close>

record log_moment =
  lmNow :: "(int \<times> string) option"
  lmDraw :: rat

definition prepareLogEntry :: "(jsval \<Rightarrow> (string, string) result) \<Rightarrow> logger \<Rightarrow> log_moment \<Rightarrow> log_input \<Rightarrow>
    (string, string option \<times> control_state) result" where
  "prepareLogEntry to_json l moment entry =
     (case lmNow moment of
        None \<Rightarrow> err ''Clock produced invalid date''
      | Some (ms, ts) \<Rightarrow>
          (case evaluateLoggingControls (lgControls l) (liEvent entry) ms (lmDraw moment) (lgState l) of
             (s1, Allowed _ _) \<Rightarrow>
               (case formatStructuredLog to_json entry (Some ts) (lgNamespace l) of
                  Inl e \<Rightarrow> err e
                | Inr payload \<Rightarrow> ok (Some payload, s1))
           | (s1, _) \<Rightarrow> ok (None, s1)))"

definition logger_log :: "('s \<Rightarrow> string \<Rightarrow> 's \<times> (log_error, unit) result) \<Rightarrow> (jsval \<Rightarrow> (string, string) result) \<Rightarrow>
    log_moment \<Rightarrow> log_input \<Rightarrow> logger \<times> 's \<Rightarrow> (logger \<times> 's) \<times> (log_error, unit) result" where
  "logger_log pub to_json moment entry ls =
     (case ls of (l, s) \<Rightarrow>
        if \<not> shouldLog (liLevel entry) (lgMinimum l) then ((l, s), ok ())
        else case prepareLogEntry to_json l moment entry of
               Inl e \<Rightarrow> ((l, s), err (OtherError e))
             | Inr (payload, st) \<Rightarrow>
                 let l1 = l\<lparr>lgState := st\<rparr>
                 in case payload of
                      None \<Rightarrow> ((l1, s), ok ())
                    | Some p \<Rightarrow>
                        (case pub s p of
                           (s1, Inl BackpressureError) \<Rightarrow>
                             ((l1\<lparr>lgQueueDrops := lgQueueDrops l1 + 1, lgState := rollbackPublished st,
                                  lgLastError := Some BackpressureError\<rparr>, s1), ok ())
                         | (s1, Inl e) \<Rightarrow> ((l1\<lparr>lgLastError := Some e\<rparr>, s1), err e)
                         | (s1, Inr _) \<Rightarrow> ((l1\<lparr>lgLastError := None\<rparr>, s1), ok ())))"

definition updateControls :: "controls_config option \<Rightarrow> logger \<Rightarrow> logger" where
  "updateControls config l = l\<lparr>lgControls := config, lgState := createLoggingControlState\<rparr>"

definition snapshotMetrics :: "logger \<Rightarrow> nat \<times> nat \<times> nat \<times> nat \<times> log_error option" where
  "snapshotMetrics l =
     (let m = csMetrics (lgState l)
      in (cmPublished m, cmDroppedBySampling m, cmDroppedByRateLimit m, lgQueueDrops l, lgLastError l))"

text \<open>A run of the logger with what each call answers.\<close>

fun log_all :: "('s \<Rightarrow> string \<Rightarrow> 's \<times> (log_error, unit) result) \<Rightarrow> (jsval \<Rightarrow> (string, string) result) \<Rightarrow>
    (log_moment \<times> log_input) list \<Rightarrow> logger \<times> 's \<Rightarrow> (logger \<times> 's) \<times> (log_error, unit) result list" where
  "log_all pub to_json [] ls = (ls, [])"
| "log_all pub to_json ((moment, entry) # es) ls =
     (case logger_log pub to_json moment entry ls of
        (ls1, r) \<Rightarrow> (case log_all pub to_json es ls1 of (ls2, rs) \<Rightarrow> (ls2, r # rs)))"

section \<open>What leaves a spool\<close>

text \<open>What was accepted is what has left the queue and what it holds; everything that left was sent in order, each at least
  once and without another one between; of what is held only the first can have been sent.\<close>

definition spooled :: "'a list \<Rightarrow> 'a list \<Rightarrow> 'a list \<Rightarrow> bool" where
  "spooled accepted queue sent \<longleftrightarrow>
     (\<exists>gone ns k. accepted = gone @ queue \<and> length ns = length gone \<and> list_all (\<lambda>n. 1 \<le> n) ns
        \<and> sent = concat (map2 replicate ns gone) @ (case queue of [] \<Rightarrow> [] | q # _ \<Rightarrow> replicate k q))"

lemma spooled_start: "spooled [] [] []"
  by (auto simp: spooled_def)

lemma spooled_accept:
  assumes "spooled acc q s"
  shows "spooled (acc @ [p]) (q @ [p]) s"
proof -
  obtain gone ns k where g: "acc = gone @ q" "length ns = length gone" "list_all (\<lambda>n. 1 \<le> n) ns"
    "s = concat (map2 replicate ns gone) @ (case q of [] \<Rightarrow> [] | x # _ \<Rightarrow> replicate k x)"
    using assms by (auto simp: spooled_def)
  show ?thesis
    unfolding spooled_def
    by (intro exI [of _ gone] exI [of _ ns] exI [of _ "if q = [] then 0 else k"]) (use g in \<open>auto split: list.split\<close>)
qed

lemma spooled_again:
  assumes "spooled acc (p # q) s"
  shows "spooled acc (p # q) (s @ [p])"
proof -
  obtain gone ns k where g: "acc = gone @ p # q" "length ns = length gone" "list_all (\<lambda>n. 1 \<le> n) ns"
    "s = concat (map2 replicate ns gone) @ replicate k p"
    using assms by (auto simp: spooled_def)
  show ?thesis
    unfolding spooled_def
    by (intro exI [of _ gone] exI [of _ ns] exI [of _ "Suc k"]) (use g in \<open>simp add: replicate_append_same\<close>)
qed

lemma spooled_shift:
  assumes "spooled acc (p # q) s"
  shows "spooled acc q (s @ [p])"
proof -
  obtain gone ns k where g: "acc = gone @ p # q" "length ns = length gone" "list_all (\<lambda>n. 1 \<le> n) ns"
    "s = concat (map2 replicate ns gone) @ replicate k p"
    using assms by (auto simp: spooled_def)
  show ?thesis
    unfolding spooled_def
    by (intro exI [of _ "gone @ [p]"] exI [of _ "ns @ [Suc k]"] exI [of _ 0])
      (use g in \<open>auto simp: replicate_append_same split: list.split\<close>)
qed

lemma spooled_direct: "spooled acc [] s \<Longrightarrow> spooled (acc @ [p]) [] (s @ [p])"
  using spooled_accept [of acc "[]" s p] spooled_shift [of "acc @ [p]" p "[]" s] by simp

section \<open>Standard output\<close>

definition no_throw :: "write_outcome \<Rightarrow> bool" where
  "no_throw w = (case w of Throws _ \<Rightarrow> False | _ \<Rightarrow> True)"

definition stdout_inv :: "string \<Rightarrow> stdout_transport \<Rightarrow> string list \<Rightarrow> bool" where
  "stdout_inv sep t acc \<longleftrightarrow>
     spooled (map (\<lambda>p. p @ sep) acc) (map (\<lambda>p. p @ sep) (soQueue t)) (soStream t)
     \<and> (soQueue t = [] \<or> soWaiting t) \<and> (soWaiting t \<longrightarrow> soListener t) \<and> list_all no_throw (soOutcomes t)"

lemma write_cases:
  assumes "list_all no_throw (soOutcomes t)"
  obtains os w where "writePayloadToStream sep p t = (t\<lparr>soStream := soStream t @ [p @ sep], soOutcomes := os\<rparr>, w)"
    "list_all no_throw os" "w = Written \<or> w = Full"
proof (cases "soOutcomes t")
  case Nil
  then show ?thesis
    by (intro that [of "[]" Written]) (simp_all add: writePayloadToStream_def)
next
  case (Cons w os)
  with assms that [of os w] show ?thesis
    by (cases w) (simp_all add: writePayloadToStream_def no_throw_def)
qed

lemma flush_loop_inv:
  assumes "spooled (map (\<lambda>p. p @ sep) acc) (map (\<lambda>p. p @ sep) ps) (soStream t)" "list_all no_throw (soOutcomes t)"
  shows "stdout_inv sep (fst (flush_loop sep ps t)) acc \<and> snd (flush_loop sep ps t) = ok ()"
  using assms
proof (induction sep ps t rule: flush_loop.induct)
  case (1 sep t)
  then show ?case by (simp add: stdout_inv_def)
next
  case (2 sep p ps t)
  obtain os w where w: "writePayloadToStream sep p t = (t\<lparr>soStream := soStream t @ [p @ sep], soOutcomes := os\<rparr>, w)"
    "list_all no_throw os" "w = Written \<or> w = Full"
    using write_cases [OF "2.prems"(2)] by blast
  show ?case
  proof (cases "w = Written")
    case True
    have "spooled (map (\<lambda>p. p @ sep) acc) (map (\<lambda>p. p @ sep) ps) (soStream t @ [p @ sep])"
      using "2.prems"(1) by (simp add: spooled_shift)
    with "2.IH" [OF w(1) [unfolded True, symmetric] refl] w(2) show ?thesis using w(1) True by simp
  next
    case False
    with w have "w = Full" by blast
    moreover have "spooled (map (\<lambda>p. p @ sep) acc) (map (\<lambda>p. p @ sep) (p # ps)) (soStream t @ [p @ sep])"
      using "2.prems"(1) by (simp add: spooled_again)
    ultimately show ?thesis
      using w(1,2) by (simp add: stdout_inv_def attachDrainListener_def)
  qed
qed

lemma flush_loop_bound: "length (soQueue (fst (flush_loop sep ps t))) \<le> length ps"
  by (induction sep ps t rule: flush_loop.induct)
    (auto simp: attachDrainListener_def split: prod.split write_outcome.split intro: le_SucI)

lemma publish_inv:
  assumes "stdout_inv sep t acc" "stdout_publish maxQueueSize sep t p = (t1, r)"
  shows "stdout_inv sep t1 (case r of Inr _ \<Rightarrow> acc @ [p] | Inl _ \<Rightarrow> acc)"
proof (cases "soWaiting t")
  case True
  then show ?thesis
    using assms by (auto simp: stdout_publish_def stdout_inv_def spooled_accept split: if_splits)
next
  case False
  have nt: "list_all no_throw (soOutcomes t)" using assms(1) by (simp add: stdout_inv_def)
  obtain os w where w: "writePayloadToStream sep p t = (t\<lparr>soStream := soStream t @ [p @ sep], soOutcomes := os\<rparr>, w)"
    "list_all no_throw os" "w = Written \<or> w = Full"
    using write_cases [OF nt, of sep p] by blast
  have "spooled (map (\<lambda>p. p @ sep) (acc @ [p])) [] (soStream t @ [p @ sep])"
    using assms(1) False by (auto simp: stdout_inv_def intro: spooled_direct)
  then show ?thesis
    using assms w False by (auto simp: stdout_publish_def stdout_inv_def attachDrainListener_def)
qed

lemma stdout_step_inv:
  assumes "stdout_inv sep t acc" "stdout_step maxQueueSize sep ev (t, acc) = (t1, acc1)"
  shows "stdout_inv sep t1 acc1"
proof -
  have flush: "stdout_inv sep (fst (stdout_flush sep u)) acc" if "soQueue u = soQueue t" "soStream u = soStream t" "soOutcomes u = soOutcomes t" for u
    using flush_loop_inv [of sep acc "soQueue u" u] assms(1) that unfolding stdout_flush_def stdout_inv_def by simp
  show ?thesis
  proof (cases ev)
    case (LogPublish p)
    obtain u r where u: "stdout_publish maxQueueSize sep t p = (u, r)" by (cases "stdout_publish maxQueueSize sep t p")
    show ?thesis
      using publish_inv [OF assms(1) u] assms(2) u LogPublish by (cases r) (simp_all add: stdout_step_def)
  next
    case LogFlush
    then show ?thesis using flush [of t] assms(2) by (simp add: stdout_step_def)
  next
    case LogDrain
    let ?u = "t\<lparr>soListener := False\<rparr>"
    have "snd (stdout_flush sep ?u) = ok ()"
      using flush_loop_inv [of sep acc "soQueue t" ?u] assms(1) by (simp add: stdout_flush_def stdout_inv_def)
    then have "handleDrain sep t = (if soListener t then fst (stdout_flush sep ?u) else t)"
      by (simp add: handleDrain_def case_prod_beta)
    then show ?thesis using flush [of ?u] assms by (simp add: stdout_step_def LogDrain split: if_splits)
  qed
qed

lemma stdout_step_bound:
  assumes "length (soQueue t) \<le> maxQueueSize" "stdout_step maxQueueSize sep ev (t, acc) = (t1, acc1)"
  shows "length (soQueue t1) \<le> maxQueueSize"
proof (cases ev)
  case (LogPublish p)
  then show ?thesis
    using assms
    by (auto simp: stdout_step_def stdout_publish_def writePayloadToStream_def attachDrainListener_def
        split: if_splits prod.splits sum.splits write_outcome.splits list.splits)
next
  case LogFlush
  then show ?thesis
    using assms order_trans [OF flush_loop_bound] by (auto simp: stdout_step_def stdout_flush_def)
next
  case LogDrain
  let ?u = "t\<lparr>soListener := False\<rparr>"
  have "length (soQueue (fst (stdout_flush sep ?u))) \<le> maxQueueSize"
    using order_trans [OF flush_loop_bound] assms(1) by (simp add: stdout_flush_def)
  then show ?thesis
    using assms by (auto simp: stdout_step_def handleDrain_def LogDrain split: if_splits prod.splits sum.splits)
qed

lemma stdout_run_inv:
  "length (soQueue (fst (fold (stdout_step maxQueueSize sep) evs st))) \<le> maxQueueSize"
  if "length (soQueue (fst st)) \<le> maxQueueSize" for st
  using that
proof (induction evs arbitrary: st)
  case (Cons ev evs)
  obtain t1 acc1 where "stdout_step maxQueueSize sep ev st = (t1, acc1)" by (cases "stdout_step maxQueueSize sep ev st")
  with Cons show ?case using stdout_step_bound by (cases st) fastforce
qed simp

lemma stdout_run_spooled:
  assumes "stdout_inv sep (fst st) (snd st)"
  shows "stdout_inv sep (fst (fold (stdout_step maxQueueSize sep) evs st)) (snd (fold (stdout_step maxQueueSize sep) evs st))"
  using assms
proof (induction evs arbitrary: st)
  case (Cons ev evs)
  obtain t1 acc1 where "stdout_step maxQueueSize sep ev st = (t1, acc1)" by (cases "stdout_step maxQueueSize sep ev st")
  with Cons show ?case using stdout_step_inv by (cases st) fastforce
qed simp

text \<open>C19: On a stream that does not throw the accepted log lines reach the standard output in order and none is lost: what was
  accepted is what has left the queue and what the queue holds, every line that left was written at least once, a queue that
  is not empty waits for a drain listener that is attached, and the queue keeps its bound.\<close>

theorem log_lines_in_order:
  assumes "list_all no_throw outcomes" "stdout_run maxQueueSize sep outcomes evs = (t, accepted)"
  shows "spooled (map (\<lambda>p. p @ sep) accepted) (map (\<lambda>p. p @ sep) (soQueue t)) (soStream t)
    \<and> (soQueue t = [] \<or> soWaiting t \<and> soListener t) \<and> length (soQueue t) \<le> maxQueueSize"
proof -
  have "stdout_inv sep (createStdoutTransport outcomes) []"
    using assms(1) spooled_start by (simp add: stdout_inv_def createStdoutTransport_def)
  then have "stdout_inv sep t accepted"
    using stdout_run_spooled [of sep "(createStdoutTransport outcomes, [])" maxQueueSize evs] assms(2) by (simp add: stdout_run_def)
  moreover have "length (soQueue t) \<le> maxQueueSize"
    using stdout_run_inv [of "(createStdoutTransport outcomes, [])" maxQueueSize sep evs] assms(2)
    by (simp add: stdout_run_def createStdoutTransport_def)
  ultimately show ?thesis by (auto simp: stdout_inv_def)
qed

lemma log_lines_in_order_witness:
  "spooled [''a;'', ''b;'', ''c;''] [''b;'', ''c;''] [''a;'']"
proof -
  have run: "stdout_run 5 '';'' [Full] [LogPublish ''a'', LogPublish ''b'', LogPublish ''c'']
      = (\<lparr>soQueue = [''b'', ''c''], soWaiting = True, soListener = True, soStream = [''a;''], soOutcomes = []\<rparr>, [''a'', ''b'', ''c''])"
    by code_simp
  show ?thesis
    using log_lines_in_order [OF _ run] by (simp add: no_throw_def)
qed

text \<open>When a write of the queue fills the stream, the line is kept and written a second time.\<close>

lemma queued_line_repeated:
  "soStream (fst (stdout_run 5 '';'' [Full, Full] [LogPublish ''a'', LogPublish ''b'', LogDrain, LogDrain])) = [''a;'', ''b;'', ''b;'']"
  by code_simp

text \<open>After a drain that ends in an exception later lines overtake the queue.\<close>

lemma failed_drain_reorders:
  "soStream (fst (stdout_run 5 '';'' [Full, Throws ''x''] [LogPublish ''a'', LogPublish ''b'', LogDrain, LogPublish ''c'', LogFlush]))
     = [''a;'', ''c;'', ''b;'']"
  by code_simp

text \<open>A drain of a stream that has room empties the queue.\<close>

lemma drain_empties:
  assumes "soListener t" "soOutcomes t = []"
  shows "soQueue (handleDrain sep t) = [] \<and> soStream (handleDrain sep t) = soStream t @ map (\<lambda>p. p @ sep) (soQueue t)"
proof -
  have loop: "snd (flush_loop sep ps u) = ok () \<and> soQueue (fst (flush_loop sep ps u)) = []
      \<and> soStream (fst (flush_loop sep ps u)) = soStream u @ map (\<lambda>p. p @ sep) ps" if "soOutcomes u = []" for ps u
    using that by (induction ps arbitrary: u) (simp_all add: writePayloadToStream_def)
  show ?thesis
    using assms loop [of "t\<lparr>soListener := False\<rparr>" "soQueue t"]
    by (simp add: handleDrain_def stdout_flush_def case_prod_beta split: sum.split)
qed

section \<open>Syslog\<close>

text \<open>The frames are handed to sockets in the order of the sockets; every frame that waits will be tried again.\<close>

definition syslog_core :: "syslog_options \<Rightarrow> syslog_transport \<Rightarrow> string list \<Rightarrow> bool" where
  "syslog_core opts t acc \<longleftrightarrow>
     spooled acc (syQueue t) (map snd (syWritten t)) \<and> length (syQueue t) \<le> syBufferSize opts
     \<and> DEFAULT_RECONNECT_DELAY_MS \<le> syDelay t \<and> syDelay t \<le> MAX_RECONNECT_DELAY_MS
     \<and> sorted (map fst (syWritten t)) \<and> (\<forall>w\<in>set (syWritten t). fst w < syNext t)
     \<and> (\<forall>sid. sySocket t = Some sid \<longrightarrow> sid < syNext t \<and> (\<forall>w\<in>set (syWritten t). fst w \<le> sid))"

definition syslog_inv :: "syslog_options \<Rightarrow> syslog_transport \<Rightarrow> string list \<Rightarrow> bool" where
  "syslog_inv opts t acc \<longleftrightarrow>
     syslog_core opts t acc \<and> (syConnecting t \<longrightarrow> sySocket t \<noteq> None) \<and> (syQueue t = [] \<or> syFlushTimer t)"

lemma write_loop_effect:
  assumes "spooled acc ps (map snd (syWritten t))"
  shows "\<exists>q xs os. write_loop sid ps t = t\<lparr>syQueue := q, syWritten := syWritten t @ map (Pair sid) xs, syOutcomes := os\<rparr>
    \<and> spooled acc q (map snd (syWritten t) @ xs) \<and> length q \<le> length ps"
  using assms
proof (induction ps arbitrary: t)
  case Nil
  then show ?case by (intro exI [of _ "[]"] exI [of _ "syOutcomes t"]) simp
next
  case (Cons p ps)
  obtain os room where w: "syslog_write sid p t = (t\<lparr>syWritten := syWritten t @ [(sid, p)], syOutcomes := os\<rparr>, room)"
  proof (cases "syOutcomes t")
    case Nil
    then show ?thesis by (intro that [of "[]" True]) (simp add: syslog_write_def)
  next
    case (Cons b os)
    then show ?thesis by (intro that [of os b]) (simp add: syslog_write_def Let_def)
  qed
  show ?case
  proof (cases room)
    case True
    have "spooled acc ps (map snd (syWritten (t\<lparr>syWritten := syWritten t @ [(sid, p)], syOutcomes := os\<rparr>)))"
      using spooled_shift [OF Cons.prems] by simp
    from Cons.IH [OF this] obtain q xs os' where
      "write_loop sid ps (t\<lparr>syWritten := syWritten t @ [(sid, p)], syOutcomes := os\<rparr>)
        = t\<lparr>syQueue := q, syWritten := (syWritten t @ [(sid, p)]) @ map (Pair sid) xs, syOutcomes := os'\<rparr>"
      "spooled acc q (map snd (syWritten t @ [(sid, p)]) @ xs)" "length q \<le> length ps"
      by auto
    then show ?thesis
      using w True by (intro exI [of _ q] exI [of _ "p # xs"] exI [of _ os']) simp
  next
    case False
    then show ?thesis
      using w spooled_again [OF Cons.prems]
      by (intro exI [of _ "p # ps"] exI [of _ "[p]"] exI [of _ os]) simp
  qed
qed

lemma core_write_queue:
  assumes "syslog_core opts t acc"
  shows "syslog_core opts (write_queue t) acc \<and> sySocket (write_queue t) = sySocket t \<and> syConnecting (write_queue t) = syConnecting t
    \<and> syFlushTimer (write_queue t) = syFlushTimer t \<and> length (syQueue (write_queue t)) \<le> length (syQueue t)"
proof (cases "sySocket t")
  case None
  then show ?thesis using assms by (simp add: write_queue_def)
next
  case (Some sid)
  obtain q xs os where w: "write_loop sid (syQueue t) t = t\<lparr>syQueue := q, syWritten := syWritten t @ map (Pair sid) xs, syOutcomes := os\<rparr>"
    "spooled acc q (map snd (syWritten t) @ xs)" "length q \<le> length (syQueue t)"
    using write_loop_effect [of acc "syQueue t" t sid] assms by (auto simp: syslog_core_def)
  have "sorted (map fst (syWritten t @ map (Pair sid) xs))"
    using assms Some by (auto simp: syslog_core_def sorted_append comp_def map_replicate_const)
  then show ?thesis
    using assms Some w by (auto simp: write_queue_def syslog_core_def comp_def)
qed

lemma core_bind:
  assumes "syslog_core opts t acc"
  shows "syslog_core opts (bindSocket t) acc \<and> sySocket (bindSocket t) \<noteq> None \<and> syFlushTimer (bindSocket t) = syFlushTimer t
    \<and> syQueue (bindSocket t) = syQueue t"
  using assms by (auto simp: syslog_core_def bindSocket_def less_Suc_eq less_imp_le)

lemma core_other:
  assumes "syslog_core opts t acc"
  shows "syslog_core opts (t\<lparr>syConnecting := b\<rparr>) acc" "syslog_core opts (t\<lparr>sySocket := None\<rparr>) acc"
    "syslog_core opts (t\<lparr>syFlushTimer := b\<rparr>) acc" "syslog_core opts (t\<lparr>syReconnectTimer := b\<rparr>) acc"
    "syslog_core opts (t\<lparr>syDelay := DEFAULT_RECONNECT_DELAY_MS\<rparr>) acc"
    "syslog_core opts (t\<lparr>syDelay := min (syDelay t * 2) MAX_RECONNECT_DELAY_MS\<rparr>) acc"
    "syslog_core opts (t\<lparr>syFactoryThrows := fs\<rparr>) acc"
  using assms by (simp_all add: syslog_core_def DEFAULT_RECONNECT_DELAY_MS_def MAX_RECONNECT_DELAY_MS_def)

text \<open>An operation that keeps the core, ends with a socket while it connects, and only shortens the queue.\<close>

definition settles :: "syslog_options \<Rightarrow> string list \<Rightarrow> syslog_transport \<Rightarrow> syslog_transport \<Rightarrow> bool" where
  "settles opts acc t t' \<longleftrightarrow>
     syslog_core opts t' acc \<and> (syConnecting t' \<longrightarrow> sySocket t' \<noteq> None) \<and> syFlushTimer t' = syFlushTimer t
     \<and> length (syQueue t') \<le> length (syQueue t)"

lemma settles_inv:
  assumes "syslog_inv opts t acc" "settles opts acc t t'"
  shows "syslog_inv opts t' acc"
  using assms by (auto simp: settles_def syslog_inv_def)

lemma connect_factory_settles:
  assumes "syslog_core opts t acc"
  shows "settles opts acc t (connectUsingFactory t)"
proof (cases "\<exists>fs. syFactoryThrows t = True # fs")
  case True
  then obtain fs where "syFactoryThrows t = True # fs" by blast
  then show ?thesis using core_other(7) [OF core_other(1) [OF assms]] by (simp add: connectUsingFactory_def settles_def)
next
  case False
  define u where "u = t\<lparr>syConnecting := False, syDelay := DEFAULT_RECONNECT_DELAY_MS, syFactoryThrows := tl (syFactoryThrows t)\<rparr>"
  have eq: "connectUsingFactory t = write_queue (bindSocket u)"
    using False by (auto simp: connectUsingFactory_def u_def split: list.split bool.split)
  have "syslog_core opts u acc"
    using core_other(7) [OF core_other(5) [OF core_other(1) [OF assms]]] by (simp add: u_def)
  from core_write_queue [OF conjunct1 [OF core_bind [OF this]]] core_bind [OF this] show ?thesis
    unfolding eq by (simp add: settles_def u_def bindSocket_def)
qed

lemma ensure_settles:
  assumes "syslog_core opts t acc" "syConnecting t \<longrightarrow> sySocket t \<noteq> None"
  shows "settles opts acc t (ensureConnection opts t)"
proof (cases "sySocket t \<noteq> None \<or> syConnecting t")
  case True
  then show ?thesis using assms by (simp add: ensureConnection_def settles_def)
next
  case False
  have u: "syslog_core opts (t\<lparr>syConnecting := True\<rparr>) acc" using core_other(1) [OF assms(1)] .
  show ?thesis
    using False connect_factory_settles [OF u] core_bind [OF u] by (simp add: ensureConnection_def settles_def)
qed

lemma flush_settles:
  assumes "syslog_core opts t acc" "syConnecting t \<longrightarrow> sySocket t \<noteq> None"
  shows "settles opts acc t (flushQueue opts t)"
proof (cases "sySocket t = None")
  case True
  then show ?thesis using ensure_settles [OF assms] by (simp add: flushQueue_def)
next
  case False
  then show ?thesis using core_write_queue [OF assms(1)] assms(2) by (auto simp: flushQueue_def settles_def)
qed

lemma close_settles:
  assumes "syslog_core opts t acc"
  shows "settles opts acc t (handleSocketClose opts t)"
  using core_other(2) [OF core_other(1) [OF assms]] core_other(4) [OF core_other(2) [OF core_other(1) [OF assms]]]
  by (simp add: handleSocketClose_def settles_def scheduleReconnect_def Let_def)

lemma connected_settles:
  assumes "syslog_core opts t acc" "syConnecting t \<longrightarrow> sySocket t \<noteq> None"
  shows "settles opts acc t (handleConnected opts sid t)"
proof (cases "sySocket t \<noteq> Some sid")
  case True
  then show ?thesis using assms by (simp add: handleConnected_def settles_def)
next
  case False
  then show ?thesis
    using flush_settles [OF core_other(5) [OF core_other(1) [OF assms(1)]], of False]
    by (simp add: handleConnected_def settles_def)
qed

lemma reconnect_settles:
  assumes "syslog_core opts t acc" "syConnecting t \<longrightarrow> sySocket t \<noteq> None"
  shows "settles opts acc t (reconnectFires opts t)"
proof (cases "syReconnectTimer t")
  case True
  let ?u = "ensureConnection opts (t\<lparr>syReconnectTimer := False\<rparr>)"
  have "settles opts acc (t\<lparr>syReconnectTimer := False\<rparr>) ?u"
    by (rule ensure_settles [OF core_other(4) [OF assms(1)]]) (simp add: assms(2))
  then show ?thesis
    using True core_other(6) [of opts ?u acc] by (simp add: reconnectFires_def settles_def Let_def)
qed (use assms in \<open>simp add: reconnectFires_def settles_def\<close>)

lemma publish_syslog_inv:
  assumes "syslog_inv opts t acc" "fmt p = ok m" "syslog_publish fmt opts t p = (t1, r)"
  shows "syslog_inv opts t1 (case r of Inr _ \<Rightarrow> acc @ [frameMessage m] | Inl _ \<Rightarrow> acc)"
proof (cases "length (syQueue t) \<ge> syBufferSize opts")
  case True
  then show ?thesis using assms by (auto simp: syslog_publish_def)
next
  case False
  let ?acc = "acc @ [frameMessage m]" and ?u = "t\<lparr>syQueue := syQueue t @ [frameMessage m]\<rparr>"
  have u: "syslog_core opts ?u ?acc" "syConnecting ?u \<longrightarrow> sySocket ?u \<noteq> None"
    using assms(1) False by (simp_all add: syslog_inv_def syslog_core_def spooled_accept)
  have e: "settles opts ?acc ?u (ensureConnection opts ?u)" by (rule ensure_settles [OF u])
  define v where "v = flushQueue opts (ensureConnection opts ?u)"
  have "settles opts ?acc (ensureConnection opts ?u) v"
    unfolding v_def by (rule flush_settles) (use e in \<open>simp_all add: settles_def\<close>)
  then have v: "syslog_core opts v ?acc" "syConnecting v \<longrightarrow> sySocket v \<noteq> None"
    by (simp_all add: settles_def)
  have t1: "t1 = (if syQueue v \<noteq> [] then scheduleFlush v else v)" "r = ok ()"
    using assms(2,3) False by (auto simp: syslog_publish_def Let_def v_def)
  show ?thesis
    using v core_other(3) [OF v(1), of True] unfolding t1 by (simp add: syslog_inv_def scheduleFlush_def)
qed

lemma syslog_step_inv:
  assumes "syslog_inv opts t acc" "syslog_step fmt opts ev (t, acc) = (t1, acc1)"
  shows "syslog_inv opts t1 acc1"
proof -
  have core: "syslog_core opts t acc" "syConnecting t \<longrightarrow> sySocket t \<noteq> None"
    using assms(1) by (simp_all add: syslog_inv_def)
  show ?thesis
  proof (cases ev)
    case (SyPublish p)
    show ?thesis
    proof (cases "fmt p")
      case (Inl e)
      then show ?thesis using assms SyPublish by (simp add: syslog_step_def syslog_publish_def)
    next
      case (Inr m)
      obtain u r where u: "syslog_publish fmt opts t p = (u, r)" by (cases "syslog_publish fmt opts t p")
      show ?thesis
        using publish_syslog_inv [OF assms(1) Inr u] assms(2) u SyPublish Inr by (cases r) (simp_all add: syslog_step_def)
    qed
  next
    case SyInterval
    then show ?thesis
      using settles_inv [OF assms(1) flush_settles [OF core]] assms core_other(3) [OF core(1), of False]
      by (auto simp: syslog_step_def flushFires_def syslog_inv_def split: if_splits)
  qed (use assms(2) settles_inv [OF assms(1)] flush_settles [OF core] connected_settles [OF core] close_settles [OF core(1)]
      reconnect_settles [OF core] in \<open>auto simp: syslog_step_def handleSocketError_def\<close>)
qed

lemma syslog_run_inv:
  assumes "syslog_inv opts (fst st) (snd st)"
  shows "syslog_inv opts (fst (fold (syslog_step fmt opts) evs st)) (snd (fold (syslog_step fmt opts) evs st))"
  using assms
proof (induction evs arbitrary: st)
  case (Cons ev evs)
  obtain t1 acc1 where "syslog_step fmt opts ev st = (t1, acc1)" by (cases "syslog_step fmt opts ev st")
  with Cons show ?case using syslog_step_inv by (cases st) fastforce
qed simp

lemma new_syslog_inv: "syslog_inv opts (new_syslog_transport opts outcomes factory_throws) []"
proof -
  let ?t = "\<lparr>syQueue = [], sySocket = None, syConnecting = False, syFlushTimer = False, syReconnectTimer = False,
        syDelay = DEFAULT_RECONNECT_DELAY_MS, syNext = 0, syWritten = [], syOutcomes = outcomes, syFactoryThrows = factory_throws\<rparr>"
  have "syslog_core opts ?t []"
    by (simp add: syslog_core_def spooled_start DEFAULT_RECONNECT_DELAY_MS_def MAX_RECONNECT_DELAY_MS_def)
  from ensure_settles [OF this] show ?thesis
    by (simp add: new_syslog_transport_def settles_def syslog_inv_def)
qed

text \<open>C20: Whatever a collector does - refuse, fill up, fail, close, come back - the frames that were accepted are written to
  its sockets in order, each that left the buffer at least once; the buffer keeps its bound, what it holds has a timer that
  tries again, and the time between two attempts stays between one and thirty seconds.\<close>

theorem syslog_frames_in_order:
  "case syslog_run fmt opts outcomes factory_throws evs of
     (t, accepted) \<Rightarrow>
       spooled accepted (syQueue t) (map snd (syWritten t)) \<and> sorted (map fst (syWritten t))
       \<and> length (syQueue t) \<le> syBufferSize opts \<and> (syQueue t = [] \<or> syFlushTimer t)
       \<and> 1000 \<le> syDelay t \<and> syDelay t \<le> 30000"
  using syslog_run_inv [of opts "(new_syslog_transport opts outcomes factory_throws, [])" fmt evs] new_syslog_inv
  by (simp add: syslog_run_def syslog_inv_def syslog_core_def case_prod_beta DEFAULT_RECONNECT_DELAY_MS_def MAX_RECONNECT_DELAY_MS_def)

text \<open>The late end of a socket that was replaced drops its successor.\<close>

lemma late_close_drops_socket:
  "sySocket (fst (syslog_run ok \<lparr>syBufferSize = 5, syFactory = False\<rparr> [] [] [SyError, SyPublish ''a''])) = Some 1"
  "sySocket (fst (syslog_run ok \<lparr>syBufferSize = 5, syFactory = False\<rparr> [] [] [SyError, SyPublish ''a'', SyClose])) = None"
  by code_simp+

text \<open>A frame that fills the socket is written twice.\<close>

lemma full_frame_repeated:
  "map snd (syWritten (fst (syslog_run ok \<lparr>syBufferSize = 5, syFactory = False\<rparr> [False] [] [SyPublish ''a'', SyDrain]))) = [''1 a'', ''1 a'']"
  by code_simp

section \<open>The contract of a transport\<close>

text \<open>A payload that is refused because the queue is full leaves the transport as it is.\<close>

locale log_transport =
  fixes publish :: "'s \<Rightarrow> string \<Rightarrow> 's \<times> (log_error, unit) result"
  assumes refused: "publish s p = (s', err BackpressureError) \<Longrightarrow> s' = s"
begin

lemma filtered_refused:
  assumes "filtered_publish parse_json minimumLevel publish s p = (s', err BackpressureError)"
  shows "s' = s"
  using assms refused by (auto simp: filtered_publish_def split: sum.splits if_splits)

text \<open>An entry that the logger counts as dropped by the queue has left no trace in the transport.\<close>

lemma dropped_untouched:
  assumes "logger_log publish to_json moment entry (l, s) = ((l', s'), r)" "lgQueueDrops l < lgQueueDrops l'"
  shows "s' = s"
  using assms refused
  by (auto simp: logger_log_def Let_def split: if_splits sum.splits option.splits prod.splits log_error.splits)

end

interpretation stdout_log: log_transport "stdout_publish maxQueueSize sep"
  by unfold_locales
    (auto simp: stdout_publish_def split: if_splits prod.splits write_outcome.splits)

interpretation syslog_log: log_transport "syslog_publish fmt opts"
  by unfold_locales
    (auto simp: syslog_publish_def Let_def split: if_splits sum.splits)

interpretation filtered_syslog_log: log_transport "filtered_publish parse_json minimumLevel (syslog_publish fmt opts)"
  by unfold_locales (rule syslog_log.filtered_refused)

text \<open>The combination does not fulfil it: a line the first transport has written counts as dropped.\<close>

lemma composite_counts_written_line:
  "case publishToAll (stdout_publish 0 '';'') ''a''
     [createStdoutTransport [], (createStdoutTransport [])\<lparr>soWaiting := True\<rparr>] of
     (ts, r) \<Rightarrow> map soStream ts = [[''a;''], []] \<and> r = err BackpressureError"
  by code_simp

section \<open>Accounts of the logger\<close>

definition well_formed_entry :: "(jsval \<Rightarrow> (string, string) result) \<Rightarrow> string option \<Rightarrow> log_moment \<times> log_input \<Rightarrow> bool" where
  "well_formed_entry to_json namespace me =
     (case me of (moment, entry) \<Rightarrow>
        case lmNow moment of
          None \<Rightarrow> False
        | Some (ms, ts) \<Rightarrow> (case formatStructuredLog to_json entry (Some ts) namespace of Inl _ \<Rightarrow> False | Inr _ \<Rightarrow> True))"

lemma rollback_counted: "0 < cmPublished (csMetrics s) \<Longrightarrow> Suc (counted (rollbackPublished s)) = counted s"
  by (simp add: counted_def rollbackPublished_def Let_def)

lemma allowed_published:
  assumes "evaluateLoggingControls config event now draw s = (s1, Allowed a b)"
  shows "0 < cmPublished (csMetrics s1)"
  using assms by (auto simp: evaluateLoggingControls_def Let_def split: option.splits prod.splits if_splits)

text \<open>A transport that notes its answers, and the answers of the transport to the calls of a logger.\<close>

definition recorded :: "('s \<Rightarrow> string \<Rightarrow> 's \<times> (log_error, unit) result) \<Rightarrow> 's \<times> (log_error, unit) result list \<Rightarrow> string \<Rightarrow>
    ('s \<times> (log_error, unit) result list) \<times> (log_error, unit) result" where
  "recorded pub t payload = (case t of (s, noted) \<Rightarrow> case pub s payload of (s1, r) \<Rightarrow> ((s1, noted @ [r]), r))"

definition answers_to :: "('s \<Rightarrow> string \<Rightarrow> 's \<times> (log_error, unit) result) \<Rightarrow> (jsval \<Rightarrow> (string, string) result) \<Rightarrow>
    log_moment \<times> log_input \<Rightarrow> logger \<times> 's \<Rightarrow> (log_error, unit) result list" where
  "answers_to pub to_json me ls = snd (snd (fst (logger_log (recorded pub) to_json (fst me) (snd me) (fst ls, (snd ls, [])))))"

fun transport_answers :: "('s \<Rightarrow> string \<Rightarrow> 's \<times> (log_error, unit) result) \<Rightarrow> (jsval \<Rightarrow> (string, string) result) \<Rightarrow>
    (log_moment \<times> log_input) list \<Rightarrow> logger \<times> 's \<Rightarrow> (log_error, unit) result list" where
  "transport_answers pub to_json [] ls = []"
| "transport_answers pub to_json (me # es) ls =
     answers_to pub to_json me ls @ transport_answers pub to_json es (fst (logger_log pub to_json (fst me) (snd me) ls))"

abbreviation refusals :: "(log_error, unit) result list \<Rightarrow> nat" where
  "refusals rs \<equiv> length (filter (\<lambda>r. r = err BackpressureError) rs)"

abbreviation acceptances :: "(log_error, unit) result list \<Rightarrow> nat" where
  "acceptances rs \<equiv> length (filter (\<lambda>r. r \<noteq> err BackpressureError) rs)"

abbreviation published_count :: "logger \<Rightarrow> nat" where
  "published_count l \<equiv> cmPublished (csMetrics (lgState l))"

lemma published_when_allowed:
  assumes "evaluateLoggingControls config event now draw s = (s1, d)"
  shows "cmPublished (csMetrics s1) = cmPublished (csMetrics s) + (case d of Allowed a b \<Rightarrow> 1 | _ \<Rightarrow> 0)"
  using assms by (auto simp: evaluateLoggingControls_def Let_def split: option.splits prod.splits if_splits)

lemma log_answered:
  assumes "well_formed_entry to_json (lgNamespace l) (moment, entry)"
    "logger_log pub to_json moment entry (l, s) = ((l', s'), r)"
  shows "published_count l' = published_count l + acceptances (answers_to pub to_json (moment, entry) (l, s))
    \<and> lgQueueDrops l' = lgQueueDrops l + refusals (answers_to pub to_json (moment, entry) (l, s))"
proof (cases "shouldLog (liLevel entry) (lgMinimum l)")
  case False
  then show ?thesis using assms(2) by (simp add: logger_log_def answers_to_def)
next
  case True
  obtain ms ts where now: "lmNow moment = Some (ms, ts)"
    using assms(1) by (auto simp: well_formed_entry_def split: option.splits)
  obtain payload where payload: "formatStructuredLog to_json entry (Some ts) (lgNamespace l) = ok payload"
    using assms(1) now by (cases "formatStructuredLog to_json entry (Some ts) (lgNamespace l)") (simp_all add: well_formed_entry_def)
  obtain s1 d where d: "evaluateLoggingControls (lgControls l) (liEvent entry) ms (lmDraw moment) (lgState l) = (s1, d)"
    by (cases "evaluateLoggingControls (lgControls l) (liEvent entry) ms (lmDraw moment) (lgState l)")
  note count = published_when_allowed [OF d]
  show ?thesis
  proof (cases "\<exists>a b. d = Allowed a b")
    case False
    then have "prepareLogEntry to_json l moment entry = ok (None, s1)"
      using now d by (cases d) (simp_all add: prepareLogEntry_def)
    then show ?thesis
      using assms(2) True count False by (cases d) (auto simp: logger_log_def answers_to_def Let_def)
  next
    case allowed: True
    then have "prepareLogEntry to_json l moment entry = ok (Some payload, s1)"
      using now d payload by (auto simp: prepareLogEntry_def)
    moreover have "cmPublished (csMetrics s1) = Suc (published_count l)" using allowed count by auto
    ultimately show ?thesis
      using assms(2) True
      by (cases "pub s payload")
        (auto simp: logger_log_def answers_to_def recorded_def rollbackPublished_def Let_def split: sum.splits log_error.splits)
  qed
qed

lemma log_counted:
  assumes "well_formed_entry to_json (lgNamespace l) (moment, entry)"
    "logger_log pub to_json moment entry (l, s) = ((l', s'), r)"
  shows "counted (lgState l') + lgQueueDrops l'
      = counted (lgState l) + lgQueueDrops l + (if shouldLog (liLevel entry) (lgMinimum l) then 1 else 0)
    \<and> lgNamespace l' = lgNamespace l \<and> lgMinimum l' = lgMinimum l"
proof (cases "shouldLog (liLevel entry) (lgMinimum l)")
  case False
  then show ?thesis using assms(2) by (simp add: logger_log_def)
next
  case True
  obtain ms ts where now: "lmNow moment = Some (ms, ts)"
    using assms(1) by (auto simp: well_formed_entry_def split: option.splits)
  obtain payload where payload: "formatStructuredLog to_json entry (Some ts) (lgNamespace l) = ok payload"
    using assms(1) now by (cases "formatStructuredLog to_json entry (Some ts) (lgNamespace l)") (simp_all add: well_formed_entry_def)
  obtain s1 d where d: "evaluateLoggingControls (lgControls l) (liEvent entry) ms (lmDraw moment) (lgState l) = (s1, d)"
    by (cases "evaluateLoggingControls (lgControls l) (liEvent entry) ms (lmDraw moment) (lgState l)")
  have count: "counted s1 = Suc (counted (lgState l))"
    using events_counted [of "lgControls l" "liEvent entry" ms "lmDraw moment" "lgState l"] d by simp
  show ?thesis
  proof (cases "\<exists>a b. d = Allowed a b")
    case False
    then have "prepareLogEntry to_json l moment entry = ok (None, s1)"
      using now d by (cases d) (simp_all add: prepareLogEntry_def)
    then show ?thesis using assms(2) True count by (auto simp: logger_log_def Let_def)
  next
    case allowed: True
    then have "prepareLogEntry to_json l moment entry = ok (Some payload, s1)"
      using now d payload by (auto simp: prepareLogEntry_def)
    moreover have "Suc (counted (rollbackPublished s1)) = counted s1"
      using allowed allowed_published d by (intro rollback_counted) blast
    ultimately show ?thesis
      using assms(2) True count
      by (cases "pub s payload") (auto simp: logger_log_def Let_def split: sum.splits log_error.splits)
  qed
qed

lemma log_all_counted:
  assumes "list_all (well_formed_entry to_json (lgNamespace l)) es" "log_all pub to_json es (l, s) = ((l', s'), rs)"
  shows "counted (lgState l') + lgQueueDrops l'
      = counted (lgState l) + lgQueueDrops l + length (filter (\<lambda>(_, e). shouldLog (liLevel e) (lgMinimum l)) es)
    \<and> published_count l' = published_count l + acceptances (transport_answers pub to_json es (l, s))
    \<and> lgQueueDrops l' = lgQueueDrops l + refusals (transport_answers pub to_json es (l, s))"
  using assms
proof (induction es arbitrary: l s rs)
  case (Cons me es)
  obtain moment entry where me: "me = (moment, entry)" by (cases me)
  obtain l1 s1 r where step: "logger_log pub to_json moment entry (l, s) = ((l1, s1), r)"
    by (cases "logger_log pub to_json moment entry (l, s)") auto
  obtain rs1 where rest: "log_all pub to_json es (l1, s1) = ((l', s'), rs1)"
    using Cons.prems(2) step unfolding me by (auto split: prod.splits)
  have one: "counted (lgState l1) + lgQueueDrops l1
      = counted (lgState l) + lgQueueDrops l + (if shouldLog (liLevel entry) (lgMinimum l) then 1 else 0)"
    "lgNamespace l1 = lgNamespace l" "lgMinimum l1 = lgMinimum l"
    using log_counted [OF _ step] Cons.prems(1) unfolding me by simp_all
  have answered: "published_count l1 = published_count l + acceptances (answers_to pub to_json me (l, s))
    \<and> lgQueueDrops l1 = lgQueueDrops l + refusals (answers_to pub to_json me (l, s))"
    using log_answered [OF _ step] Cons.prems(1) unfolding me by simp
  have "list_all (well_formed_entry to_json (lgNamespace l1)) es" using Cons.prems(1) one(2) by simp
  from Cons.IH [OF this rest] one answered step show ?case
    unfolding me by (cases "shouldLog (liLevel entry) (lgMinimum l)") auto
qed simp



end
