(* ===== verification/Socket_Logs.thy ===== *)
theory Socket_Logs
  imports Log_Format
begin

text \<open>
  The entries the socket handlers log (\<open>logging/socket-logger.ts\<close>): the context made of the state of the connection and
  of the options of a call, and when the formatter takes it.
\<close>

record log_state =
  lsSessionId :: "string option"
  lsUsername :: "string option"
  lsAuthMethod :: "string option"
  lsClientIp :: "string option"
  lsClientPort :: "jsnum option"
  lsClientSourcePort :: "jsnum option"
  lsTargetHost :: "string option"
  lsTargetPort :: "jsnum option"
  lsConnectionId :: "string option"
  lsUserAgent :: "string option"

record socket_log_options =
  soStatus :: "string option"
  soReason :: "string option"
  soErrorCode :: "jsval option"
  soDurationMs :: "jsnum option"
  soBytesIn :: "jsnum option"
  soBytesOut :: "jsnum option"
  soSubsystem :: "string option"
  soData :: "(string, jsval) jsmap option"

definition ALLOWED_LOG_AUTH_METHODS :: "string list" where
  "ALLOWED_LOG_AUTH_METHODS = [''publickey'', ''password'', ''keyboard-interactive'', ''agent'', ''gssapi'']"

definition mapAuthMethod :: "string option \<Rightarrow> string option" where
  "mapAuthMethod method =
     (case method of None \<Rightarrow> None | Some m \<Rightarrow> if m \<in> set ALLOWED_LOG_AUTH_METHODS then Some m else None)"

definition given :: "string \<Rightarrow> ('a \<Rightarrow> jsval) \<Rightarrow> 'a option \<Rightarrow> (string, jsval) jsmap" where
  "given key f v = (case v of None \<Rightarrow> [] | Some x \<Rightarrow> [(key, f x)])"

definition assign_all :: "(string, jsval) jsmap \<Rightarrow> (string, jsval) jsmap \<Rightarrow> (string, jsval) jsmap" where
  "assign_all es context = fold (\<lambda>(k, v). map_set k v) es context"

definition populateStateContext :: "(string, jsval) jsmap \<Rightarrow> log_state \<Rightarrow> string \<Rightarrow> string \<Rightarrow> (string, jsval) jsmap" where
  "populateStateContext context state socketId event =
     assign_all
       (given ''sessionId'' JStr (lsSessionId state) @ given ''username'' JStr (lsUsername state)
        @ given ''authMethod'' JStr (mapAuthMethod (lsAuthMethod state)) @ given ''clientIp'' JStr (lsClientIp state)
        @ given ''clientPort'' JNum (lsClientPort state) @ given ''clientSourcePort'' JNum (lsClientSourcePort state)
        @ given ''targetHost'' JStr (lsTargetHost state) @ given ''targetPort'' JNum (lsTargetPort state)
        @ given ''connectionId'' JStr (lsConnectionId state)
        @ (if event = ''session_init'' then given ''userAgent'' JStr (lsUserAgent state) else []))
       (map_set ''requestId'' (JStr socketId) context)"

definition populateStatusContext :: "(string, jsval) jsmap \<Rightarrow> socket_log_options \<Rightarrow> (string, jsval) jsmap" where
  "populateStatusContext context options =
     assign_all
       (given ''status'' JStr (soStatus options) @ given ''reason'' JStr (soReason options)
        @ given ''errorCode'' id (soErrorCode options) @ given ''subsystem'' JStr (soSubsystem options)) context"

definition populateMetricContext :: "(string, jsval) jsmap \<Rightarrow> socket_log_options \<Rightarrow> (string, jsval) jsmap" where
  "populateMetricContext context options =
     assign_all
       (given ''durationMs'' JNum (soDurationMs options) @ given ''bytesIn'' JNum (soBytesIn options)
        @ given ''bytesOut'' JNum (soBytesOut options)) context"

definition buildSocketLogContext :: "log_state \<Rightarrow> string \<Rightarrow> string \<Rightarrow> socket_log_options \<Rightarrow> (string, jsval) jsmap" where
  "buildSocketLogContext state socketId event options =
     (let context = [(''protocol'', JStr ''ssh''), (''subsystem'', JStr (given_or (soSubsystem options) ''shell''))]
      in populateMetricContext (populateStatusContext (populateStateContext context state socketId event) options) options)"

definition buildLogEntry :: "log_level \<Rightarrow> string \<Rightarrow> string \<Rightarrow> (string, jsval) jsmap \<Rightarrow> (string, jsval) jsmap option \<Rightarrow> log_input" where
  "buildLogEntry level event message context data =
     \<lparr>liLevel = level, liEvent = event, liMessage = Some message, liContext = Some context,
      liData = (case data of Some d \<Rightarrow> if d \<noteq> [] then Some d else None | None \<Rightarrow> None), liError = None, liExtra = None\<rparr>"

text \<open>\<open>logger\<close> takes the entry; the second component is whether the failure was noted.\<close>

definition emitSocketLog :: "(log_input \<Rightarrow> 's \<Rightarrow> 's \<times> ('e, unit) result) \<Rightarrow> log_state \<Rightarrow> string \<Rightarrow> log_level \<Rightarrow> string \<Rightarrow> string \<Rightarrow>
    socket_log_options \<Rightarrow> 's \<Rightarrow> 's \<times> bool" where
  "emitSocketLog logger state socketId level event message options s =
     (case logger (buildLogEntry level event message (buildSocketLogContext state socketId event options) (soData options)) s of
        (s1, Inl _) \<Rightarrow> (s1, True)
      | (s1, Inr _) \<Rightarrow> (s1, False))"

section \<open>Which contexts the formatter takes\<close>

lemma context_ok_applies:
  assumes "context_ok es"
  shows "\<exists>r'. applyContext es r = ok r'"
  using assms
proof (induction es arbitrary: r)
  case (Cons e es)
  obtain k v where e: "e = (k, v)" by (cases e)
  show ?case
    using Cons unfolding e by (cases "map_get CONTEXT_FIELD_MAP k") auto
qed simp

lemma context_ok_append [simp]: "context_ok (a @ b) \<longleftrightarrow> context_ok a \<and> context_ok b"
  by (auto simp: context_ok_def)

lemma context_ok_set:
  assumes "context_ok es" "context_ok [(k, v)]"
  shows "context_ok (map_set k v es)"
  using assms by (induction es) auto

lemma context_ok_assign: "context_ok es \<Longrightarrow> context_ok c \<Longrightarrow> context_ok (assign_all es c)"
proof (induction es arbitrary: c)
  case (Cons e es)
  obtain k v where e: "e = (k, v)" by (cases e)
  have "context_ok (map_set k v c)" using Cons.prems unfolding e by (intro context_ok_set) auto
  with Cons e show ?case by (simp add: assign_all_def)
qed (simp add: assign_all_def)

lemma context_ok_given:
  assumes "list_all (\<lambda>x. validateContextValue k (f x)) (case v of None \<Rightarrow> [] | Some x \<Rightarrow> [x])"
  shows "context_ok (given k f v)"
  using assms by (cases v) (simp_all add: given_def)

definition opt_ok :: "('a \<Rightarrow> bool) \<Rightarrow> 'a option \<Rightarrow> bool" where
  "opt_ok ok_one v = (case v of None \<Rightarrow> True | Some x \<Rightarrow> ok_one x)"

definition sound_state :: "log_state \<Rightarrow> bool" where
  "sound_state st \<longleftrightarrow>
     list_all (opt_ok (\<lambda>s. s \<noteq> [])) [lsSessionId st, lsUsername st, lsClientIp st, lsTargetHost st, lsConnectionId st, lsUserAgent st]
     \<and> list_all (opt_ok (\<lambda>n. isValidPort (JNum n))) [lsClientPort st, lsClientSourcePort st, lsTargetPort st]"

definition sound_options :: "socket_log_options \<Rightarrow> bool" where
  "sound_options o' \<longleftrightarrow>
     opt_ok (\<lambda>s. s \<in> {''success'', ''failure''}) (soStatus o') \<and> opt_ok (\<lambda>s. 0 < length s \<and> length s \<le> 512) (soReason o')
     \<and> opt_ok isValidErrorCode (soErrorCode o')
     \<and> opt_ok (\<lambda>s. s \<in> {''shell'', ''sftp'', ''scp'', ''exec'', ''prompt'', ''security''}) (soSubsystem o')
     \<and> list_all (opt_ok (\<lambda>n. isNonNegativeNumber (JNum n))) [soDurationMs o', soBytesIn o', soBytesOut o']"

lemma validators:
  "validateContextValue ''sessionId'' = isNonEmptyString" "validateContextValue ''requestId'' = isNonEmptyString"
  "validateContextValue ''username'' = isNonEmptyString" "validateContextValue ''userAgent'' = isNonEmptyString"
  "validateContextValue ''clientIp'' = isNonEmptyString" "validateContextValue ''targetHost'' = isNonEmptyString"
  "validateContextValue ''connectionId'' = isNonEmptyString" "validateContextValue ''clientPort'' = isValidPort"
  "validateContextValue ''clientSourcePort'' = isValidPort" "validateContextValue ''targetPort'' = isValidPort"
  by (rule ext, simp add: validateContextValue_def CONTEXT_VALIDATORS_def)+

lemma more_validators:
  "validateContextValue ''durationMs'' = isNonNegativeNumber" "validateContextValue ''bytesIn'' = isNonNegativeNumber"
  "validateContextValue ''bytesOut'' = isNonNegativeNumber" "validateContextValue ''errorCode'' = isValidErrorCode"
  "validateContextValue ''authMethod'' = one_of ALLOWED_LOG_AUTH_METHODS" "validateContextValue ''protocol'' = one_of [''ssh'', ''sftp'', ''scp'']"
  "validateContextValue ''subsystem'' = one_of [''shell'', ''sftp'', ''scp'', ''exec'', ''prompt'', ''security'']"
  "validateContextValue ''status'' = one_of [''success'', ''failure'']" "validateContextValue ''reason'' = isValidReason"
  by (rule ext, simp add: validateContextValue_def CONTEXT_VALIDATORS_def ALLOWED_LOG_AUTH_METHODS_def)+

lemma opt_givens:
  "opt_ok (\<lambda>x. validateContextValue k (f x)) v \<Longrightarrow> context_ok (given k f v)"
  by (rule context_ok_given) (cases v, simp_all add: opt_ok_def)

lemma opt_ok_mono: "opt_ok P v \<Longrightarrow> (\<And>x. P x \<Longrightarrow> Q x) \<Longrightarrow> opt_ok Q v"
  by (cases v) (simp_all add: opt_ok_def)

lemma text_given:
  assumes "opt_ok (\<lambda>s. s \<noteq> []) v" "validateContextValue k = isNonEmptyString"
  shows "context_ok (given k JStr v)"
  using opt_ok_mono [OF assms(1)] by (intro opt_givens) (simp add: assms(2) isNonEmptyString_def)

lemma state_context_ok:
  assumes "sound_state st" "socketId \<noteq> []" "context_ok c"
  shows "context_ok (populateStateContext c st socketId event)"
proof -
  have texts: "opt_ok (\<lambda>s. s \<noteq> []) (lsSessionId st)" "opt_ok (\<lambda>s. s \<noteq> []) (lsUsername st)" "opt_ok (\<lambda>s. s \<noteq> []) (lsClientIp st)"
    "opt_ok (\<lambda>s. s \<noteq> []) (lsTargetHost st)" "opt_ok (\<lambda>s. s \<noteq> []) (lsConnectionId st)" "opt_ok (\<lambda>s. s \<noteq> []) (lsUserAgent st)"
    and ports: "opt_ok (\<lambda>n. isValidPort (JNum n)) (lsClientPort st)" "opt_ok (\<lambda>n. isValidPort (JNum n)) (lsClientSourcePort st)"
    "opt_ok (\<lambda>n. isValidPort (JNum n)) (lsTargetPort st)"
    using assms(1) by (simp_all add: sound_state_def)
  have "opt_ok (\<lambda>s. validateContextValue ''authMethod'' (JStr s)) (mapAuthMethod (lsAuthMethod st))"
    by (cases "lsAuthMethod st") (simp_all add: opt_ok_def mapAuthMethod_def more_validators one_of_def)
  then have auth: "context_ok (given ''authMethod'' JStr (mapAuthMethod (lsAuthMethod st)))" by (rule opt_givens)
  have "context_ok [(''requestId'', JStr socketId)]"
    using assms(2) by (simp add: validators isNonEmptyString_def)
  with assms(3) have start: "context_ok (map_set ''requestId'' (JStr socketId) c)" by (rule context_ok_set)
  show ?thesis
    unfolding populateStateContext_def
    by (rule context_ok_assign [OF _ start])
      (simp add: auth text_given [OF texts(1)] text_given [OF texts(2)] text_given [OF texts(3)] text_given [OF texts(4)]
        text_given [OF texts(5)] text_given [OF texts(6)] validators opt_givens ports)
qed

lemma options_context_ok:
  assumes "sound_options o'" "context_ok c"
  shows "context_ok (populateStatusContext c o')" "context_ok (populateMetricContext c o')"
proof -
  have o: "opt_ok (\<lambda>s. validateContextValue ''status'' (JStr s)) (soStatus o')"
    "opt_ok (\<lambda>s. validateContextValue ''reason'' (JStr s)) (soReason o')"
    "opt_ok (\<lambda>s. validateContextValue ''subsystem'' (JStr s)) (soSubsystem o')"
    using assms(1)
    by (simp_all add: sound_options_def more_validators one_of_def isValidReason_def MAX_REASON_LENGTH_def)
  have m: "opt_ok (\<lambda>n. validateContextValue ''durationMs'' (JNum n)) (soDurationMs o')"
    "opt_ok (\<lambda>n. validateContextValue ''bytesIn'' (JNum n)) (soBytesIn o')" "opt_ok (\<lambda>n. validateContextValue ''bytesOut'' (JNum n)) (soBytesOut o')"
    using assms(1) by (simp_all add: sound_options_def more_validators)
  have e: "context_ok (given ''errorCode'' id (soErrorCode o'))"
    by (rule opt_givens) (use assms(1) in \<open>simp add: sound_options_def more_validators\<close>)
  show "context_ok (populateStatusContext c o')"
    unfolding populateStatusContext_def by (rule context_ok_assign [OF _ assms(2)]) (simp add: o e opt_givens)
  show "context_ok (populateMetricContext c o')"
    unfolding populateMetricContext_def by (rule context_ok_assign [OF _ assms(2)]) (simp add: m opt_givens)
qed

lemma base_context_ok:
  assumes "sound_options o'"
  shows "context_ok [(''protocol'', JStr ''ssh''), (''subsystem'', JStr (given_or (soSubsystem o') ''shell''))]"
  using assms by (cases "soSubsystem o'") (simp_all add: more_validators one_of_def given_or_def sound_options_def opt_ok_def)

text \<open>No entry of a socket handler is lost in the formatter: with a state and options whose members are well formed and a
  known event, the context that is built passes every validator and the record is made.\<close>

theorem socket_logs_recorded:
  assumes "sound_state st" "sound_options o'" "socketId \<noteq> []" "isLogEventName event"
  shows "\<exists>r. buildStructuredRecord (buildLogEntry level event message (buildSocketLogContext st socketId event o') (soData o'))
      (Some now) namespace = ok r
    \<and> (\<forall>to_json. formatStructuredLog to_json (buildLogEntry level event message (buildSocketLogContext st socketId event o') (soData o'))
      (Some now) namespace = to_json (JObj r))"
proof -
  let ?c = "buildSocketLogContext st socketId event o'"
  have "context_ok ?c"
    unfolding buildSocketLogContext_def Let_def
    using base_context_ok [OF assms(2)] state_context_ok [OF assms(1,3)] options_context_ok [OF assms(2)] by blast
  then have applies: "\<exists>r'. applyContext ?c r = ok r'" for r by (rule context_ok_applies)
  have "\<exists>r. buildStructuredRecord (buildLogEntry level event message ?c (soData o')) (Some now) namespace = ok r"
    using applies by (simp add: buildStructuredRecord_def createRecordSkeleton_def buildLogEntry_def Let_def)
  then show ?thesis
    using assms(4) by (auto simp: formatStructuredLog_def buildLogEntry_def)
qed

definition example_state :: log_state where
  "example_state = \<lparr>lsSessionId = Some ''s1'', lsUsername = Some ''bob'', lsAuthMethod = Some ''manual'', lsClientIp = Some ''10.0.0.9'',
     lsClientPort = Some (Num 40000), lsClientSourcePort = None, lsTargetHost = Some ''host'', lsTargetPort = Some (Num 22),
     lsConnectionId = None, lsUserAgent = Some ''agent''\<rparr>"

definition example_options :: socket_log_options where
  "example_options = \<lparr>soStatus = Some ''failure'', soReason = Some ''no'', soErrorCode = None, soDurationMs = Some (Num 3), soBytesIn = None,
     soBytesOut = None, soSubsystem = None, soData = None\<rparr>"

lemma socket_logs_recorded_witness:
  "\<exists>r. buildStructuredRecord (buildLogEntry Warn ''auth_failure'' ''failed''
      (buildSocketLogContext example_state ''sock'' ''auth_failure'' example_options) None) (Some ''now'') None = ok r"
proof -
  have "sound_state example_state" "sound_options example_options" "isLogEventName ''auth_failure''" by code_simp+
  from socket_logs_recorded [OF this(1,2) _ this(3), of "''sock''" Warn "''failed''" "''now''" None] show ?thesis
    by (simp add: example_options_def) blast
qed

text \<open>A reason that is too long loses the entry, also the one that reports a failure.\<close>

lemma long_reason_loses_entry:
  "case formatStructuredLog (\<lambda>_. ok ''{}'')
     (buildLogEntry Warn ''auth_failure'' ''failed''
        (buildSocketLogContext example_state ''sock'' ''auth_failure'' (example_options\<lparr>soReason := Some (replicate 513 CHR ''x'')\<rparr>)) None)
     (Some ''now'') None of Inl e \<Rightarrow> e = ''Invalid value provided for context field reason'' | Inr _ \<Rightarrow> False"
  by code_simp

end
