(* ===== verification/Spec2Isabelle.thy ===== *)
theory Spec2Isabelle
  imports Telnet_Negotiation Telnet_Auth Connection_Pools Path_Validator Transfer_Manager Session_Store
    Prompt_Protocol Backpressure Download_Stream Exec_Requests Shell_Commands Sftp_Adapter Host_Keys Subnet_Check Auth_Service Ssh_Service Session_Services Socket_Auth Terminal_Flow Telnet_Service Token_Buckets Shell_Streams Request_Parameters Theming Web_Routes Web_Sessions Config_Env Config_Load Log_Format Log_Transports Socket_Logs
begin

text \<open>
  A model of the server of webssh2, a gateway that gives a browser SSH and Telnet terminals, commands and file transfer.
  It covers the TypeScript under \<open>src/app/\<close>; the paths below are relative to it.

  \<^bold>\<open>The program.\<close>  An HTTP request passes the middleware (\<open>middleware/\<close>) and the routes (\<open>routes/\<close>), which
  put credentials and parameters into the web session and answer with the page of the client.  The client opens a
  WebSocket; its adapters (\<open>socket/adapters/\<close>) turn each message into a call of a service and the answers of the
  services into messages.  The services (\<open>services/\<close>) hold the state: the authentication service hands out sessions of
  the session store (\<open>state/\<close>), the SSH and the Telnet service open connections to hosts of the allowed subnets
  (\<open>ssh/hostname-resolver.ts\<close>), keep them in pools and check host keys, the file service moves files over SFTP or over
  shell commands, the terminal and session services act on the store.  The configuration (\<open>config/\<close>, \<open>config.ts\<close>) is
  read at the start from defaults, a file and the environment; log entries leave through \<open>logging/\<close>.

  \<^bold>\<open>Foundations.\<close>  \<^theory_text>\<open>Prelude_JS\<close> has JavaScript maps and sets with their insertion order as association
  lists, results as sums (\<open>ok\<close> and \<open>err\<close>) and the collections of hints the proofs use; \<^theory_text>\<open>JS_Strings\<close> the
  string methods and Node's \<open>path.posix\<close>; \<^theory_text>\<open>JS_Values\<close> the values of a message and numbers as exact fractions,
  infinities and \<open>NaN\<close>.  Strings are lists of characters and bytes 8-bit words.  Two contracts are locales that several components
  interpret: \<^theory_text>\<open>Keyed_Machines\<close> (independent machines behind one table) and \<^theory_text>\<open>Owner_Registry\<close> (entities found
  by id and listed by owner); further locales stand with the components that need them.

  \<^bold>\<open>Terminals.\<close>  \<^theory_text>\<open>Telnet_Negotiation\<close> is the byte parser of \<open>services/telnet/telnet-negotiation.ts\<close> and
  refines it to a specification on tokens; \<^theory_text>\<open>Telnet_Auth\<close> the login automation with its timers; \<^theory_text>\<open>Telnet_Service\<close>
  connections and shells on top of both.  \<^theory_text>\<open>Ssh_Service\<close> is \<open>services/ssh/ssh-service.ts\<close> with its attempts, timers and
  client events, \<^theory_text>\<open>Connection_Pools\<close> the two pools, \<^theory_text>\<open>Host_Keys\<close> the store, the service and the callback of
  \<open>services/host-key/\<close>, \<^theory_text>\<open>Subnet_Check\<close> the check of the allowed subnets.  \<^theory_text>\<open>Terminal_Flow\<close> and
  \<^theory_text>\<open>Backpressure\<close> are the way of the output to the browser with its pauses, \<^theory_text>\<open>Exec_Requests\<close> the
  validation of commands and terminal sizes.

  \<^bold>\<open>Sessions and logins.\<close>  \<^theory_text>\<open>Session_State\<close> has the reducers and selectors of \<open>state/\<close>, \<^theory_text>\<open>Session_Store\<close>
  the store, refined to one state machine per session, \<^theory_text>\<open>Session_Services\<close> the session and terminal services,
  \<^theory_text>\<open>Auth_Service\<close> the authentication service over the store.  \<^theory_text>\<open>Credentials\<close> are the shapes of credentials and the
  policy on methods, \<^theory_text>\<open>Auth_Pipeline\<close> the providers, \<^theory_text>\<open>Socket_Auth\<close> the authentication messages of a socket, where the
  answer of a connection service is an event of its own.  \<^theory_text>\<open>Prompt_Tracker\<close> and \<^theory_text>\<open>Prompt_Protocol\<close> are the
  prompts of the server and the validation of their answers.

  \<^bold>\<open>Files.\<close>  \<^theory_text>\<open>Path_Validator\<close>, \<^theory_text>\<open>Rate_Limiter\<close> and \<^theory_text>\<open>Transfer_Manager\<close> are the parts of
  \<open>services/sftp/\<close> of these names, \<^theory_text>\<open>Sftp_Session\<close> the channels, \<^theory_text>\<open>File_Service\<close> the operations over SFTP,
  \<^theory_text>\<open>Upload_Assembly\<close> their runs as calls on the remote side and the file an upload leaves, \<^theory_text>\<open>Download_Stream\<close> the
  pipelined download.  \<^theory_text>\<open>Shell_Commands\<close>, \<^theory_text>\<open>Shell_Service\<close> and \<^theory_text>\<open>Shell_Streams\<close> are the backend that runs shell
  commands, with a reader of shell words as the specification of the quoting; \<^theory_text>\<open>File_Backends\<close> is the contract of both
  backends, a locale interpreted on each.  \<^theory_text>\<open>Sftp_Messages\<close> validates the messages and \<^theory_text>\<open>Sftp_Adapter\<close> serves
  them.

  \<^bold>\<open>Web and configuration.\<close>  \<^theory_text>\<open>Request_Parameters\<close> is what a request may set, \<^theory_text>\<open>Theming\<close> the themes of the
  operator, \<^theory_text>\<open>Web_Routes\<close> middleware and routes, \<^theory_text>\<open>Web_Sessions\<close> what they leave in a session.  \<^theory_text>\<open>Config_Env\<close> is the
  configuration from the environment, \<^theory_text>\<open>Config_Load\<close> defaults, merging, rules and loading.  \<^theory_text>\<open>Token_Buckets\<close> has the
  limiters of requests and of log entries, \<^theory_text>\<open>Log_Format\<close> the texts of the log, \<^theory_text>\<open>Log_Transports\<close> the transports and the
  logger, \<^theory_text>\<open>Socket_Logs\<close> the entries of the socket handlers.

  \<^bold>\<open>How code becomes definitions.\<close>  A class or closure is a record of its state and one definition per method that returns the new
  state with what it emits or calls.  Code that waits is cut at each \<open>await\<close>: callbacks, timers and answers are events of a
  datatype, a step function handles one, and a run is any list of events, so the theorems hold for every interleaving; an event that
  cannot happen (a callback that is not pending, the answer to an attempt that is over) changes nothing or is excluded by a guard
  that says so.  Random numbers, fresh identifiers and the time are arguments.  What is not in the repository is a parameter: the
  answers of the ssh2 client, of sockets and streams, name resolution, the database of host keys, JSON, regular expressions of
  the operator, base64, UTF-8, SHA-256, Zod, the package \<open>validator\<close>.  A throw is an \<open>Inl\<close>, an output or an answer of its own.

  \<^bold>\<open>What is shown.\<close>  For each component the lemmas give the branches of its operations, an invariant and that every operation
  keeps it; the properties, marked by a number, rest on them.  Uploads and downloads deliver the bytes that were sent or read, in
  order and complete, over both backends; no request reaches the remote side with a path that was not validated, except that the
  stream of a download opens the path as it was sent after its validation; every request is owed one answer; a login only opens
  connections its policy allows and is told one verdict; sessions are only given out as they were issued; the subnet check is
  prefix matching; prompts belong to their socket; counters and queues of the log are exact; what is printed is read back.  A section
  \<open>Corners\<close> of many theories states where the code does something else than it seems to mean.

  \<^bold>\<open>Bounds and termination.\<close>  No definition has fuel.  Recursion is over the data, over a decreasing measure (the buffer of a
  shell download shrinks by a chunk, \<open>emit_full\<close>; a merge descends into its source), or over the list of events.  A download
  has at most two callbacks per chunk and one for the opening.  Integers of JavaScript are unbounded here where the code keeps
  them below \<open>2 ^ 53\<close>; the masks of the subnet check are 32-bit words, bytes of the Telnet protocol 8-bit words.

  \<^bold>\<open>Not modelled.\<close>  The start of the processes and the wiring of the parts (\<open>app.ts\<close>, \<open>io.ts\<close>, the factories, containers and
  the older adapters beside the services), logging calls inside the handlers, the security headers and the page template, the debug
  capture of algorithms, the declarative Zod schema, the transport of cookies and sessions, and the scripts: they call libraries or
  pass values on.  The client is a package of its own.
\<close>

end
